(* ===== verification/SohaPrelude.thy ===== *)
theory SohaPrelude
  imports Main "HOL-Library.AList" "HOL-Library.Multiset" "HOL-Library.Char_ord" "HOL-Library.List_Lexorder"
begin

text \<open>
  Shared vocabulary of the development.

  Go strings are byte strings and are modelled as \<^typ>\<open>string\<close>, one \<^typ>\<open>char\<close> per byte, so
  \<open>len\<close> is \<^const>\<open>length\<close> and the order of strings is the bytewise order of
  \<^theory_text>\<open>HOL-Library.List_Lexorder\<close>. This theory models the functions of the Go package
  \<^verbatim>\<open>strings\<close> that the agent uses. \<open>trim_space\<close> strips the UTF-8 encodings of every rune of
  \<^verbatim>\<open>unicode.IsSpace\<close>; \<open>to_lower\<close> and \<open>equal_fold\<close> fold the ASCII letters only (the case tables
  of the other scripts are not modelled).

  Instants (\<^verbatim>\<open>time.Time\<close>) are nanoseconds since the Go zero time, so \<^verbatim>\<open>IsZero\<close> is equality with 0;
  durations are nanoseconds. Go maps that the code iterates over are association lists with
  distinct keys (the list order is one of the orders the runtime may choose); their meaning as
  a map is \<^const>\<open>map_of\<close>.
\<close>

named_theorems go_string \<open>facts on the modelled package strings\<close>
named_theorems go_map \<open>facts on Go maps as association lists\<close>

subsection \<open>Time\<close>

type_synonym gotime = int
type_synonym duration = int

abbreviation (input) zero_time :: gotime where "zero_time \<equiv> 0"
abbreviation (input) millisecond :: duration where "millisecond \<equiv> 1000000"
abbreviation (input) second :: duration where "second \<equiv> 1000000000"
abbreviation (input) minute :: duration where "minute \<equiv> 60 * 1000000000"

text \<open>The value of an integer result in a Go \<^verbatim>\<open>int64\<close>, which wraps round.\<close>

definition wrap64 :: "int \<Rightarrow> int" where
  "wrap64 x = (x + 2 ^ 63) mod 2 ^ 64 - 2 ^ 63"

lemma wrap64_id: "- (2 ^ 63) \<le> x \<Longrightarrow> x < 2 ^ 63 \<Longrightarrow> wrap64 x = x"
  by (simp add: wrap64_def)

lemma wrap64_range: "- (2 ^ 63) \<le> wrap64 x \<and> wrap64 x < 2 ^ 63"
  by (simp add: wrap64_def)

subsection \<open>Prefixes, suffixes, substrings\<close>

definition has_prefix :: "string \<Rightarrow> string \<Rightarrow> bool" where
  "has_prefix s p \<longleftrightarrow> take (length p) s = p"

definition trim_prefix :: "string \<Rightarrow> string \<Rightarrow> string" where
  "trim_prefix s p = (if has_prefix s p then drop (length p) s else s)"

definition has_suffix :: "string \<Rightarrow> string \<Rightarrow> bool" where
  "has_suffix s p \<longleftrightarrow> has_prefix (rev s) (rev p)"

definition trim_suffix :: "string \<Rightarrow> string \<Rightarrow> string" where
  "trim_suffix s p = (if has_suffix s p then take (length s - length p) s else s)"

fun contains :: "string \<Rightarrow> string \<Rightarrow> bool" where
  "contains [] sub = (sub = [])"
| "contains (c # cs) sub = (has_prefix (c # cs) sub \<or> contains cs sub)"

definition contains_any :: "string \<Rightarrow> string \<Rightarrow> bool" where
  "contains_any s chars \<longleftrightarrow> (\<exists>c \<in> set s. c \<in> set chars)"

fun split_char :: "char \<Rightarrow> string \<Rightarrow> string list" where
  "split_char sep [] = [[]]"
| "split_char sep (c # cs) =
     (if c = sep then [] # split_char sep cs
      else (case split_char sep cs of [] \<Rightarrow> [[c]] | w # ws \<Rightarrow> (c # w) # ws))"

fun cut_char :: "char \<Rightarrow> string \<Rightarrow> (string \<times> string) option" where
  "cut_char sep [] = None"
| "cut_char sep (c # cs) =
     (if c = sep then Some ([], cs)
      else (case cut_char sep cs of None \<Rightarrow> None | Some (a, b) \<Rightarrow> Some (c # a, b)))"

fun join_with :: "string \<Rightarrow> string list \<Rightarrow> string" where
  "join_with sep [] = []"
| "join_with sep [w] = w"
| "join_with sep (w # v # ws) = w @ sep @ join_with sep (v # ws)"

definition trim_cutset :: "string \<Rightarrow> string \<Rightarrow> string" where
  "trim_cutset s chars =
     rev (dropWhile (\<lambda>c. c \<in> set chars) (rev (dropWhile (\<lambda>c. c \<in> set chars) s)))"

definition trim_right_cutset :: "string \<Rightarrow> string \<Rightarrow> string" where
  "trim_right_cutset s chars = rev (dropWhile (\<lambda>c. c \<in> set chars) (rev s))"

function replace_all :: "string \<Rightarrow> string \<Rightarrow> string \<Rightarrow> string" where
  "replace_all s old new =
     (if old = [] then s
      else case s of
        [] \<Rightarrow> []
      | c # cs \<Rightarrow>
          if has_prefix s old then new @ replace_all (drop (length old) s) old new
          else c # replace_all cs old new)"
  by pat_completeness auto
termination
  by (relation "measure (\<lambda>(s, old, new). length s)") (auto simp: neq_Nil_conv)

declare replace_all.simps [simp del]

subsection \<open>White space\<close>

definition ws_encodings :: "string list" where
  "ws_encodings =
     [[CHR 0x09], [CHR 0x0A], [CHR 0x0B], [CHR 0x0C], [CHR 0x0D], [CHR 0x20],
      [CHR 0xC2, CHR 0x85], [CHR 0xC2, CHR 0xA0], [CHR 0xE1, CHR 0x9A, CHR 0x80],
      [CHR 0xE2, CHR 0x80, CHR 0x80], [CHR 0xE2, CHR 0x80, CHR 0x81],
      [CHR 0xE2, CHR 0x80, CHR 0x82], [CHR 0xE2, CHR 0x80, CHR 0x83],
      [CHR 0xE2, CHR 0x80, CHR 0x84], [CHR 0xE2, CHR 0x80, CHR 0x85],
      [CHR 0xE2, CHR 0x80, CHR 0x86], [CHR 0xE2, CHR 0x80, CHR 0x87],
      [CHR 0xE2, CHR 0x80, CHR 0x88], [CHR 0xE2, CHR 0x80, CHR 0x89],
      [CHR 0xE2, CHR 0x80, CHR 0x8A], [CHR 0xE2, CHR 0x80, CHR 0xA8],
      [CHR 0xE2, CHR 0x80, CHR 0xA9], [CHR 0xE2, CHR 0x80, CHR 0xAF],
      [CHR 0xE2, CHR 0x81, CHR 0x9F], [CHR 0xE3, CHR 0x80, CHR 0x80]]"

lemma take_eq_nonempty: "take (length p) s = p \<Longrightarrow> p \<noteq> [] \<Longrightarrow> s \<noteq> []"
  by auto

function strip_front :: "string list \<Rightarrow> string \<Rightarrow> string" where
  "strip_front encs s =
     (case find (\<lambda>p. p \<noteq> [] \<and> has_prefix s p) encs of
        None \<Rightarrow> s
      | Some p \<Rightarrow> strip_front encs (drop (length p) s))"
  by pat_completeness auto
termination
  by (relation "measure (\<lambda>(encs, s). length s)")
    (auto simp: find_Some_iff has_prefix_def dest: take_eq_nonempty intro: diff_less)

declare strip_front.simps [simp del]

definition trim_left :: "string \<Rightarrow> string" where
  "trim_left s = strip_front ws_encodings s"

definition trim_right :: "string \<Rightarrow> string" where
  "trim_right s = rev (strip_front (map rev ws_encodings) (rev s))"

definition trim_space :: "string \<Rightarrow> string" where
  "trim_space s = trim_right (trim_left s)"

subsection \<open>Letter case\<close>

definition lower_char :: "char \<Rightarrow> char" where
  "lower_char c = (if 65 \<le> (of_char c :: nat) \<and> of_char c \<le> (90 :: nat)
     then char_of (of_char c + (32 :: nat)) else c)"

definition to_lower :: "string \<Rightarrow> string" where
  "to_lower s = map lower_char s"

definition equal_fold :: "string \<Rightarrow> string \<Rightarrow> bool" where
  "equal_fold s t \<longleftrightarrow> to_lower s = to_lower t"

subsection \<open>Character classes of the regular expressions\<close>

definition in_range :: "char \<Rightarrow> char \<Rightarrow> char \<Rightarrow> bool" where
  "in_range lo hi c \<longleftrightarrow> (of_char lo :: nat) \<le> of_char c \<and> (of_char c :: nat) \<le> of_char hi"

abbreviation is_digit :: "char \<Rightarrow> bool" where "is_digit \<equiv> in_range CHR ''0'' CHR ''9''"
abbreviation is_lower :: "char \<Rightarrow> bool" where "is_lower \<equiv> in_range CHR ''a'' CHR ''z''"
abbreviation is_upper :: "char \<Rightarrow> bool" where "is_upper \<equiv> in_range CHR ''A'' CHR ''Z''"

definition is_alnum :: "char \<Rightarrow> bool" where
  "is_alnum c \<longleftrightarrow> is_digit c \<or> is_lower c \<or> is_upper c"

definition is_lower_hex :: "char \<Rightarrow> bool" where
  "is_lower_hex c \<longleftrightarrow> is_digit c \<or> in_range CHR ''a'' CHR ''f'' c"

subsection \<open>Collecting distinct normalised strings\<close>

text \<open>
  The loop \<^verbatim>\<open>for _, v := range values { n := norm(v); if n == "" { continue };
  if seen[n] { continue }; seen[n] = true; out = append(out, n) }\<close>, which the agent writes
  in several places with different normalisations.
\<close>

fun collect_distinct :: "('a \<Rightarrow> string) \<Rightarrow> string list \<Rightarrow> 'a list \<Rightarrow> string list" where
  "collect_distinct norm seen [] = []"
| "collect_distinct norm seen (v # vs) =
     (let n = norm v in
      if n = [] then collect_distinct norm seen vs
      else if n \<in> set seen then collect_distinct norm seen vs
      else n # collect_distinct norm (n # seen) vs)"

subsection \<open>Lemmas\<close>

lemma has_prefix_self [go_string, simp]: "has_prefix s s"
  by (simp add: has_prefix_def)

lemma has_prefix_Nil [go_string, simp]: "has_prefix s []"
  by (simp add: has_prefix_def)

lemma has_prefix_iff: "has_prefix s p \<longleftrightarrow> (\<exists>t. s = p @ t)"
  by (metis append_eq_conv_conj append_take_drop_id has_prefix_def)

lemma has_prefix_append [go_string, simp]: "has_prefix (p @ t) p"
  by (simp add: has_prefix_def)

lemma has_prefix_mono: "has_prefix s p \<Longrightarrow> has_prefix (s @ t) p"
  by (auto simp: has_prefix_iff)

lemma has_prefix_Cons [simp]: "has_prefix (c # cs) (p # ps) \<longleftrightarrow> c = p \<and> has_prefix cs ps"
  by (auto simp: has_prefix_def)

lemma has_prefix_empty [simp]: "has_prefix [] p \<longleftrightarrow> p = []"
  by (auto simp: has_prefix_def)

lemma contains_iff: "contains s sub \<longleftrightarrow> (\<exists>a b. s = a @ sub @ b)"
proof (induction s)
  case Nil
  then show ?case by auto
next
  case (Cons c cs)
  show ?case
  proof
    assume "contains (c # cs) sub"
    then consider t where "c # cs = sub @ t" | a b where "cs = a @ sub @ b"
      using Cons.IH by (auto simp: has_prefix_iff)
    then show "\<exists>a b. c # cs = a @ sub @ b"
      by cases (metis append_Nil, metis append_Cons)
  next
    assume "\<exists>a b. c # cs = a @ sub @ b"
    then obtain a b where ab: "c # cs = a @ sub @ b" by blast
    show "contains (c # cs) sub"
    proof (cases a)
      case Nil
      with ab have "has_prefix (c # cs) sub" by (auto simp: has_prefix_iff)
      then show ?thesis by simp
    next
      case (Cons d a')
      with ab have "cs = a' @ sub @ b" by simp
      then show ?thesis using \<open>contains cs sub = (\<exists>a b. cs = a @ sub @ b)\<close> by auto
    qed
  qed
qed

lemma split_char_nonempty [simp]: "split_char sep s \<noteq> []"
  by (induction s) (auto split: list.splits)

lemma split_char_no_sep: "w \<in> set (split_char sep s) \<Longrightarrow> sep \<notin> set w"
  by (induction s arbitrary: w) (auto split: if_splits list.splits)

lemma cut_char_Some: "cut_char sep s = Some (a, b) \<Longrightarrow> s = a @ sep # b \<and> sep \<notin> set a"
  by (induction s arbitrary: a) (auto split: if_splits option.splits)

lemma cut_char_None: "cut_char sep s = None \<longleftrightarrow> sep \<notin> set s"
  by (induction s) (auto split: if_splits option.splits)

lemma strip_front_suffix: "\<exists>u. s = u @ strip_front encs s"
proof (induction encs s rule: strip_front.induct)
  case (1 encs s)
  show ?case
  proof (cases "find (\<lambda>p. p \<noteq> [] \<and> has_prefix s p) encs")
    case None
    then show ?thesis by (subst strip_front.simps) simp
  next
    case (Some p)
    with "1.IH" obtain u where u: "drop (length p) s = u @ strip_front encs (drop (length p) s)"
      by blast
    have "s = (take (length p) s @ u) @ strip_front encs (drop (length p) s)"
      using u by (metis append_assoc append_take_drop_id)
    moreover have "strip_front encs s = strip_front encs (drop (length p) s)"
      using Some by (subst strip_front.simps) simp
    ultimately show ?thesis by metis
  qed
qed

lemma strip_front_no_prefix:
  "p \<in> set encs \<Longrightarrow> p \<noteq> [] \<Longrightarrow> \<not> has_prefix (strip_front encs s) p"
proof (induction encs s rule: strip_front.induct)
  case (1 encs s)
  show ?case
  proof (cases "find (\<lambda>q. q \<noteq> [] \<and> has_prefix s q) encs")
    case None
    then have "strip_front encs s = s" by (subst strip_front.simps) simp
    with None "1.prems" show ?thesis by (auto simp: find_None_iff)
  next
    case (Some q)
    then have "strip_front encs s = strip_front encs (drop (length q) s)"
      by (subst strip_front.simps) simp
    with Some "1.IH" "1.prems" show ?thesis by simp
  qed
qed

lemma strip_front_fixed:
  "(\<And>p. p \<in> set encs \<Longrightarrow> p \<noteq> [] \<Longrightarrow> \<not> has_prefix s p) \<Longrightarrow> strip_front encs s = s"
  by (subst strip_front.simps) (auto simp: find_None_iff split: option.splits dest!: find_Some_iff [THEN iffD1])

lemma strip_front_idem [simp]: "strip_front encs (strip_front encs s) = strip_front encs s"
  by (rule strip_front_fixed) (rule strip_front_no_prefix)

lemma trim_right_prefix: "\<exists>u. s = trim_right s @ u"
proof -
  obtain u where "rev s = u @ strip_front (map rev ws_encodings) (rev s)"
    using strip_front_suffix by blast
  then have "s = trim_right s @ rev u"
    by (metis rev_append rev_rev_ident trim_right_def)
  then show ?thesis by blast
qed

lemma trim_left_trim_right: "trim_left s = s \<Longrightarrow> trim_left (trim_right s) = trim_right s"
  unfolding trim_left_def
proof (rule strip_front_fixed)
  fix p assume fixed: "strip_front ws_encodings s = s" and p: "p \<in> set ws_encodings" "p \<noteq> []"
  from fixed p have "\<not> has_prefix s p" by (metis strip_front_no_prefix)
  then show "\<not> has_prefix (trim_right s) p"
    by (metis has_prefix_mono trim_right_prefix)
qed

lemma trim_space_idem [go_string, simp]: "trim_space (trim_space s) = trim_space s"
proof -
  have "trim_left (trim_space s) = trim_space s"
    unfolding trim_space_def by (rule trim_left_trim_right) (simp add: trim_left_def)
  then show ?thesis by (simp add: trim_space_def trim_right_def)
qed

lemma trim_space_Nil [go_string, simp]: "trim_space [] = []"
proof -
  have "trim_left [] = []"
    unfolding trim_left_def by (rule strip_front_fixed) simp
  moreover have "trim_right [] = []"
    using trim_right_prefix [of "[]"] by simp
  ultimately show ?thesis by (simp add: trim_space_def)
qed

lemma trim_space_infix: "\<exists>u v. s = u @ trim_space s @ v"
  by (metis strip_front_suffix trim_left_def trim_right_prefix trim_space_def)

lemma length_trim_space: "length (trim_space s) \<le> length s"
  by (metis le_add1 le_add2 le_trans length_append trim_space_infix)

lemma set_trim_space: "set (trim_space s) \<subseteq> set s"
  by (metis Un_upper1 Un_upper2 dual_order.trans set_append trim_space_infix)

lemma trim_space_fixed:
  assumes "\<And>p. p \<in> set ws_encodings \<Longrightarrow> \<not> has_prefix s p \<and> \<not> has_suffix s p"
  shows "trim_space s = s"
proof -
  have l: "trim_left s = s"
    unfolding trim_left_def by (rule strip_front_fixed) (use assms in blast)
  have "strip_front (map rev ws_encodings) (rev s) = rev s"
    by (rule strip_front_fixed) (use assms in \<open>auto simp: has_suffix_def\<close>)
  then show ?thesis by (simp add: trim_space_def l trim_right_def)
qed

lemma lower_char_idem [simp]: "lower_char (lower_char c) = lower_char c"
proof -
  have "(of_char c :: nat) < 256" by (rule nat_of_char_less_256)
  then show ?thesis by (auto simp: lower_char_def)
qed

lemma to_lower_idem [go_string, simp]: "to_lower (to_lower s) = to_lower s"
  by (simp add: to_lower_def)

lemma length_to_lower [go_string, simp]: "length (to_lower s) = length s"
  by (simp add: to_lower_def)

lemma to_lower_Nil [go_string, simp]: "to_lower s = [] \<longleftrightarrow> s = []"
  by (simp add: to_lower_def)

lemma equal_fold_refl [simp]: "equal_fold s s"
  by (simp add: equal_fold_def)

lemma equal_fold_sym: "equal_fold s t \<Longrightarrow> equal_fold t s"
  by (simp add: equal_fold_def)

lemma equal_fold_trans: "equal_fold s t \<Longrightarrow> equal_fold t u \<Longrightarrow> equal_fold s u"
  by (simp add: equal_fold_def)

lemma lower_char_other:
  assumes "\<not> in_range CHR ''a'' CHR ''z'' x" "\<not> in_range CHR ''A'' CHR ''Z'' x"
  shows "lower_char c = x \<longleftrightarrow> c = x"
proof -
  have "of_char (char_of n :: char) = (n :: nat)" if "n < 256" for n
    using that by (simp add: of_char_of)
  then show ?thesis
    using assms by (auto simp: lower_char_def in_range_def)
qed

lemma map_lower_ws:
  assumes "p \<in> set ws_encodings"
  shows "map lower_char t = p \<longleftrightarrow> t = p" and "map lower_char t = rev p \<longleftrightarrow> t = rev p"
proof -
  have p: "\<forall>x \<in> set p. \<not> in_range CHR ''a'' CHR ''z'' x \<and> \<not> in_range CHR ''A'' CHR ''Z'' x"
    using assms unfolding ws_encodings_def by (elim set_ConsD [elim_format]) (auto simp: in_range_def)
  have all: "map lower_char t = q \<longleftrightarrow> t = q"
    if "\<forall>x \<in> set q. \<not> in_range CHR ''a'' CHR ''z'' x \<and> \<not> in_range CHR ''A'' CHR ''Z'' x" for q
    using that
  proof (induction q arbitrary: t)
    case (Cons x q)
    then show ?case by (cases t) (auto simp: lower_char_other)
  qed simp
  show "map lower_char t = p \<longleftrightarrow> t = p" "map lower_char t = rev p \<longleftrightarrow> t = rev p"
    using p by (simp_all add: all)
qed

lemma to_lower_ws:
  assumes "p \<in> set ws_encodings"
  shows "has_prefix (to_lower s) p = has_prefix s p" and "has_suffix (to_lower s) p = has_suffix s p"
  using map_lower_ws [OF assms]
  by (simp_all add: has_prefix_def has_suffix_def to_lower_def rev_map take_map)

lemma trim_space_ends:
  assumes "p \<in> set ws_encodings"
  shows "\<not> has_prefix (trim_space s) p" and "\<not> has_suffix (trim_space s) p"
proof -
  have ne: "p \<noteq> []" using assms by (auto simp: ws_encodings_def)
  have "trim_left (trim_space s) = trim_space s"
    unfolding trim_space_def by (rule trim_left_trim_right) (simp add: trim_left_def)
  then show "\<not> has_prefix (trim_space s) p"
    using strip_front_no_prefix [OF assms ne] by (metis trim_left_def)
  show "\<not> has_suffix (trim_space s) p"
    using strip_front_no_prefix [of "rev p" "map rev ws_encodings" "rev (trim_left s)"] assms ne
    by (simp add: has_suffix_def trim_space_def trim_right_def)
qed

text \<open>A text equal up to case to a trimmed one is trimmed itself.\<close>

lemma trim_space_fold:
  assumes "equal_fold s (trim_space t)"
  shows "trim_space s = s"
proof (rule trim_space_fixed)
  fix p assume p: "p \<in> set ws_encodings"
  with assms show "\<not> has_prefix s p \<and> \<not> has_suffix s p"
    using to_lower_ws [OF p] trim_space_ends [OF p] by (metis equal_fold_def)
qed

lemma set_collect_distinct:
  "set (collect_distinct norm seen vs) = norm ` set vs - {[]} - set seen"
  by (induction norm seen vs rule: collect_distinct.induct) (auto simp: Let_def)

lemma distinct_collect_distinct: "distinct (collect_distinct norm seen vs)"
  by (induction norm seen vs rule: collect_distinct.induct)
    (auto simp: Let_def set_collect_distinct)

lemma collect_distinct_empty_iff:
  "collect_distinct norm [] vs = [] \<longleftrightarrow> (\<forall>v \<in> set vs. norm v = [])"
proof -
  have "collect_distinct norm [] vs = [] \<longleftrightarrow> set (collect_distinct norm [] vs) = {}" by simp
  then show ?thesis by (auto simp: set_collect_distinct)
qed

lemma collect_distinct_fixed:
  assumes "distinct vs" and "\<And>v. v \<in> set vs \<Longrightarrow> norm v = v \<and> v \<noteq> []" and "set vs \<inter> set seen = {}"
  shows "collect_distinct norm seen vs = vs"
  using assms by (induction vs arbitrary: seen) (auto simp: Let_def)

lemma map_of_update [go_map]: "map_of (AList.update k v m) = (map_of m)(k \<mapsto> v)"
  by (rule update_conv')

lemma map_of_delete [go_map]: "map_of (AList.delete k m) = (map_of m)(k := None)"
  by (simp add: delete_conv')

lemma distinct_keys_update [go_map]:
  "distinct (map fst m) \<Longrightarrow> distinct (map fst (AList.update k v m))"
  by (rule distinct_update)

lemma distinct_keys_delete [go_map]:
  "distinct (map fst m) \<Longrightarrow> distinct (map fst (AList.delete k m))"
  by (rule distinct_delete)

lemma set_alist_update [go_map]:
  "distinct (map fst m) \<Longrightarrow> set (AList.update k v m) = insert (k, v) {e \<in> set m. fst e \<noteq> k}"
proof (induction m)
  case (Cons e m)
  show ?case
  proof (cases "fst e = k")
    case True
    then have "\<forall>e' \<in> set m. fst e' \<noteq> k" using Cons.prems by (auto simp: rev_image_eqI)
    then show ?thesis using True by (cases e) auto
  next
    case False
    then show ?thesis using Cons by (cases e) auto
  qed
qed simp

lemma set_alist_delete [go_map]: "set (AList.delete k m) = {e \<in> set m. fst e \<noteq> k}"
  by (auto simp: AList.delete_eq)

lemma map_of_filter_keys:
  "distinct (map fst m) \<Longrightarrow>
   map_of (filter P m) k = (case map_of m k of None \<Rightarrow> None | Some v \<Rightarrow> if P (k, v) then Some v else None)"
  by (induction m) (auto split: option.splits simp: map_of_eq_None_iff rev_image_eqI)

lemma ran_map_of_distinct:
  "distinct (map fst m) \<Longrightarrow> map_of m k = Some v \<longleftrightarrow> (k, v) \<in> set m"
  by (metis map_of_SomeD map_of_is_SomeI)

end
