(* ===== verification/Leases.thy ===== *)
theory Leases
  imports SohaPrelude
begin

text \<open>
  The environment lease manager, \<^verbatim>\<open>internal/agent/environment/manager.go\<close>.

  The manager's map from lease id to lease is an association list. Every exported operation
  takes the mutex for its whole body, so each is one atomic function from the store to the new
  store and a result; errors are values of \<open>lease_error\<close>. The locale \<open>lease_ledger\<close> states
  what the runtime manager relies on, and is interpreted on the modelled manager.
\<close>

subsection \<open>Data\<close>

record quota =
  q_disk :: int
  q_memory :: int
  q_cpu :: int
  q_procs :: int
  q_egress :: bool

record lease =
  lease_id :: string
  run_id :: string
  owner_id :: string
  scope_hash :: string
  lease_mode :: string
  workspace_path :: string
  lease_quota :: quota
  issued_at :: gotime
  expires_at :: gotime
  released_at :: gotime

record resource_usage =
  u_disk :: int
  u_memory :: int
  u_cpu_nanos :: int
  u_procs :: int

record lease_snapshot =
  sn_schema :: string
  sn_lease :: string
  sn_run :: string
  sn_state :: string
  sn_usage :: resource_usage
  sn_artifacts :: "string list"
  sn_observed :: gotime

datatype lease_error =
    LeaseNotFound
  | LeaseExpired
  | LeaseIdentityRequired
  | LeaseScopeRequired
  | LeaseModeUnsupported string
  | LeaseQuotaUnbounded
  | LeaseAlreadyExists string

type_synonym manager = "(string \<times> lease) list"

definition new_manager :: manager where
  "new_manager = []"

subsection \<open>Operations\<close>

definition validate_lease :: "lease \<Rightarrow> gotime \<Rightarrow> lease_error option" where
  "validate_lease l now =
     (if trim_space (lease_id l) = [] \<or> trim_space (run_id l) = [] \<or> trim_space (owner_id l) = []
      then Some LeaseIdentityRequired
      else if trim_space (scope_hash l) = [] then Some LeaseScopeRequired
      else if lease_mode l \<noteq> ''observe-only'' \<and> lease_mode l \<noteq> ''restricted-write''
      then Some (LeaseModeUnsupported (lease_mode l))
      else if \<not> now < expires_at l then Some LeaseExpired
      else if q_disk (lease_quota l) \<le> 0 \<or> q_memory (lease_quota l) \<le> 0
            \<or> q_cpu (lease_quota l) \<le> 0 \<or> q_procs (lease_quota l) \<le> 0
      then Some LeaseQuotaUnbounded
      else None)"

definition manager_acquire :: "manager \<Rightarrow> lease \<Rightarrow> gotime \<Rightarrow> manager \<times> (lease_error + lease)" where
  "manager_acquire m l now =
     (case validate_lease l now of
        Some e \<Rightarrow> (m, Inl e)
      | None \<Rightarrow>
          if map_of m (lease_id l) \<noteq> None then (m, Inl (LeaseAlreadyExists (lease_id l)))
          else
            let l1 = (if issued_at l = zero_time then l\<lparr>issued_at := now\<rparr> else l);
                l2 = l1\<lparr>released_at := zero_time\<rparr>
            in (AList.update (lease_id l) l2 m, Inr l2))"

definition manager_release :: "manager \<Rightarrow> string \<Rightarrow> gotime \<Rightarrow> manager \<times> (lease_error + lease)" where
  "manager_release m i now =
     (case map_of m i of
        None \<Rightarrow> (m, Inl LeaseNotFound)
      | Some l \<Rightarrow>
          if released_at l = zero_time
          then let l' = l\<lparr>released_at := now\<rparr> in (AList.update i l' m, Inr l')
          else (m, Inr l))"

definition manager_get :: "manager \<Rightarrow> string \<Rightarrow> lease_error + lease" where
  "manager_get m i = (case map_of m i of None \<Rightarrow> Inl LeaseNotFound | Some l \<Rightarrow> Inr l)"

definition manager_remove :: "manager \<Rightarrow> string \<Rightarrow> manager" where
  "manager_remove m i = AList.delete i m"

fun compact_loop :: "string list \<Rightarrow> string list \<Rightarrow> string list \<Rightarrow> string list" where
  "compact_loop seen out [] = out"
| "compact_loop seen out (r # rs) =
     (if 128 \<le> length out then out
      else
        let ref = trim_space r in
        if ref = [] \<or> 512 < length ref then compact_loop seen out rs
        else if ref \<in> set seen then compact_loop seen out rs
        else compact_loop (ref # seen) (out @ [ref]) rs)"

definition compact_artifact_refs :: "string list \<Rightarrow> string list" where
  "compact_artifact_refs refs = sort (compact_loop [] [] refs)"

definition snapshot_state :: "lease \<Rightarrow> resource_usage \<Rightarrow> gotime \<Rightarrow> string" where
  "snapshot_state l u now =
     (let state = (if released_at l \<noteq> zero_time then ''released''
                   else if \<not> now < expires_at l then ''expired'' else ''active'')
      in if q_disk (lease_quota l) < u_disk u \<or> q_memory (lease_quota l) < u_memory u
            \<or> q_procs (lease_quota l) < u_procs u
         then ''quota_exceeded'' else state)"

definition manager_snapshot ::
  "manager \<Rightarrow> string \<Rightarrow> resource_usage \<Rightarrow> string list \<Rightarrow> gotime \<Rightarrow> lease_error + lease_snapshot" where
  "manager_snapshot m i u refs now =
     (case map_of m i of
        None \<Rightarrow> Inl LeaseNotFound
      | Some l \<Rightarrow> Inr
          \<lparr>sn_schema = ''opensoha.dev/environment-snapshot/v1'', sn_lease = lease_id l,
           sn_run = run_id l, sn_state = snapshot_state l u now, sn_usage = u,
           sn_artifacts = compact_artifact_refs refs, sn_observed = now\<rparr>)"

definition gc_due :: "gotime \<Rightarrow> lease \<Rightarrow> bool" where
  "gc_due now l \<longleftrightarrow> \<not> (released_at l = zero_time \<and> now < expires_at l)"

definition manager_gc_expired :: "manager \<Rightarrow> gotime \<Rightarrow> manager \<times> lease list" where
  "manager_gc_expired m now =
     (filter (\<lambda>(k, l). \<not> gc_due now l) m,
      sort_key lease_id (map snd (filter (\<lambda>(k, l). gc_due now l) m)))"

subsection \<open>The invariant of the store\<close>

text \<open>
  Keys are distinct and agree with the lease they hold, and every stored lease has passed
  validation but for its deadline, which time outruns.
\<close>

definition lease_bounded :: "lease \<Rightarrow> bool" where
  "lease_bounded l \<longleftrightarrow>
     trim_space (lease_id l) \<noteq> [] \<and> trim_space (run_id l) \<noteq> [] \<and> trim_space (owner_id l) \<noteq> []
     \<and> trim_space (scope_hash l) \<noteq> [] \<and> lease_mode l \<in> {''observe-only'', ''restricted-write''}
     \<and> 0 < q_disk (lease_quota l) \<and> 0 < q_memory (lease_quota l)
     \<and> 0 < q_cpu (lease_quota l) \<and> 0 < q_procs (lease_quota l)"

definition wf_manager :: "manager \<Rightarrow> bool" where
  "wf_manager m \<longleftrightarrow>
     distinct (map fst m) \<and> (\<forall>(k, l) \<in> set m. lease_id l = k \<and> lease_bounded l)"

subsection \<open>Histories of operations\<close>

datatype ledger_op =
    OpAcquire lease gotime
  | OpRelease string gotime
  | OpRemove string

fun ledger_step ::
  "('m \<Rightarrow> lease \<Rightarrow> gotime \<Rightarrow> 'm \<times> (lease_error + lease)) \<Rightarrow>
   ('m \<Rightarrow> string \<Rightarrow> gotime \<Rightarrow> 'm \<times> (lease_error + lease)) \<Rightarrow>
   ('m \<Rightarrow> string \<Rightarrow> 'm) \<Rightarrow> 'm \<Rightarrow> ledger_op \<Rightarrow> 'm" where
  "ledger_step acq rel rem m (OpAcquire l now) = fst (acq m l now)"
| "ledger_step acq rel rem m (OpRelease i now) = fst (rel m i now)"
| "ledger_step acq rel rem m (OpRemove i) = rem m i"

definition manager_run :: "manager \<Rightarrow> ledger_op list \<Rightarrow> manager" where
  "manager_run m ops = foldl (ledger_step manager_acquire manager_release manager_remove) m ops"

definition mark_released :: "lease \<Rightarrow> gotime \<Rightarrow> lease" where
  "mark_released l now = (if released_at l = zero_time then l\<lparr>released_at := now\<rparr> else l)"

lemma lease_released_self: "\<exists>t. l = l\<lparr>released_at := t\<rparr>"
  by (rule exI [of _ "released_at l"]) simp

lemma mark_released_upd: "\<exists>t. mark_released l now = l\<lparr>released_at := t\<rparr>"
  using lease_released_self [of l] by (auto simp: mark_released_def)

subsection \<open>The contract of a lease ledger\<close>

locale lease_ledger =
  fixes get :: "'m \<Rightarrow> string \<Rightarrow> lease option"
    and acquire :: "'m \<Rightarrow> lease \<Rightarrow> gotime \<Rightarrow> 'm \<times> (lease_error + lease)"
    and release :: "'m \<Rightarrow> string \<Rightarrow> gotime \<Rightarrow> 'm \<times> (lease_error + lease)"
    and remove :: "'m \<Rightarrow> string \<Rightarrow> 'm"
  assumes acquire_fail: "acquire m l now = (m', Inl e) \<Longrightarrow> m' = m"
    and acquire_fresh: "acquire m l now = (m', Inr l') \<Longrightarrow> get m (lease_id l) = None"
    and acquire_get: "acquire m l now = (m', Inr l') \<Longrightarrow> get m' = (get m)(lease_id l \<mapsto> l')"
    and acquire_live: "acquire m l now = (m', Inr l') \<Longrightarrow> released_at l' = zero_time"
    and release_missing: "get m i = None \<Longrightarrow> release m i now = (m, Inl LeaseNotFound)"
    and release_result: "get m i = Some l \<Longrightarrow> snd (release m i now) = Inr (mark_released l now)"
    and release_get: "get m i = Some l \<Longrightarrow>
      get (fst (release m i now)) = (get m)(i \<mapsto> mark_released l now)"
    and get_remove: "get (remove m i) = (get m)(i := None)"
begin

lemma get_step_other:
  "get m i = Some l \<Longrightarrow> op \<noteq> OpRemove i \<Longrightarrow>
   get (ledger_step acquire release remove m op) i = Some l \<or>
   (\<exists>now. op = OpRelease i now \<and>
      get (ledger_step acquire release remove m op) i = Some (mark_released l now))"
proof (cases op)
  case (OpAcquire l2 now)
  assume live: "get m i = Some l"
  obtain m' r where acq: "acquire m l2 now = (m', r)" by fastforce
  show ?thesis
  proof (cases r)
    case (Inl e)
    with acq OpAcquire live show ?thesis by (auto dest: acquire_fail)
  next
    case (Inr l3)
    with acq have "get m (lease_id l2) = None" "get m' = (get m)(lease_id l2 \<mapsto> l3)"
      by (auto dest: acquire_fresh acquire_get)
    with live OpAcquire acq show ?thesis by auto
  qed
next
  case (OpRelease j now)
  assume live: "get m i = Some l"
  show ?thesis
  proof (cases "get m j")
    case None
    with live OpRelease show ?thesis by (simp add: release_missing)
  next
    case (Some k)
    with live OpRelease show ?thesis by (auto simp: release_get)
  qed
next
  case (OpRemove j)
  assume "get m i = Some l" "op \<noteq> OpRemove i"
  with OpRemove show ?thesis by (simp add: get_remove)
qed

lemma released_step:
  "get m i = Some l \<Longrightarrow> released_at l \<noteq> zero_time \<Longrightarrow> op \<noteq> OpRemove i \<Longrightarrow>
   get (ledger_step acquire release remove m op) i = Some l"
  using get_step_other [of m i l op] by (auto simp: mark_released_def)

lemma released_stable:
  "get m i = Some l \<Longrightarrow> released_at l \<noteq> zero_time \<Longrightarrow> OpRemove i \<notin> set ops \<Longrightarrow>
   get (foldl (ledger_step acquire release remove) m ops) i = Some l"
proof (induction ops arbitrary: m)
  case (Cons op ops)
  then show ?case using released_step [of m i l op] by auto
qed simp

lemma identity_pinned:
  "get m i = Some l \<Longrightarrow> OpRemove i \<notin> set ops \<Longrightarrow>
   \<exists>t. get (foldl (ledger_step acquire release remove) m ops) i = Some (l\<lparr>released_at := t\<rparr>)"
proof (induction ops arbitrary: m l)
  case Nil
  then show ?case using lease_released_self [of l] by auto
next
  case (Cons op ops)
  then have "get (ledger_step acquire release remove m op) i = Some l \<or>
      (\<exists>now. get (ledger_step acquire release remove m op) i = Some (mark_released l now))"
    using get_step_other [of m i l op] by auto
  then obtain t where "get (ledger_step acquire release remove m op) i = Some (l\<lparr>released_at := t\<rparr>)"
    using mark_released_upd lease_released_self by metis
  with Cons.IH [of _ "l\<lparr>released_at := t\<rparr>"] Cons.prems show ?case by simp
qed

end

subsection \<open>The modelled manager satisfies the contract\<close>

lemma manager_acquire_Inl: "manager_acquire m l now = (m', Inl e) \<Longrightarrow> m' = m"
  by (auto simp: manager_acquire_def Let_def split: option.splits if_splits)

lemma manager_acquire_Inr:
  assumes "manager_acquire m l now = (m', Inr l')"
  shows "validate_lease l now = None" "map_of m (lease_id l) = None"
    "m' = AList.update (lease_id l) l' m"
    "l' = l\<lparr>issued_at := (if issued_at l = zero_time then now else issued_at l), released_at := zero_time\<rparr>"
  using assms by (auto simp: manager_acquire_def Let_def split: option.splits if_splits)

interpretation mgr: lease_ledger map_of manager_acquire manager_release manager_remove
proof unfold_locales
  fix m l now m' l'
  assume acq: "manager_acquire m l now = (m', Inr l')"
  show "map_of m (lease_id l) = None" "map_of m' = (map_of m)(lease_id l \<mapsto> l')"
    "released_at l' = zero_time"
    using manager_acquire_Inr [OF acq] by (simp_all add: go_map)
qed (auto simp: manager_acquire_Inl manager_release_def manager_remove_def mark_released_def
      Let_def go_map split: option.splits)

subsection \<open>Preservation of the invariant\<close>

lemma validate_lease_bounded: "validate_lease l now = None \<Longrightarrow> lease_bounded l"
  by (auto simp: validate_lease_def lease_bounded_def split: if_splits)

lemma wf_manager_lookup:
  "wf_manager m \<Longrightarrow> map_of m i = Some l \<Longrightarrow> lease_id l = i \<and> lease_bounded l"
  by (auto simp: wf_manager_def dest: map_of_SomeD)

lemma wf_manager_update:
  "wf_manager m \<Longrightarrow> lease_id l = i \<Longrightarrow> lease_bounded l \<Longrightarrow> wf_manager (AList.update i l m)"
  by (auto simp: wf_manager_def go_map)

lemma wf_manager_acquire: "wf_manager m \<Longrightarrow> wf_manager (fst (manager_acquire m l now))"
proof (cases "snd (manager_acquire m l now)")
  case (Inl e)
  assume "wf_manager m"
  then show ?thesis using Inl by (metis manager_acquire_Inl prod.collapse)
next
  case (Inr l')
  assume wf: "wf_manager m"
  from Inr obtain m' where acq: "manager_acquire m l now = (m', Inr l')" by (metis prod.collapse)
  note facts = manager_acquire_Inr [OF acq]
  have "lease_bounded l'" using validate_lease_bounded [OF facts(1)] facts(4)
    by (simp add: lease_bounded_def)
  then show ?thesis using wf facts acq by (simp add: wf_manager_update)
qed

lemma wf_manager_release: "wf_manager m \<Longrightarrow> wf_manager (fst (manager_release m i now))"
  using wf_manager_lookup [of m i]
  by (auto simp: manager_release_def Let_def lease_bounded_def split: option.splits
      intro!: wf_manager_update)

lemma wf_manager_remove: "wf_manager m \<Longrightarrow> wf_manager (manager_remove m i)"
  by (auto simp: wf_manager_def manager_remove_def go_map)

lemma wf_manager_step:
  "wf_manager m \<Longrightarrow> wf_manager (ledger_step manager_acquire manager_release manager_remove m op)"
  by (cases op) (auto intro: wf_manager_acquire wf_manager_release wf_manager_remove)

lemma wf_manager_run: "wf_manager m \<Longrightarrow> wf_manager (manager_run m ops)"
  unfolding manager_run_def by (induction ops arbitrary: m) (auto intro: wf_manager_step)

lemma wf_manager_gc: "wf_manager m \<Longrightarrow> wf_manager (fst (manager_gc_expired m now))"
  by (auto simp: wf_manager_def manager_gc_expired_def distinct_map_filter)

lemma wf_new_manager: "wf_manager new_manager"
  by (simp add: wf_manager_def new_manager_def)

subsection \<open>Artifact references\<close>

definition ref_ok :: "string \<Rightarrow> bool" where
  "ref_ok ref \<longleftrightarrow> ref \<noteq> [] \<and> length ref \<le> 512"

lemma compact_loop_props:
  "set seen = set out \<Longrightarrow> distinct out \<Longrightarrow> length out \<le> 128 \<Longrightarrow>
   distinct (compact_loop seen out refs) \<and> length (compact_loop seen out refs) \<le> 128 \<and>
   set out \<subseteq> set (compact_loop seen out refs) \<and>
   set (compact_loop seen out refs) \<subseteq> set out \<union> {trim_space r |r. r \<in> set refs \<and> ref_ok (trim_space r)} \<and>
   (length (compact_loop seen out refs) < 128 \<longrightarrow>
      set (compact_loop seen out refs) = set out \<union> {trim_space r |r. r \<in> set refs \<and> ref_ok (trim_space r)})"
proof (induction seen out refs rule: compact_loop.induct)
  case (1 seen out)
  then show ?case by simp
next
  case (2 seen out r rs)
  define ref where "ref = trim_space r"
  consider (full) "128 \<le> length out"
    | (bad) "length out < 128" "\<not> ref_ok ref"
    | (dup) "length out < 128" "ref_ok ref" "ref \<in> set seen"
    | (new) "length out < 128" "ref_ok ref" "ref \<notin> set seen"
    by linarith
  then show ?case
  proof cases
    case full
    with "2.prems" show ?thesis by auto
  next
    case bad
    then have step: "compact_loop seen out (r # rs) = compact_loop seen out rs"
      by (auto simp: Let_def ref_ok_def ref_def)
    have "{trim_space q |q. q \<in> set (r # rs) \<and> ref_ok (trim_space q)}
        = {trim_space q |q. q \<in> set rs \<and> ref_ok (trim_space q)}"
      using bad by (auto simp: ref_def)
    moreover note "2.IH"(1) [OF _ refl _ "2.prems"]
    ultimately show ?thesis using bad step by (auto simp: ref_ok_def ref_def)
  next
    case dup
    then have step: "compact_loop seen out (r # rs) = compact_loop seen out rs"
      by (auto simp: Let_def ref_ok_def ref_def)
    moreover note "2.IH"(2) [OF _ refl _ _ "2.prems"]
    ultimately show ?thesis using dup "2.prems"(1) by (auto simp: ref_ok_def ref_def)
  next
    case new
    then have step: "compact_loop seen out (r # rs) = compact_loop (ref # seen) (out @ [ref]) rs"
      by (auto simp: Let_def ref_ok_def ref_def)
    moreover note "2.IH"(3) [OF _ refl]
    ultimately show ?thesis using new "2.prems" by (auto simp: ref_ok_def ref_def)
  qed
qed

subsection \<open>Properties\<close>

text \<open>However acquisitions, releases and removals interleave, every lease the manager stores
  sits under its own id, under one key only, and satisfies everything validation demanded of it:
  identity, scope hash and mode present and all four quotas positive.\<close>

theorem manager_reachable_wf: "wf_manager (manager_run new_manager ops)"
  by (rule wf_manager_run [OF wf_new_manager])

text \<open>A stored lease is never replaced: until its id is removed, only its release time can
  change (a second acquisition under the id is refused), and once it is released the first
  release time stays whatever is attempted later.\<close>

theorem manager_lease_pinned:
  assumes "map_of m i = Some l" and "OpRemove i \<notin> set ops"
  shows "\<exists>t. map_of (manager_run m ops) i = Some (l\<lparr>released_at := t\<rparr>)
    \<and> (released_at l \<noteq> zero_time \<longrightarrow> t = released_at l)"
proof (cases "released_at l = zero_time")
  case True
  with mgr.identity_pinned [OF assms] show ?thesis by (simp add: manager_run_def)
next
  case False
  with mgr.released_stable [OF assms(1) _ assms(2)] lease_released_self [of l] show ?thesis
    by (auto simp: manager_run_def)
qed

definition sample_quota :: quota where
  "sample_quota = \<lparr>q_disk = 1024, q_memory = 512, q_cpu = 1, q_procs = 4, q_egress = False\<rparr>"

definition sample_lease :: lease where
  "sample_lease = \<lparr>lease_id = ''l1'', run_id = ''r1'', owner_id = ''o1'', scope_hash = ''s'',
     lease_mode = ''observe-only'', workspace_path = '''', lease_quota = sample_quota,
     issued_at = 5, expires_at = 100, released_at = 0\<rparr>"

theorem manager_lease_pinned_witness:
  "\<exists>t. map_of (manager_run [(''l1'', sample_lease)] [OpRelease ''l1'' 7, OpRelease ''l1'' 9]) ''l1''
     = Some (sample_lease\<lparr>released_at := t\<rparr>)"
  using manager_lease_pinned [of "[(''l1'', sample_lease)]" "''l1''" sample_lease
      "[OpRelease ''l1'' 7, OpRelease ''l1'' 9]"] by auto

text \<open>Acquisition succeeds exactly when the lease is complete and bounded, its deadline lies
  ahead and its id is free; it then stores the lease as issued and unreleased and touches no
  other id, and on any refusal the store is unchanged.\<close>

theorem manager_acquire_outcome:
  "(case manager_acquire m l now of
      (m', Inr l') \<Rightarrow> lease_bounded l \<and> now < expires_at l \<and> map_of m (lease_id l) = None
        \<and> map_of m' = (map_of m)(lease_id l \<mapsto> l') \<and> released_at l' = zero_time
        \<and> issued_at l' = (if issued_at l = zero_time then now else issued_at l)
    | (m', Inl e) \<Rightarrow> m' = m
        \<and> \<not> (lease_bounded l \<and> now < expires_at l \<and> map_of m (lease_id l) = None))"
proof (cases "manager_acquire m l now")
  case (Pair m' r)
  show ?thesis
  proof (cases r)
    case (Inl e)
    have "\<not> (lease_bounded l \<and> now < expires_at l \<and> map_of m (lease_id l) = None)"
      using Pair Inl
      by (auto simp: manager_acquire_def validate_lease_def lease_bounded_def Let_def split: if_splits)
    with Pair Inl show ?thesis by (simp add: manager_acquire_Inl)
  next
    case (Inr l')
    note facts = manager_acquire_Inr [OF Pair [unfolded Inr]]
    have "now < expires_at l" using facts(1) by (auto simp: validate_lease_def split: if_splits)
    with facts validate_lease_bounded [OF facts(1)] Pair Inr show ?thesis by (simp add: go_map)
  qed
qed

text \<open>Garbage collection returns exactly the released and the expired leases, in increasing
  order of id and each once, removes them and only them, and so never takes a lease that is
  active and unexpired.\<close>

theorem manager_gc_expired_spec:
  assumes "wf_manager m"
  shows "map_of (fst (manager_gc_expired m now)) i =
      (case map_of m i of None \<Rightarrow> None | Some l \<Rightarrow> if gc_due now l then None else Some l)
    \<and> set (snd (manager_gc_expired m now)) = {l. \<exists>k. map_of m k = Some l \<and> gc_due now l}
    \<and> sorted (map lease_id (snd (manager_gc_expired m now)))
    \<and> distinct (map lease_id (snd (manager_gc_expired m now)))"
proof -
  have d: "distinct (map fst m)" and k: "\<And>k l. (k, l) \<in> set m \<Longrightarrow> lease_id l = k"
    using assms by (auto simp: wf_manager_def)
  have ids: "map lease_id (map snd (filter P m)) = map fst (filter P m)" for P
    using k by (auto simp: comp_def intro!: map_cong)
  have "distinct (map fst (filter P m))" for P
    using d by (rule distinct_map_filter)
  then have dist: "distinct (map lease_id (map snd (filter P m)))" for P
    by (simp only: ids)
  have "mset (map lease_id (sort_key lease_id xs)) = mset (map lease_id xs)" for xs
    by simp
  then have perm: "distinct (map lease_id (sort_key lease_id xs)) = distinct (map lease_id xs)" for xs
    by (metis mset_eq_imp_distinct_iff)
  have "distinct (map lease_id (snd (manager_gc_expired m now)))"
    unfolding manager_gc_expired_def snd_conv perm by (rule dist)
  moreover have "sorted (map lease_id (snd (manager_gc_expired m now)))"
    unfolding manager_gc_expired_def snd_conv by (rule sorted_sort_key)
  moreover have "map_of (fst (manager_gc_expired m now)) i =
      (case map_of m i of None \<Rightarrow> None | Some l \<Rightarrow> if gc_due now l then None else Some l)"
    using map_of_filter_keys [OF d] by (auto simp: manager_gc_expired_def split: option.splits)
  moreover have "set (snd (manager_gc_expired m now)) = {l. \<exists>k. map_of m k = Some l \<and> gc_due now l}"
    using d by (auto simp: manager_gc_expired_def image_iff)
  ultimately show ?thesis by blast
qed

theorem manager_gc_expired_spec_witness:
  "map_of (fst (manager_gc_expired [(''l1'', sample_lease)] 100)) ''l1'' = None"
proof -
  have "wf_manager [(''l1'', sample_lease)]"
    unfolding wf_manager_def lease_bounded_def sample_lease_def sample_quota_def by code_simp
  from manager_gc_expired_spec [OF this, of 100 "''l1''"] show ?thesis
    by (simp add: gc_due_def sample_lease_def)
qed

text \<open>A snapshot carries at most 128 artifact references, sorted, without repetition, each a
  trimmed input of 1 to 512 bytes; and when fewer than 128 are carried, no usable reference was
  dropped.\<close>

theorem compact_artifact_refs_spec:
  "sorted (compact_artifact_refs refs) \<and> distinct (compact_artifact_refs refs)
   \<and> length (compact_artifact_refs refs) \<le> 128
   \<and> set (compact_artifact_refs refs) \<subseteq> {trim_space r |r. r \<in> set refs \<and> ref_ok (trim_space r)}
   \<and> (length (compact_artifact_refs refs) < 128 \<longrightarrow>
        set (compact_artifact_refs refs) = {trim_space r |r. r \<in> set refs \<and> ref_ok (trim_space r)})"
  using compact_loop_props [of "[]" "[]" refs] by (auto simp: compact_artifact_refs_def)

theorem compact_artifact_refs_spec_witness:
  "set (compact_artifact_refs [''b'', '' a'', ''b '']) = {''a'', ''b''}
   \<and> length (compact_artifact_refs [''b'', '' a'', ''b '']) < 128
   \<and> sorted (compact_artifact_refs [''b'', '' a'', ''b ''])"
proof -
  have val: "compact_artifact_refs [''b'', '' a'', ''b ''] = [''a'', ''b'']" by code_simp
  show ?thesis
    using compact_artifact_refs_spec [of "[''b'', '' a'', ''b '']"] unfolding val by auto
qed

end
