(* ===== verification/GoPath.thy ===== *)
theory GoPath
  imports SohaPrelude
begin

text \<open>
  The functions of the Go package \<^verbatim>\<open>path/filepath\<close> (on Unix; \<^verbatim>\<open>path\<close> is the same there) that
  the agent uses to confine file names, and the agent's own confinement function
  \<^verbatim>\<open>resolveWorkspacePath\<close> of \<^verbatim>\<open>internal/agent/runner/runner.go\<close>.

  \<open>clean_step\<close> is one round of the loop of \<^verbatim>\<open>Clean\<close> on the list of components kept so far, last
  first; \<open>path_parts\<close> is the list \<^verbatim>\<open>Clean\<close> ends with. The file system (\<^verbatim>\<open>Lstat\<close>,
  \<^verbatim>\<open>EvalSymlinks\<close>, \<^verbatim>\<open>Abs\<close>) is a parameter of the definitions that read it.
\<close>

subsection \<open>Definitions\<close>

definition is_abs :: "string \<Rightarrow> bool" where
  "is_abs p \<longleftrightarrow> has_prefix p ''/''"

definition clean_step :: "bool \<Rightarrow> string list \<Rightarrow> string \<Rightarrow> string list" where
  "clean_step rooted out p =
     (if p = [] \<or> p = ''.'' then out
      else if p = ''..'' then
        (case out of
           [] \<Rightarrow> if rooted then [] else [''..'']
         | q # qs \<Rightarrow> if q = ''..'' then ''..'' # out else qs)
      else p # out)"

definition path_parts :: "string \<Rightarrow> string list" where
  "path_parts p = rev (foldl (clean_step (is_abs p)) [] (split_char CHR ''/'' p))"

definition render_path :: "bool \<Rightarrow> string list \<Rightarrow> string" where
  "render_path rooted ps =
     (if rooted then CHR ''/'' # join_with ''/'' ps
      else if ps = [] then ''.'' else join_with ''/'' ps)"

definition clean_path :: "string \<Rightarrow> string" where
  "clean_path p = render_path (is_abs p) (path_parts p)"

definition join_path :: "string list \<Rightarrow> string" where
  "join_path es =
     (case dropWhile (\<lambda>e. e = []) es of [] \<Rightarrow> [] | e # rest \<Rightarrow> clean_path (join_with ''/'' (e # rest)))"

fun strip_common :: "string list \<Rightarrow> string list \<Rightarrow> string list \<times> string list" where
  "strip_common (x # xs) (y # ys) = (if x = y then strip_common xs ys else (x # xs, y # ys))"
| "strip_common xs ys = (xs, ys)"

definition rel_components :: "string \<Rightarrow> string list" where
  "rel_components p =
     (let q = clean_path p in
      if is_abs q then path_parts q else split_char CHR ''/'' q)"

text \<open>\<^verbatim>\<open>filepath.Rel\<close>: \<^const>\<open>None\<close> is its error.\<close>

definition rel_path :: "string \<Rightarrow> string \<Rightarrow> string option" where
  "rel_path base targ =
     (let b = clean_path base; t = clean_path targ in
      if b = t then Some ''.''
      else if is_abs b \<noteq> is_abs t then None
      else
        let bs = (if b = ''.'' then [] else rel_components b);
            (brest, trest) = strip_common bs (rel_components t)
        in if brest \<noteq> [] \<and> hd brest = ''..'' then None
           else Some (join_with ''/'' (map (\<lambda>_. ''..'') brest @ trest)))"

definition resolve_workspace_path :: "string \<Rightarrow> string \<Rightarrow> string option" where
  "resolve_workspace_path root relative =
     (if is_abs relative then None
      else
        let cleaned0 = clean_path relative;
            cleaned = (if cleaned0 = ''.'' then [] else cleaned0)
        in if has_prefix cleaned ''..'' then None
           else
             let full = clean_path (join_path [root, cleaned]);
                 root' = clean_path root
             in if full \<noteq> root' \<and> \<not> has_prefix full (root' @ ''/'') then None
                else Some full)"

subsection \<open>Components\<close>

definition plain_part :: "string \<Rightarrow> bool" where
  "plain_part p \<longleftrightarrow> p \<noteq> [] \<and> p \<noteq> ''.'' \<and> p \<noteq> ''..'' \<and> CHR ''/'' \<notin> set p"

text \<open>What \<^const>\<open>clean_step\<close> keeps, last component first: plain components over a run of \<open>..\<close>,
  and no \<open>..\<close> at all in a rooted path.\<close>

definition clean_stack :: "bool \<Rightarrow> string list \<Rightarrow> bool" where
  "clean_stack rooted out \<longleftrightarrow>
     (\<exists>ps n. out = ps @ replicate n ''..'' \<and> list_all plain_part ps \<and> (rooted \<longrightarrow> n = 0))"

lemma split_char_append:
  "split_char c (a @ c # b) = split_char c a @ split_char c b"
  by (induction a) (auto split: list.splits)

lemma split_char_plain: "c \<notin> set w \<Longrightarrow> split_char c w = [w]"
  by (induction w) auto

lemma split_join:
  "ws \<noteq> [] \<Longrightarrow> (\<And>w. w \<in> set ws \<Longrightarrow> c \<notin> set w) \<Longrightarrow> split_char c (join_with [c] ws) = ws"
proof (induction ws rule: induct_list012)
  case (3 w v ws)
  then have "split_char c (w @ c # join_with [c] (v # ws)) = [w] @ v # ws"
    by (simp add: split_char_append split_char_plain)
  then show ?case by simp
qed (auto simp: split_char_plain)

lemma clean_stack_step:
  assumes stack: "clean_stack rooted out" and sep: "CHR ''/'' \<notin> set p"
  shows "clean_stack rooted (clean_step rooted out p)"
proof -
  from stack obtain ps n where out: "out = ps @ replicate n ''..''" "list_all plain_part ps"
      "rooted \<longrightarrow> n = 0"
    by (auto simp: clean_stack_def)
  consider (skip) "p = [] \<or> p = ''.''" | (up) "p = ''..''"
    | (plain) "plain_part p" using sep by (auto simp: plain_part_def)
  then show ?thesis
  proof cases
    case skip
    with stack show ?thesis by (simp add: clean_step_def)
  next
    case plain
    then have "clean_step rooted out p = (p # ps) @ replicate n ''..''"
      using out by (auto simp: clean_step_def plain_part_def)
    with plain out show ?thesis unfolding clean_stack_def
      by (intro exI [of _ "p # ps"] exI [of _ n]) auto
  next
    case up
    show ?thesis
    proof (cases ps)
      case (Cons q qs)
      with up out have "clean_step rooted out p = qs @ replicate n ''..''"
        by (auto simp: clean_step_def plain_part_def)
      with out Cons show ?thesis unfolding clean_stack_def
        by (intro exI [of _ qs] exI [of _ n]) auto
    next
      case Nil
      show ?thesis
      proof (cases n)
        case 0
        with up out Nil have "clean_step rooted out p = [] @ replicate (if rooted then 0 else 1) ''..''"
          by (simp add: clean_step_def)
        then show ?thesis unfolding clean_stack_def
          by (intro exI [of _ "[]"] exI [of _ "if rooted then 0 else 1"]) simp
      next
        case (Suc k)
        with up out Nil have "clean_step rooted out p = [] @ replicate (Suc n) ''..''"
          by (simp add: clean_step_def)
        moreover have "\<not> rooted" using Suc out by simp
        ultimately show ?thesis unfolding clean_stack_def
          by (intro exI [of _ "[]"] exI [of _ "Suc n"]) simp
      qed
    qed
  qed
qed

lemma clean_stack_foldl:
  "clean_stack rooted out \<Longrightarrow> (\<And>p. p \<in> set ps \<Longrightarrow> CHR ''/'' \<notin> set p) \<Longrightarrow>
   clean_stack rooted (foldl (clean_step rooted) out ps)"
  by (induction ps arbitrary: out) (auto intro: clean_stack_step)

lemma clean_stack_Nil [simp]: "clean_stack rooted []"
  unfolding clean_stack_def by (intro exI [of _ "[]"] exI [of _ 0]) simp

lemma clean_stack_parts: "clean_stack (is_abs p) (rev (path_parts p))"
  by (simp add: path_parts_def clean_stack_foldl split_char_no_sep)

lemma clean_step_plain: "plain_part p \<Longrightarrow> clean_step rooted out p = p # out"
  by (auto simp: clean_step_def plain_part_def)

lemma foldl_clean_plain:
  "list_all plain_part ps \<Longrightarrow> foldl (clean_step rooted) out ps = rev ps @ out"
  by (induction ps arbitrary: out) (auto simp: clean_step_plain)

lemma foldl_clean_up: "foldl (clean_step False) (replicate k ''..'') (replicate n ''..'')
    = replicate (n + k) ''..''"
proof (induction n arbitrary: k)
  case (Suc n)
  have "clean_step False (replicate k ''..'') ''..'' = replicate (Suc k) ''..''"
    by (cases k) (auto simp: clean_step_def)
  with Suc [of "Suc k"] show ?case by simp
qed simp

lemma foldl_clean_stack:
  assumes "clean_stack rooted (rev ps)"
  shows "foldl (clean_step rooted) [] ps = rev ps"
proof -
  from assms obtain qs n where ps: "rev ps = qs @ replicate n ''..''" "list_all plain_part qs"
      "rooted \<longrightarrow> n = 0"
    by (auto simp: clean_stack_def)
  then have ps': "ps = replicate n ''..'' @ rev qs" by (metis rev_append rev_replicate rev_rev_ident)
  show ?thesis
  proof (cases rooted)
    case True
    with ps ps' show ?thesis by (simp add: foldl_clean_plain list_all_iff)
  next
    case False
    have "foldl (clean_step rooted) [] (replicate n ''..'') = replicate n ''..''"
      using foldl_clean_up [of 0 n] False by simp
    with ps ps' show ?thesis by (simp add: foldl_clean_plain list_all_iff)
  qed
qed

lemma clean_stack_member:
  assumes "clean_stack rooted (rev ps)" and p: "p \<in> set ps"
  shows "plain_part p \<or> p = ''..''"
proof -
  from assms(1) obtain qs n where ps: "rev ps = qs @ replicate n ''..''" and "list_all plain_part qs"
    unfolding clean_stack_def by blast
  then have plain: "\<And>q. q \<in> set qs \<Longrightarrow> plain_part q" by (simp add: list_all_iff)
  have "set (rev ps) = set qs \<union> set (replicate n ''..'')" unfolding ps by simp
  with p have "p \<in> set qs \<or> p \<in> set (replicate n ''..'')" by simp
  with plain show ?thesis by (metis in_set_replicate)
qed

lemma clean_stack_no_slash: "clean_stack rooted (rev ps) \<Longrightarrow> p \<in> set ps \<Longrightarrow> CHR ''/'' \<notin> set p"
  using clean_stack_member [of rooted ps p] by (fastforce simp: plain_part_def)

lemma clean_stack_nonempty: "clean_stack rooted (rev ps) \<Longrightarrow> p \<in> set ps \<Longrightarrow> p \<noteq> []"
  using clean_stack_member [of rooted ps p] by (auto simp: plain_part_def)

lemma join_with_Cons: "join_with sep (w # ws) = (if ws = [] then w else w @ sep @ join_with sep ws)"
  by (cases ws) auto

lemma join_with_append:
  "xs \<noteq> [] \<Longrightarrow> ys \<noteq> [] \<Longrightarrow> join_with sep (xs @ ys) = join_with sep xs @ sep @ join_with sep ys"
  by (induction xs) (auto simp: join_with_Cons)

lemma has_prefix_join: "ws \<noteq> [] \<Longrightarrow> has_prefix (join_with sep ws) (hd ws)"
  by (cases ws) (auto simp: join_with_Cons)

lemma is_abs_render: "clean_stack rooted (rev ps) \<Longrightarrow> is_abs (render_path rooted ps) = rooted"
proof (cases ps)
  case (Cons w ws)
  assume stack: "clean_stack rooted (rev ps)"
  have "w \<noteq> []" "CHR ''/'' \<notin> set w"
    using clean_stack_nonempty [OF stack, of w] clean_stack_no_slash [OF stack, of w] Cons by simp_all
  then obtain c cs where w: "w = c # cs" "c \<noteq> CHR ''/''" by (cases w) auto
  show ?thesis
  proof (cases rooted)
    case True
    then show ?thesis by (simp add: render_path_def is_abs_def)
  next
    case False
    with Cons w show ?thesis by (cases ws) (simp_all add: render_path_def is_abs_def)
  qed
qed (simp_all add: render_path_def is_abs_def)

lemma path_parts_render:
  assumes "clean_stack rooted (rev ps)"
  shows "path_parts (render_path rooted ps) = ps"
proof (cases "ps = []")
  case True
  then show ?thesis by (cases rooted) (auto simp: render_path_def path_parts_def clean_step_def)
next
  case False
  then have split: "split_char CHR ''/'' (join_with ''/'' ps) = ps"
    using clean_stack_no_slash [OF assms] by (intro split_join) auto
  have "path_parts (render_path rooted ps) = rev (foldl (clean_step rooted) [] ps)"
    unfolding path_parts_def is_abs_render [OF assms]
    using False split by (auto simp: render_path_def clean_step_def [of _ _ "[]"])
  with foldl_clean_stack [OF assms] show ?thesis by simp
qed

lemma path_parts_clean [simp]: "path_parts (clean_path p) = path_parts p"
  unfolding clean_path_def by (rule path_parts_render [OF clean_stack_parts])

lemma is_abs_clean [simp]: "is_abs (clean_path p) = is_abs p"
  unfolding clean_path_def by (rule is_abs_render [OF clean_stack_parts])

lemma clean_path_idem [simp]: "clean_path (clean_path p) = clean_path p"
  by (simp add: clean_path_def [of "clean_path p"]) (simp add: clean_path_def)

lemma abs_parts_plain: "is_abs p \<Longrightarrow> list_all plain_part (path_parts p)"
  using clean_stack_parts [of p] by (auto simp: clean_stack_def list_all_iff)

lemma rel_parts_shape:
  "\<exists>n ps. path_parts p = replicate n ''..'' @ ps \<and> list_all plain_part ps"
proof -
  obtain ps n where "rev (path_parts p) = ps @ replicate n ''..''" "list_all plain_part ps"
    using clean_stack_parts [of p] by (auto simp: clean_stack_def)
  then have "path_parts p = replicate n ''..'' @ rev ps" "list_all plain_part (rev ps)"
    by (metis rev_append rev_replicate rev_rev_ident) (simp add: list_all_iff \<open>list_all plain_part ps\<close> [unfolded list_all_iff])
  then show ?thesis by blast
qed

lemma is_abs_append: "p \<noteq> [] \<Longrightarrow> is_abs (p @ q) = is_abs p"
  by (cases p) (auto simp: is_abs_def has_prefix_def)

lemma path_parts_append:
  "p \<noteq> [] \<Longrightarrow> path_parts (p @ CHR ''/'' # q)
     = rev (foldl (clean_step (is_abs p)) (rev (path_parts p)) (split_char CHR ''/'' q))"
  by (simp add: path_parts_def is_abs_append split_char_append)

subsection \<open>Confinement under a root\<close>

lemma rel_no_escape:
  assumes "\<not> is_abs p" and "\<not> has_prefix (clean_path p) ''..''"
  shows "list_all plain_part (path_parts p)"
proof -
  obtain n ps where shape: "path_parts p = replicate n ''..'' @ ps" "list_all plain_part ps"
    using rel_parts_shape by blast
  have "n = 0"
  proof (rule ccontr)
    assume "n \<noteq> 0"
    then obtain k where "n = Suc k" by (cases n) auto
    with shape have parts: "path_parts p = ''..'' # replicate k ''..'' @ ps" by simp
    then have "clean_path p = join_with ''/'' (path_parts p)"
      using assms(1) by (simp add: clean_path_def render_path_def)
    then have "has_prefix (clean_path p) ''..''"
      using has_prefix_join [of "path_parts p" "''/''"] parts by simp
    with assms(2) show False by simp
  qed
  with shape show ?thesis by simp
qed

lemma split_rendered:
  assumes "list_all plain_part ps"
  shows "foldl (clean_step rooted) out (split_char CHR ''/'' (join_with ''/'' ps)) = rev ps @ out"
proof (cases "ps = []")
  case True
  then show ?thesis by (simp add: clean_step_def)
next
  case False
  moreover have "CHR ''/'' \<notin> set w" if "w \<in> set ps" for w
    using assms that by (auto simp: list_all_iff plain_part_def)
  ultimately have "split_char CHR ''/'' (join_with ''/'' ps) = ps" by (intro split_join) auto
  with assms show ?thesis by (simp add: foldl_clean_plain)
qed

lemma join_root_relative:
  assumes root: "is_abs root" and ps: "list_all plain_part ps"
  shows "clean_path (join_path [root, join_with ''/'' ps]) = render_path True (path_parts root @ ps)"
proof -
  from root have ne: "root \<noteq> []" by (auto simp: is_abs_def)
  then have "join_path [root, join_with ''/'' ps] = clean_path (root @ CHR ''/'' # join_with ''/'' ps)"
    by (simp add: join_path_def)
  then have "clean_path (join_path [root, join_with ''/'' ps])
      = clean_path (root @ CHR ''/'' # join_with ''/'' ps)" by simp
  also have "\<dots> = render_path True (path_parts (root @ CHR ''/'' # join_with ''/'' ps))"
    using ne root by (simp add: clean_path_def is_abs_append)
  also have "path_parts (root @ CHR ''/'' # join_with ''/'' ps) = path_parts root @ ps"
    using root split_rendered [OF ps] by (simp add: path_parts_append [OF ne])
  finally show ?thesis .
qed

lemma join_path_part:
  assumes "is_abs root" and "plain_part p"
  shows "join_path [root, p] = render_path True (path_parts root @ [p])"
proof -
  have "root \<noteq> []" using assms(1) by (auto simp: is_abs_def)
  then have "clean_path (join_path [root, p]) = join_path [root, p]" by (simp add: join_path_def)
  with join_root_relative [OF assms(1), of "[p]"] assms(2) show ?thesis by simp
qed

lemma under_root_iff:
  assumes root: "list_all plain_part rs" and ps: "list_all plain_part ps"
  shows "render_path True (rs @ ps) = render_path True rs \<longleftrightarrow> ps = []"
    and "ps \<noteq> [] \<Longrightarrow> has_prefix (render_path True (rs @ ps)) (render_path True rs @ ''/'') \<longleftrightarrow> rs \<noteq> []"
proof -
  have stack: "clean_stack True (rev xs)" if "list_all plain_part xs" for xs
    unfolding clean_stack_def using that by (intro exI [of _ "rev xs"] exI [of _ 0]) (simp add: list_all_iff)
  have all: "list_all plain_part (rs @ ps)" using assms by simp
  show "render_path True (rs @ ps) = render_path True rs \<longleftrightarrow> ps = []"
    using path_parts_render [OF stack [OF all]] path_parts_render [OF stack [OF root]]
    by (metis append_self_conv)
  assume ne: "ps \<noteq> []"
  show "has_prefix (render_path True (rs @ ps)) (render_path True rs @ ''/'') \<longleftrightarrow> rs \<noteq> []"
  proof (cases "rs = []")
    case False
    with ne show ?thesis by (simp add: render_path_def join_with_append has_prefix_def)
  next
    case True
    from ne obtain p qs where p: "ps = p # qs" by (cases ps) auto
    with ps have "p \<noteq> []" "CHR ''/'' \<notin> set p" by (auto simp: plain_part_def)
    then obtain c cs where "p = c # cs" "c \<noteq> CHR ''/''" by (cases p) auto
    with p True show ?thesis by (cases qs) (simp_all add: render_path_def has_prefix_def)
  qed
qed

lemma resolve_workspace_path_eq:
  assumes root: "is_abs root"
  shows "resolve_workspace_path root relative =
    (if is_abs relative \<or> has_prefix (clean_path relative) ''..'' then None
     else if path_parts relative \<noteq> [] \<and> path_parts root = [] then None
     else Some (render_path True (path_parts root @ path_parts relative)))"
proof (cases "is_abs relative \<or> has_prefix (clean_path relative) ''..''")
  case True
  then show ?thesis by (auto simp: resolve_workspace_path_def Let_def has_prefix_def split: if_splits)
next
  case False
  then have plain: "list_all plain_part (path_parts relative)" by (auto intro: rel_no_escape)
  have clean: "(if clean_path relative = ''.'' then [] else clean_path relative)
      = join_with ''/'' (path_parts relative)"
  proof (cases "path_parts relative = []")
    case True
    with False show ?thesis by (simp add: clean_path_def render_path_def)
  next
    case ne: False
    with False have "clean_path relative = join_with ''/'' (path_parts relative)"
      by (simp add: clean_path_def render_path_def)
    moreover have "clean_path relative \<noteq> ''.''"
      using ne path_parts_clean [of relative] by (auto simp: path_parts_def clean_step_def is_abs_def)
    ultimately show ?thesis by simp
  qed
  have "\<not> has_prefix (join_with ''/'' (path_parts relative)) ''..''"
    using False clean by (metis has_prefix_empty list.distinct(1))
  moreover have "clean_path root = render_path True (path_parts root)"
    using root by (simp add: clean_path_def)
  ultimately show ?thesis
    using False under_root_iff [OF abs_parts_plain [OF root] plain]
    by (auto simp: resolve_workspace_path_def Let_def clean join_root_relative [OF root plain])
qed

subsection \<open>Properties\<close>

text \<open>A workspace path the runner accepts is a clean absolute path whose components are those of
  the workspace root followed by those of the requested path, none of them \<open>..\<close>: nothing under
  the runner's control lies outside its root.\<close>

theorem resolve_workspace_path_confined:
  assumes "is_abs root" and "resolve_workspace_path root relative = Some full"
  shows "clean_path full = full \<and> path_parts full = path_parts root @ path_parts relative
    \<and> list_all plain_part (path_parts full)
    \<and> (full = clean_path root \<or> has_prefix full (clean_path root @ ''/''))"
proof -
  have rel: "\<not> is_abs relative" "\<not> has_prefix (clean_path relative) ''..''"
      "path_parts relative \<noteq> [] \<longrightarrow> path_parts root \<noteq> []"
    and full: "full = render_path True (path_parts root @ path_parts relative)"
    using assms by (auto simp: resolve_workspace_path_eq split: if_splits)
  have plain: "list_all plain_part (path_parts root)" "list_all plain_part (path_parts relative)"
    using rel abs_parts_plain [OF assms(1)] by (auto intro: rel_no_escape)
  then have "clean_stack True (rev (path_parts root @ path_parts relative))"
    unfolding clean_stack_def
    by (intro exI [of _ "rev (path_parts root @ path_parts relative)"] exI [of _ 0])
      (auto simp: list_all_iff)
  then have parts: "path_parts full = path_parts root @ path_parts relative" "is_abs full"
    unfolding full by (rule path_parts_render, simp add: is_abs_render)
  moreover have "clean_path full = full" using parts by (simp add: clean_path_def full)
  moreover have "clean_path root = render_path True (path_parts root)"
    using assms(1) by (simp add: clean_path_def)
  ultimately show ?thesis
    using plain rel(3) under_root_iff [OF plain] full by auto
qed

theorem resolve_workspace_path_confined_witness:
  "path_parts ''/srv/ws/app/x'' = path_parts ''/srv/ws/'' @ path_parts ''app/./y/../x''"
proof -
  have "is_abs ''/srv/ws/''" by code_simp
  moreover have "resolve_workspace_path ''/srv/ws/'' ''app/./y/../x'' = Some ''/srv/ws/app/x''"
    by code_simp
  ultimately show ?thesis using resolve_workspace_path_confined by blast
qed

end
