(* ===== verification/EnvRuntime.thy ===== *)
theory EnvRuntime
  imports Leases GoPath
begin

text \<open>
  The environment runtime manager, \<^verbatim>\<open>internal/agent/environment/runtime.go\<close>: what it accepts as a
  specification and as a workspace, and its operations over the lease ledger and the backends.

  A backend (an executor or the sandbox port behind \<^verbatim>\<open>LocalBackend\<close> and \<^verbatim>\<open>KubernetesBackend\<close>,
  which only forward to it) is external: \<open>backend_port\<close> holds its three calls as functions of the
  world \<open>'w\<close> they change. The timeouts of those calls are outcomes of the port. The file system is
  the record \<open>fs\<close>.
\<close>

subsection \<open>Data\<close>

record spec =
  require_existing_data :: bool
  spec_backend :: string
  spec_name :: string
  spec_namespace :: string
  spec_image :: string
  spec_command :: string
  spec_args :: "string list"
  spec_env :: "(string \<times> string) list"
  spec_workspace :: string
  spec_artifacts :: "string list"

record handle =
  handle_id :: string
  handle_backend :: string
  handle_ref :: string

definition empty_handle :: handle where
  "empty_handle = \<lparr>handle_id = '''', handle_backend = '''', handle_ref = ''''\<rparr>"

datatype lstat_result = LMissing | LFailed | LFound bool

record fs =
  fs_abs :: "string \<Rightarrow> string option"
  fs_lstat :: "string \<Rightarrow> lstat_result"
  fs_eval :: "string \<Rightarrow> string option"
  fs_is_dir :: "string \<Rightarrow> bool"

datatype runtime_error =
    RootRequired
  | RootUnresolved
  | RootNotDirectory
  | BackendKindRequired
  | DuplicateBackend string
  | BackendUnsupported string
  | NameInvalid
  | InputsUnbounded
  | WorkspaceRequired
  | WorkspaceUnresolved
  | WorkspaceUninspectable
  | WorkspaceEscapes
  | WorkspaceSymlink
  | CommandRequired
  | ImageInvalid
  | NamespaceInvalid
  | EnvInvalid
  | ArgTooLong
  | BackendUnavailable string
  | LedgerError lease_error
  | PrepareFailed string
  | EmptyHandle
  | InspectFailed string
  | ReleaseFailed string
  | ContextDone

subsection \<open>Validation of a specification\<close>

text \<open>\<^verbatim>\<open>restrictedNamePattern\<close>: \<^verbatim>\<open>^[a-z0-9](?:[a-z0-9.-]{0,61}[a-z0-9])?$\<close>.\<close>

definition restricted_name :: "string \<Rightarrow> bool" where
  "restricted_name s =
     (s \<noteq> [] \<and> length s \<le> 63
      \<and> (is_lower (hd s) \<or> is_digit (hd s)) \<and> (is_lower (last s) \<or> is_digit (last s))
      \<and> list_all (\<lambda>c. is_lower c \<or> is_digit c \<or> c = CHR ''.'' \<or> c = CHR ''-'') s)"

definition valid_image :: "string \<Rightarrow> bool" where
  "valid_image image0 =
     (let image = trim_space image0 in
      image \<noteq> [] \<and> length image \<le> 512
      \<and> \<not> contains_any image [CHR '' '', CHR 0x09, CHR 0x0D, CHR 0x0A])"

definition go_dir :: "string \<Rightarrow> string" where
  "go_dir p = clean_path (rev (dropWhile (\<lambda>c. c \<noteq> CHR ''/'') (rev p)))"

definition go_base :: "string \<Rightarrow> string" where
  "go_base p =
     (if p = [] then ''.''
      else
        let q = trim_right_cutset p ''/'';
            b = rev (takeWhile (\<lambda>c. c \<noteq> CHR ''/'') (rev q))
        in if b = [] then ''/'' else b)"

text \<open>The loop of \<^verbatim>\<open>canonicalWorkspacePath\<close> that climbs to the deepest existing ancestor. It may not
  end for an arbitrary string, so it is a partial function; \<^const>\<open>None\<close> is not returning.\<close>

partial_function (option) climb_missing ::
  "fs \<Rightarrow> string \<Rightarrow> string list \<Rightarrow> (runtime_error + string \<times> string list) option" where
  "climb_missing f current missing =
     (case fs_lstat f current of
        LFound link \<Rightarrow> Some (Inr (current, missing))
      | LFailed \<Rightarrow> Some (Inl WorkspaceUninspectable)
      | LMissing \<Rightarrow>
          (let parent = go_dir current in
           if parent = current then Some (Inl WorkspaceUnresolved)
           else climb_missing f parent (missing @ [go_base current])))"

definition canonical_workspace_path :: "fs \<Rightarrow> string \<Rightarrow> (runtime_error + string) option" where
  "canonical_workspace_path f candidate =
     (case climb_missing f candidate [] of
        None \<Rightarrow> None
      | Some (Inl e) \<Rightarrow> Some (Inl e)
      | Some (Inr (current, missing)) \<Rightarrow>
          (case fs_eval f current of
             None \<Rightarrow> Some (Inl WorkspaceUnresolved)
           | Some resolved \<Rightarrow>
               Some (Inr (clean_path
                 (foldl (\<lambda>r part. join_path [r, part]) resolved (rev missing))))))"

fun walk_parts :: "fs \<Rightarrow> string \<Rightarrow> string list \<Rightarrow> runtime_error option" where
  "walk_parts f current [] = None"
| "walk_parts f current (part # rest) =
     (let next = join_path [current, part] in
      case fs_lstat f next of
        LMissing \<Rightarrow> None
      | LFailed \<Rightarrow> Some WorkspaceUninspectable
      | LFound link \<Rightarrow> if link then Some WorkspaceSymlink else walk_parts f next rest)"

text \<open>\<^verbatim>\<open>validateWorkspace\<close>; the outer \<^const>\<open>None\<close> is not returning, the inner one success.\<close>

definition validate_workspace :: "fs \<Rightarrow> string \<Rightarrow> string \<Rightarrow> runtime_error option option" where
  "validate_workspace f workspace root =
     (if trim_space workspace = [] then Some (Some WorkspaceRequired)
      else case fs_abs f workspace of
        None \<Rightarrow> Some (Some WorkspaceUnresolved)
      | Some absolute \<Rightarrow>
          (case canonical_workspace_path f (clean_path absolute) of
             None \<Rightarrow> None
           | Some (Inl e) \<Rightarrow> Some (Some e)
           | Some (Inr canonical) \<Rightarrow>
               (case rel_path root canonical of
                  None \<Rightarrow> Some (Some WorkspaceEscapes)
                | Some rel \<Rightarrow>
                    if rel = ''..'' \<or> has_prefix rel ''../'' then Some (Some WorkspaceEscapes)
                    else if rel = ''.'' then Some None
                    else Some (walk_parts f root (split_char CHR ''/'' rel)))))"

definition validate_spec :: "fs \<Rightarrow> spec \<Rightarrow> string \<Rightarrow> runtime_error option option" where
  "validate_spec f s root =
     (if spec_backend s \<notin> {''local-process'', ''local-container'', ''kubernetes''}
      then Some (Some (BackendUnsupported (spec_backend s)))
      else if \<not> restricted_name (trim_space (spec_name s)) then Some (Some NameInvalid)
      else if 64 < length (spec_args s) \<or> 128 < length (spec_env s) \<or> 128 < length (spec_artifacts s)
      then Some (Some InputsUnbounded)
      else case validate_workspace f (spec_workspace s) root of
        None \<Rightarrow> None
      | Some (Some e) \<Rightarrow> Some (Some e)
      | Some None \<Rightarrow> Some
          (if spec_backend s = ''local-process'' \<and> trim_space (spec_command s) = []
           then Some CommandRequired
           else if spec_backend s \<noteq> ''local-process'' \<and> \<not> valid_image (spec_image s)
           then Some ImageInvalid
           else if spec_backend s = ''kubernetes'' \<and> \<not> restricted_name (trim_space (spec_namespace s))
           then Some NamespaceInvalid
           else if list_ex (\<lambda>(k, v). trim_space k = [] \<or> 128 < length k \<or> 4096 < length v) (spec_env s)
           then Some EnvInvalid
           else if list_ex (\<lambda>a. 4096 < length a) (spec_args s) then Some ArgTooLong
           else None))"

text \<open>\<^verbatim>\<open>cloneSpec\<close> copies the slices and the map; on values it is the identity.\<close>

definition clone_spec :: "spec \<Rightarrow> spec" where
  "clone_spec s = s\<lparr>spec_args := map (\<lambda>a. a) (spec_args s),
     spec_artifacts := map (\<lambda>a. a) (spec_artifacts s), spec_env := map (\<lambda>e. e) (spec_env s)\<rparr>"

subsection \<open>The workspace check\<close>

lemma plain_stack: "list_all plain_part ps \<Longrightarrow> clean_stack True (rev ps)"
  unfolding clean_stack_def by (intro exI [of _ "rev ps"] exI [of _ 0]) (simp add: list_all_iff)

lemmas plain_parts_render = path_parts_render [OF plain_stack]

lemma rev_drop_to_slash:
  "CHR ''/'' \<notin> set w \<Longrightarrow>
   rev (dropWhile (\<lambda>c. c \<noteq> CHR ''/'') (rev (xs @ CHR ''/'' # w))) = xs @ ''/''"
proof -
  assume w: "CHR ''/'' \<notin> set w"
  have "rev (xs @ CHR ''/'' # w) = rev w @ CHR ''/'' # rev xs" by simp
  moreover have "dropWhile (\<lambda>c. c \<noteq> CHR ''/'') (rev w @ CHR ''/'' # rev xs) = CHR ''/'' # rev xs"
    by (subst dropWhile_append2) (use w in auto)
  ultimately show ?thesis by simp
qed

lemma render_snoc:
  "render_path True (ps @ [w]) =
     (if ps = [] then CHR ''/'' # w else render_path True ps @ CHR ''/'' # w)"
  by (cases "ps = []") (simp_all add: render_path_def join_with_append)

lemma clean_render_slash:
  assumes "list_all plain_part ps"
  shows "clean_path (render_path True ps @ ''/'') = render_path True ps"
proof -
  have ne: "render_path True ps \<noteq> []" and abs: "is_abs (render_path True ps)"
    by (simp_all add: render_path_def is_abs_def)
  have "path_parts (render_path True ps @ CHR ''/'' # []) = ps"
    by (subst path_parts_append [OF ne]) (simp add: plain_parts_render [OF assms] clean_step_def)
  then show ?thesis using ne abs by (simp add: clean_path_def is_abs_append)
qed

lemma go_dir_render:
  assumes "list_all plain_part (ps @ [w])"
  shows "go_dir (render_path True (ps @ [w])) = render_path True ps"
proof -
  have w: "CHR ''/'' \<notin> set w" and ps: "list_all plain_part ps"
    using assms by (auto simp: plain_part_def)
  show ?thesis
  proof (cases "ps = []")
    case True
    have "clean_path ''/'' = ''/''" by code_simp
    with rev_drop_to_slash [OF w, of "[]"] True show ?thesis
      by (simp add: go_dir_def render_snoc render_path_def)
  next
    case False
    then show ?thesis unfolding go_dir_def render_snoc using False
      by (simp only: if_False rev_drop_to_slash [OF w] clean_render_slash [OF ps])
  qed
qed

lemma go_dir_root: "go_dir ''/'' = ''/''"
  by code_simp

lemma go_base_render:
  assumes "list_all plain_part (ps @ [w])"
  shows "go_base (render_path True (ps @ [w])) = w"
proof -
  have w: "CHR ''/'' \<notin> set w" "w \<noteq> []" using assms by (auto simp: plain_part_def)
  obtain xs where r: "render_path True (ps @ [w]) = xs @ CHR ''/'' # w"
    unfolding render_snoc by (metis append_Nil)
  define c cs where "c = last w" and "cs = butlast w"
  then have w_eq: "w = cs @ [c]" using w(2) by simp
  with w(1) have c: "c \<noteq> CHR ''/''" by auto
  have "trim_right_cutset (xs @ CHR ''/'' # w) ''/'' = xs @ CHR ''/'' # w"
    using c by (simp add: trim_right_cutset_def w_eq)
  moreover have "takeWhile (\<lambda>c. c \<noteq> CHR ''/'') (rev (xs @ CHR ''/'' # w)) = rev w"
    using w by (simp add: takeWhile_append)
  ultimately show ?thesis using w by (simp add: go_base_def r)
qed

lemma climb_missing_outcome:
  assumes "list_all plain_part ps"
  shows "climb_missing f (render_path True ps) missing = Some (Inl WorkspaceUninspectable)
    \<or> climb_missing f (render_path True ps) missing = Some (Inl WorkspaceUnresolved)
    \<or> (\<exists>qs rest link. ps = qs @ rest \<and> fs_lstat f (render_path True qs) = LFound link
        \<and> climb_missing f (render_path True ps) missing
           = Some (Inr (render_path True qs, missing @ rev rest)))"
  using assms
proof (induction ps arbitrary: missing rule: rev_induct)
  case Nil
  show ?case
    by (subst (1 2 3) climb_missing.simps)
      (auto simp: render_path_def go_dir_root Let_def split: lstat_result.splits)
next
  case (snoc w ps)
  have ps: "list_all plain_part ps" using snoc.prems by simp
  show ?case
  proof (cases "fs_lstat f (render_path True (ps @ [w]))")
    case (LFound link)
    then have "climb_missing f (render_path True (ps @ [w])) missing
        = Some (Inr (render_path True (ps @ [w]), missing @ rev []))"
      by (subst climb_missing.simps) simp
    with LFound show ?thesis by blast
  next
    case LFailed
    then show ?thesis by (subst climb_missing.simps) simp
  next
    case LMissing
    have "render_path True ps \<noteq> render_path True (ps @ [w])"
      using plain_parts_render [OF ps] plain_parts_render [OF snoc.prems] by (metis append_self_conv not_Cons_self2)
    with LMissing have "climb_missing f (render_path True (ps @ [w])) missing
        = climb_missing f (render_path True ps) (missing @ [w])"
      by (subst climb_missing.simps)
        (simp add: go_dir_render [OF snoc.prems] go_base_render [OF snoc.prems] Let_def)
    moreover note snoc.IH [OF ps, of "missing @ [w]"]
    ultimately show ?thesis by (metis (no_types, lifting) append.assoc rev_append rev_singleton_conv append_Cons append_Nil rev.simps(2))
  qed
qed

lemma strip_common_split:
  "strip_common xs ys = (b, t) \<Longrightarrow>
   \<exists>c. xs = c @ b \<and> ys = c @ t \<and> (b = [] \<or> t = [] \<or> hd b \<noteq> hd t)"
proof (induction xs ys rule: strip_common.induct)
  case (1 x xs y ys)
  then show ?case by (auto split: if_splits intro: exI [of _ "x # _"] exI [of _ "[]"])
qed auto

lemma rel_path_abs:
  assumes rs: "list_all plain_part rs" and cs: "list_all plain_part cs"
  shows "rel_path (render_path True rs) (render_path True cs) =
    (if rs = cs then Some ''.''
     else let (b, t) = strip_common rs cs
          in Some (join_with ''/'' (map (\<lambda>_. ''..'') b @ t)))"
proof -
  note parts = plain_parts_render [OF rs] plain_parts_render [OF cs]
  have clean: "clean_path (render_path True rs) = render_path True rs"
      "clean_path (render_path True cs) = render_path True cs"
    by (simp_all add: clean_path_def parts is_abs_render plain_stack rs cs)
  have abs: "is_abs (render_path True xs)" for xs by (simp add: is_abs_def render_path_def)
  have eq: "render_path True rs = render_path True cs \<longleftrightarrow> rs = cs" using parts by metis
  have nodot: "render_path True rs \<noteq> ''.''" by (simp add: render_path_def)
  have "hd b \<noteq> ''..''" if "strip_common rs cs = (b, t)" "b \<noteq> []" for b t
  proof -
    from strip_common_split [OF that(1)] obtain c where "rs = c @ b" by blast
    with rs that(2) show ?thesis by (cases b) (auto simp: plain_part_def)
  qed
  then show ?thesis
    by (auto simp: rel_path_def rel_components_def Let_def clean abs eq nodot parts split: prod.splits)
qed

lemma join_up_prefix:
  "b \<noteq> [] \<Longrightarrow> join_with ''/'' (map (\<lambda>_. ''..'') b @ t) = ''..''
     \<or> has_prefix (join_with ''/'' (map (\<lambda>_. ''..'') b @ t)) ''../''"
  by (cases b) (auto simp: join_with_Cons)

lemma split_join_plain:
  "list_all plain_part ps \<Longrightarrow> ps \<noteq> [] \<Longrightarrow> split_char CHR ''/'' (join_with ''/'' ps) = ps"
  by (rule split_join) (auto simp: list_all_iff plain_part_def)

lemma walk_parts_ok:
  assumes "list_all plain_part rs" "list_all plain_part ps"
    and "walk_parts f (render_path True rs) ps = None"
    and "xs @ [x] @ ys = ps"
    and "\<And>us vs. us @ vs = xs \<Longrightarrow> us \<noteq> [] \<Longrightarrow> fs_lstat f (render_path True (rs @ us)) \<noteq> LMissing"
  shows "fs_lstat f (render_path True (rs @ xs @ [x])) \<in> {LMissing, LFound False}"
  using assms
proof (induction ps arbitrary: rs xs)
  case (Cons p ps)
  have "is_abs (render_path True rs)" by (simp add: is_abs_def render_path_def)
  then have next_p: "join_path [render_path True rs, p] = render_path True (rs @ [p])"
    using Cons.prems(2) by (simp add: join_path_part plain_parts_render [OF Cons.prems(1)])
  show ?case
  proof (cases xs)
    case Nil
    with Cons.prems next_p show ?thesis
      by (auto simp: Let_def split: lstat_result.splits if_splits)
  next
    case (Cons z zs)
    with Cons.prems(4) have z: "z = p" "zs @ [x] @ ys = ps" by auto
    have "fs_lstat f (render_path True (rs @ [p])) \<noteq> LMissing"
      using Cons.prems(5) [of "[z]" zs] Cons z by simp
    then have walk: "walk_parts f (render_path True (rs @ [p])) ps = None"
      using Cons.prems(3) next_p by (auto simp: Let_def split: lstat_result.splits if_splits)
    have "fs_lstat f (render_path True ((rs @ [p]) @ zs @ [x])) \<in> {LMissing, LFound False}"
    proof (rule Cons.IH [OF _ _ walk z(2)])
      show "list_all plain_part (rs @ [p])" "list_all plain_part ps" using Cons.prems by auto
      fix us vs assume "us @ vs = zs" "us \<noteq> []"
      then show "fs_lstat f (render_path True ((rs @ [p]) @ us)) \<noteq> LMissing"
        using Cons.prems(5) [of "z # us" vs] Cons z by simp
    qed
    with Cons z show ?thesis by simp
  qed
qed simp

text \<open>The documented behaviour of the file system functions on absolute names.\<close>

definition fs_sound :: "fs \<Rightarrow> bool" where
  "fs_sound f \<longleftrightarrow> (\<forall>p q. fs_abs f p = Some q \<longrightarrow> is_abs q)
     \<and> (\<forall>p q. is_abs p \<longrightarrow> fs_eval f p = Some q \<longrightarrow> is_abs q)"

lemma foldl_join_plain:
  "list_all plain_part ps \<Longrightarrow> is_abs r \<Longrightarrow>
   clean_path (foldl (\<lambda>r p. join_path [r, p]) r ps) = render_path True (path_parts r @ ps)"
proof (induction ps arbitrary: r)
  case Nil
  then show ?case by (simp add: clean_path_def)
next
  case (Cons p ps)
  have step: "join_path [r, p] = render_path True (path_parts r @ [p])"
    using Cons.prems by (simp add: join_path_part)
  have plain: "list_all plain_part (path_parts r @ [p])"
    using Cons.prems abs_parts_plain [of r] by simp
  have "path_parts (join_path [r, p]) = path_parts r @ [p]"
    by (simp add: step plain_parts_render [OF plain])
  moreover have "is_abs (join_path [r, p])" by (simp add: step is_abs_def render_path_def)
  ultimately show ?case using Cons.IH [of "join_path [r, p]"] Cons.prems by simp
qed

lemma canonical_workspace_path_abs:
  assumes "fs_sound f" and "is_abs p"
  shows "\<exists>r. canonical_workspace_path f (clean_path p) = Some r
    \<and> (\<forall>c. r = Inr c \<longrightarrow> (\<exists>cs. c = render_path True cs \<and> list_all plain_part cs))"
proof -
  have plain: "list_all plain_part (path_parts p)" using assms(2) by (rule abs_parts_plain)
  have p: "clean_path p = render_path True (path_parts p)" using assms(2) by (simp add: clean_path_def)
  from climb_missing_outcome [OF plain, of f "[]"] consider
      e where "climb_missing f (render_path True (path_parts p)) [] = Some (Inl e)"
    | qs rest where "path_parts p = qs @ rest"
        "climb_missing f (render_path True (path_parts p)) [] = Some (Inr (render_path True qs, rev rest))"
    by auto
  then show ?thesis
  proof cases
    case 1
    then show ?thesis by (simp add: canonical_workspace_path_def p)
  next
    case (2 qs rest)
    have plain': "list_all plain_part rest" "is_abs (render_path True qs)"
      using plain 2 by (auto simp: is_abs_def render_path_def)
    show ?thesis
    proof (cases "fs_eval f (render_path True qs)")
      case None
      with 2 show ?thesis by (simp add: canonical_workspace_path_def p)
    next
      case (Some r)
      then have "is_abs r" using assms(1) plain' by (auto simp: fs_sound_def)
      with plain' Some 2 show ?thesis
        by (auto simp: canonical_workspace_path_def p foldl_join_plain abs_parts_plain
            intro!: exI [of _ "path_parts r @ rest"])
    qed
  qed
qed

subsection \<open>Properties of the workspace check\<close>

text \<open>C26: Checking an absolute workspace always ends, however the file system answers.\<close>

theorem validate_workspace_returns:
  assumes "fs_sound f"
  shows "validate_workspace f workspace root \<noteq> None"
proof (cases "fs_abs f workspace")
  case None
  then show ?thesis by (simp add: validate_workspace_def)
next
  case (Some p)
  with assms have "is_abs p" by (auto simp: fs_sound_def)
  from canonical_workspace_path_abs [OF assms this] Some show ?thesis
    by (auto simp: validate_workspace_def split: sum.splits option.splits)
qed

definition sample_fs :: fs where
  "sample_fs = \<lparr>fs_abs = Some, fs_lstat = (\<lambda>p. if p = ''/'' \<or> p = ''/ws'' \<or> p = ''/ws/app'' then LFound False
      else LMissing), fs_eval = Some, fs_is_dir = (\<lambda>p. True)\<rparr>"

lemma sample_fs_sound: "is_abs p \<Longrightarrow> fs_sound (sample_fs\<lparr>fs_abs := (\<lambda>q. Some p)\<rparr>)"
  by (auto simp: fs_sound_def sample_fs_def)

theorem validate_workspace_returns_witness:
  "validate_workspace (sample_fs\<lparr>fs_abs := (\<lambda>q. Some ''/ws/app/x'')\<rparr>) ''x'' ''/ws'' \<noteq> None"
proof (rule validate_workspace_returns)
  have "is_abs ''/ws/app/x''" by code_simp
  then show "fs_sound (sample_fs\<lparr>fs_abs := (\<lambda>q. Some ''/ws/app/x'')\<rparr>)" by (rule sample_fs_sound)
qed

text \<open>C17: an accepted workspace resolves, links followed, to the allowed root or a path below it, and
  every component below the root that exists is not a symbolic link, up to the first one that
  does not exist yet.\<close>

theorem validate_workspace_confined:
  assumes "fs_sound f" and "list_all plain_part rs"
    and "validate_workspace f workspace (render_path True rs) = Some None"
  shows "\<exists>absolute rest. fs_abs f workspace = Some absolute
    \<and> canonical_workspace_path f (clean_path absolute) = Some (Inr (render_path True (rs @ rest)))
    \<and> list_all plain_part rest
    \<and> (\<forall>xs x ys. xs @ [x] @ ys = rest
        \<longrightarrow> (\<forall>us vs. us @ vs = xs \<longrightarrow> us \<noteq> [] \<longrightarrow> fs_lstat f (render_path True (rs @ us)) \<noteq> LMissing)
        \<longrightarrow> fs_lstat f (render_path True (rs @ xs @ [x])) \<in> {LMissing, LFound False})"
proof -
  from assms(3) obtain p where p: "fs_abs f workspace = Some p"
    by (auto simp: validate_workspace_def split: if_splits option.splits)
  with assms(1) have "is_abs p" by (auto simp: fs_sound_def)
  from canonical_workspace_path_abs [OF assms(1) this] assms(3) p obtain cs where
    c: "canonical_workspace_path f (clean_path p) = Some (Inr (render_path True cs))" "list_all plain_part cs"
    by (auto simp: validate_workspace_def split: if_splits sum.splits)
  obtain b t where bt: "strip_common rs cs = (b, t)" by fastforce
  show ?thesis
  proof (cases "rs = cs")
    case True
    with p c show ?thesis by (intro exI [of _ p] exI [of _ "[]"]) simp
  next
    case False
    with bt have rel: "rel_path (render_path True rs) (render_path True cs)
        = Some (join_with ''/'' (map (\<lambda>_. ''..'') b @ t))"
      by (simp add: rel_path_abs [OF assms(2) c(2)])
    have b: "b = []"
    proof (rule ccontr)
      assume "b \<noteq> []"
      from join_up_prefix [OF this, of t] assms(3) p c rel show False
        by (auto simp: validate_workspace_def split: if_splits)
    qed
    with strip_common_split [OF bt] have cs: "cs = rs @ t" by auto
    with False c(2) have t: "t \<noteq> []" "list_all plain_part t" by auto
    then have split: "split_char CHR ''/'' (join_with ''/'' t) = t" by (simp add: split_join_plain)
    have nodot: "join_with ''/'' t \<noteq> ''.''"
    proof
      assume "join_with ''/'' t = ''.''"
      with split have "t = split_char CHR ''/'' ''.''" by simp
      then have "t = [''.'']" by simp
      with t show False by (simp add: plain_part_def)
    qed
    from assms(3) p c rel b nodot split have "walk_parts f (render_path True rs) t = None"
      by (auto simp: validate_workspace_def split: if_splits)
    note walk = walk_parts_ok [OF assms(2) t(2) this]
    show ?thesis
    proof (intro exI conjI allI impI)
      show "fs_abs f workspace = Some p" by (rule p)
      show "canonical_workspace_path f (clean_path p) = Some (Inr (render_path True (rs @ t)))"
        using c cs by simp
      show "list_all plain_part t" by (rule t(2))
      show "fs_lstat f (render_path True (rs @ xs @ [x])) \<in> {LMissing, LFound False}"
        if "xs @ [x] @ ys = t"
          "\<forall>us vs. us @ vs = xs \<longrightarrow> us \<noteq> [] \<longrightarrow> fs_lstat f (render_path True (rs @ us)) \<noteq> LMissing"
        for xs x ys using that by (intro walk) auto
    qed
  qed
qed

definition sample_fs_x :: fs where
  "sample_fs_x = sample_fs\<lparr>fs_abs := (\<lambda>q. Some ''/ws/app/x'')\<rparr>"

lemma sample_fs_x_eval:
  "climb_missing sample_fs_x ''/ws/app/x'' [] = Some (Inr (''/ws/app'', [''x'']))"
proof -
  have "fs_lstat sample_fs_x ''/ws/app/x'' = LMissing" "fs_lstat sample_fs_x ''/ws/app'' = LFound False"
      "go_dir ''/ws/app/x'' = ''/ws/app''" "go_base ''/ws/app/x'' = ''x''"
    by code_simp+
  then show ?thesis by (subst climb_missing.simps) (simp add: Let_def, subst climb_missing.simps, simp)
qed

lemma sample_fs_x_validate:
  "validate_workspace sample_fs_x ''x'' ''/ws'' = Some None"
proof -
  have facts: "trim_space ''x'' \<noteq> []" "fs_abs sample_fs_x ''x'' = Some ''/ws/app/x''"
      "clean_path ''/ws/app/x'' = ''/ws/app/x''" "fs_eval sample_fs_x ''/ws/app'' = Some ''/ws/app''"
      "join_path [''/ws/app'', ''x''] = ''/ws/app/x''" "rel_path ''/ws'' ''/ws/app/x'' = Some ''app/x''"
      "walk_parts sample_fs_x ''/ws'' (split_char CHR ''/'' ''app/x'') = None"
    by code_simp+
  have "canonical_workspace_path sample_fs_x ''/ws/app/x'' = Some (Inr ''/ws/app/x'')"
    by (simp add: canonical_workspace_path_def sample_fs_x_eval facts del: split_char.simps)
  then show ?thesis
    by (simp add: validate_workspace_def facts del: split_char.simps walk_parts.simps)
qed

theorem validate_workspace_confined_witness:
  "\<exists>rest. canonical_workspace_path sample_fs_x (clean_path ''/ws/app/x'')
     = Some (Inr (render_path True ([''ws''] @ rest)))"
proof -
  have "is_abs ''/ws/app/x''" "list_all plain_part [''ws'']" "render_path True [''ws''] = ''/ws''"
      "fs_abs sample_fs_x ''x'' = Some ''/ws/app/x''"
    by code_simp+
  with validate_workspace_confined [of sample_fs_x "[''ws'']" "''x''"] sample_fs_x_validate
    sample_fs_sound [of "''/ws/app/x''"]
  show ?thesis by (fastforce simp: sample_fs_x_def)
qed

subsection \<open>The runtime manager\<close>

record 'w backend_port =
  bp_prepare :: "string \<Rightarrow> lease \<Rightarrow> spec \<Rightarrow> 'w \<Rightarrow> (string + handle) \<times> 'w"
  bp_inspect :: "string \<Rightarrow> handle \<Rightarrow> 'w \<Rightarrow> (string + resource_usage \<times> string list) \<times> 'w"
  bp_release :: "string \<Rightarrow> handle \<Rightarrow> 'w \<Rightarrow> string option \<times> 'w"
  bp_cancelled :: "'w \<Rightarrow> bool"

record runtime_entry =
  en_lease :: lease
  en_handle :: handle
  en_backend :: string

record runtime_options =
  op_root :: string
  op_timeout :: duration
  op_batch :: int

record runtime =
  rt_leases :: manager
  rt_backends :: "string list"
  rt_active :: "(string \<times> runtime_entry) list"
  rt_root :: string
  rt_timeout :: duration
  rt_batch :: int

fun register_backends :: "string option list \<Rightarrow> string list \<Rightarrow> runtime_error + string list" where
  "register_backends [] kinds = Inr kinds"
| "register_backends (None # rest) kinds = Inl BackendKindRequired"
| "register_backends (Some k # rest) kinds =
     (if trim_space k = [] then Inl BackendKindRequired
      else if k \<in> set kinds then Inl (DuplicateBackend k)
      else register_backends rest (k # kinds))"

definition new_runtime :: "fs \<Rightarrow> runtime_options \<Rightarrow> string option list \<Rightarrow> runtime_error + runtime" where
  "new_runtime f opts backends =
     (case fs_abs f (trim_space (op_root opts)) of
        None \<Rightarrow> Inl RootRequired
      | Some root0 \<Rightarrow>
          if trim_space (op_root opts) = [] then Inl RootRequired
          else case fs_eval f root0 of
            None \<Rightarrow> Inl RootUnresolved
          | Some root \<Rightarrow>
              if \<not> fs_is_dir f root then Inl RootNotDirectory
              else case register_backends backends [] of
                Inl e \<Rightarrow> Inl e
              | Inr kinds \<Rightarrow> Inr
                  \<lparr>rt_leases = new_manager, rt_backends = kinds, rt_active = [],
                   rt_root = clean_path root,
                   rt_timeout = (if op_timeout opts \<le> 0 then 30 * second else op_timeout opts),
                   rt_batch = (if op_batch opts \<le> 0 then 32 else op_batch opts)\<rparr>)"

definition runtime_acquire ::
  "'w backend_port \<Rightarrow> fs \<Rightarrow> runtime \<Rightarrow> lease \<Rightarrow> spec \<Rightarrow> gotime \<Rightarrow> 'w \<Rightarrow>
   ((runtime_error + handle) \<times> runtime \<times> 'w) option" where
  "runtime_acquire p f rt l s now w =
     (case validate_spec f s (rt_root rt) of
        None \<Rightarrow> None
      | Some (Some e) \<Rightarrow> Some (Inl e, rt, w)
      | Some None \<Rightarrow> Some
          (if spec_backend s \<notin> set (rt_backends rt)
           then (Inl (BackendUnavailable (spec_backend s)), rt, w)
           else case manager_acquire (rt_leases rt) l now of
             (ms, Inl e) \<Rightarrow> (Inl (LedgerError e), rt\<lparr>rt_leases := ms\<rparr>, w)
           | (ms, Inr acquired) \<Rightarrow>
               (case bp_prepare p (spec_backend s) acquired (clone_spec s) w of
                  (Inl e, w1) \<Rightarrow>
                    (Inl (PrepareFailed e),
                     rt\<lparr>rt_leases := manager_remove ms (lease_id acquired)\<rparr>, w1)
                | (Inr h, w1) \<Rightarrow>
                    if trim_space (handle_id h) = []
                    then (Inl EmptyHandle, rt\<lparr>rt_leases := manager_remove ms (lease_id acquired)\<rparr>,
                          snd (bp_release p (spec_backend s) h w1))
                    else
                      let h' = h\<lparr>handle_backend := spec_backend s\<rparr>
                      in (Inr h',
                          rt\<lparr>rt_leases := ms,
                             rt_active := AList.update (lease_id acquired)
                               \<lparr>en_lease = acquired, en_handle = h', en_backend = spec_backend s\<rparr>
                               (rt_active rt)\<rparr>, w1))))"

definition runtime_inspect ::
  "'w backend_port \<Rightarrow> runtime \<Rightarrow> string \<Rightarrow> gotime \<Rightarrow> 'w \<Rightarrow> (runtime_error + lease_snapshot) \<times> 'w" where
  "runtime_inspect p rt i now w =
     (case map_of (rt_active rt) i of
        None \<Rightarrow> (Inl (LedgerError LeaseNotFound), w)
      | Some e \<Rightarrow>
          (case bp_inspect p (en_backend e) (en_handle e) w of
             (Inl err, w1) \<Rightarrow> (Inl (InspectFailed err), w1)
           | (Inr (usage, refs), w1) \<Rightarrow>
               (case manager_snapshot (rt_leases rt) i usage refs now of
                  Inl le \<Rightarrow> (Inl (LedgerError le), w1)
                | Inr sn \<Rightarrow> (Inr sn, w1))))"

definition runtime_release ::
  "'w backend_port \<Rightarrow> runtime \<Rightarrow> string \<Rightarrow> gotime \<Rightarrow> 'w \<Rightarrow> (runtime_error + lease) \<times> runtime \<times> 'w" where
  "runtime_release p rt i now w =
     (case map_of (rt_active rt) i of
        None \<Rightarrow>
          (case manager_get (rt_leases rt) i of
             Inl e \<Rightarrow> (Inl (LedgerError e), rt, w)
           | Inr l \<Rightarrow> (Inr l, rt, w))
      | Some e \<Rightarrow>
          (case bp_release p (en_backend e) (en_handle e) w of
             (Some err, w1) \<Rightarrow> (Inl (ReleaseFailed err), rt, w1)
           | (None, w1) \<Rightarrow>
               (case manager_release (rt_leases rt) i now of
                  (ms, Inl le) \<Rightarrow> (Inl (LedgerError le), rt\<lparr>rt_leases := ms\<rparr>, w1)
                | (ms, Inr l) \<Rightarrow>
                    (Inr l, rt\<lparr>rt_leases := ms, rt_active := AList.delete i (rt_active rt)\<rparr>, w1))))"

definition gc_candidates :: "runtime \<Rightarrow> gotime \<Rightarrow> runtime_entry list" where
  "gc_candidates rt now =
     take (nat (rt_batch rt))
       (sort_key (\<lambda>e. lease_id (en_lease e))
         (filter (\<lambda>e. \<not> now < expires_at (en_lease e) \<or> released_at (en_lease e) \<noteq> zero_time)
           (map snd (rt_active rt))))"

fun gc_loop ::
  "'w backend_port \<Rightarrow> gotime \<Rightarrow> runtime_entry list \<Rightarrow> runtime \<Rightarrow> 'w \<Rightarrow>
   lease list \<times> (string \<times> runtime_error) list \<times> runtime \<times> 'w" where
  "gc_loop p now [] rt w = ([], [], rt, w)"
| "gc_loop p now (e # es) rt w =
     (if bp_cancelled p w then ([], [([], ContextDone)], rt, w)
      else
        let i = lease_id (en_lease e) in
        case runtime_release p rt i now w of
          (Inl err, rt1, w1) \<Rightarrow>
            (let (rel, errs, rt2, w2) = gc_loop p now es rt1 w1 in (rel, (i, err) # errs, rt2, w2))
        | (Inr l, rt1, w1) \<Rightarrow>
            (let (rel, errs, rt2, w2) =
               gc_loop p now es (rt1\<lparr>rt_leases := manager_remove (rt_leases rt1) (lease_id l)\<rparr>) w1
             in (l # rel, errs, rt2, w2)))"

definition runtime_gc ::
  "'w backend_port \<Rightarrow> runtime \<Rightarrow> gotime \<Rightarrow> 'w \<Rightarrow>
   (lease list \<times> (string \<times> runtime_error) list) \<times> runtime \<times> 'w" where
  "runtime_gc p rt now w =
     (let (rel, errs, rt', w') = gc_loop p now (gc_candidates rt now) rt w
      in ((sort_key lease_id rel, errs), rt', w'))"

subsection \<open>The invariant of the runtime manager\<close>

text \<open>Every active entry is the stored, unreleased lease of its id, on a registered backend.\<close>

definition entry_ok :: "runtime \<Rightarrow> string \<Rightarrow> runtime_entry \<Rightarrow> bool" where
  "entry_ok rt k e \<longleftrightarrow>
     map_of (rt_leases rt) k = Some (en_lease e) \<and> released_at (en_lease e) = zero_time
     \<and> en_backend e \<in> set (rt_backends rt) \<and> handle_backend (en_handle e) = en_backend e
     \<and> trim_space (handle_id (en_handle e)) \<noteq> []"

definition wf_runtime :: "runtime \<Rightarrow> bool" where
  "wf_runtime rt \<longleftrightarrow>
     wf_manager (rt_leases rt) \<and> distinct (map fst (rt_active rt))
     \<and> (\<forall>k e. map_of (rt_active rt) k = Some e \<longrightarrow> entry_ok rt k e)"

lemma wf_runtime_entry:
  assumes "wf_runtime rt" and "map_of (rt_active rt) k = Some e"
  shows "entry_ok rt k e" and "lease_id (en_lease e) = k"
proof -
  show ok: "entry_ok rt k e" using assms by (simp add: wf_runtime_def)
  then show "lease_id (en_lease e) = k"
    using assms(1) wf_manager_lookup by (auto simp: wf_runtime_def entry_ok_def)
qed

lemma manager_remove_acquire:
  assumes "manager_acquire m l now = (ms, Inr l')"
  shows "manager_remove ms (lease_id l') = m"
proof -
  note acq = manager_acquire_Inr [OF assms]
  have "lease_id l' = lease_id l" using acq(4) by simp
  moreover have "map_of m k = None \<Longrightarrow> AList.delete k (AList.update k v m) = m" for k v
    by (induction m) (auto simp: AList.delete_eq split: if_splits)
  ultimately show ?thesis using acq by (simp add: manager_remove_def)
qed

lemma wf_new_runtime: "new_runtime f opts bs = Inr rt \<Longrightarrow> wf_runtime rt"
  by (auto simp: new_runtime_def wf_runtime_def wf_new_manager split: option.splits if_splits sum.splits)

lemma runtime_acquire_cases:
  assumes "runtime_acquire p f rt l s now w = Some (r, rt', w')"
  obtains (refused) e where "r = Inl e" "rt' = rt"
    | (taken) ms l' h where "manager_acquire (rt_leases rt) l now = (ms, Inr l')"
        "spec_backend s \<in> set (rt_backends rt)" "trim_space (handle_id h) \<noteq> []"
        "handle_backend h = spec_backend s" "validate_spec f s (rt_root rt) = Some None"
        "r = Inr h"
        "rt' = rt\<lparr>rt_leases := ms, rt_active := AList.update (lease_id l')
          \<lparr>en_lease = l', en_handle = h, en_backend = spec_backend s\<rparr> (rt_active rt)\<rparr>"
proof -
  have same: "rt\<lparr>rt_leases := rt_leases rt\<rparr> = rt" by simp
  obtain ms res where acq: "manager_acquire (rt_leases rt) l now = (ms, res)" by fastforce
  show thesis
  proof (cases "validate_spec f s (rt_root rt) = Some None \<and> spec_backend s \<in> set (rt_backends rt)")
    case False
    with assms have "\<exists>e. r = Inl e \<and> rt' = rt"
      by (auto simp: runtime_acquire_def split: option.splits if_splits)
    then show thesis using refused by blast
  next
    case valid: True
    show thesis
    proof (cases res)
      case (Inl e)
      with acq have "ms = rt_leases rt" using manager_acquire_Inl by blast
      with assms valid acq Inl have "\<exists>e. r = Inl e \<and> rt' = rt"
        by (auto simp: runtime_acquire_def)
      then show thesis using refused by blast
    next
      case (Inr l')
      with acq have acq': "manager_acquire (rt_leases rt) l now = (ms, Inr l')" by simp
      note undo = manager_remove_acquire [OF acq']
      obtain res2 w1 where prep: "bp_prepare p (spec_backend s) l' (clone_spec s) w = (res2, w1)"
        by fastforce
      show thesis
      proof (cases "\<exists>h. res2 = Inr h \<and> trim_space (handle_id h) \<noteq> []")
        case False
        with assms valid acq' prep have "\<exists>e. r = Inl e \<and> rt' = rt"
          by (auto simp: runtime_acquire_def undo split: sum.splits)
        then show thesis using refused by blast
      next
        case True
        then obtain h where h: "res2 = Inr h" "trim_space (handle_id h) \<noteq> []" by blast
        show thesis
        proof (rule taken)
          show "manager_acquire (rt_leases rt) l now = (ms, Inr l')" by (rule acq')
          show "spec_backend s \<in> set (rt_backends rt)" "validate_spec f s (rt_root rt) = Some None"
            using valid by simp_all
          show "trim_space (handle_id (h\<lparr>handle_backend := spec_backend s\<rparr>)) \<noteq> []"
            "handle_backend (h\<lparr>handle_backend := spec_backend s\<rparr>) = spec_backend s"
            using h by simp_all
          show "r = Inr (h\<lparr>handle_backend := spec_backend s\<rparr>)"
            "rt' = rt\<lparr>rt_leases := ms, rt_active := AList.update (lease_id l')
              \<lparr>en_lease = l', en_handle = h\<lparr>handle_backend := spec_backend s\<rparr>,
               en_backend = spec_backend s\<rparr> (rt_active rt)\<rparr>"
            using assms valid acq' prep h by (simp_all add: runtime_acquire_def Let_def)
        qed
      qed
    qed
  qed
qed

lemma wf_runtime_acquire:
  assumes wf: "wf_runtime rt" and acq: "runtime_acquire p f rt l s now w = Some (r, rt', w')"
  shows "wf_runtime rt'"
  using acq
proof (cases rule: runtime_acquire_cases)
  case refused
  then show ?thesis using wf by simp
next
  case (taken ms l' h)
  note facts = manager_acquire_Inr [OF taken(1)]
  have "wf_manager (fst (manager_acquire (rt_leases rt) l now))"
    using wf by (intro wf_manager_acquire) (simp add: wf_runtime_def)
  then have "wf_manager ms" using taken by simp
  moreover have "map_of ms = (map_of (rt_leases rt))(lease_id l \<mapsto> l')" "released_at l' = zero_time"
    "lease_id l' = lease_id l"
    using facts by (simp_all add: go_map)
  ultimately show ?thesis using wf taken facts(2)
    by (auto simp: wf_runtime_def entry_ok_def go_map)
qed

lemma runtime_release_cases:
  assumes rel: "runtime_release p rt i now w = (r, rt', w')" and wf: "wf_runtime rt"
  obtains (kept) "rt' = rt" "\<And>l. r = Inr l \<Longrightarrow> map_of (rt_active rt) i = None \<and> map_of (rt_leases rt) i = Some l"
    | (freed) e where "map_of (rt_active rt) i = Some e" "r = Inr (en_lease e\<lparr>released_at := now\<rparr>)"
        "rt' = rt\<lparr>rt_leases := AList.update i (en_lease e\<lparr>released_at := now\<rparr>) (rt_leases rt),
                 rt_active := AList.delete i (rt_active rt)\<rparr>"
        "bp_release p (en_backend e) (en_handle e) w = (None, w')"
proof (cases "map_of (rt_active rt) i")
  case None
  with rel have "rt' = rt" "\<And>l. r = Inr l \<Longrightarrow> map_of (rt_leases rt) i = Some l"
    by (auto simp: runtime_release_def manager_get_def split: option.splits)
  with None show thesis using kept by blast
next
  case (Some e)
  from wf_runtime_entry [OF wf Some] have stored: "map_of (rt_leases rt) i = Some (en_lease e)"
    "released_at (en_lease e) = zero_time" by (simp_all add: entry_ok_def)
  obtain err w1 where br: "bp_release p (en_backend e) (en_handle e) w = (err, w1)" by fastforce
  show thesis
  proof (cases err)
    case None
    with Some stored rel br show thesis
      by (intro freed [of e]) (auto simp: runtime_release_def manager_release_def Let_def)
  next
    case (Some x)
    with \<open>map_of (rt_active rt) i = Some e\<close> rel br have "rt' = rt" "r = Inl (ReleaseFailed x)"
      by (auto simp: runtime_release_def)
    then show thesis using kept by blast
  qed
qed

lemma wf_runtime_release:
  assumes wf: "wf_runtime rt" and rel: "runtime_release p rt i now w = (r, rt', w')"
  shows "wf_runtime rt'"
  using rel wf
proof (cases rule: runtime_release_cases)
  case kept
  then show ?thesis using wf by simp
next
  case (freed e)
  note ok = wf_runtime_entry [OF wf freed(1)]
  have "lease_bounded (en_lease e)"
    using ok wf wf_manager_lookup by (auto simp: wf_runtime_def entry_ok_def)
  then have "wf_manager (AList.update i (en_lease e\<lparr>released_at := now\<rparr>) (rt_leases rt))"
    using wf ok by (intro wf_manager_update) (auto simp: wf_runtime_def lease_bounded_def)
  then show ?thesis using wf freed by (auto simp: wf_runtime_def entry_ok_def go_map)
qed

lemma wf_runtime_forget:
  assumes "wf_runtime rt" and "map_of (rt_active rt) i = None"
  shows "wf_runtime (rt\<lparr>rt_leases := manager_remove (rt_leases rt) i\<rparr>)"
  using assms wf_manager_remove [of "rt_leases rt" i]
  by (auto simp: wf_runtime_def entry_ok_def manager_remove_def go_map)

definition gc_effect :: "runtime \<Rightarrow> gotime \<Rightarrow> runtime_entry list \<Rightarrow> lease list \<Rightarrow> runtime \<Rightarrow> bool" where
  "gc_effect rt now es rel rt' \<longleftrightarrow>
     wf_runtime rt' \<and> distinct (map lease_id rel)
     \<and> set rel \<subseteq> (\<lambda>e. en_lease e\<lparr>released_at := now\<rparr>) ` set es
     \<and> (\<forall>i. map_of (rt_active rt') i = (if i \<in> lease_id ` set rel then None else map_of (rt_active rt) i))
     \<and> (\<forall>i. map_of (rt_leases rt') i = (if i \<in> lease_id ` set rel then None else map_of (rt_leases rt) i))"

abbreviation entry_id :: "runtime_entry \<Rightarrow> string" where
  "entry_id e \<equiv> lease_id (en_lease e)"

lemma gc_effect_keep:
  "gc_effect rt now es rel rt' \<Longrightarrow> gc_effect rt now (e # es) rel rt'"
  by (auto simp: gc_effect_def)

lemma gc_effect_drop:
  assumes eff: "gc_effect (rt\<lparr>rt_leases := AList.delete i ms, rt_active := AList.delete i (rt_active rt)\<rparr>)
      now es rel rt'"
    and e: "entry_id e = i" "i \<notin> entry_id ` set es"
    and ms: "ms = AList.update i (en_lease e\<lparr>released_at := now\<rparr>) (rt_leases rt)"
  shows "gc_effect rt now (e # es) ((en_lease e\<lparr>released_at := now\<rparr>) # rel) rt'"
proof -
  have "lease_id ` set rel \<subseteq> entry_id ` set es"
    using eff by (fastforce simp: gc_effect_def)
  with e have "i \<notin> lease_id ` set rel" by blast
  with eff e ms show ?thesis by (auto simp: gc_effect_def go_map)
qed

lemma gc_loop_effect:
  "gc_loop p now es rt w = (rel, errs, rt', w') \<Longrightarrow> wf_runtime rt \<Longrightarrow>
   (\<forall>e \<in> set es. map_of (rt_active rt) (entry_id e) = Some e) \<Longrightarrow> distinct (map entry_id es) \<Longrightarrow>
   gc_effect rt now es rel rt' \<and> length rel + length errs \<le> Suc (length es)
   \<and> ((\<forall>v. \<not> bp_cancelled p v) \<longrightarrow> length rel + length errs = length es)"
proof (induction es arbitrary: rt w rel errs rt' w')
  case Nil
  then show ?case by (auto simp: gc_effect_def)
next
  case (Cons e es)
  let ?i = "entry_id e"
  have act: "map_of (rt_active rt) ?i = Some e" using Cons.prems by simp
  show ?case
  proof (cases "bp_cancelled p w")
    case True
    with Cons.prems show ?thesis by (auto simp: gc_effect_def)
  next
    case run: False
    obtain r rt1 w1 where rel1: "runtime_release p rt ?i now w = (r, rt1, w1)" by (metis surj_pair)
    from rel1 Cons.prems(2) show ?thesis
    proof (cases rule: runtime_release_cases)
      case kept
      with act obtain err where r: "r = Inl err" by (cases r) auto
      obtain rel2 errs2 rt2 w2 where loop: "gc_loop p now es rt w1 = (rel2, errs2, rt2, w2)"
        by (metis surj_pair)
      with r kept run rel1 Cons.prems(1) have out: "rel = rel2" "errs = (?i, err) # errs2" "rt' = rt2"
        by (auto simp: Let_def)
      from Cons.IH [OF loop] Cons.prems
      have "gc_effect rt now es rel2 rt2 \<and> length rel2 + length errs2 \<le> Suc (length es)
        \<and> ((\<forall>v. \<not> bp_cancelled p v) \<longrightarrow> length rel2 + length errs2 = length es)" by simp
      then show ?thesis using out gc_effect_keep by auto
    next
      case (freed d)
      with act have d: "d = e" by simp
      let ?l = "en_lease e\<lparr>released_at := now\<rparr>"
      let ?ms = "AList.update ?i ?l (rt_leases rt)"
      let ?rt = "rt\<lparr>rt_leases := AList.delete ?i ?ms, rt_active := AList.delete ?i (rt_active rt)\<rparr>"
      obtain rel2 errs2 rt2 w2 where loop: "gc_loop p now es ?rt w1 = (rel2, errs2, rt2, w2)"
        by (metis surj_pair)
      have step: "rt1\<lparr>rt_leases := manager_remove (rt_leases rt1) (lease_id ?l)\<rparr> = ?rt"
        using freed d by (simp add: manager_remove_def)
      then have out: "rel = ?l # rel2" "errs = errs2" "rt' = rt2"
        using freed d run rel1 loop Cons.prems(1) by (auto simp: Let_def)
      have "wf_runtime rt1" using wf_runtime_release [OF Cons.prems(2) rel1] .
      moreover have "map_of (rt_active rt1) ?i = None" using freed d by (simp add: go_map)
      ultimately have "wf_runtime (rt1\<lparr>rt_leases := manager_remove (rt_leases rt1) ?i\<rparr>)"
        by (rule wf_runtime_forget)
      then have wf: "wf_runtime ?rt" using step by simp
      have "\<forall>e' \<in> set es. map_of (rt_active ?rt) (entry_id e') = Some e'"
      proof
        fix e' assume e': "e' \<in> set es"
        from Cons.prems(4) have "?i \<notin> entry_id ` set es" by simp
        with e' have "entry_id e' \<noteq> ?i" by (metis imageI)
        with e' Cons.prems(3) show "map_of (rt_active ?rt) (entry_id e') = Some e'"
          by (simp add: go_map)
      qed
      from Cons.IH [OF loop wf this] Cons.prems(4)
      have "gc_effect ?rt now es rel2 rt2 \<and> length rel2 + length errs2 \<le> Suc (length es)
        \<and> ((\<forall>v. \<not> bp_cancelled p v) \<longrightarrow> length rel2 + length errs2 = length es)" by simp
      moreover have "?i \<notin> entry_id ` set es" using Cons.prems(4) by auto
      ultimately show ?thesis using gc_effect_drop [OF _ refl _ refl, of e rt now es rel2 rt2] out by auto
    qed
  qed
qed

lemma gc_candidates_active:
  assumes "wf_runtime rt"
  shows "\<forall>e \<in> set (gc_candidates rt now). map_of (rt_active rt) (entry_id e) = Some e
      \<and> expires_at (en_lease e) \<le> now"
    and "distinct (map entry_id (gc_candidates rt now))"
    and "length (gc_candidates rt now) \<le> nat (rt_batch rt)"
    and "sorted (map entry_id (gc_candidates rt now))"
proof -
  let ?due = "\<lambda>e. \<not> now < expires_at (en_lease e) \<or> released_at (en_lease e) \<noteq> zero_time"
  have d: "distinct (map fst (rt_active rt))" using assms by (simp add: wf_runtime_def)
  have id: "entry_id e = k" if "(k, e) \<in> set (rt_active rt)" for k e
    using wf_runtime_entry [OF assms] that d by (simp add: map_of_is_SomeI)
  have unreleased: "released_at (en_lease e) = zero_time" if "(k, e) \<in> set (rt_active rt)" for k e
    using wf_runtime_entry(1) [OF assms] that d by (auto simp: entry_ok_def)
  show "\<forall>e \<in> set (gc_candidates rt now). map_of (rt_active rt) (entry_id e) = Some e
      \<and> expires_at (en_lease e) \<le> now"
  proof
    fix e assume "e \<in> set (gc_candidates rt now)"
    then have "e \<in> set (filter ?due (map snd (rt_active rt)))"
      by (auto simp: gc_candidates_def dest: in_set_takeD)
    then obtain k where k: "(k, e) \<in> set (rt_active rt)" and due: "?due e" by auto
    with id [OF k] unreleased [OF k] d show "map_of (rt_active rt) (entry_id e) = Some e
      \<and> expires_at (en_lease e) \<le> now" by auto
  qed
  have ids: "map entry_id (map snd (rt_active rt)) = map fst (rt_active rt)"
    using id by (auto simp: comp_def intro!: map_cong)
  have base: "distinct (map entry_id (filter ?due (map snd (rt_active rt))))"
    by (rule distinct_map_filter) (simp only: ids d)
  have "mset (map entry_id (sort_key entry_id xs)) = mset (map entry_id xs)" for xs
    by simp
  from mset_eq_imp_distinct_iff [OF this] base
  have "distinct (map entry_id (sort_key entry_id (filter ?due (map snd (rt_active rt)))))"
    by blast
  then show "distinct (map entry_id (gc_candidates rt now))"
    unfolding gc_candidates_def take_map [symmetric] by (rule distinct_take)
  show "length (gc_candidates rt now) \<le> nat (rt_batch rt)" by (simp add: gc_candidates_def)
  show "sorted (map entry_id (gc_candidates rt now))"
    unfolding gc_candidates_def take_map [symmetric] by (intro sorted_wrt_take sorted_sort_key)
qed

subsection \<open>Histories of the runtime manager\<close>

datatype rt_op =
    RtAcquire lease spec gotime
  | RtRelease string gotime
  | RtGc gotime

fun rt_step :: "'w backend_port \<Rightarrow> fs \<Rightarrow> runtime \<times> 'w \<Rightarrow> rt_op \<Rightarrow> (runtime \<times> 'w) option" where
  "rt_step p f (rt, w) (RtAcquire l s now) =
     (case runtime_acquire p f rt l s now w of None \<Rightarrow> None | Some (r, rt', w') \<Rightarrow> Some (rt', w'))"
| "rt_step p f (rt, w) (RtRelease i now) =
     (case runtime_release p rt i now w of (r, rt', w') \<Rightarrow> Some (rt', w'))"
| "rt_step p f (rt, w) (RtGc now) = (case runtime_gc p rt now w of (r, rt', w') \<Rightarrow> Some (rt', w'))"

fun rt_run :: "'w backend_port \<Rightarrow> fs \<Rightarrow> runtime \<times> 'w \<Rightarrow> rt_op list \<Rightarrow> (runtime \<times> 'w) option" where
  "rt_run p f st [] = Some st"
| "rt_run p f st (op # ops) =
     (case rt_step p f st op of None \<Rightarrow> None | Some st' \<Rightarrow> rt_run p f st' ops)"

lemma runtime_gc_effect:
  assumes wf: "wf_runtime rt" and gc: "runtime_gc p rt now w = ((rel, errs), rt', w')"
  shows "gc_effect rt now (gc_candidates rt now) rel rt'" "sorted (map lease_id rel)"
    "length rel + length errs \<le> Suc (length (gc_candidates rt now))"
proof -
  obtain rel0 errs0 rt0 w0 where loop: "gc_loop p now (gc_candidates rt now) rt w = (rel0, errs0, rt0, w0)"
    by (metis surj_pair)
  with gc have out: "rel = sort_key lease_id rel0" "errs = errs0" "rt' = rt0"
    by (auto simp: runtime_gc_def)
  have "\<forall>e \<in> set (gc_candidates rt now). map_of (rt_active rt) (entry_id e) = Some e"
    using gc_candidates_active(1) [OF wf] by blast
  from gc_loop_effect [OF loop wf this gc_candidates_active(2) [OF wf]]
  have eff: "gc_effect rt now (gc_candidates rt now) rel0 rt'"
    and len: "length rel0 + length errs \<le> Suc (length (gc_candidates rt now))" using out by auto
  have "mset (map lease_id (sort_key lease_id rel0)) = mset (map lease_id rel0)" by simp
  from mset_eq_imp_distinct_iff [OF this]
  show "gc_effect rt now (gc_candidates rt now) rel rt'"
    using eff out(1) unfolding gc_effect_def by simp
  show "sorted (map lease_id rel)" unfolding out by (rule sorted_sort_key)
  show "length rel + length errs \<le> Suc (length (gc_candidates rt now))" using len out by simp
qed

lemma wf_runtime_step:
  "wf_runtime rt \<Longrightarrow> rt_step p f (rt, w) op = Some (rt', w') \<Longrightarrow> wf_runtime rt'"
proof (cases op)
  case (RtGc now)
  assume wf: "wf_runtime rt" and step: "rt_step p f (rt, w) op = Some (rt', w')"
  obtain rel errs rt1 w1 where gc: "runtime_gc p rt now w = ((rel, errs), rt1, w1)" by (metis surj_pair)
  with step RtGc have "rt1 = rt'" by simp
  with runtime_gc_effect(1) [OF wf gc] show ?thesis by (simp add: gc_effect_def)
qed (auto split: option.splits prod.splits intro: wf_runtime_acquire wf_runtime_release)

lemma wf_runtime_run:
  "wf_runtime rt \<Longrightarrow> rt_run p f (rt, w) ops = Some (rt', w') \<Longrightarrow> wf_runtime rt'"
proof (induction ops arbitrary: rt w)
  case (Cons op ops)
  then show ?case
    by (cases "rt_step p f (rt, w) op") (auto dest: wf_runtime_step)
qed simp

subsection \<open>Properties of the runtime manager\<close>

text \<open>C16: in every history of acquisitions, releases and collections over any backends, each active
  environment is the stored, unreleased lease of its id, runs on a registered backend and has a
  handle that backend returned, and the ledger itself stays well formed.\<close>

theorem runtime_reachable_wf:
  assumes "new_runtime f opts backends = Inr rt0" and "rt_run p f (rt0, w0) ops = Some (rt, w)"
  shows "wf_runtime rt"
  using wf_runtime_run [OF wf_new_runtime [OF assms(1)] assms(2)] .

definition sample_port :: "nat backend_port" where
  "sample_port = \<lparr>bp_prepare = (\<lambda>k l s w. (Inr \<lparr>handle_id = ''h1'', handle_backend = '''', handle_ref = ''''\<rparr>, Suc w)),
     bp_inspect = (\<lambda>k h w. (Inl ''down'', w)), bp_release = (\<lambda>k h w. (None, w)),
     bp_cancelled = (\<lambda>w. False)\<rparr>"

definition sample_options :: runtime_options where
  "sample_options = \<lparr>op_root = ''/ws'', op_timeout = 0, op_batch = 0\<rparr>"

definition sample_spec :: spec where
  "sample_spec = \<lparr>require_existing_data = False, spec_backend = ''local-process'', spec_name = ''dev-1'',
     spec_namespace = '''', spec_image = '''', spec_command = ''run'', spec_args = [], spec_env = [],
     spec_workspace = ''x'', spec_artifacts = []\<rparr>"

definition sample_runtime :: runtime where
  "sample_runtime = \<lparr>rt_leases = [], rt_backends = [''local-process''], rt_active = [],
     rt_root = ''/ws'', rt_timeout = 30 * second, rt_batch = 32\<rparr>"

lemma sample_runtime_new: "new_runtime sample_fs_x sample_options [Some ''local-process'']
    = Inr (sample_runtime\<lparr>rt_root := ''/ws/app/x''\<rparr>)"
  by code_simp

lemma sample_spec_valid: "validate_spec sample_fs_x sample_spec ''/ws'' = Some None"
proof -
  have "spec_workspace sample_spec = ''x''" by code_simp
  moreover have "spec_backend sample_spec = ''local-process''" "restricted_name (trim_space (spec_name sample_spec))"
      "spec_args sample_spec = []" "spec_env sample_spec = []" "spec_artifacts sample_spec = []"
      "trim_space (spec_command sample_spec) \<noteq> []"
    by code_simp+
  ultimately show ?thesis using sample_fs_x_validate by (simp add: validate_spec_def)
qed

definition sample_entry :: runtime_entry where
  "sample_entry = \<lparr>en_lease = sample_lease, en_handle = \<lparr>handle_id = ''h1'',
     handle_backend = ''local-process'', handle_ref = ''''\<rparr>, en_backend = ''local-process''\<rparr>"

definition sample_busy :: runtime where
  "sample_busy = sample_runtime\<lparr>rt_leases := [(''l1'', sample_lease)], rt_active := [(''l1'', sample_entry)]\<rparr>"

lemma sample_acquire:
  "runtime_acquire sample_port sample_fs_x sample_runtime sample_lease sample_spec 7 0
     = Some (Inr (en_handle sample_entry), sample_busy, 1)"
proof -
  have root: "rt_root sample_runtime = ''/ws''" by code_simp
  have "spec_backend sample_spec = ''local-process''" "rt_backends sample_runtime = [''local-process'']"
      "manager_acquire (rt_leases sample_runtime) sample_lease 7 = ([(''l1'', sample_lease)], Inr sample_lease)"
      "rt_active sample_runtime = []" "lease_id sample_lease = ''l1''"
    by code_simp+
  moreover have "bp_prepare sample_port k l s w
      = (Inr \<lparr>handle_id = ''h1'', handle_backend = '''', handle_ref = ''''\<rparr>, Suc w)" for k l s w
    by (simp add: sample_port_def)
  moreover have "trim_space ''h1'' \<noteq> []" by code_simp
  ultimately show ?thesis
    by (simp add: runtime_acquire_def root sample_spec_valid Let_def sample_busy_def sample_entry_def)
qed

lemma sample_busy_wf: "wf_runtime sample_busy"
proof -
  have "wf_runtime sample_runtime"
    by (simp add: wf_runtime_def sample_runtime_def wf_manager_def)
  from wf_runtime_acquire [OF this sample_acquire] show ?thesis .
qed

theorem runtime_reachable_wf_witness:
  "wf_runtime (sample_runtime\<lparr>rt_root := ''/ws/app/x''\<rparr>)"
proof -
  have "rt_run sample_port sample_fs_x (sample_runtime\<lparr>rt_root := ''/ws/app/x''\<rparr>, 0)
      [RtRelease ''l1'' 8, RtGc 9] = Some (sample_runtime\<lparr>rt_root := ''/ws/app/x''\<rparr>, 0)"
    by code_simp
  from runtime_reachable_wf [OF sample_runtime_new this] show ?thesis .
qed

text \<open>C31: acquiring an environment is all or nothing: any refusal, failed preparation or empty handle
  leaves ledger and active table exactly as they were, and success means the specification was
  valid, the id was free, and the lease and its entry (carrying the backend's handle) are both
  recorded.\<close>

theorem runtime_acquire_all_or_nothing:
  assumes "runtime_acquire p f rt l s now w = Some (r, rt', w')"
  shows "case r of
      Inl e \<Rightarrow> rt' = rt
    | Inr h \<Rightarrow> validate_spec f s (rt_root rt) = Some None \<and> validate_lease l now = None
        \<and> map_of (rt_leases rt) (lease_id l) = None
        \<and> trim_space (handle_id h) \<noteq> [] \<and> handle_backend h = spec_backend s
        \<and> (\<exists>l'. lease_id l' = lease_id l \<and> released_at l' = zero_time
            \<and> map_of (rt_leases rt') = (map_of (rt_leases rt))(lease_id l \<mapsto> l')
            \<and> map_of (rt_active rt') = (map_of (rt_active rt))
                (lease_id l \<mapsto> \<lparr>en_lease = l', en_handle = h, en_backend = spec_backend s\<rparr>))"
  using assms
proof (cases rule: runtime_acquire_cases)
  case refused
  then show ?thesis by simp
next
  case (taken ms l' h)
  note facts = manager_acquire_Inr [OF taken(1)]
  have "lease_id l' = lease_id l" "released_at l' = zero_time" using facts(4) by simp_all
  with taken facts show ?thesis by (auto simp: go_map intro!: exI [of _ l'])
qed

theorem runtime_acquire_all_or_nothing_witness:
  "\<exists>l'. map_of (rt_leases sample_busy) = (map_of (rt_leases sample_runtime))(''l1'' \<mapsto> l')"
proof -
  have "lease_id sample_lease = ''l1''" by code_simp
  with runtime_acquire_all_or_nothing [OF sample_acquire] show ?thesis by auto
qed

text \<open>A collection only releases expired environments, at most the batch limit of them, in
  increasing order of id; each lease it reports is gone from the ledger and from the active
  table, with its backend's environment released, and every other lease and entry is untouched,
  so an environment whose backend fails to release stays active for a later round.\<close>

theorem runtime_gc_spec:
  assumes "wf_runtime rt" and "runtime_gc p rt now w = ((rel, errs), rt', w')"
  shows "wf_runtime rt' \<and> length rel \<le> nat (rt_batch rt)
    \<and> sorted (map lease_id rel) \<and> distinct (map lease_id rel)
    \<and> (\<forall>l \<in> set rel. \<exists>e. map_of (rt_active rt) (lease_id l) = Some e
         \<and> l = en_lease e\<lparr>released_at := now\<rparr> \<and> expires_at l \<le> now)
    \<and> (\<forall>i. map_of (rt_active rt') i = (if i \<in> lease_id ` set rel then None else map_of (rt_active rt) i))
    \<and> (\<forall>i. map_of (rt_leases rt') i = (if i \<in> lease_id ` set rel then None else map_of (rt_leases rt) i))"
proof -
  note eff = runtime_gc_effect [OF assms]
  note cand = gc_candidates_active [OF assms(1)]
  have sub: "set rel \<subseteq> (\<lambda>e. en_lease e\<lparr>released_at := now\<rparr>) ` set (gc_candidates rt now)"
    and dist: "distinct (map lease_id rel)" using eff(1) by (simp_all add: gc_effect_def)
  have "card (lease_id ` set rel) \<le> card (entry_id ` set (gc_candidates rt now))"
    using image_mono [OF sub, of lease_id] by (intro card_mono) (simp_all add: image_image)
  also have "\<dots> \<le> length (gc_candidates rt now)"
    using card_length [of "map entry_id (gc_candidates rt now)"] by simp
  finally have "length rel \<le> nat (rt_batch rt)"
    using cand(3) [of now] distinct_card [OF dist] by simp
  moreover have "\<exists>e. map_of (rt_active rt) (lease_id l) = Some e
      \<and> l = en_lease e\<lparr>released_at := now\<rparr> \<and> expires_at l \<le> now" if "l \<in> set rel" for l
  proof -
    from sub that obtain e where e: "e \<in> set (gc_candidates rt now)" "l = en_lease e\<lparr>released_at := now\<rparr>"
      by blast
    with cand(1) [of now] show ?thesis by auto
  qed
  ultimately show ?thesis using eff dist by (simp add: gc_effect_def)
qed

theorem runtime_gc_spec_witness:
  "map_of (rt_active (fst (snd (runtime_gc sample_port sample_busy 100 0)))) ''l1'' = None"
proof -
  have gc: "runtime_gc sample_port sample_busy 100 0
      = (([sample_lease\<lparr>released_at := 100\<rparr>], []), sample_runtime, 0)"
    by code_simp
  from runtime_gc_spec [OF sample_busy_wf gc] show ?thesis
    by (auto simp: gc sample_lease_def)
qed

end
