(* ===== verification/EnvConcurrency.thy ===== *)
theory EnvConcurrency
  imports EnvRuntime
begin

text \<open>
  Concurrent calls of the runtime manager of \<^verbatim>\<open>internal/agent/environment/runtime.go\<close>.

  \<^verbatim>\<open>Acquire\<close>, \<^verbatim>\<open>Release\<close> and \<^verbatim>\<open>GC\<close> hold no lock across their calls of the ledger, of the backend
  and of the active table, so each is a sequence of atomic actions. A call in progress is a
  \<open>pc\<close>, the point it has reached; the state holds the multiset of them beside the ledger and the
  active table, and a ghost set of the environments the backends are really running. An environment
  that a backend has prepared under a blank handle never enters the table: the acquisition takes its
  lease back and asks the backend to release it. Such environments are counted apart: those that run,
  the ones whose release is still to come once the lease is gone, and the ones a backend has failed
  to release, which is an error \<^verbatim>\<open>Acquire\<close> ignores. The flag of the relation says whether collections
  run beside acquisitions and releases.
\<close>

subsection \<open>States and steps\<close>

datatype pc =
    Preparing lease string
  | Emptied runtime_entry
  | Installing runtime_entry
  | Releasing string runtime_entry bool
  | Settling string bool
  | Dropping string bool
  | Forgetting string

record conc =
  cs_leases :: manager
  cs_active :: "(string \<times> runtime_entry) list"
  cs_threads :: "pc multiset"
  cs_live :: "runtime_entry set"
  cs_blank :: "runtime_entry multiset"
  cs_discards :: "runtime_entry multiset"
  cs_unreleased :: "runtime_entry multiset"

fun pc_lease :: "pc \<Rightarrow> string" where
  "pc_lease (Preparing l k) = lease_id l"
| "pc_lease (Emptied e) = entry_id e"
| "pc_lease (Installing e) = entry_id e"
| "pc_lease (Releasing i e g) = i"
| "pc_lease (Settling i g) = i"
| "pc_lease (Dropping i g) = i"
| "pc_lease (Forgetting i) = i"


inductive conc_step :: "bool \<Rightarrow> conc \<Rightarrow> conc \<Rightarrow> bool" for gc where
  begin_acquire: "manager_acquire (cs_leases s) l now = (ms, Inr l') \<Longrightarrow>
    conc_step gc s (s\<lparr>cs_leases := ms, cs_threads := add_mset (Preparing l' k) (cs_threads s)\<rparr>)"
| prepare_failed: "cs_threads s = add_mset (Preparing l k) T \<Longrightarrow>
    conc_step gc s (s\<lparr>cs_leases := manager_remove (cs_leases s) (lease_id l), cs_threads := T\<rparr>)"
| prepared: "cs_threads s = add_mset (Preparing l k) T \<Longrightarrow>
    e = \<lparr>en_lease = l, en_handle = h, en_backend = k\<rparr> \<Longrightarrow> trim_space (handle_id h) \<noteq> [] \<Longrightarrow>
    h \<notin> en_handle ` cs_live s \<Longrightarrow>
    conc_step gc s (s\<lparr>cs_threads := add_mset (Installing e) T, cs_live := insert e (cs_live s)\<rparr>)"
| prepared_blank: "cs_threads s = add_mset (Preparing l k) T \<Longrightarrow>
    e = \<lparr>en_lease = l, en_handle = h, en_backend = k\<rparr> \<Longrightarrow> trim_space (handle_id h) = [] \<Longrightarrow>
    conc_step gc s (s\<lparr>cs_threads := add_mset (Emptied e) T, cs_blank := add_mset e (cs_blank s)\<rparr>)"
| discard: "cs_threads s = add_mset (Emptied e) T \<Longrightarrow>
    conc_step gc s (s\<lparr>cs_leases := manager_remove (cs_leases s) (entry_id e), cs_threads := T,
      cs_discards := add_mset e (cs_discards s)\<rparr>)"
| discarded: "cs_discards s = add_mset e D \<Longrightarrow>
    conc_step gc s (s\<lparr>cs_discards := D, cs_blank := cs_blank s - {#e#}\<rparr>)"
| discard_failed: "cs_discards s = add_mset e D \<Longrightarrow>
    conc_step gc s (s\<lparr>cs_discards := D, cs_unreleased := add_mset e (cs_unreleased s)\<rparr>)"
| install: "cs_threads s = add_mset (Installing e) T \<Longrightarrow>
    conc_step gc s (s\<lparr>cs_active := AList.update (entry_id e) e (cs_active s), cs_threads := T\<rparr>)"
| begin_release: "map_of (cs_active s) i = Some e \<Longrightarrow>
    conc_step gc s (s\<lparr>cs_threads := add_mset (Releasing i e False) (cs_threads s)\<rparr>)"
| begin_collect: "gc \<Longrightarrow> map_of (cs_active s) i = Some e \<Longrightarrow> expires_at (en_lease e) \<le> now \<Longrightarrow>
    conc_step gc s (s\<lparr>cs_threads := add_mset (Releasing i e True) (cs_threads s)\<rparr>)"
| collect_gone: "gc \<Longrightarrow> map_of (cs_active s) i = None \<Longrightarrow> map_of (cs_leases s) i \<noteq> None \<Longrightarrow>
    conc_step gc s (s\<lparr>cs_threads := add_mset (Forgetting i) (cs_threads s)\<rparr>)"
| backend_failed: "cs_threads s = add_mset (Releasing i e g) T \<Longrightarrow>
    conc_step gc s (s\<lparr>cs_threads := T\<rparr>)"
| backend_released: "cs_threads s = add_mset (Releasing i e g) T \<Longrightarrow>
    conc_step gc s (s\<lparr>cs_threads := add_mset (Settling i g) T, cs_live := cs_live s - {e}\<rparr>)"
| settle_missing: "cs_threads s = add_mset (Settling i g) T \<Longrightarrow> map_of (cs_leases s) i = None \<Longrightarrow>
    conc_step gc s (s\<lparr>cs_threads := T\<rparr>)"
| settle: "cs_threads s = add_mset (Settling i g) T \<Longrightarrow> map_of (cs_leases s) i \<noteq> None \<Longrightarrow>
    conc_step gc s (s\<lparr>cs_leases := fst (manager_release (cs_leases s) i now),
      cs_threads := add_mset (Dropping i g) T\<rparr>)"
| drop_entry: "cs_threads s = add_mset (Dropping i g) T \<Longrightarrow>
    conc_step gc s (s\<lparr>cs_active := AList.delete i (cs_active s),
      cs_threads := (if g then add_mset (Forgetting i) T else T)\<rparr>)"
| forget: "cs_threads s = add_mset (Forgetting i) T \<Longrightarrow>
    conc_step gc s (s\<lparr>cs_leases := manager_remove (cs_leases s) i, cs_threads := T\<rparr>)"

definition conc_start :: conc where
  "conc_start = \<lparr>cs_leases = new_manager, cs_active = [], cs_threads = {#}, cs_live = {},
     cs_blank = {#}, cs_discards = {#}, cs_unreleased = {#}\<rparr>"

abbreviation conc_reach :: "bool \<Rightarrow> conc \<Rightarrow> bool" where
  "conc_reach gc s \<equiv> (conc_step gc)\<^sup>*\<^sup>* conc_start s"

text \<open>A running environment is tracked when the active table holds it or the call that will enter
  it there is still in progress.\<close>

definition tracked :: "conc \<Rightarrow> runtime_entry \<Rightarrow> bool" where
  "tracked s e \<longleftrightarrow> Installing e \<in># cs_threads s \<or> map_of (cs_active s) (entry_id e) = Some e"

text \<open>The environments with a blank handle that acquisitions still hold with their lease.\<close>

fun pc_blank :: "pc \<Rightarrow> runtime_entry multiset" where
  "pc_blank (Emptied e) = {#e#}"
| "pc_blank t = {#}"

definition emptied :: "pc multiset \<Rightarrow> runtime_entry multiset" where
  "emptied T = (\<Sum>\<^sub># (image_mset pc_blank T))"

lemma emptied_simps [simp]: "emptied {#} = {#}" "emptied (add_mset t T) = pc_blank t + emptied T"
  by (simp_all add: emptied_def)



definition busy :: "pc multiset \<Rightarrow> string \<Rightarrow> nat" where
  "busy T i = size (filter_mset (\<lambda>t. pc_lease t = i) T)"








lemma busy_add [simp]: "busy (add_mset t T) i = (if pc_lease t = i then Suc (busy T i) else busy T i)"
  by (simp add: busy_def)














subsection \<open>Properties\<close>


definition race_lease :: lease where
  "race_lease = sample_lease\<lparr>expires_at := 1000\<rparr>"

definition race_handle :: "string \<Rightarrow> handle" where
  "race_handle i = \<lparr>handle_id = i, handle_backend = ''local-process'', handle_ref = ''''\<rparr>"

definition race_entry :: "lease \<Rightarrow> string \<Rightarrow> runtime_entry" where
  "race_entry l i = \<lparr>en_lease = l, en_handle = race_handle i, en_backend = ''local-process''\<rparr>"

abbreviation conc_state where
  "conc_state m a t v \<equiv> \<lparr>cs_leases = m, cs_active = a, cs_threads = t, cs_live = v,
     cs_blank = {#}, cs_discards = {#}, cs_unreleased = {#}\<rparr>"

lemma race_acquire:
  assumes step: "conc_reach gc (conc_state [] [] T {})"
    and acq: "manager_acquire [] l now = ([(''l1'', l)], Inr l)" and id: "lease_id l = ''l1''"
    and handle: "trim_space h \<noteq> []"
  shows "conc_reach gc (conc_state [(''l1'', l)] [(''l1'', race_entry l h)] T {race_entry l h})"
proof -
  let ?e = "race_entry l h"
  have "conc_step gc (conc_state [] [] T {})
      (conc_state [(''l1'', l)] [] (add_mset (Preparing l ''local-process'') T) {})"
    using begin_acquire [where s = "conc_state [] [] T {}" and l = l and now = now] acq by simp
  moreover have "conc_step gc (conc_state [(''l1'', l)] [] (add_mset (Preparing l ''local-process'') T) {})
      (conc_state [(''l1'', l)] [] (add_mset (Installing ?e) T) {?e})"
    using prepared [where s = "conc_state [(''l1'', l)] [] (add_mset (Preparing l ''local-process'') T) {}"
        and e = ?e and h = "race_handle h"]
    using handle by (simp add: race_entry_def race_handle_def)
  moreover have "conc_step gc (conc_state [(''l1'', l)] [] (add_mset (Installing ?e) T) {?e})
      (conc_state [(''l1'', l)] [(''l1'', ?e)] T {?e})"
    using install [where s = "conc_state [(''l1'', l)] [] (add_mset (Installing ?e) T) {?e}" and e = ?e]
      id by (simp add: race_entry_def)
  ultimately show ?thesis using step by (meson rtranclp.rtrancl_into_rtrancl)
qed


text \<open>One release run to a given point over one entry.\<close>

lemma race_release:
  assumes step: "conc_reach True (conc_state [(''l1'', l)] [(''l1'', race_entry l h)] T {race_entry l h})"
    and id: "lease_id l = ''l1''" and due: "expires_at l \<le> now"
  shows "conc_reach True (conc_state [] [] (add_mset (Settling ''l1'' False) T) {})"
proof -
  let ?e = "race_entry l h" and ?T = "add_mset (Settling ''l1'' False) T"
  let ?A = "[(''l1'', ?e)]" and ?L = "[(''l1'', l)]"
  have "conc_step True (conc_state ?L ?A T {?e}) (conc_state ?L ?A (add_mset (Releasing ''l1'' ?e False) T) {?e})"
    using begin_release [where s = "conc_state ?L ?A T {?e}" and i = "''l1''"] by simp
  with step have "conc_reach True (conc_state ?L ?A (add_mset (Releasing ''l1'' ?e False) T) {?e})"
    by (rule rtranclp.rtrancl_into_rtrancl)
  moreover have "conc_step True (conc_state ?L ?A (add_mset (Releasing ''l1'' ?e False) T) {?e})
      (conc_state ?L ?A ?T {})"
    using backend_released [where s = "conc_state ?L ?A (add_mset (Releasing ''l1'' ?e False) T) {?e}" and e = ?e]
    by simp
  moreover have "conc_step True (conc_state ?L ?A ?T {})
      (conc_state ?L ?A (add_mset (Releasing ''l1'' ?e True) ?T) {})"
    using begin_collect [where s = "conc_state ?L ?A ?T {}" and i = "''l1''" and now = now] due
    by (simp add: race_entry_def)
  moreover have "conc_step True (conc_state ?L ?A (add_mset (Releasing ''l1'' ?e True) ?T) {})
      (conc_state ?L ?A (add_mset (Settling ''l1'' True) ?T) {})"
    using backend_released [where s = "conc_state ?L ?A (add_mset (Releasing ''l1'' ?e True) ?T) {}" and e = ?e]
    by simp
  moreover have "\<exists>l'. conc_step True (conc_state ?L ?A (add_mset (Settling ''l1'' True) ?T) {})
      (conc_state [(''l1'', l')] ?A (add_mset (Dropping ''l1'' True) ?T) {})"
    using settle [where s = "conc_state ?L ?A (add_mset (Settling ''l1'' True) ?T) {}" and i = "''l1''"
        and g = True and T = ?T and now = 5 and gc = True]
    by (cases "released_at l = 0") (auto simp: manager_release_def Let_def)
  moreover have "conc_step True (conc_state [(''l1'', l')] ?A (add_mset (Dropping ''l1'' True) ?T) {})
      (conc_state [(''l1'', l')] [] (add_mset (Forgetting ''l1'') ?T) {})" for l'
    using drop_entry [where s = "conc_state [(''l1'', l')] ?A (add_mset (Dropping ''l1'' True) ?T) {}"
        and i = "''l1''" and g = True and T = ?T] by simp
  moreover have "conc_step True (conc_state [(''l1'', l')] [] (add_mset (Forgetting ''l1'') ?T) {})
      (conc_state [] [] ?T {})" for l'
    using forget [where s = "conc_state [(''l1'', l')] [] (add_mset (Forgetting ''l1'') ?T) {}"
        and i = "''l1''" and T = ?T] by (simp add: manager_remove_def)
  ultimately show ?thesis by (meson rtranclp.rtrancl_into_rtrancl)
qed

text \<open>With collections the guarantee fails: a release that has stopped its environment may be
  overtaken by a collection that forgets the expired lease and by a new acquisition under the
  same id; going on, the old release deletes the new entry, and a running environment is left
  that no table and no call in progress knows.\<close>

theorem stale_release_loses_environment:
  "\<exists>s e. conc_reach True s \<and> e \<in> cs_live s \<and> \<not> tracked s e \<and> cs_threads s = {#}
     \<and> map_of (cs_active s) (entry_id e) = None"
proof -
  have vals: "manager_acquire [] sample_lease 7 = ([(''l1'', sample_lease)], Inr sample_lease)"
    "manager_acquire [] race_lease 200 = ([(''l1'', race_lease)], Inr race_lease)"
    "lease_id sample_lease = ''l1''" "lease_id race_lease = ''l1''" "expires_at sample_lease \<le> 100"
    "trim_space ''h1'' \<noteq> []" "trim_space ''h2'' \<noteq> []"
    by code_simp+
  let ?e = "race_entry race_lease ''h2''"
  let ?s = "conc_state [(''l1'', race_lease)] [(''l1'', ?e)] {#Settling ''l1'' False#} {?e}"
  have "conc_reach True (conc_state [] [] {#} {})" by (simp add: conc_start_def new_manager_def)
  note race_acquire [OF this vals(1) vals(3) vals(6)]
  note race_release [OF this vals(3,5)]
  note reach = race_acquire [OF this vals(2) vals(4) vals(7)]
  define L where "L = fst (manager_release [(''l1'', race_lease)] ''l1'' 201)"
  have "conc_step True ?s (conc_state L [(''l1'', ?e)] {#Dropping ''l1'' False#} {?e})"
    using settle [where s = ?s and i = "''l1''" and now = 201 and g = False and T = "{#}" and gc = True]
    by (simp add: L_def)
  moreover have "conc_step True (conc_state L [(''l1'', ?e)] {#Dropping ''l1'' False#} {?e})
      (conc_state L [] {#} {?e})"
    using drop_entry [where s = "conc_state L [(''l1'', ?e)] {#Dropping ''l1'' False#} {?e}"
        and i = "''l1''" and g = False and T = "{#}"] by simp
  ultimately have "conc_reach True (conc_state L [] {#} {?e})"
    using reach by (meson rtranclp.rtrancl_into_rtrancl)
  then show ?thesis
    by (intro exI [of _ "conc_state L [] {#} {?e}"] exI [of _ ?e]) (simp add: tracked_def)
qed

end
