(* ===== verification/GoValue.thy ===== *)
theory GoValue
  imports SohaPrelude Complex_Main
begin

text \<open>
  Dynamic values (\<^verbatim>\<open>any\<close> as it arrives from JSON and as payloads are built) and the redaction of
  what the runner reports, \<^verbatim>\<open>internal/agent/runner/runner.go\<close>.

  A payload map is an association list with distinct keys. \<open>sprint\<close> is \<^verbatim>\<open>fmt.Sprint\<close>; the text
  of a floating-point number is the parameter \<open>ft\<close>. \<open>VOpaque\<close> is a value of any other Go type,
  carrying its text. The pattern of \<^verbatim>\<open>agentRuntimeSensitiveAssignments\<close> is matched byte by byte;
  under \<^verbatim>\<open>(?i)\<close> the letters s and k also match U+017F and U+212A.
\<close>

subsection \<open>Values\<close>

datatype gvalue =
    VNil
  | VBool bool
  | VInt int
  | VFloat rat
  | VStr string
  | VStrs "string list"
  | VList "gvalue list"
  | VMap "(string \<times> gvalue) list"
  | VMaps "(string \<times> gvalue) list list"
  | VOpaque string

type_synonym gmap = "(string \<times> gvalue) list"

definition map_get :: "gmap \<Rightarrow> string \<Rightarrow> gvalue" where
  "map_get m k = (case map_of m k of None \<Rightarrow> VNil | Some v \<Rightarrow> v)"

definition digit_char :: "nat \<Rightarrow> char" where
  "digit_char n = char_of (48 + n mod 10)"

fun show_nat :: "nat \<Rightarrow> string" where
  "show_nat n = (if n < 10 then [digit_char n] else show_nat (n div 10) @ [digit_char n])"

declare show_nat.simps [simp del]

definition show_int :: "int \<Rightarrow> string" where
  "show_int i = (if i < 0 then CHR ''-'' # show_nat (nat (- i)) else show_nat (nat i))"

definition bracket :: "string list \<Rightarrow> string" where
  "bracket ws = CHR ''['' # join_with '' '' ws @ '']''"

definition show_entries :: "(string \<times> string) list \<Rightarrow> string" where
  "show_entries es = ''map['' @ join_with '' '' (map (\<lambda>(k, t). k @ '':'' @ t) (sort_key fst es)) @ '']''"

fun sprint :: "(rat \<Rightarrow> string) \<Rightarrow> gvalue \<Rightarrow> string"
  and sprint_list :: "(rat \<Rightarrow> string) \<Rightarrow> gvalue list \<Rightarrow> string list"
  and sprint_entries :: "(rat \<Rightarrow> string) \<Rightarrow> gmap \<Rightarrow> (string \<times> string) list"
  and sprint_maps :: "(rat \<Rightarrow> string) \<Rightarrow> gmap list \<Rightarrow> string list" where
  "sprint ft VNil = ''<nil>''"
| "sprint ft (VBool b) = (if b then ''true'' else ''false'')"
| "sprint ft (VInt i) = show_int i"
| "sprint ft (VFloat q) = ft q"
| "sprint ft (VStr s) = s"
| "sprint ft (VStrs ss) = bracket ss"
| "sprint ft (VList vs) = bracket (sprint_list ft vs)"
| "sprint ft (VMap es) = show_entries (sprint_entries ft es)"
| "sprint ft (VMaps ms) = bracket (sprint_maps ft ms)"
| "sprint ft (VOpaque s) = s"
| "sprint_list ft [] = []"
| "sprint_list ft (v # vs) = sprint ft v # sprint_list ft vs"
| "sprint_entries ft [] = []"
| "sprint_entries ft ((k, v) # es) = (k, sprint ft v) # sprint_entries ft es"
| "sprint_maps ft [] = []"
| "sprint_maps ft (m # ms) = show_entries (sprint_entries ft m) # sprint_maps ft ms"

text \<open>\<^verbatim>\<open>strings.TrimSpace(fmt.Sprint(m[key]))\<close>, the way the runner reads a payload field.\<close>

definition text_field :: "(rat \<Rightarrow> string) \<Rightarrow> gmap \<Rightarrow> string \<Rightarrow> string" where
  "text_field ft m k = trim_space (sprint ft (map_get m k))"

subsection \<open>Redaction\<close>

definition sensitive_needles :: "string list" where
  "sensitive_needles = [''token'', ''password'', ''passwd'', ''secret'', ''credential'', ''apikey'',
     ''api_key'', ''authorization'', ''kubeconfig'', ''envvar'', ''environmentvariable'']"

definition sensitive_key :: "string \<Rightarrow> bool" where
  "sensitive_key key = list_ex (contains (to_lower (trim_space key))) sensitive_needles"

definition fold_letter :: "char \<Rightarrow> string \<Rightarrow> string option" where
  "fold_letter p s =
     (case s of
        [] \<Rightarrow> None
      | c # cs \<Rightarrow>
          if lower_char c = p then Some cs
          else if p = CHR ''s'' \<and> has_prefix s [CHR 0xC5, CHR 0xBF] then Some (drop 2 s)
          else if p = CHR ''k'' \<and> has_prefix s [CHR 0xE2, CHR 0x84, CHR 0xAA] then Some (drop 3 s)
          else None)"

fun match_word :: "string \<Rightarrow> string \<Rightarrow> string option" where
  "match_word [] s = Some s"
| "match_word (p # ps) s = (case fold_letter p s of None \<Rightarrow> None | Some rest \<Rightarrow> match_word ps rest)"

definition assignment_words :: "string list" where
  "assignment_words = [''token'', ''password'', ''passwd'', ''secret'', ''authorization'',
     ''api_key'', ''api-key'', ''apikey'']"

definition value_char :: "char \<Rightarrow> bool" where
  "value_char c \<longleftrightarrow> c \<notin> {CHR '' '', CHR 0x09, CHR 0x0A, CHR '','', CHR '';''}"

definition match_after :: "string \<Rightarrow> string \<Rightarrow> (string \<times> string) option" where
  "match_after s word =
     (case match_word word s of
        Some (c # v # rest) \<Rightarrow>
          if c = CHR ''='' \<and> value_char v
          then Some (take (length s - Suc (Suc (length rest))) s, dropWhile value_char rest)
          else None
      | _ \<Rightarrow> None)"

fun first_match :: "string \<Rightarrow> string list \<Rightarrow> (string \<times> string) option" where
  "first_match s [] = None"
| "first_match s (w # ws) = (case match_after s w of None \<Rightarrow> first_match s ws | Some r \<Rightarrow> Some r)"

definition match_assignment :: "string \<Rightarrow> (string \<times> string) option" where
  "match_assignment s = first_match s assignment_words"

lemma fold_letter_suffix: "fold_letter p s = Some rest \<Longrightarrow> \<exists>u. u \<noteq> [] \<and> s = u @ rest"
proof -
  assume a: "fold_letter p s = Some rest"
  then obtain n where n: "rest = drop (Suc n) s" "s \<noteq> []"
    by (auto simp: fold_letter_def numeral_2_eq_2 numeral_3_eq_3 split: list.splits if_splits)
      (metis drop_Suc_Cons drop0)+
  then have "s = take (Suc n) s @ rest" "take (Suc n) s \<noteq> []" by auto
  then show ?thesis by metis
qed

lemma match_word_suffix: "match_word w s = Some rest \<Longrightarrow> \<exists>u. s = u @ rest"
proof (induction w s rule: match_word.induct)
  case (2 p ps s)
  from 2(2) obtain mid where mid: "fold_letter p s = Some mid" "match_word ps mid = Some rest"
    by (auto split: option.splits)
  with 2(1) fold_letter_suffix [OF mid(1)] show ?case by (metis append_assoc)
qed simp

lemma match_after_shape:
  assumes "match_after s w = Some (k, rest)"
  shows "\<exists>v. s = k @ CHR ''='' # v @ rest \<and> v \<noteq> [] \<and> list_all value_char v
    \<and> (rest = [] \<or> \<not> value_char (hd rest))"
proof -
  from assms obtain v r where m: "match_word w s = Some (CHR ''='' # v # r)" "value_char v"
      "k = take (length s - Suc (Suc (length r))) s" "rest = dropWhile value_char r"
    by (auto simp: match_after_def split: option.splits list.splits if_splits)
  from match_word_suffix [OF m(1)] obtain u where u: "s = u @ CHR ''='' # v # r" by blast
  with m have "k = u" by simp
  moreover have "r = takeWhile value_char r @ rest" using m(4) by simp
  moreover have "list_all value_char (takeWhile value_char r)" by (auto simp: list_all_iff dest: set_takeWhileD)
  moreover have "rest = [] \<or> \<not> value_char (hd rest)"
    unfolding m(4) using hd_dropWhile [of value_char r] by blast
  ultimately show ?thesis using u m(2)
    by (intro exI [of _ "v # takeWhile value_char r"]) auto
qed

lemma first_match_after: "first_match s ws = Some r \<Longrightarrow> \<exists>w \<in> set ws. match_after s w = Some r"
  by (induction s ws rule: first_match.induct) (auto split: option.splits)

lemma match_assignment_shape:
  assumes "match_assignment s = Some (k, rest)"
  shows "\<exists>v. s = k @ CHR ''='' # v @ rest \<and> v \<noteq> [] \<and> list_all value_char v
    \<and> (rest = [] \<or> \<not> value_char (hd rest))"
  using first_match_after [OF assms [unfolded match_assignment_def]] match_after_shape by blast

lemma match_assignment_shorter:
  "match_assignment s = Some (k, rest) \<Longrightarrow> length rest < length s"
  using match_assignment_shape by fastforce

function redact_text :: "string \<Rightarrow> string" where
  "redact_text s =
     (case s of
        [] \<Rightarrow> []
      | c # cs \<Rightarrow>
          (case match_assignment s of
             Some (k, rest) \<Rightarrow> k @ ''=[REDACTED]'' @ redact_text rest
           | None \<Rightarrow> c # redact_text cs))"
  by pat_completeness auto
termination
  by (relation "measure length") (auto dest: match_assignment_shorter)

declare redact_text.simps [simp del]

definition redacted :: gvalue where
  "redacted = VStr ''[REDACTED]''"

fun redact_value :: "gvalue \<Rightarrow> gvalue"
  and redact_list :: "gvalue list \<Rightarrow> gvalue list"
  and redact_entries :: "gmap \<Rightarrow> gmap"
  and redact_maps :: "gmap list \<Rightarrow> gmap list" where
  "redact_value (VMap es) = VMap (redact_entries es)"
| "redact_value (VMaps ms) = VMaps (redact_maps ms)"
| "redact_value (VList vs) = VList (redact_list vs)"
| "redact_value (VStrs ss) = VStrs (map redact_text ss)"
| "redact_value (VStr s) = VStr (redact_text s)"
| "redact_value v = v"
| "redact_list [] = []"
| "redact_list (v # vs) = redact_value v # redact_list vs"
| "redact_entries [] = []"
| "redact_entries ((k, v) # es) =
     (k, if sensitive_key k then redacted else redact_value v) # redact_entries es"
| "redact_maps [] = []"
| "redact_maps (m # ms) = redact_entries m # redact_maps ms"

definition redact_logs :: "string list \<Rightarrow> string list" where
  "redact_logs logs = map redact_text logs"

subsection \<open>The matched assignments\<close>

definition key_text :: "string \<Rightarrow> bool" where
  "key_text k \<longleftrightarrow> (\<exists>w \<in> set assignment_words. match_word w k = Some [])"

definition value_end :: "string \<Rightarrow> bool" where
  "value_end rest \<longleftrightarrow> rest = [] \<or> \<not> value_char (hd rest)"

definition odd_fold :: "char set" where
  "odd_fold = {CHR 0xC5, CHR 0xBF, CHR 0xE2, CHR 0x84, CHR 0xAA}"

lemma take_Cons_1: "take (Suc 0) (c # cs) = [c]"
  by simp

lemma fold_letter_local:
  assumes "fold_letter p s = Some rest"
  shows "\<exists>u. u \<noteq> [] \<and> s = u @ rest \<and> (\<forall>y. fold_letter p (u @ y) = Some y)
    \<and> (\<forall>c \<in> set u. lower_char c = p \<or> c \<in> odd_fold)"
proof -
  from assms obtain c cs where s: "s = c # cs" by (cases s) (auto simp: fold_letter_def)
  define long where "long \<longleftrightarrow> p = CHR ''s'' \<and> has_prefix s [CHR 0xC5, CHR 0xBF]"
  define kelv where "kelv \<longleftrightarrow> p = CHR ''k'' \<and> has_prefix s [CHR 0xE2, CHR 0x84, CHR 0xAA]"
  have "fold_letter p s = (if lower_char c = p then Some cs else if long then Some (drop 2 s)
      else if kelv then Some (drop 3 s) else None)"
    unfolding long_def kelv_def fold_letter_def by (simp add: s del: has_prefix_Cons)
  with assms consider (plain) "lower_char c = p" "rest = cs"
    | (long_s) "long" "rest = drop 2 s" | (kelvin) "kelv" "rest = drop 3 s"
    by (metis option.distinct(1) option.inject)
  then show ?thesis
  proof cases
    case plain
    with s show ?thesis by (intro exI [of _ "[c]"]) (simp add: fold_letter_def)
  next
    case long_s
    then obtain t where p: "p = CHR ''s''" and t: "s = [CHR 0xC5, CHR 0xBF] @ t"
      by (auto simp: has_prefix_iff long_def)
    have "lower_char CHR 0xC5 \<noteq> CHR ''s''" by code_simp
    with long_s(2) p t show ?thesis
      by (intro exI [of _ "[CHR 0xC5, CHR 0xBF]"]) (simp add: fold_letter_def odd_fold_def numeral_2_eq_2)
  next
    case kelvin
    then obtain t where p: "p = CHR ''k''" and t: "s = [CHR 0xE2, CHR 0x84, CHR 0xAA] @ t"
      by (auto simp: has_prefix_iff kelv_def)
    have "lower_char CHR 0xE2 \<noteq> CHR ''k''" by code_simp
    with kelvin(2) p t show ?thesis
      by (intro exI [of _ "[CHR 0xE2, CHR 0x84, CHR 0xAA]"]) (simp add: fold_letter_def odd_fold_def numeral_3_eq_3)
  qed
qed

lemma match_word_local:
  "match_word w s = Some rest \<Longrightarrow>
   \<exists>u. s = u @ rest \<and> (\<forall>y. match_word w (u @ y) = Some y)
     \<and> (\<forall>c \<in> set u. lower_char c \<in> set w \<or> c \<in> odd_fold)"
proof (induction w arbitrary: s)
  case (Cons p ps)
  from Cons.prems obtain mid where mid: "fold_letter p s = Some mid" "match_word ps mid = Some rest"
    by (auto split: option.splits)
  from fold_letter_local [OF mid(1)] obtain u where u: "s = u @ mid"
    "\<forall>y. fold_letter p (u @ y) = Some y" "\<forall>c \<in> set u. lower_char c = p \<or> c \<in> odd_fold" by blast
  from Cons.IH [OF mid(2)] obtain v where v: "mid = v @ rest" "\<forall>y. match_word ps (v @ y) = Some y"
    "\<forall>c \<in> set v. lower_char c \<in> set ps \<or> c \<in> odd_fold" by blast
  from u v show ?case by (intro exI [of _ "u @ v"]) auto
qed simp

lemma key_text_append: "match_word w (k @ y) = Some y \<Longrightarrow> match_word w k = Some []"
proof -
  assume "match_word w (k @ y) = Some y"
  from match_word_local [OF this] obtain u where "k @ y = u @ y" "\<forall>z. match_word w (u @ z) = Some z"
    by blast
  then show ?thesis by (metis append_Nil2 append_same_eq)
qed

lemma key_text_chars: "key_text k \<Longrightarrow> c \<in> set k \<Longrightarrow> c \<noteq> CHR ''='' \<and> c \<noteq> CHR '']''"
proof -
  assume "key_text k" and c: "c \<in> set k"
  then obtain w where w: "w \<in> set assignment_words" "match_word w k = Some []"
    by (auto simp: key_text_def)
  have "\<forall>w \<in> set assignment_words. lower_char CHR ''='' \<notin> set w \<and> lower_char CHR '']'' \<notin> set w"
    by code_simp
  moreover have "CHR ''='' \<notin> odd_fold" "CHR '']'' \<notin> odd_fold" by (simp_all add: odd_fold_def)
  ultimately show ?thesis using match_word_local [OF w(2)] w(1) c by auto
qed

lemma key_text_nonempty: "key_text k \<Longrightarrow> k \<noteq> []"
proof
  assume "key_text k" "k = []"
  then obtain w where w: "w \<in> set assignment_words" "match_word w [] = Some []"
    by (auto simp: key_text_def)
  have "\<forall>w \<in> set assignment_words. match_word w [] = None" by code_simp
  with w show False by auto
qed

lemma key_text_value_head: "key_text k \<Longrightarrow> value_char (hd k)"
proof -
  assume key: "key_text k"
  then obtain w where w: "w \<in> set assignment_words" "match_word w k = Some []"
    by (auto simp: key_text_def)
  have "\<forall>w \<in> set assignment_words. list_all (\<lambda>c. lower_char c \<notin> set w \<and> c \<notin> odd_fold)
      [CHR '' '', CHR 0x09, CHR 0x0A, CHR '','', CHR '';'']"
    unfolding odd_fold_def by code_simp
  with w match_word_local [OF w(2)] key_text_nonempty [OF key] show ?thesis
    by (cases k) (auto simp: value_char_def)
qed

lemma match_assignment_key:
  assumes "match_assignment s = Some (k, rest)"
  shows "key_text k \<and> value_end rest \<and> (\<exists>v. s = k @ CHR ''='' # v @ rest \<and> v \<noteq> [] \<and> list_all value_char v)"
proof -
  from match_assignment_shape [OF assms] obtain v where
    v: "s = k @ CHR ''='' # v @ rest" "v \<noteq> []" "list_all value_char v" "value_end rest"
    by (auto simp: value_end_def)
  from first_match_after [OF assms [unfolded match_assignment_def]] obtain w where
    w: "w \<in> set assignment_words" "match_after s w = Some (k, rest)" by blast
  from w(2) obtain x r where m: "match_word w s = Some (CHR ''='' # x # r)"
      "k = take (length s - Suc (Suc (length r))) s"
    by (auto simp: match_after_def split: option.splits list.splits if_splits)
  from match_word_suffix [OF m(1)] obtain u where u: "s = u @ CHR ''='' # x # r" by blast
  with m(2) have "k = u" by simp
  with m(1) u have "match_word w k = Some []" using key_text_append by blast
  with w v show ?thesis by (auto simp: key_text_def)
qed

lemma value_split:
  "list_all value_char v \<Longrightarrow> value_end rest \<Longrightarrow> dropWhile value_char (v @ rest) = rest"
  by (induction v) (cases rest, auto simp: value_end_def)

lemma before_equals:
  "k @ CHR ''='' # x = k' @ CHR ''='' # y \<Longrightarrow> CHR ''='' \<notin> set k \<Longrightarrow> CHR ''='' \<notin> set k' \<Longrightarrow> k = k' \<and> x = y"
  by (induction k arbitrary: k') (case_tac k', auto)+

lemma match_assignment_complete:
  assumes key: "key_text k" and v: "v \<noteq> []" "list_all value_char v" and rest: "value_end rest"
  shows "match_assignment (k @ CHR ''='' # v @ rest) = Some (k, rest)"
proof -
  let ?s = "k @ CHR ''='' # v @ rest"
  from key obtain w where w: "w \<in> set assignment_words" "match_word w k = Some []"
    by (auto simp: key_text_def)
  then have mw: "match_word w ?s = Some (CHR ''='' # v @ rest)"
    using match_word_local [OF w(2)] by auto
  have "match_after ?s w \<noteq> None"
    using mw v by (cases v) (auto simp: match_after_def)
  moreover have "match_after ?s w \<noteq> None \<Longrightarrow> w \<in> set ws \<Longrightarrow> first_match ?s ws \<noteq> None" for ws
    by (induction ws) (auto split: option.splits)
  ultimately have "match_assignment ?s \<noteq> None" using w(1) by (simp add: match_assignment_def)
  then obtain k' rest' where m: "match_assignment ?s = Some (k', rest')" by auto
  from match_assignment_key [OF this] obtain v' where
    k': "key_text k'" "value_end rest'" "?s = k' @ CHR ''='' # v' @ rest'" "list_all value_char v'" by blast
  from before_equals [OF k'(3)] key_text_chars [OF key] key_text_chars [OF k'(1)]
  have "k = k'" "v @ rest = v' @ rest'" by blast+
  with value_split [OF v(2) rest] value_split [OF k'(4,2)] m show ?thesis by simp
qed

subsection \<open>What redaction leaves\<close>

text \<open>No place of the text holds a sensitive assignment whose value is not the mark.\<close>

definition clean_text :: "string \<Rightarrow> bool" where
  "clean_text t \<longleftrightarrow> (\<forall>a b k rest. t = a @ b \<longrightarrow> match_assignment b = Some (k, rest) \<longrightarrow>
     b = k @ ''=[REDACTED]'' @ rest)"

lemma redact_text_Nil [simp]: "redact_text [] = []"
  by (subst redact_text.simps) simp

lemma redact_text_match:
  "match_assignment s = Some (k, rest) \<Longrightarrow> redact_text s = k @ ''=[REDACTED]'' @ redact_text rest"
  by (subst redact_text.simps) (auto dest: match_assignment_shorter split: list.splits)

lemma redact_text_step:
  "match_assignment (c # cs) = None \<Longrightarrow> redact_text (c # cs) = c # redact_text cs"
  by (subst redact_text.simps) simp

lemma match_at_value_end: "value_end s \<Longrightarrow> match_assignment s = None"
proof (rule ccontr)
  assume e: "value_end s" and "match_assignment s \<noteq> None"
  then obtain k rest where "match_assignment s = Some (k, rest)" by auto
  from match_assignment_key [OF this] obtain v where k: "key_text k" "s = k @ CHR ''='' # v @ rest"
    by blast
  with key_text_value_head [OF k(1)] key_text_nonempty [OF k(1)] e show False
    by (auto simp: value_end_def)
qed

lemma redact_value_end: "value_end s \<Longrightarrow> value_end (redact_text s)"
proof (cases s)
  case (Cons c cs)
  assume e: "value_end s"
  from match_at_value_end [OF e] Cons have "redact_text s = c # redact_text cs"
    by (simp add: redact_text_step)
  with e Cons show ?thesis by (simp add: value_end_def)
qed simp

lemma redact_text_head:
  "redact_text t = d # q \<Longrightarrow> value_char d \<Longrightarrow> \<exists>d' q'. t = d' # q' \<and> value_char d'"
proof (cases t)
  case (Cons c cs)
  assume r: "redact_text t = d # q" "value_char d"
  show ?thesis
  proof (cases "match_assignment t")
    case None
    with r Cons show ?thesis by (simp add: redact_text_step)
  next
    case (Some m)
    then obtain k rest where m: "match_assignment t = Some (k, rest)" by (cases m) auto
    from match_assignment_key [OF m] have "key_text k" "\<exists>y. t = k @ y" by auto
    with key_text_nonempty key_text_value_head show ?thesis by (cases k) fastforce+
  qed
qed simp

lemma redact_text_prefix:
  "redact_text t = p @ CHR ''='' # d # q \<Longrightarrow> CHR ''='' \<notin> set p \<Longrightarrow> value_char d \<Longrightarrow>
   \<exists>d' q'. t = p @ CHR ''='' # d' # q' \<and> value_char d'"
proof (induction t arbitrary: p rule: redact_text.induct)
  case (1 t)
  show ?case
  proof (cases t)
    case (Cons c cs)
    show ?thesis
    proof (cases "match_assignment t")
      case None
      with Cons "1.prems"(1) have out: "c # redact_text cs = p @ CHR ''='' # d # q"
        by (simp add: redact_text_step)
      show ?thesis
      proof (cases p)
        case Nil
        with out redact_text_head [of cs d q] "1.prems"(3) Cons show ?thesis by auto
      next
        case p: (Cons p0 ps)
        with out have "redact_text cs = ps @ CHR ''='' # d # q" by simp
        with "1.IH"(1) [OF Cons None] "1.prems" p
        obtain d' q' where "cs = ps @ CHR ''='' # d' # q'" "value_char d'" by auto
        with p out Cons show ?thesis by auto
      qed
    next
      case (Some m)
      then obtain k rest where m: "match_assignment t = Some (k, rest)" by (cases m) auto
      from match_assignment_key [OF m] obtain v where
        k: "key_text k" "t = k @ CHR ''='' # v @ rest" "v \<noteq> []" "list_all value_char v" by blast
      have "k @ CHR ''='' # (''[REDACTED]'' @ redact_text rest) = p @ CHR ''='' # d # q"
        using redact_text_match [OF m] "1.prems"(1) by simp
      from before_equals [OF this] key_text_chars [OF k(1)] "1.prems"(2) have "k = p" by blast
      with k show ?thesis by (cases v) auto
    qed
  qed (use "1.prems" in simp)
qed

lemma redact_text_no_match:
  assumes "match_assignment (c # cs) = None"
  shows "match_assignment (c # redact_text cs) = None"
proof (rule ccontr)
  assume "match_assignment (c # redact_text cs) \<noteq> None"
  then obtain k rest where m: "match_assignment (c # redact_text cs) = Some (k, rest)" by auto
  from match_assignment_key [OF m] obtain v where
    k: "key_text k" "c # redact_text cs = k @ CHR ''='' # v @ rest" "v \<noteq> []" "list_all value_char v"
    by blast
  from k(3,4) obtain d v' where v: "v = d # v'" "value_char d" by (cases v) auto
  from key_text_nonempty [OF k(1)] obtain k0 ks where k0: "k = k0 # ks" by (cases k) auto
  with k v have "redact_text cs = ks @ CHR ''='' # d # (v' @ rest)" "CHR ''='' \<notin> set ks" "c = k0"
    using key_text_chars [OF k(1)] by auto
  from redact_text_prefix [OF this(1,2) v(2)] obtain d' q' where
    cs: "cs = ks @ CHR ''='' # d' # q'" "value_char d'" by blast
  let ?v = "d' # takeWhile value_char q'" and ?r = "dropWhile value_char q'"
  have "value_end ?r" unfolding value_end_def using hd_dropWhile [of value_char q'] by blast
  moreover have "list_all value_char ?v" using cs(2) by (auto simp: list_all_iff dest: set_takeWhileD)
  moreover have "c # cs = k @ CHR ''='' # ?v @ ?r" using cs k0 \<open>c = k0\<close> by simp
  ultimately have "match_assignment (c # cs) = Some (k, ?r)"
    using match_assignment_complete [OF k(1), of ?v ?r] by simp
  with assms show False by simp
qed

lemma clean_text_replaced:
  assumes key: "key_text k" and R: "value_end R" and clean: "clean_text R"
  shows "clean_text (k @ ''=[REDACTED]'' @ R)"
  unfolding clean_text_def
proof (intro allI impI)
  fix a b k' rest
  assume split: "k @ ''=[REDACTED]'' @ R = a @ b" and m: "match_assignment b = Some (k', rest)"
  from match_assignment_key [OF m] obtain v where
    b: "key_text k'" "value_end rest" "b = k' @ CHR ''='' # v @ rest" "list_all value_char v" by blast
  have mark: "list_all value_char ''[REDACTED]''" by code_simp
  from split obtain u where "(a = k @ u \<and> ''=[REDACTED]'' @ R = u @ b) \<or> (k = a @ u \<and> b = u @ ''=[REDACTED]'' @ R)"
    by (auto simp: append_eq_append_conv2)
  then show "b = k' @ ''=[REDACTED]'' @ rest"
  proof
    assume u: "k = a @ u \<and> b = u @ ''=[REDACTED]'' @ R"
    then have "CHR ''='' \<notin> set u" using key_text_chars [OF key] by auto
    moreover have "u @ CHR ''='' # (''[REDACTED]'' @ R) = k' @ CHR ''='' # v @ rest" using u b(3) by simp
    ultimately have "u = k'" and eq: "''[REDACTED]'' @ R = v @ rest"
      using before_equals key_text_chars [OF b(1)] by blast+
    moreover have "R = rest" using value_split [OF mark R] value_split [OF b(4,2)] unfolding eq by simp
    ultimately show ?thesis using u by simp
  next
    assume u: "a = k @ u \<and> ''=[REDACTED]'' @ R = u @ b"
    then have eq: "''=[REDACTED]'' @ R = u @ b" by blast
    obtain w where w: "(u = ''=[REDACTED]'' @ w \<and> R = w @ b) \<or> (''=[REDACTED]'' = u @ w \<and> b = w @ R)"
      using eq [unfolded append_eq_append_conv2] by blast
    show ?thesis
    proof (cases "w = [] \<and> ''=[REDACTED]'' = u \<or> u = ''=[REDACTED]'' @ w \<and> R = w @ b")
      case True
      then obtain w' where "R = w' @ b" using w by auto
      with clean m show ?thesis unfolding clean_text_def by blast
    next
      case False
      with w have w2: "''=[REDACTED]'' = u @ w" "b = w @ R" "w \<noteq> []" by auto
      then have "last w = CHR '']''" by (metis last_appendR last.simps list.simps(3) append_Cons append_Nil)
      then have last: "CHR '']'' \<in> set w" using w2(3) last_in_set by metis
      from w2(2) b(3) have "w @ R = k' @ CHR ''='' # v @ rest" by simp
      then obtain us where "(w = k' @ us \<and> us @ R = CHR ''='' # v @ rest) \<or> w @ us = k'"
        by (auto simp: append_eq_append_conv2)
      moreover have "CHR '']'' \<notin> set k'" using key_text_chars [OF b(1)] by blast
      then have "w @ us \<noteq> k'" "w \<noteq> k'" using last by auto
      ultimately obtain z where "w = k' @ CHR ''='' # z" by (cases us) auto
      with w2(1) have pos: "''=[REDACTED]'' = (u @ k') @ CHR ''='' # z" by simp
      show ?thesis
      proof (cases "u @ k'")
        case Nil
        with key_text_nonempty [OF b(1)] show ?thesis by simp
      next
        case (Cons x xs)
        with pos have "''[REDACTED]'' = xs @ CHR ''='' # z" by simp
        then have "CHR ''='' \<in> set ''[REDACTED]''" by (metis in_set_conv_decomp)
        then show ?thesis by simp
      qed
    qed
  qed
qed

lemma clean_redact_text: "clean_text (redact_text s)"
proof (induction s rule: redact_text.induct)
  case (1 s)
  show ?case
  proof (cases s)
    case Nil
    then show ?thesis by (simp add: clean_text_def match_at_value_end value_end_def)
  next
    case (Cons c cs)
    show ?thesis
    proof (cases "match_assignment s")
      case None
      have "clean_text (redact_text cs)" using "1.IH"(1) [OF Cons None] .
      moreover have "match_assignment (c # redact_text cs) = None"
        using None Cons by (simp add: redact_text_no_match)
      moreover have "redact_text s = c # redact_text cs" using None Cons by (simp add: redact_text_step)
      ultimately show ?thesis unfolding clean_text_def
      proof (intro allI impI)
        fix a b k rest
        assume clean: "\<forall>a b k rest. redact_text cs = a @ b \<longrightarrow> match_assignment b = Some (k, rest) \<longrightarrow>
            b = k @ ''=[REDACTED]'' @ rest"
          and none: "match_assignment (c # redact_text cs) = None"
          and out: "redact_text s = c # redact_text cs"
          and split: "redact_text s = a @ b" and m: "match_assignment b = Some (k, rest)"
        show "b = k @ ''=[REDACTED]'' @ rest"
        proof (cases a)
          case Nil
          with out split none m show ?thesis by simp
        next
          case (Cons a0 as)
          with out split have "redact_text cs = as @ b" by simp
          with clean m show ?thesis by blast
        qed
      qed
    next
      case (Some m)
      then obtain k rest where m: "match_assignment s = Some (k, rest)" by (cases m) auto
      from match_assignment_key [OF m] have k: "key_text k" "value_end rest" by blast+
      have "clean_text (redact_text rest)" using "1.IH"(2) [OF Cons m refl] .
      from clean_text_replaced [OF k(1) redact_value_end [OF k(2)] this]
      show ?thesis by (simp only: redact_text_match [OF m])
    qed
  qed
qed

lemma redact_clean_text: "clean_text t \<Longrightarrow> redact_text t = t"
proof (induction t rule: redact_text.induct)
  case (1 t)
  show ?case
  proof (cases t)
    case (Cons c cs)
    show ?thesis
    proof (cases "match_assignment t")
      case None
      have "clean_text cs" using "1.prems" Cons unfolding clean_text_def by (metis append_Cons)
      with "1.IH"(1) [OF Cons None] None Cons show ?thesis by (simp add: redact_text_step)
    next
      case (Some m)
      then obtain k rest where m: "match_assignment t = Some (k, rest)" by (cases m) auto
      with "1.prems" have t: "t = k @ ''=[REDACTED]'' @ rest" unfolding clean_text_def by (metis append_Nil)
      then have "t = (k @ ''=[REDACTED]'') @ rest" by simp
      with "1.prems" have "clean_text rest" unfolding clean_text_def by (metis append_assoc)
      with "1.IH"(2) [OF Cons m refl] have "redact_text rest = rest" by blast
      then have "redact_text t = k @ ''=[REDACTED]'' @ rest" by (simp only: redact_text_match [OF m])
      with t show ?thesis by simp
    qed
  qed simp
qed

lemma redact_text_idem [simp]: "redact_text (redact_text s) = redact_text s"
  by (rule redact_clean_text [OF clean_redact_text])

lemma redact_idem:
  "redact_value (redact_value v) = redact_value v"
  "redact_list (redact_list vs) = redact_list vs"
  "redact_entries (redact_entries es) = redact_entries es"
  "redact_maps (redact_maps ms) = redact_maps ms"
proof (induction v and vs and es and ms rule: redact_value_redact_list_redact_entries_redact_maps.induct)
qed (auto simp: redacted_def)

text \<open>Values reported by the control plane's schema: what sits below a value, entry by entry.\<close>

inductive holds_entry :: "gvalue \<Rightarrow> string \<Rightarrow> gvalue \<Rightarrow> bool" where
  here: "(k, w) \<in> set es \<Longrightarrow> holds_entry (VMap es) k w"
| inside: "(k', v) \<in> set es \<Longrightarrow> holds_entry v k w \<Longrightarrow> holds_entry (VMap es) k w"
| in_maps: "m \<in> set ms \<Longrightarrow> holds_entry (VMap m) k w \<Longrightarrow> holds_entry (VMaps ms) k w"
| in_list: "v \<in> set vs \<Longrightarrow> holds_entry v k w \<Longrightarrow> holds_entry (VList vs) k w"

inductive holds_text :: "gvalue \<Rightarrow> string \<Rightarrow> bool" where
  text_here: "holds_text (VStr s) s"
| text_strs: "s \<in> set ss \<Longrightarrow> holds_text (VStrs ss) s"
| text_map: "(k, v) \<in> set es \<Longrightarrow> holds_text v s \<Longrightarrow> holds_text (VMap es) s"
| text_maps: "m \<in> set ms \<Longrightarrow> holds_text (VMap m) s \<Longrightarrow> holds_text (VMaps ms) s"
| text_list: "v \<in> set vs \<Longrightarrow> holds_text v s \<Longrightarrow> holds_text (VList vs) s"

inductive_cases holds_entry_MapE: "holds_entry (VMap es) k w"
inductive_cases holds_entry_MapsE: "holds_entry (VMaps ms) k w"
inductive_cases holds_entry_ListE: "holds_entry (VList vs) k w"
inductive_simps holds_entry_leaf: "holds_entry VNil k w" "holds_entry (VBool b) k w" "holds_entry (VInt i) k w"
  "holds_entry (VFloat q) k w" "holds_entry (VStr s) k w" "holds_entry (VStrs ss) k w" "holds_entry (VOpaque s) k w"
inductive_cases holds_text_MapE: "holds_text (VMap es) s"
inductive_cases holds_text_MapsE: "holds_text (VMaps ms) s"
inductive_cases holds_text_ListE: "holds_text (VList vs) s"
inductive_simps holds_text_leaf: "holds_text VNil t" "holds_text (VBool b) t" "holds_text (VInt i) t"
  "holds_text (VFloat q) t" "holds_text (VOpaque s) t"
inductive_simps holds_text_str: "holds_text (VStr s) t" "holds_text (VStrs ss) t"

lemma redact_list_map: "redact_list vs = map redact_value vs"
  by (induction vs) auto

lemma redact_entries_map:
  "redact_entries es = map (\<lambda>(k, v). (k, if sensitive_key k then redacted else redact_value v)) es"
  by (induction es) auto

lemma redact_maps_map: "redact_maps ms = map redact_entries ms"
  by (induction ms) auto

lemmas redact_maps_simps = redact_list_map redact_entries_map redact_maps_map

lemma redact_value_shape:
  "redact_value v = VMap es \<Longrightarrow> \<exists>es0. v = VMap es0 \<and> es = redact_entries es0"
  "redact_value v = VMaps ms \<Longrightarrow> \<exists>ms0. v = VMaps ms0 \<and> ms = map redact_entries ms0"
  "redact_value v = VList vs \<Longrightarrow> \<exists>vs0. v = VList vs0 \<and> vs = map redact_value vs0"
  "redact_value v = VStr s \<Longrightarrow> \<exists>s0. s = redact_text s0"
  "redact_value v = VStrs ss \<Longrightarrow> \<exists>ss0. ss = map redact_text ss0"
      apply (cases v; simp)
     apply (cases v; simp add: redact_maps_map)
    apply (cases v; simp add: redact_list_map)
   apply (cases v; auto)
  apply (cases v; auto)
  done

lemma redact_entries_member:
  "(k, w) \<in> set (redact_entries es) \<Longrightarrow>
   sensitive_key k \<and> w = redacted \<or> \<not> sensitive_key k \<and> (\<exists>v. w = redact_value v)"
  by (auto simp: redact_entries_map split: if_splits)

lemma redacted_leaf: "\<not> holds_entry redacted k w" "holds_text redacted t \<Longrightarrow> t = ''[REDACTED]''"
  by (simp_all add: redacted_def holds_entry_leaf holds_text_str)

lemma redacted_entries:
  "holds_entry u k w \<Longrightarrow> u = redact_value v \<Longrightarrow> sensitive_key k \<Longrightarrow> w = redacted"
proof (induction arbitrary: v rule: holds_entry.induct)
  case (here k w es)
  then obtain es0 where "es = redact_entries es0" using redact_value_shape(1) by metis
  with here redact_entries_member show ?case by blast
next
  case (inside k' u es k w)
  then obtain es0 where es: "es = redact_entries es0" using redact_value_shape(1) by metis
  with inside(1) redact_entries_member consider "u = redacted" | v0 where "u = redact_value v0" by blast
  then show ?case
  proof cases
    case 1
    with inside(2) redacted_leaf(1) show ?thesis by blast
  next
    case (2 v0)
    with inside show ?thesis by blast
  qed
next
  case (in_maps m ms k w)
  then obtain ms0 where "ms = map redact_entries ms0" using redact_value_shape(2) by metis
  with in_maps(1) obtain m0 where "VMap m = redact_value (VMap m0)" by auto
  with in_maps show ?case by blast
next
  case (in_list u vs k w)
  then obtain vs0 where "vs = map redact_value vs0" using redact_value_shape(3) by metis
  with in_list(1) obtain u0 where "u = redact_value u0" by auto
  with in_list show ?case by blast
qed

lemma mark_clean: "redact_text ''[REDACTED]'' = ''[REDACTED]''"
  by code_simp

lemma redacted_texts: "holds_text u t \<Longrightarrow> u = redact_value v \<Longrightarrow> redact_text t = t"
proof (induction arbitrary: v rule: holds_text.induct)
  case (text_here s)
  then obtain s0 where "s = redact_text s0" using redact_value_shape(4) by metis
  then show ?case by simp
next
  case (text_strs s ss)
  then obtain ss0 where "ss = map redact_text ss0" using redact_value_shape(5) by metis
  with text_strs(1) show ?case by auto
next
  case (text_map k u es t)
  then obtain es0 where es: "es = redact_entries es0" using redact_value_shape(1) by metis
  with text_map(1) redact_entries_member consider "u = redacted" | v0 where "u = redact_value v0" by blast
  then show ?case
  proof cases
    case 1
    with text_map(2) redacted_leaf(2) mark_clean show ?thesis by metis
  next
    case (2 v0)
    with text_map show ?thesis by blast
  qed
next
  case (text_maps m ms t)
  then obtain ms0 where "ms = map redact_entries ms0" using redact_value_shape(2) by metis
  with text_maps(1) obtain m0 where "VMap m = redact_value (VMap m0)" by auto
  with text_maps show ?case by blast
next
  case (text_list u vs t)
  then obtain vs0 where "vs = map redact_value vs0" using redact_value_shape(3) by metis
  with text_list(1) obtain u0 where "u = redact_value u0" by auto
  with text_list show ?case by blast
qed

lemma clean_iff_fixed: "clean_text t \<longleftrightarrow> redact_text t = t"
  using redact_clean_text clean_redact_text by metis

subsection \<open>Properties\<close>

text \<open>Whatever text goes out redacted, no place of it assigns a sensitive name (token, password,
  secret, authorization, api key, in any letter case) a value other than the mark, and redacting
  again changes nothing.\<close>

theorem redact_text_sound:
  "clean_text (redact_text s) \<and> redact_text (redact_text s) = redact_text s"
  by (simp add: clean_redact_text)

text \<open>In a redacted payload, at any depth of maps and lists, every entry under a sensitive key is
  the mark and every remaining string is free of sensitive assignments; redaction is
  idempotent.\<close>

theorem redact_value_sound:
  "(holds_entry (redact_value v) k w \<and> sensitive_key k \<longrightarrow> w = redacted)
   \<and> (holds_text (redact_value v) t \<longrightarrow> clean_text t)
   \<and> redact_value (redact_value v) = redact_value v"
  using redacted_entries [OF _ refl, of v k w] redacted_texts [OF _ refl, of v t] redact_idem(1) [of v]
  by (simp add: clean_iff_fixed)

definition sample_payload :: gvalue where
  "sample_payload = VMap [(''run'', VMap [(''apiToken'', VStr ''x''), (''log'', VStr ''password=hunter2 ok'')])]"

theorem redact_value_sound_witness:
  "redact_value sample_payload
     = VMap [(''run'', VMap [(''apiToken'', redacted), (''log'', VStr ''password=[REDACTED] ok'')])]
   \<and> clean_text ''password=[REDACTED] ok''"
proof -
  have val: "redact_value sample_payload
      = VMap [(''run'', VMap [(''apiToken'', redacted), (''log'', VStr ''password=[REDACTED] ok'')])]"
    by code_simp
  have "holds_text (redact_value sample_payload) ''password=[REDACTED] ok''"
    unfolding val by (auto intro!: holds_text.intros)
  then show ?thesis using val redact_value_sound [of sample_payload "[]" VNil "''password=[REDACTED] ok''"]
    by blast
qed

end
