(* ===== verification/RunnerPayload.thy ===== *)
theory RunnerPayload
  imports GoValue GoPath
begin

text \<open>
  The helpers of \<^verbatim>\<open>internal/agent/runner/runner.go\<close> that read task payloads and decide on them:
  workspace and command extraction, artifacts, status predicates, compose arguments, the docker
  operation allowlist, timeouts.

  Floating-point arithmetic and the number and duration parsers of the standard library are the
  parameter record \<open>go_num\<close>: the text of a float, the product of a float and a unit converted
  to nanoseconds, \<^verbatim>\<open>time.ParseDuration\<close> and \<^verbatim>\<open>strconv.ParseFloat\<close>.
\<close>

subsection \<open>Library parameters and data\<close>

record go_num =
  gn_text :: "rat \<Rightarrow> string"
  gn_scale :: "rat \<Rightarrow> int \<Rightarrow> int"
  gn_parse_duration :: "string \<Rightarrow> duration option"
  gn_parse_float :: "string \<Rightarrow> rat option"

record exec_task =
  task_id :: string
  task_application :: string
  task_app_env :: string
  task_kind :: string
  task_provider :: string
  task_token :: string
  task_status :: string
  task_timeout :: int
  task_payload :: gmap

record checkout_spec =
  co_enabled :: bool
  co_url :: string
  co_path :: string
  co_ref_type :: string
  co_ref_name :: string
  co_default_branch :: string

record workspace_spec =
  ws_path :: string
  ws_command_dir :: string
  ws_artifacts :: "string list"
  ws_checkout :: checkout_spec

definition no_checkout :: checkout_spec where
  "no_checkout = \<lparr>co_enabled = False, co_url = [], co_path = [], co_ref_type = [], co_ref_name = [],
     co_default_branch = []\<rparr>"

subsection \<open>Strings and maps\<close>

definition first_non_empty :: "string list \<Rightarrow> string" where
  "first_non_empty vs =
     (case find (\<lambda>v. trim_space v \<noteq> []) vs of None \<Rightarrow> [] | Some v \<Rightarrow> trim_space v)"

definition string_map_value :: "(rat \<Rightarrow> string) \<Rightarrow> gmap \<Rightarrow> string \<Rightarrow> string" where
  "string_map_value ft m k =
     (case map_of m k of None \<Rightarrow> [] | Some VNil \<Rightarrow> [] | Some v \<Rightarrow> trim_space (sprint ft v))"

definition first_non_empty_slice :: "string list list \<Rightarrow> string list" where
  "first_non_empty_slice cs = (case find (\<lambda>c. c \<noteq> []) cs of None \<Rightarrow> [] | Some c \<Rightarrow> c)"

definition compact_strings :: "string list \<Rightarrow> string list" where
  "compact_strings items = filter (\<lambda>s. s \<noteq> []) (map trim_space items)"

definition overlay_entry :: "gmap \<Rightarrow> string \<times> gvalue \<Rightarrow> gmap" where
  "overlay_entry m e =
     (if snd e = VNil \<or> snd e = VStr [] then m else AList.update (fst e) (snd e) m)"

definition extend_map :: "gmap \<Rightarrow> gmap \<Rightarrow> gmap" where
  "extend_map base overlay = foldl overlay_entry base overlay"

fun value_as_strings :: "(rat \<Rightarrow> string) \<Rightarrow> gvalue \<Rightarrow> string list" where
  "value_as_strings ft (VStrs ss) = compact_strings ss"
| "value_as_strings ft (VList vs) = compact_strings (map (sprint ft) vs)"
| "value_as_strings ft v = []"

fun value_maps :: "gvalue list \<Rightarrow> gmap list" where
  "value_maps [] = []"
| "value_maps (VMap m # vs) = m # value_maps vs"
| "value_maps (v # vs) = value_maps vs"

text \<open>\<^verbatim>\<open>valueAsMapSlice\<close> and \<^verbatim>\<open>mapSliceValue\<close> agree on values.\<close>

fun value_as_maps :: "gvalue \<Rightarrow> gmap list" where
  "value_as_maps (VMaps ms) = ms"
| "value_as_maps (VList vs) = value_maps vs"
| "value_as_maps v = []"

fun map_value :: "gvalue \<Rightarrow> gmap option" where
  "map_value (VMap m) = (if m = [] then None else Some m)"
| "map_value v = None"

fun bool_value :: "gvalue \<Rightarrow> bool \<Rightarrow> bool" where
  "bool_value (VBool b) fallback = b"
| "bool_value (VStr s) fallback =
     (let t = trim_space (to_lower s) in
      if t \<in> {''true'', ''1'', ''yes'', ''y'', ''on''} then True
      else if t \<in> {''false'', ''0'', ''no'', ''n'', ''off''} then False
      else fallback)"
| "bool_value v fallback = fallback"

subsection \<open>Commands and images\<close>

definition extract_commands :: "(rat \<Rightarrow> string) \<Rightarrow> gmap \<Rightarrow> string list" where
  "extract_commands ft payload =
     (case map_get payload ''commands'' of
        VStrs ss \<Rightarrow> ss
      | VList vs \<Rightarrow> filter (\<lambda>t. t \<noteq> []) (map (\<lambda>v. trim_space (sprint ft v)) vs)
      | _ \<Rightarrow> [])"

text \<open>\<^verbatim>\<open>strings.Fields\<close>.\<close>

fun word_span :: "string \<Rightarrow> string \<times> string" where
  "word_span [] = ([], [])"
| "word_span (c # cs) =
     (if list_ex (has_prefix (c # cs)) ws_encodings then ([], c # cs)
      else (case word_span cs of (w, rest) \<Rightarrow> (c # w, rest)))"

lemma word_span_append: "word_span s = (w, rest) \<Longrightarrow> s = w @ rest"
  by (induction s arbitrary: w) (auto split: if_splits prod.splits)

lemma fields_decrease: "word_span (trim_left s) = (c # w, rest) \<Longrightarrow> length rest < length s"
proof -
  assume "word_span (trim_left s) = (c # w, rest)"
  then have "trim_left s = (c # w) @ rest" using word_span_append by metis
  moreover obtain u where "s = u @ trim_left s"
    using strip_front_suffix unfolding trim_left_def by blast
  ultimately have "length s = length u + length ((c # w) @ rest)" by (metis length_append)
  then show ?thesis by simp
qed

function fields :: "string \<Rightarrow> string list" where
  "fields s =
     (case word_span (trim_left s) of
        ([], rest) \<Rightarrow> []
      | (c # w, rest) \<Rightarrow> (c # w) # fields rest)"
  by pat_completeness auto
termination
  by (relation "measure length") (auto dest: fields_decrease fields_decrease [OF sym])

declare fields.simps [simp del]

definition digit_value :: "char \<Rightarrow> int" where
  "digit_value c = int (of_char c - (48 :: nat))"

text \<open>\<^verbatim>\<open>strconv.ParseInt(s, 10, 64)\<close>.\<close>

definition parse_int64 :: "string \<Rightarrow> int option" where
  "parse_int64 s =
     (let neg = has_prefix s ''-''; ds = (if neg \<or> has_prefix s ''+'' then drop 1 s else s) in
      if ds = [] \<or> \<not> list_all is_digit ds then None
      else let v = foldl (\<lambda>a c. 10 * a + digit_value c) 0 ds; x = (if neg then - v else v) in
           if - (2 ^ 63) \<le> x \<and> x < 2 ^ 63 then Some x else None)"

fun tag_argument :: "string list \<Rightarrow> string option" where
  "tag_argument (p # q # rest) = (if p = ''-t'' then Some (trim_space q) else tag_argument (q # rest))"
| "tag_argument ps = None"

fun tag_of_commands :: "string list \<Rightarrow> string" where
  "tag_of_commands [] = []"
| "tag_of_commands (c # cs) =
     (case tag_argument (fields c) of Some t \<Rightarrow> t | None \<Rightarrow> tag_of_commands cs)"

definition resolve_image_from_commands :: "(rat \<Rightarrow> string) \<Rightarrow> gmap \<Rightarrow> string list \<Rightarrow> string" where
  "resolve_image_from_commands ft payload commands =
     (let value = text_field ft payload ''image'' in
      if value \<noteq> [] then value else tag_of_commands commands)"

definition build_image_artifact :: "(rat \<Rightarrow> string) \<Rightarrow> gmap \<Rightarrow> string \<Rightarrow> gmap" where
  "build_image_artifact ft payload img =
     (let base = [(''kind'', VStr ''image''), (''ref'', VStr img), (''status'', VStr ''completed'')];
          digest = text_field ft payload ''imageDigest''
      in if digest \<noteq> [] \<and> digest \<noteq> ''pending'' then base @ [(''digest'', VStr digest)] else base)"

fun update_first_image ::
  "(rat \<Rightarrow> string) \<Rightarrow> gmap \<Rightarrow> string \<Rightarrow> bool \<Rightarrow> gmap list \<Rightarrow> gmap list \<times> bool" where
  "update_first_image ft payload img updated [] = ([], updated)"
| "update_first_image ft payload img updated (item # items) =
     (if \<not> updated \<and> text_field ft item ''kind'' = ''image''
      then
        let item1 = AList.update ''status'' (VStr ''completed'') (AList.update ''ref'' (VStr img) item);
            digest = text_field ft payload ''imageDigest'';
            item2 = (if digest \<noteq> [] \<and> digest \<noteq> ''pending''
                     then AList.update ''digest'' (VStr digest) item1 else item1);
            (rest, u) = update_first_image ft payload img True items
        in (item2 # rest, u)
      else
        let (rest, u) = update_first_image ft payload img updated items
        in (item # rest, u))"

definition build_artifact_list :: "(rat \<Rightarrow> string) \<Rightarrow> gmap \<Rightarrow> string \<Rightarrow> gmap list" where
  "build_artifact_list ft payload img =
     (let items = value_as_maps (map_get payload ''artifacts'') in
      if items = [] then [build_image_artifact ft payload img]
      else
        let (next, updated) = update_first_image ft payload img False items
        in if updated then next else next @ [build_image_artifact ft payload img])"

subsection \<open>The workspace of a task\<close>

fun checkout_raw :: "gvalue \<Rightarrow> gmap option" where
  "checkout_raw (VMap m) = Some m"
| "checkout_raw v = None"

definition parse_checkout :: "(rat \<Rightarrow> string) \<Rightarrow> gmap \<Rightarrow> gmap \<Rightarrow> checkout_spec" where
  "parse_checkout ft payload raw =
     \<lparr>co_enabled = bool_value (map_get raw ''enabled'') False,
      co_url = first_non_empty [text_field ft raw ''repositoryURL'', text_field ft raw ''repositoryUrl''],
      co_path = text_field ft raw ''repositoryPath'',
      co_ref_type = first_non_empty [text_field ft raw ''refType'', text_field ft payload ''refType''],
      co_ref_name = first_non_empty [text_field ft raw ''refName'', text_field ft payload ''refName''],
      co_default_branch = text_field ft raw ''defaultBranch''\<rparr>"

definition default_checkout :: "(rat \<Rightarrow> string) \<Rightarrow> gmap \<Rightarrow> checkout_spec \<Rightarrow> checkout_spec" where
  "default_checkout ft payload c =
     c\<lparr>co_ref_type := (if co_ref_type c = [] then text_field ft payload ''refType'' else co_ref_type c),
       co_ref_name := (if co_ref_name c = [] then text_field ft payload ''refName'' else co_ref_name c),
       co_default_branch := (if co_default_branch c = [] then text_field ft payload ''defaultBranch''
         else co_default_branch c)\<rparr>"

definition parse_workspace_spec :: "(rat \<Rightarrow> string) \<Rightarrow> exec_task \<Rightarrow> workspace_spec" where
  "parse_workspace_spec ft t =
     (let payload = task_payload t;
          path = first_non_empty [text_field ft payload ''repositoryPath'',
            trim_space (task_application t), trim_space (task_id t)]
      in case map_get payload ''workspace'' of
           VMap raw \<Rightarrow>
             \<lparr>ws_path = first_non_empty [text_field ft raw ''path'', text_field ft raw ''relativePath'', path],
              ws_command_dir = first_non_empty [text_field ft raw ''commandDir'', text_field ft raw ''workingDir''],
              ws_artifacts = first_non_empty_slice
                [value_as_strings ft (map_get raw ''artifactFiles''),
                 value_as_strings ft (map_get payload ''artifactFiles'')],
              ws_checkout = default_checkout ft payload
                (case checkout_raw (map_get raw ''checkout'') of
                   Some c \<Rightarrow> parse_checkout ft payload c | None \<Rightarrow> no_checkout)\<rparr>
         | _ \<Rightarrow> \<lparr>ws_path = path, ws_command_dir = [], ws_artifacts = [], ws_checkout = no_checkout\<rparr>)"

subsection \<open>Statuses and stages\<close>

definition should_stop_local :: "string \<Rightarrow> bool" where
  "should_stop_local status \<longleftrightarrow>
     trim_space status \<in> {''canceled'', ''callback_timeout'', ''failed'', ''completed''}"

definition is_final_status :: "string \<Rightarrow> bool" where
  "is_final_status status = should_stop_local status"

definition should_stop_docker :: "string \<Rightarrow> bool" where
  "should_stop_docker status \<longleftrightarrow> trim_space status = ''canceling'' \<or> should_stop_local status"

definition workspace_failure_stage :: "string \<Rightarrow> string" where
  "workspace_failure_stage message0 =
     (let message = to_lower message0 in
      if contains message ''git clone'' \<or> contains message ''git fetch''
         \<or> contains message ''git checkout'' \<or> contains message ''git repository''
      then ''checkout'' else ''prepare'')"

definition command_pipeline_stage :: "string \<Rightarrow> string" where
  "command_pipeline_stage command0 =
     (let command = to_lower (trim_space command0) in
      if contains command ''docker push'' then ''push''
      else if contains command ''digest-file'' \<or> contains command ''image inspect'' then ''publish''
      else ''build'')"

subsection \<open>Docker operations\<close>

definition normalize_kinds :: "string list \<Rightarrow> string list" where
  "normalize_kinds values = collect_distinct trim_space [] values"

definition docker_kind_allowed :: "string list \<Rightarrow> string \<Rightarrow> bool" where
  "docker_kind_allowed allowed kind =
     (let k = trim_space kind in
      k \<noteq> [] \<and> list_ex (\<lambda>a. a = ''*'' \<or> a = k) (normalize_kinds allowed))"

definition compose_base :: "string list" where
  "compose_base = [''compose'', ''-f'', ''compose.yaml'']"

definition compose_args :: "string \<Rightarrow> string list" where
  "compose_args action =
     (let a = trim_space action in
      if a = ''validate'' then compose_base @ [''config'', ''--quiet'']
      else if a = ''delivery_deploy''
      then compose_base @ [''up'', ''-d'', ''--no-build'', ''--pull'', ''always'', ''--wait'']
      else if a \<in> {[], ''deploy'', ''redeploy'', ''start''} then compose_base @ [''up'', ''-d'']
      else if a = ''restart'' then compose_base @ [''restart'']
      else if a = ''stop'' then compose_base @ [''stop'']
      else if a \<in> {''down'', ''destroy''} then compose_base @ [''down'', ''--remove-orphans'']
      else if a = ''pull'' then compose_base @ [''pull'']
      else if a = ''build'' then compose_base @ [''build'']
      else [])"

definition compose_service_args :: "string \<Rightarrow> string \<Rightarrow> string list" where
  "compose_service_args action service =
     (let a = trim_space action in
      if a = ''start'' then compose_base @ [''up'', ''-d'', service]
      else if a = ''restart'' then compose_base @ [''restart'', service]
      else if a = ''stop'' then compose_base @ [''stop'', service]
      else if a = ''logs'' then compose_base @ [''logs'', ''--tail'', ''200'', service]
      else [])"

definition normalize_architecture :: "string \<Rightarrow> string" where
  "normalize_architecture value =
     (let arch = trim_prefix (to_lower (trim_space value)) ''linux/'' in
      if arch \<in> {''amd64'', ''x86_64'', ''x64'', ''x86''} then ''amd64''
      else if arch \<in> {''arm64'', ''aarch64''} then ''arm64'' else [])"

definition compose_service_status :: "(rat \<Rightarrow> string) \<Rightarrow> gmap \<Rightarrow> string" where
  "compose_service_status ft r =
     (let state = to_lower (first_non_empty [text_field ft r ''State'', text_field ft r ''Status'']) in
      if contains state ''running'' then ''running''
      else if contains state ''exited'' \<or> contains state ''stopped'' then ''stopped''
      else if contains state ''paused'' then ''paused''
      else if state = [] then ''unknown'' else state)"

text \<open>The loop of \<^verbatim>\<open>dockerServiceRecordsFromJSON\<close> over the records that were decoded.\<close>

definition service_name :: "(rat \<Rightarrow> string) \<Rightarrow> gmap \<Rightarrow> string" where
  "service_name ft r = first_non_empty [text_field ft r ''Service'', text_field ft r ''Name'']"

definition service_records :: "(rat \<Rightarrow> string) \<Rightarrow> gmap list \<Rightarrow> gmap list" where
  "service_records ft records =
     map (\<lambda>r. [(''name'', VStr (service_name ft r)),
       (''image'', VStr (first_non_empty [text_field ft r ''Image'', text_field ft r ''Repository''])),
       (''status'', VStr (compose_service_status ft r)),
       (''containerId'', VStr (text_field ft r ''ID'')), (''config'', VMap r)])
     (filter (\<lambda>r. service_name ft r \<noteq> []) records)"

subsection \<open>Timeouts\<close>

definition seconds_duration :: "go_num \<Rightarrow> rat \<Rightarrow> string \<Rightarrow> duration" where
  "seconds_duration g seconds key =
     (if seconds \<le> 0 then 0
      else if contains (to_lower key) ''millis'' then gn_scale g seconds millisecond
      else gn_scale g seconds second)"

fun duration_from_any :: "go_num \<Rightarrow> gvalue \<Rightarrow> string \<Rightarrow> duration" where
  "duration_from_any g (VInt i) key = seconds_duration g (of_int i) key"
| "duration_from_any g (VFloat q) key = seconds_duration g q key"
| "duration_from_any g (VStr s) key =
     (let t = trim_space s in
      if t = [] then 0
      else case gn_parse_duration g t of
        Some d \<Rightarrow> d
      | None \<Rightarrow> (case gn_parse_float g t of None \<Rightarrow> 0 | Some q \<Rightarrow> seconds_duration g q key))"
| "duration_from_any g v key = 0"

fun duration_from_payload :: "go_num \<Rightarrow> gmap \<Rightarrow> string list \<Rightarrow> duration" where
  "duration_from_payload g payload [] = 0"
| "duration_from_payload g payload (k # ks) =
     (let v = map_get payload k; d = duration_from_any g v k in
      if v \<noteq> VNil \<and> 0 < d then d else duration_from_payload g payload ks)"

definition execution_task_timeout :: "go_num \<Rightarrow> duration \<Rightarrow> exec_task \<Rightarrow> duration" where
  "execution_task_timeout g default_timeout t =
     (if 0 < task_timeout t then wrap64 (task_timeout t * second)
      else
        let t1 = duration_from_payload g (task_payload t) [''timeoutSeconds'', ''timeout_seconds''];
            t2 = (if t1 \<le> 0 then duration_from_payload g (task_payload t) [''timeout'', ''timeoutDuration'']
                  else t1)
        in if t2 \<le> 0 then default_timeout else t2)"

definition ceil_duration_seconds :: "duration \<Rightarrow> int" where
  "ceil_duration_seconds d =
     (if d \<le> 0 then 0
      else if d mod second \<noteq> 0 then d div second + 1 else d div second)"

definition final_callback_timeout :: "duration \<Rightarrow> int \<Rightarrow> duration" where
  "final_callback_timeout backoff max_attempts =
     (let t0 = (if backoff \<le> 0 then 500 * millisecond else backoff);
          t1 = wrap64 (t0 * (max max_attempts 1 + 1));
          t2 = (if t1 < 2 * second then 2 * second else t1)
      in if 30 * second < t2 then 30 * second else t2)"

subsection \<open>Facts\<close>

lemma first_non_empty_Cons:
  "first_non_empty (v # vs) = (if trim_space v \<noteq> [] then trim_space v else first_non_empty vs)"
  by (simp add: first_non_empty_def)

lemma nil_text: "trim_space ''<nil>'' = ''<nil>''"
  by code_simp

lemma text_field_missing: "map_of m k = None \<Longrightarrow> text_field ft m k = ''<nil>''"
  by (simp add: text_field_def map_get_def nil_text)

lemma map_of_overlay:
  "map_of (overlay_entry m e) k =
     (if fst e = k \<and> snd e \<noteq> VNil \<and> snd e \<noteq> VStr [] then Some (snd e) else map_of m k)"
  by (auto simp: overlay_entry_def go_map)

lemma map_of_extend:
  "distinct (map fst overlay) \<Longrightarrow>
   map_of (extend_map base overlay) k =
     (case map_of overlay k of
        None \<Rightarrow> map_of base k
      | Some v \<Rightarrow> if v = VNil \<or> v = VStr [] then map_of base k else Some v)"
  unfolding extend_map_def
proof (induction overlay arbitrary: base)
  case (Cons e es)
  have "map_of (foldl overlay_entry base (e # es)) k =
      (case map_of es k of None \<Rightarrow> map_of (overlay_entry base e) k
       | Some v \<Rightarrow> if v = VNil \<or> v = VStr [] then map_of (overlay_entry base e) k else Some v)"
    using Cons by simp
  moreover have "fst e = k \<Longrightarrow> map_of es k = None"
    using Cons.prems by (metis distinct.simps(2) list.simps(9) map_of_eq_None_iff set_map)
  ultimately show ?case by (cases e) (auto simp: map_of_overlay split: option.splits)
qed simp

lemma normalize_kinds_set: "set (normalize_kinds vs) = trim_space ` set vs - {[]}"
  by (simp add: normalize_kinds_def set_collect_distinct)

lemma second_bound: "0 < t \<Longrightarrow> t \<le> 9223372036 \<Longrightarrow> wrap64 (t * second) = t * second"
  by (rule wrap64_id) simp_all

subsection \<open>Properties\<close>

text \<open>A docker operation is allowed exactly when its trimmed kind is not empty and the configured
  kinds, trimmed, list it or the wildcard.\<close>

theorem docker_kind_allowed_iff:
  "docker_kind_allowed allowed kind \<longleftrightarrow>
     trim_space kind \<noteq> [] \<and> trim_space ` set allowed \<inter> {''*'', trim_space kind} \<noteq> {}"
proof -
  have "list_ex (\<lambda>a. a = ''*'' \<or> a = trim_space kind) (normalize_kinds allowed)
      \<longleftrightarrow> set (normalize_kinds allowed) \<inter> {''*'', trim_space kind} \<noteq> {}"
    by (auto simp: list_ex_iff)
  then show ?thesis by (auto simp: docker_kind_allowed_def Let_def normalize_kinds_set)
qed

text \<open>A task's own timeout in seconds is kept exactly as long as it fits 64-bit nanoseconds; one
  second more wraps round to a negative duration, which the executor reads as no deadline.\<close>

theorem execution_task_timeout_seconds:
  assumes "0 < task_timeout t"
  shows "(task_timeout t \<le> 9223372036 \<longrightarrow> execution_task_timeout g d t = task_timeout t * second)
    \<and> (task_timeout t = 9223372037 \<longrightarrow> execution_task_timeout g d t < 0)"
proof -
  have "execution_task_timeout g d t = wrap64 (task_timeout t * second)"
    using assms by (simp add: execution_task_timeout_def)
  moreover have "wrap64 (9223372037 * second) < 0" by (simp add: wrap64_def)
  ultimately show ?thesis using second_bound [OF assms] by auto
qed

definition sample_task :: exec_task where
  "sample_task = \<lparr>task_id = ''t1'', task_application = ''app'', task_app_env = [], task_kind = ''build'',
     task_provider = ''shell'', task_token = ''k'', task_status = ''claimed'', task_timeout = 60,
     task_payload = []\<rparr>"

definition sample_num :: go_num where
  "sample_num = \<lparr>gn_text = (\<lambda>q. ''0''), gn_scale = (\<lambda>q u. 0), gn_parse_duration = (\<lambda>s. None),
     gn_parse_float = (\<lambda>s. None)\<rparr>"

theorem execution_task_timeout_seconds_witness:
  "execution_task_timeout sample_num minute sample_task = 60 * second
   \<and> execution_task_timeout sample_num minute (sample_task\<lparr>task_timeout := 9223372037\<rparr>) < 0"
  using execution_task_timeout_seconds [of sample_task sample_num minute]
    execution_task_timeout_seconds [of "sample_task\<lparr>task_timeout := 9223372037\<rparr>" sample_num minute]
  by (simp add: sample_task_def)

text \<open>The time a final report may take is between two and thirty seconds, whatever the configured
  back-off and number of attempts.\<close>

theorem final_callback_timeout_bounds:
  "2 * second \<le> final_callback_timeout backoff n \<and> final_callback_timeout backoff n \<le> 30 * second"
  by (simp add: final_callback_timeout_def Let_def)

text \<open>The seconds reported for a timeout are its ceiling.\<close>

theorem ceil_duration_seconds_ceiling:
  assumes "0 < d"
  shows "(ceil_duration_seconds d - 1) * second < d \<and> d \<le> ceil_duration_seconds d * second"
proof -
  define q r where "q = d div second" and "r = d mod second"
  then have "d = q * second + r" "0 \<le> r" "r < second" by simp_all
  moreover have "ceil_duration_seconds d = (if r \<noteq> 0 then q + 1 else q)"
    using assms by (simp add: ceil_duration_seconds_def q_def r_def)
  ultimately show ?thesis by (simp add: algebra_simps)
qed

theorem ceil_duration_seconds_ceiling_witness: "ceil_duration_seconds (1500 * millisecond) = 2"
proof -
  have "(ceil_duration_seconds 1500000000 - 1) * second < 1500000000
      \<and> 1500000000 \<le> ceil_duration_seconds 1500000000 * second"
    by (rule ceil_duration_seconds_ceiling) simp
  then show ?thesis by simp
qed

text \<open>A payload field that is missing is read as the text \<open><nil>\<close>, not as empty: a task whose
  payload names no repository path and no workspace works in the directory \<open><nil>\<close>, not in the
  one of its application or id, and an image that is not named in the payload is reported as
  \<open><nil>\<close> whatever tag its commands build.\<close>

theorem missing_fields_read_as_nil:
  assumes "map_of (task_payload t) ''repositoryPath'' = None"
    and "map_of (task_payload t) ''workspace'' = None"
    and "map_of (task_payload t) ''image'' = None"
  shows "ws_path (parse_workspace_spec ft t) = ''<nil>''
    \<and> resolve_image_from_commands ft (task_payload t) commands = ''<nil>''"
  using assms
  by (simp add: parse_workspace_spec_def map_get_def text_field_missing first_non_empty_Cons nil_text
      resolve_image_from_commands_def Let_def)

theorem missing_fields_read_as_nil_witness:
  "ws_path (parse_workspace_spec (gn_text sample_num) sample_task) = ''<nil>''
   \<and> resolve_image_from_commands (gn_text sample_num) (task_payload sample_task) [''docker build -t web:1 .''] = ''<nil>''"
  by (rule missing_fields_read_as_nil) (simp_all add: sample_task_def)

end
