(* ===== verification/SecretLease.thy ===== *)
theory SecretLease
  imports GoValue
begin

text \<open>
  Secret leases of the runner, \<^verbatim>\<open>internal/agent/runner/secret_lease.go\<close>: redeeming a grant, the
  environment a command gets, and the removal of secret values from everything reported.

  The values kept in the Go context are an association list with distinct aliases (the empty list
  is a context without them). The control plane's answer and \<^verbatim>\<open>buildpacksRegistrySecrets\<close> (a JSON
  decoder) are parameters.
\<close>

subsection \<open>Data\<close>

record secret_grant =
  grant_id :: string
  grant_token :: string

record redemption =
  red_lease :: string
  red_expires :: gotime
  red_values :: "(string \<times> string) list"

datatype secret_error =
    InvalidGrant
  | RedeemFailed string
  | InvalidRedemption
  | InvalidAlias

type_synonym secret_values = "(string \<times> string) list"

subsection \<open>Operations\<close>

definition reserved_aliases :: "string list" where
  "reserved_aliases = [''BASH_ENV'', ''BASHOPTS'', ''CDPATH'', ''ENV'', ''GLOBIGNORE'', ''HOME'', ''IFS'',
     ''PATH'', ''SHELL'', ''SHELLOPTS'']"

definition valid_secret_alias :: "string \<Rightarrow> bool" where
  "valid_secret_alias alias \<longleftrightarrow>
     alias \<noteq> [] \<and> (is_upper (hd alias) \<or> hd alias = CHR ''_'')
     \<and> list_all (\<lambda>c. is_upper c \<or> is_digit c \<or> c = CHR ''_'') (tl alias)
     \<and> alias \<notin> set reserved_aliases
     \<and> \<not> has_prefix alias ''LD_'' \<and> \<not> has_prefix alias ''DYLD_''"

fun collect_values :: "secret_values \<Rightarrow> secret_values \<Rightarrow> secret_error + secret_values" where
  "collect_values acc [] = Inr acc"
| "collect_values acc ((a, v) # rest) =
     (let alias = trim_space a in
      if \<not> valid_secret_alias alias then Inl InvalidAlias
      else collect_values (AList.update alias v acc) rest)"

definition redeem_secret_lease ::
  "(string \<Rightarrow> string \<Rightarrow> string \<Rightarrow> string + redemption) \<Rightarrow> secret_grant option \<Rightarrow> string \<Rightarrow> gotime \<Rightarrow>
   secret_values \<Rightarrow> secret_error + secret_values" where
  "redeem_secret_lease redeem grant agent now current =
     (case grant of
        None \<Rightarrow> Inr current
      | Some g \<Rightarrow>
          if trim_space (grant_id g) = [] \<or> trim_space (grant_token g) = [] \<or> trim_space agent = []
          then Inl InvalidGrant
          else case redeem (grant_id g) (grant_token g) agent of
            Inl e \<Rightarrow> Inl (RedeemFailed e)
          | Inr r \<Rightarrow>
              if red_lease r \<noteq> grant_id g \<or> \<not> now < red_expires r then Inl InvalidRedemption
              else collect_values [] (red_values r))"

definition entry_name :: "string \<Rightarrow> string" where
  "entry_name entry = (case cut_char CHR ''='' entry of None \<Rightarrow> entry | Some (a, b) \<Rightarrow> a)"

definition secret_environment :: "string list \<Rightarrow> secret_values \<Rightarrow> string list option" where
  "secret_environment environ values =
     (if values = [] then None
      else
        let aliases = sort (map fst values) in
        Some (filter (\<lambda>entry. entry_name entry \<notin> set aliases) environ
          @ map (\<lambda>a. a @ ''='' @ the (map_of values a)) aliases))"

definition secret_list :: "(string \<Rightarrow> string list) \<Rightarrow> secret_values \<Rightarrow> string list" where
  "secret_list registry values =
     sort_key (\<lambda>s. - int (length s))
       (filter (\<lambda>v. v \<noteq> []) (map snd values)
        @ filter (\<lambda>v. v \<noteq> [])
            (registry (case map_of values ''REGISTRY_AUTH'' of None \<Rightarrow> [] | Some v \<Rightarrow> v)))"

definition redact_secret_text :: "(string \<Rightarrow> string list) \<Rightarrow> secret_values \<Rightarrow> string \<Rightarrow> string" where
  "redact_secret_text registry values text =
     foldl (\<lambda>t secret. replace_all t secret ''[REDACTED]'') text (secret_list registry values)"

fun map_texts :: "(string \<Rightarrow> string) \<Rightarrow> gvalue \<Rightarrow> gvalue"
  and map_texts_list :: "(string \<Rightarrow> string) \<Rightarrow> gvalue list \<Rightarrow> gvalue list"
  and map_texts_entries :: "(string \<Rightarrow> string) \<Rightarrow> gmap \<Rightarrow> gmap"
  and map_texts_maps :: "(string \<Rightarrow> string) \<Rightarrow> gmap list \<Rightarrow> gmap list" where
  "map_texts f (VMap es) = VMap (map_texts_entries f es)"
| "map_texts f (VMaps ms) = VMaps (map_texts_maps f ms)"
| "map_texts f (VList vs) = VList (map_texts_list f vs)"
| "map_texts f (VStrs ss) = VStrs (map f ss)"
| "map_texts f (VStr s) = VStr (f s)"
| "map_texts f v = v"
| "map_texts_list f [] = []"
| "map_texts_list f (v # vs) = map_texts f v # map_texts_list f vs"
| "map_texts_entries f [] = []"
| "map_texts_entries f ((k, v) # es) = (k, map_texts f v) # map_texts_entries f es"
| "map_texts_maps f [] = []"
| "map_texts_maps f (m # ms) = map_texts_entries f m # map_texts_maps f ms"

definition redact_secret_value :: "(string \<Rightarrow> string list) \<Rightarrow> secret_values \<Rightarrow> gvalue \<Rightarrow> gvalue" where
  "redact_secret_value registry values v =
     (if values = [] then v else map_texts (redact_secret_text registry values) v)"

subsection \<open>Replacement\<close>

definition bracket_free :: "string \<Rightarrow> bool" where
  "bracket_free s \<longleftrightarrow> CHR ''['' \<notin> set s \<and> CHR '']'' \<notin> set s"

lemma contains_tail: "contains cs s \<Longrightarrow> contains (c # cs) s"
  by simp

lemma contains_sep:
  "contains (a @ c # b) s \<Longrightarrow> c \<notin> set s \<Longrightarrow> s \<noteq> [] \<Longrightarrow> contains a s \<or> contains b s"
proof (induction a)
  case Nil
  then show ?case by (cases s) auto
next
  case (Cons x a)
  then consider "has_prefix (x # a @ c # b) s" | "contains (a @ c # b) s" by auto
  then show ?case
  proof cases
    case 1
    then obtain t where t: "(x # a) @ c # b = s @ t" by (auto simp: has_prefix_iff)
    from t [unfolded append_eq_append_conv2]
    obtain u where "x # a = s @ u \<or> s = (x # a) @ u \<and> c # b = u @ t" by blast
    then show ?thesis
    proof
      assume "x # a = s @ u"
      then have "contains (x # a) s" unfolding contains_iff by (metis append_Nil)
      then show ?thesis by simp
    next
      assume u: "s = (x # a) @ u \<and> c # b = u @ t"
      with Cons.prems(2) have "u = []" by (cases u) auto
      with u have "contains (x # a) s" unfolding contains_iff by (metis append_Nil append_Nil2)
      then show ?thesis by simp
    qed
  next
    case 2
    with Cons show ?thesis by auto
  qed
qed

lemma contains_drop: "contains (drop n t) s \<Longrightarrow> contains t s"
  unfolding contains_iff by (metis append.assoc append_take_drop_id)

lemma replace_all_prefix:
  "has_prefix (replace_all t old (CHR ''['' # new)) s \<Longrightarrow> CHR ''['' \<notin> set s \<Longrightarrow> has_prefix t s"
proof (induction t old "CHR ''['' # new" arbitrary: s rule: replace_all.induct)
  case (1 t old)
  show ?case
  proof (cases "old = []")
    case True
    with "1.prems" show ?thesis by (subst (asm) replace_all.simps) simp
  next
    case old: False
    show ?thesis
    proof (cases t)
      case Nil
      with "1.prems"(1) old show ?thesis by (subst (asm) replace_all.simps) simp
    next
      case (Cons c cs)
      show ?thesis
      proof (cases "has_prefix t old")
        case True
        with Cons old "1.prems" show ?thesis
          by (subst (asm) replace_all.simps) (cases s; simp)
      next
        case False
        with Cons old have "replace_all t old (CHR ''['' # new) = c # replace_all cs old (CHR ''['' # new)"
          by (subst replace_all.simps) simp
        with "1.prems" "1.hyps"(2) [OF old Cons] False Cons show ?thesis
          by (cases s) auto
      qed
    qed
  qed
qed

lemma replace_all_contains:
  assumes "s \<noteq> []" and "bracket_free s" and "\<not> contains body s"
  shows "\<not> contains t s \<or> (old = s) \<Longrightarrow> \<not> contains (replace_all t old (CHR ''['' # body @ '']'')) s"
proof (induction t old "CHR ''['' # body @ '']''" rule: replace_all.induct)
  case (1 t old)
  let ?new = "CHR ''['' # body @ '']''"
  show ?case
  proof (cases "old = [] \<or> t = []")
    case True
    with "1.prems" assms(1) have "replace_all t old ?new = t \<and> \<not> contains t s"
      by (subst replace_all.simps) (cases t; auto)
    then show ?thesis by simp
  next
    case False
    then obtain c cs where old: "old \<noteq> []" and t: "t = c # cs" by (cases t) auto
    show ?thesis
    proof (cases "has_prefix t old")
      case True
      with old t have r: "replace_all t old ?new = CHR ''['' # (body @ CHR '']'' # replace_all (drop (length old) t) old ?new)"
        by (subst replace_all.simps) simp
      have "\<not> contains (drop (length old) t) s \<or> old = s" using "1.prems" contains_drop by blast
      then have "\<not> contains (replace_all (drop (length old) t) old ?new) s"
        using "1.hyps"(1) [OF old t] True t by auto
      moreover have "CHR '']'' \<notin> set s" "hd s \<noteq> CHR ''[''" using assms by (cases s; auto simp: bracket_free_def)+
      ultimately have "\<not> contains (body @ CHR '']'' # replace_all (drop (length old) t) old ?new) s"
        using contains_sep assms by blast
      with assms(1) \<open>hd s \<noteq> CHR ''[''\<close> show ?thesis unfolding r by (cases s) auto
    next
      case no: False
      with old t have r: "replace_all t old ?new = c # replace_all cs old ?new"
        by (subst replace_all.simps) simp
      have "\<not> contains cs s \<or> old = s" using "1.prems" t by auto
      then have tail: "\<not> contains (replace_all cs old ?new) s"
        using "1.hyps"(2) [OF old t] no t by auto
      have "\<not> has_prefix (c # replace_all cs old ?new) s"
      proof
        assume p: "has_prefix (c # replace_all cs old ?new) s"
        from assms(1) obtain d ds where s: "s = d # ds" by (cases s) auto
        with p have "c = d" "has_prefix (replace_all cs old ?new) ds" by auto
        moreover have "CHR ''['' \<notin> set ds" using assms(2) s by (simp add: bracket_free_def)
        ultimately have "has_prefix t s" using replace_all_prefix t s by fastforce
        with no "1.prems" t show False by (auto simp del: has_prefix_Cons)
      qed
      with tail show ?thesis unfolding r by simp
    qed
  qed
qed

subsection \<open>What reports cannot hold\<close>

text \<open>A secret that redaction is certain to remove: not empty, without brackets and not a part of the
  mark itself.\<close>

definition removable :: "string \<Rightarrow> bool" where
  "removable s \<longleftrightarrow> s \<noteq> [] \<and> bracket_free s \<and> \<not> contains ''REDACTED'' s"

lemma replace_mark_contains:
  "removable s \<Longrightarrow> \<not> contains t s \<or> old = s \<Longrightarrow> \<not> contains (replace_all t old ''[REDACTED]'') s"
  using replace_all_contains [of s "''REDACTED''" t old] by (simp add: removable_def)

lemma fold_replace_contains:
  "removable s \<Longrightarrow> s \<in> set secrets \<or> \<not> contains t s \<Longrightarrow>
   \<not> contains (foldl (\<lambda>t secret. replace_all t secret ''[REDACTED]'') t secrets) s"
proof (induction secrets arbitrary: t)
  case (Cons x xs)
  have "s \<in> set xs \<or> \<not> contains (replace_all t x ''[REDACTED]'') s"
    using Cons.prems replace_mark_contains [of s t x] by auto
  with Cons.IH Cons.prems(1) show ?case by simp
qed simp

lemma secret_in_list: "(a, s) \<in> set values \<Longrightarrow> s \<noteq> [] \<Longrightarrow> s \<in> set (secret_list registry values)"
  by (force simp: secret_list_def)

lemma redact_secret_text_removes:
  "(a, s) \<in> set values \<Longrightarrow> removable s \<Longrightarrow> \<not> contains (redact_secret_text registry values t) s"
  unfolding redact_secret_text_def
  by (rule fold_replace_contains) (auto simp: removable_def secret_in_list)

lemma map_texts_maps_map:
  "map_texts_list f vs = map (map_texts f) vs"
  "map_texts_entries f es = map (\<lambda>(k, v). (k, map_texts f v)) es"
  "map_texts_maps f ms = map (map_texts_entries f) ms"
    apply (induction vs; simp)
   apply (induction es; auto)
  apply (induction ms; simp)
  done

lemma map_texts_shape:
  "map_texts f v = VMap es \<Longrightarrow> \<exists>es0. v = VMap es0 \<and> es = map_texts_entries f es0"
  "map_texts f v = VMaps ms \<Longrightarrow> \<exists>ms0. v = VMaps ms0 \<and> ms = map (map_texts_entries f) ms0"
  "map_texts f v = VList vs \<Longrightarrow> \<exists>vs0. v = VList vs0 \<and> vs = map (map_texts f) vs0"
  "map_texts f v = VStr s \<Longrightarrow> \<exists>s0. s = f s0"
  "map_texts f v = VStrs ss \<Longrightarrow> \<exists>ss0. ss = map f ss0"
      apply (cases v; simp)
     apply (cases v; simp add: map_texts_maps_map(3))
    apply (cases v; simp add: map_texts_maps_map(1))
   apply (cases v; auto)
  apply (cases v; auto)
  done

lemma map_texts_image: "holds_text u t \<Longrightarrow> u = map_texts f v \<Longrightarrow> \<exists>s. t = f s"
proof (induction arbitrary: v rule: holds_text.induct)
  case (text_here s)
  then show ?case using map_texts_shape(4) by metis
next
  case (text_strs s ss)
  then obtain ss0 where "ss = map f ss0" using map_texts_shape(5) by metis
  with text_strs(1) show ?case by auto
next
  case (text_map k u es t)
  then obtain es0 where "es = map_texts_entries f es0" using map_texts_shape(1) by metis
  with text_map(1) obtain u0 where "u = map_texts f u0" by (auto simp: map_texts_maps_map(2))
  with text_map(3) show ?case by blast
next
  case (text_maps m ms t)
  then obtain ms0 where "ms = map (map_texts_entries f) ms0" using map_texts_shape(2) by metis
  with text_maps(1) obtain m0 where "VMap m = map_texts f (VMap m0)" by auto
  with text_maps(3) show ?case by blast
next
  case (text_list u vs t)
  then obtain vs0 where "vs = map (map_texts f) vs0" using map_texts_shape(3) by metis
  with text_list(1) obtain u0 where "u = map_texts f u0" by auto
  with text_list(3) show ?case by blast
qed

lemma collect_values_aliases:
  "collect_values acc vs = Inr r \<Longrightarrow> (\<forall>a \<in> fst ` set acc. valid_secret_alias a) \<Longrightarrow> distinct (map fst acc) \<Longrightarrow>
   (\<forall>a \<in> fst ` set r. valid_secret_alias a) \<and> distinct (map fst r)"
proof (induction acc vs rule: collect_values.induct)
  case (2 acc a v rest)
  from "2.prems"(1) have ok: "valid_secret_alias (trim_space a)"
    and r: "collect_values (AList.update (trim_space a) v acc) rest = Inr r"
    by (auto simp: Let_def split: if_splits)
  have "\<forall>b \<in> fst ` set (AList.update (trim_space a) v acc). valid_secret_alias b"
    using "2.prems"(2,3) ok by (auto simp: go_map)
  moreover have "distinct (map fst (AList.update (trim_space a) v acc))"
    using "2.prems"(3) by (rule distinct_keys_update)
  ultimately show ?case using "2.IH" [OF refl _ r] ok by blast
qed simp

subsection \<open>Properties\<close>

text \<open>Once a lease is redeemed, no string anywhere in a reported value contains the value of a
  leased secret, whatever the text and whatever the other secrets; this holds for every secret
  that is not empty, has no bracket and is not itself a part of the mark.\<close>

theorem secrets_never_reported:
  assumes "(alias, secret) \<in> set values" and "removable secret"
    and "holds_text (redact_secret_value registry values v) t"
  shows "\<not> contains t secret"
proof -
  from assms(1,3) have "holds_text (map_texts (redact_secret_text registry values) v) t"
    by (auto simp: redact_secret_value_def split: if_splits)
  from map_texts_image [OF this refl] obtain s where "t = redact_secret_text registry values s" by blast
  with redact_secret_text_removes [OF assms(1,2)] show ?thesis by simp
qed

theorem secrets_never_reported_witness:
  "\<not> contains ''login [REDACTED] ok'' ''hunter2''"
proof (rule secrets_never_reported)
  show "(''DB_PASS'', ''hunter2'') \<in> set [(''DB_PASS'', ''hunter2''), (''K'', ''hunt'')]" by simp
  show "removable ''hunter2''" by code_simp
  have "redact_secret_value (\<lambda>s. []) [(''DB_PASS'', ''hunter2''), (''K'', ''hunt'')]
      (VMap [(''log'', VStr ''login hunter2 ok'')]) = VMap [(''log'', VStr ''login [REDACTED] ok'')]"
    by code_simp
  then show "holds_text (redact_secret_value (\<lambda>s. []) [(''DB_PASS'', ''hunter2''), (''K'', ''hunt'')]
      (VMap [(''log'', VStr ''login hunter2 ok'')])) ''login [REDACTED] ok''"
    by (auto intro!: holds_text.intros)
qed

text \<open>The environment of a command with leased secrets assigns every alias exactly the leased
  value, drops every inherited assignment of an alias, and keeps every other inherited entry.\<close>

theorem secret_environment_spec:
  assumes "values \<noteq> []" and "distinct (map fst values)" and "\<forall>a \<in> fst ` set values. CHR ''='' \<notin> set a"
  shows "\<exists>env. secret_environment environ values = Some env
    \<and> (\<forall>e \<in> set env. \<forall>a s. map_of values a = Some s \<longrightarrow> entry_name e = a \<longrightarrow> e = a @ ''='' @ s)
    \<and> (\<forall>a s. map_of values a = Some s \<longrightarrow> a @ ''='' @ s \<in> set env)
    \<and> (\<forall>e \<in> set environ. entry_name e \<notin> fst ` set values \<longrightarrow> e \<in> set env)"
proof -
  have name: "entry_name (a @ CHR ''='' # s) = a" if "CHR ''='' \<notin> set a" for a s
  proof -
    have "cut_char CHR ''='' (a @ CHR ''='' # s) = Some (a, s)" using that by (induction a) auto
    then show ?thesis by (simp add: entry_name_def)
  qed
  let ?kept = "filter (\<lambda>entry. entry_name entry \<notin> fst ` set values) environ"
  let ?own = "map (\<lambda>a. a @ ''='' @ the (map_of values a)) (sort (map fst values))"
  have env: "secret_environment environ values = Some (?kept @ ?own)"
    using assms(1) by (simp add: secret_environment_def Let_def)
  have own: "a @ ''='' @ s \<in> set ?own" if "map_of values a = Some s" for a s
  proof -
    have "a \<in> fst ` set values" using map_of_SomeD [OF that] by force
    then have "a @ ''='' @ the (map_of values a) \<in> set ?own" by simp
    with that show ?thesis by simp
  qed
  have val: "e = a @ ''='' @ s"
    if "e \<in> set (?kept @ ?own)" "map_of values a = Some s" "entry_name e = a" for e a s
  proof -
    have a: "a \<in> fst ` set values" using map_of_SomeD [OF that(2)] by force
    with that(1,3) have "e \<in> set ?own" by auto
    then obtain b where b: "b \<in> fst ` set values" "e = b @ ''='' @ the (map_of values b)" by auto
    have "CHR ''='' \<notin> set b" using assms(3) b(1) by blast
    from name [OF this, of "the (map_of values b)"] b(2) that(3) have "b = a" by simp
    with b that(2) show ?thesis by simp
  qed
  have kept: "e \<in> set (?kept @ ?own)" if "e \<in> set environ" "entry_name e \<notin> fst ` set values" for e
    using that by simp
  show ?thesis
  proof (intro exI conjI ballI allI impI)
    show "secret_environment environ values = Some (?kept @ ?own)" by (rule env)
    show "e = a @ ''='' @ s" if "e \<in> set (?kept @ ?own)" "map_of values a = Some s" "entry_name e = a"
      for e a s using that by (rule val)
    show "a @ ''='' @ s \<in> set (?kept @ ?own)" if "map_of values a = Some s" for a s
      unfolding set_append using own [OF that] by (rule UnI2)
    show "e \<in> set (?kept @ ?own)" if "e \<in> set environ" "entry_name e \<notin> fst ` set values" for e
      using that by (rule kept)
  qed
qed

theorem secret_environment_spec_witness:
  "secret_environment [''PATH=/bin'', ''TOKEN=old''] [(''TOKEN'', ''new'')] = Some [''PATH=/bin'', ''TOKEN=new'']
   \<and> (\<exists>env. secret_environment [''PATH=/bin'', ''TOKEN=old''] [(''TOKEN'', ''new'')] = Some env
        \<and> ''TOKEN=new'' \<in> set env)"
proof -
  have "secret_environment [''PATH=/bin'', ''TOKEN=old''] [(''TOKEN'', ''new'')]
      = Some [''PATH=/bin'', ''TOKEN=new'']"
    by code_simp
  moreover have "\<exists>env. secret_environment [''PATH=/bin'', ''TOKEN=old''] [(''TOKEN'', ''new'')] = Some env
      \<and> (\<forall>a s. map_of [(''TOKEN'', ''new'')] a = Some s \<longrightarrow> a @ ''='' @ s \<in> set env)"
    using secret_environment_spec [of "[(''TOKEN'', ''new'')]" "[''PATH=/bin'', ''TOKEN=old'']"]
    by (simp del: map_of.simps) blast
  then obtain env where env: "secret_environment [''PATH=/bin'', ''TOKEN=old''] [(''TOKEN'', ''new'')] = Some env"
      "\<forall>a s. map_of [(''TOKEN'', ''new'')] a = Some s \<longrightarrow> a @ ''='' @ s \<in> set env" by blast
  from env(2) have "''TOKEN'' @ ''='' @ ''new'' \<in> set env" by (metis map_of_Cons_code(2))
  with env(1) have "\<exists>env. secret_environment [''PATH=/bin'', ''TOKEN=old''] [(''TOKEN'', ''new'')] = Some env
      \<and> ''TOKEN=new'' \<in> set env" by simp
  ultimately show ?thesis by blast
qed

text \<open>A redeemed lease is the granted one, unexpired, and every alias it brings into the
  environment is well formed and none that steers the shell or the loader.\<close>

theorem redeem_secret_lease_sound:
  assumes "redeem_secret_lease redeem (Some g) agent now current = Inr values"
  shows "\<exists>r. redeem (grant_id g) (grant_token g) agent = Inr r \<and> red_lease r = grant_id g
    \<and> now < red_expires r \<and> (\<forall>a \<in> fst ` set values. valid_secret_alias a) \<and> distinct (map fst values)"
proof -
  from assms obtain r where r: "redeem (grant_id g) (grant_token g) agent = Inr r"
      "red_lease r = grant_id g" "now < red_expires r" "collect_values [] (red_values r) = Inr values"
    by (auto simp: redeem_secret_lease_def split: if_splits sum.splits)
  from collect_values_aliases [OF r(4)] r(1-3) show ?thesis by simp
qed

theorem redeem_secret_lease_sound_witness:
  "valid_secret_alias ''DB_PASS''"
proof -
  let ?r = "\<lparr>red_lease = ''g1'', red_expires = 10, red_values = [('' DB_PASS'', ''x'')]\<rparr>"
  have "redeem_secret_lease (\<lambda>i t a. Inr ?r) (Some \<lparr>grant_id = ''g1'', grant_token = ''t''\<rparr>) ''a1'' 5 []
      = Inr [(''DB_PASS'', ''x'')]"
    by code_simp
  from redeem_secret_lease_sound [OF this] show ?thesis by simp
qed

end
