(* ===== verification/RunnerState.thy ===== *)
theory RunnerState
  imports RunnerPayload SecretLease
begin

text \<open>
  The state the runner keeps while it works, \<^verbatim>\<open>internal/agent/runner/runner.go\<close>: execution slots,
  metrics, the table of active tasks, and the reports it sends with their retries.

  Every function here runs under one of the runner's mutexes (or is a channel operation that does
  not block), so it is one atomic function of the state. The answers of the control plane are
  given attempt by attempt (\<open>call_outcome\<close>). \<open>rn_reports\<close> is the history of the reports made.
\<close>

subsection \<open>Data\<close>

record metric_set =
  ms_claims :: int
  ms_misses :: int
  ms_started :: int
  ms_heartbeats :: int
  ms_attempts :: int
  ms_failures :: int
  ms_finals :: int
  ms_completed :: int
  ms_failed :: int
  ms_canceled :: int
  ms_timed_out :: int
  ms_denied :: int
  ms_last_heartbeat :: string
  ms_last_callback :: string

record runner_metrics =
  rm_execution :: metric_set
  rm_docker :: metric_set
  rm_agent :: metric_set

record metrics_view =
  mv_active :: nat
  mv_execution :: metric_set
  mv_docker :: metric_set
  mv_agent :: metric_set

record active_task =
  at_task :: string
  at_application :: string
  at_app_env :: string
  at_kind :: string
  at_provider :: string
  at_status :: string
  at_command :: string
  at_index :: int
  at_count :: int
  at_workspace :: string
  at_started :: gotime
  at_updated :: gotime
  at_source :: string
  at_reason :: string

record report =
  rep_scope :: string
  rep_status :: string
  rep_payload :: gvalue
  rep_delivered :: bool

record runner =
  rn_capacity :: nat
  rn_slots :: nat
  rn_active :: "(string \<times> active_task) list"
  rn_metrics :: runner_metrics
  rn_reports :: "report list"

record runner_config =
  rc_agent :: string
  rc_attempts :: int
  rc_backoff :: duration
  rc_timeout :: duration
  rc_root :: string

text \<open>One attempt to call the control plane: a failure, with whether the context was done right after
  it and whether it was done before the back-off ended, or an answer with id and status.\<close>

datatype call_outcome = CallFailed bool bool | CallAnswered string string

abbreviation scope_execution :: string where "scope_execution \<equiv> ''execution''"
abbreviation scope_docker :: string where "scope_docker \<equiv> ''docker''"
abbreviation scope_agent :: string where "scope_agent \<equiv> ''agent_runtime''"

subsection \<open>Execution slots\<close>

definition try_acquire_slot :: "runner \<Rightarrow> bool \<times> runner" where
  "try_acquire_slot r =
     (if rn_slots r < rn_capacity r then (True, r\<lparr>rn_slots := Suc (rn_slots r)\<rparr>) else (False, r))"

definition release_slot :: "runner \<Rightarrow> runner" where
  "release_slot r = (if 0 < rn_slots r then r\<lparr>rn_slots := rn_slots r - 1\<rparr> else r)"

subsection \<open>Metrics\<close>

definition with_scope :: "string \<Rightarrow> (metric_set \<Rightarrow> metric_set) \<Rightarrow> runner \<Rightarrow> runner" where
  "with_scope scope f r =
     (let m = rn_metrics r in
      r\<lparr>rn_metrics :=
        (if scope = scope_docker then m\<lparr>rm_docker := f (rm_docker m)\<rparr>
         else if scope = scope_agent then m\<lparr>rm_agent := f (rm_agent m)\<rparr>
         else m\<lparr>rm_execution := f (rm_execution m)\<rparr>)\<rparr>)"

definition mark_claim :: "string \<Rightarrow> bool \<Rightarrow> runner \<Rightarrow> runner" where
  "mark_claim scope hit = with_scope scope (\<lambda>c.
     if hit then c\<lparr>ms_claims := ms_claims c + 1\<rparr> else c\<lparr>ms_misses := ms_misses c + 1\<rparr>)"

definition mark_started :: "string \<Rightarrow> runner \<Rightarrow> runner" where
  "mark_started scope = with_scope scope (\<lambda>c. c\<lparr>ms_started := ms_started c + 1\<rparr>)"

definition mark_heartbeat :: "string \<Rightarrow> string \<Rightarrow> runner \<Rightarrow> runner" where
  "mark_heartbeat scope stamp = with_scope scope (\<lambda>c.
     c\<lparr>ms_heartbeats := ms_heartbeats c + 1, ms_last_heartbeat := stamp\<rparr>)"

definition mark_attempt :: "string \<Rightarrow> runner \<Rightarrow> runner" where
  "mark_attempt scope = with_scope scope (\<lambda>c. c\<lparr>ms_attempts := ms_attempts c + 1\<rparr>)"

definition mark_failure :: "string \<Rightarrow> runner \<Rightarrow> runner" where
  "mark_failure scope = with_scope scope (\<lambda>c. c\<lparr>ms_failures := ms_failures c + 1\<rparr>)"

definition count_success :: "string \<Rightarrow> string \<Rightarrow> metric_set \<Rightarrow> metric_set" where
  "count_success status stamp c0 =
     (let c1 = c0\<lparr>ms_last_callback := stamp\<rparr>;
          c2 = (if trim_space status = ''running''
                then c1\<lparr>ms_heartbeats := ms_heartbeats c1 + 1, ms_last_heartbeat := stamp\<rparr> else c1)
      in if is_final_status status then c2\<lparr>ms_finals := ms_finals c2 + 1\<rparr> else c2)"

definition mark_success :: "string \<Rightarrow> string \<Rightarrow> string \<Rightarrow> runner \<Rightarrow> runner" where
  "mark_success scope status stamp = with_scope scope (count_success status stamp)"

definition count_outcome :: "string \<Rightarrow> metric_set \<Rightarrow> metric_set" where
  "count_outcome status c =
     (let s = trim_space status in
      if s = ''completed'' then c\<lparr>ms_completed := ms_completed c + 1\<rparr>
      else if s = ''failed'' then c\<lparr>ms_failed := ms_failed c + 1\<rparr>
      else if s = ''canceled'' then c\<lparr>ms_canceled := ms_canceled c + 1\<rparr>
      else if s = ''callback_timeout'' then c\<lparr>ms_timed_out := ms_timed_out c + 1\<rparr>
      else if s = ''denied'' then c\<lparr>ms_denied := ms_denied c + 1\<rparr>
      else c)"

definition mark_outcome :: "string \<Rightarrow> string \<Rightarrow> runner \<Rightarrow> runner" where
  "mark_outcome scope status = with_scope scope (count_outcome status)"

definition metrics_snapshot :: "runner \<Rightarrow> metrics_view" where
  "metrics_snapshot r =
     \<lparr>mv_active = length (rn_active r), mv_execution = rm_execution (rn_metrics r),
      mv_docker = rm_docker (rn_metrics r), mv_agent = rm_agent (rn_metrics r)\<rparr>"

subsection \<open>Active tasks\<close>

definition register_active_task :: "exec_task \<Rightarrow> gotime \<Rightarrow> runner \<Rightarrow> runner" where
  "register_active_task t now r =
     r\<lparr>rn_active := AList.update (trim_space (task_id t))
       \<lparr>at_task = task_id t, at_application = task_application t, at_app_env = task_app_env t,
        at_kind = task_kind t, at_provider = task_provider t, at_status = ''queued'',
        at_command = [], at_index = 0, at_count = 0, at_workspace = [],
        at_started = now, at_updated = now, at_source = [], at_reason = []\<rparr> (rn_active r)\<rparr>"

definition update_active_task :: "string \<Rightarrow> (active_task \<Rightarrow> active_task) \<Rightarrow> gotime \<Rightarrow> runner \<Rightarrow> runner" where
  "update_active_task i f now r =
     (case map_of (rn_active r) (trim_space i) of
        None \<Rightarrow> r
      | Some a \<Rightarrow> r\<lparr>rn_active := AList.update (trim_space i) ((f a)\<lparr>at_updated := now\<rparr>) (rn_active r)\<rparr>)"

definition unregister_active_task :: "string \<Rightarrow> runner \<Rightarrow> runner" where
  "unregister_active_task i r = r\<lparr>rn_active := AList.delete (trim_space i) (rn_active r)\<rparr>"

definition stop_info :: "runner \<Rightarrow> string \<Rightarrow> string \<times> string" where
  "stop_info r i =
     (case map_of (rn_active r) (trim_space i) of
        None \<Rightarrow> ([], [])
      | Some a \<Rightarrow> (at_source a, at_reason a))"

definition get_active_task :: "runner \<Rightarrow> string \<Rightarrow> active_task option" where
  "get_active_task r i = map_of (rn_active r) (trim_space i)"

definition list_active_tasks :: "runner \<Rightarrow> active_task list" where
  "list_active_tasks r = map snd (rn_active r)"

text \<open>The boolean is the answer of the API; it also says that the task's context was cancelled.\<close>

definition cancel_active_task :: "string \<Rightarrow> string \<Rightarrow> gotime \<Rightarrow> runner \<Rightarrow> bool \<times> runner" where
  "cancel_active_task i reason now r =
     (case map_of (rn_active r) (trim_space i) of
        None \<Rightarrow> (False, r)
      | Some a \<Rightarrow>
          let why = (if trim_space reason = [] then ''canceled from agent runtime API'' else reason) in
          (True, r\<lparr>rn_active := AList.update (trim_space i)
             (a\<lparr>at_status := ''canceling'', at_source := ''local_api'', at_reason := trim_space why,
                at_updated := now\<rparr>) (rn_active r)\<rparr>))"

subsection \<open>Reports\<close>

fun retry_loop ::
  "string \<Rightarrow> string \<Rightarrow> string \<Rightarrow> (nat \<Rightarrow> call_outcome) \<Rightarrow> nat \<Rightarrow> nat \<Rightarrow> runner \<Rightarrow>
   (string \<times> string) option \<times> runner" where
  "retry_loop scope status stamp calls 0 attempt r = (None, r)"
| "retry_loop scope status stamp calls (Suc left) attempt r =
     (let r1 = mark_attempt scope r in
      case calls attempt of
        CallAnswered i s \<Rightarrow> (Some (i, s), mark_success scope status stamp r1)
      | CallFailed ended waiting \<Rightarrow>
          let r2 = mark_failure scope r1 in
          if ended \<or> left = 0 then (None, r2)
          else if waiting then (None, r2)
          else retry_loop scope status stamp calls left (Suc attempt) r2)"

definition with_callback_retry ::
  "runner_config \<Rightarrow> string \<Rightarrow> string \<Rightarrow> string \<Rightarrow> (nat \<Rightarrow> call_outcome) \<Rightarrow> runner \<Rightarrow>
   (string \<times> string) option \<times> runner" where
  "with_callback_retry cfg scope status stamp calls r =
     retry_loop scope status stamp calls (nat (if rc_attempts cfg \<le> 0 then 1 else rc_attempts cfg)) 1 r"

definition task_callback ::
  "runner_config \<Rightarrow> (string \<Rightarrow> string list) \<Rightarrow> secret_values \<Rightarrow> string \<Rightarrow> string \<Rightarrow> gmap \<Rightarrow>
   string \<Rightarrow> (nat \<Rightarrow> call_outcome) \<Rightarrow> runner \<Rightarrow> (string \<times> string) option \<times> runner" where
  "task_callback cfg registry secrets scope status payload stamp calls r =
     (let sent = redact_secret_value registry secrets (redact_value (VMap payload));
          (answer, r1) = with_callback_retry cfg scope status stamp calls r;
          r2 = r1\<lparr>rn_reports := rn_reports r1 @
            [\<lparr>rep_scope = scope, rep_status = status, rep_payload = sent,
              rep_delivered = (answer \<noteq> None)\<rparr>]\<rparr>
      in case answer of
           None \<Rightarrow> (None, r2)
         | Some (i, s) \<Rightarrow> if trim_space i = [] then (None, r2) else (Some (i, s), r2))"

end
