(* ===== verification/Executor.thy ===== *)
theory Executor
  imports RunnerState
begin

text \<open>
  Execution of a claimed task, \<^verbatim>\<open>execute\<close> and \<^verbatim>\<open>executeTaskCommand\<close> of
  \<^verbatim>\<open>internal/agent/runner/runner.go\<close> with their heartbeat and status goroutines.

  What happens outside during one step is given by the step's environment: the attempts of each
  report, the output and error of the command, and the list of \<open>task_event\<close>s that occur while the
  step runs, in order: a cancellation through the local API, the task's deadline, the end of the
  parent context, a heartbeat, an answer of the status poll. The task context remembers the first
  thing that ended it; the stop channel, of capacity one, the first status that was put into it.
\<close>

subsection \<open>Data\<close>

datatype ctx_state = CtxLive | CtxCanceled | CtxDeadline

datatype task_event =
    EvCancel string string gotime
  | EvDeadline
  | EvParentDone
  | EvHeartbeat "nat \<Rightarrow> call_outcome" string
  | EvPoll string gotime

record exec =
  ex_runner :: runner
  ex_ctx :: ctx_state
  ex_stop :: "string option"

record cmd_env =
  ce_first :: "nat \<Rightarrow> call_outcome"
  ce_before :: "task_event list"
  ce_during :: "task_event list"
  ce_stdout :: string
  ce_stderr :: string
  ce_error :: "string option"
  ce_second :: "nat \<Rightarrow> call_outcome"
  ce_after :: "task_event list"
  ce_final :: "nat \<Rightarrow> call_outcome"
  ce_stamp :: string
  ce_now :: gotime

record prep_env =
  pe_path :: string
  pe_dir :: string
  pe_artifacts :: "gmap list"
  pe_logs :: "string list"
  pe_error :: "string option"
  pe_digest :: string
  pe_during :: "task_event list"
  pe_calls :: "nat \<Rightarrow> call_outcome"
  pe_after :: "task_event list"
  pe_final :: "nat \<Rightarrow> call_outcome"
  pe_stamp :: string
  pe_now :: gotime

text \<open>The parameters of one execution: the runner's configuration, the library, the leased secrets, the
  task, and the texts of a duration and of a point in time.\<close>

record exec_params =
  xp_cfg :: runner_config
  xp_num :: go_num
  xp_registry :: "string \<Rightarrow> string list"
  xp_secrets :: secret_values
  xp_task :: exec_task
  xp_duration_text :: "duration \<Rightarrow> string"

subsection \<open>Events beside a command\<close>

definition agent_id :: "runner_config \<Rightarrow> string" where
  "agent_id cfg = first_non_empty [trim_space (rc_agent cfg), ''local-agent'']"

definition heartbeat_payload :: "string \<Rightarrow> string \<Rightarrow> int \<Rightarrow> int \<Rightarrow> string \<Rightarrow> gmap" where
  "heartbeat_payload agent command index steps stamp =
     [(''agentId'', VStr (trim_space agent)), (''heartbeatAt'', VStr stamp),
      (''currentCommand'', VStr (trim_space command)), (''commandIndex'', VInt index),
      (''commandCount'', VInt steps)]"

definition send_report ::
  "exec_params \<Rightarrow> string \<Rightarrow> gmap \<Rightarrow> string \<Rightarrow> (nat \<Rightarrow> call_outcome) \<Rightarrow> exec \<Rightarrow> (string \<times> string) option \<times> exec" where
  "send_report p status payload stamp calls x =
     (let (ans, r) = task_callback (xp_cfg p) (xp_registry p) (xp_secrets p) scope_execution status
        payload stamp calls (ex_runner x)
      in (ans, x\<lparr>ex_runner := r\<rparr>))"

definition update_task :: "exec_params \<Rightarrow> gotime \<Rightarrow> (active_task \<Rightarrow> active_task) \<Rightarrow> exec \<Rightarrow> exec" where
  "update_task p now f x = x\<lparr>ex_runner := update_active_task (task_id (xp_task p)) f now (ex_runner x)\<rparr>"

definition put_stop :: "string \<Rightarrow> exec \<Rightarrow> exec" where
  "put_stop s x = (if ex_stop x = None then x\<lparr>ex_stop := Some (trim_space s)\<rparr> else x)"

definition drain_stop :: "exec \<Rightarrow> string" where
  "drain_stop x = (case ex_stop x of None \<Rightarrow> [] | Some s \<Rightarrow> trim_space s)"

definition end_ctx :: "ctx_state \<Rightarrow> exec \<Rightarrow> exec" where
  "end_ctx c x = (if ex_ctx x = CtxLive then x\<lparr>ex_ctx := c\<rparr> else x)"

definition told_to_stop :: "(string \<times> string) option \<Rightarrow> bool" where
  "told_to_stop ans = (case ans of None \<Rightarrow> False | Some (i, s) \<Rightarrow> should_stop_local s)"

fun on_event :: "exec_params \<Rightarrow> gmap \<Rightarrow> exec \<Rightarrow> task_event \<Rightarrow> exec" where
  "on_event p hb x (EvCancel i reason now) =
     (let (hit, r) = cancel_active_task i reason now (ex_runner x);
          x1 = x\<lparr>ex_runner := r\<rparr>
      in if hit \<and> trim_space i = trim_space (task_id (xp_task p)) then end_ctx CtxCanceled x1 else x1)"
| "on_event p hb x EvDeadline = end_ctx CtxDeadline x"
| "on_event p hb x EvParentDone = end_ctx CtxCanceled x"
| "on_event p hb x (EvHeartbeat calls stamp) =
     (let (ans, x1) = send_report p ''running'' hb stamp calls x
      in case ans of
           None \<Rightarrow> x1
         | Some (i, s) \<Rightarrow> if should_stop_local s then put_stop s x1 else x1)"
| "on_event p hb x (EvPoll s now) =
     (if should_stop_local s
         \<or> has_prefix (task_provider (xp_task p)) ''buildpacks_runner.'' \<and> s = ''canceling''
      then put_stop s (update_task p now
        (\<lambda>a. a\<lparr>at_status := s, at_source := ''control_plane'', at_reason := s\<rparr>) x)
      else x)"

definition task_events :: "exec_params \<Rightarrow> gmap \<Rightarrow> task_event list \<Rightarrow> exec \<Rightarrow> exec" where
  "task_events p hb evs x = foldl (on_event p hb) x evs"

subsection \<open>One command\<close>

definition outcome_report ::
  "exec_params \<Rightarrow> string \<Rightarrow> gmap \<Rightarrow> string \<Rightarrow> (nat \<Rightarrow> call_outcome) \<Rightarrow> exec \<Rightarrow> exec" where
  "outcome_report p status payload stamp calls x =
     (let x1 = snd (send_report p status payload stamp calls x)
      in x1\<lparr>ex_runner := mark_outcome scope_execution status (ex_runner x1)\<rparr>)"

definition cancel_report :: "exec_params \<Rightarrow> string \<Rightarrow> cmd_env \<Rightarrow> exec \<Rightarrow> exec" where
  "cancel_report p ws e x =
     (let (source, reason) = stop_info (ex_runner x) (task_id (xp_task p));
          x1 = update_task p (ce_now e)
            (\<lambda>a. a\<lparr>at_status := ''canceled'', at_source := source, at_reason := reason\<rparr>) x
      in outcome_report p ''canceled''
           [(''agentId'', VStr (agent_id (xp_cfg p))), (''workspacePath'', VStr ws),
            (''canceledAt'', VStr (ce_stamp e)), (''cancelReason'', VStr reason)]
           (ce_stamp e) (ce_final e) x1)"

definition timeout_message :: "exec_params \<Rightarrow> string" where
  "timeout_message p = ''execution task timed out after ''
     @ xp_duration_text p (execution_task_timeout (xp_num p) (rc_timeout (xp_cfg p)) (xp_task p))"

definition timeout_report :: "exec_params \<Rightarrow> string \<Rightarrow> string \<Rightarrow> cmd_env \<Rightarrow> exec \<Rightarrow> exec" where
  "timeout_report p command ws e x =
     (let timeout = execution_task_timeout (xp_num p) (rc_timeout (xp_cfg p)) (xp_task p);
          message = timeout_message p;
          x1 = update_task p (ce_now e)
            (\<lambda>a. a\<lparr>at_status := ''callback_timeout'', at_reason := message\<rparr>) x
      in outcome_report p ''callback_timeout''
           [(''logs'', VStrs [message]), (''error'', VStr message),
            (''agentId'', VStr (agent_id (xp_cfg p))), (''currentCommand'', VStr command),
            (''workspacePath'', VStr ws), (''timeoutSeconds'', VInt (ceil_duration_seconds timeout)),
            (''timeout'', VStr (xp_duration_text p timeout))]
           (ce_stamp e) (ce_final e) x1)"

definition failure_report :: "exec_params \<Rightarrow> string \<Rightarrow> string \<Rightarrow> string \<Rightarrow> cmd_env \<Rightarrow> exec \<Rightarrow> exec" where
  "failure_report p command ws err e x =
     (let x1 = update_task p (ce_now e) (\<lambda>a. a\<lparr>at_status := ''failed'', at_reason := err\<rparr>) x
      in outcome_report p ''failed''
           [(''logs'', VStrs [''command failed: '' @ err]), (''error'', VStr err),
            (''agentId'', VStr (agent_id (xp_cfg p))), (''currentCommand'', VStr command),
            (''failureStage'', VStr (command_pipeline_stage command)), (''workspacePath'', VStr ws)]
           (ce_stamp e) (ce_final e) x1)"

definition command_logs :: "string \<Rightarrow> cmd_env \<Rightarrow> string list" where
  "command_logs command e =
     (''$ '' @ command) # filter (\<lambda>v. v \<noteq> []) [trim_space (ce_stdout e), trim_space (ce_stderr e)]"

text \<open>\<^verbatim>\<open>executeTaskCommand\<close>; the boolean is its result, whether to go on with the next command.\<close>

definition execute_task_command ::
  "exec_params \<Rightarrow> string \<Rightarrow> string \<Rightarrow> int \<Rightarrow> int \<Rightarrow> cmd_env \<Rightarrow> exec \<Rightarrow> bool \<times> exec" where
  "execute_task_command p command ws index steps e x =
     (let agent = agent_id (xp_cfg p);
          stage = command_pipeline_stage command;
          hb = extend_map (heartbeat_payload agent command (index + 1) steps (ce_stamp e))
            [(''workspacePath'', VStr ws)];
          x1 = update_task p (ce_now e) (\<lambda>a. a\<lparr>at_status := ''running'', at_command := command,
            at_index := index + 1, at_count := steps, at_workspace := ws\<rparr>) x;
          (ans1, x2) = send_report p ''running''
            (extend_map (heartbeat_payload agent command (index + 1) steps (ce_stamp e))
              [(''workspacePath'', VStr ws), (''pipelineStage'', VStr stage)])
            (ce_stamp e) (ce_first e) x1;
          x3 = task_events p hb (ce_before e) x2
      in if told_to_stop ans1 then (False, x3)
         else
           let x4 = task_events p hb (ce_during e) (x3\<lparr>ex_stop := None\<rparr>);
               remote = drain_stop x4;
               (ans2, x5) = send_report p ''running''
                 (extend_map (heartbeat_payload agent command (index + 1) steps (ce_stamp e))
                   [(''logs'', VStrs (command_logs command e)), (''workspacePath'', VStr ws),
                    (''pipelineStage'', VStr stage)])
                 (ce_stamp e) (ce_second e) x4;
               x6 = task_events p hb (ce_after e) x5;
               local = (fst (stop_info (ex_runner x6) (task_id (xp_task p))) = ''local_api'')
           in if told_to_stop ans2 then (False, x6)
              else if remote \<noteq> [] then
                (False, if local then cancel_report p ws e x6 else x6)
              else if ex_ctx x6 = CtxCanceled \<and> local then (False, cancel_report p ws e x6)
              else if ex_ctx x6 = CtxDeadline then (False, timeout_report p command ws e x6)
              else case ce_error e of
                Some err \<Rightarrow> (False, failure_report p command ws err e x6)
              | None \<Rightarrow> (True, x6))"

fun run_commands ::
  "exec_params \<Rightarrow> string \<Rightarrow> nat \<Rightarrow> int \<Rightarrow> string list \<Rightarrow> (nat \<Rightarrow> cmd_env) \<Rightarrow> exec \<Rightarrow> bool \<times> exec" where
  "run_commands p ws k steps [] env x = (True, x)"
| "run_commands p ws k steps (c # cs) env x =
     (let (go, x1) = execute_task_command p c ws (int k) steps (env k) x
      in if go then run_commands p ws (Suc k) steps cs env x1 else (False, x1))"

subsection \<open>A whole task\<close>

fun secret_error_text :: "secret_error \<Rightarrow> string" where
  "secret_error_text InvalidGrant = ''invalid secret lease grant''"
| "secret_error_text (RedeemFailed e) = ''redeem secret lease: '' @ e"
| "secret_error_text InvalidRedemption = ''invalid secret lease redemption''"
| "secret_error_text InvalidAlias = ''invalid secret lease alias''"

definition no_commands_text :: string where
  "no_commands_text = ''no executable commands were found in task payload''"

text \<open>The workspace step: the report of its log and the failure branch. The result says whether the
  commands may start.\<close>

definition prepare_failure :: "exec_params \<Rightarrow> prep_env \<Rightarrow> string \<Rightarrow> exec \<Rightarrow> exec" where
  "prepare_failure p e err x =
     (let timeout = execution_task_timeout (xp_num p) (rc_timeout (xp_cfg p)) (xp_task p);
          late = (ex_ctx x = CtxDeadline);
          status = (if late then ''callback_timeout'' else ''failed'');
          message = (if late then timeout_message p else err);
          payload = [(''logs'', VStrs [message]), (''error'', VStr message),
              (''failureStage'', VStr (workspace_failure_stage err)),
              (''agentId'', VStr (agent_id (xp_cfg p))), (''workspacePath'', VStr (pe_path e))]
            @ (if late then [(''timeoutSeconds'', VInt (ceil_duration_seconds timeout)),
                 (''timeout'', VStr (xp_duration_text p timeout))] else []);
          x1 = update_task p (pe_now e) (\<lambda>a. a\<lparr>at_status := status, at_workspace := pe_path e,
            at_reason := message\<rparr>) x
      in outcome_report p status payload (pe_stamp e) (pe_final e) x1)"

definition prepare_step :: "exec_params \<Rightarrow> prep_env \<Rightarrow> exec \<Rightarrow> bool \<times> exec" where
  "prepare_step p e x =
     (let x1 = update_task p (pe_now e) (\<lambda>a. a\<lparr>at_status := ''preparing''\<rparr>) x;
          x2 = task_events p [] (pe_during e) x1;
          (stop, x3) =
            (if pe_logs e = [] then (False, x2)
             else
               let x21 = update_task p (pe_now e)
                     (\<lambda>a. a\<lparr>at_status := ''running'', at_workspace := pe_path e\<rparr>) x2;
                   (ans, x22) = send_report p ''running''
                     [(''logs'', VStrs (pe_logs e)), (''agentId'', VStr (agent_id (xp_cfg p))),
                      (''workspacePath'', VStr (pe_path e)), (''heartbeatAt'', VStr (pe_stamp e))]
                     (pe_stamp e) (pe_calls e) x21
               in (told_to_stop ans, task_events p [] (pe_after e) x22))
      in if stop then (False, x3)
         else case pe_error e of
           Some err \<Rightarrow> (False, prepare_failure p e err x3)
         | None \<Rightarrow> (True, x3))"

definition completed_payload :: "exec_params \<Rightarrow> prep_env \<Rightarrow> string \<Rightarrow> string list \<Rightarrow> gmap" where
  "completed_payload p e stamp commands =
     (let ft = gn_text (xp_num p);
          base = [(''agentId'', VStr (agent_id (xp_cfg p))), (''completedAt'', VStr stamp),
            (''workspacePath'', VStr (pe_path e))];
          img = resolve_image_from_commands ft (task_payload (xp_task p)) commands;
          with_img =
            (if img = [] then base
             else
               let b1 = base @ [(''image'', VStr img)]
                     @ (if pe_digest e = [] then [] else [(''imageDigest'', VStr (pe_digest e))])
               in b1 @ [(''artifact'', VMap (build_image_artifact ft b1 img)),
                        (''artifacts'', VMaps (build_artifact_list ft b1 img))])
      in with_img @ (if pe_artifacts e = [] then []
                     else [(''workspaceArtifacts'', VMaps (pe_artifacts e))]))"

definition run_task :: "exec_params \<Rightarrow> string list \<Rightarrow> prep_env \<Rightarrow> (nat \<Rightarrow> cmd_env) \<Rightarrow> cmd_env \<Rightarrow> exec \<Rightarrow> exec" where
  "run_task p commands e env fin x =
     (let (ready, x1) = prepare_step p e x in
      if \<not> ready then x1
      else
        let (go, x2) = run_commands p (pe_path e) 0 (int (length commands)) commands env x1 in
        if \<not> go then x2
        else
          let x3 = update_task p (ce_now fin)
                (\<lambda>a. a\<lparr>at_status := ''completed'', at_command := [], at_reason := []\<rparr>) x2
          in outcome_report p ''completed'' (completed_payload p e (ce_stamp fin) commands)
               (ce_stamp fin) (ce_final fin) x3)"

text \<open>\<^verbatim>\<open>execute\<close> for the tasks that carry commands (SSH, Helm and manifest tasks have executors of
  their own): \<open>redeemed\<close> is the result of redeeming the secret lease.\<close>

definition execute_task ::
  "exec_params \<Rightarrow> secret_error + secret_values \<Rightarrow> prep_env \<Rightarrow> (nat \<Rightarrow> cmd_env) \<Rightarrow> cmd_env \<Rightarrow> runner \<Rightarrow> runner" where
  "execute_task p redeemed e env fin r =
     (let x0 = \<lparr>ex_runner = mark_started scope_execution r, ex_ctx = CtxLive, ex_stop = None\<rparr> in
      case redeemed of
        Inl err \<Rightarrow> ex_runner (outcome_report p ''failed''
          [(''error'', VStr (secret_error_text err)), (''logs'', VStrs [secret_error_text err]),
           (''agentId'', VStr (agent_id (xp_cfg p)))] (ce_stamp fin) (ce_final fin) x0)
      | Inr secrets \<Rightarrow>
          let q = p\<lparr>xp_secrets := secrets\<rparr>;
              commands = extract_commands (gn_text (xp_num p)) (task_payload (xp_task p))
          in if commands = []
             then ex_runner (outcome_report q ''failed''
               [(''logs'', VStrs [no_commands_text]), (''error'', VStr no_commands_text)]
               (ce_stamp fin) (ce_final fin) x0)
             else
               let x1 = x0\<lparr>ex_runner := register_active_task (xp_task p) (ce_now fin) (ex_runner x0)\<rparr>;
                   x2 = run_task q commands e env fin x1
               in unregister_active_task (task_id (xp_task p)) (ex_runner x2))"

subsection \<open>What a step leaves behind\<close>

text \<open>The metrics that reports, heartbeats and retries do not touch.\<close>

definition settled_metrics :: "runner \<Rightarrow> metric_set" where
  "settled_metrics r = (rm_execution (rn_metrics r))
     \<lparr>ms_heartbeats := 0, ms_attempts := 0, ms_failures := 0, ms_finals := 0,
      ms_last_heartbeat := [], ms_last_callback := []\<rparr>"

definition same_tasks :: "runner \<Rightarrow> runner \<Rightarrow> bool" where
  "same_tasks r s \<longleftrightarrow> (\<forall>k. map_of (rn_active s) k = None \<longleftrightarrow> map_of (rn_active r) k = None)"

definition report_ok :: "exec_params \<Rightarrow> report \<Rightarrow> bool" where
  "report_ok p rep \<longleftrightarrow> rep_scope rep = scope_execution
     \<and> (\<exists>v. rep_payload rep = redact_secret_value (xp_registry p) (xp_secrets p) (redact_value v))"

text \<open>\<open>adds p rs x y\<close>: between the states x and y exactly the reports rs were made.\<close>

definition adds :: "exec_params \<Rightarrow> report list \<Rightarrow> runner \<Rightarrow> runner \<Rightarrow> bool" where
  "adds p rs r s \<longleftrightarrow> rn_reports s = rn_reports r @ rs \<and> (\<forall>rep \<in> set rs. report_ok p rep) \<and> same_tasks r s"

definition quiet :: "exec_params \<Rightarrow> exec \<Rightarrow> exec \<Rightarrow> bool" where
  "quiet p x y \<longleftrightarrow> settled_metrics (ex_runner y) = settled_metrics (ex_runner x)
     \<and> (\<exists>rs. adds p rs (ex_runner x) (ex_runner y) \<and> (\<forall>rep \<in> set rs. rep_status rep = ''running''))"

definition closing :: "exec_params \<Rightarrow> string \<Rightarrow> exec \<Rightarrow> exec \<Rightarrow> bool" where
  "closing p status x y \<longleftrightarrow>
     settled_metrics (ex_runner y) = count_outcome status (settled_metrics (ex_runner x))
     \<and> (\<exists>rep. adds p [rep] (ex_runner x) (ex_runner y) \<and> rep_status rep = status)"

lemma same_tasks_refl [simp]: "same_tasks r r"
  by (simp add: same_tasks_def)

lemma same_tasks_trans: "same_tasks r s \<Longrightarrow> same_tasks s t \<Longrightarrow> same_tasks r t"
  by (simp add: same_tasks_def)

lemma adds_Nil [simp]: "adds p [] r r"
  by (simp add: adds_def)

lemma adds_trans: "adds p rs r s \<Longrightarrow> adds p qs s t \<Longrightarrow> adds p (rs @ qs) r t"
  by (auto simp: adds_def intro: same_tasks_trans)

lemma quiet_refl [simp]: "quiet p x x"
  unfolding quiet_def by (metis adds_Nil empty_iff empty_set)

lemma quiet_trans: "quiet p x y \<Longrightarrow> quiet p y z \<Longrightarrow> quiet p x z"
proof -
  assume "quiet p x y" "quiet p y z"
  then obtain rs qs where m: "settled_metrics (ex_runner y) = settled_metrics (ex_runner x)"
      "settled_metrics (ex_runner z) = settled_metrics (ex_runner y)"
    and rs: "adds p rs (ex_runner x) (ex_runner y)" "\<forall>rep \<in> set rs. rep_status rep = ''running''"
    and qs: "adds p qs (ex_runner y) (ex_runner z)" "\<forall>rep \<in> set qs. rep_status rep = ''running''"
    by (auto simp: quiet_def)
  from adds_trans [OF rs(1) qs(1)] rs(2) qs(2) have "\<exists>us. adds p us (ex_runner x) (ex_runner z)
      \<and> (\<forall>rep \<in> set us. rep_status rep = ''running'')" by (intro exI [of _ "rs @ qs"]) auto
  with m show ?thesis by (simp add: quiet_def)
qed

lemma quiet_runner: "ex_runner y = ex_runner x \<Longrightarrow> quiet p x y"
  unfolding quiet_def by (metis adds_Nil empty_iff empty_set)

lemma quiet_active:
  "rn_reports (ex_runner y) = rn_reports (ex_runner x) \<Longrightarrow> rn_metrics (ex_runner y) = rn_metrics (ex_runner x) \<Longrightarrow>
   same_tasks (ex_runner x) (ex_runner y) \<Longrightarrow> quiet p x y"
  unfolding quiet_def adds_def settled_metrics_def by (intro conjI exI [of _ "[]"]) simp_all

lemma update_active_task_keeps:
  "rn_reports (update_active_task i f now r) = rn_reports r"
  "rn_metrics (update_active_task i f now r) = rn_metrics r"
  "same_tasks r (update_active_task i f now r)"
  by (auto simp: update_active_task_def same_tasks_def go_map split: option.splits)

lemma cancel_active_task_keeps:
  "rn_reports (snd (cancel_active_task i reason now r)) = rn_reports r"
  "rn_metrics (snd (cancel_active_task i reason now r)) = rn_metrics r"
  "same_tasks r (snd (cancel_active_task i reason now r))"
  by (auto simp: cancel_active_task_def same_tasks_def go_map Let_def split: option.splits)

lemma quiet_update_task [simp]: "quiet p x (update_task p now f x)"
  by (rule quiet_active) (simp_all add: update_task_def update_active_task_keeps)

lemma with_scope_keeps [simp]:
  "rn_reports (with_scope scope f r) = rn_reports r" "rn_active (with_scope scope f r) = rn_active r"
  by (simp_all add: with_scope_def Let_def)

lemmas metric_marks = mark_started_def mark_heartbeat_def mark_attempt_def mark_failure_def
  mark_success_def mark_outcome_def

lemma mark_keeps:
  "rn_reports (mark_attempt scope r) = rn_reports r" "rn_active (mark_attempt scope r) = rn_active r"
  "rn_reports (mark_failure scope r) = rn_reports r" "rn_active (mark_failure scope r) = rn_active r"
  "rn_reports (mark_success scope status stamp r) = rn_reports r"
  "rn_active (mark_success scope status stamp r) = rn_active r"
  "rn_reports (mark_outcome scope status r) = rn_reports r"
  "rn_active (mark_outcome scope status r) = rn_active r"
  "rn_reports (mark_started scope r) = rn_reports r" "rn_active (mark_started scope r) = rn_active r"
  by (simp_all add: metric_marks)

lemma settled_marks:
  "settled_metrics (mark_attempt scope r) = settled_metrics r"
  "settled_metrics (mark_failure scope r) = settled_metrics r"
  "settled_metrics (mark_success scope status stamp r) = settled_metrics r"
  by (simp_all add: settled_metrics_def metric_marks with_scope_def count_success_def Let_def)

lemma retry_loop_keeps:
  "rn_reports (snd (retry_loop scope status stamp calls n a r)) = rn_reports r"
  "rn_active (snd (retry_loop scope status stamp calls n a r)) = rn_active r"
  "settled_metrics (snd (retry_loop scope status stamp calls n a r)) = settled_metrics r"
  by (induction scope status stamp calls n a r rule: retry_loop.induct)
    (auto simp: Let_def settled_marks mark_keeps split: call_outcome.splits)

lemma task_callback_adds:
  fixes r :: runner
  assumes "task_callback cfg registry secrets scope status payload stamp calls r = (ans, r')"
  shows "\<exists>rep. rn_reports r' = rn_reports r @ [rep] \<and> rep_status rep = status \<and> rep_scope rep = scope
      \<and> rep_payload rep = redact_secret_value registry secrets (redact_value (VMap payload))"
    and "rn_active r' = rn_active r" and "settled_metrics r' = settled_metrics r"
proof -
  obtain a s where retry: "with_callback_retry cfg scope status stamp calls r = (a, s)" by fastforce
  then have s: "rn_reports s = rn_reports r" "rn_active s = rn_active r" "settled_metrics s = settled_metrics r"
    using retry_loop_keeps by (simp_all add: with_callback_retry_def) (metis snd_conv)+
  from assms retry obtain rep where r': "r' = s\<lparr>rn_reports := rn_reports s @ [rep]\<rparr>"
    "rep_status rep = status" "rep_scope rep = scope"
    "rep_payload rep = redact_secret_value registry secrets (redact_value (VMap payload))"
    by (auto simp: task_callback_def Let_def split: option.splits prod.splits if_splits)
  then show "\<exists>rep. rn_reports r' = rn_reports r @ [rep] \<and> rep_status rep = status \<and> rep_scope rep = scope
      \<and> rep_payload rep = redact_secret_value registry secrets (redact_value (VMap payload))"
    using s by auto
  show "rn_active r' = rn_active r" "settled_metrics r' = settled_metrics r"
    using r' s by (simp_all add: settled_metrics_def)
qed

lemma send_report_adds:
  assumes "send_report p status payload stamp calls x = (ans, y)"
  shows "\<exists>rep. adds p [rep] (ex_runner x) (ex_runner y) \<and> rep_status rep = status"
    and "settled_metrics (ex_runner y) = settled_metrics (ex_runner x)"
proof -
  from assms obtain r where cb: "task_callback (xp_cfg p) (xp_registry p) (xp_secrets p) scope_execution status
      payload stamp calls (ex_runner x) = (ans, r)" and y: "ex_runner y = r"
    by (auto simp: send_report_def Let_def split: prod.splits)
  note facts = task_callback_adds [OF cb]
  from facts(1) obtain rep where "rn_reports r = rn_reports (ex_runner x) @ [rep]" "rep_status rep = status"
    "rep_scope rep = scope_execution"
    "rep_payload rep = redact_secret_value (xp_registry p) (xp_secrets p) (redact_value (VMap payload))"
    by blast
  then have "adds p [rep] (ex_runner x) (ex_runner y) \<and> rep_status rep = status"
    using facts(2) y by (auto simp: adds_def report_ok_def same_tasks_def simp del: redact_value.simps)
  then show "\<exists>rep. adds p [rep] (ex_runner x) (ex_runner y) \<and> rep_status rep = status" by blast
  show "settled_metrics (ex_runner y) = settled_metrics (ex_runner x)" using facts(3) y by simp
qed

lemma quiet_send: "send_report p ''running'' payload stamp calls x = (ans, y) \<Longrightarrow> quiet p x y"
  unfolding quiet_def using send_report_adds [of p "''running''" payload stamp calls x ans y] by auto

lemma quiet_put_stop [simp]: "quiet p x (put_stop s x)"
  by (rule quiet_runner) (simp add: put_stop_def)

lemma quiet_end_ctx [simp]: "quiet p x (end_ctx c x)"
  by (rule quiet_runner) (simp add: end_ctx_def)

lemma quiet_cancel: "quiet p x (x\<lparr>ex_runner := snd (cancel_active_task i reason now (ex_runner x))\<rparr>)"
  by (rule quiet_active) (simp_all add: cancel_active_task_keeps)

lemma quiet_on_event: "quiet p x (on_event p hb x ev)"
proof (cases ev)
  case (EvCancel i reason now)
  let ?x1 = "x\<lparr>ex_runner := snd (cancel_active_task i reason now (ex_runner x))\<rparr>"
  have "on_event p hb x ev = ?x1 \<or> on_event p hb x ev = end_ctx CtxCanceled ?x1"
    by (auto simp: EvCancel Let_def split: prod.splits)
  then show ?thesis
  proof
    assume "on_event p hb x ev = ?x1"
    then show ?thesis using quiet_cancel by simp
  next
    assume "on_event p hb x ev = end_ctx CtxCanceled ?x1"
    then show ?thesis using quiet_trans [OF quiet_cancel quiet_end_ctx] by simp
  qed
next
  case (EvHeartbeat calls stamp)
  obtain ans y where send: "send_report p ''running'' hb stamp calls x = (ans, y)" by fastforce
  then have "on_event p hb x ev = y \<or> (\<exists>s. on_event p hb x ev = put_stop s y)"
    by (auto simp: EvHeartbeat split: option.splits)
  then show ?thesis using quiet_send [OF send] quiet_trans [OF quiet_send [OF send] quiet_put_stop] by auto
next
  case (EvPoll s now)
  then show ?thesis using quiet_trans [OF quiet_update_task quiet_put_stop] by simp
qed simp_all

lemma quiet_events: "quiet p x (task_events p hb evs x)"
proof (induction evs arbitrary: x)
  case (Cons ev evs)
  have "task_events p hb (ev # evs) x = task_events p hb evs (on_event p hb x ev)"
    by (simp add: task_events_def)
  then show ?case using quiet_trans [OF quiet_on_event Cons] by simp
qed (simp add: task_events_def)

lemma settled_outcome: "settled_metrics (mark_outcome scope_execution status r) = count_outcome status (settled_metrics r)"
  by (simp add: settled_metrics_def mark_outcome_def with_scope_def count_outcome_def Let_def)

lemma closing_outcome: "closing p status x (outcome_report p status payload stamp calls x)"
proof -
  obtain ans y where send: "send_report p status payload stamp calls x = (ans, y)" by fastforce
  note facts = send_report_adds [OF send]
  have out: "outcome_report p status payload stamp calls x
      = y\<lparr>ex_runner := mark_outcome scope_execution status (ex_runner y)\<rparr>"
    by (simp add: outcome_report_def send)
  have "adds p [rep] (ex_runner x) (ex_runner y) \<Longrightarrow>
      adds p [rep] (ex_runner x) (mark_outcome scope_execution status (ex_runner y))" for rep
    by (simp add: adds_def same_tasks_def mark_keeps)
  with facts show ?thesis unfolding closing_def out by (auto simp: settled_outcome)
qed

definition settles :: "exec_params \<Rightarrow> string set \<Rightarrow> exec \<Rightarrow> exec \<Rightarrow> bool" where
  "settles p statuses x y \<longleftrightarrow> quiet p x y \<or> (\<exists>m. \<exists>s \<in> statuses. quiet p x m \<and> closing p s m y)"

lemma settles_quiet: "quiet p x y \<Longrightarrow> settles p S x y"
  by (simp add: settles_def)

lemma settles_close: "quiet p x m \<Longrightarrow> closing p s m y \<Longrightarrow> s \<in> S \<Longrightarrow> settles p S x y"
  unfolding settles_def by blast

lemma quiet_settles: "quiet p x y \<Longrightarrow> settles p S y z \<Longrightarrow> settles p S x z"
  unfolding settles_def using quiet_trans by blast

lemma settles_mono: "settles p S x y \<Longrightarrow> S \<subseteq> T \<Longrightarrow> settles p T x y"
  unfolding settles_def by blast

abbreviation stop_statuses :: "string set" where
  "stop_statuses \<equiv> {''canceled'', ''callback_timeout'', ''failed''}"

lemma settles_report:
  "s \<in> S \<Longrightarrow> settles p S x (outcome_report p s payload stamp calls (update_task p now f x))"
  by (rule settles_close [OF quiet_update_task closing_outcome])

lemma settles_cancel_report: "settles p {''canceled''} x (cancel_report p ws e x)"
  by (simp add: cancel_report_def Let_def settles_report split: prod.split)

lemma settles_timeout_report: "settles p {''callback_timeout''} x (timeout_report p c ws e x)"
  by (simp add: timeout_report_def Let_def settles_report)

lemma settles_failure_report: "settles p {''failed''} x (failure_report p c ws err e x)"
  by (simp add: failure_report_def Let_def settles_report)

lemma execute_task_command_settles:
  assumes "execute_task_command p c ws k n e x = (go, y)"
  shows "(if go then quiet p x y \<and> ce_error e = None else settles p stop_statuses x y)"
proof -
  define hb where "hb = extend_map (heartbeat_payload (agent_id (xp_cfg p)) c (k + 1) n (ce_stamp e))
    [(''workspacePath'', VStr ws)]"
  define x1 where "x1 = update_task p (ce_now e) (\<lambda>a. a\<lparr>at_status := ''running'', at_command := c,
    at_index := k + 1, at_count := n, at_workspace := ws\<rparr>) x"
  obtain ans1 x2 where s1: "send_report p ''running''
      (extend_map (heartbeat_payload (agent_id (xp_cfg p)) c (k + 1) n (ce_stamp e))
        [(''workspacePath'', VStr ws), (''pipelineStage'', VStr (command_pipeline_stage c))])
      (ce_stamp e) (ce_first e) x1 = (ans1, x2)" by fastforce
  define x3 where "x3 = task_events p hb (ce_before e) x2"
  define x4 where "x4 = task_events p hb (ce_during e) (x3\<lparr>ex_stop := None\<rparr>)"
  obtain ans2 x5 where s2: "send_report p ''running''
      (extend_map (heartbeat_payload (agent_id (xp_cfg p)) c (k + 1) n (ce_stamp e))
        [(''logs'', VStrs (command_logs c e)), (''workspacePath'', VStr ws),
         (''pipelineStage'', VStr (command_pipeline_stage c))])
      (ce_stamp e) (ce_second e) x4 = (ans2, x5)" by fastforce
  define x6 where "x6 = task_events p hb (ce_after e) x5"
  have "quiet p x x1" unfolding x1_def by (rule quiet_update_task)
  from quiet_trans [OF quiet_trans [OF this quiet_send [OF s1]] quiet_events]
  have q3: "quiet p x x3" unfolding x3_def .
  have "quiet p x3 x4"
    unfolding x4_def by (rule quiet_trans [OF _ quiet_events]) (rule quiet_runner, simp)
  from quiet_trans [OF quiet_trans [OF quiet_trans [OF q3 this] quiet_send [OF s2]] quiet_events]
  have q6: "quiet p x x6" unfolding x6_def .
  consider "go = False" "y = x3" | "go = False" "y = x6" | "go = False" "y = cancel_report p ws e x6"
    | "go = False" "y = timeout_report p c ws e x6"
    | err where "go = False" "y = failure_report p c ws err e x6"
    | "go = True" "y = x6" "ce_error e = None"
    using assms unfolding execute_task_command_def Let_def
    by (simp add: s1 s2 hb_def [symmetric] x1_def [symmetric] x3_def [symmetric] x4_def [symmetric] x6_def [symmetric]
        split: if_splits option.splits; metis)
  then show ?thesis
  proof cases
    case 1
    with q3 show ?thesis by (simp add: settles_quiet)
  next
    case 2
    with q6 show ?thesis by (simp add: settles_quiet)
  next
    case 3
    with settles_mono [OF quiet_settles [OF q6 settles_cancel_report], of stop_statuses] show ?thesis by simp
  next
    case 4
    with settles_mono [OF quiet_settles [OF q6 settles_timeout_report], of stop_statuses] show ?thesis by simp
  next
    case 5
    with settles_mono [OF quiet_settles [OF q6 settles_failure_report], of stop_statuses] show ?thesis by simp
  next
    case 6
    with q6 show ?thesis by simp
  qed
qed

lemma run_commands_settles:
  "run_commands p ws k n cs env x = (go, y) \<Longrightarrow>
   if go then quiet p x y \<and> (\<forall>j < length cs. ce_error (env (k + j)) = None) else settles p stop_statuses x y"
proof (induction p ws k n cs env x rule: run_commands.induct)
  case (2 p ws k n c cs env x)
  obtain g1 x1 where one: "execute_task_command p c ws (int k) n (env k) x = (g1, x1)" by fastforce
  note step = execute_task_command_settles [OF one]
  show ?case
  proof (cases g1)
    case False
    with "2.prems" one step show ?thesis by simp
  next
    case True
    with "2.prems" one have rest: "run_commands p ws (Suc k) n cs env x1 = (go, y)" by simp
    have q: "quiet p x x1" "ce_error (env k) = None" using step True by simp_all
    have ih: "if go then quiet p x1 y \<and> (\<forall>j < length cs. ce_error (env (Suc k + j)) = None)
        else settles p stop_statuses x1 y"
      using "2.IH" [OF one [symmetric] refl True rest] .
    show ?thesis
    proof (cases go)
      case False
      with ih q quiet_settles show ?thesis by auto
    next
      case True
      with ih q have "quiet p x y" using quiet_trans by auto
      moreover have "ce_error (env (k + j)) = None" if "j < length (c # cs)" for j
        using ih True q(2) that by (cases j) auto
      ultimately show ?thesis using True by simp
    qed
  qed
qed simp

lemma settles_prepare_failure: "settles p stop_statuses x (prepare_failure p e err x)"
  unfolding prepare_failure_def Let_def by (rule settles_report) simp

lemma prepare_step_settles:
  assumes "prepare_step p e x = (ready, y)"
  shows "(if ready then quiet p x y \<and> pe_error e = None else settles p stop_statuses x y)"
proof -
  define x2 where "x2 = task_events p [] (pe_during e)
    (update_task p (pe_now e) (\<lambda>a. a\<lparr>at_status := ''preparing''\<rparr>) x)"
  define x21 where "x21 = update_task p (pe_now e)
    (\<lambda>a. a\<lparr>at_status := ''running'', at_workspace := pe_path e\<rparr>) x2"
  obtain ans x22 where send: "send_report p ''running''
      [(''logs'', VStrs (pe_logs e)), (''agentId'', VStr (agent_id (xp_cfg p))),
       (''workspacePath'', VStr (pe_path e)), (''heartbeatAt'', VStr (pe_stamp e))]
      (pe_stamp e) (pe_calls e) x21 = (ans, x22)" by fastforce
  define x3 where "x3 = (if pe_logs e = [] then x2 else task_events p [] (pe_after e) x22)"
  have q2: "quiet p x x2" unfolding x2_def by (rule quiet_trans [OF quiet_update_task quiet_events])
  have "quiet p x2 x21" unfolding x21_def by (rule quiet_update_task)
  from quiet_trans [OF quiet_trans [OF quiet_trans [OF q2 this] quiet_send [OF send]] quiet_events]
  have q3: "quiet p x x3" using q2 unfolding x3_def by simp
  from assms have "y = x3 \<and> \<not> ready \<or> (\<exists>err. y = prepare_failure p e err x3 \<and> \<not> ready)
      \<or> y = x3 \<and> ready \<and> pe_error e = None"
    unfolding prepare_step_def Let_def
    by (simp add: x2_def [symmetric] x21_def [symmetric] send x3_def split: if_splits option.splits; metis)
  then show ?thesis using q3 quiet_settles [OF q3 settles_prepare_failure] settles_quiet [OF q3] by auto
qed

lemma run_task_settles:
  "settles p stop_statuses x (run_task p commands e env fin x)
   \<or> (\<exists>m. quiet p x m \<and> closing p ''completed'' m (run_task p commands e env fin x)
        \<and> pe_error e = None \<and> (\<forall>j < length commands. ce_error (env j) = None))"
proof -
  obtain ready x1 where prep: "prepare_step p e x = (ready, x1)" by fastforce
  obtain go x2 where cmds: "run_commands p (pe_path e) 0 (int (length commands)) commands env x1 = (go, x2)"
    by fastforce
  note facts = prepare_step_settles [OF prep] run_commands_settles [OF cmds]
  show ?thesis
  proof (cases ready)
    case False
    with facts prep show ?thesis by (simp add: run_task_def)
  next
    case ready: True
    then have q1: "quiet p x x1" "pe_error e = None" using facts by simp_all
    show ?thesis
    proof (cases go)
      case False
      with ready facts prep cmds quiet_settles [OF q1(1)] show ?thesis by (simp add: run_task_def)
    next
      case True
      with facts have q2: "quiet p x1 x2" "\<forall>j < length commands. ce_error (env j) = None" by simp_all
      let ?x3 = "update_task p (ce_now fin) (\<lambda>a. a\<lparr>at_status := ''completed'', at_command := [], at_reason := []\<rparr>) x2"
      have "quiet p x ?x3" using quiet_trans [OF quiet_trans [OF q1(1) q2(1)] quiet_update_task] .
      moreover have "closing p ''completed'' ?x3 (run_task p commands e env fin x)"
        using ready True prep cmds closing_outcome by (simp add: run_task_def Let_def)
      ultimately show ?thesis using q1 q2 by blast
    qed
  qed
qed

lemma settles_reports:
  assumes "settles p S x y"
  shows "\<exists>running final. rn_reports (ex_runner y) = rn_reports (ex_runner x) @ running @ final
    \<and> (\<forall>rep \<in> set running. rep_status rep = ''running'') \<and> length final \<le> 1
    \<and> rep_status ` set final \<subseteq> S \<and> (\<forall>rep \<in> set (running @ final). report_ok p rep)
    \<and> settled_metrics (ex_runner y) = foldl (\<lambda>m rep. count_outcome (rep_status rep) m)
        (settled_metrics (ex_runner x)) final
    \<and> same_tasks (ex_runner x) (ex_runner y)"
proof -
  from assms consider "quiet p x y" | m s where "s \<in> S" "quiet p x m" "closing p s m y"
    by (auto simp: settles_def)
  then show ?thesis
  proof cases
    case 1
    then obtain rs where "adds p rs (ex_runner x) (ex_runner y)" "\<forall>rep \<in> set rs. rep_status rep = ''running''"
      "settled_metrics (ex_runner y) = settled_metrics (ex_runner x)" by (auto simp: quiet_def)
    then show ?thesis by (intro exI [of _ rs] exI [of _ "[]"]) (simp add: adds_def)
  next
    case 2
    then obtain rs rep where rs: "adds p rs (ex_runner x) (ex_runner m)"
        "\<forall>rep \<in> set rs. rep_status rep = ''running''"
        "settled_metrics (ex_runner m) = settled_metrics (ex_runner x)"
      and rep: "adds p [rep] (ex_runner m) (ex_runner y)" "rep_status rep = s"
        "settled_metrics (ex_runner y) = count_outcome s (settled_metrics (ex_runner m))"
      by (auto simp: quiet_def closing_def)
    from adds_trans [OF rs(1) rep(1)] rs rep 2(1) show ?thesis
      by (intro exI [of _ rs] exI [of _ "[rep]"]) (auto simp: adds_def)
  qed
qed

definition task_end :: "exec_params \<Rightarrow> secret_error + secret_values \<Rightarrow> exec_params" where
  "task_end p redeemed = (case redeemed of Inl e \<Rightarrow> p | Inr secrets \<Rightarrow> p\<lparr>xp_secrets := secrets\<rparr>)"

definition started :: "runner \<Rightarrow> exec" where
  "started r = \<lparr>ex_runner = mark_started scope_execution r, ex_ctx = CtxLive, ex_stop = None\<rparr>"

lemma execute_task_shape:
  obtains (early) y where "closing (task_end p redeemed) ''failed'' (started r) y"
      "execute_task p redeemed e env fin r = ex_runner y"
  | (ran) secrets x where "redeemed = Inr secrets"
      "extract_commands (gn_text (xp_num p)) (task_payload (xp_task p)) \<noteq> []"
      "x = (started r)\<lparr>ex_runner := register_active_task (xp_task p) (ce_now fin) (ex_runner (started r))\<rparr>"
      "execute_task p redeemed e env fin r = unregister_active_task (task_id (xp_task p)) (ex_runner
        (run_task (task_end p redeemed) (extract_commands (gn_text (xp_num p)) (task_payload (xp_task p))) e env fin x))"
proof (cases redeemed)
  case (Inl err)
  show thesis
  proof (rule early)
    show "closing (task_end p redeemed) ''failed'' (started r) (outcome_report p ''failed''
        [(''error'', VStr (secret_error_text err)), (''logs'', VStrs [secret_error_text err]),
         (''agentId'', VStr (agent_id (xp_cfg p)))] (ce_stamp fin) (ce_final fin) (started r))"
      using Inl by (simp add: task_end_def closing_outcome)
  qed (simp add: Inl execute_task_def started_def Let_def)
next
  case (Inr secrets)
  show thesis
  proof (cases "extract_commands (gn_text (xp_num p)) (task_payload (xp_task p)) = []")
    case True
    show thesis
    proof (rule early)
      show "closing (task_end p redeemed) ''failed'' (started r) (outcome_report (task_end p redeemed) ''failed''
          [(''logs'', VStrs [no_commands_text]), (''error'', VStr no_commands_text)]
          (ce_stamp fin) (ce_final fin) (started r))"
        by (rule closing_outcome)
    qed (simp add: Inr True execute_task_def task_end_def started_def Let_def)
  next
    case False
    with Inr show thesis using ran
      by (simp add: execute_task_def task_end_def started_def Let_def)
  qed
qed

lemma register_keeps:
  "rn_reports (register_active_task t now r) = rn_reports r"
  "settled_metrics (register_active_task t now r) = settled_metrics r"
  "map_of (rn_active (register_active_task t now r)) k = None \<longleftrightarrow>
     k \<noteq> trim_space (task_id t) \<and> map_of (rn_active r) k = None"
  by (simp_all add: register_active_task_def settled_metrics_def go_map)

lemma unregister_keeps:
  "rn_reports (unregister_active_task i r) = rn_reports r"
  "settled_metrics (unregister_active_task i r) = settled_metrics r"
  "map_of (rn_active (unregister_active_task i r)) k = None \<longleftrightarrow>
     k = trim_space i \<or> map_of (rn_active r) k = None"
  by (simp_all add: unregister_active_task_def settled_metrics_def go_map)

lemma closing_settles: "closing p s x y \<Longrightarrow> s \<in> S \<Longrightarrow> settles p S x y"
  using settles_close [OF quiet_refl] .

subsection \<open>Undisturbed runs\<close>

definition no_stop_answer :: "(nat \<Rightarrow> call_outcome) \<Rightarrow> bool" where
  "no_stop_answer calls \<longleftrightarrow> (\<forall>k i s. calls k = CallAnswered i s \<longrightarrow> \<not> should_stop_local s)"

definition calm_command :: "cmd_env \<Rightarrow> bool" where
  "calm_command e \<longleftrightarrow> ce_before e = [] \<and> ce_during e = [] \<and> ce_after e = [] \<and> ce_error e = None
     \<and> no_stop_answer (ce_first e) \<and> no_stop_answer (ce_second e)"

definition calm_prepare :: "prep_env \<Rightarrow> bool" where
  "calm_prepare e \<longleftrightarrow> pe_during e = [] \<and> pe_after e = [] \<and> pe_error e = None \<and> no_stop_answer (pe_calls e)"

lemma retry_loop_answer:
  "retry_loop scope status stamp calls n a r = (Some (i, s), r') \<Longrightarrow> \<exists>k. calls k = CallAnswered i s"
  by (induction scope status stamp calls n a r rule: retry_loop.induct)
    (auto simp: Let_def split: call_outcome.splits if_splits)

lemma send_report_calm:
  assumes "send_report p status payload stamp calls x = (ans, y)" and "no_stop_answer calls"
  shows "\<not> told_to_stop ans" and "ex_ctx y = ex_ctx x"
proof -
  have "\<exists>k. calls k = CallAnswered i s" if "ans = Some (i, s)" for i s
    using assms(1) that
    by (auto simp: send_report_def task_callback_def with_callback_retry_def Let_def simp del: retry_loop.simps
        split: prod.splits option.splits if_splits dest: retry_loop_answer)
  then show "\<not> told_to_stop ans"
    using assms(2) by (auto simp: told_to_stop_def no_stop_answer_def split: option.splits)
  show "ex_ctx y = ex_ctx x" using assms(1) by (auto simp: send_report_def Let_def split: prod.splits)
qed

lemma update_task_ctx [simp]: "ex_ctx (update_task p now f x) = ex_ctx x"
  by (simp add: update_task_def)

lemma task_events_Nil [simp]: "task_events p hb [] x = x"
  by (simp add: task_events_def)

lemma execute_task_command_calm:
  assumes "calm_command e" and "ex_ctx x = CtxLive"
  shows "\<exists>y. execute_task_command p c ws k n e x = (True, y) \<and> ex_ctx y = CtxLive"
proof -
  let ?x1 = "update_task p (ce_now e) (\<lambda>a. a\<lparr>at_status := ''running'', at_command := c,
    at_index := k + 1, at_count := n, at_workspace := ws\<rparr>) x"
  obtain ans1 x2 where s1: "send_report p ''running''
      (extend_map (heartbeat_payload (agent_id (xp_cfg p)) c (k + 1) n (ce_stamp e))
        [(''workspacePath'', VStr ws), (''pipelineStage'', VStr (command_pipeline_stage c))])
      (ce_stamp e) (ce_first e) ?x1 = (ans1, x2)" by fastforce
  obtain ans2 x5 where s2: "send_report p ''running''
      (extend_map (heartbeat_payload (agent_id (xp_cfg p)) c (k + 1) n (ce_stamp e))
        [(''logs'', VStrs (command_logs c e)), (''workspacePath'', VStr ws),
         (''pipelineStage'', VStr (command_pipeline_stage c))])
      (ce_stamp e) (ce_second e) (x2\<lparr>ex_stop := None\<rparr>) = (ans2, x5)" by fastforce
  have "\<not> told_to_stop ans1" "ex_ctx x2 = CtxLive" "\<not> told_to_stop ans2" "ex_ctx x5 = CtxLive"
    using send_report_calm [OF s1] send_report_calm [OF s2] assms by (simp_all add: calm_command_def)
  with assms(1) show ?thesis
    by (simp add: execute_task_command_def Let_def s1 s2 calm_command_def drain_stop_def)
qed

lemma run_commands_calm:
  "(\<And>k. calm_command (env k)) \<Longrightarrow> ex_ctx x = CtxLive \<Longrightarrow>
   \<exists>y. run_commands p ws k n cs env x = (True, y)"
proof (induction cs arbitrary: k x)
  case (Cons c cs)
  obtain y where "execute_task_command p c ws (int k) n (env k) x = (True, y)" "ex_ctx y = CtxLive"
    using execute_task_command_calm [OF Cons.prems(1) Cons.prems(2)] by blast
  with Cons show ?case by simp
qed simp

lemma prepare_step_calm:
  assumes "calm_prepare e" and "ex_ctx x = CtxLive"
  shows "\<exists>y. prepare_step p e x = (True, y) \<and> ex_ctx y = CtxLive"
proof -
  let ?x21 = "update_task p (pe_now e) (\<lambda>a. a\<lparr>at_status := ''running'', at_workspace := pe_path e\<rparr>)
    (update_task p (pe_now e) (\<lambda>a. a\<lparr>at_status := ''preparing''\<rparr>) x)"
  obtain ans x22 where send: "send_report p ''running''
      [(''logs'', VStrs (pe_logs e)), (''agentId'', VStr (agent_id (xp_cfg p))),
       (''workspacePath'', VStr (pe_path e)), (''heartbeatAt'', VStr (pe_stamp e))]
      (pe_stamp e) (pe_calls e) ?x21 = (ans, x22)" by fastforce
  have "\<not> told_to_stop ans" "ex_ctx x22 = CtxLive"
    using send_report_calm [OF send] assms by (simp_all add: calm_prepare_def)
  with assms show ?thesis by (auto simp: prepare_step_def Let_def send calm_prepare_def)
qed

lemma run_task_calm:
  assumes "calm_prepare e" and "\<And>k. calm_command (env k)" and "ex_ctx x = CtxLive"
  shows "\<exists>m. run_task p commands e env fin x
    = outcome_report p ''completed'' (completed_payload p e (ce_stamp fin) commands) (ce_stamp fin) (ce_final fin) m
    \<and> quiet p x m"
proof -
  obtain x1 where prep: "prepare_step p e x = (True, x1)" "ex_ctx x1 = CtxLive"
    using prepare_step_calm [OF assms(1,3)] by blast
  obtain x2 where cmds: "run_commands p (pe_path e) 0 (int (length commands)) commands env x1 = (True, x2)"
    using run_commands_calm [of env x1 p "pe_path e" 0 "int (length commands)" commands, OF assms(2) prep(2)]
    by blast
  have "quiet p x x1" "quiet p x1 x2"
    using prepare_step_settles [OF prep(1)] run_commands_settles [OF cmds] by simp_all
  from quiet_trans [OF quiet_trans [OF this] quiet_update_task] show ?thesis
    using prep cmds by (auto simp: run_task_def Let_def)
qed

lemma cancel_in_preparation:
  assumes logs: "pe_logs e = []" and err: "pe_error e = Some err"
    and ev: "pe_during e = [EvCancel (task_id (xp_task p)) reason t]" and live: "ex_ctx x = CtxLive"
  shows "\<exists>m payload. run_task p commands e env fin x
    = outcome_report p ''failed'' payload (pe_stamp e) (pe_final e) m \<and> quiet p x m"
proof -
  define x1 where "x1 = update_task p (pe_now e) (\<lambda>a. a\<lparr>at_status := ''preparing''\<rparr>) x"
  define x2 where "x2 = on_event p [] x1 (EvCancel (task_id (xp_task p)) reason t)"
  have "ex_ctx x1 = CtxLive" using live by (simp add: x1_def)
  then have "ex_ctx x2 \<noteq> CtxDeadline" by (auto simp: x2_def end_ctx_def Let_def split: prod.splits)
  moreover have step: "prepare_step p e x = (False, prepare_failure p e err x2)"
    using logs err ev by (simp add: prepare_step_def Let_def task_events_def x1_def x2_def)
  moreover have "quiet p x x2"
    unfolding x2_def x1_def by (rule quiet_trans [OF quiet_update_task quiet_on_event])
  ultimately show ?thesis
    using quiet_trans [OF \<open>quiet p x x2\<close> quiet_update_task]
    by (auto simp: run_task_def prepare_failure_def Let_def)
qed

lemma run_task_outcome:
  assumes "run_task (p\<lparr>xp_secrets := secrets\<rparr>) (extract_commands (gn_text (xp_num p)) (task_payload (xp_task p))) e env fin
      ((started r)\<lparr>ex_runner := register_active_task (xp_task p) (ce_now fin) (ex_runner (started r))\<rparr>)
    = outcome_report (p\<lparr>xp_secrets := secrets\<rparr>) status payload stamp calls m"
    and "quiet (p\<lparr>xp_secrets := secrets\<rparr>)
      ((started r)\<lparr>ex_runner := register_active_task (xp_task p) (ce_now fin) (ex_runner (started r))\<rparr>) m"
    and "extract_commands (gn_text (xp_num p)) (task_payload (xp_task p)) \<noteq> []"
  shows "settled_metrics (execute_task p (Inr secrets) e env fin r)
      = count_outcome status (settled_metrics (mark_started scope_execution r))"
proof -
  have "settled_metrics (ex_runner (outcome_report (p\<lparr>xp_secrets := secrets\<rparr>) status payload stamp calls m))
      = count_outcome status (settled_metrics (ex_runner m))"
    using closing_outcome by (simp add: closing_def)
  moreover have "settled_metrics (ex_runner m) = settled_metrics (mark_started scope_execution r)"
    using assms(2) by (simp add: quiet_def register_keeps started_def)
  ultimately show ?thesis using assms(1,3)
    by (simp add: execute_task_def started_def unregister_keeps Let_def)
qed

lemma execute_task_calm:
  assumes "calm_prepare e" and "\<And>k. calm_command (env k)"
    and cs: "extract_commands (gn_text (xp_num p)) (task_payload (xp_task p)) \<noteq> []"
  shows "settled_metrics (execute_task p (Inr secrets) e env fin r)
      = count_outcome ''completed'' (settled_metrics (mark_started scope_execution r))"
proof -
  let ?x = "(started r)\<lparr>ex_runner := register_active_task (xp_task p) (ce_now fin) (ex_runner (started r))\<rparr>"
  have "ex_ctx ?x = CtxLive" by (simp add: started_def)
  from run_task_calm [of e env ?x "p\<lparr>xp_secrets := secrets\<rparr>"
      "extract_commands (gn_text (xp_num p)) (task_payload (xp_task p))" fin, OF assms(1,2) this]
  show ?thesis using run_task_outcome [OF _ _ cs] by blast
qed

subsection \<open>A concrete execution\<close>

definition sample_params :: exec_params where
  "sample_params = \<lparr>xp_cfg = \<lparr>rc_agent = ''a1'', rc_attempts = 2, rc_backoff = 0, rc_timeout = minute, rc_root = []\<rparr>,
     xp_num = sample_num, xp_registry = (\<lambda>s. []), xp_secrets = [],
     xp_task = sample_task\<lparr>task_payload := [(''commands'', VStrs [''make'']), (''image'', VStr ''web:1'')]\<rparr>,
     xp_duration_text = (\<lambda>d. ''1m'')\<rparr>"

definition sample_calls :: "nat \<Rightarrow> call_outcome" where
  "sample_calls k = CallAnswered ''t1'' ''running''"

definition sample_cmd :: cmd_env where
  "sample_cmd = \<lparr>ce_first = sample_calls, ce_before = [], ce_during = [], ce_stdout = ''token=abc'',
     ce_stderr = [], ce_error = None, ce_second = sample_calls, ce_after = [], ce_final = sample_calls,
     ce_stamp = ''now'', ce_now = 1\<rparr>"

definition sample_prep :: prep_env where
  "sample_prep = \<lparr>pe_path = ''/ws/app'', pe_dir = ''/ws/app'', pe_artifacts = [], pe_logs = [''ready''],
     pe_error = None, pe_digest = [], pe_during = [], pe_calls = sample_calls, pe_after = [],
     pe_final = sample_calls, pe_stamp = ''now'', pe_now = 1\<rparr>"

definition zero_metrics :: metric_set where
  "zero_metrics = \<lparr>ms_claims = 0, ms_misses = 0, ms_started = 0, ms_heartbeats = 0, ms_attempts = 0,
     ms_failures = 0, ms_finals = 0, ms_completed = 0, ms_failed = 0, ms_canceled = 0, ms_timed_out = 0,
     ms_denied = 0, ms_last_heartbeat = [], ms_last_callback = []\<rparr>"

definition idle_runner :: runner where
  "idle_runner = \<lparr>rn_capacity = 1, rn_slots = 0, rn_active = [],
     rn_metrics = \<lparr>rm_execution = zero_metrics, rm_docker = zero_metrics, rm_agent = zero_metrics\<rparr>,
     rn_reports = []\<rparr>"

definition sample_run :: runner where
  "sample_run = execute_task sample_params (Inr []) sample_prep (\<lambda>k. sample_cmd) sample_cmd idle_runner"

lemma sample_calm: "calm_prepare sample_prep" "calm_command sample_cmd" "no_stop_answer sample_calls"
proof -
  have "\<not> should_stop_local ''running''" by code_simp
  then show "no_stop_answer sample_calls" by (simp add: no_stop_answer_def sample_calls_def)
  then show "calm_prepare sample_prep" "calm_command sample_cmd"
    by (simp_all add: calm_prepare_def calm_command_def sample_prep_def sample_cmd_def)
qed

lemma sample_commands: "extract_commands (gn_text (xp_num sample_params)) (task_payload (xp_task sample_params)) = [''make'']"
  by (simp add: sample_params_def extract_commands_def map_get_def)

lemma sample_started: "settled_metrics (mark_started scope_execution idle_runner) = zero_metrics\<lparr>ms_started := 1\<rparr>"
  by (simp add: settled_metrics_def mark_started_def with_scope_def idle_runner_def zero_metrics_def)

lemma settled_completed: "ms_completed (rm_execution (rn_metrics s)) = ms_completed (settled_metrics s)"
  by (simp add: settled_metrics_def)

lemma sample_run_completed:
  "ms_completed (rm_execution (rn_metrics sample_run)) = 1"
proof -
  have "settled_metrics sample_run = count_outcome ''completed'' (zero_metrics\<lparr>ms_started := 1\<rparr>)"
    unfolding sample_run_def sample_started [symmetric]
    by (rule execute_task_calm) (simp_all add: sample_calm sample_commands)
  moreover have "ms_completed (count_outcome ''completed'' (zero_metrics\<lparr>ms_started := 1\<rparr>)) = 1"
    by code_simp
  ultimately show ?thesis using settled_completed [of sample_run] by simp
qed

subsection \<open>Properties\<close>

text \<open>C12: however commands end and whatever arrives meanwhile, a task's execution sends progress
  reports and then at most one final report, whose status is completed, failed, canceled or timed
  out; the outcome counters grow by exactly that report, and the started counter by one.\<close>

theorem execute_task_reports:
  "\<exists>running final. rn_reports (execute_task p redeemed e env fin r) = rn_reports r @ running @ final
    \<and> (\<forall>rep \<in> set running. rep_status rep = ''running'') \<and> length final \<le> 1
    \<and> rep_status ` set final \<subseteq> {''completed'', ''canceled'', ''callback_timeout'', ''failed''}
    \<and> settled_metrics (execute_task p redeemed e env fin r)
        = foldl (\<lambda>m rep. count_outcome (rep_status rep) m)
            (settled_metrics (mark_started scope_execution r)) final"
proof (cases rule: execute_task_shape [of p redeemed r e env fin])
  case (early y)
  have "settles (task_end p redeemed) {''failed''} (started r) y"
    by (rule closing_settles [OF early(1)]) simp
  from settles_reports [OF this] early(2) show ?thesis
    by (simp add: started_def mark_keeps) blast
next
  case (ran secrets x)
  let ?cs = "extract_commands (gn_text (xp_num p)) (task_payload (xp_task p))"
  have "settles (task_end p redeemed) (insert ''completed'' stop_statuses) x
      (run_task (task_end p redeemed) ?cs e env fin x)"
    using run_task_settles [of "task_end p redeemed" x ?cs e env fin]
    by (auto intro: settles_mono settles_close)
  from settles_reports [OF this] ran(3,4) show ?thesis
    by (simp add: unregister_keeps register_keeps started_def mark_keeps) blast
qed

theorem execute_task_reports_witness:
  "ms_failed (settled_metrics (execute_task sample_params (Inl InvalidGrant) sample_prep (\<lambda>k. sample_cmd) sample_cmd idle_runner)) \<le> 1"
proof -
  let ?r = "execute_task sample_params (Inl InvalidGrant) sample_prep (\<lambda>k. sample_cmd) sample_cmd idle_runner"
  have one: "ms_failed (count_outcome s (zero_metrics\<lparr>ms_started := 1\<rparr>)) \<le> 1" for s
    by (simp add: count_outcome_def Let_def zero_metrics_def)
  note all = execute_task_reports [of sample_params "Inl InvalidGrant" sample_prep "\<lambda>k. sample_cmd"
      sample_cmd idle_runner, unfolded sample_started]
  obtain final :: "report list" where len: "length final \<le> 1" and val: "settled_metrics ?r
      = foldl (\<lambda>m rep. count_outcome (rep_status rep) m) (zero_metrics\<lparr>ms_started := 1\<rparr>) final"
    using all by (elim exE conjE) (rule that, assumption+)
  show ?thesis
  proof (cases final)
    case Nil
    with val show ?thesis by (simp add: zero_metrics_def)
  next
    case (Cons rep rest)
    with len val one [of "rep_status rep"] show ?thesis by simp
  qed
qed

text \<open>C22: a task counts as completed only if its lease was redeemed, its payload held commands, its
  workspace was prepared and every one of its commands ran to its end without error.\<close>

theorem execute_task_completed_only_if:
  assumes "ms_completed (rm_execution (rn_metrics (execute_task p redeemed e env fin r)))
    \<noteq> ms_completed (rm_execution (rn_metrics r))"
  shows "redeemed \<in> range Inr \<and> pe_error e = None
    \<and> extract_commands (gn_text (xp_num p)) (task_payload (xp_task p)) \<noteq> []
    \<and> (\<forall>j < length (extract_commands (gn_text (xp_num p)) (task_payload (xp_task p))). ce_error (env j) = None)"
proof -
  have started: "ms_completed (settled_metrics (ex_runner (started r))) = ms_completed (settled_metrics r)"
    by (simp add: started_def settled_metrics_def mark_started_def with_scope_def Let_def)
  have others: "ms_completed (count_outcome s m) = ms_completed m" if "s \<in> stop_statuses" for s m
  proof -
    have "trim_space ''canceled'' = ''canceled''" "trim_space ''failed'' = ''failed''"
      "trim_space ''callback_timeout'' = ''callback_timeout''" by code_simp+
    then show ?thesis using that by (auto simp: count_outcome_def Let_def)
  qed
  have same: "ms_completed (settled_metrics (ex_runner z)) = ms_completed (settled_metrics (ex_runner x))"
    if "settles q stop_statuses x z" for q x z
    using that others by (auto simp: settles_def quiet_def closing_def)
  show ?thesis
  proof (cases rule: execute_task_shape [of p redeemed r e env fin])
    case (early y)
    have "settles (task_end p redeemed) stop_statuses (started r) y"
      by (rule closing_settles [OF early(1)]) simp
    from same [OF this] early(2) assms started show ?thesis by (simp add: settled_completed)
  next
    case (ran secrets x)
    let ?cs = "extract_commands (gn_text (xp_num p)) (task_payload (xp_task p))"
    have "\<not> settles (task_end p redeemed) stop_statuses x (run_task (task_end p redeemed) ?cs e env fin x)"
    proof
      assume "settles (task_end p redeemed) stop_statuses x (run_task (task_end p redeemed) ?cs e env fin x)"
      from same [OF this] ran assms started show False by (simp add: settled_completed unregister_keeps register_keeps)
    qed
    with run_task_settles [of "task_end p redeemed" x ?cs e env fin] ran(1,2) show ?thesis by auto
  qed
qed

theorem execute_task_completed_only_if_witness:
  "pe_error sample_prep = None \<and> ce_error sample_cmd = None"
proof -
  have "ms_completed (rm_execution (rn_metrics sample_run)) \<noteq> ms_completed (rm_execution (rn_metrics idle_runner))"
    using sample_run_completed by (simp add: idle_runner_def zero_metrics_def)
  from execute_task_completed_only_if [OF this [unfolded sample_run_def]]
  show ?thesis by (simp add: sample_commands)
qed

text \<open>A run that nothing disturbs completes: with a prepared workspace, commands that succeed, no
  cancellation, deadline or stop answer, the task is counted as completed, once.\<close>

theorem execute_task_completes:
  assumes "calm_prepare e" and "\<And>k. calm_command (env k)"
    and "extract_commands (gn_text (xp_num p)) (task_payload (xp_task p)) \<noteq> []"
  shows "settled_metrics (execute_task p (Inr secrets) e env fin r)
      = count_outcome ''completed'' (settled_metrics (mark_started scope_execution r))"
  by (rule execute_task_calm [OF assms])

theorem execute_task_completes_witness:
  "settled_metrics sample_run = count_outcome ''completed'' (zero_metrics\<lparr>ms_started := 1\<rparr>)"
  unfolding sample_run_def sample_started [symmetric]
  by (rule execute_task_completes) (simp_all add: sample_calm sample_commands)

text \<open>A task cancelled through the local API while its workspace is being prepared, when the
  preparation then fails because of it, is counted and reported as failed, not as cancelled.\<close>

theorem cancel_in_preparation_fails:
  assumes "extract_commands (gn_text (xp_num p)) (task_payload (xp_task p)) \<noteq> []"
    and "pe_during e = [EvCancel (task_id (xp_task p)) reason t]" and "pe_logs e = []" and "pe_error e = Some err"
  shows "settled_metrics (execute_task p (Inr secrets) e env fin r)
      = count_outcome ''failed'' (settled_metrics (mark_started scope_execution r))"
proof -
  let ?q = "p\<lparr>xp_secrets := secrets\<rparr>"
  let ?x = "(started r)\<lparr>ex_runner := register_active_task (xp_task p) (ce_now fin) (ex_runner (started r))\<rparr>"
  have "ex_ctx ?x = CtxLive" "pe_during e = [EvCancel (task_id (xp_task ?q)) reason t]"
    using assms(2) by (simp_all add: started_def)
  from cancel_in_preparation [OF assms(3,4) this(2) this(1)] run_task_outcome [OF _ _ assms(1)]
  show ?thesis by blast
qed

theorem cancel_in_preparation_fails_witness:
  "settled_metrics (execute_task sample_params (Inr []) (sample_prep\<lparr>pe_logs := [],
      pe_during := [EvCancel (task_id (xp_task sample_params)) ''stop'' 2], pe_error := Some ''signal: killed''\<rparr>)
      (\<lambda>k. sample_cmd) sample_cmd idle_runner)
    = count_outcome ''failed'' (zero_metrics\<lparr>ms_started := 1\<rparr>)"
  unfolding sample_started [symmetric]
  by (rule cancel_in_preparation_fails) (simp_all add: sample_commands)

text \<open>When execution is over the task is no longer active, and the presence of every other task in
  the table of active tasks is as it was.\<close>

theorem execute_task_unregisters:
  assumes "map_of (rn_active r) (trim_space (task_id (xp_task p))) = None"
  shows "get_active_task (execute_task p redeemed e env fin r) (task_id (xp_task p)) = None
    \<and> same_tasks r (execute_task p redeemed e env fin r)"
proof (cases rule: execute_task_shape [of p redeemed r e env fin])
  case (early y)
  have "settles (task_end p redeemed) {''failed''} (started r) y"
    by (rule closing_settles [OF early(1)]) simp
  from settles_reports [OF this] early(2) assms show ?thesis
    by (auto simp: started_def same_tasks_def mark_keeps get_active_task_def)
next
  case (ran secrets x)
  let ?cs = "extract_commands (gn_text (xp_num p)) (task_payload (xp_task p))"
  have "settles (task_end p redeemed) (insert ''completed'' stop_statuses) x
      (run_task (task_end p redeemed) ?cs e env fin x)"
    using run_task_settles [of "task_end p redeemed" x ?cs e env fin]
    by (auto intro: settles_mono settles_close)
  let ?z = "ex_runner (run_task (task_end p redeemed) ?cs e env fin x)"
  from settles_reports [OF \<open>settles _ _ _ _\<close>] have same: "same_tasks (ex_runner x) ?z" by blast
  have reg: "map_of (rn_active (ex_runner x)) k = None \<longleftrightarrow>
      k \<noteq> trim_space (task_id (xp_task p)) \<and> map_of (rn_active r) k = None" for k
    by (simp add: ran(3) started_def register_keeps mark_keeps)
  have run: "map_of (rn_active ?z) k = None \<longleftrightarrow>
      k \<noteq> trim_space (task_id (xp_task p)) \<and> map_of (rn_active r) k = None" for k
    using same [unfolded same_tasks_def] reg by simp
  have "map_of (rn_active (execute_task p redeemed e env fin r)) k = None \<longleftrightarrow>
      k = trim_space (task_id (xp_task p)) \<or> map_of (rn_active r) k = None" for k
    unfolding ran(4) unregister_keeps(3) run by (cases "k = trim_space (task_id (xp_task p))") simp_all
  then show ?thesis using assms by (auto simp: same_tasks_def get_active_task_def)
qed

theorem execute_task_unregisters_witness:
  "get_active_task sample_run ''t1'' = None"
proof -
  have "task_id (xp_task sample_params) = ''t1''" by (simp add: sample_params_def sample_task_def)
  with execute_task_unregisters [of idle_runner sample_params "Inr []" sample_prep "\<lambda>k. sample_cmd" sample_cmd]
  show ?thesis by (simp add: sample_run_def idle_runner_def)
qed

text \<open>C3: no report of a task whose lease was redeemed contains, in any string value of its payload at any depth,
  a leased secret that redaction can remove: one that is not empty, has no brackets and is no part of the word
  that replaces it, \<^verbatim>\<open>REDACTED\<close>. The keys of the payload are not redacted and not covered.\<close>

theorem execute_task_keeps_secrets:
  assumes "(alias, secret) \<in> set secrets" and "removable secret"
    and "rn_reports (execute_task p (Inr secrets) e env fin r) = rn_reports r @ sent"
    and "rep \<in> set sent" and "holds_text (rep_payload rep) t"
  shows "\<not> contains t secret"
proof -
  let ?q = "task_end p (Inr secrets)"
  have "\<exists>x y S. settles ?q S x y \<and> rn_reports (ex_runner x) = rn_reports r
      \<and> rn_reports (ex_runner y) = rn_reports (execute_task p (Inr secrets) e env fin r)"
  proof (cases rule: execute_task_shape [of p "Inr secrets" r e env fin])
    case (early y)
    have "settles ?q {''failed''} (started r) y" by (rule closing_settles [OF early(1)]) simp
    with early(2) show ?thesis
      by (intro exI [of _ "started r"] exI [of _ y]) (auto simp: started_def mark_keeps)
  next
    case (ran secrets' x)
    let ?cs = "extract_commands (gn_text (xp_num p)) (task_payload (xp_task p))"
    have "settles ?q (insert ''completed'' stop_statuses) x (run_task ?q ?cs e env fin x)"
      using run_task_settles [of ?q x ?cs e env fin] by (auto intro: settles_mono settles_close)
    with ran show ?thesis
      by (intro exI [of _ x] exI [of _ "run_task ?q ?cs e env fin x"])
        (auto simp: started_def mark_keeps register_keeps unregister_keeps)
  qed
  then obtain x y S where "settles ?q S x y" and x: "rn_reports (ex_runner x) = rn_reports r"
    and y: "rn_reports (ex_runner y) = rn_reports r @ sent" using assms(3) by auto
  from settles_reports [OF this(1)] x y assms(4) have "report_ok ?q rep" by auto
  then obtain v where "rep_payload rep = redact_secret_value (xp_registry p) secrets v"
    by (auto simp: report_ok_def task_end_def)
  then have "holds_text (redact_secret_value (xp_registry p) secrets v) t" using assms(5) by simp
  then have "holds_text (map_texts (redact_secret_text (xp_registry p) secrets) v) t"
    using assms(1) by (auto simp: redact_secret_value_def split: if_splits)
  from map_texts_image [OF this refl] obtain s where "t = redact_secret_text (xp_registry p) secrets s"
    by blast
  with redact_secret_text_removes [OF assms(1,2)] show ?thesis by simp
qed

definition leak_rep :: report where
  "leak_rep = hd (rn_reports (execute_task (sample_params\<lparr>xp_task := sample_task\<rparr>) (Inr [(''K'', ''commands'')])
     sample_prep (\<lambda>k. sample_cmd) sample_cmd idle_runner))"

theorem execute_task_keeps_secrets_witness:
  "\<not> contains ''no executable [REDACTED] were found in task payload'' ''commands''"
proof (rule execute_task_keeps_secrets)
  let ?r = "execute_task (sample_params\<lparr>xp_task := sample_task\<rparr>) (Inr [(''K'', ''commands'')])
     sample_prep (\<lambda>k. sample_cmd) sample_cmd idle_runner"
  show "(''K'', ''commands'') \<in> set [(''K'', ''commands'')]" by simp
  show "removable ''commands''" by code_simp
  show "rn_reports ?r = rn_reports idle_runner @ rn_reports ?r" by (simp add: idle_runner_def)
  have val: "map rep_payload (rn_reports ?r) = [VMap
      [(''logs'', VStrs [''no executable [REDACTED] were found in task payload'']),
       (''error'', VStr ''no executable [REDACTED] were found in task payload'')]]"
    by code_simp
  then have ne: "rn_reports ?r \<noteq> []" by auto
  then show "leak_rep \<in> set (rn_reports ?r)" unfolding leak_rep_def by (rule hd_in_set)
  have "rep_payload leak_rep = hd (map rep_payload (rn_reports ?r))"
    unfolding leak_rep_def using ne by (simp add: hd_map)
  then show "holds_text (rep_payload leak_rep) ''no executable [REDACTED] were found in task payload''"
    unfolding val by (auto intro!: holds_text.intros)
qed

end
