(* ===== verification/ProviderRegistry.thy ===== *)
theory ProviderRegistry
  imports SohaPrelude "HOL-Library.Word"
begin

text \<open>
  The registry of agent providers, \<^verbatim>\<open>internal/agent/runner/provider_registry.go\<close>: validation of
  catalog snapshots, activation and roll back, and the runs that hold a provider.

  Go copies every snapshot it keeps or hands out (\<^verbatim>\<open>cloneAgentProviderRegistry\<close>); values of HOL need
  no copies. An operation holds the registry's mutex while it reads or writes, so each one is a
  function of the state; \<^verbatim>\<open>ApplyDesired\<close> validates and probes before it takes the mutex, but
  neither looks at the state, so the call takes effect where the mutex is taken. Parameters are the
  digest of a snapshot (\<^verbatim>\<open>encoding/json\<close> and \<^verbatim>\<open>crypto/sha256\<close>), the parsed form of an
  endpoint (\<^verbatim>\<open>net/url\<close>) and what a conformance probe finds.
\<close>

subsection \<open>Data\<close>

record command_spec =
  cs_command :: string
  cs_args :: "string list"
  cs_prompt :: string
  cs_skill :: string
  cs_provider_skill :: string

record provider_runtime =
  pr_kind :: string
  pr_spec :: command_spec
  pr_image :: string
  pr_endpoint :: string
  pr_health :: string

record provider =
  pv_schema :: string
  pv_id :: string
  pv_kind :: string
  pv_display :: string
  pv_plugin :: string
  pv_plugin_version :: string
  pv_version :: string
  pv_protocol :: string
  pv_runtime :: provider_runtime
  pv_default :: command_spec
  pv_capabilities :: "string list"
  pv_gateway :: "string list"
  pv_scopes :: "string list"
  pv_secrets :: "string list"
  pv_draining :: bool

record fleet_target =
  ft_environments :: "string list"
  ft_platforms :: "string list"
  ft_architectures :: "string list"
  ft_labels :: "(string \<times> string) list"

record fleet_identity =
  fi_runner :: string
  fi_environment :: string
  fi_platform :: string
  fi_architecture :: string
  fi_labels :: "(string \<times> string) list"

record catalog =
  cat_schema :: string
  cat_revision :: "64 word"
  cat_digest :: string
  cat_issued :: gotime
  cat_providers :: "provider list"
  cat_target :: fleet_target

record provider_status =
  st_provider :: string
  st_version :: string
  st_catalog :: "64 word"
  st_health :: string
  st_draining :: bool
  st_runs :: int
  st_reason :: string
  st_observed :: gotime

record conformance =
  cf_provider :: string
  cf_status :: string
  cf_reason :: string

record registry =
  rg_current :: catalog
  rg_previous :: "catalog option"
  rg_statuses :: "(string \<times> provider_status) list"

datatype catalog_error =
    UnsupportedCatalog string | NoRevision | TooManyProviders | DigestUnavailable string | DigestMismatch
  | UnsupportedProvider string string | NoProviderId | NoProviderKind string | DuplicateId string
  | DuplicateKind string | NoProviderVersion string | NoProtocol string | NoCommand string
  | NoImage string | BadEndpoint string | UnsupportedRuntime string string | NoCapabilityId string
  | DuplicateCapability string string | UnboundedSecret string

datatype apply_reason =
    NoReason | Invalid catalog_error | NotTargeted | NotConformant
  | StaleRevision "64 word" "64 word" | ActiveRuns string int string | NoPrevious

datatype rollout = Rejected | SkippedNotTargeted | ConformanceFailed | Active | BlockedDraining
  | RollbackRejected | RolledBack

record apply_result =
  ar_accepted :: bool
  ar_targeted :: bool
  ar_revision :: "64 word"
  ar_desired :: "64 word"
  ar_active :: "64 word"
  ar_lkg :: "64 word"
  ar_previous :: "64 word"
  ar_state :: rollout
  ar_rolled_back :: bool
  ar_reason :: apply_reason
  ar_checks :: "conformance list"
  ar_observed :: gotime

datatype run_error = NotActiveRevision | ProviderDraining string | ProviderNotHealthy string
  | ProviderNotActive string string

datatype health_error = UnsupportedHealth string | HealthNotActive string

text \<open>A parsed URL: scheme, host, and whether it has user information.\<close>

record parsed_url =
  pu_scheme :: string
  pu_host :: string
  pu_user :: bool

abbreviation (input) max_providers :: nat where "max_providers \<equiv> 128"
abbreviation registry_schema :: string where
  "registry_schema \<equiv> ''opensoha.dev/agent-provider-registry/v1''"
abbreviation provider_schema :: string where
  "provider_schema \<equiv> ''opensoha.dev/agent-provider-definition/v1''"

definition hermes_command :: command_spec where
  "hermes_command = \<lparr>cs_command = ''hermes'', cs_args = [''chat'', ''-Q''], cs_prompt = ''-q'',
     cs_skill = [], cs_provider_skill = ''-s''\<rparr>"

definition hermes_provider :: provider where
  "hermes_provider = \<lparr>pv_schema = provider_schema, pv_id = ''hermes'', pv_kind = ''hermes'',
     pv_display = ''Hermes Agent'', pv_plugin = [], pv_plugin_version = [], pv_version = ''builtin-v1'',
     pv_protocol = ''opensoha.agent-provider.cli/v1'',
     pv_runtime = \<lparr>pr_kind = ''cli'', pr_spec = hermes_command, pr_image = [], pr_endpoint = [], pr_health = []\<rparr>,
     pv_default = hermes_command,
     pv_capabilities = [''root_cause'', ''release_verification'', ''incident_handoff''],
     pv_gateway = [], pv_scopes = [''application'', ''environment'', ''cluster'', ''namespace''],
     pv_secrets = [], pv_draining = False\<rparr>"

abbreviation any_target :: fleet_target where
  "any_target \<equiv> \<lparr>ft_environments = [], ft_platforms = [], ft_architectures = [], ft_labels = []\<rparr>"

definition default_catalog :: "(catalog \<Rightarrow> string + string) \<Rightarrow> catalog" where
  "default_catalog digest =
     (let c = \<lparr>cat_schema = registry_schema, cat_revision = 1, cat_digest = [], cat_issued = zero_time,
        cat_providers = [hermes_provider], cat_target = any_target\<rparr>
      in c\<lparr>cat_digest := case_sum (\<lambda>_. []) id (digest c)\<rparr>)"

subsection \<open>Validation\<close>

definition provider_command :: "provider \<Rightarrow> command_spec" where
  "provider_command p =
     (if trim_space (cs_command (pr_spec (pv_runtime p))) \<noteq> [] then pr_spec (pv_runtime p) else pv_default p)"

definition validate_provider_runtime :: "(string \<Rightarrow> parsed_url option) \<Rightarrow> provider \<Rightarrow> catalog_error option" where
  "validate_provider_runtime url p =
     (let kind = pr_kind (pv_runtime p) in
      if kind = ''cli'' then
        (if trim_space (cs_command (provider_command p)) = [] then Some (NoCommand (pv_id p)) else None)
      else if kind = ''container'' then
        (if trim_space (pr_image (pv_runtime p)) = [] then Some (NoImage (pv_id p)) else None)
      else if kind = ''remote'' then
        (case url (pr_endpoint (pv_runtime p)) of
           None \<Rightarrow> Some (BadEndpoint (pv_id p))
         | Some u \<Rightarrow> if pu_scheme u \<noteq> ''https'' \<or> pu_host u = [] \<or> pu_user u then Some (BadEndpoint (pv_id p)) else None)
      else Some (UnsupportedRuntime (pv_id p) kind))"

fun check_capabilities :: "string \<Rightarrow> string list \<Rightarrow> string list \<Rightarrow> catalog_error option" where
  "check_capabilities i seen [] = None"
| "check_capabilities i seen (c # cs) =
     (let n = to_lower (trim_space c) in
      if n = [] then Some (NoCapabilityId i)
      else if n \<in> set seen then Some (DuplicateCapability i n)
      else check_capabilities i (n # seen) cs)"

definition validate_provider_bindings :: "provider \<Rightarrow> catalog_error option" where
  "validate_provider_bindings p =
     (case check_capabilities (pv_id p) [] (pv_capabilities p) of
        Some e \<Rightarrow> Some e
      | None \<Rightarrow>
          if \<exists>s \<in> set (pv_secrets p). \<not> has_prefix s ''secret:'' \<or> 247 < length s
          then Some (UnboundedSecret (pv_id p)) else None)"

text \<open>The two sets of names seen so far are passed on; Go keeps them in maps.\<close>

definition validate_provider ::
  "(string \<Rightarrow> parsed_url option) \<Rightarrow> string list \<Rightarrow> string list \<Rightarrow> provider \<Rightarrow>
   catalog_error + (string list \<times> string list)" where
  "validate_provider url ids kinds p =
     (let i = to_lower (trim_space (pv_id p)); k = to_lower (trim_space (pv_kind p)) in
      if pv_schema p \<noteq> provider_schema then Inl (UnsupportedProvider (pv_id p) (pv_schema p))
      else if i = [] then Inl NoProviderId
      else if k = [] then Inl (NoProviderKind (pv_id p))
      else if i \<in> set ids then Inl (DuplicateId i)
      else if k \<in> set kinds then Inl (DuplicateKind k)
      else if trim_space (pv_version p) = [] then Inl (NoProviderVersion (pv_id p))
      else if trim_space (pv_protocol p) = [] then Inl (NoProtocol (pv_id p))
      else case validate_provider_runtime url p of
        Some e \<Rightarrow> Inl e
      | None \<Rightarrow>
          (case validate_provider_bindings p of
             Some e \<Rightarrow> Inl e
           | None \<Rightarrow> Inr (i # ids, k # kinds)))"

fun validate_providers ::
  "(string \<Rightarrow> parsed_url option) \<Rightarrow> string list \<Rightarrow> string list \<Rightarrow> provider list \<Rightarrow> catalog_error option" where
  "validate_providers url ids kinds [] = None"
| "validate_providers url ids kinds (p # ps) =
     (case validate_provider url ids kinds p of
        Inl e \<Rightarrow> Some e
      | Inr (ids', kinds') \<Rightarrow> validate_providers url ids' kinds' ps)"

definition validate_digest :: "(catalog \<Rightarrow> string + string) \<Rightarrow> catalog \<Rightarrow> catalog_error option" where
  "validate_digest digest c =
     (if trim_space (cat_digest c) = [] then None
      else case digest (c\<lparr>cat_digest := []\<rparr>) of
        Inl e \<Rightarrow> Some (DigestUnavailable e)
      | Inr want \<Rightarrow> if equal_fold (trim_space (cat_digest c)) want then None else Some DigestMismatch)"

definition validate_catalog ::
  "(catalog \<Rightarrow> string + string) \<Rightarrow> (string \<Rightarrow> parsed_url option) \<Rightarrow> catalog \<Rightarrow> catalog_error option" where
  "validate_catalog digest url c =
     (if cat_schema c \<noteq> registry_schema then Some (UnsupportedCatalog (cat_schema c))
      else if cat_revision c = 0 then Some NoRevision
      else if max_providers < length (cat_providers c) then Some TooManyProviders
      else case validate_digest digest c of
        Some e \<Rightarrow> Some e
      | None \<Rightarrow> validate_providers url [] [] (cat_providers c))"

subsection \<open>Fleet targets\<close>

definition normalize_fleet :: "string \<Rightarrow> string" where
  "normalize_fleet v = to_lower (trim_space v)"

definition normalized_list_matches :: "string list \<Rightarrow> string \<Rightarrow> bool" where
  "normalized_list_matches allowed actual \<longleftrightarrow>
     allowed = [] \<or> normalize_fleet actual \<in> normalize_fleet ` set allowed"

text \<open>A later entry replaces an earlier one with the same normalised key; a missing key reads as empty.\<close>

definition normalized_labels :: "(string \<times> string) list \<Rightarrow> (string \<times> string) list" where
  "normalized_labels labels =
     foldl (\<lambda>m (k, v). AList.update (normalize_fleet k) (normalize_fleet v) m) [] labels"

definition label_of :: "(string \<times> string) list \<Rightarrow> string \<Rightarrow> string" where
  "label_of m k = (case map_of m k of None \<Rightarrow> [] | Some v \<Rightarrow> v)"

definition target_matches :: "fleet_target \<Rightarrow> fleet_identity \<Rightarrow> bool" where
  "target_matches t i \<longleftrightarrow>
     normalized_list_matches (ft_environments t) (fi_environment i)
     \<and> normalized_list_matches (ft_platforms t) (fi_platform i)
     \<and> normalized_list_matches (ft_architectures t) (fi_architecture i)
     \<and> (\<forall>(k, v) \<in> set (ft_labels t).
          label_of (normalized_labels (fi_labels i)) (normalize_fleet k) = normalize_fleet v)"

subsection \<open>Conformance\<close>

text \<open>A probe of the \<open>n\<close>-th provider: whether the check failed, and whether the caller's context was done
  right after it.\<close>

type_synonym probe = "nat \<Rightarrow> provider \<Rightarrow> bool \<times> bool"

fun conformance_loop :: "probe \<Rightarrow> nat \<Rightarrow> bool \<Rightarrow> provider list \<Rightarrow> conformance list \<times> bool" where
  "conformance_loop probe n passed [] = ([], passed)"
| "conformance_loop probe n passed (p # ps) =
     (let (failed, ended) = probe n p;
          result = (if failed
            then \<lparr>cf_provider = pv_id p, cf_status = ''failed'', cf_reason = ''conformance check failed''\<rparr>
            else \<lparr>cf_provider = pv_id p, cf_status = ''passed'', cf_reason = []\<rparr>)
      in if ended then ([result], False)
         else let (rest, ok) = conformance_loop probe (Suc n) (passed \<and> \<not> failed) ps in (result # rest, ok))"

definition run_conformance :: "probe option \<Rightarrow> provider list \<Rightarrow> conformance list \<times> bool" where
  "run_conformance probe ps =
     (case probe of
        None \<Rightarrow>
          (map (\<lambda>p. \<lparr>cf_provider = pv_id p, cf_status = ''failed'',
                     cf_reason = ''conformance probe unavailable''\<rparr>) ps, False)
      | Some f \<Rightarrow> conformance_loop f 0 True ps)"

subsection \<open>Activation\<close>

definition no_status :: provider_status where
  "no_status = \<lparr>st_provider = [], st_version = [], st_catalog = 0, st_health = [], st_draining = False,
     st_runs = 0, st_reason = [], st_observed = zero_time\<rparr>"

definition status_of :: "(string \<times> provider_status) list \<Rightarrow> string \<Rightarrow> provider_status" where
  "status_of m i = (case map_of m i of None \<Rightarrow> no_status | Some s \<Rightarrow> s)"

definition activated_status ::
  "(string \<times> provider_status) list \<Rightarrow> 64 word \<Rightarrow> gotime \<Rightarrow> provider \<Rightarrow> provider_status" where
  "activated_status previous revision now p =
     (let s = status_of previous (pv_id p) in
      s\<lparr>st_provider := pv_id p, st_version := pv_version p, st_catalog := revision,
        st_draining := pv_draining p, st_observed := now,
        st_health := (if st_health s = [] \<or> st_version s \<noteq> pv_version p then ''healthy'' else st_health s)\<rparr>)"

definition activate :: "catalog \<Rightarrow> gotime \<Rightarrow> registry \<Rightarrow> registry" where
  "activate c now r =
     r\<lparr>rg_current := c,
       rg_statuses := foldl (\<lambda>m p. AList.update (pv_id p)
         (activated_status (rg_statuses r) (cat_revision c) now p) m) [] (cat_providers c)\<rparr>"

definition new_registry ::
  "(catalog \<Rightarrow> string + string) \<Rightarrow> (string \<Rightarrow> parsed_url option) \<Rightarrow> catalog \<Rightarrow> gotime \<Rightarrow>
   catalog_error + registry" where
  "new_registry digest url c now =
     (case validate_catalog digest url c of
        Some e \<Rightarrow> Inl e
      | None \<Rightarrow> Inr (activate c now \<lparr>rg_current = c, rg_previous = None, rg_statuses = []\<rparr>))"

definition next_version :: "catalog \<Rightarrow> string \<Rightarrow> string" where
  "next_version c i = label_of (rev (map (\<lambda>p. (pv_id p, pv_version p)) (cat_providers c))) i"

fun first_blocker :: "catalog \<Rightarrow> (string \<times> provider_status) list \<Rightarrow> apply_reason" where
  "first_blocker c [] = NoReason"
| "first_blocker c ((i, s) # m) =
     (if st_runs s = 0 then first_blocker c m
      else if next_version c i \<noteq> st_version s then ActiveRuns i (st_runs s) (st_version s)
      else first_blocker c m)"

definition active_run_blocker :: "registry \<Rightarrow> catalog \<Rightarrow> apply_reason" where
  "active_run_blocker r c = first_blocker c (rg_statuses r)"

definition populate_revisions :: "registry \<Rightarrow> apply_result \<Rightarrow> apply_result" where
  "populate_revisions r res =
     (let res1 = res\<lparr>ar_active := cat_revision (rg_current r), ar_lkg := cat_revision (rg_current r)\<rparr> in
      case rg_previous r of None \<Rightarrow> res1 | Some c \<Rightarrow> res1\<lparr>ar_previous := cat_revision c\<rparr>)"

definition blank_result :: "64 word \<Rightarrow> rollout \<Rightarrow> gotime \<Rightarrow> apply_result" where
  "blank_result revision state now =
     \<lparr>ar_accepted = False, ar_targeted = True, ar_revision = revision, ar_desired = revision, ar_active = 0,
      ar_lkg = 0, ar_previous = 0, ar_state = state, ar_rolled_back = False, ar_reason = NoReason,
      ar_checks = [], ar_observed = now\<rparr>"

text \<open>The part of \<^verbatim>\<open>ApplyDesired\<close> under the mutex.\<close>

definition apply_locked :: "catalog \<Rightarrow> gotime \<Rightarrow> apply_result \<Rightarrow> registry \<Rightarrow> apply_result \<times> registry" where
  "apply_locked c now res0 r =
     (let res = populate_revisions r res0 in
      if cat_revision c = cat_revision (rg_current r) \<and> equal_fold (cat_digest c) (cat_digest (rg_current r))
      then (res\<lparr>ar_accepted := True, ar_state := Active\<rparr>, r)
      else if cat_revision c \<le> cat_revision (rg_current r)
      then (res\<lparr>ar_reason := StaleRevision (cat_revision c) (cat_revision (rg_current r))\<rparr>, r)
      else if active_run_blocker r c \<noteq> NoReason
      then (res\<lparr>ar_reason := active_run_blocker r c, ar_state := BlockedDraining\<rparr>, r)
      else (res\<lparr>ar_accepted := True, ar_state := Active, ar_active := cat_revision c, ar_lkg := cat_revision c,
                ar_previous := cat_revision (rg_current r)\<rparr>,
            activate c now (r\<lparr>rg_previous := Some (rg_current r)\<rparr>)))"

definition apply_desired ::
  "(catalog \<Rightarrow> string + string) \<Rightarrow> (string \<Rightarrow> parsed_url option) \<Rightarrow> probe option \<Rightarrow> fleet_identity \<Rightarrow>
   catalog \<Rightarrow> gotime \<Rightarrow> registry \<Rightarrow> apply_result \<times> registry" where
  "apply_desired digest url probe identity c now r =
     (let res = blank_result (cat_revision c) Rejected now in
      case validate_catalog digest url c of
        Some e \<Rightarrow> (populate_revisions r (res\<lparr>ar_reason := Invalid e\<rparr>), r)
      | None \<Rightarrow>
          if \<not> target_matches (cat_target c) identity
          then (populate_revisions r (res\<lparr>ar_accepted := True, ar_targeted := False,
                  ar_state := SkippedNotTargeted, ar_reason := NotTargeted\<rparr>), r)
          else let (checks, ok) = run_conformance probe (cat_providers c); res1 = res\<lparr>ar_checks := checks\<rparr> in
               if \<not> ok
               then (populate_revisions r (res1\<lparr>ar_state := ConformanceFailed, ar_reason := NotConformant\<rparr>), r)
               else apply_locked c now res1 r)"

definition rollback :: "gotime \<Rightarrow> registry \<Rightarrow> apply_result \<times> registry" where
  "rollback now r =
     (let res = populate_revisions r (blank_result 0 RollbackRejected now) in
      case rg_previous r of
        None \<Rightarrow> (res\<lparr>ar_reason := NoPrevious\<rparr>, r)
      | Some c \<Rightarrow>
          if active_run_blocker r c \<noteq> NoReason
          then (res\<lparr>ar_reason := active_run_blocker r c, ar_state := BlockedDraining\<rparr>, r)
          else (res\<lparr>ar_accepted := True, ar_rolled_back := True, ar_revision := cat_revision c,
                    ar_desired := cat_revision c, ar_active := cat_revision c, ar_lkg := cat_revision c,
                    ar_previous := cat_revision (rg_current r), ar_state := RolledBack\<rparr>,
                activate c now (r\<lparr>rg_previous := Some (rg_current r)\<rparr>)))"

subsection \<open>Runs, health and status\<close>

definition names_provider :: "string \<Rightarrow> string \<Rightarrow> provider \<Rightarrow> bool" where
  "names_provider i version p \<longleftrightarrow>
     equal_fold (pv_id p) (trim_space i) \<and> (version = [] \<or> pv_version p = version)"

definition resolve_provider :: "registry \<Rightarrow> string \<Rightarrow> string \<Rightarrow> provider option" where
  "resolve_provider r i version = find (names_provider i version) (cat_providers (rg_current r))"

definition acquire_provider ::
  "string \<Rightarrow> string \<Rightarrow> 64 word option \<Rightarrow> gotime \<Rightarrow> registry \<Rightarrow> (run_error + provider) \<times> registry" where
  "acquire_provider i version revision now r =
     (if case revision of None \<Rightarrow> False | Some v \<Rightarrow> v = 0 \<or> v \<noteq> cat_revision (rg_current r)
      then (Inl NotActiveRevision, r)
      else case find (names_provider i version) (cat_providers (rg_current r)) of
        None \<Rightarrow> (Inl (ProviderNotActive i version), r)
      | Some p \<Rightarrow>
          let s = status_of (rg_statuses r) (pv_id p) in
          if pv_draining p \<or> st_draining s then (Inl (ProviderDraining (pv_id p)), r)
          else if st_health s \<noteq> ''healthy'' then (Inl (ProviderNotHealthy (pv_id p)), r)
          else (Inr p, r\<lparr>rg_statuses := AList.update (pv_id p)
                 (s\<lparr>st_runs := st_runs s + 1, st_observed := now\<rparr>) (rg_statuses r)\<rparr>))"

definition release_provider :: "string \<Rightarrow> gotime \<Rightarrow> registry \<Rightarrow> registry" where
  "release_provider i now r =
     (case map_of (rg_statuses r) i of
        None \<Rightarrow> r
      | Some s \<Rightarrow> r\<lparr>rg_statuses := AList.update i
          (s\<lparr>st_runs := (if 0 < st_runs s then st_runs s - 1 else st_runs s), st_observed := now\<rparr>)
          (rg_statuses r)\<rparr>)"

definition set_health :: "string \<Rightarrow> string \<Rightarrow> string \<Rightarrow> gotime \<Rightarrow> registry \<Rightarrow> health_error option \<times> registry" where
  "set_health i health reason now r =
     (if health \<noteq> ''healthy'' \<and> health \<noteq> ''degraded'' \<and> health \<noteq> ''unhealthy''
      then (Some (UnsupportedHealth health), r)
      else case map_of (rg_statuses r) i of
        None \<Rightarrow> (Some (HealthNotActive i), r)
      | Some s \<Rightarrow> (None, r\<lparr>rg_statuses := AList.update i
          (s\<lparr>st_health := health, st_reason := trim_space reason, st_observed := now\<rparr>) (rg_statuses r)\<rparr>))"

definition provider_statuses :: "registry \<Rightarrow> provider_status list" where
  "provider_statuses r = sort_key st_provider (map snd (rg_statuses r))"

definition default_provider :: "string \<Rightarrow> provider option" where
  "default_provider key =
     (let k = to_lower (trim_space key) in
      if k = [] then None
      else find (\<lambda>p. equal_fold (pv_id p) k \<or> equal_fold (pv_kind p) k) [hermes_provider])"

definition provider_capability_ids :: "provider \<Rightarrow> string list" where
  "provider_capability_ids p = sort (filter (\<lambda>c. c \<noteq> []) (map trim_space (pv_capabilities p)))"

text \<open>The health check of every listed provider, \<^verbatim>\<open>internal/agent/runner/provider_readiness.go\<close>: \<open>ready\<close> says
  whether the probe of a provider succeeds, the times are those of the calls.\<close>

fun refresh_loop :: "(provider \<Rightarrow> bool) \<Rightarrow> gotime \<Rightarrow> provider_status list \<Rightarrow> registry \<Rightarrow> registry" where
  "refresh_loop ready now [] r = r"
| "refresh_loop ready now (s # ss) r =
     (case resolve_provider r (st_provider s) (st_version s) of
        None \<Rightarrow> refresh_loop ready now ss r
      | Some p \<Rightarrow>
          refresh_loop ready now ss
            (snd (if ready p then set_health (pv_id p) ''healthy'' [] now r
                  else set_health (pv_id p) ''unhealthy'' ''agent runtime readiness check failed'' now r)))"

definition refresh_provider_health :: "(provider \<Rightarrow> bool) option \<Rightarrow> gotime \<Rightarrow> registry \<Rightarrow> registry" where
  "refresh_provider_health probe now r =
     (case probe of None \<Rightarrow> r | Some ready \<Rightarrow> refresh_loop ready now (provider_statuses r) r)"

subsection \<open>Validated catalogs\<close>

definition norm_id :: "provider \<Rightarrow> string" where
  "norm_id p = to_lower (trim_space (pv_id p))"

lemma validate_provider_Inr:
  "validate_provider url ids kinds p = Inr (ids', kinds') \<Longrightarrow>
     ids' = norm_id p # ids \<and> kinds' = to_lower (trim_space (pv_kind p)) # kinds
     \<and> norm_id p \<notin> set ids \<and> norm_id p \<noteq> [] \<and> trim_space (pv_version p) \<noteq> []"
  by (auto simp: validate_provider_def norm_id_def Let_def split: if_splits option.splits)

lemma validate_providers_None:
  "validate_providers url ids kinds ps = None \<Longrightarrow>
     distinct (map norm_id ps) \<and> set (map norm_id ps) \<inter> set ids = {}
     \<and> (\<forall>p \<in> set ps. norm_id p \<noteq> [] \<and> trim_space (pv_version p) \<noteq> [])"
proof (induction ps arbitrary: ids kinds)
  case (Cons p ps)
  from Cons.prems obtain ids' kinds' where v: "validate_provider url ids kinds p = Inr (ids', kinds')"
    and rest: "validate_providers url ids' kinds' ps = None"
    by (auto split: sum.splits)
  from validate_provider_Inr [OF v] Cons.IH [OF rest] show ?case by auto
qed simp

lemma validate_catalog_None:
  assumes "validate_catalog digest url c = None"
  shows "distinct (map norm_id (cat_providers c))" "cat_revision c \<noteq> 0"
    "\<And>p. p \<in> set (cat_providers c) \<Longrightarrow> trim_space (pv_version p) \<noteq> []"
  using assms validate_providers_None [of url "[]" "[]" "cat_providers c"]
  by (auto simp: validate_catalog_def split: if_splits option.splits)

lemma distinct_ids:
  "validate_catalog digest url c = None \<Longrightarrow> distinct (map pv_id (cat_providers c))"
  by (drule validate_catalog_None(1)) (auto simp: norm_id_def distinct_map inj_on_def)

subsection \<open>Status tables\<close>

lemma map_of_foldl_update:
  "map_of (foldl (\<lambda>m p. AList.update (k p) (v p) m) m0 ps) i =
     (case find (\<lambda>p. k p = i) (rev ps) of Some p \<Rightarrow> Some (v p) | None \<Rightarrow> map_of m0 i)"
proof (induction ps rule: rev_induct)
  case (snoc p ps)
  then show ?case by (simp add: go_map)
qed simp

lemma distinct_foldl_update:
  "distinct (map fst m0) \<Longrightarrow> distinct (map fst (foldl (\<lambda>m p. AList.update (k p) (v p) m) m0 ps))"
  by (induction ps arbitrary: m0) (auto simp: go_map)

lemma find_rev_distinct:
  assumes "distinct (map k ps)"
  shows "find (\<lambda>p. k p = i) (rev ps) = Some p \<longleftrightarrow> p \<in> set ps \<and> k p = i"
proof
  assume "find (\<lambda>p. k p = i) (rev ps) = Some p"
  then show "p \<in> set ps \<and> k p = i"
    by (metis (mono_tags, lifting) find_Some_iff nth_mem set_rev)
next
  assume p: "p \<in> set ps \<and> k p = i"
  then have "find (\<lambda>p. k p = i) (rev ps) \<noteq> None" by (auto simp: find_None_iff)
  then obtain q where q: "find (\<lambda>p. k p = i) (rev ps) = Some q" by auto
  then have "q \<in> set ps \<and> k q = i"
    by (metis (mono_tags, lifting) find_Some_iff nth_mem set_rev)
  with p assms have "q = p" by (auto simp: distinct_map inj_on_def)
  with q show "find (\<lambda>p. k p = i) (rev ps) = Some p" by simp
qed

lemma activated_status_fields [simp]:
  "st_provider (activated_status m v now p) = pv_id p" "st_version (activated_status m v now p) = pv_version p"
  "st_catalog (activated_status m v now p) = v" "st_draining (activated_status m v now p) = pv_draining p"
  "st_runs (activated_status m v now p) = st_runs (status_of m (pv_id p))"
  by (simp_all add: activated_status_def Let_def)

lemma activate_current [simp]:
  "rg_current (activate c now r) = c" "rg_previous (activate c now r) = rg_previous r"
  by (simp_all add: activate_def)

lemma activate_statuses:
  assumes "distinct (map pv_id (cat_providers c))"
  shows "map_of (rg_statuses (activate c now r)) i = Some s \<longleftrightarrow>
    (\<exists>p \<in> set (cat_providers c). pv_id p = i
       \<and> s = activated_status (rg_statuses r) (cat_revision c) now p)"
proof -
  let ?f = "find (\<lambda>p. pv_id p = i) (rev (cat_providers c))"
  have "map_of (rg_statuses (activate c now r)) i
      = map_option (activated_status (rg_statuses r) (cat_revision c) now) ?f"
    by (simp add: activate_def map_of_foldl_update split: option.splits)
  moreover have "?f = Some p \<longleftrightarrow> p \<in> set (cat_providers c) \<and> pv_id p = i" for p
    by (rule find_rev_distinct [OF assms])
  ultimately show ?thesis by auto
qed

lemma activate_distinct: "distinct (map fst (rg_statuses (activate c now r)))"
  by (simp add: activate_def distinct_foldl_update)

lemma next_version_known:
  assumes "distinct (map pv_id (cat_providers c))" and "p \<in> set (cat_providers c)"
  shows "next_version c (pv_id p) = pv_version p"
proof -
  have "distinct (map fst (rev (map (\<lambda>p. (pv_id p, pv_version p)) (cat_providers c))))"
    using assms(1) by (simp add: rev_map [symmetric] comp_def)
  then have "map_of (rev (map (\<lambda>p. (pv_id p, pv_version p)) (cat_providers c))) (pv_id p) = Some (pv_version p)"
    using assms(2) by (intro map_of_is_SomeI) auto
  then show ?thesis by (simp add: next_version_def label_of_def)
qed

lemma next_version_unknown:
  assumes "i \<notin> pv_id ` set (cat_providers c)"
  shows "next_version c i = []"
proof -
  have "map_of (rev (map (\<lambda>p. (pv_id p, pv_version p)) (cat_providers c))) i = None"
    using assms by (auto simp: map_of_eq_None_iff)
  then show ?thesis by (simp add: next_version_def label_of_def)
qed

lemma first_blocker_None:
  "first_blocker c m = NoReason \<longleftrightarrow>
     (\<forall>(i, s) \<in> set m. st_runs s \<noteq> 0 \<longrightarrow> next_version c i = st_version s)"
  by (induction c m rule: first_blocker.induct) auto

subsection \<open>Histories and their invariant\<close>

text \<open>\<open>registry_run digest url r held\<close>: the registry \<open>r\<close> can arise from a new one by calls of its
  operations, where the runs in \<open>held\<close> (provider id and the version it had when acquired) have
  been acquired and not released. A run releases the id of the provider it acquired, as the callers do.\<close>

inductive registry_run ::
  "(catalog \<Rightarrow> string + string) \<Rightarrow> (string \<Rightarrow> parsed_url option) \<Rightarrow> registry \<Rightarrow> (string \<times> string) list \<Rightarrow> bool"
  for digest url where
  run_new: "new_registry digest url c now = Inr r \<Longrightarrow> registry_run digest url r []"
| run_apply: "registry_run digest url r held \<Longrightarrow>
    registry_run digest url (snd (apply_desired digest url probe identity c now r)) held"
| run_rollback: "registry_run digest url r held \<Longrightarrow> registry_run digest url (snd (rollback now r)) held"
| run_acquire: "registry_run digest url r held \<Longrightarrow> acquire_provider i v revision now r = (Inr p, r') \<Longrightarrow>
    registry_run digest url r' ((pv_id p, pv_version p) # held)"
| run_refused: "registry_run digest url r held \<Longrightarrow> acquire_provider i v revision now r = (Inl e, r') \<Longrightarrow>
    registry_run digest url r' held"
| run_release: "registry_run digest url r held \<Longrightarrow> (i, v) \<in> set held \<Longrightarrow>
    registry_run digest url (release_provider i now r) (remove1 (i, v) held)"
| run_health: "registry_run digest url r held \<Longrightarrow>
    registry_run digest url (snd (set_health i health reason now r)) held"
| run_refresh: "registry_run digest url r held \<Longrightarrow>
    registry_run digest url (refresh_provider_health probe' now r) held"

definition held_of :: "(string \<times> string) list \<Rightarrow> string \<Rightarrow> nat" where
  "held_of held i = count_list (map fst held) i"

definition status_ok :: "registry \<Rightarrow> (string \<times> string) list \<Rightarrow> string \<Rightarrow> provider_status \<Rightarrow> bool" where
  "status_ok r held i s \<longleftrightarrow>
     st_provider s = i \<and> st_catalog s = cat_revision (rg_current r) \<and> st_runs s = int (held_of held i)
     \<and> (\<exists>p \<in> set (cat_providers (rg_current r)). pv_id p = i \<and> pv_version p = st_version s
          \<and> pv_draining p = st_draining s)"

definition registry_ok ::
  "(catalog \<Rightarrow> string + string) \<Rightarrow> (string \<Rightarrow> parsed_url option) \<Rightarrow> registry \<Rightarrow> (string \<times> string) list \<Rightarrow> bool"
  where
  "registry_ok digest url r held \<longleftrightarrow>
     validate_catalog digest url (rg_current r) = None
     \<and> (\<forall>c. rg_previous r = Some c \<longrightarrow> validate_catalog digest url c = None)
     \<and> distinct (map fst (rg_statuses r))
     \<and> (\<forall>i s. map_of (rg_statuses r) i = Some s \<longrightarrow> status_ok r held i s)
     \<and> (\<forall>p \<in> set (cat_providers (rg_current r)). map_of (rg_statuses r) (pv_id p) \<noteq> None)
     \<and> (\<forall>(i, v) \<in> set held. \<exists>s. map_of (rg_statuses r) i = Some s \<and> st_version s = v)"

lemma held_of_simps [simp]:
  "held_of [] i = 0"
  "held_of (e # held) i = (if fst e = i then Suc (held_of held i) else held_of held i)"
  by (simp_all add: held_of_def)

lemma held_of_zero: "held_of held i = 0 \<longleftrightarrow> i \<notin> fst ` set held"
  by (simp add: held_of_def count_list_0_iff)

lemma held_of_pos: "(i, v) \<in> set held \<Longrightarrow> 0 < held_of held i"
  using held_of_zero [of held i] by force

lemma held_of_remove1:
  "(i, v) \<in> set held \<Longrightarrow> held_of (remove1 (i, v) held) j = (if j = i then held_of held i - 1 else held_of held j)"
proof (induction held)
  case (Cons e held)
  show ?case
  proof (cases "e = (i, v)")
    case False
    with Cons.prems have "(i, v) \<in> set held" by auto
    from Cons.IH [OF this] held_of_pos [OF this] False show ?thesis by auto
  qed simp
qed simp

lemma registry_ok_status:
  "registry_ok digest url r held \<Longrightarrow> map_of (rg_statuses r) i = Some s \<Longrightarrow> status_ok r held i s"
  by (simp add: registry_ok_def)

lemma registry_ok_held:
  "registry_ok digest url r held \<Longrightarrow> (i, v) \<in> set held \<Longrightarrow>
     \<exists>s. map_of (rg_statuses r) i = Some s \<and> st_version s = v"
  by (auto simp: registry_ok_def)

lemma registry_ok_valid: "registry_ok digest url r held \<Longrightarrow> validate_catalog digest url (rg_current r) = None"
  by (simp add: registry_ok_def)

lemma status_ok_provider:
  "status_ok r held i s \<Longrightarrow> \<exists>p \<in> set (cat_providers (rg_current r)). pv_id p = i \<and> pv_version p = st_version s"
  by (auto simp: status_ok_def)

text \<open>Activating a valid catalog that no active run stands against keeps the invariant.\<close>

lemma activate_ok:
  assumes ok: "registry_ok digest url r held" and valid: "validate_catalog digest url c = None"
    and clear: "active_run_blocker r c = NoReason"
  shows "registry_ok digest url (activate c now (r\<lparr>rg_previous := Some (rg_current r)\<rparr>)) held"
proof -
  let ?a = "activate c now (r\<lparr>rg_previous := Some (rg_current r)\<rparr>)"
  note st = activate_statuses [OF distinct_ids [OF valid]]
  have runs: "st_runs (status_of (rg_statuses r) (pv_id p)) = int (held_of held (pv_id p))" for p
  proof (cases "map_of (rg_statuses r) (pv_id p)")
    case None
    then have "held_of held (pv_id p) = 0"
      using registry_ok_held [OF ok] by (fastforce simp: held_of_zero)
    with None show ?thesis by (simp add: status_of_def no_status_def)
  next
    case (Some s)
    with registry_ok_status [OF ok Some] show ?thesis by (simp add: status_ok_def status_of_def)
  qed
  have kept: "\<exists>p \<in> set (cat_providers c). pv_id p = i \<and> pv_version p = v" if "(i, v) \<in> set held" for i v
  proof -
    from registry_ok_held [OF ok that] obtain s where s: "map_of (rg_statuses r) i = Some s" "st_version s = v"
      by auto
    note sok = registry_ok_status [OF ok s(1)]
    with held_of_pos [OF that] have "st_runs s \<noteq> 0" by (simp add: status_ok_def)
    with clear s map_of_SomeD [OF s(1)] have nv: "next_version c i = v"
      by (force simp: active_run_blocker_def first_blocker_None)
    from status_ok_provider [OF sok] s have "\<exists>p \<in> set (cat_providers (rg_current r)). pv_version p = v"
      by auto
    with validate_catalog_None(3) [OF registry_ok_valid [OF ok]] have "trim_space v \<noteq> []"
      by auto
    with nv have "next_version c i \<noteq> []" by force
    then have "i \<in> pv_id ` set (cat_providers c)" using next_version_unknown by metis
    then obtain p where "p \<in> set (cat_providers c)" "pv_id p = i" by auto
    with nv next_version_known [OF distinct_ids [OF valid]] show ?thesis by metis
  qed
  have "status_ok ?a held i s" if "map_of (rg_statuses ?a) i = Some s" for i s
    using that runs by (auto simp: st status_ok_def)
  moreover have "map_of (rg_statuses ?a) (pv_id p) \<noteq> None" if "p \<in> set (cat_providers c)" for p
    using that st [of _ _ "pv_id p"] by blast
  moreover have "\<exists>s. map_of (rg_statuses ?a) i = Some s \<and> st_version s = v" if "(i, v) \<in> set held" for i v
    using kept [OF that] st by fastforce
  ultimately show ?thesis
    using ok valid activate_distinct by (auto simp: registry_ok_def)
qed

text \<open>Changing one status, and with it at most the runs held on that provider, keeps the invariant.\<close>

lemma update_status_ok:
  assumes ok: "registry_ok digest url r held" and s: "map_of (rg_statuses r) i = Some s"
    and same: "st_provider s' = st_provider s" "st_catalog s' = st_catalog s" "st_version s' = st_version s"
      "st_draining s' = st_draining s"
    and runs: "st_runs s' = int (held_of held' i)"
    and others: "\<And>j. j \<noteq> i \<Longrightarrow> held_of held' j = held_of held j"
    and sub: "set held' \<subseteq> insert (i, st_version s) (set held)"
  shows "registry_ok digest url (r\<lparr>rg_statuses := AList.update i s' (rg_statuses r)\<rparr>) held'"
proof -
  let ?r = "r\<lparr>rg_statuses := AList.update i s' (rg_statuses r)\<rparr>"
  have st: "map_of (rg_statuses ?r) j = (if j = i then Some s' else map_of (rg_statuses r) j)" for j
    by (simp add: go_map)
  have "status_ok ?r held' j t" if "map_of (rg_statuses ?r) j = Some t" for j t
  proof (cases "j = i")
    case True
    with that st [of j] have "t = s'" by simp
    with True registry_ok_status [OF ok s] same runs show ?thesis by (simp add: status_ok_def)
  next
    case False
    with that st [of j] have "map_of (rg_statuses r) j = Some t" by simp
    from registry_ok_status [OF ok this] others [OF False] show ?thesis by (simp add: status_ok_def)
  qed
  moreover have "\<exists>t. map_of (rg_statuses ?r) j = Some t \<and> st_version t = v" if "(j, v) \<in> set held'" for j v
  proof (cases "(j, v) \<in> set held")
    case True
    with registry_ok_held [OF ok True] s same(3) st [of j] show ?thesis by auto
  next
    case False
    with that sub have "j = i" "v = st_version s" by auto
    with same(3) show ?thesis by (simp add: go_map)
  qed
  moreover have "map_of (rg_statuses ?r) (pv_id p) \<noteq> None" if "p \<in> set (cat_providers (rg_current r))" for p
  proof -
    from ok that have "map_of (rg_statuses r) (pv_id p) \<noteq> None" unfolding registry_ok_def by blast
    then show ?thesis unfolding st by simp
  qed
  ultimately show ?thesis
    using ok distinct_keys_update [of "rg_statuses r" i s'] unfolding registry_ok_def by auto
qed

lemma find_provider:
  "find (names_provider i v) ps = Some p \<Longrightarrow> p \<in> set ps \<and> names_provider i v p"
  by (metis find_Some_iff nth_mem)

lemma acquire_ok:
  assumes ok: "registry_ok digest url r held" and got: "acquire_provider i v revision now r = (Inr p, r')"
  shows "registry_ok digest url r' ((pv_id p, pv_version p) # held)"
proof -
  let ?s = "status_of (rg_statuses r) (pv_id p)"
  from got have f: "find (names_provider i v) (cat_providers (rg_current r)) = Some p"
    and r': "r' = r\<lparr>rg_statuses := AList.update (pv_id p) (?s\<lparr>st_runs := st_runs ?s + 1, st_observed := now\<rparr>) (rg_statuses r)\<rparr>"
    by (auto simp: acquire_provider_def Let_def split: if_splits option.splits)
  from find_provider [OF f] have p: "p \<in> set (cat_providers (rg_current r))" by simp
  with ok obtain s where s: "map_of (rg_statuses r) (pv_id p) = Some s" by (auto simp: registry_ok_def)
  then have ss: "?s = s" by (simp add: status_of_def)
  note sok = registry_ok_status [OF ok s]
  from status_ok_provider [OF sok] obtain q where "q \<in> set (cat_providers (rg_current r))" "pv_id q = pv_id p"
    "pv_version q = st_version s" by auto
  with p distinct_ids [OF registry_ok_valid [OF ok]] have ver: "st_version s = pv_version p"
    by (auto simp: distinct_map inj_on_def)
  show ?thesis
    unfolding r' ss
    by (rule update_status_ok [OF ok s]) (use sok ver in \<open>auto simp: status_ok_def\<close>)
qed

lemma release_ok:
  assumes ok: "registry_ok digest url r held" and mine: "(i, v) \<in> set held"
  shows "registry_ok digest url (release_provider i now r) (remove1 (i, v) held)"
proof -
  from registry_ok_held [OF ok mine] obtain s where s: "map_of (rg_statuses r) i = Some s" by auto
  note sok = registry_ok_status [OF ok s]
  show ?thesis
    unfolding release_provider_def s option.case
    by (rule update_status_ok [OF ok s])
      (use sok held_of_pos [OF mine] in \<open>auto simp: status_ok_def held_of_remove1 [OF mine] dest: set_mp [OF set_remove1_subset]\<close>)
qed

lemma set_health_ok:
  assumes ok: "registry_ok digest url r held"
  shows "registry_ok digest url (snd (set_health i health reason now r)) held"
proof (cases "map_of (rg_statuses r) i")
  case None
  with ok show ?thesis by (simp add: set_health_def)
next
  case (Some s)
  have "registry_ok digest url (r\<lparr>rg_statuses := AList.update i
      (s\<lparr>st_health := health, st_reason := trim_space reason, st_observed := now\<rparr>) (rg_statuses r)\<rparr>) held"
    by (rule update_status_ok [OF ok Some]) (use registry_ok_status [OF ok Some] in \<open>auto simp: status_ok_def\<close>)
  with ok Some show ?thesis by (simp add: set_health_def)
qed

lemma refresh_ok:
  "registry_ok digest url r held \<Longrightarrow> registry_ok digest url (refresh_provider_health probe now r) held"
proof -
  have loop: "registry_ok digest url (refresh_loop ready now ss r) held"
    if "registry_ok digest url r held" for ready ss r
    using that by (induction ready now ss r rule: refresh_loop.induct)
      (auto simp: set_health_ok split: option.splits)
  assume "registry_ok digest url r held"
  then show ?thesis by (auto simp: refresh_provider_health_def loop split: option.splits)
qed

lemma apply_locked_ok:
  assumes "registry_ok digest url r held" and "validate_catalog digest url c = None"
  shows "registry_ok digest url (snd (apply_locked c now res r)) held"
  using assms activate_ok [OF assms] by (simp add: apply_locked_def Let_def)

lemma apply_ok:
  "registry_ok digest url r held \<Longrightarrow>
     registry_ok digest url (snd (apply_desired digest url probe identity c now r)) held"
  by (auto simp: apply_desired_def Let_def apply_locked_ok split: option.splits prod.splits)

lemma rollback_ok:
  assumes ok: "registry_ok digest url r held"
  shows "registry_ok digest url (snd (rollback now r)) held"
proof (cases "rg_previous r")
  case None
  with ok show ?thesis by (simp add: rollback_def)
next
  case (Some c)
  with ok have "validate_catalog digest url c = None" by (simp add: registry_ok_def)
  with Some ok activate_ok [OF ok this] show ?thesis by (simp add: rollback_def Let_def)
qed

lemma new_ok:
  assumes "new_registry digest url c now = Inr r"
  shows "registry_ok digest url r []"
proof -
  let ?b = "\<lparr>rg_current = c, rg_previous = None, rg_statuses = []\<rparr>"
  from assms have valid: "validate_catalog digest url c = None" and r: "r = activate c now ?b"
    by (auto simp: new_registry_def split: option.splits)
  note st = activate_statuses [OF distinct_ids [OF valid], of now ?b]
  have "status_ok r [] i s" if "map_of (rg_statuses r) i = Some s" for i s
    using that by (auto simp: r st status_ok_def status_of_def no_status_def)
  moreover have "map_of (rg_statuses r) (pv_id p) \<noteq> None" if "p \<in> set (cat_providers c)" for p
    using that st [of "pv_id p"] unfolding r by blast
  ultimately show ?thesis
    using valid activate_distinct [of c now ?b] by (auto simp: registry_ok_def r)
qed

lemma registry_run_ok: "registry_run digest url r held \<Longrightarrow> registry_ok digest url r held"
proof (induction rule: registry_run.induct)
  case (run_refused r held i v revision now e r')
  then show ?case by (auto simp: acquire_provider_def Let_def split: if_splits option.splits)
qed (auto simp: new_ok apply_ok rollback_ok acquire_ok release_ok set_health_ok refresh_ok)

subsection \<open>What applying and rolling back do\<close>

lemma apply_desired_cases:
  assumes "apply_desired digest url probe identity c now r = (res, r')"
  obtains "r' = r" "ar_active res = cat_revision (rg_current r)"
  | checks where "validate_catalog digest url c = None" "target_matches (cat_target c) identity"
    "run_conformance probe (cat_providers c) = (checks, True)" "cat_revision (rg_current r) < cat_revision c"
    "active_run_blocker r c = NoReason" "ar_accepted res" "ar_active res = cat_revision c"
    "r' = activate c now (r\<lparr>rg_previous := Some (rg_current r)\<rparr>)"
proof -
  have pop: "ar_active (populate_revisions s x) = cat_revision (rg_current s)" for s x
    by (simp add: populate_revisions_def Let_def split: option.splits)
  from assms that show thesis
    by (auto simp: apply_desired_def apply_locked_def Let_def pop not_le
        split: option.splits if_splits prod.splits)
qed

lemma rollback_activates:
  assumes "rg_previous r = Some c" and "active_run_blocker r c = NoReason"
  shows "rollback now r = (fst (rollback now r), activate c now (r\<lparr>rg_previous := Some (rg_current r)\<rparr>))"
  using assms by (simp add: rollback_def Let_def)

text \<open>The active runs stand against no valid catalog that offers their providers in the version they hold.\<close>

lemma kept_not_blocked:
  assumes ok: "registry_ok digest url r held" and valid: "validate_catalog digest url c = None"
    and kept: "\<And>i v. (i, v) \<in> set held \<Longrightarrow> \<exists>p \<in> set (cat_providers c). pv_id p = i \<and> pv_version p = v"
  shows "active_run_blocker r c = NoReason"
proof -
  have "next_version c i = st_version s" if "(i, s) \<in> set (rg_statuses r)" "st_runs s \<noteq> 0" for i s
  proof -
    from ok that(1) have m: "map_of (rg_statuses r) i = Some s" by (simp add: registry_ok_def)
    from registry_ok_status [OF ok m] that(2) have "held_of held i \<noteq> 0" by (simp add: status_ok_def)
    then have "i \<in> fst ` set held" by (simp add: held_of_zero)
    then obtain v where v: "(i, v) \<in> set held" by auto
    with registry_ok_held [OF ok v] m have "st_version s = v" by simp
    with kept [OF v] next_version_known [OF distinct_ids [OF valid]] show ?thesis by metis
  qed
  then show ?thesis by (auto simp: active_run_blocker_def first_blocker_None)
qed

lemma held_in_current:
  assumes ok: "registry_ok digest url r held" and "(i, v) \<in> set held"
  shows "\<exists>p \<in> set (cat_providers (rg_current r)). pv_id p = i \<and> pv_version p = v"
proof -
  obtain s where s: "map_of (rg_statuses r) i = Some s" "st_version s = v" using registry_ok_held [OF assms] by auto
  with status_ok_provider [OF registry_ok_status [OF ok s(1)]] show ?thesis by simp
qed

subsection \<open>Properties\<close>

text \<open>C9: whatever catalogs are applied, rolled back or rejected and whatever happens to health in
  between, a run that acquired a provider and has not released it finds this provider, in the version
  it acquired, in the active catalog; and the number of active runs shown for a provider is the number
  of runs that hold it.\<close>

theorem registry_runs_keep_provider:
  assumes "registry_run digest url r held"
  shows "(\<forall>(i, v) \<in> set held. \<exists>p \<in> set (cat_providers (rg_current r)). pv_id p = i \<and> pv_version p = v)
    \<and> (\<forall>s \<in> set (provider_statuses r). st_runs s = int (held_of held (st_provider s)))"
proof (intro conjI)
  note ok = registry_run_ok [OF assms]
  show "\<forall>(i, v) \<in> set held. \<exists>p \<in> set (cat_providers (rg_current r)). pv_id p = i \<and> pv_version p = v"
  proof clarify
    fix i v assume "(i, v) \<in> set held"
    from registry_ok_held [OF ok this] obtain s where "map_of (rg_statuses r) i = Some s" "st_version s = v"
      by auto
    with status_ok_provider [OF registry_ok_status [OF ok this(1)]]
    show "\<exists>p \<in> set (cat_providers (rg_current r)). pv_id p = i \<and> pv_version p = v" by simp
  qed
  have "st_runs s = int (held_of held (st_provider s))" if "(i, s) \<in> set (rg_statuses r)" for i s
  proof -
    from ok that have "map_of (rg_statuses r) i = Some s" by (simp add: registry_ok_def)
    from registry_ok_status [OF ok this] show ?thesis by (simp add: status_ok_def)
  qed
  then show "\<forall>s \<in> set (provider_statuses r). st_runs s = int (held_of held (st_provider s))"
    by (auto simp: provider_statuses_def)
qed

text \<open>C21: a snapshot replaces the active catalog only if it is valid, aimed at this runner, conformant,
  newer, and no active run stands against it; the catalog it replaces is kept for a roll back. A
  snapshot that is not accepted changes nothing, and the revision of the active catalog, which every
  answer reports, never falls.\<close>

theorem apply_desired_replaces_only:
  assumes "apply_desired digest url probe identity c now r = (res, r')"
  shows "(r' \<noteq> r \<longrightarrow> rg_current r' = c \<and> validate_catalog digest url c = None
            \<and> target_matches (cat_target c) identity \<and> snd (run_conformance probe (cat_providers c))
            \<and> cat_revision (rg_current r) < cat_revision c \<and> active_run_blocker r c = NoReason
            \<and> rg_previous r' = Some (rg_current r))
    \<and> (\<not> ar_accepted res \<longrightarrow> r' = r)
    \<and> ar_active res = cat_revision (rg_current r') \<and> cat_revision (rg_current r) \<le> cat_revision (rg_current r')"
  using assms by (cases rule: apply_desired_cases) auto

text \<open>C23: a roll back right after a catalog was activated is never blocked, whatever runs are active: it brings the replaced
  catalog back and keeps the other one for the next roll back, and a second one right after brings that one back.\<close>

theorem rollback_undoes_apply:
  assumes "registry_run digest url r held" and "apply_desired digest url probe identity c now r = (res, r')"
    and "rg_current r' \<noteq> rg_current r"
  shows "ar_rolled_back (fst (rollback now1 r'))
    \<and> rg_current (snd (rollback now1 r')) = rg_current r
    \<and> rg_previous (snd (rollback now1 r')) = Some c
    \<and> rg_current (snd (rollback now2 (snd (rollback now1 r')))) = c"
proof -
  have r': "r' = snd (apply_desired digest url probe identity c now r)" using assms(2) by simp
  note ok = registry_run_ok [OF assms(1)]
  note ok1 = apply_ok [OF ok, of probe identity c now, folded r']
  from assms(2,3) have cur: "rg_current r' = c" "rg_previous r' = Some (rg_current r)"
    by (auto elim!: apply_desired_cases)
  have clear: "active_run_blocker r' (rg_current r) = NoReason"
    by (rule kept_not_blocked [OF ok1 registry_ok_valid [OF ok] held_in_current [OF ok]])
  note step1 = rollback_activates [OF cur(2) clear, of now1]
  note ok2 = rollback_ok [OF ok1, of now1]
  have mid: "rg_current (snd (rollback now1 r')) = rg_current r" "rg_previous (snd (rollback now1 r')) = Some c"
    by (subst step1, simp add: cur)+
  have "active_run_blocker (snd (rollback now1 r')) c = NoReason"
    using registry_ok_valid [OF ok1] held_in_current [OF ok1] unfolding cur by (rule kept_not_blocked [OF ok2])
  note step2 = rollback_activates [OF mid(2) this, of now2]
  have "ar_rolled_back (fst (rollback now1 r'))" using cur clear by (simp add: rollback_def Let_def)
  with mid step2 show ?thesis by (metis snd_conv activate_current(1))
qed

text \<open>A snapshot without digest that has the active revision but other contents is acknowledged as
  accepted and active, though the catalog it names is not the one that runs.\<close>

theorem same_revision_acknowledged:
  assumes "validate_catalog digest url c = None" and "target_matches (cat_target c) identity"
    and "snd (run_conformance probe (cat_providers c))" and "cat_revision c = cat_revision (rg_current r)"
    and "cat_digest c = []" and "cat_digest (rg_current r) = []"
  shows "snd (apply_desired digest url probe identity c now r) = r
    \<and> ar_accepted (fst (apply_desired digest url probe identity c now r))
    \<and> ar_state (fst (apply_desired digest url probe identity c now r)) = Active"
  using assms by (auto simp: apply_desired_def apply_locked_def Let_def split: prod.splits)

text \<open>Validation trims a provider's id only to compare it, but callers' ids are trimmed before they are
  looked up: a provider whose id has surrounding white space is never found or acquired, under any
  name.\<close>

theorem padded_provider_unusable:
  assumes "trim_space (pv_id p) \<noteq> pv_id p"
  shows "resolve_provider r i v \<noteq> Some p \<and> fst (acquire_provider i v revision now r) \<noteq> Inr p"
proof -
  have "\<not> names_provider i v p"
    using assms trim_space_fold by (auto simp: names_provider_def)
  then have "find (names_provider i v) ps \<noteq> Some p" for ps
    using find_provider by metis
  then show ?thesis
    by (auto simp: resolve_provider_def acquire_provider_def Let_def split: option.splits)
qed

text \<open>A run is given out only on the active revision, to a provider of the active catalog that is
  healthy and not draining.\<close>

lemma acquire_provider_gate:
  assumes "acquire_provider i v revision now r = (Inr p, r')"
  shows "p \<in> set (cat_providers (rg_current r)) \<and> names_provider i v p \<and> \<not> pv_draining p
    \<and> st_health (status_of (rg_statuses r) (pv_id p)) = ''healthy''
    \<and> (\<forall>w. revision = Some w \<longrightarrow> w = cat_revision (rg_current r))"
  using assms by (auto simp: acquire_provider_def Let_def split: if_splits option.splits dest: find_provider)

subsection \<open>Witnesses\<close>

abbreviation (input) sample_digest :: "catalog \<Rightarrow> string + string" where
  "sample_digest \<equiv> \<lambda>c. Inr (''sha256:'' @ map (\<lambda>p. CHR ''0'') (cat_providers c))"
abbreviation (input) sample_url :: "string \<Rightarrow> parsed_url option" where
  "sample_url \<equiv> \<lambda>_. None"
abbreviation (input) sample_identity :: fleet_identity where
  "sample_identity \<equiv> \<lparr>fi_runner = ''r1'', fi_environment = ''prod'', fi_platform = ''linux'',
     fi_architecture = ''amd64'', fi_labels = [('' Zone'', ''A '')]\<rparr>"
abbreviation (input) sample_probe :: "probe option" where
  "sample_probe \<equiv> Some (\<lambda>_ _. (False, False))"

definition first_registry :: registry where
  "first_registry = activate (default_catalog sample_digest) 1
     \<lparr>rg_current = default_catalog sample_digest, rg_previous = None, rg_statuses = []\<rparr>"

definition next_catalog :: catalog where
  "next_catalog = (default_catalog sample_digest)
     \<lparr>cat_revision := 2, cat_digest := [],
      cat_target := \<lparr>ft_environments = [''PROD''], ft_platforms = [], ft_architectures = [], ft_labels = [(''zone'', ''a'')]\<rparr>,
      cat_providers := [hermes_provider\<lparr>pv_draining := True\<rparr>]\<rparr>"

definition next_registry :: registry where
  "next_registry = snd (apply_desired sample_digest sample_url sample_probe sample_identity next_catalog 2 first_registry)"

definition busy_registry :: registry where
  "busy_registry = snd (acquire_provider '' Hermes '' [] (Some 1) 3 first_registry)"

lemma first_run: "registry_run sample_digest sample_url first_registry []"
proof (rule run_new)
  show "new_registry sample_digest sample_url (default_catalog sample_digest) 1 = Inr first_registry"
    by code_simp
qed

lemma busy_run: "registry_run sample_digest sample_url busy_registry [(''hermes'', ''builtin-v1'')]"
proof -
  have "acquire_provider '' Hermes '' [] (Some 1) 3 first_registry = (Inr hermes_provider, busy_registry)"
    by code_simp
  from run_acquire [OF first_run this] show ?thesis by (simp add: hermes_provider_def)
qed

theorem registry_runs_keep_provider_witness:
  "\<exists>p \<in> set (cat_providers (rg_current (snd (apply_desired sample_digest sample_url sample_probe
      sample_identity next_catalog 4 busy_registry)))). pv_id p = ''hermes'' \<and> pv_version p = ''builtin-v1''"
  using registry_runs_keep_provider [OF run_apply [OF busy_run]] by auto

theorem apply_desired_replaces_only_witness:
  "rg_current next_registry = next_catalog \<and> rg_previous next_registry = Some (rg_current first_registry)"
proof -
  have "apply_desired sample_digest sample_url sample_probe sample_identity next_catalog 2 first_registry
      = (fst (apply_desired sample_digest sample_url sample_probe sample_identity next_catalog 2 first_registry),
         next_registry)"
    by (simp add: next_registry_def)
  moreover have "next_registry \<noteq> first_registry" by code_simp
  ultimately show ?thesis using apply_desired_replaces_only by blast
qed

theorem rollback_undoes_apply_witness:
  "rg_current (snd (rollback 5 (snd (apply_desired sample_digest sample_url sample_probe sample_identity next_catalog 4 busy_registry))))
     = rg_current busy_registry"
proof -
  let ?a = "apply_desired sample_digest sample_url sample_probe sample_identity next_catalog 4 busy_registry"
  have "?a = (fst ?a, snd ?a)" by simp
  moreover have "rg_current (snd ?a) \<noteq> rg_current busy_registry" by code_simp
  ultimately show ?thesis using rollback_undoes_apply [OF busy_run] by blast
qed

theorem same_revision_acknowledged_witness:
  "ar_accepted (fst (apply_desired sample_digest sample_url sample_probe sample_identity
      (next_catalog\<lparr>cat_providers := []\<rparr>) 6 next_registry))
   \<and> rg_current next_registry \<noteq> next_catalog\<lparr>cat_providers := []\<rparr>"
proof -
  have "rg_current next_registry = next_catalog" by code_simp
  moreover have "next_catalog \<noteq> next_catalog\<lparr>cat_providers := []\<rparr>" by code_simp
  moreover have "validate_catalog sample_digest sample_url (next_catalog\<lparr>cat_providers := []\<rparr>) = None" by code_simp
  moreover have "target_matches (cat_target (next_catalog\<lparr>cat_providers := []\<rparr>)) sample_identity" by code_simp
  moreover have "snd (run_conformance sample_probe (cat_providers (next_catalog\<lparr>cat_providers := []\<rparr>)))" by code_simp
  moreover have "cat_digest next_catalog = []" by code_simp
  ultimately show ?thesis using same_revision_acknowledged [where r = next_registry] by simp
qed

theorem padded_provider_unusable_witness:
  "validate_catalog sample_digest sample_url (next_catalog\<lparr>cat_providers := [hermes_provider\<lparr>pv_id := ''hermes ''\<rparr>]\<rparr>) = None
   \<and> resolve_provider first_registry ''hermes '' [] \<noteq> Some (hermes_provider\<lparr>pv_id := ''hermes ''\<rparr>)"
proof -
  have "trim_space ''hermes '' \<noteq> ''hermes ''" by code_simp
  then have "trim_space (pv_id (hermes_provider\<lparr>pv_id := ''hermes ''\<rparr>)) \<noteq> pv_id (hermes_provider\<lparr>pv_id := ''hermes ''\<rparr>)"
    by simp
  moreover have "validate_catalog sample_digest sample_url (next_catalog\<lparr>cat_providers := [hermes_provider\<lparr>pv_id := ''hermes ''\<rparr>]\<rparr>) = None"
    by code_simp
  ultimately show ?thesis using padded_provider_unusable by blast
qed

end
