(* ===== verification/Outpost.thy ===== *)
theory Outpost
  imports RunnerPayload GoPath
begin

text \<open>
  The identity outpost, \<^verbatim>\<open>internal/agent/runner/outpost.go\<close>: acceptance of signed configurations,
  routing of requests, access checks with the control plane, and the status the agent reports.

  Parameters (\<open>outpost_ports\<close>) are the verification of a configuration's signature (base64, JSON
  and Ed25519 of the Go library under the configured public key), the set of decisions and of
  identity headers the contracts package knows, and the parsed form of a redirect URL (scheme and
  host). The answers of the control plane are arguments of the operations. Times in the status
  are instants; their text form is not modelled.
\<close>

subsection \<open>Data\<close>

record outpost_route =
  or_host :: string
  or_prefix :: string
  or_provider :: string
  or_skips :: "string list"

record outpost_config =
  oc_id :: string
  oc_protocol :: string
  oc_version :: int
  oc_issued :: gotime
  oc_expires :: gotime
  oc_key :: string
  oc_check :: string
  oc_routes :: "outpost_route list"
  oc_signature :: string

record outpost =
  op_config :: "outpost_config option"
  op_claimed :: gotime
  op_beat :: gotime
  op_claim_failures :: int
  op_beat_failures :: int
  op_check_failures :: int
  op_denied :: int
  op_desired :: int
  op_contact :: string
  op_error :: string

record outpost_status =
  os_ready :: bool
  os_error :: string
  os_id :: string
  os_version :: int
  os_desired :: int
  os_expires :: "gotime option"
  os_claimed :: "gotime option"
  os_beat :: "gotime option"
  os_claim_failures :: int
  os_beat_failures :: int
  os_check_failures :: int
  os_denied :: int

record access_request =
  aq_method :: string
  aq_url :: string
  aq_host :: string
  aq_path :: string
  aq_token :: string
  aq_ip :: string

record access_check =
  ac_decision :: string
  ac_status :: int
  ac_redirect :: string
  ac_headers :: "(string \<times> string) list"
  ac_reason :: string

record access_result =
  ax_decision :: string
  ax_headers :: "(string \<times> string) list"
  ax_redirect :: string
  ax_status :: int

record outpost_event =
  oe_type :: string
  oe_code :: string
  oe_message :: string
  oe_version :: int

record outpost_ports =
  verify_config :: "outpost_config \<Rightarrow> bool"
  known_decision :: "string \<Rightarrow> bool"
  redirect_target :: "string \<Rightarrow> (string \<times> string) option"
  identity_header :: "string \<Rightarrow> bool"

datatype apply_error = UntrustedKey | MalformedConfig | InvalidRoute | InvalidSkip | BadSignature
  | NotMonotonic | NotNewer

datatype access_error = OutpostUnavailable | OutpostDenied

datatype claim_answer = ClaimFailed | ClaimNothing | Claimed outpost_config

datatype beat_answer = BeatFailed | BeatAnswered bool int

abbreviation (input) clock_skew :: duration where "clock_skew \<equiv> minute"

definition new_outpost :: outpost where
  "new_outpost = \<lparr>op_config = None, op_claimed = zero_time, op_beat = zero_time, op_claim_failures = 0,
     op_beat_failures = 0, op_check_failures = 0, op_denied = 0, op_desired = 0, op_contact = [], op_error = []\<rparr>"

subsection \<open>Accepting a configuration\<close>

definition route_valid :: "outpost_route \<Rightarrow> bool" where
  "route_valid r \<longleftrightarrow>
     trim_space (or_host r) \<noteq> [] \<and> trim_space (or_provider r) \<noteq> []
     \<and> (trim_space (or_prefix r) = [] \<or> has_prefix (or_prefix r) ''/'')"

definition skips_valid :: "outpost_route \<Rightarrow> bool" where
  "skips_valid r \<longleftrightarrow> (\<forall>s \<in> set (or_skips r). has_prefix (trim_space s) ''/'')"

fun check_routes :: "outpost_route list \<Rightarrow> apply_error option" where
  "check_routes [] = None"
| "check_routes (r # rs) =
     (if \<not> route_valid r then Some InvalidRoute
      else if \<not> skips_valid r then Some InvalidSkip
      else check_routes rs)"

definition config_current :: "outpost_config \<Rightarrow> gotime \<Rightarrow> bool" where
  "config_current c now \<longleftrightarrow>
     trim_space (oc_id c) \<noteq> [] \<and> oc_protocol c = ''v1'' \<and> trim_space (oc_check c) \<noteq> [] \<and> 0 < oc_version c
     \<and> oc_issued c < oc_expires c \<and> oc_issued c \<le> now + clock_skew \<and> now < oc_expires c"

definition check_config :: "outpost_ports \<Rightarrow> string \<Rightarrow> gotime \<Rightarrow> outpost_config \<Rightarrow> apply_error option" where
  "check_config ports trust now c =
     (if trim_space (oc_key c) \<noteq> trim_space trust then Some UntrustedKey
      else if \<not> config_current c now then Some MalformedConfig
      else case check_routes (oc_routes c) of
        Some e \<Rightarrow> Some e
      | None \<Rightarrow> if \<not> verify_config ports c then Some BadSignature else None)"

definition config_newer :: "outpost_config \<Rightarrow> outpost_config option \<Rightarrow> apply_error option" where
  "config_newer c old =
     (case old of
        None \<Rightarrow> None
      | Some d \<Rightarrow>
          if oc_version c < oc_version d then Some NotMonotonic
          else if oc_version c = oc_version d \<and> oc_expires c \<le> oc_expires d then Some NotNewer
          else None)"

definition apply_config ::
  "outpost_ports \<Rightarrow> string \<Rightarrow> gotime \<Rightarrow> outpost_config \<Rightarrow> outpost \<Rightarrow> apply_error option \<times> outpost" where
  "apply_config ports trust now c o1 =
     (case check_config ports trust now c of
        Some e \<Rightarrow> (Some e, o1)
      | None \<Rightarrow>
          (case config_newer c (op_config o1) of
             Some e \<Rightarrow> (Some e, o1)
           | None \<Rightarrow> (None, o1\<lparr>op_config := Some c, op_error := [], op_desired := oc_version c, op_claimed := now\<rparr>)))"

subsection \<open>Routing\<close>

definition has_path_prefix :: "string \<Rightarrow> string \<Rightarrow> bool" where
  "has_path_prefix p prefix \<longleftrightarrow>
     prefix = ''/'' \<or> p = prefix \<or> has_prefix p (trim_suffix prefix ''/'' @ ''/'')"

definition request_path :: "string \<Rightarrow> string" where
  "request_path p = clean_path (''/'' @ trim_prefix p ''/'')"

definition request_host :: "string \<Rightarrow> string" where
  "request_host h = to_lower (trim_space (hd (split_char CHR '':'' h)))"

definition route_prefix :: "outpost_route \<Rightarrow> string" where
  "route_prefix r = clean_path (first_non_empty [trim_space (or_prefix r), ''/''])"

definition route_matches :: "string \<Rightarrow> string \<Rightarrow> outpost_route \<Rightarrow> bool" where
  "route_matches host p r \<longleftrightarrow> equal_fold host (trim_space (or_host r)) \<and> has_path_prefix p (route_prefix r)"

fun select_route :: "string \<Rightarrow> string \<Rightarrow> outpost_route option \<Rightarrow> outpost_route list \<Rightarrow> outpost_route option" where
  "select_route host p sel [] = sel"
| "select_route host p sel (r # rs) =
     select_route host p
       (if route_matches host p r
           \<and> (case sel of None \<Rightarrow> True
              | Some s \<Rightarrow> length (clean_path (first_non_empty [or_prefix s, ''/''])) < length (route_prefix r))
        then Some r else sel) rs"

definition route_request ::
  "outpost \<Rightarrow> string \<Rightarrow> string \<Rightarrow> gotime \<Rightarrow> access_error + (outpost_config \<times> outpost_route \<times> bool)" where
  "route_request o1 host p now =
     (case op_config o1 of
        None \<Rightarrow> Inl OutpostUnavailable
      | Some c \<Rightarrow>
          if op_error o1 \<noteq> [] \<or> oc_expires c \<le> now then Inl OutpostUnavailable
          else case select_route (request_host host) (request_path p) None (oc_routes c) of
            None \<Rightarrow> Inl OutpostUnavailable
          | Some r \<Rightarrow>
              Inr (c, r, \<exists>s \<in> set (or_skips r). has_path_prefix (request_path p) (clean_path s)))"

subsection \<open>Status, events, headers\<close>

definition outpost_view :: "outpost \<Rightarrow> gotime \<Rightarrow> outpost_status" where
  "outpost_view o1 now =
     (let s = \<lparr>os_ready = False, os_error = op_error o1, os_id = op_contact o1, os_version = 0,
         os_desired = op_desired o1, os_expires = None,
         os_claimed = (if op_claimed o1 = zero_time then None else Some (op_claimed o1)),
         os_beat = (if op_beat o1 = zero_time then None else Some (op_beat o1)),
         os_claim_failures = op_claim_failures o1, os_beat_failures = op_beat_failures o1,
         os_check_failures = op_check_failures o1, os_denied = op_denied o1\<rparr>
      in case op_config o1 of
           None \<Rightarrow> s
         | Some c \<Rightarrow> s\<lparr>os_ready := op_error o1 = [] \<and> now < oc_expires c,
             os_error := (if oc_expires c \<le> now then ''configuration_expired'' else op_error o1),
             os_id := oc_id c, os_version := oc_version c, os_expires := Some (oc_expires c)\<rparr>)"

definition truncate_text :: "string \<Rightarrow> nat \<Rightarrow> string" where
  "truncate_text v n = (if length v \<le> n then v else take n v)"

text \<open>An event is sent only when an outpost is known: nothing, or the event with how many attempts it
  took and whether one arrived; \<open>sends\<close> says for each attempt whether it arrives and, if not, whether the
  context ended during the wait.\<close>

fun send_event :: "(nat \<Rightarrow> bool \<times> bool) \<Rightarrow> nat \<Rightarrow> nat \<Rightarrow> nat \<times> bool" where
  "send_event sends attempt 0 = (attempt, False)"
| "send_event sends attempt (Suc left) =
     (let (arrived, ended) = sends attempt in
      if arrived then (Suc attempt, True)
      else if ended then (Suc attempt, False)
      else send_event sends (Suc attempt) left)"

definition report_event ::
  "outpost \<Rightarrow> gotime \<Rightarrow> (nat \<Rightarrow> bool \<times> bool) \<Rightarrow> string \<Rightarrow> string \<Rightarrow> string \<Rightarrow> (outpost_event \<times> nat \<times> bool) list"
  where
  "report_event o1 now sends kind code message =
     (let s = outpost_view o1 now in
      if os_id s = [] then []
      else [(\<lparr>oe_type = kind, oe_code = code, oe_message = truncate_text message 256, oe_version = os_version s\<rparr>,
             send_event sends 0 3)])"

definition header_byte :: "char \<Rightarrow> bool" where
  "header_byte c \<longleftrightarrow> is_alnum c \<or> c \<in> set ''!#$%&*+-.^_`|~'' \<or> c = CHR 0x27"

definition upper_char :: "char \<Rightarrow> char" where
  "upper_char c = (if is_lower c then char_of (of_char c - (32 :: nat)) else c)"

fun canonical_loop :: "bool \<Rightarrow> string \<Rightarrow> string" where
  "canonical_loop up [] = []"
| "canonical_loop up (c # cs) = (if up then upper_char c else lower_char c) # canonical_loop (c = CHR ''-'') cs"

text \<open>\<^verbatim>\<open>http.CanonicalHeaderKey\<close>.\<close>

definition canonical_header :: "string \<Rightarrow> string" where
  "canonical_header s = (if list_all header_byte s then canonical_loop True s else s)"

definition clean_header_value :: "string \<Rightarrow> string" where
  "clean_header_value v = trim_space (replace_all (replace_all v [CHR 0x0D] []) [CHR 0x0A] [])"

definition clean_headers :: "outpost_ports \<Rightarrow> (string \<times> string) list \<Rightarrow> (string \<times> string) list" where
  "clean_headers ports hs =
     foldl (\<lambda>m (k, v).
       let name = canonical_header (trim_space k); text = clean_header_value v in
       if identity_header ports name \<and> text \<noteq> [] \<and> length text \<le> 4096 then AList.update name text m else m) [] hs"

subsection \<open>Operations\<close>

record outpost_cfg =
  oo_trust :: string
  oo_agent :: string

definition claim_config ::
  "outpost_ports \<Rightarrow> outpost_cfg \<Rightarrow> claim_answer \<Rightarrow> gotime \<Rightarrow> (nat \<Rightarrow> bool \<times> bool) \<Rightarrow> outpost \<Rightarrow>
   outpost \<times> (outpost_event \<times> nat \<times> bool) list" where
  "claim_config ports cfg answer now sends o1 =
     (let current = os_version (outpost_view o1 now) in
      case answer of
        ClaimFailed \<Rightarrow> (o1\<lparr>op_claim_failures := op_claim_failures o1 + 1\<rparr>, [])
      | ClaimNothing \<Rightarrow> (o1, [])
      | Claimed c \<Rightarrow>
          let o2 = o1\<lparr>op_contact := oc_id c\<rparr> in
          (case apply_config ports (oo_trust cfg) now c o2 of
             (Some e, o3) \<Rightarrow>
               (o3\<lparr>op_claim_failures := op_claim_failures o3 + 1, op_error := ''configuration_rejected''\<rparr>, [])
           | (None, o3) \<Rightarrow>
               (o3, if oc_version c \<noteq> current
                    then report_event o3 now sends ''configuration_applied'' ''configuration_applied'' [] else [])))"

text \<open>What a heartbeat tells the control plane: agent, version, health, error code.\<close>

definition beat_report :: "outpost_cfg \<Rightarrow> outpost_status \<Rightarrow> string \<times> int \<times> string \<times> string" where
  "beat_report cfg s =
     (oo_agent cfg, os_version s, if os_ready s then ''healthy'' else ''unavailable'',
      if \<not> os_ready s \<and> os_error s = [] then ''configuration_unavailable'' else os_error s)"

definition heartbeat ::
  "outpost_ports \<Rightarrow> outpost_cfg \<Rightarrow> beat_answer \<Rightarrow> claim_answer \<Rightarrow> gotime \<Rightarrow> (nat \<Rightarrow> bool \<times> bool) \<Rightarrow> outpost \<Rightarrow>
   (string \<times> int \<times> string \<times> string) option \<times> outpost \<times> (outpost_event \<times> nat \<times> bool) list" where
  "heartbeat ports cfg answer claim now sends o1 =
     (let s = outpost_view o1 now in
      if os_id s = [] then (None, o1, [])
      else (Some (beat_report cfg s),
        case answer of
          BeatFailed \<Rightarrow> (o1\<lparr>op_beat_failures := op_beat_failures o1 + 1\<rparr>, [])
        | BeatAnswered accepted desired \<Rightarrow>
            let o2 = o1\<lparr>op_desired := desired\<rparr> in
            if \<not> accepted then (o2\<lparr>op_beat_failures := op_beat_failures o2 + 1\<rparr>, [])
            else let o3 = o2\<lparr>op_beat := now\<rparr> in
                 if os_version s < desired then claim_config ports cfg claim now sends o3 else (o3, [])))"

definition valid_access_check :: "outpost_ports \<Rightarrow> access_check \<Rightarrow> bool" where
  "valid_access_check ports c \<longleftrightarrow>
     known_decision ports (ac_decision c)
     \<and> (if ac_decision c = ''allow'' then 200 \<le> ac_status c \<and> ac_status c < 300
        else if ac_decision c = ''deny'' then 400 \<le> ac_status c \<and> ac_status c < 500
        else if ac_decision c = ''redirect'' then
          300 \<le> ac_status c \<and> ac_status c < 400
          \<and> (let target = trim_space (ac_redirect c) in
             if has_prefix target ''/'' then \<not> has_prefix target ''//''
             else case redirect_target ports target of
               None \<Rightarrow> False
             | Some (scheme, host) \<Rightarrow> scheme = ''https'' \<and> host \<noteq> [])
        else False)"

abbreviation unavailable_result :: access_result where
  "unavailable_result \<equiv> \<lparr>ax_decision = ''deny'', ax_headers = [], ax_redirect = [], ax_status = 503\<rparr>"

text \<open>\<open>check\<close> is the answer of the control plane to the question about the selected route,
  \<^const>\<open>None\<close> a failed call.\<close>

definition check_outpost_access ::
  "outpost_ports \<Rightarrow> outpost option \<Rightarrow> access_request \<Rightarrow> gotime \<Rightarrow> (outpost_config \<Rightarrow> outpost_route \<Rightarrow> access_check option) \<Rightarrow>
   (nat \<Rightarrow> bool \<times> bool) \<Rightarrow>
   access_result \<times> access_error option \<times> outpost option \<times> (outpost_event \<times> nat \<times> bool) list" where
  "check_outpost_access ports oo q now check sends =
     (case oo of
        None \<Rightarrow> (unavailable_result, Some OutpostUnavailable, None, [])
      | Some o1 \<Rightarrow>
          (case route_request o1 (aq_host q) (aq_path q) now of
             Inl e \<Rightarrow> (unavailable_result, Some e, Some o1, [])
           | Inr (c, r, skip) \<Rightarrow>
               if skip
               then (\<lparr>ax_decision = ''allow'', ax_headers = [], ax_redirect = [], ax_status = 204\<rparr>, None, Some o1, [])
               else (case check c r of
                 None \<Rightarrow>
                   (unavailable_result, Some OutpostUnavailable,
                    Some (o1\<lparr>op_check_failures := op_check_failures o1 + 1\<rparr>),
                    report_event o1 now sends ''check_failed'' ''check_failed'' ''core_check_failed'')
               | Some a \<Rightarrow>
                   if \<not> valid_access_check ports a
                   then (unavailable_result, Some OutpostUnavailable,
                         Some (o1\<lparr>op_check_failures := op_check_failures o1 + 1\<rparr>),
                         report_event o1 now sends ''check_failed'' ''check_failed'' ''core_check_failed'')
                   else let res = \<lparr>ax_decision = ac_decision a, ax_headers = clean_headers ports (ac_headers a),
                              ax_redirect = ac_redirect a, ax_status = ac_status a\<rparr>
                        in if ac_decision a = ''allow'' then (res, None, Some o1, [])
                           else (res, Some OutpostDenied, Some (o1\<lparr>op_denied := op_denied o1 + 1\<rparr>),
                                 report_event o1 now sends ''check_denied'' ''check_denied'' (ac_reason a)))))"

text \<open>The answer of the forward-auth endpoint, \<^verbatim>\<open>internal/agent/api/routes_outpost.go\<close>: status and
  headers. \<open>uri\<close> is the parsed original URL: whether it is absolute, its path, and the text it has
  once scheme and host are put in.\<close>

record forward_request =
  fr_uri :: "(bool \<times> string \<times> (string \<Rightarrow> string \<Rightarrow> string)) option"
  fr_original :: string
  fr_proto :: string
  fr_forwarded_host :: string
  fr_host :: string
  fr_forwarded_method :: string
  fr_method :: string
  fr_token :: string
  fr_cookie :: string
  fr_ip :: string
  fr_nginx :: bool

definition forward_access :: "forward_request \<Rightarrow> access_request option" where
  "forward_access f =
     (case fr_uri f of
        None \<Rightarrow> None
      | Some (absolute, p, render) \<Rightarrow>
          let host = (if trim_space (fr_forwarded_host f) = [] then fr_host f else trim_space (fr_forwarded_host f));
              proto = (if trim_space (fr_proto f) = [] then ''https'' else trim_space (fr_proto f))
          in if \<not> absolute \<and> proto \<noteq> ''http'' \<and> proto \<noteq> ''https'' then None
             else Some \<lparr>aq_method = (if trim_space (fr_forwarded_method f) = [] then fr_method f
                                     else trim_space (fr_forwarded_method f)),
                   aq_url = (if absolute then fr_original f else render proto host),
                   aq_host = host, aq_path = (if p = [] then ''/'' else p),
                   aq_token = (if trim_space (fr_token f) = [] then trim_space (fr_cookie f) else trim_space (fr_token f)),
                   aq_ip = fr_ip f\<rparr>)"

definition forward_status :: "bool \<Rightarrow> access_result \<Rightarrow> access_error option \<Rightarrow> int" where
  "forward_status nginx res err =
     (let s1 = (if ax_redirect res \<noteq> [] \<and> ax_decision res = ''redirect'' \<and> nginx then 401 else ax_status res);
          s2 = (if err \<noteq> None \<and> s1 = 0 then 503 else s1)
      in if s2 = 0 then 403 else s2)"

definition forward_auth ::
  "outpost_ports \<Rightarrow> outpost option \<Rightarrow> forward_request \<Rightarrow> gotime \<Rightarrow> (outpost_config \<Rightarrow> outpost_route \<Rightarrow> access_check option) \<Rightarrow>
   (nat \<Rightarrow> bool \<times> bool) \<Rightarrow> int \<times> (string \<times> string) list" where
  "forward_auth ports oo f now check sends =
     (case forward_access f of
        None \<Rightarrow> (400, [])
      | Some q \<Rightarrow>
          let (res, err, oo', events) = check_outpost_access ports oo q now check sends;
              moved = ax_redirect res \<noteq> [] \<and> ax_decision res = ''redirect''
          in (forward_status (fr_nginx f) res err,
              ax_headers res @ (if moved then [(''Location'', ax_redirect res)] else [])
                @ (if moved \<and> fr_nginx f then [(''X-Soha-Login-URL'', ax_redirect res)] else [])))"

subsection \<open>Routing is by the first longest prefix\<close>

definition longest_route :: "string \<Rightarrow> string \<Rightarrow> outpost_route list \<Rightarrow> outpost_route option" where
  "longest_route host p rs =
     (let ms = filter (route_matches host p) rs in
      find (\<lambda>r. \<forall>s \<in> set ms. length (route_prefix s) \<le> length (route_prefix r)) ms)"

lemma first_non_empty_trim: "first_non_empty (trim_space a # vs) = first_non_empty (a # vs)"
  by (simp add: first_non_empty_def)

lemma route_prefix_alt: "clean_path (first_non_empty [or_prefix r, ''/'']) = route_prefix r"
  by (simp add: route_prefix_def first_non_empty_trim)

text \<open>The loop keeps the first longest match of what it has seen.\<close>

lemma select_route_spec:
  "select_route host p sel rs =
     (let ms = (case sel of None \<Rightarrow> [] | Some s \<Rightarrow> [s]) @ filter (route_matches host p) rs in
      find (\<lambda>r. \<forall>s \<in> set ms. length (route_prefix s) \<le> length (route_prefix r)) ms)"
proof (induction rs arbitrary: sel)
  case Nil
  then show ?case by (cases sel) (simp_all add: Let_def)
next
  case (Cons r rs)
  show ?case
  proof (cases "route_matches host p r")
    case False
    then show ?thesis by (simp add: Cons.IH)
  next
    case True
    show ?thesis
    proof (cases sel)
      case None
      with True show ?thesis by (simp add: Cons.IH Let_def)
    next
      case (Some s)
      then show ?thesis
        using True by (auto simp: Cons.IH Let_def route_prefix_alt intro!: arg_cong [where f = "\<lambda>q. find q _"])
    qed
  qed
qed

subsection \<open>Path prefixes are prefixes of components\<close>

lemma parts_abs_render: "is_abs p \<Longrightarrow> clean_path p = render_path True (path_parts p)"
  by (simp add: clean_path_def)

lemma request_path_abs [simp]: "is_abs (request_path p)"
  by (simp add: request_path_def is_abs_def [of "CHR ''/'' # _"] has_prefix_def)

lemma trim_suffix_slash:
  assumes "list_all plain_part qs" and "qs \<noteq> []"
  shows "trim_suffix (render_path True qs) ''/'' = render_path True qs"
proof -
  obtain us q where qs: "qs = us @ [q]" using assms(2) by (metis rev_exhaust)
  with assms(1) have "q \<noteq> []" "CHR ''/'' \<notin> set q" by (auto simp: plain_part_def)
  then obtain a z where q: "q = a @ [z]" "z \<noteq> CHR ''/''" by (cases q rule: rev_cases) auto
  have "\<exists>a'. render_path True qs = a' @ [z]"
    unfolding qs render_path_def using q by (cases "us = []") (auto simp: join_with_append)
  then obtain a' where "render_path True qs = a' @ [z]" by blast
  with q show ?thesis by (simp add: trim_suffix_def has_suffix_def has_prefix_def)
qed

lemma has_path_prefix_parts:
  assumes p: "list_all plain_part ps" and q: "list_all plain_part qs"
    and pre: "has_path_prefix (render_path True ps) (render_path True qs)"
  shows "\<exists>rest. ps = qs @ rest"
proof (cases "qs = []")
  case False
  have stack: "clean_stack True (rev xs)" if "list_all plain_part xs" for xs
    unfolding clean_stack_def using that by (intro exI [of _ "rev xs"] exI [of _ 0]) (simp add: list_all_iff)
  have inj: "xs = ys" if "render_path True xs = render_path True ys" "list_all plain_part xs" "list_all plain_part ys"
    for xs ys
    using that path_parts_render [OF stack] by metis
  have "render_path True qs \<noteq> ''/''"
    using inj [of qs "[]"] False q by (auto simp: render_path_def)
  with pre have "ps = qs \<or> has_prefix (render_path True ps) (render_path True qs @ ''/'')"
    using inj p q by (auto simp: has_path_prefix_def trim_suffix_slash [OF q False])
  then show ?thesis
  proof
    assume "has_prefix (render_path True ps) (render_path True qs @ ''/'')"
    then obtain t where t: "render_path True ps = render_path True qs @ ''/'' @ t" by (auto simp: has_prefix_iff)
    have ne: "render_path True qs \<noteq> []" "is_abs (render_path True qs)"
      by (simp_all add: render_path_def is_abs_def has_prefix_def)
    have "path_parts (render_path True ps) = rev (foldl (clean_step True) (rev qs) (split_char CHR ''/'' t))"
      using path_parts_append [OF ne(1), of t] ne(2) path_parts_render [OF stack [OF q]] t by simp
    then have "ps = rev (foldl (clean_step True) (rev qs) (split_char CHR ''/'' t))"
      using path_parts_render [OF stack [OF p]] by simp
    moreover have "join_with ''/'' ps = join_with ''/'' qs @ ''/'' @ t"
      using t by (simp add: render_path_def)
    moreover have "split_char CHR ''/'' (join_with ''/'' xs) = xs" if "list_all plain_part xs" "xs \<noteq> []" for xs
      using that by (intro split_join) (auto simp: list_all_iff plain_part_def)
    moreover have "ps \<noteq> []" using t ne False by (auto simp: render_path_def)
    ultimately have "ps = qs @ split_char CHR ''/'' t"
      using p q False by (metis append.simps(1) append.simps(2) split_char_append)
    then show ?thesis by blast
  qed auto
qed simp

lemma trim_suffix_prefix: "\<exists>w. s = trim_suffix s x @ w"
  by (metis append.right_neutral append_take_drop_id trim_suffix_def)

lemma has_path_prefix_abs:
  assumes "is_abs p" and "has_path_prefix p q" and "q \<noteq> []"
  shows "is_abs q"
proof -
  consider "q = ''/''" | "p = q" | "has_prefix p (trim_suffix q ''/'' @ ''/'')"
    using assms(2) by (auto simp: has_path_prefix_def)
  then show ?thesis
  proof cases
    case 3
    obtain w where w: "q = trim_suffix q ''/'' @ w" using trim_suffix_prefix by blast
    show ?thesis
    proof (cases "trim_suffix q ''/''")
      case Nil
      with assms(3) have "q = ''/''" by (auto simp: trim_suffix_def has_suffix_def has_prefix_iff split: if_splits)
      then show ?thesis by (simp add: is_abs_def)
    next
      case (Cons c cs)
      with 3 assms(1) have "c = CHR ''/''" by (cases p) (auto simp: is_abs_def)
      with Cons w have "q = CHR ''/'' # cs @ w" by simp
      then show ?thesis by (simp add: is_abs_def has_prefix_def)
    qed
  qed (use assms(1) in \<open>auto simp: is_abs_def\<close>)
qed

subsection \<open>Histories\<close>

inductive outpost_run :: "outpost_ports \<Rightarrow> outpost_cfg \<Rightarrow> outpost \<Rightarrow> bool" for ports cfg where
  op_new: "outpost_run ports cfg new_outpost"
| op_claim: "outpost_run ports cfg o1 \<Longrightarrow> outpost_run ports cfg (fst (claim_config ports cfg answer now sends o1))"
| op_beat: "outpost_run ports cfg o1 \<Longrightarrow>
    outpost_run ports cfg (fst (snd (heartbeat ports cfg answer claim now sends o1)))"
| op_check: "outpost_run ports cfg o1 \<Longrightarrow>
    check_outpost_access ports (Some o1) q now check sends = (res, err, Some o2, events) \<Longrightarrow>
    outpost_run ports cfg o2"

definition config_trusted :: "outpost_ports \<Rightarrow> outpost_cfg \<Rightarrow> outpost_config \<Rightarrow> bool" where
  "config_trusted ports cfg c \<longleftrightarrow> (\<exists>t. check_config ports (oo_trust cfg) t c = None)"

lemma check_config_None:
  "check_config ports trust now c = None \<longleftrightarrow>
     trim_space (oc_key c) = trim_space trust \<and> config_current c now \<and> verify_config ports c
     \<and> check_routes (oc_routes c) = None"
  by (auto simp: check_config_def split: option.splits)

lemma check_routes_None: "check_routes rs = None \<longleftrightarrow> (\<forall>r \<in> set rs. route_valid r \<and> skips_valid r)"
  by (induction rs) auto

lemma apply_config_cases:
  assumes "apply_config ports trust now c o1 = (e, o2)"
  obtains "e = None" "check_config ports trust now c = None" "config_newer c (op_config o1) = None"
    "o2 = o1\<lparr>op_config := Some c, op_error := [], op_desired := oc_version c, op_claimed := now\<rparr>"
  | "e \<noteq> None" "o2 = o1"
proof (cases "check_config ports trust now c")
  case valid: None
  show thesis
  proof (cases "config_newer c (op_config o1)")
    case None
    with assms valid have "e = None"
      "o2 = o1\<lparr>op_config := Some c, op_error := [], op_desired := oc_version c, op_claimed := now\<rparr>"
      by (simp_all add: apply_config_def)
    from that(1) [OF this(1) valid None this(2)] show thesis .
  next
    case (Some a)
    have "e \<noteq> None" "o2 = o1" using assms by (auto simp: apply_config_def valid Some)
    from that(2) [OF this] show thesis .
  qed
next
  case (Some a)
  have "e \<noteq> None" "o2 = o1" using assms by (auto simp: apply_config_def Some)
  from that(2) [OF this] show thesis .
qed

text \<open>A claim keeps the configuration, or replaces it by a trusted, newer one.\<close>

lemma claim_config_cases:
  assumes "claim_config ports cfg answer now sends o1 = (o2, events)"
  obtains "op_config o2 = op_config o1"
  | c where "op_config o2 = Some c" "answer = Claimed c" "check_config ports (oo_trust cfg) now c = None"
    "config_newer c (op_config o1) = None" "op_error o2 = []"
proof (cases answer)
  case (Claimed c)
  obtain e o3 where ap: "apply_config ports (oo_trust cfg) now c (o1\<lparr>op_contact := oc_id c\<rparr>) = (e, o3)"
    by (meson surj_pair)
  from ap show thesis
  proof (cases rule: apply_config_cases)
    case 1
    with Claimed ap assms have "o2 = o3" by (auto simp: claim_config_def Let_def)
    with 1 Claimed that(2) [of c] show thesis by simp
  next
    case 2
    then obtain e' where "e = Some e'" by auto
    with 2 Claimed ap assms that(1) show thesis by (auto simp: claim_config_def Let_def)
  qed
qed (use assms that(1) in \<open>auto simp: claim_config_def\<close>)

lemma heartbeat_cases:
  assumes "snd (heartbeat ports cfg answer claim now sends o1) = (o2, events)"
  obtains "op_config o2 = op_config o1"
  | o3 where "claim_config ports cfg claim now sends o3 = (o2, events)" "op_config o3 = op_config o1"
  using assms by (auto simp: heartbeat_def Let_def split: if_splits beat_answer.splits)

lemma outpost_run_trusted:
  "outpost_run ports cfg o1 \<Longrightarrow> op_config o1 = Some c \<Longrightarrow> config_trusted ports cfg c"
proof (induction arbitrary: c rule: outpost_run.induct)
  case (op_claim o1 answer now sends)
  obtain o2 events where cl: "claim_config ports cfg answer now sends o1 = (o2, events)" by (meson surj_pair)
  from cl show ?case
    by (cases rule: claim_config_cases) (use op_claim cl in \<open>auto simp: config_trusted_def\<close>)
next
  case (op_beat o1 answer claim now sends)
  obtain o2 events where hb: "snd (heartbeat ports cfg answer claim now sends o1) = (o2, events)" by (meson surj_pair)
  from hb show ?case
  proof (cases rule: heartbeat_cases)
    case (2 o3)
    from 2(1) show ?thesis
      by (cases rule: claim_config_cases) (use op_beat hb 2 in \<open>auto simp: config_trusted_def\<close>)
  qed (use op_beat hb in auto)
next
  case (op_check o1 q now check sends res err o2 events)
  then have "op_config o2 = op_config o1"
    by (auto simp: check_outpost_access_def Let_def split: option.splits sum.splits if_splits)
  with op_check show ?case by simp
qed (simp add: new_outpost_def)

lemma select_route_member: "select_route host p None rs = Some r \<Longrightarrow> r \<in> set rs \<and> route_matches host p r"
proof -
  assume "select_route host p None rs = Some r"
  then have "r \<in> set (filter (route_matches host p) rs)"
    by (auto simp: select_route_spec Let_def find_Some_iff simp del: set_filter intro: nth_mem)
  then show ?thesis by simp
qed

lemma route_request_cases:
  assumes "route_request o1 host p now = Inr (c, r, skip)"
  shows "op_config o1 = Some c" "op_error o1 = []" "now < oc_expires c" "r \<in> set (oc_routes c)"
    "route_matches (request_host host) (request_path p) r"
    "skip \<longleftrightarrow> (\<exists>s \<in> set (or_skips r). has_path_prefix (request_path p) (clean_path s))"
  using assms
  by (auto simp: route_request_def split: option.splits if_splits dest: select_route_member)

subsection \<open>Properties\<close>

text \<open>C18: the loop that picks a route computes the first matching route of the longest prefix.\<close>

theorem select_route_longest:
  "select_route host p None rs = longest_route host p rs"
  by (simp add: select_route_spec longest_route_def)

lemma clean_path_nonempty [simp]: "clean_path p \<noteq> []"
proof (cases "path_parts p")
  case (Cons a as)
  then have "a \<noteq> []"
    using clean_stack_nonempty [OF clean_stack_parts [of p]] by simp
  with Cons show ?thesis by (cases as) (simp_all add: clean_path_def render_path_def)
qed (simp add: clean_path_def render_path_def)

text \<open>A request is let through unchecked only if its path, with every \<open>..\<close> resolved, lies
  component by component below an absolute skip path of the route selected for it.\<close>

theorem skip_path_confined:
  assumes "route_request o1 host p now = Inr (c, r, True)"
  shows "\<exists>s \<in> set (or_skips r). is_abs s
    \<and> (\<exists>rest. path_parts (request_path p) = path_parts s @ rest \<and> list_all plain_part rest)"
proof -
  from route_request_cases(6) [OF assms] obtain s where s: "s \<in> set (or_skips r)"
    "has_path_prefix (request_path p) (clean_path s)" by auto
  have abs: "is_abs s" using has_path_prefix_abs [OF request_path_abs s(2)] by simp
  have rp: "request_path p = render_path True (path_parts (request_path p))"
    using parts_abs_render [OF request_path_abs] by (metis clean_path_idem request_path_def)
  have sp: "clean_path s = render_path True (path_parts s)" by (rule parts_abs_render [OF abs])
  have "\<exists>rest. path_parts (request_path p) = path_parts s @ rest"
    by (rule has_path_prefix_parts)
      (use s(2) rp sp abs_parts_plain [OF request_path_abs] abs_parts_plain [OF abs] in auto)
  then obtain rest where rest: "path_parts (request_path p) = path_parts s @ rest" by blast
  with abs_parts_plain [OF request_path_abs, of p] have "list_all plain_part rest" by simp
  with s(1) abs rest show ?thesis by blast
qed

text \<open>The forward-auth endpoint answers with a success status exactly when the request is routed by
  the configuration in force and either lies below a skip path or is allowed by a well-formed answer of
  the control plane; every failure, refusal and redirection gives another status.\<close>

theorem forward_auth_success_iff:
  "(200 \<le> fst (forward_auth ports oo f now check sends) \<and> fst (forward_auth ports oo f now check sends) < 300)
   \<longleftrightarrow> (\<exists>o1 q c r skip. oo = Some o1 \<and> forward_access f = Some q
        \<and> route_request o1 (aq_host q) (aq_path q) now = Inr (c, r, skip)
        \<and> (skip \<or> (\<exists>a. check c r = Some a \<and> valid_access_check ports a \<and> ac_decision a = ''allow'')))"
proof (cases "forward_access f")
  case None
  then show ?thesis by (simp add: forward_auth_def)
next
  case (Some q)
  note fa = forward_auth_def Some option.case Let_def forward_status_def check_outpost_access_def
  show ?thesis
  proof (cases oo)
    case None
    then show ?thesis using Some by (simp add: fa)
  next
    case (Some o1)
    note oo = Some
    show ?thesis
    proof (cases "route_request o1 (aq_host q) (aq_path q) now")
      case (Inl e)
      then show ?thesis using oo \<open>forward_access f = Some q\<close> by (simp add: fa)
    next
      case (Inr x)
      obtain c r skip where x: "x = (c, r, skip)" by (cases x)
      show ?thesis
      proof (cases "skip \<or> check c r = None")
        case True
        then show ?thesis using oo Inr x \<open>forward_access f = Some q\<close> by (auto simp: fa)
      next
        case False
        then obtain a where a: "check c r = Some a" "\<not> skip" by auto
        show ?thesis
          using oo Inr x a \<open>forward_access f = Some q\<close>
          by (cases "valid_access_check ports a") (auto simp: fa valid_access_check_def split: if_splits)
      qed
    qed
  qed
qed

text \<open>C8: whatever claims, heartbeats and checks came before, a request is served only under a
  configuration that was signed, named the trusted key, was valid when it was accepted, and has not
  expired since; the route taken belongs to it and matches host and path.\<close>

theorem outpost_serves_trusted_config:
  assumes "outpost_run ports cfg o1" and "route_request o1 host p now = Inr (c, r, skip)"
  shows "verify_config ports c \<and> trim_space (oc_key c) = trim_space (oo_trust cfg)
    \<and> (\<exists>t. config_current c t) \<and> now < oc_expires c
    \<and> r \<in> set (oc_routes c) \<and> route_matches (request_host host) (request_path p) r"
proof -
  note rr = route_request_cases [OF assms(2)]
  from outpost_run_trusted [OF assms(1) rr(1)] rr show ?thesis
    by (auto simp: config_trusted_def check_config_None)
qed

text \<open>One operation of an outpost in use: a claim, a heartbeat, which claims when it is told of a newer version, or an access
  check.\<close>

datatype outpost_op =
    ClaimOp claim_answer gotime "nat \<Rightarrow> bool \<times> bool"
  | BeatOp beat_answer claim_answer gotime "nat \<Rightarrow> bool \<times> bool"
  | CheckOp access_request gotime "outpost_config \<Rightarrow> outpost_route \<Rightarrow> access_check option" "nat \<Rightarrow> bool \<times> bool"

fun outpost_step :: "outpost_ports \<Rightarrow> outpost_cfg \<Rightarrow> outpost_op \<Rightarrow> outpost \<Rightarrow> outpost" where
  "outpost_step ports cfg (ClaimOp answer now sends) o1 = fst (claim_config ports cfg answer now sends o1)"
| "outpost_step ports cfg (BeatOp answer claim now sends) o1 = fst (snd (heartbeat ports cfg answer claim now sends o1))"
| "outpost_step ports cfg (CheckOp q now check sends) o1 =
     (case check_outpost_access ports (Some o1) q now check sends of (_, _, Some o2, _) \<Rightarrow> o2 | _ \<Rightarrow> o1)"

text \<open>The configuration an operation may deliver, with the time.\<close>

fun op_delivers :: "outpost_op \<Rightarrow> (outpost_config \<times> gotime) option" where
  "op_delivers (ClaimOp (Claimed c) now sends) = Some (c, now)"
| "op_delivers (BeatOp answer (Claimed c) now sends) = Some (c, now)"
| "op_delivers _ = None"

text \<open>A configuration that is refused while the one in force is \<open>old\<close>.\<close>

definition unacceptable :: "outpost_ports \<Rightarrow> outpost_cfg \<Rightarrow> outpost_config option \<Rightarrow> outpost_config \<times> gotime \<Rightarrow> bool" where
  "unacceptable ports cfg old = (\<lambda>(c, t). check_config ports (oo_trust cfg) t c \<noteq> None \<or> config_newer c old \<noteq> None)"

definition outpost_blocked :: "outpost_config option \<Rightarrow> outpost \<Rightarrow> bool" where
  "outpost_blocked old o1 \<longleftrightarrow> op_config o1 = old \<and> op_error o1 = ''configuration_rejected''"

lemma claim_blocked:
  assumes "op_config o1 = old" and "unacceptable ports cfg old (c, now)"
  shows "outpost_blocked old (fst (claim_config ports cfg (Claimed c) now sends o1))"
  using assms by (auto simp: claim_config_def apply_config_def unacceptable_def outpost_blocked_def Let_def split: option.splits)

lemma claim_stays_blocked:
  assumes "outpost_blocked old o1" and "\<And>c. answer = Claimed c \<Longrightarrow> unacceptable ports cfg old (c, now)"
  shows "outpost_blocked old (fst (claim_config ports cfg answer now sends o1))"
proof (cases answer)
  case (Claimed c)
  then show ?thesis using assms claim_blocked by (simp add: outpost_blocked_def)
qed (use assms(1) in \<open>simp_all add: claim_config_def outpost_blocked_def\<close>)

lemma step_stays_blocked:
  assumes "outpost_blocked old o1" and "pred_option (unacceptable ports cfg old) (op_delivers op)"
  shows "outpost_blocked old (outpost_step ports cfg op o1)"
proof (cases op)
  case (ClaimOp answer now sends)
  then show ?thesis using assms by (auto intro!: claim_stays_blocked)
next
  case (BeatOp answer claim now sends)
  then have a: "unacceptable ports cfg old (c, now)" if "claim = Claimed c" for c using assms(2) that by simp
  have "outpost_blocked old (o1\<lparr>op_desired := d, op_beat := now\<rparr>)" for d using assms(1) by (simp add: outpost_blocked_def)
  then have "outpost_blocked old (fst (claim_config ports cfg claim now sends (o1\<lparr>op_desired := d, op_beat := now\<rparr>)))" for d
    by (rule claim_stays_blocked) (rule a)
  then show ?thesis using assms(1) BeatOp
    by (auto simp: heartbeat_def Let_def outpost_blocked_def split: beat_answer.split)
next
  case (CheckOp q now check sends)
  have "route_request o1 host p t = Inl OutpostUnavailable" for host p t
    using assms(1) by (simp add: outpost_blocked_def route_request_def split: option.split)
  then show ?thesis using assms(1) CheckOp by (simp add: check_outpost_access_def)
qed

lemma history_stays_blocked:
  assumes "outpost_blocked old o1" and "list_all (\<lambda>op. pred_option (unacceptable ports cfg old) (op_delivers op)) ops"
  shows "outpost_blocked old (fold (outpost_step ports cfg) ops o1)"
  using assms by (induction ops arbitrary: o1) (simp_all add: step_stays_blocked)

text \<open>C24: a rejected configuration stops all routing, even while the configuration in force is unexpired, and nothing but a valid
  configuration newer than the one in force, in version or in lease, ends that: through any history of claims, heartbeats and access
  checks that delivers no such configuration every request is refused and the configuration in force stays. The claim that then
  brings one puts it in force, and the outpost is ready again.\<close>

theorem rejected_config_blocks_until_newer:
  assumes "unacceptable ports cfg (op_config o1) (c1, t1)"
    and "list_all (\<lambda>op. pred_option (unacceptable ports cfg (op_config o1)) (op_delivers op)) ops"
    and "o2 = fold (outpost_step ports cfg) ops (fst (claim_config ports cfg (Claimed c1) t1 sends o1))"
    and "\<not> unacceptable ports cfg (op_config o1) (c2, t2)"
    and "o3 = fst (claim_config ports cfg (Claimed c2) t2 sends' o2)"
  shows "route_request o2 host p now = Inl OutpostUnavailable \<and> op_config o2 = op_config o1
    \<and> op_config o3 = Some c2 \<and> op_error o3 = [] \<and> os_ready (outpost_view o3 t2)"
proof -
  have "outpost_blocked (op_config o1) (fst (claim_config ports cfg (Claimed c1) t1 sends o1))"
    using assms(1) by (intro claim_blocked) simp_all
  then have o2: "outpost_blocked (op_config o1) o2" using assms(2,3) by (simp add: history_stays_blocked)
  then have blocked: "route_request o2 host p now = Inl OutpostUnavailable"
    by (simp add: outpost_blocked_def route_request_def split: option.splits)
  have valid: "check_config ports (oo_trust cfg) t2 c2 = None" "config_newer c2 (op_config (o2\<lparr>op_contact := oc_id c2\<rparr>)) = None"
    using assms(4) o2 by (simp_all add: unacceptable_def outpost_blocked_def)
  then have "op_config o3 = Some c2 \<and> op_error o3 = []"
    using assms(5) by (simp add: claim_config_def apply_config_def Let_def)
  moreover have "t2 < oc_expires c2" using valid(1) by (simp add: check_config_None config_current_def)
  ultimately show ?thesis using o2 blocked by (simp add: outpost_view_def outpost_blocked_def Let_def)
qed

lemma replace_char_gone: "replace_all s [c] [] = filter (\<lambda>x. x \<noteq> c) s"
proof (induction s)
  case Nil
  show ?case by (subst replace_all.simps) simp
next
  case (Cons x s)
  then show ?case by (subst replace_all.simps) (auto simp: has_prefix_def)
qed

lemma clean_header_value_code [code]:
  "clean_header_value v = trim_space (filter (\<lambda>x. x \<noteq> CHR 0x0D \<and> x \<noteq> CHR 0x0A) v)"
  by (simp add: clean_header_value_def replace_char_gone conj_commute)

lemma clean_header_value_set: "set (clean_header_value v) \<inter> {CHR 0x0D, CHR 0x0A} = {}"
  using set_trim_space [of "replace_all (replace_all v [CHR 0x0D] []) [CHR 0x0A] []"]
  by (auto simp: clean_header_value_def replace_char_gone)

lemma set_update_sub: "set (AList.update k v m) \<subseteq> insert (k, v) (set m)"
  by (induction m) auto

definition header_ok :: "outpost_ports \<Rightarrow> (string \<times> string) list \<Rightarrow> string \<times> string \<Rightarrow> bool" where
  "header_ok ports hs e \<longleftrightarrow>
     identity_header ports (fst e) \<and> snd e \<noteq> [] \<and> length (snd e) \<le> 4096
     \<and> (\<exists>(k, w) \<in> set hs. fst e = canonical_header (trim_space k) \<and> snd e = clean_header_value w)"

text \<open>Only headers of the identity set leave the outpost, under canonical names, with values of the
  control plane's answer that are not empty, hold no line break and at most 4096 bytes.\<close>

theorem clean_headers_sound:
  assumes "(n, v) \<in> set (clean_headers ports hs)"
  shows "identity_header ports n \<and> v \<noteq> [] \<and> length v \<le> 4096 \<and> CHR 0x0D \<notin> set v \<and> CHR 0x0A \<notin> set v
    \<and> (\<exists>(k, w) \<in> set hs. n = canonical_header (trim_space k) \<and> v = clean_header_value w)"
proof -
  let ?ok = "header_ok ports hs"
  let ?step = "\<lambda>m (k, v). let name = canonical_header (trim_space k); text = clean_header_value v in
       if identity_header ports name \<and> text \<noteq> [] \<and> length text \<le> 4096 then AList.update name text m else m"
  have step: "\<forall>e \<in> set (?step m (k, w)). ?ok e" if kw: "(k, w) \<in> set hs" and m: "\<forall>e \<in> set m. ?ok e" for m k w
  proof -
    have "?ok (canonical_header (trim_space k), clean_header_value w)"
      if "identity_header ports (canonical_header (trim_space k))" "clean_header_value w \<noteq> []"
        "length (clean_header_value w) \<le> 4096"
      using that kw by (auto simp: header_ok_def)
    with m set_update_sub [of "canonical_header (trim_space k)" "clean_header_value w" m] show ?thesis
      by (auto simp: Let_def)
  qed
  have "\<forall>e \<in> set (foldl ?step m xs). ?ok e" if "set xs \<subseteq> set hs" "\<forall>e \<in> set m. ?ok e" for xs m
    using that
  proof (induction xs arbitrary: m)
    case (Cons x xs)
    obtain k w where x: "x = (k, w)" by (cases x)
    have "\<forall>e \<in> set (foldl ?step (?step m (k, w)) xs). ?ok e"
      by (rule Cons.IH) (use Cons.prems x step in auto)
    then show ?case by (simp add: x)
  qed simp
  from this [of hs "[]"] assms have "?ok (n, v)" by (auto simp: clean_headers_def)
  then show ?thesis using clean_header_value_set by (auto simp: header_ok_def)
qed

subsection \<open>Witnesses\<close>

definition sample_ports :: outpost_ports where
  "sample_ports = \<lparr>verify_config = (\<lambda>c. oc_signature c = ''ok''), known_decision = (\<lambda>d. True),
     redirect_target = (\<lambda>s. None), identity_header = (\<lambda>n. has_prefix n ''X-Soha-'')\<rparr>"

definition sample_config :: outpost_config where
  "sample_config = \<lparr>oc_id = ''o1'', oc_protocol = ''v1'', oc_version = 1, oc_issued = 10, oc_expires = 100,
     oc_key = ''k1'', oc_check = ''/check'',
     oc_routes = [\<lparr>or_host = ''app.example.com'', or_prefix = [], or_provider = ''p1'', or_skips = [''/public'']\<rparr>,
       \<lparr>or_host = ''app.example.com'', or_prefix = ''/admin'', or_provider = ''p2'', or_skips = []\<rparr>],
     oc_signature = ''ok''\<rparr>"

definition sample_outpost :: outpost where
  "sample_outpost = fst (claim_config sample_ports \<lparr>oo_trust = ''k1'', oo_agent = ''a1''\<rparr> (Claimed sample_config) 20
     (\<lambda>n. (True, False)) new_outpost)"

lemma sample_outpost_run: "outpost_run sample_ports \<lparr>oo_trust = ''k1'', oo_agent = ''a1''\<rparr> sample_outpost"
  unfolding sample_outpost_def by (rule op_claim [OF op_new])

theorem skip_path_confined_witness:
  "\<exists>s \<in> {''/public''}. is_abs s
     \<and> (\<exists>rest. path_parts (request_path ''/x/../public/health'') = path_parts s @ rest \<and> list_all plain_part rest)"
proof -
  let ?r = "\<lparr>or_host = ''app.example.com'', or_prefix = [], or_provider = ''p1'', or_skips = [''/public'']\<rparr>"
  have "route_request sample_outpost ''App.example.com:443'' ''/x/../public/health'' 30 = Inr (sample_config, ?r, True)"
    by code_simp
  from skip_path_confined [OF this] show ?thesis by simp
qed

theorem outpost_serves_trusted_config_witness:
  "verify_config sample_ports sample_config"
proof -
  let ?r = "\<lparr>or_host = ''app.example.com'', or_prefix = ''/admin'', or_provider = ''p2'', or_skips = []\<rparr>"
  have "route_request sample_outpost ''app.example.com'' ''/admin/users'' 30 = Inr (sample_config, ?r, False)"
    by code_simp
  from outpost_serves_trusted_config [OF sample_outpost_run this] show ?thesis by simp
qed

theorem rejected_config_blocks_until_newer_witness:
  "op_config (fst (claim_config sample_ports \<lparr>oo_trust = ''k1'', oo_agent = ''a1''\<rparr>
      (Claimed (sample_config\<lparr>oc_expires := 200\<rparr>)) 40 (\<lambda>n. (True, False))
      (fold (outpost_step sample_ports \<lparr>oo_trust = ''k1'', oo_agent = ''a1''\<rparr>)
        [BeatOp (BeatAnswered True 9) ClaimNothing 31 (\<lambda>n. (True, False)), ClaimOp ClaimFailed 32 (\<lambda>n. (True, False))]
        (fst (claim_config sample_ports \<lparr>oo_trust = ''k1'', oo_agent = ''a1''\<rparr> (Claimed sample_config) 30
          (\<lambda>n. (True, False)) sample_outpost))))) = Some (sample_config\<lparr>oc_expires := 200\<rparr>)"
proof -
  let ?cfg = "\<lparr>oo_trust = ''k1'', oo_agent = ''a1''\<rparr>"
  have "config_newer sample_config (op_config sample_outpost) \<noteq> None" by code_simp
  then have 1: "unacceptable sample_ports ?cfg (op_config sample_outpost) (sample_config, 30)" by (simp add: unacceptable_def)
  have "check_config sample_ports (oo_trust ?cfg) 40 (sample_config\<lparr>oc_expires := 200\<rparr>) = None" by code_simp
  moreover have "config_newer (sample_config\<lparr>oc_expires := 200\<rparr>) (op_config sample_outpost) = None" by code_simp
  ultimately have 2: "\<not> unacceptable sample_ports ?cfg (op_config sample_outpost) (sample_config\<lparr>oc_expires := 200\<rparr>, 40)"
    by (simp add: unacceptable_def)
  have 3: "list_all (\<lambda>op. pred_option (unacceptable sample_ports ?cfg (op_config sample_outpost)) (op_delivers op))
    [BeatOp (BeatAnswered True 9) ClaimNothing 31 (\<lambda>n. (True, False)), ClaimOp ClaimFailed 32 (\<lambda>n. (True, False))]" by simp
  from rejected_config_blocks_until_newer [OF 1 3 refl 2 refl] show ?thesis by blast
qed

theorem clean_headers_sound_witness:
  "identity_header sample_ports ''X-Soha-A'' \<and> CHR 0x0A \<notin> set ''b c''"
proof -
  have "clean_headers sample_ports [('' x-soha-a'', [CHR 0x0D, CHR 0x0A] @ ''b '' @ [CHR 0x0A] @ ''c'')]
      = [(''X-Soha-A'', ''b c'')]"
    by code_simp
  then have "(''X-Soha-A'', ''b c'') \<in> set (clean_headers sample_ports
      [('' x-soha-a'', [CHR 0x0D, CHR 0x0A] @ ''b '' @ [CHR 0x0A] @ ''c'')])"
    by simp
  from clean_headers_sound [OF this] show ?thesis by blast
qed

end
