(* ===== verification/GuestClient.thy ===== *)
theory GuestClient
  imports SohaPrelude
begin

text \<open>
  The liveness client of a personal VM, \<^verbatim>\<open>internal/agent/environment/personalguest/client.go\<close>,
  \<^verbatim>\<open>renewal.go\<close> and \<^verbatim>\<open>state.go\<close>: enrolment, heartbeats with durable sequence numbers, and renewal
  of the certificate.

  A process reaches the outside through three effects, each a function of a \<open>world\<close>: \<open>send\<close> (one HTTP
  exchange), \<open>save\<close> (the durable state file) and \<open>now\<close> (the clock). What the outside does is an
  oracle, numbered by the effects so far: replies, whether a save succeeds, fails before or fails
  after the rename, and whether the process is killed at that point. What only reads the outside is
  numbered by ticks: the clock, whether the state file can be locked and read, and \<open>or_usable\<close>, whether
  \<^verbatim>\<open>guestHTTPClientWithCertificate\<close> of \<^verbatim>\<open>tls.go\<close> builds an HTTP client from a certificate, which depends on
  key and CA files and on the time. A killed process has no further effect; its successor starts from
  the file. The contract types are read only through the fields the code uses; the rest of a binding
  is the type \<open>'w\<close>, compared by equality, with \<open>same_workspace\<close> a parameter. Certificates are texts,
  \<open>cert_validity\<close> the two dates of one; \<open>gp_size\<close> is the length of a state as the file holds it.
\<close>

subsection \<open>Data\<close>

record 'w binding =
  bi_id :: string
  bi_version :: int
  bi_generation :: int
  bi_issued :: gotime
  bi_expires :: gotime
  bi_rest :: 'w

record renewal =
  rn_request :: string
  rn_version :: int
  rn_csr :: string

record 'w renewal_result =
  rr_request :: string
  rr_binding :: "'w binding"
  rr_commit :: gotime
  rr_ca :: string
  rr_cert :: string

record 'w guest_state =
  gs_binding :: "'w binding option"
  gs_sequence :: int
  gs_attempted :: bool
  gs_active :: string
  gs_renewal :: "renewal option"
  gs_result :: "'w renewal_result option"

record 'w guest_client =
  gc_state :: "'w guest_state"
  gc_cert :: string

record 'w guest_config =
  gp_binding :: string
  gp_enrollment :: string
  gp_challenge :: string
  gp_ca :: "string option"
  gp_max :: int
  gp_size :: "'w guest_state \<Rightarrow> nat"
  cert_validity :: "string \<Rightarrow> (gotime \<times> gotime) option"
  same_workspace :: "'w binding \<Rightarrow> 'w binding \<Rightarrow> bool"

datatype guest_message =
    AskBinding
  | Enroll string string
  | Beat string int int int
  | AskRenewal "renewal option"
  | CommitRenewal string

text \<open>A reply: none, or status, whether the body is readable, bounded and marked \<^verbatim>\<open>no-store\<close>, and the
  body read as a binding and as a renewal.\<close>

datatype 'w guest_reply = NoReply | Reply int bool "'w binding option" "'w renewal_result option"

datatype save_outcome = Saved | SaveFailed | SaveUnconfirmed

datatype guest_error = Transient | ContextEnded | GuestError string

record 'w guest_oracle =
  or_reply :: "nat \<Rightarrow> 'w guest_reply"
  or_save :: "nat \<Rightarrow> save_outcome"
  or_now :: "nat \<Rightarrow> gotime"
  or_killed :: "nat \<Rightarrow> bool"
  or_csr :: "nat \<Rightarrow> (string \<times> string) option"
  or_open :: "nat \<Rightarrow> bool"
  or_usable :: "nat \<Rightarrow> string \<Rightarrow> bool"

record 'w world =
  wd_effects :: nat
  wd_ticks :: nat
  wd_log :: "(string \<times> guest_message) list"
  wd_disk :: "'w guest_state option"
  wd_dead :: bool

abbreviation empty_state :: "'w guest_state" where
  "empty_state \<equiv> \<lparr>gs_binding = None, gs_sequence = 0, gs_attempted = False, gs_active = [],
     gs_renewal = None, gs_result = None\<rparr>"

subsection \<open>Effects\<close>

definition send :: "'w guest_oracle \<Rightarrow> string \<Rightarrow> guest_message \<Rightarrow> 'w world \<Rightarrow> 'w guest_reply \<times> 'w world" where
  "send q cert m w =
     (if wd_dead w then (NoReply, w)
      else let n = wd_effects w;
               w1 = w\<lparr>wd_effects := Suc n, wd_log := wd_log w @ [(cert, m)], wd_dead := or_killed q n\<rparr>
           in (if or_killed q n then NoReply else or_reply q n, w1))"

text \<open>\<^verbatim>\<open>stateStore.save\<close>: a temporary file is written and synced, renamed over the state file, and
  the directory is synced. An error before the rename leaves the file as it was, one after it leaves the
  new contents.\<close>

definition save :: "'w guest_oracle \<Rightarrow> 'w guest_state \<Rightarrow> 'w world \<Rightarrow> guest_error option \<times> 'w world" where
  "save q s w =
     (if wd_dead w then (Some (GuestError ''save''), w)
      else let n = wd_effects w;
               w1 = w\<lparr>wd_effects := Suc n, wd_dead := or_killed q n\<rparr>
           in case or_save q n of
                Saved \<Rightarrow> (None, w1\<lparr>wd_disk := Some s\<rparr>)
              | SaveFailed \<Rightarrow> (Some (GuestError ''save''), w1)
              | SaveUnconfirmed \<Rightarrow> (Some (GuestError ''save''), w1\<lparr>wd_disk := Some s\<rparr>))"

definition now_of :: "'w guest_oracle \<Rightarrow> 'w world \<Rightarrow> gotime \<times> 'w world" where
  "now_of q w = (or_now q (wd_ticks w), w\<lparr>wd_ticks := Suc (wd_ticks w)\<rparr>)"

definition check_open :: "'w guest_oracle \<Rightarrow> 'w world \<Rightarrow> bool \<times> 'w world" where
  "check_open q w = (or_open q (wd_ticks w), w\<lparr>wd_ticks := Suc (wd_ticks w)\<rparr>)"

definition check_cert :: "'w guest_oracle \<Rightarrow> string \<Rightarrow> 'w world \<Rightarrow> bool \<times> 'w world" where
  "check_cert q cert w = (or_usable q (wd_ticks w) cert, w\<lparr>wd_ticks := Suc (wd_ticks w)\<rparr>)"

text \<open>\<^verbatim>\<open>Client.call\<close>: an error, or the status and what the body reads as (nothing unless the status is 200
  or 201).\<close>

type_synonym 'w call_answer =
  "guest_error + int \<times> 'w binding option \<times> 'w renewal_result option"

definition call_answer :: "'w guest_reply \<Rightarrow> 'w call_answer" where
  "call_answer r =
     (case r of
        NoReply \<Rightarrow> Inl Transient
      | Reply status ok b rr \<Rightarrow>
          if 500 \<le> status \<or> status = 429 then Inl Transient
          else if status \<noteq> 200 \<and> status \<noteq> 201 then Inr (status, None, None)
          else if \<not> ok then Inl (GuestError ''invalid bounded response'')
          else Inr (status, b, rr))"

definition call :: "'w guest_oracle \<Rightarrow> guest_message \<Rightarrow> 'w guest_client \<Rightarrow> 'w world \<Rightarrow> 'w call_answer \<times> 'w world" where
  "call q m c w = (let (r, w1) = send q (gc_cert c) m w in (call_answer r, w1))"

text \<open>Results of the operations that follow: an error if any, the client and the world.\<close>

type_synonym 'w guest_result = "guest_error option \<times> 'w guest_client \<times> 'w world"

definition keep_state :: "'w guest_oracle \<Rightarrow> 'w guest_client \<Rightarrow> 'w world \<Rightarrow> 'w guest_result" where
  "keep_state q c w = (let (e, w1) = save q (gc_state c) w in (e, c, w1))"

subsection \<open>Renewal\<close>

definition use_cert :: "string \<Rightarrow> 'w guest_client \<Rightarrow> 'w guest_client" where
  "use_cert cert c = c\<lparr>gc_cert := cert\<rparr>"

definition drop_renewal :: "'w guest_state \<Rightarrow> 'w guest_state" where
  "drop_renewal s = s\<lparr>gs_renewal := None, gs_result := None\<rparr>"

definition reset_expired_renewal ::
  "'w guest_config \<Rightarrow> 'w guest_oracle \<Rightarrow> 'w guest_client \<Rightarrow> 'w world \<Rightarrow> 'w guest_result" where
  "reset_expired_renewal cfg q c w =
     (let (usable, w0) = check_cert q (gs_active (gc_state c)) w in
      if \<not> usable then (Some (GuestError ''certificate''), c, w0)
      else let c1 = use_cert (gs_active (gc_state c)) c; (a, w1) = call q AskBinding c1 w0 in
        case a of
          Inl e \<Rightarrow> (Some e, c1, w1)
        | Inr (status, b, rr) \<Rightarrow>
            if status \<noteq> 200 \<or> b = None \<or> b \<noteq> gs_binding (gc_state c1)
            then (Some (GuestError ''expired renewal cannot recover current authority''), c1, w1)
            else keep_state q (c1\<lparr>gc_state := drop_renewal (gc_state c1)\<rparr>) w1)"

definition confirm_expired_renewal ::
  "'w guest_config \<Rightarrow> 'w guest_oracle \<Rightarrow> 'w guest_client \<Rightarrow> 'w world \<Rightarrow> 'w guest_result" where
  "confirm_expired_renewal cfg q c w =
     (let (usable, w0) = check_cert q (gs_active (gc_state c)) w in
      if \<not> usable then (Some (GuestError ''certificate''), c, w0)
      else let c1 = use_cert (gs_active (gc_state c)) c; (a, w1) = call q (AskRenewal (gs_renewal (gc_state c1))) c1 w0 in
        case a of
          Inl e \<Rightarrow> (Some e, c1, w1)
        | Inr (status, b, rr) \<Rightarrow>
            if status \<noteq> 410 then (Some (GuestError ''pending guest renewal expiry is unconfirmed''), c1, w1)
            else reset_expired_renewal cfg q c1 w1)"

definition prepare_renewal :: "'w guest_oracle \<Rightarrow> 'w guest_client \<Rightarrow> 'w world \<Rightarrow> 'w guest_result" where
  "prepare_renewal q c w =
     (case or_csr q (wd_effects w) of
        None \<Rightarrow> (Some (GuestError ''signing key''), c, w)
      | Some (i, csr) \<Rightarrow>
          (case gs_binding (gc_state c) of
             None \<Rightarrow> (Some (GuestError ''no binding''), c, w)
           | Some b \<Rightarrow>
               keep_state q (c\<lparr>gc_state := (gc_state c)
                 \<lparr>gs_renewal := Some \<lparr>rn_request = i, rn_version = bi_version b, rn_csr = csr\<rparr>\<rparr>\<rparr>) w))"

definition renewal_acceptable ::
  "'w guest_config \<Rightarrow> renewal \<Rightarrow> 'w binding \<Rightarrow> string \<Rightarrow> 'w renewal_result \<Rightarrow> bool" where
  "renewal_acceptable cfg rn old ca r \<longleftrightarrow>
     rr_request r = rn_request rn \<and> bi_id (rr_binding r) = bi_id old
     \<and> bi_version (rr_binding r) = bi_version old + 1 \<and> same_workspace cfg old (rr_binding r)
     \<and> bi_issued (rr_binding r) < rr_commit r \<and> rr_commit r - bi_issued (rr_binding r) \<le> 5 * minute
     \<and> trim_space (rr_ca r) = trim_space ca"

text \<open>The flag says that a result to commit is ready.\<close>

definition receive_renewal ::
  "'w guest_config \<Rightarrow> 'w guest_oracle \<Rightarrow> renewal \<Rightarrow> 'w binding \<Rightarrow> 'w guest_client \<Rightarrow> 'w world \<Rightarrow>
   bool \<times> 'w guest_result" where
  "receive_renewal cfg q rn old c w =
     (let (a, w1) = call q (AskRenewal (Some rn)) c w in
      case a of
        Inl e \<Rightarrow> (False, Some e, c, w1)
      | Inr (status, b, rr) \<Rightarrow>
          if status = 410 then (False, reset_expired_renewal cfg q c w1)
          else (case (status = 200, rr) of
            (True, Some r) \<Rightarrow>
              (case gp_ca cfg of
                 None \<Rightarrow> (False, Some (GuestError ''ca''), c, w1)
               | Some ca \<Rightarrow>
                   if \<not> renewal_acceptable cfg rn old ca r
                   then (False, Some (GuestError ''renewal changed workspace or trust authority''), c, w1)
                   else let (usable, w2) = check_cert q (rr_cert r) w1 in
                        if \<not> usable then (False, Some (GuestError ''certificate''), c, w2)
                        else let (e, c2, w3) = keep_state q (c\<lparr>gc_state := (gc_state c)\<lparr>gs_result := Some r\<rparr>\<rparr>) w2
                             in (e = None, e, c2, w3))
          | _ \<Rightarrow> (False, Some (GuestError ''renewal was denied''), c, w1)))"

definition commit_renewal ::
  "'w guest_config \<Rightarrow> 'w guest_oracle \<Rightarrow> 'w renewal_result \<Rightarrow> 'w guest_client \<Rightarrow> 'w world \<Rightarrow> 'w guest_result" where
  "commit_renewal cfg q r c w =
     (let (usable, w0) = check_cert q (rr_cert r) w in
      if \<not> usable then (Some (GuestError ''certificate''), c, w0)
      else let c1 = use_cert (rr_cert r) c; (a, w1) = call q (CommitRenewal (rr_request r)) c1 w0 in
        case a of
          Inl e \<Rightarrow> (Some e, c1, w1)
        | Inr (status, b, rr) \<Rightarrow>
            if status = 410 then reset_expired_renewal cfg q c1 w1
            else if status \<noteq> 200 \<or> b \<noteq> Some (rr_binding r)
            then (Some (GuestError ''renewal commit is unconfirmed''), c1, w1)
            else keep_state q (c1\<lparr>gc_state := (drop_renewal (gc_state c1))
                   \<lparr>gs_binding := Some (rr_binding r), gs_active := rr_cert r\<rparr>\<rparr>) w1)"

definition receive_and_commit ::
  "'w guest_config \<Rightarrow> 'w guest_oracle \<Rightarrow> renewal \<Rightarrow> 'w binding \<Rightarrow> 'w guest_client \<Rightarrow> 'w world \<Rightarrow> 'w guest_result" where
  "receive_and_commit cfg q rn old c w =
     (case gs_result (gc_state c) of
        Some r \<Rightarrow> commit_renewal cfg q r c w
      | None \<Rightarrow>
          (case receive_renewal cfg q rn old c w of
             (ready, e, c1, w1) \<Rightarrow>
               (case (ready, gs_result (gc_state c1)) of
                  (True, Some r) \<Rightarrow> commit_renewal cfg q r c1 w1
                | _ \<Rightarrow> (e, c1, w1))))"

definition continue_renewal ::
  "'w guest_config \<Rightarrow> 'w guest_oracle \<Rightarrow> 'w binding \<Rightarrow> 'w guest_client \<Rightarrow> 'w world \<Rightarrow> 'w guest_result" where
  "continue_renewal cfg q b c w =
     (case gs_renewal (gc_state c) of
        Some rn \<Rightarrow> receive_and_commit cfg q rn b c w
      | None \<Rightarrow>
          (case prepare_renewal q c w of
             (Some e, c1, w1) \<Rightarrow> (Some e, c1, w1)
           | (None, c1, w1) \<Rightarrow>
               (case gs_renewal (gc_state c1) of
                  None \<Rightarrow> (None, c1, w1)
                | Some rn \<Rightarrow> receive_and_commit cfg q rn b c1 w1)))"

definition renew :: "'w guest_config \<Rightarrow> 'w guest_oracle \<Rightarrow> 'w guest_client \<Rightarrow> 'w world \<Rightarrow> 'w guest_result" where
  "renew cfg q c w =
     (case gs_binding (gc_state c) of
        None \<Rightarrow> (Some (GuestError ''renewal requires a durable registered binding''), c, w)
      | Some b \<Rightarrow>
          (case gs_result (gc_state c) of
             None \<Rightarrow> continue_renewal cfg q b c w
           | Some r \<Rightarrow>
               let (t, w0) = now_of q w in
               if rr_commit r \<le> t then confirm_expired_renewal cfg q c w0
               else continue_renewal cfg q b c w0))"

subsection \<open>Enrolment and heartbeats\<close>

text \<open>\<^verbatim>\<open>acceptBinding\<close> reads the clock twice.\<close>

definition accept_binding ::
  "'w guest_config \<Rightarrow> 'w guest_oracle \<Rightarrow> 'w binding option \<Rightarrow> 'w guest_client \<Rightarrow> 'w world \<Rightarrow> 'w guest_result" where
  "accept_binding cfg q got c w =
     (let (t1, w1) = now_of q w; (t2, w2) = now_of q w1 in
      case got of
        None \<Rightarrow> (Some (GuestError ''invalid binding''), c, w2)
      | Some b \<Rightarrow>
          if bi_id b \<noteq> gp_binding cfg \<or> t1 < bi_issued b \<or> bi_expires b \<le> t2
          then (Some (GuestError ''invalid binding''), c, w2)
          else if gs_binding (gc_state c) \<noteq> None \<and> gs_binding (gc_state c) \<noteq> Some b
          then (Some (GuestError ''binding changed across restart''), c, w2)
          else keep_state q (c\<lparr>gc_state := (gc_state c)\<lparr>gs_binding := Some b\<rparr>\<rparr>) w2)"

definition recover_enrollment ::
  "'w guest_config \<Rightarrow> 'w guest_oracle \<Rightarrow> 'w guest_client \<Rightarrow> 'w world \<Rightarrow> 'w guest_result" where
  "recover_enrollment cfg q c w =
     (let (a, w1) = call q AskBinding c w in
      case a of
        Inl e \<Rightarrow> (Some (GuestError ''enrollment is unconfirmed''), c, w1)
      | Inr (status, b, rr) \<Rightarrow>
          if status \<noteq> 200 then (Some (GuestError ''enrollment is unconfirmed''), c, w1)
          else accept_binding cfg q b c w1)"

definition register ::
  "'w guest_config \<Rightarrow> 'w guest_oracle \<Rightarrow> 'w guest_client \<Rightarrow> 'w world \<Rightarrow> 'w guest_result" where
  "register cfg q c w =
     (let c1 = c\<lparr>gc_state := (gc_state c)\<lparr>gs_attempted := True\<rparr>\<rparr> in
      case keep_state q c1 w of
        (Some e, c2, w2) \<Rightarrow> (Some e, c2, w2)
      | (None, c2, w2) \<Rightarrow>
          let (a, w3) = call q (Enroll (gp_enrollment cfg) (gp_challenge cfg)) c2 w2 in
          (case a of
             Inl e \<Rightarrow> recover_enrollment cfg q c2 w3
           | Inr (status, b, rr) \<Rightarrow>
               if status = 201 then accept_binding cfg q b c2 w3 else recover_enrollment cfg q c2 w3))"

definition enroll :: "'w guest_config \<Rightarrow> 'w guest_oracle \<Rightarrow> 'w guest_client \<Rightarrow> 'w world \<Rightarrow> 'w guest_result" where
  "enroll cfg q c w =
     (case (if gs_renewal (gc_state c) \<noteq> None then renew cfg q c w else (None, c, w)) of
        (Some e, c1, w1) \<Rightarrow> (Some e, c1, w1)
      | (None, c1, w1) \<Rightarrow>
          let (a, w2) = call q AskBinding c1 w1 in
          (case a of
             Inl e \<Rightarrow> (Some e, c1, w2)
           | Inr (status, b, rr) \<Rightarrow>
               if status = 200 then
                 (if gs_binding (gc_state c1) = None \<and> \<not> gs_attempted (gc_state c1)
                  then (Some (GuestError ''registered guest has lost its durable sequence state''), c1, w2)
                  else accept_binding cfg q b c1 w2)
               else if status \<noteq> 401 \<or> gs_binding (gc_state c1) \<noteq> None
               then (Some (GuestError ''binding authorization denied''), c1, w2)
               else register cfg q c1 w2))"

text \<open>Half of the certificate's life is over.\<close>

definition renewal_due :: "'w guest_config \<Rightarrow> string \<Rightarrow> gotime \<Rightarrow> bool" where
  "renewal_due cfg cert t =
     (case cert_validity cfg cert of
        None \<Rightarrow> False
      | Some (from_t, until_t) \<Rightarrow> until_t - (until_t - from_t) div 2 \<le> t)"

definition send_beat :: "'w guest_config \<Rightarrow> 'w guest_oracle \<Rightarrow> 'w guest_client \<Rightarrow> 'w world \<Rightarrow> 'w guest_result" where
  "send_beat cfg q c w =
     (case gs_binding (gc_state c) of
        None \<Rightarrow> (Some (GuestError ''binding or sequence has expired''), c, w)
      | Some b \<Rightarrow>
          let (t, w1) = now_of q w in
          if gp_max cfg \<le> gs_sequence (gc_state c) \<or> bi_expires b \<le> t
          then (Some (GuestError ''binding or sequence has expired''), c, w1)
          else
            let c1 = c\<lparr>gc_state := (gc_state c)\<lparr>gs_sequence := gs_sequence (gc_state c) + 1\<rparr>\<rparr> in
            (case keep_state q c1 w1 of
               (Some e, c2, w2) \<Rightarrow> (Some e, c2, w2)
             | (None, c2, w2) \<Rightarrow>
                 let (a, w3) = call q (Beat (bi_id b) (bi_version b) (bi_generation b) (gs_sequence (gc_state c2))) c2 w2
                 in (case a of
                       Inl e \<Rightarrow> (Some e, c2, w3)
                     | Inr (status, b2, rr) \<Rightarrow>
                         (if status \<noteq> 204 then Some (GuestError ''heartbeat authorization or sequence denied'') else None,
                          c2, w3))))"

definition guest_heartbeat ::
  "'w guest_config \<Rightarrow> 'w guest_oracle \<Rightarrow> bool \<Rightarrow> 'w guest_client \<Rightarrow> 'w world \<Rightarrow> 'w guest_result" where
  "guest_heartbeat cfg q ended c w =
     (if ended then (Some ContextEnded, c, w)
      else
        let (due, w0) = (if gs_renewal (gc_state c) \<noteq> None then (True, w)
                         else let (t, w1) = now_of q w in (renewal_due cfg (gc_cert c) t, w1)) in
        (case (if due then renew cfg q c w0 else (None, c, w0)) of
           (Some e, c1, w1) \<Rightarrow> (Some e, c1, w1)
         | (None, c1, w1) \<Rightarrow> send_beat cfg q c1 w1))"

text \<open>The loop of \<^verbatim>\<open>Client.Run\<close>: one entry per round, saying whether the context has ended when the round
  begins; the end of the list is the end of the context while the loop waits.\<close>

fun beat_loop ::
  "'w guest_config \<Rightarrow> 'w guest_oracle \<Rightarrow> nat \<Rightarrow> bool list \<Rightarrow> 'w guest_client \<Rightarrow> 'w world \<Rightarrow> 'w guest_result" where
  "beat_loop cfg q failures [] c w = (None, c, w)"
| "beat_loop cfg q failures (ended # rounds) c w =
     (case guest_heartbeat cfg q ended c w of
        (None, c1, w1) \<Rightarrow> beat_loop cfg q 0 rounds c1 w1
      | (Some e, c1, w1) \<Rightarrow>
          if e \<noteq> Transient \<or> 3 \<le> Suc failures then (Some e, c1, w1)
          else beat_loop cfg q (Suc failures) rounds c1 w1)"

definition guest_run ::
  "'w guest_config \<Rightarrow> 'w guest_oracle \<Rightarrow> bool list \<Rightarrow> 'w guest_client \<Rightarrow> 'w world \<Rightarrow> 'w guest_result" where
  "guest_run cfg q rounds c w =
     (case enroll cfg q c w of
        (Some e, c1, w1) \<Rightarrow> (Some e, c1, w1)
      | (None, c1, w1) \<Rightarrow> beat_loop cfg q 0 rounds c1 w1)"

subsection \<open>Starting a process\<close>

definition valid_state :: "'w guest_config \<Rightarrow> 'w guest_state \<Rightarrow> bool" where
  "valid_state cfg s \<longleftrightarrow>
     0 \<le> gs_sequence s \<and> gs_sequence s \<le> gp_max cfg
     \<and> \<not> (gs_binding s = None \<and> gs_sequence s \<noteq> 0) \<and> \<not> (gs_binding s \<noteq> None \<and> \<not> gs_attempted s)"

text \<open>\<open>openState\<close>: the directory, the lock and the file may fail to open or belong to others; a missing file is
  created empty, and one that is too long or holds no valid state is refused.\<close>

abbreviation max_state_bytes :: nat where "max_state_bytes \<equiv> 16384"

definition open_state ::
  "'w guest_config \<Rightarrow> 'w guest_oracle \<Rightarrow> 'w world \<Rightarrow> (guest_error + 'w guest_state) \<times> 'w world" where
  "open_state cfg q w =
     (let (opens, w0) = check_open q w in
      if \<not> opens then (Inl (GuestError ''state file''), w0)
      else case wd_disk w0 of
        None \<Rightarrow> (case save q empty_state w0 of (Some e, w1) \<Rightarrow> (Inl e, w1) | (None, w1) \<Rightarrow> (Inr empty_state, w1))
      | Some s \<Rightarrow>
          if max_state_bytes < gp_size cfg s then (Inl (GuestError ''state file''), w0)
          else if valid_state cfg s then (Inr s, w0) else (Inl (GuestError ''invalid durable state''), w0))"

definition new_client ::
  "'w guest_config \<Rightarrow> 'w guest_oracle \<Rightarrow> 'w world \<Rightarrow> (guest_error + 'w guest_client) \<times> 'w world" where
  "new_client cfg q w =
     (case open_state cfg q w of
        (Inl e, w1) \<Rightarrow> (Inl e, w1)
      | (Inr s, w1) \<Rightarrow>
          let (fresh, w2) = (case gs_result s of
                 None \<Rightarrow> (None, w1)
               | Some r \<Rightarrow> let (t, w2) = now_of q w1 in (if t < rr_commit r then Some r else None, w2));
              cert = (case fresh of None \<Rightarrow> gs_active s | Some r \<Rightarrow> rr_cert r);
              (usable, w3) = check_cert q cert w2
          in if \<not> usable then (Inl (GuestError ''certificate''), w3)
             else if gs_binding s \<noteq> None \<and> map_option bi_id (gs_binding s) \<noteq> Some (gp_binding cfg)
             then (Inl (GuestError ''durable identity differs from configuration''), w3)
             else (Inr \<lparr>gc_state = s, gc_cert = cert\<rparr>, w3))"

text \<open>One life of the program, after the end of the one before.\<close>

definition guest_life :: "'w guest_config \<Rightarrow> 'w guest_oracle \<Rightarrow> bool list \<Rightarrow> 'w world \<Rightarrow> 'w world" where
  "guest_life cfg q rounds w =
     (case new_client cfg q (w\<lparr>wd_dead := False\<rparr>) of
        (Inl e, w1) \<Rightarrow> w1
      | (Inr c, w1) \<Rightarrow> (case guest_run cfg q rounds c w1 of (e, c2, w2) \<Rightarrow> w2))"

subsection \<open>The invariant\<close>

text \<open>The heartbeats of a log: binding id, version, sequence number.\<close>

fun beats :: "(string \<times> guest_message) list \<Rightarrow> (string \<times> int \<times> int) list" where
  "beats [] = []"
| "beats ((cert, m) # log) =
     (case m of Beat i v g n \<Rightarrow> (i, v, n) # beats log | _ \<Rightarrow> beats log)"

lemma beats_append: "beats (xs @ ys) = beats xs @ beats ys"
  by (induction xs rule: beats.induct) (auto split: guest_message.splits)

definition quiet_message :: "guest_message \<Rightarrow> bool" where
  "quiet_message m \<longleftrightarrow> beats [([], m)] = []"

lemma quiet_message_simps [simp]:
  "quiet_message AskBinding" "quiet_message (Enroll e t)" "quiet_message (AskRenewal rn)" "quiet_message (CommitRenewal i)"
  by (simp_all add: quiet_message_def)

definition state_ok :: "'w guest_config \<Rightarrow> 'w guest_state \<Rightarrow> bool" where
  "state_ok cfg s \<longleftrightarrow>
     0 \<le> gs_sequence s \<and> gs_sequence s \<le> max 0 (gp_max cfg)
     \<and> (gs_binding s = None \<longrightarrow> gs_sequence s = 0) \<and> (gs_binding s \<noteq> None \<longrightarrow> gs_attempted s)
     \<and> (\<forall>b. gs_binding s = Some b \<longrightarrow> bi_id b = gp_binding cfg)
     \<and> (\<forall>r. gs_result s = Some r \<longrightarrow> (\<exists>b. gs_binding s = Some b \<and> bi_id (rr_binding r) = bi_id b
          \<and> bi_version (rr_binding r) = bi_version b + 1 \<and> same_workspace cfg b (rr_binding r)))"

definition state_le :: "'w guest_state \<Rightarrow> 'w guest_state \<Rightarrow> bool" where
  "state_le s t \<longleftrightarrow>
     gs_sequence s \<le> gs_sequence t
     \<and> (\<forall>b. gs_binding s = Some b \<longrightarrow> (\<exists>b'. gs_binding t = Some b' \<and> bi_version b \<le> bi_version b'))"

definition covers :: "'w guest_state \<Rightarrow> string \<times> int \<times> int \<Rightarrow> bool" where
  "covers s e \<longleftrightarrow> (case e of (i, v, n) \<Rightarrow>
     0 < n \<and> n \<le> gs_sequence s \<and> (\<exists>b. gs_binding s = Some b \<and> v \<le> bi_version b))"

definition beat_order :: "string \<times> int \<times> int \<Rightarrow> string \<times> int \<times> int \<Rightarrow> bool" where
  "beat_order e f \<longleftrightarrow> (case (e, f) of ((i, v, n), (j, u, m)) \<Rightarrow> v \<le> u \<and> n < m)"

definition log_fits ::
  "'w guest_config \<Rightarrow> (string \<times> int \<times> int) list \<Rightarrow> 'w guest_state option \<Rightarrow> bool" where
  "log_fits cfg bs disk \<longleftrightarrow>
     sorted_wrt beat_order bs
     \<and> (\<forall>(i, v, n) \<in> set bs. i = gp_binding cfg \<and> n \<le> max 0 (gp_max cfg))
     \<and> (case disk of None \<Rightarrow> bs = [] | Some d \<Rightarrow> state_ok cfg d \<and> (\<forall>e \<in> set bs. covers d e))"

definition guest_inv :: "'w guest_config \<Rightarrow> 'w guest_state \<Rightarrow> 'w world \<Rightarrow> bool" where
  "guest_inv cfg s w \<longleftrightarrow>
     log_fits cfg (beats (wd_log w)) (wd_disk w) \<and> state_ok cfg s \<and> (\<forall>d. wd_disk w = Some d \<longrightarrow> state_le d s)"

lemma state_le_refl [simp]: "state_le s s"
  by (auto simp: state_le_def)

lemma state_le_trans: "state_le s t \<Longrightarrow> state_le t u \<Longrightarrow> state_le s u"
  unfolding state_le_def by (meson order_trans)

lemma state_le_same:
  "gs_sequence s = gs_sequence t \<Longrightarrow> gs_binding s = gs_binding t \<Longrightarrow> state_le s t"
  by (auto simp: state_le_def)

lemma covers_le:
  assumes "covers s e" and "state_le s t"
  shows "covers t e"
proof -
  obtain i v n where e: "e = (i, v, n)" by (cases e)
  with assms(1) obtain b where "0 < n" "n \<le> gs_sequence s" "gs_binding s = Some b" "v \<le> bi_version b"
    by (auto simp: covers_def)
  with assms(2) show ?thesis by (fastforce simp: covers_def state_le_def e)
qed

text \<open>Effects keep the invariant.\<close>

lemma now_inv: "guest_inv cfg s w \<Longrightarrow> now_of q w = (t, w1) \<Longrightarrow> guest_inv cfg s w1"
  by (auto simp: now_of_def guest_inv_def)

lemma check_cert_inv: "guest_inv cfg s w \<Longrightarrow> check_cert q cert w = (u, w1) \<Longrightarrow> guest_inv cfg s w1"
  by (auto simp: check_cert_def guest_inv_def)

lemma quiet_log: "quiet_message m \<Longrightarrow> beats (log @ [(cert, m)]) = beats log"
  by (cases m) (simp_all add: beats_append quiet_message_def)

lemma send_inv:
  "guest_inv cfg s w \<Longrightarrow> quiet_message m \<Longrightarrow> send q cert m w = (r, w1) \<Longrightarrow> guest_inv cfg s w1"
  by (auto simp: send_def Let_def guest_inv_def quiet_log split: if_splits)

lemma call_inv:
  "guest_inv cfg s w \<Longrightarrow> quiet_message m \<Longrightarrow> call q m c w = (a, w1) \<Longrightarrow> guest_inv cfg s w1"
  by (auto simp: call_def split: prod.splits intro: send_inv)

lemma log_fits_save:
  "log_fits cfg bs disk \<Longrightarrow> (\<And>d. disk = Some d \<Longrightarrow> state_le d t) \<Longrightarrow> state_ok cfg t \<Longrightarrow> log_fits cfg bs (Some t)"
  by (auto simp: log_fits_def intro: covers_le split: option.splits)

lemma save_inv:
  assumes inv: "guest_inv cfg s w" and le: "state_le s t" and ok: "state_ok cfg t" and save: "save q t w = (e, w1)"
  shows "guest_inv cfg t w1"
proof -
  have disk: "state_le d t" if "wd_disk w = Some d" for d
    using inv le that state_le_trans by (auto simp: guest_inv_def)
  have fits: "log_fits cfg (beats (wd_log w)) (Some t)"
    using inv disk ok by (intro log_fits_save) (auto simp: guest_inv_def)
  have "beats (wd_log w1) = beats (wd_log w) \<and> (wd_disk w1 = wd_disk w \<or> wd_disk w1 = Some t)"
    using save by (auto simp: save_def Let_def split: if_splits save_outcome.splits)
  with inv disk fits ok show ?thesis by (auto simp: guest_inv_def)
qed

lemma keep_client: "keep_state q c w = (e, c1, w1) \<Longrightarrow> c1 = c"
  by (auto simp: keep_state_def split: prod.splits)

lemma keep_inv:
  assumes "keep_state q c w = (e, c1, w1)" and "guest_inv cfg s w"
    and "state_le s (gc_state c)" and "state_ok cfg (gc_state c)"
  shows "guest_inv cfg (gc_state c1) w1"
  using assms save_inv by (auto simp: keep_state_def split: prod.splits)

lemma inv_state_ok: "guest_inv cfg s w \<Longrightarrow> state_ok cfg s"
  by (simp add: guest_inv_def)

lemma use_cert_state [simp]: "gc_state (use_cert cert c) = gc_state c"
  by (simp add: use_cert_def)

lemma drop_renewal_ok:
  "state_ok cfg s \<Longrightarrow> state_ok cfg (drop_renewal s)" "state_le s (drop_renewal s)"
  by (auto simp: state_ok_def drop_renewal_def intro: state_le_same)

subsection \<open>Every operation keeps it\<close>

lemma reset_inv:
  assumes inv: "guest_inv cfg (gc_state c) w" and run: "reset_expired_renewal cfg q c w = (e, c1, w1)"
  shows "guest_inv cfg (gc_state c1) w1"
proof -
  obtain usable w0 where check: "check_cert q (gs_active (gc_state c)) w = (usable, w0)" by (meson surj_pair)
  have inv0: "guest_inv cfg (gc_state c) w0" by (rule check_cert_inv [OF inv check])
  let ?c = "use_cert (gs_active (gc_state c)) c"
  obtain a w2 where call: "call q AskBinding ?c w0 = (a, w2)" by (meson surj_pair)
  have inv2: "guest_inv cfg (gc_state c) w2" by (rule call_inv [OF inv0 _ call]) simp
  have kept: "guest_inv cfg (gc_state c1) w1"
    if "keep_state q (?c\<lparr>gc_state := drop_renewal (gc_state c)\<rparr>) w2 = (e, c1, w1)"
    by (rule keep_inv [OF that inv2]) (simp_all add: drop_renewal_ok inv_state_ok [OF inv])
  show ?thesis
    using run check inv0 call inv2 kept
    by (auto simp: reset_expired_renewal_def Let_def split: sum.splits if_splits)
qed

lemma confirm_inv:
  assumes inv: "guest_inv cfg (gc_state c) w" and run: "confirm_expired_renewal cfg q c w = (e, c1, w1)"
  shows "guest_inv cfg (gc_state c1) w1"
proof -
  obtain usable w0 where check: "check_cert q (gs_active (gc_state c)) w = (usable, w0)" by (meson surj_pair)
  have inv0: "guest_inv cfg (gc_state c) w0" by (rule check_cert_inv [OF inv check])
  let ?c = "use_cert (gs_active (gc_state c)) c"
  obtain a w2 where call: "call q (AskRenewal (gs_renewal (gc_state c))) ?c w0 = (a, w2)" by (meson surj_pair)
  have inv2: "guest_inv cfg (gc_state ?c) w2" using call_inv [OF inv0 _ call] by simp
  show ?thesis
    using run check inv0 call inv2 reset_inv [OF inv2]
    by (auto simp: confirm_expired_renewal_def Let_def split: sum.splits if_splits)
qed

lemma prepare_inv:
  assumes inv: "guest_inv cfg (gc_state c) w" and run: "prepare_renewal q c w = (e, c1, w1)"
  shows "guest_inv cfg (gc_state c1) w1 \<and> gs_binding (gc_state c1) = gs_binding (gc_state c)"
proof -
  have ok: "state_ok cfg (gc_state c\<lparr>gs_renewal := x\<rparr>)" "state_le (gc_state c) (gc_state c\<lparr>gs_renewal := x\<rparr>)" for x
    using inv_state_ok [OF inv] by (auto simp: state_ok_def intro: state_le_same)
  have kept: "guest_inv cfg (gc_state c1) w1 \<and> gs_binding (gc_state c1) = gs_binding (gc_state c)"
    if "keep_state q (c\<lparr>gc_state := gc_state c\<lparr>gs_renewal := x\<rparr>\<rparr>) w = (e, c1, w1)" for x
    using keep_inv [OF that inv] keep_client [OF that] ok by simp
  show ?thesis
    using run inv kept by (auto simp: prepare_renewal_def split: option.splits)
qed

lemma receive_inv:
  assumes inv: "guest_inv cfg (gc_state c) w" and old: "gs_binding (gc_state c) = Some old"
    and run: "receive_renewal cfg q rn old c w = (ready, e, c1, w1)"
  shows "guest_inv cfg (gc_state c1) w1"
proof -
  obtain a w2 where call: "call q (AskRenewal (Some rn)) c w = (a, w2)" by (meson surj_pair)
  have inv2: "guest_inv cfg (gc_state c) w2" by (rule call_inv [OF inv _ call]) simp
  have kept: "guest_inv cfg (gc_state c') w'"
    if "keep_state q (c\<lparr>gc_state := gc_state c\<lparr>gs_result := Some r\<rparr>\<rparr>) w3 = (e', c', w')"
      and "renewal_acceptable cfg rn old ca r" and "guest_inv cfg (gc_state c) w3" for r ca e' c' w' w3
    by (rule keep_inv [OF that(1,3)])
      (use that(2) old inv_state_ok [OF inv] in \<open>auto simp: state_ok_def renewal_acceptable_def intro: state_le_same\<close>)
  show ?thesis
  proof (cases a)
    case (Inl e')
    with run call inv2 show ?thesis by (auto simp: receive_renewal_def)
  next
    case (Inr x)
    obtain status b rr where x: "x = (status, b, rr)" by (cases x)
    show ?thesis
    proof (cases "status = 200 \<and> rr \<noteq> None \<and> gp_ca cfg \<noteq> None")
      case False
      with run call inv2 Inr x reset_inv [OF inv2] show ?thesis
        by (auto simp: receive_renewal_def split: if_splits option.splits bool.splits)
    next
      case True
      then obtain r ca where r: "rr = Some r" "gp_ca cfg = Some ca" by auto
      obtain usable w3 where check: "check_cert q (rr_cert r) w2 = (usable, w3)" by (meson surj_pair)
      have inv3: "guest_inv cfg (gc_state c) w3" by (rule check_cert_inv [OF inv2 check])
      show ?thesis
        using run call inv2 inv3 Inr x True r kept [OF _ _ inv3] check
        by (auto simp: receive_renewal_def Let_def split: if_splits prod.splits)
    qed
  qed
qed

lemma commit_inv:
  assumes inv: "guest_inv cfg (gc_state c) w" and r: "gs_result (gc_state c) = Some r"
    and run: "commit_renewal cfg q r c w = (e, c1, w1)"
  shows "guest_inv cfg (gc_state c1) w1"
proof -
  obtain usable w0 where check: "check_cert q (rr_cert r) w = (usable, w0)" by (meson surj_pair)
  have inv0: "guest_inv cfg (gc_state c) w0" by (rule check_cert_inv [OF inv check])
  let ?c = "use_cert (rr_cert r) c"
  let ?s = "drop_renewal (gc_state c)\<lparr>gs_binding := Some (rr_binding r), gs_active := rr_cert r\<rparr>"
  obtain a w2 where call: "call q (CommitRenewal (rr_request r)) ?c w0 = (a, w2)" by (meson surj_pair)
  have inv2: "guest_inv cfg (gc_state ?c) w2" using call_inv [OF inv0 _ call] by simp
  have "state_ok cfg ?s" "state_le (gc_state c) ?s"
    using r inv_state_ok [OF inv] by (auto simp: state_ok_def state_le_def drop_renewal_def)
  then have kept: "guest_inv cfg (gc_state c1) w1"
    if "keep_state q (?c\<lparr>gc_state := ?s\<rparr>) w2 = (e, c1, w1)"
    using keep_inv [OF that inv2] by simp
  show ?thesis
    using run check inv0 call inv2 kept reset_inv [OF inv2]
    by (auto simp: commit_renewal_def Let_def split: sum.splits if_splits)
qed

lemma receive_and_commit_inv:
  assumes inv: "guest_inv cfg (gc_state c) w" and old: "gs_binding (gc_state c) = Some old"
    and run: "receive_and_commit cfg q rn old c w = (e, c1, w1)"
  shows "guest_inv cfg (gc_state c1) w1"
proof (cases "gs_result (gc_state c)")
  case None
  obtain ready e2 c2 w2 where rec: "receive_renewal cfg q rn old c w = (ready, e2, c2, w2)" by (metis surj_pair)
  note inv2 = receive_inv [OF inv old rec]
  show ?thesis
    using run None rec inv2 commit_inv [OF inv2]
    by (auto simp: receive_and_commit_def split: bool.splits option.splits)
next
  case (Some r)
  with run commit_inv [OF inv Some] show ?thesis by (simp add: receive_and_commit_def)
qed

lemma renew_inv:
  assumes inv: "guest_inv cfg (gc_state c) w" and run: "renew cfg q c w = (e, c1, w1)"
  shows "guest_inv cfg (gc_state c1) w1"
proof (cases "gs_binding (gc_state c)")
  case None
  with inv run show ?thesis by (simp add: renew_def)
next
  case (Some b)
  have cont: "guest_inv cfg (gc_state c1) w1"
    if "continue_renewal cfg q b c w' = (e, c1, w1)" "guest_inv cfg (gc_state c) w'" for w'
  proof (cases "gs_renewal (gc_state c)")
    case None
    obtain e2 c2 w2 where prep: "prepare_renewal q c w' = (e2, c2, w2)" by (metis surj_pair)
    from prepare_inv [OF that(2) prep] have inv2: "guest_inv cfg (gc_state c2) w2" "gs_binding (gc_state c2) = Some b"
      using Some by simp_all
    show ?thesis
      using that(1) None prep inv2 receive_and_commit_inv [OF inv2]
      by (auto simp: continue_renewal_def split: option.splits)
  next
    case (Some rn)
    with that receive_and_commit_inv [OF that(2) \<open>gs_binding (gc_state c) = Some b\<close>] show ?thesis
      by (simp add: continue_renewal_def)
  qed
  have confirm: "guest_inv cfg (gc_state c1) w1"
    if "confirm_expired_renewal cfg q c w' = (e, c1, w1)" "now_of q w = (t, w')" for t w'
    by (rule confirm_inv [OF now_inv [OF inv that(2)] that(1)])
  show ?thesis
    using run Some inv cont now_inv [OF inv] confirm
    by (auto simp: renew_def Let_def split: option.splits prod.splits if_splits)
qed

lemma accept_inv:
  assumes inv: "guest_inv cfg (gc_state c) w" and run: "accept_binding cfg q got c w = (e, c1, w1)"
    and known: "gs_binding (gc_state c) \<noteq> None \<or> gs_attempted (gc_state c)"
  shows "guest_inv cfg (gc_state c1) w1"
proof -
  obtain t1 v1 t2 v2 where t: "now_of q w = (t1, v1)" "now_of q v1 = (t2, v2)" by (meson surj_pair)
  have inv2: "guest_inv cfg (gc_state c) v2" by (rule now_inv [OF now_inv [OF inv t(1)] t(2)])
  have kept: "guest_inv cfg (gc_state c1) w1"
    if "keep_state q (c\<lparr>gc_state := gc_state c\<lparr>gs_binding := Some b\<rparr>\<rparr>) v2 = (e, c1, w1)"
      "bi_id b = gp_binding cfg" "gs_binding (gc_state c) = None \<or> gs_binding (gc_state c) = Some b" for b
    by (rule keep_inv [OF that(1) inv2])
      (use that(2,3) inv_state_ok [OF inv] known in \<open>auto simp: state_ok_def state_le_def\<close>)
  show ?thesis
    using run inv2 kept by (auto simp: accept_binding_def t split: option.splits if_splits)
qed

lemma recover_inv:
  assumes inv: "guest_inv cfg (gc_state c) w" and run: "recover_enrollment cfg q c w = (e, c1, w1)"
    and known: "gs_binding (gc_state c) \<noteq> None \<or> gs_attempted (gc_state c)"
  shows "guest_inv cfg (gc_state c1) w1"
proof -
  obtain a w2 where call: "call q AskBinding c w = (a, w2)" by (meson surj_pair)
  have inv2: "guest_inv cfg (gc_state c) w2" by (rule call_inv [OF inv _ call]) simp
  with run call accept_inv [OF inv2 _ known] show ?thesis
    by (auto simp: recover_enrollment_def split: sum.splits if_splits)
qed

lemma register_inv:
  assumes inv: "guest_inv cfg (gc_state c) w" and run: "register cfg q c w = (e, c1, w1)"
  shows "guest_inv cfg (gc_state c1) w1"
proof -
  let ?c = "c\<lparr>gc_state := gc_state c\<lparr>gs_attempted := True\<rparr>\<rparr>"
  obtain e2 c2 w2 where keep: "keep_state q ?c w = (e2, c2, w2)" by (metis surj_pair)
  have inv2: "guest_inv cfg (gc_state c2) w2"
    by (rule keep_inv [OF keep inv]) (use inv_state_ok [OF inv] in \<open>auto simp: state_ok_def intro: state_le_same\<close>)
  obtain a w3 where call: "call q (Enroll (gp_enrollment cfg) (gp_challenge cfg)) c2 w2 = (a, w3)" by (meson surj_pair)
  have inv3: "guest_inv cfg (gc_state c2) w3" by (rule call_inv [OF inv2 _ call]) simp
  have known: "gs_binding (gc_state c2) \<noteq> None \<or> gs_attempted (gc_state c2)"
    using keep_client [OF keep] by simp
  show ?thesis
    using run keep call inv2 inv3 accept_inv [OF inv3 _ known] recover_inv [OF inv3 _ known]
    by (auto simp: register_def Let_def split: option.splits sum.splits if_splits)
qed

lemma enroll_inv:
  assumes inv: "guest_inv cfg (gc_state c) w" and run: "enroll cfg q c w = (e, c1, w1)"
  shows "guest_inv cfg (gc_state c1) w1"
proof -
  obtain e2 c2 w2 where first: "(if gs_renewal (gc_state c) \<noteq> None then renew cfg q c w else (None, c, w)) = (e2, c2, w2)"
    by (metis surj_pair)
  then have inv2: "guest_inv cfg (gc_state c2) w2" using inv renew_inv [OF inv] by (auto split: if_splits)
  obtain a w3 where call: "call q AskBinding c2 w2 = (a, w3)" by (meson surj_pair)
  have inv3: "guest_inv cfg (gc_state c2) w3" by (rule call_inv [OF inv2 _ call]) simp
  show ?thesis
    using run first call inv2 inv3 accept_inv [OF inv3] register_inv [OF inv3]
    unfolding enroll_def by (auto split: option.splits sum.splits if_splits)
qed

lemma inv_covers: "guest_inv cfg s w \<Longrightarrow> e \<in> set (beats (wd_log w)) \<Longrightarrow> covers s e"
  by (auto simp: guest_inv_def log_fits_def intro: covers_le split: option.splits)

lemma save_ok_disk: "save q s w = (None, w1) \<Longrightarrow> wd_disk w1 = Some s \<and> wd_log w1 = wd_log w"
  by (auto simp: save_def Let_def split: if_splits save_outcome.splits)

text \<open>A heartbeat is sent only after its number is on disk, so it comes after every earlier one.\<close>

lemma beat_inv:
  assumes inv: "guest_inv cfg s w" and b: "gs_binding s = Some b" and max: "gs_sequence s < gp_max cfg"
    and t: "t = s\<lparr>gs_sequence := gs_sequence s + 1\<rparr>" and saved: "save q t w = (None, w1)"
    and sent: "send q cert (Beat (bi_id b) (bi_version b) (bi_generation b) (gs_sequence t)) w1 = (r, w2)"
  shows "guest_inv cfg t w2"
proof -
  note sok = inv_state_ok [OF inv]
  from sok b max have tok: "state_ok cfg t" and le: "state_le s t"
    by (auto simp: t state_ok_def state_le_def)
  from save_inv [OF inv le tok saved] have inv1: "guest_inv cfg t w1" .
  from save_ok_disk [OF saved] have disk: "wd_disk w1 = Some t" and log: "wd_log w1 = wd_log w" by simp_all
  let ?e = "(bi_id b, bi_version b, gs_sequence t)"
  have before: "beat_order e ?e" if "e \<in> set (beats (wd_log w1))" for e
    using inv_covers [OF inv] that b by (cases e) (auto simp: log beat_order_def covers_def t)
  have new: "covers t ?e" using sok b by (auto simp: covers_def state_ok_def t)
  have "log_fits cfg (beats (wd_log w1) @ [?e]) (Some t)"
    using inv1 before new tok b sok max disk
    by (auto simp: guest_inv_def log_fits_def sorted_wrt_append state_ok_def t)
  moreover have "beats (wd_log w2) = beats (wd_log w1) \<or> beats (wd_log w2) = beats (wd_log w1) @ [?e]"
    "wd_disk w2 = wd_disk w1"
    using sent by (auto simp: send_def Let_def beats_append split: if_splits)
  ultimately show ?thesis using inv1 disk tok by (auto simp: guest_inv_def)
qed

lemma send_beat_inv:
  assumes inv: "guest_inv cfg (gc_state c) w" and run: "send_beat cfg q c w = (e, c1, w1)"
  shows "guest_inv cfg (gc_state c1) w1"
proof (cases "gs_binding (gc_state c)")
  case None
  with inv run show ?thesis by (simp add: send_beat_def)
next
  case (Some b)
  obtain t v where t: "now_of q w = (t, v)" by (meson surj_pair)
  have inv1: "guest_inv cfg (gc_state c) v" by (rule now_inv [OF inv t])
  show ?thesis
  proof (cases "gp_max cfg \<le> gs_sequence (gc_state c) \<or> bi_expires b \<le> t")
    case True
    with run Some t inv1 show ?thesis by (auto simp: send_beat_def)
  next
    case False
    let ?s = "gc_state c\<lparr>gs_sequence := gs_sequence (gc_state c) + 1\<rparr>"
    obtain e2 v2 where save: "save q ?s v = (e2, v2)" by (meson surj_pair)
    have ok: "state_ok cfg ?s" "state_le (gc_state c) ?s"
      using inv_state_ok [OF inv] False Some by (auto simp: state_ok_def state_le_def)
    note inv2 = save_inv [OF inv1 ok(2) ok(1) save]
    show ?thesis
    proof (cases e2)
      case None
      let ?m = "Beat (bi_id b) (bi_version b) (bi_generation b) (gs_sequence (gc_state c) + 1)"
      obtain r v3 where sent: "send q (gc_cert c) ?m v2 = (r, v3)" by (meson surj_pair)
      have "guest_inv cfg ?s v3"
        using beat_inv [OF inv1 Some _ refl save [unfolded None], of "gc_cert c" r v3] False sent by simp
      moreover have "c1 = c\<lparr>gc_state := ?s\<rparr> \<and> w1 = v3"
        using run Some t False save sent None
        by (auto simp: send_beat_def keep_state_def call_def Let_def split: sum.splits prod.splits)
      ultimately show ?thesis by simp
    next
      case (Some e')
      with run \<open>gs_binding (gc_state c) = Some b\<close> t False save inv2 show ?thesis
        by (auto simp: send_beat_def keep_state_def Let_def)
    qed
  qed
qed

lemma heartbeat_inv:
  assumes inv: "guest_inv cfg (gc_state c) w" and run: "guest_heartbeat cfg q ended c w = (e, c1, w1)"
  shows "guest_inv cfg (gc_state c1) w1"
proof (cases ended)
  case True
  with inv run show ?thesis by (simp add: guest_heartbeat_def)
next
  case False
  obtain due v where due: "(if gs_renewal (gc_state c) \<noteq> None then (True, w)
      else let (t, w1) = now_of q w in (renewal_due cfg (gc_cert c) t, w1)) = (due, v)" by (meson surj_pair)
  then have inv1: "guest_inv cfg (gc_state c) v"
    using inv now_inv [OF inv] by (auto split: if_splits prod.splits)
  obtain e2 c2 v2 where step: "(if due then renew cfg q c v else (None, c, v)) = (e2, c2, v2)" by (metis surj_pair)
  then have inv2: "guest_inv cfg (gc_state c2) v2" using inv1 renew_inv [OF inv1] by (auto split: if_splits)
  show ?thesis
    using run False due step inv2 send_beat_inv [OF inv2]
    by (cases e2) (simp_all add: guest_heartbeat_def)
qed

lemma beat_loop_inv:
  "guest_inv cfg (gc_state c) w \<Longrightarrow> beat_loop cfg q failures rounds c w = (e, c1, w1) \<Longrightarrow>
     guest_inv cfg (gc_state c1) w1"
proof (induction rounds arbitrary: failures c w)
  case (Cons ended rounds)
  obtain e2 c2 w2 where hb: "guest_heartbeat cfg q ended c w = (e2, c2, w2)" by (metis surj_pair)
  note inv2 = heartbeat_inv [OF Cons.prems(1) hb]
  show ?case
  proof (cases e2)
    case None
    with Cons.prems(2) hb have "beat_loop cfg q 0 rounds c2 w2 = (e, c1, w1)" by simp
    from Cons.IH [OF inv2 this] show ?thesis .
  next
    case (Some x)
    show ?thesis
    proof (cases "x \<noteq> Transient \<or> 3 \<le> Suc failures")
      case True
      with Cons.prems(2) hb Some inv2 show ?thesis by auto
    next
      case False
      with Cons.prems(2) hb Some have "beat_loop cfg q (Suc failures) rounds c2 w2 = (e, c1, w1)" by simp
      from Cons.IH [OF inv2 this] show ?thesis .
    qed
  qed
qed simp

lemma run_inv:
  assumes inv: "guest_inv cfg (gc_state c) w" and run: "guest_run cfg q rounds c w = (e, c1, w1)"
  shows "guest_inv cfg (gc_state c1) w1"
proof -
  obtain e2 c2 w2 where en: "enroll cfg q c w = (e2, c2, w2)" by (metis surj_pair)
  note inv2 = enroll_inv [OF inv en]
  from run en inv2 beat_loop_inv [OF inv2] show ?thesis
    by (cases e2) (auto simp: guest_run_def)
qed

text \<open>Between lives only the log and the file remain.\<close>

lemma inv_log: "guest_inv cfg s w \<Longrightarrow> log_fits cfg (beats (wd_log w)) (wd_disk w)"
  by (simp add: guest_inv_def)

lemma start_inv:
  assumes fits: "log_fits cfg (beats (wd_log w)) (wd_disk w)" and start: "new_client cfg q w = (res, w1)"
  shows "case res of Inl _ \<Rightarrow> log_fits cfg (beats (wd_log w1)) (wd_disk w1)
    | Inr c \<Rightarrow> guest_inv cfg (gc_state c) w1"
proof -
  obtain os v where os: "open_state cfg q w = (os, v)" by (meson surj_pair)
  let ?w0 = "w\<lparr>wd_ticks := Suc (wd_ticks w)\<rparr>"
  have fits0: "log_fits cfg (beats (wd_log ?w0)) (wd_disk ?w0)" using fits by simp
  have opened: "case os of Inl _ \<Rightarrow> log_fits cfg (beats (wd_log v)) (wd_disk v) | Inr s \<Rightarrow> guest_inv cfg s v"
  proof (cases "or_open q (wd_ticks w)")
    case False
    then have "os = Inl (GuestError ''state file'')" "v = ?w0" using os by (simp_all add: open_state_def check_open_def)
    with fits0 show ?thesis by simp
  next
    case opens: True
    show ?thesis
    proof (cases "wd_disk w")
      case None
      have empty_ok: "state_ok cfg empty_state" by (simp add: state_ok_def)
      have "guest_inv cfg empty_state ?w0" using fits None empty_ok by (simp add: guest_inv_def)
      from save_inv [OF this state_le_refl empty_ok] have inv: "guest_inv cfg empty_state x"
        if "save q empty_state ?w0 = (e, x)" for e x
        using that .
      show ?thesis
        using os None opens inv
        by (auto simp: open_state_def check_open_def split: prod.splits option.splits intro: inv_log)
    next
      case (Some d)
      then have "state_ok cfg d" using fits by (simp add: log_fits_def)
      with os Some opens fits show ?thesis
        by (auto simp: open_state_def check_open_def guest_inv_def split: if_splits)
    qed
  qed
  show ?thesis
  proof (cases os)
    case (Inl e)
    with start os opened show ?thesis by (auto simp: new_client_def)
  next
    case (Inr s)
    with opened have inv: "guest_inv cfg s v" by simp
    obtain fresh v2 where fresh: "(case gs_result s of None \<Rightarrow> (None, v)
        | Some r \<Rightarrow> let (t, w2) = now_of q v in (if t < rr_commit r then Some r else None, w2)) = (fresh, v2)"
      by (meson surj_pair)
    then have inv2: "guest_inv cfg s v2"
      using inv now_inv [OF inv] by (auto split: option.splits prod.splits)
    let ?cert = "case fresh of None \<Rightarrow> gs_active s | Some r \<Rightarrow> rr_cert r"
    obtain usable v3 where check: "check_cert q ?cert v2 = (usable, v3)" by (meson surj_pair)
    have inv3: "guest_inv cfg s v3" by (rule check_cert_inv [OF inv2 check])
    from start os Inr fresh check have w1: "w1 = v3"
      and res: "res = Inr \<lparr>gc_state = s, gc_cert = ?cert\<rparr> \<or> (\<exists>e. res = Inl e)"
      unfolding new_client_def by (auto simp: Let_def split: if_splits)
    from res inv3 w1 show ?thesis by (auto intro: inv_log)
  qed
qed

lemma life_fits:
  assumes "log_fits cfg (beats (wd_log w)) (wd_disk w)"
  shows "log_fits cfg (beats (wd_log (guest_life cfg q rounds w))) (wd_disk (guest_life cfg q rounds w))"
proof -
  obtain res v where start: "new_client cfg q (w\<lparr>wd_dead := False\<rparr>) = (res, v)" by (meson surj_pair)
  have inv: "case res of Inl _ \<Rightarrow> log_fits cfg (beats (wd_log v)) (wd_disk v) | Inr c \<Rightarrow> guest_inv cfg (gc_state c) v"
    by (rule start_inv [OF _ start]) (use assms in simp)
  show ?thesis
  proof (cases res)
    case (Inr c)
    obtain e c2 w2 where run: "guest_run cfg q rounds c v = (e, c2, w2)" by (metis surj_pair)
    with start Inr inv run_inv [OF _ run] show ?thesis by (auto simp: guest_life_def intro: inv_log)
  qed (use start inv in \<open>auto simp: guest_life_def\<close>)
qed

lemma lives_fit:
  assumes "wd_disk w0 = None" and "wd_log w0 = []"
  shows "log_fits cfg (beats (wd_log (fold (\<lambda>(q, rounds). guest_life cfg q rounds) lives w0)))
      (wd_disk (fold (\<lambda>(q, rounds). guest_life cfg q rounds) lives w0))"
proof -
  have "log_fits cfg (beats (wd_log (fold (\<lambda>(q, rounds). guest_life cfg q rounds) ls x)))
      (wd_disk (fold (\<lambda>(q, rounds). guest_life cfg q rounds) ls x))"
    if "log_fits cfg (beats (wd_log x)) (wd_disk x)" for ls x
    using that by (induction ls arbitrary: x) (auto simp: life_fits split: prod.splits)
  moreover have "log_fits cfg (beats (wd_log w0)) (wd_disk w0)"
    using assms by (simp add: log_fits_def)
  ultimately show ?thesis .
qed

text \<open>A start from a valid file of the configured binding depends only on the certificate.\<close>

lemma accepted_start:
  assumes valid: "valid_state cfg d" and disk: "wd_disk w = Some d" and small: "gp_size cfg d \<le> max_state_bytes"
    and opens: "or_open q (wd_ticks w)" and mine: "\<forall>b. gs_binding d = Some b \<longrightarrow> bi_id b = gp_binding cfg"
  shows "\<exists>n cert w1. new_client cfg q w
           = (if or_usable q n cert then Inr \<lparr>gc_state = d, gc_cert = cert\<rparr> else Inl (GuestError ''certificate''), w1)
         \<and> (cert = gs_active d \<or> (\<exists>r. gs_result d = Some r \<and> cert = rr_cert r))
         \<and> wd_disk w1 = Some d \<and> wd_log w1 = wd_log w"
proof -
  let ?w0 = "w\<lparr>wd_ticks := Suc (wd_ticks w)\<rparr>"
  have os: "open_state cfg q w = (Inr d, ?w0)"
    using valid disk small opens by (simp add: open_state_def check_open_def)
  obtain fresh w2 where fresh: "(case gs_result d of None \<Rightarrow> (None, ?w0)
      | Some r \<Rightarrow> let (t, w2) = now_of q ?w0 in (if t < rr_commit r then Some r else None, w2)) = (fresh, w2)"
    by (meson surj_pair)
  then have w2: "wd_disk w2 = Some d \<and> wd_log w2 = wd_log w \<and> (fresh = None \<or> fresh = gs_result d)"
    using disk by (auto simp: now_of_def split: option.splits if_splits)
  let ?cert = "case fresh of None \<Rightarrow> gs_active d | Some r \<Rightarrow> rr_cert r"
  let ?w1 = "w2\<lparr>wd_ticks := Suc (wd_ticks w2)\<rparr>"
  have "new_client cfg q w = (if or_usable q (wd_ticks w2) ?cert then Inr \<lparr>gc_state = d, gc_cert = ?cert\<rparr>
      else Inl (GuestError ''certificate''), ?w1)"
    using fresh mine unfolding new_client_def os by (auto simp: check_cert_def)
  moreover have "?cert = gs_active d \<or> (\<exists>r. gs_result d = Some r \<and> ?cert = rr_cert r)" using w2 by (cases fresh) auto
  ultimately show ?thesis using w2 by (intro exI [of _ "wd_ticks w2"] exI [of _ ?cert] exI [of _ ?w1]) simp
qed

subsection \<open>Properties\<close>

text \<open>C2: over any number of lives of the program, killed at any effect, with any replies, failed saves and
  clock, the heartbeats that were sent all name the configured binding, with sequence numbers that
  strictly grow, within the contract's bound, and binding versions that never fall.\<close>

theorem guest_sequences_never_reused:
  assumes "wd_disk w0 = None" and "wd_log w0 = []"
    and "w = fold (\<lambda>(q, rounds). guest_life cfg q rounds) lives w0"
  shows "sorted_wrt (\<lambda>(i, v, n) (j, u, m). v \<le> u \<and> n < m) (beats (wd_log w))
    \<and> (\<forall>(i, v, n) \<in> set (beats (wd_log w)). i = gp_binding cfg \<and> 0 < n \<and> n \<le> max 0 (gp_max cfg))"
proof -
  have fits: "log_fits cfg (beats (wd_log w)) (wd_disk w)"
    using lives_fit [OF assms(1,2)] assms(3) by simp
  have order: "beat_order = (\<lambda>(i, v, n) (j, u, m). v \<le> u \<and> n < m)"
    by (auto simp: beat_order_def fun_eq_iff)
  have "0 < n" if "(i, v, n) \<in> set (beats (wd_log w))" for i v n
    using fits that by (auto simp: log_fits_def covers_def split: option.splits)
  with fits show ?thesis by (auto simp: log_fits_def order)
qed

text \<open>C19: the state file any history of lives leaves behind is one the next start accepts: its sequence
  number is in range, it has no sequence without a binding and no binding without an attempted
  enrolment, and its binding is the configured one; a renewal it holds for commitment is the next
  version of this binding for the same workspace. A start that can open the file, if it is within the
  size limit, goes on from exactly this state, or fails on the certificate it picks, that of the
  held renewal or the active one, and on nothing else; either way file and log stay as they are.\<close>

theorem guest_state_file_valid:
  assumes "wd_disk w0 = None" and "wd_log w0 = []" and "0 \<le> gp_max cfg"
    and "w = fold (\<lambda>(q, rounds). guest_life cfg q rounds) lives w0" and "wd_disk w = Some d"
    and "or_open q (wd_ticks w)" and "gp_size cfg d \<le> max_state_bytes"
  shows "valid_state cfg d \<and> (\<forall>b. gs_binding d = Some b \<longrightarrow> bi_id b = gp_binding cfg)
    \<and> (\<forall>r. gs_result d = Some r \<longrightarrow> (\<exists>b. gs_binding d = Some b \<and> bi_version (rr_binding r) = bi_version b + 1
         \<and> same_workspace cfg b (rr_binding r)))
    \<and> (\<exists>n cert w1. new_client cfg q (w\<lparr>wd_dead := False\<rparr>)
           = (if or_usable q n cert then Inr \<lparr>gc_state = d, gc_cert = cert\<rparr> else Inl (GuestError ''certificate''), w1)
         \<and> (cert = gs_active d \<or> (\<exists>r. gs_result d = Some r \<and> cert = rr_cert r))
         \<and> wd_disk w1 = Some d \<and> wd_log w1 = wd_log w)"
proof -
  have "log_fits cfg (beats (wd_log w)) (wd_disk w)"
    using lives_fit [OF assms(1,2)] assms(4) by simp
  then have ok: "state_ok cfg d" using assms(5) by (simp add: log_fits_def)
  then have valid: "valid_state cfg d" using assms(3) by (auto simp: state_ok_def valid_state_def)
  from accepted_start [OF valid _ assms(7), of "w\<lparr>wd_dead := False\<rparr>" q] assms(5,6) ok
  have "\<exists>n cert w1. new_client cfg q (w\<lparr>wd_dead := False\<rparr>)
         = (if or_usable q n cert then Inr \<lparr>gc_state = d, gc_cert = cert\<rparr> else Inl (GuestError ''certificate''), w1)
       \<and> (cert = gs_active d \<or> (\<exists>r. gs_result d = Some r \<and> cert = rr_cert r))
       \<and> wd_disk w1 = Some d \<and> wd_log w1 = wd_log w" by (simp add: state_ok_def)
  with valid ok show ?thesis by (auto simp: state_ok_def)
qed

subsection \<open>Witnesses\<close>

abbreviation (input) sample_binding :: "unit binding" where
  "sample_binding \<equiv> \<lparr>bi_id = ''b1'', bi_version = 1, bi_generation = 1, bi_issued = 1, bi_expires = 1000, bi_rest = ()\<rparr>"

definition sample_guest :: "unit guest_config" where
  "sample_guest = \<lparr>gp_binding = ''b1'', gp_enrollment = ''e1'', gp_challenge = ''c1'', gp_ca = None, gp_max = 100,
     gp_size = (\<lambda>s. 1000), cert_validity = (\<lambda>c. None), same_workspace = (\<lambda>a b. True)\<rparr>"

text \<open>In the first life enrolment succeeds after an unknown certificate and the process is killed while
  its second heartbeat is on the way; in the second life the binding is known.\<close>

definition first_life :: "unit guest_oracle" where
  "first_life = \<lparr>or_reply = (\<lambda>n. if n = 1 then Reply 401 True None None
       else if n = 3 then Reply 201 True (Some sample_binding) None else Reply 204 True None None),
     or_save = (\<lambda>n. Saved), or_now = (\<lambda>n. 5), or_killed = (\<lambda>n. n = 8), or_csr = (\<lambda>n. None),
     or_open = (\<lambda>n. True), or_usable = (\<lambda>n c. True)\<rparr>"

definition second_life :: "unit guest_oracle" where
  "second_life = first_life\<lparr>or_reply := (\<lambda>n. if n = 9 then Reply 200 True (Some sample_binding) None
     else Reply 204 True None None), or_killed := (\<lambda>n. False)\<rparr>"

definition blank_world :: "unit world" where
  "blank_world = \<lparr>wd_effects = 0, wd_ticks = 0, wd_log = [], wd_disk = None, wd_dead = False\<rparr>"

definition two_lives :: "unit world" where
  "two_lives = fold (\<lambda>(q, rounds). guest_life sample_guest q rounds)
     [(first_life, [False, False, False]), (second_life, [False])] blank_world"

lemma two_lives_beats: "map (\<lambda>(i, v, n). n) (beats (wd_log two_lives)) = [1, 2, 3]"
  by code_simp

theorem guest_sequences_never_reused_witness:
  "list_all (\<lambda>(i, v, n). i = ''b1'' \<and> n \<le> 100) (beats (wd_log two_lives))"
proof -
  have "\<forall>(i, v, n) \<in> set (beats (wd_log two_lives)).
      i = gp_binding sample_guest \<and> 0 < n \<and> n \<le> max 0 (gp_max sample_guest)"
    using guest_sequences_never_reused [OF _ _ two_lives_def] by (simp add: blank_world_def)
  then show ?thesis by (auto simp: sample_guest_def list_all_iff)
qed

theorem guest_state_file_valid_witness:
  "\<exists>d. wd_disk two_lives = Some d \<and> valid_state sample_guest d
     \<and> (\<exists>c. fst (new_client sample_guest second_life (two_lives\<lparr>wd_dead := False\<rparr>)) = Inr c \<and> gc_state c = d)"
proof -
  have "wd_disk two_lives \<noteq> None" by code_simp
  then obtain d where d: "wd_disk two_lives = Some d" by auto
  have usable: "or_usable second_life n cert" for n cert by (simp add: second_life_def first_life_def)
  have "or_open second_life (wd_ticks two_lives)" by (simp add: second_life_def first_life_def)
  from guest_state_file_valid [OF _ _ _ two_lives_def d this] usable
  have "valid_state sample_guest d
     \<and> (\<exists>n cert w1. new_client sample_guest second_life (two_lives\<lparr>wd_dead := False\<rparr>) = (Inr \<lparr>gc_state = d, gc_cert = cert\<rparr>, w1))"
    by (auto simp: blank_world_def sample_guest_def)
  with d show ?thesis by fastforce
qed

end
