(* ===== verification/GuestData.thy ===== *)
theory GuestData
  imports RunnerPayload
begin

text \<open>
  Initialisation of the data disk of a personal VM, \<^verbatim>\<open>internal/agent/environment/personalguest/data.go\<close>,
  with the durable receipt and the entry points of \<^verbatim>\<open>data_linux.go\<close>.

  The tools the code runs are effects of a \<open>disk_world\<close>, numbered and logged with what they showed; an
  oracle gives their results (the JSON of \<^verbatim>\<open>lsblk\<close>, \<^verbatim>\<open>findmnt\<close> and \<^verbatim>\<open>wipefs\<close> already decoded) and says
  whether the process is killed at an effect, after which it has no further effect. A failed save of
  the receipt happens before or after the rename. The lock of the data reference makes runs follow one
  another. The contract's plan is read through the fields the code uses, its \<^verbatim>\<open>Validate\<close> and
  \<^verbatim>\<open>SameWorkspace\<close> are parameters.
\<close>

subsection \<open>Data\<close>

datatype data_block = Block
  (bk_name: string) (bk_type: string) (bk_size: int) (bk_serial: string) (bk_fstype: string) (bk_uuid: string)
  (bk_ro: bool) (bk_device: string) (bk_points: "string list") (bk_children: "data_block list")

record data_mount =
  mt_target :: string
  mt_fstype :: string
  mt_options :: string
  mt_device :: string
  mt_root :: string

record 'w data_binding =
  db_ref :: string
  db_serial :: string
  db_bytes :: int
  db_rest :: 'w

record 'w data_plan =
  dp_operation :: string
  dp_quota :: int
  dp_binding :: "'w data_binding"

record 'w data_receipt =
  dr_plan :: "'w data_plan"
  dr_stage :: string
  dr_filesystem :: string
  dr_device :: string

record data_result =
  da_ref :: string
  da_filesystem :: string
  da_quota :: int
  da_used :: int
  da_reconciled :: bool

datatype data_save = DataSaved | DataSaveFailed | DataSaveUnconfirmed

datatype 'w data_effect =
    Authorized "'w data_plan" bool
  | Blocks "data_block list option"
  | Fresh string "data_block list option"
  | Mounts "data_mount list option"
  | Probed string "nat option"
  | Kept "'w data_receipt" data_save
  | Formatted string string
  | MadeDirectory string
  | Mounted string string
  | Quota string string

record 'w data_oracle =
  do_now :: "nat \<Rightarrow> gotime"
  do_authorize :: "nat \<Rightarrow> bool"
  do_blocks :: "nat \<Rightarrow> data_block list option"
  do_fresh :: "nat \<Rightarrow> data_block list option"
  do_mounts :: "nat \<Rightarrow> data_mount list option"
  do_signatures :: "nat \<Rightarrow> nat option"
  do_save :: "nat \<Rightarrow> data_save"
  do_ok :: "nat \<Rightarrow> bool"
  do_text :: "nat \<Rightarrow> string option"
  do_load :: "nat \<Rightarrow> bool"
  do_killed :: "nat \<Rightarrow> bool"

record 'w disk_world =
  dw_effects :: nat
  dw_log :: "'w data_effect list"
  dw_receipt :: "'w data_receipt option"
  dw_dead :: bool

record 'w data_params =
  dc_validate :: "'w data_plan \<Rightarrow> gotime \<Rightarrow> bool"
  dc_same :: "'w data_binding \<Rightarrow> 'w data_binding \<Rightarrow> bool"
  dc_base :: string

datatype data_error = DataError string

subsection \<open>Effects\<close>

text \<open>An effect takes place unless the process is dead; its number selects the oracle's answer. A killed
  process gets no answer.\<close>

definition act :: "'w data_oracle \<Rightarrow> (nat \<Rightarrow> 'w data_effect) \<Rightarrow> 'w disk_world \<Rightarrow> nat option \<times> 'w disk_world" where
  "act q f w =
     (if dw_dead w then (None, w)
      else let n = dw_effects w; k = do_killed q n in
           (if k then None else Some n,
            w\<lparr>dw_effects := Suc n, dw_log := dw_log w @ [f n], dw_dead := k\<rparr>))"

definition authorize :: "'w data_oracle \<Rightarrow> 'w data_plan \<Rightarrow> 'w disk_world \<Rightarrow> bool \<times> 'w disk_world" where
  "authorize q p w =
     (case act q (\<lambda>n. Authorized p (do_authorize q n)) w of
        (None, w1) \<Rightarrow> (False, w1)
      | (Some n, w1) \<Rightarrow> (do_authorize q n, w1))"

definition keep_receipt ::
  "'w data_oracle \<Rightarrow> 'w data_receipt \<Rightarrow> 'w disk_world \<Rightarrow> bool \<times> 'w disk_world" where
  "keep_receipt q r w =
     (if dw_dead w then (False, w)
      else let n = dw_effects w; (k, w1) = act q (\<lambda>n. Kept r (do_save q n)) w;
               w2 = (if do_save q n = DataSaveFailed then w1 else w1\<lparr>dw_receipt := Some r\<rparr>)
           in (k \<noteq> None \<and> do_save q n = DataSaved, w2))"

definition run_tool :: "'w data_oracle \<Rightarrow> 'w data_effect \<Rightarrow> 'w disk_world \<Rightarrow> bool \<times> 'w disk_world" where
  "run_tool q e w =
     (case act q (\<lambda>n. e) w of (None, w1) \<Rightarrow> (False, w1) | (Some n, w1) \<Rightarrow> (do_ok q n, w1))"

definition read_tool :: "'w data_oracle \<Rightarrow> 'w data_effect \<Rightarrow> 'w disk_world \<Rightarrow> string option \<times> 'w disk_world" where
  "read_tool q e w =
     (case act q (\<lambda>n. e) w of (None, w1) \<Rightarrow> (None, w1) | (Some n, w1) \<Rightarrow> (do_text q n, w1))"

definition time_of :: "'w data_oracle \<Rightarrow> 'w disk_world \<Rightarrow> gotime" where
  "time_of q w = do_now q (dw_effects w)"

subsection \<open>Observing the disk\<close>

fun with_serial :: "string \<Rightarrow> data_block \<Rightarrow> data_block list" where
  "with_serial s (Block n t z se f u ro d ps cs) =
     (if se = s then [Block n t z se f u ro d ps cs] else []) @ concat (map (with_serial s) cs)"

definition device_name :: "string \<Rightarrow> bool" where
  "device_name n \<longleftrightarrow>
     has_prefix n ''/dev/'' \<and> drop 5 n \<noteq> []
     \<and> list_all (\<lambda>c. is_alnum c \<or> c = CHR ''_'' \<or> c = CHR ''-'') (drop 5 n)"

definition select_block :: "data_block list \<Rightarrow> string \<Rightarrow> int \<Rightarrow> data_block option" where
  "select_block blocks serial bytes =
     (case concat (map (with_serial serial) blocks) of
        [d] \<Rightarrow>
          if bk_type d \<noteq> ''disk'' \<or> bk_ro d \<or> bk_size d \<noteq> bytes \<or> \<not> device_name (bk_name d) \<or> bk_device d = []
             \<or> bk_children d \<noteq> []
          then None else Some d
      | _ \<Rightarrow> None)"

fun contains_device :: "data_block \<Rightarrow> string \<Rightarrow> bool" where
  "contains_device (Block n t z se f u ro d ps cs) i \<longleftrightarrow> d = i \<or> (\<exists>c \<in> set cs. contains_device c i)"

definition root_mount_ok :: "data_block \<Rightarrow> data_mount list \<Rightarrow> bool" where
  "root_mount_ok disk ms \<longleftrightarrow>
     (let roots = filter (\<lambda>m. mt_target m = ''/'') ms in
      (\<forall>m \<in> set roots. mt_device m \<noteq> [] \<and> \<not> contains_device disk (mt_device m)) \<and> length roots = 1)"

text \<open>The file system identity comes from a direct probe of the selected device.\<close>

definition probe_block :: "data_block \<Rightarrow> data_block list \<Rightarrow> data_block option" where
  "probe_block d fresh =
     (case fresh of
        [f] \<Rightarrow>
          if bk_name f \<noteq> bk_name d \<or> bk_children f \<noteq> [] then None
          else Some (Block (bk_name d) (bk_type d) (bk_size d) (bk_serial d) (bk_fstype f) (bk_uuid f) (bk_ro d)
                 (bk_device d) (bk_points d) (bk_children d))
      | _ \<Rightarrow> None)"

definition observe ::
  "'w data_oracle \<Rightarrow> 'w data_plan \<Rightarrow> 'w disk_world \<Rightarrow> (data_block \<times> data_mount list) option \<times> 'w disk_world" where
  "observe q p w =
     (case act q (\<lambda>n. Blocks (do_blocks q n)) w of
        (None, w1) \<Rightarrow> (None, w1)
      | (Some n, w1) \<Rightarrow>
          (case Option.bind (do_blocks q n)
              (\<lambda>bs. select_block bs (db_serial (dp_binding p)) (db_bytes (dp_binding p))) of
             None \<Rightarrow> (None, w1)
           | Some d \<Rightarrow>
               (case act q (\<lambda>n. Fresh (bk_name d) (do_fresh q n)) w1 of
                  (None, w2) \<Rightarrow> (None, w2)
                | (Some n2, w2) \<Rightarrow>
                    (case Option.bind (do_fresh q n2) (probe_block d) of
                       None \<Rightarrow> (None, w2)
                     | Some disk \<Rightarrow>
                         (case act q (\<lambda>n. Mounts (do_mounts q n)) w2 of
                            (None, w3) \<Rightarrow> (None, w3)
                          | (Some n3, w3) \<Rightarrow>
                              (case do_mounts q n3 of
                                 None \<Rightarrow> (None, w3)
                               | Some ms \<Rightarrow>
                                   if ms = [] \<or> \<not> root_mount_ok disk ms then (None, w3)
                                   else (Some (disk, ms), w3)))))))"

definition looks_blank :: "data_block \<Rightarrow> data_mount list \<Rightarrow> bool" where
  "looks_blank disk ms \<longleftrightarrow>
     bk_fstype disk = [] \<and> bk_uuid disk = [] \<and> bk_children disk = [] \<and> (\<forall>p \<in> set (bk_points disk). p = [])
     \<and> (\<forall>m \<in> set ms. \<not> contains_device disk (mt_device m))"

definition require_blank ::
  "'w data_oracle \<Rightarrow> data_block \<Rightarrow> data_mount list \<Rightarrow> 'w disk_world \<Rightarrow> bool \<times> 'w disk_world" where
  "require_blank q disk ms w =
     (if \<not> looks_blank disk ms then (False, w)
      else case act q (\<lambda>n. Probed (bk_name disk) (do_signatures q n)) w of
        (None, w1) \<Rightarrow> (False, w1)
      | (Some n, w1) \<Rightarrow> (do_signatures q n = Some 0, w1))"

subsection \<open>Receipts, formatting\<close>

definition valid_stage :: "string \<Rightarrow> bool" where
  "valid_stage s \<longleftrightarrow> s = ''reserved'' \<or> s = ''format_dispatched'' \<or> s = ''complete''"

definition receipt_matches :: "'w data_params \<Rightarrow> 'w data_receipt \<Rightarrow> 'w data_plan \<Rightarrow> bool" where
  "receipt_matches par r p \<longleftrightarrow>
     dc_same par (dp_binding (dr_plan r)) (dp_binding p) \<and> dp_quota (dr_plan r) = dp_quota p
     \<and> (dr_stage r = ''complete'' \<or> dp_operation (dr_plan r) = dp_operation p)
     \<and> dr_filesystem r = db_ref (dp_binding p) \<and> valid_stage (dr_stage r)"

text \<open>The receipt is the one in memory, also after an error.\<close>

definition format_disk ::
  "'w data_params \<Rightarrow> 'w data_oracle \<Rightarrow> 'w data_receipt \<Rightarrow> 'w disk_world \<Rightarrow>
   data_error option \<times> 'w data_receipt \<times> 'w disk_world" where
  "format_disk par q r w =
     (case observe q (dr_plan r) w of
        (None, w1) \<Rightarrow> (Some (DataError ''observe''), r, w1)
      | (Some (disk, ms), w1) \<Rightarrow>
          if bk_device disk \<noteq> dr_device r \<or> \<not> dc_validate par (dr_plan r) (time_of q w1)
          then (Some (DataError ''authority or device changed before formatting''), r, w1)
          else (case authorize q (dr_plan r) w1 of
            (False, w2) \<Rightarrow> (Some (DataError ''authority or device changed before formatting''), r, w2)
          | (True, w2) \<Rightarrow>
              (case require_blank q disk ms w2 of
                 (False, w3) \<Rightarrow> (Some (DataError ''not blank''), r, w3)
               | (True, w3) \<Rightarrow>
                   let r1 = r\<lparr>dr_stage := ''format_dispatched''\<rparr> in
                   (case keep_receipt q r1 w3 of
                      (False, w4) \<Rightarrow> (Some (DataError ''save''), r1, w4)
                    | (True, w4) \<Rightarrow>
                        (case run_tool q (Formatted (dr_filesystem r1) (bk_name disk)) w4 of
                           (False, w5) \<Rightarrow> (Some (DataError ''mkfs''), r1, w5)
                         | (True, w5) \<Rightarrow> (None, r1, w5))))))"

subsection \<open>Mounting and quotas\<close>

definition mount_options_ok :: "string \<Rightarrow> bool" where
  "mount_options_ok opts \<longleftrightarrow>
     (let flags = set (split_char CHR '','' opts) in
      {''rw'', ''nodev'', ''nosuid'', ''noexec''} \<subseteq> flags \<and> {''prjquota'', ''pquota''} \<inter> flags \<noteq> {}
      \<and> {''usrquota'', ''uquota''} \<inter> flags \<noteq> {})"

fun matching_mount :: "data_block \<Rightarrow> string \<Rightarrow> bool \<Rightarrow> data_mount list \<Rightarrow> bool option" where
  "matching_mount disk path found [] = Some found"
| "matching_mount disk path found (m # ms) =
     (if mt_device m \<noteq> bk_device disk \<and> mt_target m \<noteq> path then matching_mount disk path found ms
      else if found \<or> mt_device m \<noteq> bk_device disk \<or> mt_target m \<noteq> path \<or> mt_fstype m \<noteq> ''xfs'' \<or> mt_root m \<noteq> ''/''
              \<or> \<not> mount_options_ok (mt_options m)
      then None
      else matching_mount disk path True ms)"

text \<open>Division of Go truncates towards zero.\<close>

definition kilobytes :: "int \<Rightarrow> int" where
  "kilobytes v = (if v < 0 then - (- v div 1024) else v div 1024)"

fun quota_lines :: "string list \<Rightarrow> int \<Rightarrow> string \<Rightarrow> int \<Rightarrow> nat \<Rightarrow> (int \<times> nat) option" where
  "quota_lines [] quota i used n = Some (used, n)"
| "quota_lines (l # ls) quota i used n =
     (if contains (to_lower l) ''warning'' then None
      else let fs = RunnerPayload.fields l in
        if fs = [] \<or> hd fs \<noteq> i then quota_lines ls quota i used n
        else if length fs < 4 then None
        else case (parse_int64 (fs ! 1), parse_int64 (fs ! 3)) of
          (Some usage, Some limit) \<Rightarrow>
            if usage < 0 \<or> 2 ^ 40 < usage \<or> limit \<noteq> kilobytes quota then None
            else quota_lines ls quota i (usage * 1024) (Suc n)
        | _ \<Rightarrow> None)"

definition quota_usage :: "string \<Rightarrow> int \<Rightarrow> string \<Rightarrow> int option" where
  "quota_usage output quota i =
     (case quota_lines (split_char CHR 0x0A output) quota i 0 0 of
        None \<Rightarrow> None
      | Some (used, n) \<Rightarrow> if n \<noteq> 1 then None else Some used)"

text \<open>One kind of limit: set it, see that it is enforced, read the usage.\<close>

definition limit_quota ::
  "'w data_oracle \<Rightarrow> int \<Rightarrow> string \<Rightarrow> string \<Rightarrow> string \<Rightarrow> 'w disk_world \<Rightarrow> int option \<times> 'w disk_world" where
  "limit_quota q quota kind i path w =
     (case run_tool q (Quota (''limit -'' @ kind @ '' bhard='' @ show_int (kilobytes quota) @ ''k '' @ i) path) w of
        (False, w1) \<Rightarrow> (None, w1)
      | (True, w1) \<Rightarrow>
          (case read_tool q (Quota (''state -'' @ kind) path) w1 of
             (None, w2) \<Rightarrow> (None, w2)
           | (Some state, w2) \<Rightarrow>
               if \<not> contains state ''Accounting: ON'' \<or> \<not> contains state ''Enforcement: ON'' then (None, w2)
               else (case read_tool q (Quota (''report -'' @ kind @ '' -b -n'') path) w2 of
                 (None, w3) \<Rightarrow> (None, w3)
               | (Some report, w3) \<Rightarrow> (quota_usage report quota (CHR ''#'' # i), w3))))"

definition apply_quota ::
  "'w data_params \<Rightarrow> 'w data_oracle \<Rightarrow> 'w data_receipt \<Rightarrow> string \<Rightarrow> 'w disk_world \<Rightarrow>
   data_result option \<times> 'w disk_world" where
  "apply_quota par q r path w =
     (if \<not> dc_validate par (dr_plan r) (time_of q w) then (None, w)
      else case authorize q (dr_plan r) w of
        (False, w1) \<Rightarrow> (None, w1)
      | (True, w1) \<Rightarrow>
          (case run_tool q (Quota (''project -s -p '' @ path @ '' 49'') path) w1 of
             (False, w2) \<Rightarrow> (None, w2)
           | (True, w2) \<Rightarrow>
               (case limit_quota q (dp_quota (dr_plan r)) ''p'' ''49'' path w2 of
                  (None, w3) \<Rightarrow> (None, w3)
                | (Some used1, w3) \<Rightarrow>
                    (case limit_quota q (dp_quota (dr_plan r)) ''u'' ''1000'' path w3 of
                       (None, w4) \<Rightarrow> (None, w4)
                     | (Some used2, w4) \<Rightarrow>
                         (Some \<lparr>da_ref = db_ref (dp_binding (dr_plan r)), da_filesystem = dr_filesystem r,
                            da_quota = dp_quota (dr_plan r), da_used = max (max 0 used1) used2,
                            da_reconciled = False\<rparr>, w4)))))"

definition mount_and_limit ::
  "'w data_params \<Rightarrow> 'w data_oracle \<Rightarrow> 'w data_receipt \<Rightarrow> 'w disk_world \<Rightarrow> data_result option \<times> 'w disk_world" where
  "mount_and_limit par q r w =
     (case observe q (dr_plan r) w of
        (None, w1) \<Rightarrow> (None, w1)
      | (Some (disk, ms), w1) \<Rightarrow>
          if bk_fstype disk \<noteq> ''xfs'' \<or> bk_uuid disk \<noteq> dr_filesystem r \<or> \<not> dc_validate par (dr_plan r) (time_of q w1)
          then (None, w1)
          else (case authorize q (dr_plan r) w1 of
            (False, w2) \<Rightarrow> (None, w2)
          | (True, w2) \<Rightarrow>
              let path = join_path [dc_base par, dr_filesystem r, ''mount''] in
              (case matching_mount disk path False ms of
                 None \<Rightarrow> (None, w2)
               | Some mounted \<Rightarrow>
                   (case (if mounted then (True, w2)
                          else case run_tool q (MadeDirectory path) w2 of
                            (False, w3) \<Rightarrow> (False, w3)
                          | (True, w3) \<Rightarrow> run_tool q (Mounted (bk_name disk) path) w3) of
                      (False, w4) \<Rightarrow> (None, w4)
                    | (True, w4) \<Rightarrow>
                        (case observe q (dr_plan r) w4 of
                           (None, w5) \<Rightarrow> (None, w5)
                         | (Some (seen, ms2), w5) \<Rightarrow>
                             if bk_device seen \<noteq> bk_device disk \<or> bk_uuid seen \<noteq> dr_filesystem r \<or> bk_fstype seen \<noteq> ''xfs''
                                \<or> matching_mount seen path False ms2 \<noteq> Some True
                             then (None, w5)
                             else apply_quota par q r path w5)))))"

subsection \<open>Initialisation\<close>

definition finish_data ::
  "'w data_params \<Rightarrow> 'w data_oracle \<Rightarrow> 'w data_plan \<Rightarrow> bool \<Rightarrow> 'w data_receipt \<Rightarrow> 'w disk_world \<Rightarrow>
   (data_error + data_result) \<times> 'w disk_world" where
  "finish_data par q p found r w =
     (case mount_and_limit par q (r\<lparr>dr_plan := p\<rparr>) w of
        (None, w1) \<Rightarrow> (Inl (DataError ''mount''), w1)
      | (Some res, w1) \<Rightarrow>
          (case keep_receipt q (r\<lparr>dr_stage := ''complete''\<rparr>) w1 of
             (False, w2) \<Rightarrow> (Inl (DataError ''save''), w2)
           | (True, w2) \<Rightarrow> (Inr (res\<lparr>da_reconciled := found\<rparr>), w2)))"

definition format_and_finish ::
  "'w data_params \<Rightarrow> 'w data_oracle \<Rightarrow> 'w data_plan \<Rightarrow> bool \<Rightarrow> data_block \<Rightarrow> 'w data_receipt \<Rightarrow> 'w disk_world \<Rightarrow>
   (data_error + data_result) \<times> 'w disk_world" where
  "format_and_finish par q p found disk r w =
     (if dr_device r \<noteq> bk_device disk
         \<and> (dr_stage r \<noteq> ''complete'' \<or> bk_fstype disk \<noteq> ''xfs'' \<or> bk_uuid disk \<noteq> dr_filesystem r)
      then (Inl (DataError ''device changed before initialization completed''), w)
      else if dr_stage r = ''reserved'' then
        (case format_disk par q r w of
           (Some e, r1, w1) \<Rightarrow> (Inl e, w1)
         | (None, r1, w1) \<Rightarrow> finish_data par q p found r1 w1)
      else finish_data par q p found r w)"

definition initialize_data ::
  "'w data_params \<Rightarrow> 'w data_oracle \<Rightarrow> 'w data_plan \<Rightarrow> 'w disk_world \<Rightarrow> (data_error + data_result) \<times> 'w disk_world"
  where
  "initialize_data par q p w =
     (if \<not> dc_validate par p (time_of q w) then (Inl (DataError ''plan''), w)
      else case authorize q p w of
        (False, w1) \<Rightarrow> (Inl (DataError ''authority''), w1)
      | (True, w1) \<Rightarrow>
          if \<not> do_load q (dw_effects w1) then (Inl (DataError ''receipt''), w1)
          else (case dw_receipt w1 of
             Some r0 \<Rightarrow>
               if \<not> receipt_matches par r0 p then (Inl (DataError ''receipt identity changed''), w1)
               else
                 let r = r0\<lparr>dr_plan := (dr_plan r0)\<lparr>dp_binding := dp_binding p\<rparr>\<rparr> in
                 (case observe q p w1 of
                    (None, w2) \<Rightarrow> (Inl (DataError ''observe''), w2)
                  | (Some (disk, ms), w2) \<Rightarrow> format_and_finish par q p True disk r w2)
           | None \<Rightarrow>
               (case observe q p w1 of
                  (None, w2) \<Rightarrow> (Inl (DataError ''observe''), w2)
                | (Some (disk, ms), w2) \<Rightarrow>
                    (case require_blank q disk ms w2 of
                       (False, w3) \<Rightarrow> (Inl (DataError ''not blank''), w3)
                     | (True, w3) \<Rightarrow>
                         let r = \<lparr>dr_plan = p, dr_stage = ''reserved'', dr_filesystem = db_ref (dp_binding p),
                                  dr_device = bk_device disk\<rparr> in
                         (case keep_receipt q r w3 of
                            (False, w4) \<Rightarrow> (Inl (DataError ''save''), w4)
                          | (True, w4) \<Rightarrow> format_and_finish par q p False disk r w4)))))"

text \<open>One run of the program under the lock.\<close>

definition data_life ::
  "'w data_params \<Rightarrow> 'w data_oracle \<Rightarrow> 'w data_plan \<Rightarrow> 'w disk_world \<Rightarrow> 'w disk_world" where
  "data_life par q p w = snd (initialize_data par q p (w\<lparr>dw_dead := False\<rparr>))"

subsection \<open>What formatting needs\<close>

fun is_format :: "'w data_effect \<Rightarrow> bool" where
  "is_format (Formatted u n) = True"
| "is_format _ = False"

definition formats :: "'w data_effect list \<Rightarrow> 'w data_effect list" where
  "formats es = filter is_format es"

text \<open>The log up to a format of device \<open>n\<close> with identity \<open>u\<close> ends with the evidence for it: an observation
  of a blank disk that is not in use, fresh authority for the plan, no signature found, and the marker
  in the receipt.\<close>

definition blank_evidence :: "'w data_effect list \<Rightarrow> string \<Rightarrow> string \<Rightarrow> bool" where
  "blank_evidence es u n \<longleftrightarrow>
     (\<exists>start bs d fs ms disk r.
        es = start @ [Blocks (Some bs), Fresh (bk_name d) (Some fs), Mounts (Some ms), Authorized (dr_plan r) True,
                       Probed n (Some 0), Kept r DataSaved]
        \<and> select_block bs (db_serial (dp_binding (dr_plan r))) (db_bytes (dp_binding (dr_plan r))) = Some d
        \<and> probe_block d fs = Some disk \<and> bk_name disk = n \<and> looks_blank disk ms \<and> root_mount_ok disk ms
        \<and> dr_stage r = ''format_dispatched'' \<and> dr_filesystem r = u \<and> dr_device r = bk_device disk)"

definition safe_log :: "'w data_effect list \<Rightarrow> bool" where
  "safe_log es \<longleftrightarrow> (\<forall>before u n rest. es = before @ Formatted u n # rest \<longrightarrow> blank_evidence before u n)"

text \<open>Steps that format nothing and leave the receipt alone.\<close>

definition calm :: "'w disk_world \<Rightarrow> 'w disk_world \<Rightarrow> bool" where
  "calm w w' \<longleftrightarrow> dw_receipt w' = dw_receipt w
     \<and> (\<exists>es. dw_log w' = dw_log w @ es \<and> (\<forall>e \<in> set es. \<not> is_format e))"

lemma calm_refl [simp]: "calm w w"
  by (simp add: calm_def)

lemma calm_trans: "calm w v \<Longrightarrow> calm v u \<Longrightarrow> calm w u"
  unfolding calm_def by (metis (no_types, lifting) Un_iff append.assoc set_append)

lemma act_calm: "act q f w = (k, w1) \<Longrightarrow> (\<And>n. \<not> is_format (f n)) \<Longrightarrow> calm w w1"
  by (auto simp: act_def Let_def calm_def split: if_splits)

lemma authorize_calm: "authorize q p w = (a, w1) \<Longrightarrow> calm w w1"
  by (auto simp: authorize_def split: prod.splits option.splits dest: act_calm)

lemma run_tool_calm: "run_tool q e w = (a, w1) \<Longrightarrow> \<not> is_format e \<Longrightarrow> calm w w1"
  by (auto simp: run_tool_def split: prod.splits option.splits dest: act_calm)

lemma read_tool_calm: "read_tool q e w = (a, w1) \<Longrightarrow> \<not> is_format e \<Longrightarrow> calm w w1"
  by (auto simp: read_tool_def split: prod.splits option.splits dest: act_calm)

lemma observe_calm:
  assumes "observe q p w = (a, w1)"
  shows "calm w w1"
proof -
  obtain k1 v1 where a1: "act q (\<lambda>n. Blocks (do_blocks q n)) w = (k1, v1)" by (meson surj_pair)
  have c1: "calm w v1" by (rule act_calm [OF a1]) simp
  have fresh: "calm w v2" if "act q (\<lambda>n. Fresh x (do_fresh q n)) v1 = (k2, v2)" for x k2 v2
    by (rule calm_trans [OF c1 act_calm [OF that]]) simp
  have mounts: "calm w v3" if "act q (\<lambda>n. Mounts (do_mounts q n)) v2 = (k3, v3)" "calm w v2" for k3 v3 v2
    by (rule calm_trans [OF that(2) act_calm [OF that(1)]]) simp
  show ?thesis
    using assms c1 by (auto simp: observe_def a1 split: option.splits prod.splits if_splits intro: fresh mounts)
qed

lemma require_blank_calm: "require_blank q d ms w = (a, w1) \<Longrightarrow> calm w w1"
  by (auto simp: require_blank_def split: if_splits prod.splits option.splits dest: act_calm)

lemma quota_calm:
  "run_tool q (Quota x y) w = (a, w1) \<Longrightarrow> calm w w1" "read_tool q (Quota x y) w = (b, w2) \<Longrightarrow> calm w w2"
  "run_tool q (MadeDirectory x) w = (a, w1) \<Longrightarrow> calm w w1" "run_tool q (Mounted x y) w = (a, w1) \<Longrightarrow> calm w w1"
  by (simp_all add: run_tool_calm read_tool_calm)

lemma limit_quota_calm: "limit_quota q quota kind i path w = (a, w1) \<Longrightarrow> calm w w1"
  unfolding limit_quota_def
  by (clarsimp split: prod.splits bool.splits option.splits if_splits dest!: quota_calm)
    (meson calm_trans)+

lemma apply_quota_calm: "apply_quota par q r path w = (a, w1) \<Longrightarrow> calm w w1"
  unfolding apply_quota_def
  by (clarsimp split: prod.splits bool.splits option.splits if_splits
      dest!: quota_calm limit_quota_calm authorize_calm)
    (meson calm_trans)+

lemma mount_and_limit_calm: "mount_and_limit par q r w = (a, w1) \<Longrightarrow> calm w w1"
  unfolding mount_and_limit_def
  by (clarsimp simp: Let_def split: prod.splits bool.splits option.splits if_splits
      dest!: quota_calm observe_calm authorize_calm apply_quota_calm)
    (meson calm_trans)+

subsection \<open>The disk is formatted once, and only when blank\<close>

definition may_format :: "'w data_receipt option \<Rightarrow> bool" where
  "may_format r \<longleftrightarrow> (r = None \<or> dr_stage (the r) = ''reserved'')"

definition data_inv :: "'w disk_world \<Rightarrow> bool" where
  "data_inv w \<longleftrightarrow>
     safe_log (dw_log w) \<and> length (formats (dw_log w)) \<le> 1
     \<and> (may_format (dw_receipt w) \<longrightarrow> formats (dw_log w) = [])"

lemma safe_append:
  assumes safe: "safe_log xs" and calm: "\<forall>e \<in> set es. \<not> is_format e"
  shows "safe_log (xs @ es)"
  unfolding safe_log_def
proof (intro allI impI)
  fix before u n rest assume eq: "xs @ es = before @ Formatted u n # rest"
  then consider us where "xs = before @ us" "us @ es = Formatted u n # rest"
    | us where "before = xs @ us" "es = us @ Formatted u n # rest"
    by (auto simp: append_eq_append_conv2)
  then show "blank_evidence before u n"
  proof cases
    case 1
    with calm obtain us' where "us = Formatted u n # us'" by (cases us) auto
    with 1 safe show ?thesis by (auto simp: safe_log_def)
  next
    case 2
    with calm show ?thesis by auto
  qed
qed

lemma formats_append: "formats (xs @ es) = formats xs @ formats es"
  by (simp add: formats_def)

lemma formats_calm: "\<forall>e \<in> set es. \<not> is_format e \<Longrightarrow> formats es = []"
  by (simp add: formats_def)

lemma calm_formats: "calm w w1 \<Longrightarrow> formats (dw_log w1) = formats (dw_log w) \<and> dw_receipt w1 = dw_receipt w"
  by (auto simp: calm_def formats_append formats_calm)

lemma calm_safe: "safe_log (dw_log w) \<Longrightarrow> calm w w1 \<Longrightarrow> safe_log (dw_log w1)"
  by (auto simp: calm_def safe_append)

lemma calm_inv: "data_inv w \<Longrightarrow> calm w w1 \<Longrightarrow> data_inv w1"
  using calm_formats [of w w1] calm_safe [of w w1] by (simp add: data_inv_def)

lemma keep_cases:
  assumes "keep_receipt q r w = (k, w1)"
  obtains "w1 = w" "\<not> k"
  | n where "dw_log w1 = dw_log w @ [Kept r (do_save q n)]" "dw_receipt w1 = dw_receipt w \<or> dw_receipt w1 = Some r"
    "k \<longrightarrow> do_save q n = DataSaved \<and> dw_receipt w1 = Some r"
proof (cases "dw_dead w")
  case True
  with assms show ?thesis by (intro that(1)) (simp_all add: keep_receipt_def)
next
  case False
  with assms show ?thesis
    by (intro that(2) [of "dw_effects w"])
      (auto simp: keep_receipt_def act_def Let_def split: if_splits)
qed

text \<open>Saving a receipt keeps the invariant if it does not claim that nothing was formatted.\<close>

lemma keep_data_inv:
  assumes inv: "data_inv w" and run: "keep_receipt q r w = (k, w1)"
    and stage: "dr_stage r = ''reserved'' \<Longrightarrow> formats (dw_log w) = []"
  shows "data_inv w1 \<and> formats (dw_log w1) = formats (dw_log w)"
  using run
proof (cases rule: keep_cases)
  case (2 n)
  have f: "formats (dw_log w1) = formats (dw_log w)" by (simp add: 2 formats_append formats_def)
  moreover have "safe_log (dw_log w1)" using inv by (simp add: 2 data_inv_def safe_append)
  ultimately show ?thesis using inv stage 2(2) by (auto simp: data_inv_def may_format_def)
qed (use inv in simp)

lemma authorize_log: "authorize q p w = (True, w1) \<Longrightarrow> dw_log w1 = dw_log w @ [Authorized p True]"
  by (auto simp: authorize_def act_def Let_def split: if_splits prod.splits option.splits)

lemma require_blank_log:
  "require_blank q d ms w = (True, w1) \<Longrightarrow> looks_blank d ms \<and> dw_log w1 = dw_log w @ [Probed (bk_name d) (Some 0)]"
  by (auto simp: require_blank_def act_def Let_def split: if_splits prod.splits option.splits)

lemma observe_log:
  assumes "observe q p w = (Some (disk, ms), w1)"
  shows "\<exists>bs d fs. dw_log w1 = dw_log w @ [Blocks (Some bs), Fresh (bk_name d) (Some fs), Mounts (Some ms)]
    \<and> select_block bs (db_serial (dp_binding p)) (db_bytes (dp_binding p)) = Some d
    \<and> probe_block d fs = Some disk \<and> root_mount_ok disk ms"
  using assms
  by (fastforce simp: observe_def act_def Let_def bind_eq_Some_conv split: if_splits prod.splits option.splits)

lemma format_disk_inv:
  assumes inv: "data_inv w" and none: "formats (dw_log w) = []"
    and run: "format_disk par q r w = (e, r1, w1)"
  shows "data_inv w1 \<and> (e = None \<longrightarrow> dr_stage r1 = ''format_dispatched'')"
proof -
  let ?r = "r\<lparr>dr_stage := ''format_dispatched''\<rparr>"
  obtain ob v1 where ob: "observe q (dr_plan r) w = (ob, v1)" by (meson surj_pair)
  note c1 = observe_calm [OF ob]
  show ?thesis
  proof (cases "\<exists>disk ms. ob = Some (disk, ms) \<and> bk_device disk = dr_device r \<and> dc_validate par (dr_plan r) (time_of q v1)")
    case False
    then show ?thesis using run ob calm_inv [OF inv c1] by (auto simp: format_disk_def split: option.splits if_splits)
  next
    case True
    then obtain disk ms where ok: "ob = Some (disk, ms)" "bk_device disk = dr_device r"
      "dc_validate par (dr_plan r) (time_of q v1)" by auto
    obtain a v2 where a: "authorize q (dr_plan r) v1 = (a, v2)" by (meson surj_pair)
    note c2 = calm_trans [OF c1 authorize_calm [OF a]]
    obtain b v3 where b: "require_blank q disk ms v2 = (b, v3)" by (meson surj_pair)
    note c3 = calm_trans [OF c2 require_blank_calm [OF b]]
    show ?thesis
    proof (cases "a \<and> b")
      case False
      with run ob ok a b calm_inv [OF inv c2] calm_inv [OF inv c3] show ?thesis
        by (auto simp: format_disk_def split: bool.splits)
    next
      case True
      obtain k v4 where k: "keep_receipt q ?r v3 = (k, v4)" by (meson surj_pair)
      have inv4: "data_inv v4" "formats (dw_log v4) = []"
        using keep_data_inv [OF calm_inv [OF inv c3] k] calm_formats [OF c3] none by simp_all
      show ?thesis
      proof (cases k)
        case False
        with run ob ok a b True k inv4 show ?thesis by (auto simp: format_disk_def Let_def)
      next
        case kept: True
        obtain t v5 where t: "run_tool q (Formatted (dr_filesystem r) (bk_name disk)) v4 = (t, v5)" by (meson surj_pair)
        have res: "w1 = v5" "e = None \<longrightarrow> r1 = ?r"
          using run ob ok a b True k kept t by (auto simp: format_disk_def Let_def split: bool.splits)
        from k kept have log4: "dw_log v4 = dw_log v3 @ [Kept ?r DataSaved]" "dw_receipt v4 = Some ?r"
          by (auto elim: keep_cases)
        obtain bs d fs where obs: "dw_log v1 = dw_log w @ [Blocks (Some bs), Fresh (bk_name d) (Some fs), Mounts (Some ms)]"
          "select_block bs (db_serial (dp_binding (dr_plan r))) (db_bytes (dp_binding (dr_plan r))) = Some d"
          "probe_block d fs = Some disk" "root_mount_ok disk ms"
          using observe_log [OF ob [unfolded ok(1)]] by blast
        have blank: "looks_blank disk ms" "dw_log v3 = dw_log v2 @ [Probed (bk_name disk) (Some 0)]"
          using require_blank_log [of q disk ms v2 v3] b True by simp_all
        have log3: "dw_log v2 = dw_log v1 @ [Authorized (dr_plan r) True]"
          using authorize_log [of q "dr_plan r" v1 v2] a True by simp
        have "dw_log v4 = dw_log w @ [Blocks (Some bs), Fresh (bk_name d) (Some fs), Mounts (Some ms),
            Authorized (dr_plan ?r) True, Probed (bk_name disk) (Some 0), Kept ?r DataSaved]"
          by (simp add: log4 blank log3 obs)
        then have ev: "blank_evidence (dw_log v4) (dr_filesystem r) (bk_name disk)"
          unfolding blank_evidence_def
          by (intro exI [of _ "dw_log w"] exI [of _ bs] exI [of _ d] exI [of _ fs] exI [of _ ms] exI [of _ disk]
              exI [of _ ?r]) (use obs blank ok in simp)
        have "dw_receipt v5 = Some ?r \<and>
            (dw_log v5 = dw_log v4 \<or> dw_log v5 = dw_log v4 @ [Formatted (dr_filesystem r) (bk_name disk)])"
          using t log4 by (auto simp: run_tool_def act_def Let_def split: if_splits prod.splits option.splits)
        moreover have "safe_log (dw_log v4 @ [Formatted (dr_filesystem r) (bk_name disk)])"
          using inv4 ev by (auto simp: data_inv_def safe_log_def append_eq_Cons_conv append_eq_append_conv2 Cons_eq_append_conv)
        ultimately show ?thesis using inv4 res by (auto simp: data_inv_def may_format_def formats_append formats_def)
      qed
    qed
  qed
qed

lemma finish_data_inv:
  assumes "data_inv w" and "finish_data par q p found r w = (res, w1)"
  shows "data_inv w1"
proof -
  obtain a v where a: "mount_and_limit par q (r\<lparr>dr_plan := p\<rparr>) w = (a, v)" by (meson surj_pair)
  note inv1 = calm_inv [OF assms(1) mount_and_limit_calm [OF a]]
  have kept: "data_inv v2" if "keep_receipt q (r\<lparr>dr_stage := ''complete''\<rparr>) v = (k, v2)" for k v2
    using keep_data_inv [OF inv1 that] by simp
  show ?thesis
    using assms(2) a inv1 by (auto simp: finish_data_def split: option.splits prod.splits bool.splits dest: kept)
qed

lemma format_and_finish_inv:
  assumes inv: "data_inv w" and stage: "dr_stage r = ''reserved'' \<Longrightarrow> formats (dw_log w) = []"
    and run: "format_and_finish par q p found disk r w = (res, w1)"
  shows "data_inv w1"
proof (cases "dr_stage r = ''reserved''")
  case True
  obtain e r1 v where f: "format_disk par q r w = (e, r1, v)" by (metis surj_pair)
  from format_disk_inv [OF inv stage [OF True] f] have inv1: "data_inv v" by simp
  show ?thesis
    using run inv True f inv1 finish_data_inv [OF inv1]
    by (auto simp: format_and_finish_def split: if_splits option.splits)
next
  case False
  with run inv finish_data_inv [OF inv] show ?thesis by (auto simp: format_and_finish_def split: if_splits)
qed

lemma reserved_initial: "may_format None"
  by (simp add: may_format_def)

lemma initialize_data_inv:
  assumes inv: "data_inv w" and run: "initialize_data par q p w = (res, w1)"
  shows "data_inv w1"
proof (cases "dc_validate par p (time_of q w)")
  case True
  obtain a v1 where a: "authorize q p w = (a, v1)" by (metis surj_pair)
  obtain ob v2 where ob: "observe q p v1 = (ob, v2)" by (metis surj_pair)
  note c1 = authorize_calm [OF a]
  note c2 = calm_trans [OF c1 observe_calm [OF ob]]
  note inv1 = calm_inv [OF inv c1] and inv2 = calm_inv [OF inv c2]
  show ?thesis
  proof (cases "a \<and> do_load q (dw_effects v1) \<and> ob \<noteq> None")
    case False
    with run True a ob inv1 inv2 show ?thesis
      by (auto simp: initialize_data_def Let_def split: bool.splits if_splits option.splits)
  next
    case ok: True
    then obtain disk ms where dm: "ob = Some (disk, ms)" by auto
    show ?thesis
    proof (cases "dw_receipt v1")
      case None
      obtain b v3 where b: "require_blank q disk ms v2 = (b, v3)" by (metis surj_pair)
      let ?r = "\<lparr>dr_plan = p, dr_stage = ''reserved'', dr_filesystem = db_ref (dp_binding p), dr_device = bk_device disk\<rparr>"
      note c3 = calm_trans [OF c2 require_blank_calm [OF b]]
      have none: "formats (dw_log v3) = []"
        using inv None calm_formats [OF c1] calm_formats [OF c3] by (simp add: data_inv_def may_format_def)
      obtain k v4 where k: "keep_receipt q ?r v3 = (k, v4)" by (metis surj_pair)
      note kept = keep_data_inv [OF calm_inv [OF inv c3] k none]
      have ended: "data_inv v5" if "format_and_finish par q p False disk ?r v4 = (x, v5)" for x v5
        by (rule format_and_finish_inv [OF _ _ that]) (use kept none in simp_all)
      show ?thesis
        using run True a ob ok dm None b k kept calm_inv [OF inv c3] ended
        by (auto simp: initialize_data_def Let_def split: bool.splits)
    next
      case (Some r0)
      let ?r = "r0\<lparr>dr_plan := (dr_plan r0)\<lparr>dp_binding := dp_binding p\<rparr>\<rparr>"
      have stage: "formats (dw_log v2) = []" if "dr_stage ?r = ''reserved''"
        using that inv2 Some calm_formats [OF observe_calm [OF ob]] by (simp add: data_inv_def may_format_def)
      have ended: "data_inv v3" if "format_and_finish par q p True disk ?r v2 = (x, v3)" for x v3
        by (rule format_and_finish_inv [OF inv2 stage that]) simp
      show ?thesis
        using run True a ob ok dm Some inv1 ended
        by (auto simp: initialize_data_def Let_def split: if_splits)
    qed
  qed
qed (use assms in \<open>simp add: initialize_data_def\<close>)

lemma data_life_inv: "data_inv w \<Longrightarrow> data_inv (data_life par q p w)"
  unfolding data_life_def
  by (rule initialize_data_inv [of "w\<lparr>dw_dead := False\<rparr>", OF _ prod.collapse [symmetric]])
    (simp add: data_inv_def)

text \<open>A sequence of runs with their plans and oracles; the receipt and the log stay.\<close>

definition data_lives ::
  "'w data_params \<Rightarrow> ('w data_oracle \<times> 'w data_plan) list \<Rightarrow> 'w disk_world \<Rightarrow> 'w disk_world" where
  "data_lives par runs w = fold (\<lambda>(q, p). data_life par q p) runs w"

definition new_disk :: "'w disk_world" where
  "new_disk = \<lparr>dw_effects = 0, dw_log = [], dw_receipt = None, dw_dead = False\<rparr>"

lemma data_lives_inv: "data_inv w \<Longrightarrow> data_inv (data_lives par runs w)"
  unfolding data_lives_def by (induction runs arbitrary: w) (auto simp: data_life_inv)

lemma new_disk_inv: "data_inv new_disk"
  by (simp add: data_inv_def new_disk_def formats_def safe_log_def)

text \<open>C1: Over any sequence of runs, with any plans, killed at any effect and with any answers of the tools and
  of the control plane, the data disk is formatted at most once.\<close>

theorem data_formatted_at_most_once:
  "length (formats (dw_log (data_lives par runs new_disk))) \<le> 1"
  using data_lives_inv [OF new_disk_inv, of par runs] by (simp add: data_inv_def)

text \<open>C15: A disk is formatted only directly after these steps for the same receipt, in this order: the disk
  was observed (one block device of the plan's serial and size, probed directly, not the root disk) without
  file system, without mount; the control plane authorised the plan anew; no signature was found; the marker
  of the format was saved with the observed device.\<close>

theorem data_formatted_only_when_blank:
  assumes "dw_log (data_lives par runs new_disk) = before @ Formatted u n # rest"
  shows "blank_evidence before u n"
  using data_lives_inv [OF new_disk_inv, of par runs] assms by (auto simp: data_inv_def safe_log_def)

subsection \<open>A run\<close>

definition demo_disk :: data_block where
  "demo_disk = Block ''/dev/vdb'' ''disk'' 4096 ''data-1'' [] [] False ''253:16'' [] []"

definition demo_plan :: "unit data_plan" where
  "demo_plan = \<lparr>dp_operation = ''op'', dp_quota = 4096,
     dp_binding = \<lparr>db_ref = ''ref'', db_serial = ''data-1'', db_bytes = 4096, db_rest = ()\<rparr>\<rparr>"

definition demo_oracle :: "nat \<Rightarrow> unit data_oracle" where
  "demo_oracle k = \<lparr>do_now = (\<lambda>n. 0), do_authorize = (\<lambda>n. True), do_blocks = (\<lambda>n. Some [demo_disk]),
     do_fresh = (\<lambda>n. Some [demo_disk]),
     do_mounts = (\<lambda>n. Some [\<lparr>mt_target = ''/'', mt_fstype = ''ext4'', mt_options = ''rw'', mt_device = ''253:1'', mt_root = ''/''\<rparr>]),
     do_signatures = (\<lambda>n. Some 0), do_save = (\<lambda>n. DataSaved), do_ok = (\<lambda>n. True), do_text = (\<lambda>n. None),
     do_load = (\<lambda>n. True), do_killed = (\<lambda>n. n = k)\<rparr>"

definition demo_params :: "unit data_params" where
  "demo_params = \<lparr>dc_validate = (\<lambda>p t. True), dc_same = (=), dc_base = ''/mnt''\<rparr>"

definition demo_log :: "unit data_effect list" where
  "demo_log = dw_log (data_lives demo_params [(demo_oracle 12, demo_plan)] new_disk)"

lemma demo_log_format: "demo_log = take 12 demo_log @ Formatted ''ref'' ''/dev/vdb'' # []"
  by code_simp

lemma data_formatted_only_when_blank_witness:
  "blank_evidence (take 12 demo_log) ''ref'' ''/dev/vdb''"
  by (rule data_formatted_only_when_blank [where rest = "[]" and par = demo_params and runs = "[(demo_oracle 12, demo_plan)]"])
    (use demo_log_format in \<open>simp add: demo_log_def\<close>)

end
