(* ===== verification/Access.thy ===== *)
theory Access
  imports SohaPrelude
begin

text \<open>
  Access control of the HTTP server: bearer tokens (\<^verbatim>\<open>internal/agent/api/auth.go\<close>), the header of the
  outpost (\<^verbatim>\<open>outpostAuthMiddleware\<close> of \<^verbatim>\<open>routes_outpost.go\<close>), the allow list of actions and its audit
  trail (\<^verbatim>\<open>security.go\<close>) and the origin check of web sockets (\<^verbatim>\<open>websocket_origin.go\<close>).

  A request is what these functions read of it. A handler of the router lets a request pass or stops it
  with a status and a code. \<^verbatim>\<open>url.Parse\<close> and the loopback test of \<^verbatim>\<open>net.ParseIP\<close> are parameters.
\<close>

subsection \<open>Requests and answers\<close>

record request =
  rq_method :: string
  rq_path :: string
  rq_auth :: "string list"
  rq_outpost :: "string list"
  rq_origin :: "string list"
  rq_host :: string
  rq_peers :: nat
  rq_chains :: nat
  rq_tls :: bool

datatype verdict = Passed | Stopped int string

definition header_get :: "string list \<Rightarrow> string" where
  "header_get values = (case values of [] \<Rightarrow> [] | v # vs \<Rightarrow> v)"

subsection \<open>Bearer tokens\<close>

definition parse_bearer :: "string \<Rightarrow> string option" where
  "parse_bearer header =
     (case cut_char CHR '' '' (trim_space header) of
        None \<Rightarrow> None
      | Some (scheme, rest) \<Rightarrow>
          if \<not> equal_fold scheme ''Bearer'' then None
          else let token = trim_space rest in
            if token = [] \<or> contains_any token [CHR '' '', CHR 0x09, CHR 0x0D, CHR 0x0A] then None
            else Some token)"

definition allowed_tokens :: "string list \<Rightarrow> string list" where
  "allowed_tokens tokens = filter (\<lambda>t. t \<noteq> []) (map trim_space tokens)"

text \<open>\<^verbatim>\<open>subtle.ConstantTimeCompare\<close> of two byte strings.\<close>

definition secure_equal :: "string \<Rightarrow> string \<Rightarrow> bool" where
  "secure_equal a b \<longleftrightarrow> length a = length b \<and> list_all2 (=) a b"

definition has_any_token :: "request \<Rightarrow> string list \<Rightarrow> bool" where
  "has_any_token r allowed \<longleftrightarrow>
     (if length (rq_auth r) \<noteq> 1 then False
      else case parse_bearer (header_get (rq_auth r)) of
        None \<Rightarrow> False
      | Some presented \<Rightarrow> foldl (\<lambda>m t. m \<or> secure_equal presented t) False allowed)"

definition auth_any :: "string list \<Rightarrow> request \<Rightarrow> verdict" where
  "auth_any tokens r =
     (let allowed = allowed_tokens tokens in
      if allowed = [] \<or> has_any_token r allowed then Passed else Stopped 401 ''unauthorized'')"

definition auth_one :: "string \<Rightarrow> request \<Rightarrow> verdict" where
  "auth_one token r = auth_any [token] r"

definition auth_required :: "string list \<Rightarrow> request \<Rightarrow> verdict" where
  "auth_required tokens r =
     (let allowed = allowed_tokens tokens in
      if allowed = [] then Stopped 401 ''unauthorized''
      else if has_any_token r allowed then Passed else Stopped 401 ''unauthorized'')"

text \<open>The outpost's own header; the request goes on without it.\<close>

definition outpost_auth :: "string \<Rightarrow> request \<Rightarrow> verdict \<times> request" where
  "outpost_auth token r =
     (let expected = trim_space token in
      if expected \<noteq> [] \<and> length (rq_outpost r) = 1 \<and> secure_equal (trim_space (rq_outpost r ! 0)) expected
      then (Passed, r\<lparr>rq_outpost := []\<rparr>)
      else (auth_one token r, r))"

subsection \<open>Actions\<close>

record audit_record =
  au_action :: string
  au_allowed :: bool
  au_reason :: string
  au_method :: string
  au_path :: string

definition normalize_action :: "string \<Rightarrow> string" where
  "normalize_action a = to_lower (trim_space a)"

definition action_policy :: "string list \<Rightarrow> string list" where
  "action_policy configured = filter (\<lambda>a. a \<noteq> []) (map normalize_action configured)"

definition policy_allows :: "string list \<Rightarrow> string \<Rightarrow> bool" where
  "policy_allows policy a \<longleftrightarrow>
     (if a = [] then False else if ''*'' \<in> set policy then True else a \<in> set policy)"

text \<open>\<^verbatim>\<open>actionPolicy.Require\<close>: the decision is audited, then taken.\<close>

definition require_action :: "string list \<Rightarrow> string \<Rightarrow> request \<Rightarrow> audit_record list \<Rightarrow> verdict \<times> audit_record list" where
  "require_action policy action r trail =
     (let a = normalize_action action; ok = policy_allows policy a;
          reason = (if ok then ''matched allowlist'' else ''action is not allowlisted'');
          trail1 = trail @ [\<lparr>au_action = a, au_allowed = ok, au_reason = reason, au_method = rq_method r,
                             au_path = rq_path r\<rparr>]
      in (if ok then Passed else Stopped 403 ''action_not_allowed'', trail1))"

subsection \<open>Origins of web sockets\<close>

record origin_url =
  ou_scheme :: string
  ou_host :: string
  ou_hostname :: string
  ou_user :: bool
  ou_path :: string
  ou_query :: string
  ou_fragment :: string

definition parse_origin :: "(string \<Rightarrow> origin_url option) \<Rightarrow> string \<Rightarrow> origin_url option" where
  "parse_origin url v =
     (case url v of
        None \<Rightarrow> None
      | Some u \<Rightarrow>
          if ou_host u = [] \<or> ou_user u then None
          else if to_lower (ou_scheme u) \<noteq> ''http'' \<and> to_lower (ou_scheme u) \<noteq> ''https'' then None
          else if ou_path u \<noteq> [] \<or> ou_query u \<noteq> [] \<or> ou_fragment u \<noteq> [] then None
          else if ou_hostname u = [] then None
          else Some u)"

definition origin_key :: "origin_url \<Rightarrow> string" where
  "origin_key u = to_lower (ou_scheme u) @ ''://'' @ to_lower (ou_host u)"

definition origin_list :: "(string \<Rightarrow> origin_url option) \<Rightarrow> string list \<Rightarrow> string list" where
  "origin_list url configured = map origin_key (List.map_filter (\<lambda>v. parse_origin url (trim_space v)) configured)"

text \<open>\<^verbatim>\<open>net.SplitHostPort\<close>, the host.\<close>

fun last_index :: "char \<Rightarrow> string \<Rightarrow> nat option" where
  "last_index c [] = None"
| "last_index c (d # ds) =
     (case last_index c ds of Some i \<Rightarrow> Some (Suc i) | None \<Rightarrow> if d = c then Some 0 else None)"

fun first_index :: "char \<Rightarrow> string \<Rightarrow> nat option" where
  "first_index c [] = None"
| "first_index c (d # ds) = (if d = c then Some 0 else map_option Suc (first_index c ds))"

definition split_host :: "string \<Rightarrow> string option" where
  "split_host hp =
     (case last_index CHR '':'' hp of
        None \<Rightarrow> None
      | Some i \<Rightarrow>
          if hd hp = CHR ''['' then
            (case first_index CHR '']'' hp of
               None \<Rightarrow> None
             | Some e \<Rightarrow>
                 if e + 1 = length hp \<or> e + 1 \<noteq> i then None
                 else if CHR ''['' \<in> set (drop 1 hp) \<or> CHR '']'' \<in> set (drop (e + 1) hp) then None
                 else Some (take (e - 1) (drop 1 hp)))
          else if CHR '':'' \<in> set (take i hp) then None
          else if CHR ''['' \<in> set hp \<or> CHR '']'' \<in> set hp then None
          else Some (take i hp))"

definition socket_host :: "string \<Rightarrow> string" where
  "socket_host hp = (case split_host hp of Some h \<Rightarrow> trim_cutset h ''[]'' | None \<Rightarrow> trim_cutset hp ''[]'')"

definition local_host :: "(string \<Rightarrow> bool) \<Rightarrow> string \<Rightarrow> bool" where
  "local_host loopback host \<longleftrightarrow>
     (let h = to_lower (trim_space host) in
      h = ''localhost'' \<or> has_suffix h ''.localhost'' \<or> loopback h)"

definition verified_client :: "request \<Rightarrow> bool" where
  "verified_client r \<longleftrightarrow> rq_tls r \<and> 0 < rq_peers r \<and> 0 < rq_chains r"

definition check_origin ::
  "(string \<Rightarrow> origin_url option) \<Rightarrow> (string \<Rightarrow> bool) \<Rightarrow> string list \<Rightarrow> string list \<Rightarrow> request \<Rightarrow> bool" where
  "check_origin url loopback origins tokens r \<longleftrightarrow>
     (if 1 < length (rq_origin r) then False
      else let origin = trim_space (header_get (rq_origin r)) in
        if origin = [] then has_any_token r (allowed_tokens tokens) \<or> verified_client r
        else case parse_origin url origin of
          None \<Rightarrow> False
        | Some u \<Rightarrow>
            if origin_key u \<in> set (origin_list url origins) then True
            else if equal_fold (ou_host u) (rq_host r) then True
            else local_host loopback (socket_host (rq_host r)) \<and> local_host loopback (socket_host (ou_host u)))"

subsection \<open>Who is let in\<close>

lemma foldl_or: "foldl (\<lambda>m t. m \<or> P t) b xs \<longleftrightarrow> b \<or> (\<exists>t \<in> set xs. P t)"
  by (induction xs arbitrary: b) auto

lemma secure_equal_eq: "secure_equal a b \<longleftrightarrow> a = b"
  by (auto simp: secure_equal_def list.rel_eq)

lemma has_any_token_iff:
  "has_any_token r allowed \<longleftrightarrow> (\<exists>h t. rq_auth r = [h] \<and> parse_bearer h = Some t \<and> t \<in> set allowed)"
  by (auto simp: has_any_token_def foldl_or secure_equal_eq header_get_def length_Suc_conv split: option.splits list.splits)

lemma parse_bearer_ok:
  "parse_bearer h = Some t \<Longrightarrow> t \<noteq> [] \<and> trim_space t = t \<and> \<not> contains_any t [CHR '' '', CHR 0x09, CHR 0x0D, CHR 0x0A]"
  by (auto simp: parse_bearer_def Let_def split: option.splits prod.splits if_splits)

text \<open>The guard of the protected routes lets a request pass exactly when it carries one authorization
  header and the bearer token in it is a configured token up to surrounding white space; without a
  configured token it denies everyone.\<close>

theorem auth_required_iff:
  "auth_required tokens r = Passed \<longleftrightarrow>
     (\<exists>h t. rq_auth r = [h] \<and> parse_bearer h = Some t \<and> t \<in> trim_space ` set tokens)"
proof -
  have "t \<in> set (allowed_tokens tokens) \<longleftrightarrow> t \<in> trim_space ` set tokens" if "parse_bearer h = Some t" for h t
    using parse_bearer_ok [OF that] by (auto simp: allowed_tokens_def)
  moreover have "allowed_tokens tokens = [] \<Longrightarrow> \<not> has_any_token r (allowed_tokens tokens)"
    by (simp add: has_any_token_iff)
  ultimately show ?thesis by (auto simp: auth_required_def Let_def has_any_token_iff)
qed

text \<open>A web socket is accepted only with at most one origin; without an origin it needs a bearer token or
  a verified client certificate, and with one this is a plain http or https origin (no user, path, query or
  fragment) that is configured, or names the host of the request, or is local while the request is local.\<close>

theorem check_origin_sound:
  assumes "check_origin url loopback origins tokens r"
  shows "length (rq_origin r) \<le> 1
    \<and> (if trim_space (header_get (rq_origin r)) = []
       then (\<exists>h t. rq_auth r = [h] \<and> parse_bearer h = Some t \<and> t \<in> set (allowed_tokens tokens)) \<or> verified_client r
       else \<exists>u. url (trim_space (header_get (rq_origin r))) = Some u \<and> \<not> ou_user u \<and> ou_hostname u \<noteq> []
         \<and> ou_path u = [] \<and> ou_query u = [] \<and> ou_fragment u = []
         \<and> to_lower (ou_scheme u) \<in> {''http'', ''https''}
         \<and> (origin_key u \<in> set (origin_list url origins) \<or> equal_fold (ou_host u) (rq_host r)
            \<or> local_host loopback (socket_host (rq_host r)) \<and> local_host loopback (socket_host (ou_host u))))"
  using assms
  by (auto simp: check_origin_def Let_def has_any_token_iff parse_origin_def split: if_splits option.splits)

definition demo_socket :: request where
  "demo_socket = \<lparr>rq_method = ''GET'', rq_path = ''/terminal'', rq_auth = [], rq_outpost = [],
     rq_origin = ['' http://localhost:3000''], rq_host = ''[::1]:8080'', rq_peers = 0, rq_chains = 0, rq_tls = False\<rparr>"

definition demo_urls :: "string \<Rightarrow> origin_url option" where
  "demo_urls v = (if v = ''http://localhost:3000''
     then Some \<lparr>ou_scheme = ''http'', ou_host = ''localhost:3000'', ou_hostname = ''localhost'', ou_user = False,
                ou_path = [], ou_query = [], ou_fragment = []\<rparr> else None)"

lemma demo_socket_ok: "check_origin demo_urls (\<lambda>h. h = ''::1'') [] [] demo_socket"
  by code_simp

lemma check_origin_sound_witness: "length (rq_origin demo_socket) \<le> 1"
  using check_origin_sound [OF demo_socket_ok] by simp

end
