(* ===== verification/AgentRoutes.thy ===== *)
theory AgentRoutes
  imports Access
begin

text \<open>
  The routes of the platform API that change the cluster, run commands in it or are behind an action:
  \<^verbatim>\<open>registerPlatformRoutes\<close> and \<^verbatim>\<open>writeError\<close> of \<^verbatim>\<open>internal/agent/api/server.go\<close> and the files
  \<^verbatim>\<open>routes_workload_mutations.go\<close>, \<^verbatim>\<open>routes_basic_resources.go\<close>, \<^verbatim>\<open>custom_resource.go\<close>,
  \<^verbatim>\<open>resource_yaml.go\<close>, \<^verbatim>\<open>resource_creation.go\<close>, \<^verbatim>\<open>helm.go\<close>, \<^verbatim>\<open>helm_delivery.go\<close>,
  \<^verbatim>\<open>routes_manifest_rollout.go\<close>, \<^verbatim>\<open>routes_observed_workload_delete.go\<close> and the exec and CRD routes.

  A route is its family of path prefixes, method, path, guards and handler. A handler reads the decoded
  body, query and path parameters, and answers or makes one call of the Kubernetes client; whether the
  body decodes into the handler's request type is part of the call. The client's result is an oracle.
\<close>

subsection \<open>Calls and bodies\<close>

text \<open>Fields of a body by their JSON path; a missing field reads as the zero value. Structured parts that
  the handlers only pass on are the payload.\<close>

record create_document =
  cd_index :: int
  cd_hash :: string
  cd_content :: string
  cd_names :: "string list"
  cd_scope_valid :: bool
  cd_ref_names :: "string list"
  cd_ref_scope_valid :: bool

record 'p body =
  bd_str :: "string \<Rightarrow> string"
  bd_int :: "string \<Rightarrow> int"
  bd_flag :: "string \<Rightarrow> bool option"
  bd_documents :: "create_document list"
  bd_payload :: 'p
  bd_contract_ok :: bool

record 'p http_call =
  hc_request :: request
  hc_query :: "string \<Rightarrow> string option"
  hc_param :: "string \<Rightarrow> string"
  hc_body :: "'p body option"
  hc_deadline_ok :: bool

datatype workload_call =
    RestartDeployment string string
  | ScaleDeployment string string int
  | RestartStatefulSet string string
  | ScaleStatefulSet string string int
  | RestartDaemonSet string string
  | UpdateDeploymentImage string string string string
  | RollbackDeployment string string string
  | ExecPod string string string string int

datatype 'p basic_call =
    UpdateConfigMapData string string 'p
  | UpdateSecretData string string 'p
  | CreateNamespace 'p
  | UpdateNamespace string 'p
  | DeleteNamespace string
  | UpdateNode string 'p
  | SetNodeUnschedulable string bool
  | DrainNode string 'p int
  | SetCronJobSuspend string string bool

datatype 'p custom_call =
    ReadCustomResourceGraphPage 'p string
  | ReadCustomResourceGraphObject 'p
  | ListCustomResources 'p string
  | CreateCustomResourceYAML 'p string string
  | GetCustomResourceYAML 'p string string
  | ApplyCustomResourceYAML 'p string string string
  | DeleteCustomResource 'p string string string
  | DeleteCRDDefinition string string

datatype 'p resource_call =
    DryRunResourceYAML string string string string
  | ApplyResourceYAML string string string string
  | EditObservedResourceYAML string string string string bool
  | DeleteResource string string string
  | DeleteObservedWorkload string string string string
  | PreflightResourceCreate 'p
  | CreateResources 'p

datatype 'p release_call =
    InstallHelmChart 'p
  | UpdateHelmReleaseValues string string string int
  | DryRunHelmReleaseRollback string string int int
  | RollbackHelmRelease string string int int
  | DeleteHelmRelease string string
  | PrepareHelmDelivery 'p
  | ExecuteHelmDelivery 'p

datatype 'p rollout_call =
    ExecuteManifestTask 'p string

datatype 'p cluster_call =
    Workload workload_call
  | Basic "'p basic_call"
  | Custom "'p custom_call"
  | Resource "'p resource_call"
  | Release "'p release_call"
  | Rollout "'p rollout_call"

type_synonym answer = "int \<times> string"

type_synonym 'p outcome = "answer + int \<times> 'p cluster_call"

definition query :: "'p http_call \<Rightarrow> string \<Rightarrow> string" where
  "query h k = (case hc_query h k of None \<Rightarrow> [] | Some v \<Rightarrow> v)"

definition default_query :: "'p http_call \<Rightarrow> string \<Rightarrow> string \<Rightarrow> string" where
  "default_query h k d = (case hc_query h k of None \<Rightarrow> d | Some v \<Rightarrow> v)"

definition invalid :: "'p outcome" where
  "invalid = Inl (400, ''invalid_argument'')"

definition bound :: "'p http_call \<Rightarrow> ('p body \<Rightarrow> 'p outcome) \<Rightarrow> 'p outcome" where
  "bound h f = (case hc_body h of None \<Rightarrow> invalid | Some b \<Rightarrow> f b)"

text \<open>The success status of a call and the call.\<close>

abbreviation (input) does :: "int \<Rightarrow> 'p cluster_call \<Rightarrow> 'p outcome" where
  "does status c \<equiv> Inr (status, c)"

subsection \<open>Workloads\<close>

definition named :: "'p body \<Rightarrow> bool" where
  "named b \<longleftrightarrow> bd_str b ''namespace'' \<noteq> [] \<and> bd_str b ''name'' \<noteq> []"

definition restart_deployment :: "'p http_call \<Rightarrow> 'p outcome" where
  "restart_deployment h = bound h (\<lambda>b. if \<not> named b then invalid
     else does 200 (Workload (RestartDeployment (bd_str b ''namespace'') (bd_str b ''name''))))"

definition scale_deployment :: "'p http_call \<Rightarrow> 'p outcome" where
  "scale_deployment h = bound h (\<lambda>b. if \<not> named b then invalid
     else if bd_int b ''replicas'' < 0 then invalid
     else does 200 (Workload (ScaleDeployment (bd_str b ''namespace'') (bd_str b ''name'') (bd_int b ''replicas''))))"

definition restart_statefulset :: "'p http_call \<Rightarrow> 'p outcome" where
  "restart_statefulset h = bound h (\<lambda>b. if \<not> named b then invalid
     else does 200 (Workload (RestartStatefulSet (bd_str b ''namespace'') (bd_str b ''name''))))"

definition scale_statefulset :: "'p http_call \<Rightarrow> 'p outcome" where
  "scale_statefulset h = bound h (\<lambda>b. if \<not> named b then invalid
     else if bd_int b ''replicas'' < 0 then invalid
     else does 200 (Workload (ScaleStatefulSet (bd_str b ''namespace'') (bd_str b ''name'') (bd_int b ''replicas''))))"

definition restart_daemonset :: "'p http_call \<Rightarrow> 'p outcome" where
  "restart_daemonset h = bound h (\<lambda>b. if \<not> named b then invalid
     else does 200 (Workload (RestartDaemonSet (bd_str b ''namespace'') (bd_str b ''name''))))"

definition update_image :: "'p http_call \<Rightarrow> 'p outcome" where
  "update_image h = bound h (\<lambda>b. if \<not> named b \<or> bd_str b ''image'' = [] then invalid
     else does 200 (Workload (UpdateDeploymentImage (bd_str b ''namespace'') (bd_str b ''name'')
       (bd_str b ''containerName'') (bd_str b ''image''))))"

definition rollback_deployment :: "'p http_call \<Rightarrow> 'p outcome" where
  "rollback_deployment h = bound h (\<lambda>b. if \<not> named b \<or> bd_str b ''revision'' = [] then invalid
     else does 200 (Workload (RollbackDeployment (bd_str b ''namespace'') (bd_str b ''name'') (bd_str b ''revision''))))"

definition exec_pod :: "'p http_call \<Rightarrow> 'p outcome" where
  "exec_pod h = bound h (\<lambda>b. if bd_str b ''command'' = [] then invalid
     else does 200 (Workload (ExecPod (default_query h ''namespace'' ''default'') (hc_param h ''name'') (bd_str b ''container'')
       (bd_str b ''command'') (bd_int b ''timeoutSeconds''))))"

subsection \<open>Basic resources\<close>

definition update_configmap :: "'p http_call \<Rightarrow> 'p outcome" where
  "update_configmap h = (if query h ''namespace'' = [] then invalid
     else bound h (\<lambda>b. does 200 (Basic (UpdateConfigMapData (query h ''namespace'') (hc_param h ''name'') (bd_payload b)))))"

definition update_secret :: "'p http_call \<Rightarrow> 'p outcome" where
  "update_secret h = (if query h ''namespace'' = [] then invalid
     else bound h (\<lambda>b. does 200 (Basic (UpdateSecretData (query h ''namespace'') (hc_param h ''name'') (bd_payload b)))))"

definition create_namespace :: "'p http_call \<Rightarrow> 'p outcome" where
  "create_namespace h = bound h (\<lambda>b. does 201 (Basic (CreateNamespace (bd_payload b))))"

definition update_namespace :: "'p http_call \<Rightarrow> 'p outcome" where
  "update_namespace h = bound h (\<lambda>b. does 200 (Basic (UpdateNamespace (hc_param h ''name'') (bd_payload b))))"

definition delete_namespace :: "'p http_call \<Rightarrow> 'p outcome" where
  "delete_namespace h = does 204 (Basic (DeleteNamespace (hc_param h ''name'')))"

definition update_node :: "'p http_call \<Rightarrow> 'p outcome" where
  "update_node h = bound h (\<lambda>b. does 200 (Basic (UpdateNode (hc_param h ''name'') (bd_payload b))))"

definition node_schedulability :: "'p http_call \<Rightarrow> 'p outcome" where
  "node_schedulability h = bound h (\<lambda>b. case bd_flag b ''unschedulable'' of
       None \<Rightarrow> invalid
     | Some v \<Rightarrow> does 204 (Basic (SetNodeUnschedulable (hc_param h ''name'') v)))"

definition drain_node :: "'p http_call \<Rightarrow> 'p outcome" where
  "drain_node h = bound h (\<lambda>b.
     let asked = bd_int b ''timeoutSeconds''; timeout = (if asked = 0 then 300 else asked) in
     if timeout < 30 \<or> 1800 < timeout then invalid
     else if \<not> hc_deadline_ok h then Inl (500, ''internal_error'')
     else does 204 (Basic (DrainNode (hc_param h ''name'') (bd_payload b) timeout)))"

definition suspend_cronjob :: "'p http_call \<Rightarrow> 'p outcome" where
  "suspend_cronjob h = (if query h ''namespace'' = [] then invalid
     else bound h (\<lambda>b. case bd_flag b ''suspend'' of
         None \<Rightarrow> invalid
       | Some v \<Rightarrow> does 200 (Basic (SetCronJobSuspend (query h ''namespace'') (hc_param h ''name'') v))))"

subsection \<open>Custom resources\<close>

definition blank :: "string \<Rightarrow> bool" where
  "blank s \<longleftrightarrow> trim_space s = []"

definition invalid_definition :: "'p body \<Rightarrow> bool" where
  "invalid_definition b \<longleftrightarrow>
     blank (bd_str b ''definition.group'') \<or> blank (bd_str b ''definition.version'')
     \<or> blank (bd_str b ''definition.resource'') \<or> blank (bd_str b ''definition.kind'')"

definition custom_graph_page :: "'p http_call \<Rightarrow> 'p outcome" where
  "custom_graph_page h = bound h (\<lambda>b. if invalid_definition b then invalid
     else does 200 (Custom (ReadCustomResourceGraphPage (bd_payload b) (bd_str b ''namespace''))))"

definition custom_graph_object :: "'p http_call \<Rightarrow> 'p outcome" where
  "custom_graph_object h = bound h (\<lambda>b. does 200 (Custom (ReadCustomResourceGraphObject (bd_payload b))))"

definition list_custom :: "'p http_call \<Rightarrow> 'p outcome" where
  "list_custom h = bound h (\<lambda>b. if invalid_definition b then invalid
     else does 200 (Custom (ListCustomResources (bd_payload b) (bd_str b ''namespace''))))"

definition create_custom :: "'p http_call \<Rightarrow> 'p outcome" where
  "create_custom h = bound h (\<lambda>b. if invalid_definition b \<or> blank (bd_str b ''content'') then invalid
     else does 201 (Custom (CreateCustomResourceYAML (bd_payload b) (bd_str b ''namespace'') (bd_str b ''content''))))"

definition get_custom :: "'p http_call \<Rightarrow> 'p outcome" where
  "get_custom h = bound h (\<lambda>b. if invalid_definition b \<or> blank (bd_str b ''name'') then invalid
     else does 200 (Custom (GetCustomResourceYAML (bd_payload b) (bd_str b ''namespace'') (bd_str b ''name''))))"

definition apply_custom :: "'p http_call \<Rightarrow> 'p outcome" where
  "apply_custom h = bound h (\<lambda>b.
     if invalid_definition b \<or> blank (bd_str b ''name'') \<or> blank (bd_str b ''content'') then invalid
     else does 200 (Custom (ApplyCustomResourceYAML (bd_payload b) (bd_str b ''namespace'') (bd_str b ''name'')
       (bd_str b ''content''))))"

definition delete_custom :: "'p http_call \<Rightarrow> 'p outcome" where
  "delete_custom h = bound h (\<lambda>b. if invalid_definition b \<or> blank (bd_str b ''name'') then invalid
     else does 200 (Custom (DeleteCustomResource (bd_payload b) (bd_str b ''namespace'') (bd_str b ''name'')
       (bd_str b ''expectedUid''))))"

text \<open>\<^verbatim>\<open>binding:"required,max=128"\<close> counts runes: the bytes that continue none.\<close>

definition rune_count :: "string \<Rightarrow> nat" where
  "rune_count s = length (filter (\<lambda>c. \<not> ((128 :: nat) \<le> of_char c \<and> of_char c < (192 :: nat))) s)"

definition delete_crd :: "'p http_call \<Rightarrow> 'p outcome" where
  "delete_crd h = (let uid = query h ''expectedUid'' in
     if uid = [] \<or> 128 < rune_count uid \<or> blank uid then invalid
     else does 204 (Custom (DeleteCRDDefinition (hc_param h ''name'') uid)))"

subsection \<open>Resources as YAML\<close>

definition preflight_yaml :: "'p http_call \<Rightarrow> 'p outcome" where
  "preflight_yaml h = bound h (\<lambda>b.
     if blank (bd_str b ''kind'') \<or> blank (bd_str b ''name'') \<or> blank (bd_str b ''content'') then invalid
     else does 200 (Resource (DryRunResourceYAML (bd_str b ''namespace'') (bd_str b ''kind'') (bd_str b ''name'')
       (bd_str b ''content''))))"

definition apply_yaml :: "'p http_call \<Rightarrow> 'p outcome" where
  "apply_yaml h = bound h (\<lambda>b.
     if blank (bd_str b ''kind'') \<or> blank (bd_str b ''name'') \<or> blank (bd_str b ''content'') then invalid
     else does 200 (Resource (ApplyResourceYAML (bd_str b ''namespace'') (bd_str b ''kind'') (bd_str b ''name'')
       (bd_str b ''content''))))"

definition delete_resource :: "'p http_call \<Rightarrow> 'p outcome" where
  "delete_resource h = bound h (\<lambda>b. if blank (bd_str b ''kind'') \<or> blank (bd_str b ''name'') then invalid
     else does 200 (Resource (DeleteResource (bd_str b ''namespace'') (bd_str b ''kind'') (bd_str b ''name''))))"

definition observed_yaml :: "bool \<Rightarrow> 'p http_call \<Rightarrow> 'p outcome" where
  "observed_yaml dry h = bound h (\<lambda>b.
     if blank (bd_str b ''kind'') \<or> blank (bd_str b ''name'') \<or> blank (bd_str b ''content'') then invalid
     else does 200 (Resource (EditObservedResourceYAML (bd_str b ''namespace'') (bd_str b ''kind'') (bd_str b ''name'')
       (bd_str b ''content'') dry)))"

definition delete_observed_workload :: "'p http_call \<Rightarrow> 'p outcome" where
  "delete_observed_workload h = bound h (\<lambda>b. if blank (bd_str b ''namespace'') \<or> blank (bd_str b ''name'') then invalid
     else does 204 (Resource (DeleteObservedWorkload (bd_str b ''namespace'') (bd_str b ''kind'') (bd_str b ''name'')
       (bd_str b ''expectedUid''))))"

subsection \<open>Creating resources\<close>

definition valid_content_hash :: "string \<Rightarrow> bool" where
  "valid_content_hash v \<longleftrightarrow> length v = 64 \<and> to_lower v = v
     \<and> list_all (\<lambda>c. is_digit c \<or> in_range CHR ''a'' CHR ''f'' (lower_char c)) v"

text \<open>The answer is the message of the first failed check.\<close>

fun check_documents :: "int list \<Rightarrow> create_document list \<Rightarrow> string option" where
  "check_documents seen [] = None"
| "check_documents seen (d # ds) =
     (if cd_index d < 0 \<or> \<not> valid_content_hash (cd_hash d) \<or> blank (cd_content d)
         \<or> (\<exists>n \<in> set (cd_names d). blank n) \<or> \<not> cd_scope_valid d \<or> (\<exists>n \<in> set (cd_ref_names d). blank n)
      then Some ''incomplete document''
      else if 512 * 1024 < length (cd_content d) then Some ''resource document size limit exceeded''
      else if cd_index d \<in> set seen then Some ''resource document indexes must be unique''
      else if \<not> cd_ref_scope_valid d then Some ''resolved resourceRef scopeMode is invalid''
      else check_documents (cd_index d # seen) ds)"

definition validate_create :: "string \<Rightarrow> create_document list \<Rightarrow> string option" where
  "validate_create operation docs =
     (if blank operation then Some ''operationId is required''
      else if 128 < length operation then Some ''operationId is too long''
      else if docs = [] then Some ''at least one resource document is required''
      else if 50 < length docs then Some ''resource document limit exceeded''
      else check_documents [] docs)"

definition create_request :: "int \<Rightarrow> ('p \<Rightarrow> 'p cluster_call) \<Rightarrow> 'p http_call \<Rightarrow> 'p outcome" where
  "create_request status f h = bound h (\<lambda>b.
     if validate_create (bd_str b ''operationId'') (bd_documents b) \<noteq> None then invalid
     else does status (f (bd_payload b)))"

subsection \<open>Helm\<close>

definition install_chart :: "'p http_call \<Rightarrow> 'p outcome" where
  "install_chart h = bound h (\<lambda>b.
     if blank (bd_str b ''repositoryUrl'') \<or> blank (bd_str b ''chartName'') \<or> blank (bd_str b ''version'')
        \<or> blank (bd_str b ''releaseName'') \<or> blank (bd_str b ''namespace'')
     then invalid else does 201 (Release (InstallHelmChart (bd_payload b))))"

definition update_values :: "bool \<Rightarrow> 'p http_call \<Rightarrow> 'p outcome" where
  "update_values conditional h = bound h (\<lambda>b.
     if conditional \<and> bd_int b ''expectedRevision'' = 0 then invalid
     else let namespace = trim_space (query h ''namespace''); name = trim_space (hc_param h ''name'') in
       if namespace = [] \<or> name = [] then invalid
       else does 200 (Release (UpdateHelmReleaseValues namespace name (bd_str b ''content'') (bd_int b ''expectedRevision''))))"

text \<open>\<^verbatim>\<open>normalizeHelmRollbackRequest\<close>: namespace, name and time-out, or nothing.\<close>

definition normalize_rollback :: "string \<Rightarrow> string \<Rightarrow> int \<Rightarrow> int \<Rightarrow> (string \<times> string \<times> int) option" where
  "normalize_rollback namespace name revision asked =
     (let ns = trim_space namespace; n = trim_space name; timeout = (if asked = 0 then 300 else asked) in
      if ns = [] \<or> n = [] then None
      else if revision < 1 then None
      else if timeout < 1 \<or> 3600 < timeout then None
      else Some (ns, n, timeout))"

definition rollback_release :: "bool \<Rightarrow> 'p http_call \<Rightarrow> 'p outcome" where
  "rollback_release dry h = bound h (\<lambda>b.
     case normalize_rollback (query h ''namespace'') (hc_param h ''name'') (bd_int b ''revision'')
         (bd_int b ''timeoutSeconds'') of
       None \<Rightarrow> invalid
     | Some (ns, n, timeout) \<Rightarrow>
         does 200 (Release (if dry then DryRunHelmReleaseRollback ns n (bd_int b ''revision'') timeout
                   else RollbackHelmRelease ns n (bd_int b ''revision'') timeout)))"

definition delete_release :: "'p http_call \<Rightarrow> 'p outcome" where
  "delete_release h =
     (let namespace = trim_space (query h ''namespace''); name = trim_space (hc_param h ''name'') in
      if namespace = [] \<or> name = [] then invalid else does 200 (Release (DeleteHelmRelease namespace name)))"

text \<open>Deliveries and rollouts of the configured cluster; the names of the contract's actions and its
  identity checks are parameters.\<close>

record task_names =
  tn_preflight :: string
  tn_observe :: string
  tn_rollout_observe :: string
  tn_rollout_control :: string

definition delivery :: "task_names \<Rightarrow> string \<Rightarrow> string \<Rightarrow> 'p http_call \<Rightarrow> 'p outcome" where
  "delivery tn cluster operation h = bound h (\<lambda>b.
     if bd_str b ''action'' \<noteq> (if operation = ''observe'' then tn_observe tn else tn_preflight tn)
        \<or> bd_str b ''snapshot.clusterId'' \<noteq> cluster \<or> \<not> bd_contract_ok b
     then invalid
     else does 200 (Release (if operation \<noteq> ''prepare'' then ExecuteHelmDelivery (bd_payload b)
                    else PrepareHelmDelivery (bd_payload b))))"

definition rollout_task :: "task_names \<Rightarrow> string \<Rightarrow> string \<Rightarrow> 'p http_call \<Rightarrow> 'p outcome" where
  "rollout_task tn cluster expected h = bound h (\<lambda>b.
     if bd_str b ''action'' \<noteq> expected \<or> bd_str b ''clusterId'' \<noteq> cluster \<or> \<not> bd_contract_ok b
        \<or> expected = tn_rollout_observe tn \<and> bd_flag b ''rolloutControl'' \<noteq> None
     then invalid else does 200 (Rollout (ExecuteManifestTask (bd_payload b) (bd_str b ''action''))))"

subsection \<open>Failures of the cluster\<close>

record failure =
  fl_drain :: "string option"
  fl_ownership :: bool
  fl_forbidden :: bool
  fl_not_found :: bool
  fl_invalid :: bool
  fl_conflict :: bool
  fl_helm_conflict :: bool

definition write_error :: "failure \<Rightarrow> answer" where
  "write_error e =
     (case fl_drain e of
        Some code \<Rightarrow> (409, code)
      | None \<Rightarrow>
          if fl_ownership e then (409, ''resource_ownership_conflict'')
          else if fl_forbidden e then (403, ''forbidden'')
          else if fl_not_found e then (404, ''not_found'')
          else if fl_invalid e then (400, ''invalid_argument'')
          else if fl_conflict e then (409, ''conflict'')
          else (502, ''cluster_unavailable''))"

definition write_helm_error :: "failure \<Rightarrow> answer" where
  "write_helm_error e = (if fl_helm_conflict e then (409, ''conflict'') else write_error e)"

definition call_error :: "'p cluster_call \<Rightarrow> failure \<Rightarrow> answer" where
  "call_error c e =
     (case c of
        Rollout t \<Rightarrow> (409, ''conflict'')
      | Release (PrepareHelmDelivery p) \<Rightarrow> (409, ''conflict'')
      | Release (ExecuteHelmDelivery p) \<Rightarrow> (409, ''conflict'')
      | Release r \<Rightarrow> write_helm_error e
      | _ \<Rightarrow> write_error e)"

subsection \<open>Routes\<close>

datatype guard = Token "string list" | TokenRequired "string list" | Action string

record 'p route =
  rt_prefix :: string
  rt_method :: string
  rt_path :: string
  rt_guards :: "guard list"
  rt_handler :: "'p http_call \<Rightarrow> 'p outcome"

record server_cfg =
  sc_token :: string
  sc_actions :: "string list"
  sc_cluster :: string
  sc_names :: task_names

abbreviation (input) route :: "string \<Rightarrow> string \<Rightarrow> string \<Rightarrow> guard list \<Rightarrow> ('p http_call \<Rightarrow> 'p outcome) \<Rightarrow> 'p route" where
  "route prefix meth path guards f \<equiv>
     \<lparr>rt_prefix = prefix, rt_method = meth, rt_path = path, rt_guards = guards, rt_handler = f\<rparr>"

definition workload_routes :: "string \<Rightarrow> 'p route list" where
  "workload_routes pre =
     [route pre ''POST'' ''/actions/deployments/restart'' [Action ''platform.deployments.restart''] restart_deployment,
      route pre ''POST'' ''/actions/deployments/scale'' [Action ''platform.deployments.scale''] scale_deployment,
      route pre ''POST'' ''/actions/statefulsets/restart'' [Action ''platform.statefulsets.restart''] restart_statefulset,
      route pre ''POST'' ''/actions/statefulsets/scale'' [Action ''platform.statefulsets.scale''] scale_statefulset,
      route pre ''POST'' ''/actions/daemonsets/restart'' [Action ''platform.daemonsets.restart''] restart_daemonset,
      route pre ''POST'' ''/actions/deployments/image'' [Action ''platform.deployments.image''] update_image,
      route pre ''POST'' ''/actions/deployments/rollback'' [Action ''platform.deployments.rollback''] rollback_deployment]"

definition pod_routes :: "string \<Rightarrow> 'p route list" where
  "pod_routes pre =
     [route pre ''POST'' ''/workloads/pods/:name/exec'' [Action ''platform.pods.exec''] exec_pod]"

definition custom_routes :: "string \<Rightarrow> 'p route list" where
  "custom_routes pre =
     [route pre ''POST'' ''/extensions/custom-resources/list'' [Action ''platform.custom_resources.list''] list_custom,
      route pre ''POST'' ''/extensions/custom-resources'' [Action ''platform.custom_resources.create''] create_custom,
      route pre ''POST'' ''/extensions/custom-resources/yaml'' [] get_custom,
      route pre ''PUT'' ''/extensions/custom-resources/yaml'' [Action ''platform.custom_resources.apply''] apply_custom,
      route pre ''DELETE'' ''/extensions/custom-resources'' [Action ''platform.custom_resources.delete''] delete_custom,
      route pre ''POST'' ''/extensions/custom-resources/delete-observed'' [Action ''platform.custom_resources.delete'']
        delete_custom]"

definition yaml_routes :: "string \<Rightarrow> 'p route list" where
  "yaml_routes pre =
     [route pre ''POST'' ''/resources/yaml/preflight'' [Action ''platform.resources.apply''] preflight_yaml,
      route pre ''PUT'' ''/resources/yaml'' [Action ''platform.resources.apply''] apply_yaml,
      route pre ''DELETE'' ''/resources'' [Action ''platform.resources.delete''] delete_resource]"

definition observed_routes :: "string \<Rightarrow> 'p route list" where
  "observed_routes pre =
     [route pre ''POST'' ''/resources/yaml/observed/preflight'' [Action ''platform.resources.apply''] (observed_yaml True),
      route pre ''PUT'' ''/resources/yaml/observed'' [Action ''platform.resources.apply''] (observed_yaml False),
      route pre ''DELETE'' ''/resources/observed'' [Action ''platform.resources.delete''] delete_observed_workload]"

definition creation_routes :: "string \<Rightarrow> 'p route list" where
  "creation_routes pre =
     [route pre ''POST'' ''/resources/preflight'' [] (create_request 200 (\<lambda>p. Resource (PreflightResourceCreate p))),
      route pre ''POST'' ''/resources'' [Action ''platform.resources.create''] (create_request 201 (\<lambda>p. Resource (CreateResources p)))]"

definition graph_routes :: "string \<Rightarrow> string \<Rightarrow> string \<Rightarrow> 'p route list" where
  "graph_routes pre token object_path =
     [route pre ''POST'' ''/extensions/custom-resources/graph-page''
        [TokenRequired [token], Action ''platform.custom_resources.list''] custom_graph_page,
      route pre ''POST'' object_path [TokenRequired [token]] custom_graph_object]"

definition helm_routes :: "string \<Rightarrow> 'p route list" where
  "helm_routes pre =
     [route pre ''POST'' ''/helm/charts/install'' [Action ''platform.helm_releases.install''] install_chart,
      route pre ''PUT'' ''/helm/releases/:name/values'' [Action ''platform.helm_releases.values_update''] (update_values False),
      route pre ''PUT'' ''/helm/releases/:name/values/conditional'' [Action ''platform.helm_releases.values_update'']
        (update_values True),
      route pre ''POST'' ''/helm/releases/:name/rollback/preflight'' [Action ''platform.helm_releases.rollback'']
        (rollback_release True),
      route pre ''POST'' ''/helm/releases/:name/rollback'' [Action ''platform.helm_releases.rollback''] (rollback_release False),
      route pre ''DELETE'' ''/helm/releases/:name'' [Action ''platform.helm_releases.delete''] delete_release]"

definition delivery_routes :: "task_names \<Rightarrow> string \<Rightarrow> string \<Rightarrow> 'p route list" where
  "delivery_routes tn cluster pre =
     [route pre ''POST'' ''/helm/delivery/prepare'' [] (delivery tn cluster ''prepare''),
      route pre ''POST'' ''/helm/delivery/observe'' [] (delivery tn cluster ''observe''),
      route pre ''POST'' ''/helm/delivery/preflight'' [] (delivery tn cluster ''preflight'')]"

definition rollout_routes :: "task_names \<Rightarrow> string \<Rightarrow> string \<Rightarrow> 'p route list" where
  "rollout_routes tn cluster pre =
     [route pre ''POST'' ''/manifests/rollout/observe'' [] (rollout_task tn cluster (tn_rollout_observe tn)),
      route pre ''POST'' ''/manifests/rollout/control'' [Action ''platform.custom_resources.apply'']
        (rollout_task tn cluster (tn_rollout_control tn))]"

definition basic_routes :: "string \<Rightarrow> 'p route list" where
  "basic_routes pre =
     [route pre ''PUT'' ''/configuration/configmaps/:name/data'' [Action ''platform.resources.apply''] update_configmap,
      route pre ''PUT'' ''/configuration/secrets/:name/data'' [Action ''platform.resources.apply''] update_secret,
      route pre ''POST'' ''/namespaces'' [Action ''platform.resources.create''] create_namespace,
      route pre ''PUT'' ''/namespaces/:name'' [Action ''platform.resources.apply''] update_namespace,
      route pre ''DELETE'' ''/namespaces/:name'' [Action ''platform.resources.delete''] delete_namespace,
      route pre ''PUT'' ''/infrastructure/nodes/:name'' [Action ''platform.resources.apply''] update_node,
      route pre ''PUT'' ''/infrastructure/nodes/:name/schedulability'' [Action ''platform.resources.apply'']
        node_schedulability,
      route pre ''POST'' ''/infrastructure/nodes/:name/drain'' [Action ''platform.nodes.drain''] drain_node,
      route pre ''POST'' ''/workloads/cronjobs/:name/suspend'' [Action ''platform.resources.apply''] suspend_cronjob]"

definition crd_routes :: "string \<Rightarrow> 'p route list" where
  "crd_routes pre = [route pre ''DELETE'' ''/extensions/crds/:name'' [Action ''platform.crds.delete''] delete_crd]"

text \<open>The routes of \<^verbatim>\<open>registerPlatformRoutes\<close> that are modelled; all have the group's token guard first.\<close>

definition owned_routes :: "string \<Rightarrow> 'p route list" where
  "owned_routes pre = yaml_routes pre @ custom_routes pre @ pod_routes pre @ workload_routes pre"

definition platform_routes :: "server_cfg \<Rightarrow> string \<Rightarrow> 'p route list" where
  "platform_routes cfg object_path =
     map (\<lambda>rt. rt\<lparr>rt_guards := Token [sc_token cfg] # rt_guards rt\<rparr>)
       (creation_routes ''/platform'' @ graph_routes ''/platform'' (sc_token cfg) object_path
        @ helm_routes ''/platform'' @ delivery_routes (sc_names cfg) (sc_cluster cfg) ''/platform''
        @ crd_routes ''/platform'' @ basic_routes ''/platform/ownership-v2''
        @ owned_routes ''/platform'' @ owned_routes ''/platform/ownership-v1'' @ owned_routes ''/platform/ownership-v2''
        @ rollout_routes (sc_names cfg) (sc_cluster cfg) ''/platform/ownership-v2''
        @ observed_routes ''/platform/ownership-v2'')"

subsection \<open>Serving a request\<close>

fun run_guards :: "string list \<Rightarrow> guard list \<Rightarrow> request \<Rightarrow> audit_record list \<Rightarrow> verdict \<times> audit_record list" where
  "run_guards policy [] r trail = (Passed, trail)"
| "run_guards policy (g # gs) r trail =
     (case (case g of
         Token tokens \<Rightarrow> (auth_any tokens r, trail)
       | TokenRequired tokens \<Rightarrow> (auth_required tokens r, trail)
       | Action a \<Rightarrow> require_action policy a r trail) of
        (Passed, trail1) \<Rightarrow> run_guards policy gs r trail1
      | (Stopped status code, trail1) \<Rightarrow> (Stopped status code, trail1))"

definition never_fails :: "'p cluster_call \<Rightarrow> bool" where
  "never_fails c \<longleftrightarrow> (case c of Resource (PreflightResourceCreate p) \<Rightarrow> True | Resource (CreateResources p) \<Rightarrow> True | _ \<Rightarrow> False)"

text \<open>The answer, the calls of the cluster and the audit trail; the oracle says how a call fails.\<close>

definition serve ::
  "server_cfg \<Rightarrow> 'p route \<Rightarrow> ('p cluster_call \<Rightarrow> failure option) \<Rightarrow> 'p http_call \<Rightarrow> audit_record list \<Rightarrow>
   answer \<times> 'p cluster_call list \<times> audit_record list" where
  "serve cfg rt cluster h trail =
     (case run_guards (action_policy (sc_actions cfg)) (rt_guards rt) (hc_request h) trail of
        (Stopped status code, trail1) \<Rightarrow> ((status, code), [], trail1)
      | (Passed, trail1) \<Rightarrow>
          (case rt_handler rt h of
             Inl ans \<Rightarrow> (ans, [], trail1)
           | Inr (status, c) \<Rightarrow>
               (case (if never_fails c then None else cluster c) of
                  None \<Rightarrow> ((status, []), [c], trail1)
                | Some e \<Rightarrow> (call_error c e, [c], trail1))))"

subsection \<open>What a call needs\<close>

text \<open>The action that must be allowed for a call; reads that every authenticated caller may do need none.\<close>

definition workload_action :: "workload_call \<Rightarrow> string option" where
  "workload_action c =
     (case c of
        RestartDeployment a b \<Rightarrow> Some ''platform.deployments.restart''
      | ScaleDeployment a b c \<Rightarrow> Some ''platform.deployments.scale''
      | RestartStatefulSet a b \<Rightarrow> Some ''platform.statefulsets.restart''
      | ScaleStatefulSet a b c \<Rightarrow> Some ''platform.statefulsets.scale''
      | RestartDaemonSet a b \<Rightarrow> Some ''platform.daemonsets.restart''
      | UpdateDeploymentImage a b c d \<Rightarrow> Some ''platform.deployments.image''
      | RollbackDeployment a b c \<Rightarrow> Some ''platform.deployments.rollback''
      | ExecPod a b c d e \<Rightarrow> Some ''platform.pods.exec'')"

definition basic_action :: "'p basic_call \<Rightarrow> string option" where
  "basic_action c =
     (case c of
        UpdateConfigMapData a b c \<Rightarrow> Some ''platform.resources.apply''
      | UpdateSecretData a b c \<Rightarrow> Some ''platform.resources.apply''
      | CreateNamespace a \<Rightarrow> Some ''platform.resources.create''
      | UpdateNamespace a b \<Rightarrow> Some ''platform.resources.apply''
      | DeleteNamespace a \<Rightarrow> Some ''platform.resources.delete''
      | UpdateNode a b \<Rightarrow> Some ''platform.resources.apply''
      | SetNodeUnschedulable a b \<Rightarrow> Some ''platform.resources.apply''
      | DrainNode a b c \<Rightarrow> Some ''platform.nodes.drain''
      | SetCronJobSuspend a b c \<Rightarrow> Some ''platform.resources.apply'')"

definition custom_action :: "'p custom_call \<Rightarrow> string option" where
  "custom_action c =
     (case c of
        ReadCustomResourceGraphPage a b \<Rightarrow> Some ''platform.custom_resources.list''
      | ReadCustomResourceGraphObject a \<Rightarrow> None
      | ListCustomResources a b \<Rightarrow> Some ''platform.custom_resources.list''
      | CreateCustomResourceYAML a b c \<Rightarrow> Some ''platform.custom_resources.create''
      | GetCustomResourceYAML a b c \<Rightarrow> None
      | ApplyCustomResourceYAML a b c d \<Rightarrow> Some ''platform.custom_resources.apply''
      | DeleteCustomResource a b c d \<Rightarrow> Some ''platform.custom_resources.delete''
      | DeleteCRDDefinition a b \<Rightarrow> Some ''platform.crds.delete'')"

definition resource_action :: "'p resource_call \<Rightarrow> string option" where
  "resource_action c =
     (case c of
        DryRunResourceYAML a b c d \<Rightarrow> Some ''platform.resources.apply''
      | ApplyResourceYAML a b c d \<Rightarrow> Some ''platform.resources.apply''
      | EditObservedResourceYAML a b c d e \<Rightarrow> Some ''platform.resources.apply''
      | DeleteResource a b c \<Rightarrow> Some ''platform.resources.delete''
      | DeleteObservedWorkload a b c d \<Rightarrow> Some ''platform.resources.delete''
      | PreflightResourceCreate a \<Rightarrow> None
      | CreateResources a \<Rightarrow> Some ''platform.resources.create'')"

definition release_action :: "'p release_call \<Rightarrow> string option" where
  "release_action c =
     (case c of
        InstallHelmChart a \<Rightarrow> Some ''platform.helm_releases.install''
      | UpdateHelmReleaseValues a b c d \<Rightarrow> Some ''platform.helm_releases.values_update''
      | DryRunHelmReleaseRollback a b c d \<Rightarrow> Some ''platform.helm_releases.rollback''
      | RollbackHelmRelease a b c d \<Rightarrow> Some ''platform.helm_releases.rollback''
      | DeleteHelmRelease a b \<Rightarrow> Some ''platform.helm_releases.delete''
      | PrepareHelmDelivery a \<Rightarrow> None
      | ExecuteHelmDelivery a \<Rightarrow> None)"

definition required_action :: "task_names \<Rightarrow> 'p cluster_call \<Rightarrow> string option" where
  "required_action tn c =
     (case c of
        Workload w \<Rightarrow> workload_action w
      | Basic b \<Rightarrow> basic_action b
      | Custom x \<Rightarrow> custom_action x
      | Resource r \<Rightarrow> resource_action r
      | Release r \<Rightarrow> release_action r
      | Rollout (ExecuteManifestTask p a) \<Rightarrow>
          if a = tn_rollout_observe tn then None else Some ''platform.custom_resources.apply'')"

text \<open>The routes ask for the actions their calls need.\<close>

definition route_sound :: "task_names \<Rightarrow> 'p route \<Rightarrow> bool" where
  "route_sound tn rt \<longleftrightarrow>
     (\<forall>h status c a. rt_handler rt h = Inr (status, c) \<and> required_action tn c = Some a
        \<longrightarrow> Action a \<in> set (rt_guards rt))"

lemma route_soundI:
  "(\<And>h status c a. f h = Inr (status, c) \<Longrightarrow> required_action tn c = Some a \<Longrightarrow> Action a \<in> set gs)
    \<Longrightarrow> route_sound tn (route pre meth path gs f)"
  by (auto simp: route_sound_def)

lemmas handler_simps = bound_def invalid_def Let_def required_action_def

lemmas workload_defs = restart_deployment_def scale_deployment_def restart_statefulset_def scale_statefulset_def
  restart_daemonset_def update_image_def rollback_deployment_def exec_pod_def workload_action_def

lemma workload_sound:
  "rt \<in> set (workload_routes pre) \<Longrightarrow> route_sound tn rt" "rt \<in> set (pod_routes pre) \<Longrightarrow> route_sound tn rt"
  by (auto simp: workload_routes_def pod_routes_def route_sound_def handler_simps workload_defs
      split: option.splits if_splits)

lemmas basic_defs = update_configmap_def update_secret_def create_namespace_def update_namespace_def
  delete_namespace_def update_node_def node_schedulability_def drain_node_def suspend_cronjob_def basic_action_def

lemma basic_sound: "rt \<in> set (basic_routes pre) \<Longrightarrow> route_sound tn rt"
  by (auto simp: basic_routes_def route_sound_def handler_simps basic_defs split: option.splits if_splits)

lemmas custom_defs = list_custom_def create_custom_def get_custom_def apply_custom_def delete_custom_def delete_crd_def
  custom_graph_page_def custom_graph_object_def custom_action_def

lemma custom_sound:
  "rt \<in> set (custom_routes pre) \<Longrightarrow> route_sound tn rt" "rt \<in> set (crd_routes pre) \<Longrightarrow> route_sound tn rt"
  "rt \<in> set (graph_routes pre token path) \<Longrightarrow> route_sound tn rt"
  by (auto simp: custom_routes_def crd_routes_def graph_routes_def route_sound_def handler_simps custom_defs
      split: option.splits if_splits)

lemmas resource_defs = preflight_yaml_def apply_yaml_def delete_resource_def observed_yaml_def
  delete_observed_workload_def create_request_def resource_action_def

lemma resource_sound:
  "rt \<in> set (yaml_routes pre) \<Longrightarrow> route_sound tn rt" "rt \<in> set (observed_routes pre) \<Longrightarrow> route_sound tn rt"
  "rt \<in> set (creation_routes pre) \<Longrightarrow> route_sound tn rt"
  by (auto simp: yaml_routes_def observed_routes_def creation_routes_def route_sound_def handler_simps resource_defs
      split: option.splits if_splits)

lemmas release_defs = install_chart_def update_values_def rollback_release_def delete_release_def delivery_def
  rollout_task_def release_action_def

lemma release_sound:
  "rt \<in> set (helm_routes pre) \<Longrightarrow> route_sound tn rt" "rt \<in> set (delivery_routes tn cluster pre) \<Longrightarrow> route_sound tn rt"
  "rt \<in> set (rollout_routes tn cluster pre) \<Longrightarrow> route_sound tn rt"
  by (auto simp: helm_routes_def delivery_routes_def rollout_routes_def route_sound_def handler_simps release_defs
      split: option.splits if_splits prod.splits)

lemma owned_sound: "rt \<in> set (owned_routes pre) \<Longrightarrow> route_sound tn rt"
  unfolding owned_routes_def set_append Un_iff
  by (elim disjE) (simp_all add: resource_sound custom_sound workload_sound)

lemma platform_sound:
  assumes "rt \<in> set (platform_routes cfg object_path)"
  shows "route_sound (sc_names cfg) rt \<and> Token [sc_token cfg] \<in> set (rt_guards rt)"
proof -
  from assms obtain rt0 where rt: "rt = rt0\<lparr>rt_guards := Token [sc_token cfg] # rt_guards rt0\<rparr>"
    and mem: "rt0 \<in> set (creation_routes ''/platform'' @ graph_routes ''/platform'' (sc_token cfg) object_path
        @ helm_routes ''/platform'' @ delivery_routes (sc_names cfg) (sc_cluster cfg) ''/platform''
        @ crd_routes ''/platform'' @ basic_routes ''/platform/ownership-v2''
        @ owned_routes ''/platform'' @ owned_routes ''/platform/ownership-v1'' @ owned_routes ''/platform/ownership-v2''
        @ rollout_routes (sc_names cfg) (sc_cluster cfg) ''/platform/ownership-v2''
        @ observed_routes ''/platform/ownership-v2'')"
    unfolding platform_routes_def by auto
  have "route_sound (sc_names cfg) rt0"
    using mem unfolding set_append Un_iff
    by (elim disjE) (simp_all add: owned_sound resource_sound custom_sound release_sound basic_sound)
  with rt show ?thesis by (auto simp: route_sound_def)
qed

definition audited :: "string \<Rightarrow> request \<Rightarrow> audit_record list \<Rightarrow> bool" where
  "audited a r trail \<longleftrightarrow>
     (\<exists>e \<in> set trail. au_action e = a \<and> au_allowed e \<and> au_method e = rq_method r \<and> au_path e = rq_path r)"

lemma audited_mono: "audited a r t \<Longrightarrow> set t \<subseteq> set t' \<Longrightarrow> audited a r t'"
  by (auto simp: audited_def)

lemma require_action_cases:
  assumes "require_action policy a r trail = (v, trail1)"
  shows "set trail \<subseteq> set trail1
    \<and> (v = Passed \<longrightarrow> policy_allows policy (normalize_action a) \<and> audited (normalize_action a) r trail1)"
  using assms by (auto simp: require_action_def Let_def audited_def split: if_splits)

lemma run_guards_trail: "run_guards policy gs r trail = (v, trail1) \<Longrightarrow> set trail \<subseteq> set trail1"
proof (induction policy gs r trail arbitrary: v trail1 rule: run_guards.induct)
  case (2 policy g gs r trail)
  show ?case
  proof (cases g)
    case (Action a)
    obtain v0 t0 where r: "require_action policy a r trail = (v0, t0)" by (metis surj_pair)
    with require_action_cases [OF this] Action 2 show ?thesis
      by (cases v0) (fastforce split: verdict.splits)+
  qed (use 2 in \<open>auto split: verdict.splits\<close>)
qed simp

lemma run_guards_passed:
  assumes "run_guards policy gs r trail = (Passed, trail1)" and "g \<in> set gs"
  shows "case g of
      Token tokens \<Rightarrow> auth_any tokens r = Passed
    | TokenRequired tokens \<Rightarrow> auth_required tokens r = Passed
    | Action a \<Rightarrow> policy_allows policy (normalize_action a) \<and> audited (normalize_action a) r trail1"
  using assms
proof (induction policy gs r trail arbitrary: trail1 rule: run_guards.induct)
  case (2 policy g' gs r trail)
  obtain v0 t0 where step: "(case g' of
         Token tokens \<Rightarrow> (auth_any tokens r, trail)
       | TokenRequired tokens \<Rightarrow> (auth_required tokens r, trail)
       | Action a \<Rightarrow> require_action policy a r trail) = (v0, t0)" by (metis surj_pair)
  with 2(2) have v0: "v0 = Passed" and rest: "run_guards policy gs r t0 = (Passed, trail1)"
    by (auto split: verdict.splits)
  show ?case
  proof (cases "g \<in> set gs")
    case True
    from 2(1) [OF step [symmetric] v0 rest True] show ?thesis .
  next
    case False
    with 2(3) have "g = g'" by simp
    with step v0 run_guards_trail [OF rest] require_action_cases [of policy _ r trail Passed t0]
    show ?thesis by (auto split: guard.splits intro: audited_mono)
  qed
qed simp

subsection \<open>Properties\<close>

definition action_names :: "string list" where
  "action_names =
     [''platform.deployments.restart'', ''platform.deployments.scale'', ''platform.statefulsets.restart'',
      ''platform.statefulsets.scale'', ''platform.daemonsets.restart'', ''platform.deployments.image'',
      ''platform.deployments.rollback'', ''platform.pods.exec'', ''platform.resources.apply'',
      ''platform.resources.create'', ''platform.resources.delete'', ''platform.nodes.drain'',
      ''platform.custom_resources.list'', ''platform.custom_resources.create'', ''platform.custom_resources.apply'',
      ''platform.custom_resources.delete'', ''platform.crds.delete'', ''platform.helm_releases.install'',
      ''platform.helm_releases.values_update'', ''platform.helm_releases.rollback'', ''platform.helm_releases.delete'']"

lemma action_names_normal: "list_all (\<lambda>a. normalize_action a = a) action_names"
  by code_simp

lemma required_names: "required_action tn c = Some a \<Longrightarrow> a \<in> set action_names"
  by (auto simp: required_action_def workload_action_def basic_action_def custom_action_def resource_action_def
      release_action_def action_names_def
      split: cluster_call.splits workload_call.splits basic_call.splits custom_call.splits resource_call.splits
        release_call.splits rollout_call.splits if_splits)

lemma required_normal: "required_action tn c = Some a \<Longrightarrow> normalize_action a = a"
  using required_names [of tn c a] action_names_normal by (auto simp: list_all_iff)

lemma serve_call:
  assumes "serve cfg rt cluster h trail = (ans, calls, trail1)" and "c \<in> set calls"
  shows "run_guards (action_policy (sc_actions cfg)) (rt_guards rt) (hc_request h) trail = (Passed, trail1)
    \<and> (\<exists>status. rt_handler rt h = Inr (status, c)) \<and> calls = [c]"
  using assms by (auto simp: serve_def split: prod.splits verdict.splits sum.splits option.splits)

text \<open>C5: no request reaches the cluster through a modelled route unless it passed the token guard and, where
  the call changes the cluster or needs an action, that action is allowed by the configured list and the
  allowing decision is in the audit trail, with the request's method and path.\<close>

theorem cluster_calls_authorized:
  assumes "rt \<in> set (platform_routes cfg object_path)"
    and "serve cfg rt cluster h trail = (ans, calls, trail1)" and "c \<in> set calls"
  shows "calls = [c] \<and> auth_any [sc_token cfg] (hc_request h) = Passed
    \<and> (\<forall>a. required_action (sc_names cfg) c = Some a
         \<longrightarrow> policy_allows (action_policy (sc_actions cfg)) a \<and> audited a (hc_request h) trail1)"
proof -
  from serve_call [OF assms(2,3)] obtain status
    where guards: "run_guards (action_policy (sc_actions cfg)) (rt_guards rt) (hc_request h) trail = (Passed, trail1)"
      and handler: "rt_handler rt h = Inr (status, c)" and one: "calls = [c]" by auto
  note sound = platform_sound [OF assms(1)]
  have "auth_any [sc_token cfg] (hc_request h) = Passed"
    using run_guards_passed [OF guards, of "Token [sc_token cfg]"] sound by simp
  moreover have "policy_allows (action_policy (sc_actions cfg)) a \<and> audited a (hc_request h) trail1"
    if "required_action (sc_names cfg) c = Some a" for a
    using run_guards_passed [OF guards, of "Action a"] sound handler that required_normal [OF that]
    by (auto simp: route_sound_def)
  ultimately show ?thesis using one by blast
qed

subsection \<open>A request\<close>

definition demo_cfg :: server_cfg where
  "demo_cfg = \<lparr>sc_token = ''secret'', sc_actions = [''Platform.Resources.Delete ''], sc_cluster = ''c1'',
     sc_names = \<lparr>tn_preflight = ''preflight'', tn_observe = ''observe'', tn_rollout_observe = ''observe'',
       tn_rollout_control = ''control''\<rparr>\<rparr>"

definition demo_route :: "unit route" where
  "demo_route = route ''/platform/ownership-v2'' ''DELETE'' ''/namespaces/:name''
     [Token [''secret''], Action ''platform.resources.delete''] delete_namespace"

definition demo_request :: request where
  "demo_request = \<lparr>rq_method = ''DELETE'', rq_path = ''/platform/ownership-v2/namespaces/:name'',
     rq_auth = [''bearer secret''], rq_outpost = [], rq_origin = [], rq_host = ''agent'', rq_peers = 0, rq_chains = 0,
     rq_tls = False\<rparr>"

definition demo_http :: "unit http_call" where
  "demo_http = \<lparr>hc_request = demo_request, hc_query = (\<lambda>k. None), hc_param = (\<lambda>k. ''old''), hc_body = None,
     hc_deadline_ok = True\<rparr>"

lemma demo_route_registered: "demo_route \<in> set (platform_routes demo_cfg ''/graph-object'')"
  by (simp add: demo_route_def platform_routes_def basic_routes_def demo_cfg_def)

definition demo_trail :: "audit_record list" where
  "demo_trail = snd (snd (serve demo_cfg demo_route (\<lambda>c. None) demo_http []))"

lemma demo_served:
  "serve demo_cfg demo_route (\<lambda>c. None) demo_http [] = ((204, []), [Basic (DeleteNamespace ''old'')], demo_trail)"
proof -
  have "fst (serve demo_cfg demo_route (\<lambda>c. None) demo_http []) = (204, [])
    \<and> fst (snd (serve demo_cfg demo_route (\<lambda>c. None) demo_http [])) = [Basic (DeleteNamespace ''old'')]"
    by code_simp
  then show ?thesis by (simp add: demo_trail_def prod_eq_iff)
qed

lemma cluster_calls_authorized_witness:
  "policy_allows (action_policy [''Platform.Resources.Delete '']) ''platform.resources.delete''
    \<and> audited ''platform.resources.delete'' demo_request demo_trail"
  using cluster_calls_authorized [OF demo_route_registered demo_served, of "Basic (DeleteNamespace ''old'')"]
  by (simp add: required_action_def basic_action_def demo_cfg_def demo_http_def)

end
