(* ===== verification/ApiSessions.thy ===== *)
theory ApiSessions
  imports Access "HOL-Library.Word"
begin

text \<open>
  The sessions the HTTP server keeps: staged and active SSH sessions (\<^verbatim>\<open>sshSessions\<close> of
  \<^verbatim>\<open>internal/agent/api/routes_ssh.go\<close>) with the checks of \<^verbatim>\<open>internal/agent/runner/ssh_session.go\<close> before
  one is opened, the frames of a session, the registry of port forwards (\<^verbatim>\<open>port_forward.go\<close>) and the
  size queue of the pod terminal (\<^verbatim>\<open>pod_terminal.go\<close>).

  The mutexes make the operations atomic. Addresses, URLs and keys are read by parameters; dialling is
  the oracle of the operations.
\<close>

subsection \<open>SSH requests\<close>

record ssh_input =
  si_session :: string
  si_agent :: string
  si_cluster :: string
  si_endpoint :: string
  si_address :: string
  si_port :: int
  si_user :: string
  si_cols :: int
  si_rows :: int
  si_expires :: gotime
  si_lease :: string
  si_token :: string
  si_lease_expires :: gotime
  si_kind :: string
  si_host_key :: string

record ssh_cfg =
  sh_agent :: string
  sh_token :: string
  sh_base :: string

record ssh_ports =
  sp_address_ok :: "string \<Rightarrow> bool"
  sp_endpoint_ok :: "string \<Rightarrow> bool"
  sp_host_key :: "string \<Rightarrow> (string list \<times> string) option"

text \<open>The pattern \<^verbatim>\<open>^[a-z_][a-z0-9_-]{0,31}$\<close>.\<close>

definition ssh_user_ok :: "string \<Rightarrow> bool" where
  "ssh_user_ok u \<longleftrightarrow>
     (case u of [] \<Rightarrow> False
      | c # cs \<Rightarrow> (is_lower c \<or> c = CHR ''_'') \<and> length cs \<le> 31
          \<and> list_all (\<lambda>d. is_lower d \<or> is_digit d \<or> d = CHR ''_'' \<or> d = CHR ''-'') cs)"

definition validate_ssh :: "ssh_ports \<Rightarrow> ssh_cfg \<Rightarrow> gotime \<Rightarrow> ssh_input \<Rightarrow> string option" where
  "validate_ssh ports cfg now i =
     (if \<not> sp_address_ok ports (si_address i) then Some ''invalid SSH address''
      else if \<not> sp_endpoint_ok ports (sh_base cfg)
              \<or> trim_right_cutset (si_endpoint i) ''/'' \<noteq> trim_right_cutset (sh_base cfg) ''/''
      then Some ''untrusted control plane endpoint''
      else if sh_agent cfg = [] \<or> sh_token cfg = [] \<or> si_agent i \<noteq> sh_agent cfg \<or> si_cluster i = []
              \<or> 128 < length (si_cluster i) \<or> si_session i = [] \<or> 128 < length (si_session i)
              \<or> si_port i < 1 \<or> 65535 < si_port i \<or> \<not> ssh_user_ok (si_user i) \<or> si_user i = ''root''
              \<or> si_cols i < 1 \<or> 512 < si_cols i \<or> si_rows i < 1 \<or> 512 < si_rows i
              \<or> si_expires i \<le> now \<or> now + 30 * minute + 5 * second < si_expires i
              \<or> si_lease_expires i \<le> now \<or> si_expires i < si_lease_expires i
              \<or> si_lease i = [] \<or> 128 < length (si_lease i) \<or> length (si_token i) < 16 \<or> 256 < length (si_token i)
      then Some ''invalid SSH session binding''
      else if si_kind i \<noteq> ''ssh_keypair'' \<and> si_kind i \<noteq> ''ssh_password'' then Some ''invalid SSH credential kind''
      else case sp_host_key ports (si_host_key i) of
        None \<Rightarrow> Some ''invalid trusted host key''
      | Some (options, rest) \<Rightarrow>
          if options \<noteq> [] \<or> trim_space rest \<noteq> [] then Some ''invalid trusted host key'' else None)"

text \<open>The answer to the redemption of the session's lease.\<close>

record lease_answer =
  la_status :: int
  la_lease :: string
  la_expires :: gotime
  la_values :: "string \<Rightarrow> string option"

datatype ssh_auth = Password string | KeyPair string string

definition ssh_auth_of ::
  "(string \<Rightarrow> (string \<times> string) option) \<Rightarrow> (string \<Rightarrow> string \<Rightarrow> bool) \<Rightarrow> string \<Rightarrow> string \<Rightarrow> ssh_auth option" where
  "ssh_auth_of decode key_ok kind v =
     (if kind = ''ssh_password'' then if v = [] \<or> 4096 < length v then None else Some (Password v)
      else case decode v of
        None \<Rightarrow> None
      | Some (key, passphrase) \<Rightarrow> if key_ok key passphrase then Some (KeyPair key passphrase) else None)"

definition redeem_ssh ::
  "(string \<Rightarrow> (string \<times> string) option) \<Rightarrow> (string \<Rightarrow> string \<Rightarrow> bool) \<Rightarrow> gotime \<Rightarrow> lease_answer option \<Rightarrow> ssh_input \<Rightarrow>
   ssh_auth option" where
  "redeem_ssh decode key_ok now answer i =
     (case answer of
        None \<Rightarrow> None
      | Some a \<Rightarrow>
          if la_status a \<noteq> 200 then None
          else if la_lease a \<noteq> si_lease i \<or> la_expires a \<le> now then None
          else (case la_values a ''SSH_AUTH'' of
            None \<Rightarrow> None
          | Some v \<Rightarrow> ssh_auth_of decode key_ok (si_kind i) v))"

subsection \<open>Staged and active SSH sessions\<close>

record staged =
  sg_input :: ssh_input
  sg_deadline :: gotime

record ssh_sessions =
  ss_pending :: "(string \<times> staged) list"
  ss_active :: "(string \<times> gotime) list"
  ss_closed :: bool
  ss_limit :: int

definition new_sessions :: "int \<Rightarrow> ssh_sessions" where
  "new_sessions concurrency =
     (let limit = (if concurrency < 1 then 1 else concurrency); limit2 = (if 32 < limit then 32 else limit) in
      \<lparr>ss_pending = [], ss_active = [], ss_closed = False, ss_limit = limit2\<rparr>)"

definition live_pending :: "gotime \<Rightarrow> (string \<times> staged) list \<Rightarrow> (string \<times> staged) list" where
  "live_pending now ps = filter (\<lambda>(i, p). now < sg_deadline p) ps"

definition stage :: "gotime \<Rightarrow> ssh_input \<Rightarrow> ssh_sessions \<Rightarrow> bool \<times> ssh_sessions" where
  "stage now i s =
     (let s1 = s\<lparr>ss_pending := live_pending now (ss_pending s)\<rparr> in
      if ss_closed s1 \<or> ss_limit s1 \<le> int (length (ss_pending s1)) + int (length (ss_active s1)) then (False, s1)
      else if map_of (ss_pending s1) (si_session i) \<noteq> None then (False, s1)
      else if map_of (ss_active s1) (si_session i) \<noteq> None then (False, s1)
      else (True, s1\<lparr>ss_pending := AList.update (si_session i) \<lparr>sg_input = i, sg_deadline = now + 30 * second\<rparr>
               (ss_pending s1)\<rparr>))"

definition claim :: "gotime \<Rightarrow> string \<Rightarrow> ssh_sessions \<Rightarrow> ssh_input option \<times> ssh_sessions" where
  "claim now i s =
     (let p = map_of (ss_pending s) i; s1 = s\<lparr>ss_pending := AList.delete i (ss_pending s)\<rparr> in
      case p of
        None \<Rightarrow> (None, s1)
      | Some q \<Rightarrow>
          if ss_closed s1 \<or> sg_deadline q \<le> now then (None, s1)
          else (Some (sg_input q), s1\<lparr>ss_active := AList.update i (si_expires (sg_input q)) (ss_active s1)\<rparr>))"

definition release :: "string \<Rightarrow> ssh_sessions \<Rightarrow> ssh_sessions" where
  "release i s = s\<lparr>ss_active := AList.delete i (ss_active s)\<rparr>"

definition close_sessions :: "ssh_sessions \<Rightarrow> ssh_sessions" where
  "close_sessions s = s\<lparr>ss_closed := True, ss_pending := []\<rparr>"

text \<open>Histories: what was staged and claimed.\<close>

datatype ssh_op = Stage gotime ssh_input | Claim gotime string | Release string | Close

datatype ssh_event = Staged ssh_input gotime | Claimed ssh_input gotime | Closed

fun ssh_step :: "ssh_op \<Rightarrow> ssh_sessions \<times> ssh_event list \<Rightarrow> ssh_sessions \<times> ssh_event list" where
  "ssh_step (Stage now i) (s, log) =
     (case stage now i s of (ok, s1) \<Rightarrow> (s1, if ok then log @ [Staged i now] else log))"
| "ssh_step (Claim now i) (s, log) =
     (case claim now i s of (got, s1) \<Rightarrow> (s1, case got of None \<Rightarrow> log | Some x \<Rightarrow> log @ [Claimed x now]))"
| "ssh_step (Release i) (s, log) = (release i s, log)"
| "ssh_step Close (s, log) = (close_sessions s, log @ [Closed])"

definition ssh_run :: "ssh_op list \<Rightarrow> int \<Rightarrow> ssh_sessions \<times> ssh_event list" where
  "ssh_run ops concurrency = fold ssh_step ops (new_sessions concurrency, [])"

subsection \<open>Claims\<close>

text \<open>A staging of \<open>x\<close> that no claim of its session has used yet.\<close>

definition unclaimed :: "ssh_event list \<Rightarrow> ssh_input \<Rightarrow> gotime \<Rightarrow> bool" where
  "unclaimed log x t0 \<longleftrightarrow>
     (\<exists>a b. log = a @ Staged x t0 # b \<and> (\<forall>y t. Claimed y t \<in> set b \<longrightarrow> si_session y \<noteq> si_session x))"

definition claims_ok :: "ssh_event list \<Rightarrow> bool" where
  "claims_ok log \<longleftrightarrow>
     (\<forall>before x t rest. log = before @ Claimed x t # rest \<longrightarrow>
        Closed \<notin> set before \<and> (\<exists>t0. unclaimed before x t0 \<and> t < t0 + 30 * second))"

lemma claims_ok_Nil: "claims_ok []"
  by (simp add: claims_ok_def)

lemma claims_ok_snoc:
  "claims_ok (log @ [e]) \<longleftrightarrow> claims_ok log
     \<and> (\<forall>x t. e = Claimed x t \<longrightarrow> Closed \<notin> set log \<and> (\<exists>t0. unclaimed log x t0 \<and> t < t0 + 30 * second))"
proof -
  have split: "log @ [e] = before @ Claimed x t # rest \<longleftrightarrow>
      (rest = [] \<and> before = log \<and> e = Claimed x t) \<or> (\<exists>r. rest = r @ [e] \<and> log = before @ Claimed x t # r)"
    for before x t rest
    by (cases rest rule: rev_cases) auto
  show ?thesis unfolding claims_ok_def split by blast
qed

lemma unclaimed_snoc:
  assumes "unclaimed log x t0" and "\<And>y t. e = Claimed y t \<Longrightarrow> si_session y \<noteq> si_session x"
  shows "unclaimed (log @ [e]) x t0"
proof -
  from assms(1) obtain a b where "log = a @ Staged x t0 # b"
    and free: "\<And>y t. Claimed y t \<in> set b \<Longrightarrow> si_session y \<noteq> si_session x"
    unfolding unclaimed_def by blast
  then have "log @ [e] = a @ Staged x t0 # (b @ [e])" by simp
  moreover have "\<forall>y t. Claimed y t \<in> set (b @ [e]) \<longrightarrow> si_session y \<noteq> si_session x"
    using free assms(2) by auto
  ultimately show ?thesis unfolding unclaimed_def by blast
qed

lemma unclaimed_new: "unclaimed (log @ [Staged x t0]) x t0"
  unfolding unclaimed_def by (intro exI [of _ log] exI [of _ "[]"]) simp

definition table_ok :: "ssh_sessions \<Rightarrow> bool" where
  "table_ok s \<longleftrightarrow>
     distinct (map fst (ss_pending s)) \<and> distinct (map fst (ss_active s))
     \<and> fst ` set (ss_pending s) \<inter> fst ` set (ss_active s) = {}
     \<and> int (length (ss_pending s)) + int (length (ss_active s)) \<le> ss_limit s \<and> 1 \<le> ss_limit s \<and> ss_limit s \<le> 32"

definition log_ok :: "ssh_sessions \<Rightarrow> ssh_event list \<Rightarrow> bool" where
  "log_ok s log \<longleftrightarrow>
     (\<forall>i p. (i, p) \<in> set (ss_pending s) \<longrightarrow>
        i = si_session (sg_input p) \<and> unclaimed log (sg_input p) (sg_deadline p - 30 * second))
     \<and> (Closed \<in> set log \<longleftrightarrow> ss_closed s) \<and> claims_ok log"

lemma new_sessions_ok: "table_ok (new_sessions c) \<and> log_ok (new_sessions c) []"
  by (auto simp: table_ok_def log_ok_def new_sessions_def Let_def claims_ok_Nil)

lemma fewer_pending:
  assumes "set ps \<subseteq> set (ss_pending s)" and "distinct (map fst ps)" and "length ps \<le> length (ss_pending s)"
  shows "table_ok s \<Longrightarrow> table_ok (s\<lparr>ss_pending := ps\<rparr>)" and "log_ok s log \<Longrightarrow> log_ok (s\<lparr>ss_pending := ps\<rparr>) log"
proof -
  assume t: "table_ok s"
  have "fst ` set ps \<inter> fst ` set (ss_active s) \<subseteq> fst ` set (ss_pending s) \<inter> fst ` set (ss_active s)"
    using assms(1) by (intro Int_mono image_mono order_refl)
  with t assms(2,3) show "table_ok (s\<lparr>ss_pending := ps\<rparr>)" by (simp add: table_ok_def)
next
  assume "log_ok s log"
  with assms(1) show "log_ok (s\<lparr>ss_pending := ps\<rparr>) log" unfolding log_ok_def by auto
qed

lemma live_pending_fewer:
  "set (live_pending now ps) \<subseteq> set ps" "length (live_pending now ps) \<le> length ps"
  "distinct (map fst ps) \<Longrightarrow> distinct (map fst (live_pending now ps))"
  by (auto simp: live_pending_def intro: distinct_map_filter)

lemma delete_fewer:
  "set (AList.delete k ps) \<subseteq> set ps" "length (AList.delete k ps) \<le> length ps"
  "distinct (map fst ps) \<Longrightarrow> distinct (map fst (AList.delete k ps))"
  by (auto simp: set_alist_delete length_delete_le distinct_keys_delete)

lemma table_distinct: "table_ok s \<Longrightarrow> distinct (map fst (ss_pending s))"
  by (simp add: table_ok_def)

lemma update_fresh: "k \<notin> fst ` set m \<Longrightarrow> AList.update k v m = m @ [(k, v)]"
  by (induction m) auto

lemma fresh_key: "map_of m k = None \<Longrightarrow> k \<notin> fst ` set m"
  by (simp add: map_of_eq_None_iff)

lemma stage_ok:
  assumes table: "table_ok s" and logs: "log_ok s log" and run: "stage now i s = (ok, s1)"
  shows "table_ok s1 \<and> log_ok s1 (if ok then log @ [Staged i now] else log)"
proof -
  let ?s = "s\<lparr>ss_pending := live_pending now (ss_pending s)\<rparr>"
  note fewer = live_pending_fewer(1) live_pending_fewer(3) [OF table_distinct [OF table]] live_pending_fewer(2)
  have table1: "table_ok ?s" by (rule fewer_pending(1) [OF fewer table])
  have logs1: "log_ok ?s log" by (rule fewer_pending(2) [OF fewer logs])
  show ?thesis
  proof (cases ok)
    case False
    with run have "s1 = ?s" by (auto simp: stage_def Let_def split: if_splits)
    with False table1 logs1 show ?thesis by simp
  next
    case True
    let ?p = "\<lparr>sg_input = i, sg_deadline = now + 30 * second\<rparr>"
    from True run have s1: "s1 = ?s\<lparr>ss_pending := AList.update (si_session i) ?p (ss_pending ?s)\<rparr>"
      and room: "int (length (ss_pending ?s)) + int (length (ss_active ?s)) < ss_limit ?s" and open_s: "\<not> ss_closed ?s"
      and none: "map_of (ss_pending ?s) (si_session i) = None" "map_of (ss_active ?s) (si_session i) = None"
      by (auto simp: stage_def Let_def split: if_splits)
    note fresh = none [THEN fresh_key]
    have s1': "s1 = ?s\<lparr>ss_pending := ss_pending ?s @ [(si_session i, ?p)]\<rparr>"
      unfolding s1 update_fresh [OF fresh(1)] ..
    have "table_ok s1" using table1 room fresh by (auto simp: table_ok_def s1')
    moreover have "log_ok s1 (log @ [Staged i now])"
      using logs1 open_s by (auto simp: log_ok_def s1' claims_ok_snoc intro: unclaimed_snoc unclaimed_new)
    ultimately show ?thesis using True by simp
  qed
qed

lemma claim_ok:
  assumes table: "table_ok s" and logs: "log_ok s log" and run: "claim now i s = (got, s1)"
  shows "table_ok s1 \<and> log_ok s1 (case got of None \<Rightarrow> log | Some x \<Rightarrow> log @ [Claimed x now])"
proof -
  let ?s = "s\<lparr>ss_pending := AList.delete i (ss_pending s)\<rparr>"
  note fewer = delete_fewer(1) delete_fewer(3) [OF table_distinct [OF table]] delete_fewer(2)
  have table1: "table_ok ?s" by (rule fewer_pending(1) [OF fewer table])
  have logs1: "log_ok ?s log" by (rule fewer_pending(2) [OF fewer logs])
  show ?thesis
  proof (cases got)
    case None
    with run have "s1 = ?s" by (auto simp: claim_def Let_def split: option.splits if_splits)
    with None table1 logs1 show ?thesis by simp
  next
    case (Some x)
    with run obtain q where q: "map_of (ss_pending s) i = Some q" "x = sg_input q" "\<not> ss_closed s" "now < sg_deadline q"
      and s1: "s1 = ?s\<lparr>ss_active := AList.update i (si_expires x) (ss_active s)\<rparr>"
      by (auto simp: claim_def Let_def split: option.splits if_splits)
    have mem: "(i, q) \<in> set (ss_pending s)" by (rule map_of_SomeD [OF q(1)])
    with logs q have x: "i = si_session x" "unclaimed log x (sg_deadline q - 30 * second)" "Closed \<notin> set log"
      by (auto simp: log_ok_def)
    have gone: "i \<notin> fst ` set (AList.delete i (ss_pending s))" by (auto simp: set_alist_delete)
    have "i \<notin> fst ` set (ss_active s)" using table mem by (force simp: table_ok_def)
    then have s1': "s1 = ?s\<lparr>ss_active := ss_active s @ [(i, si_expires x)]\<rparr>"
      unfolding s1 by (simp add: update_fresh)
    have "length (AList.delete i (ss_pending s)) < length (ss_pending s)"
      using mem unfolding AList.delete_eq by (intro length_filter_less) auto
    then have "table_ok s1"
      using table1 table gone \<open>i \<notin> fst ` set (ss_active s)\<close> by (auto simp: table_ok_def s1')
    moreover have "log_ok s1 (log @ [Claimed x now])"
    proof -
      have "unclaimed (log @ [Claimed x now]) (sg_input p) (sg_deadline p - 30 * second)"
        if "(j, p) \<in> set (ss_pending ?s)" for j p
      proof -
        from that logs1 have u: "j = si_session (sg_input p)" "unclaimed log (sg_input p) (sg_deadline p - 30 * second)"
          unfolding log_ok_def by blast+
        from that have "j \<noteq> i" by (simp add: set_alist_delete)
        with u x(1) show ?thesis by (intro unclaimed_snoc) auto
      qed
      moreover have "\<exists>t0. unclaimed log x t0 \<and> now < t0 + 30 * second"
        using x(2) q(4) by (intro exI [of _ "sg_deadline q - 30 * second"]) simp
      ultimately show ?thesis
        using logs1 x(3) unfolding log_ok_def s1' claims_ok_snoc by simp
    qed
    ultimately show ?thesis using Some by simp
  qed
qed

lemma release_session_ok: "table_ok s \<Longrightarrow> table_ok (release i s)" "log_ok s log \<Longrightarrow> log_ok (release i s) log"
proof -
  assume t: "table_ok s"
  have "fst ` set (ss_pending s) \<inter> fst ` set (AList.delete i (ss_active s)) = {}"
    using t by (auto simp: table_ok_def set_alist_delete)
  with t length_delete_le [of i "ss_active s"] show "table_ok (release i s)"
    by (simp add: table_ok_def release_def distinct_keys_delete)
qed (simp add: log_ok_def release_def)

lemma close_ok: "table_ok s \<Longrightarrow> table_ok (close_sessions s)" "log_ok s log \<Longrightarrow> log_ok (close_sessions s) (log @ [Closed])"
  by (auto simp: table_ok_def close_sessions_def log_ok_def claims_ok_snoc)

lemma ssh_step_ok:
  assumes "table_ok s" and "log_ok s log" and "ssh_step op (s, log) = (s1, log1)"
  shows "table_ok s1 \<and> log_ok s1 log1"
proof (cases op)
  case (Stage now i)
  obtain ok s2 where "stage now i s = (ok, s2)" by (metis surj_pair)
  with stage_ok [OF assms(1,2) this] assms(3) Stage show ?thesis by (cases ok) auto
next
  case (Claim now i)
  obtain got s2 where "claim now i s = (got, s2)" by (metis surj_pair)
  with claim_ok [OF assms(1,2) this] assms(3) Claim show ?thesis by (cases got) auto
qed (use assms release_session_ok close_ok in auto)

lemma ssh_run_ok: "ssh_run ops c = (s, log) \<Longrightarrow> table_ok s \<and> log_ok s log"
proof -
  have "table_ok (fst (fold ssh_step ops x)) \<and> log_ok (fst (fold ssh_step ops x)) (snd (fold ssh_step ops x))"
    if "table_ok (fst x)" "log_ok (fst x) (snd x)" for x
    using that
  proof (induction ops arbitrary: x)
    case (Cons op ops)
    then show ?case using ssh_step_ok [of "fst x" "snd x" op] by (metis fold_simps(2) prod.collapse)
  qed simp
  from this [of "(new_sessions c, [])"] new_sessions_ok
  show "ssh_run ops c = (s, log) \<Longrightarrow> table_ok s \<and> log_ok s log" by (simp add: ssh_run_def)
qed

text \<open>C20: over any history of stagings, claims, releases and the shut-down, the server holds at most as many
  staged and open SSH sessions as its limit (never more than 32), no session is both, and every claim
  opens a session with exactly the input staged for it, less than 30 seconds after the staging, once for
  one staging, and never after the shut-down.\<close>

theorem ssh_sessions_single_use:
  assumes "ssh_run ops c = (s, log)"
  shows "int (length (ss_pending s)) + int (length (ss_active s)) \<le> ss_limit s \<and> ss_limit s \<le> 32
    \<and> fst ` set (ss_pending s) \<inter> fst ` set (ss_active s) = {}
    \<and> (\<forall>before x t rest. log = before @ Claimed x t # rest \<longrightarrow>
         Closed \<notin> set before \<and> (\<exists>t0. unclaimed before x t0 \<and> t < t0 + 30 * second))"
  using ssh_run_ok [OF assms] by (auto simp: table_ok_def log_ok_def claims_ok_def)

definition demo_ssh :: ssh_input where
  "demo_ssh = \<lparr>si_session = ''s1'', si_agent = ''a'', si_cluster = ''c'', si_endpoint = ''e'', si_address = ''10.0.0.1'',
     si_port = 22, si_user = ''dev'', si_cols = 80, si_rows = 24, si_expires = 100 * second, si_lease = ''l'',
     si_token = ''0123456789abcdef'', si_lease_expires = 90 * second, si_kind = ''ssh_password'', si_host_key = ''k''\<rparr>"

definition demo_ops :: "ssh_op list" where
  "demo_ops = [Stage 0 demo_ssh, Claim second ''s1'', Claim second ''s1'', Stage second demo_ssh, Release ''s1'']"

lemma demo_log: "snd (ssh_run demo_ops 4) = [Staged demo_ssh 0, Claimed demo_ssh second]"
  by code_simp

lemma ssh_sessions_single_use_witness: "\<exists>t0. unclaimed [Staged demo_ssh 0] demo_ssh t0 \<and> second < t0 + 30 * second"
proof -
  obtain s where "ssh_run demo_ops 4 = (s, [Staged demo_ssh 0] @ Claimed demo_ssh second # [])"
    using demo_log by (metis append_Cons append_Nil prod.collapse)
  from ssh_sessions_single_use [OF this] show ?thesis by blast
qed

subsection \<open>Frames of an SSH session\<close>

record ssh_frame =
  fm_type :: string
  fm_data :: string
  fm_encoding :: string
  fm_message :: string
  fm_exit :: "int option"
  fm_cols :: int
  fm_rows :: int

datatype pty_action = WriteInput string | Resize int int

text \<open>\<^verbatim>\<open>readSSHInput\<close>: the reader goes on while frames are well formed; the oracle says whether the terminal
  accepts an action. \<^verbatim>\<open>base64\<close> decoding is a parameter.\<close>

definition frame_action :: "(string \<Rightarrow> string option) \<Rightarrow> ssh_frame \<Rightarrow> pty_action option" where
  "frame_action decode f =
     (if fm_type f = ''input'' then
        (if 87384 < length (fm_data f) \<or> fm_message f \<noteq> [] \<or> fm_exit f \<noteq> None \<or> fm_cols f \<noteq> 0 \<or> fm_rows f \<noteq> 0
         then None
         else case (if fm_encoding f = ''base64'' then decode (fm_data f)
                    else if fm_encoding f \<noteq> [] \<and> fm_encoding f \<noteq> ''utf8'' then None else Some (fm_data f)) of
           None \<Rightarrow> None
         | Some d \<Rightarrow> if 65536 < length d then None else Some (WriteInput d))
      else if fm_type f = ''resize'' then
        (if fm_cols f < 1 \<or> 512 < fm_cols f \<or> fm_rows f < 1 \<or> 512 < fm_rows f then None
         else Some (Resize (fm_cols f) (fm_rows f)))
      else None)"

fun read_frames :: "(string \<Rightarrow> string option) \<Rightarrow> (pty_action \<Rightarrow> bool) \<Rightarrow> ssh_frame list \<Rightarrow> pty_action list" where
  "read_frames decode accepts [] = []"
| "read_frames decode accepts (f # fs) =
     (case frame_action decode f of
        None \<Rightarrow> []
      | Some a \<Rightarrow> if accepts a then a # read_frames decode accepts fs else [a])"

definition ssh_exit_code :: "int option option \<Rightarrow> int option" where
  "ssh_exit_code err =
     (case err of
        None \<Rightarrow> Some 0
      | Some None \<Rightarrow> None
      | Some (Some code) \<Rightarrow> if code < 0 \<or> 255 < code then None else Some code)"

subsection \<open>Port forwards\<close>

record forward_view =
  fv_session :: string
  fv_cluster :: string
  fv_namespace :: string
  fv_kind :: string
  fv_name :: string
  fv_local :: int
  fv_remote :: int
  fv_status :: string
  fv_by :: string
  fv_at :: string

record forward =
  fw_view :: forward_view
  fw_port :: int
  fw_handle :: nat

record forwards =
  fd_cluster :: string
  fd_sessions :: "(string \<times> forward) list"

datatype forward_error = InvalidForward string | StartFailed string

datatype forward_event = Started nat | Halted nat

text \<open>What the starter did: an error, or a running forward with its local port; and the generated id.\<close>

record start_answer =
  sa_result :: "string + int \<times> nat"
  sa_id :: string
  sa_at :: string

definition new_forwards :: "string \<Rightarrow> forwards" where
  "new_forwards cluster =
     \<lparr>fd_cluster = (let c = trim_space cluster in if c = [] then ''local-agent'' else c), fd_sessions = []\<rparr>"

definition list_forwards :: "forwards \<Rightarrow> forward_view list" where
  "list_forwards r = rev (sort_key fv_at (rev (map (fw_view \<circ> snd) (fd_sessions r))))"

definition register_forward ::
  "bool \<Rightarrow> string \<Rightarrow> string \<Rightarrow> string \<Rightarrow> int \<Rightarrow> int \<Rightarrow> string \<Rightarrow> start_answer \<Rightarrow> forwards \<times> forward_event list \<Rightarrow>
   (forward_error + forward_view) \<times> forwards \<times> forward_event list" where
  "register_forward available ns0 kind0 name0 local remote by ans st =
     (let (r, log) = st; ns = (if trim_space ns0 = [] then ''default'' else trim_space ns0);
          kind = (if trim_space kind0 = [] then ''Pod'' else trim_space kind0); name = trim_space name0 in
      if name = [] then (Inl (InvalidForward ''targetName is required''), st)
      else if local \<le> 0 \<or> remote \<le> 0 then (Inl (InvalidForward ''localPort and remotePort must be positive''), st)
      else if \<not> available then (Inl (InvalidForward ''port-forward runtime is unavailable''), st)
      else case sa_result ans of
        Inl e \<Rightarrow> (Inl (StartFailed e), st)
      | Inr (port, h) \<Rightarrow>
          if port \<le> 0 then (Inl (StartFailed ''no tunnel port''), r, log @ [Started h, Halted h])
          else let v = \<lparr>fv_session = sa_id ans, fv_cluster = fd_cluster r, fv_namespace = ns, fv_kind = kind,
                        fv_name = name, fv_local = local, fv_remote = remote, fv_status = ''active'', fv_by = by,
                        fv_at = sa_at ans\<rparr> in
            (Inr v,
             r\<lparr>fd_sessions := AList.update (sa_id ans) \<lparr>fw_view = v, fw_port = port, fw_handle = h\<rparr> (fd_sessions r)\<rparr>,
             log @ [Started h]))"

definition delete_forward :: "string \<Rightarrow> forwards \<times> forward_event list \<Rightarrow> bool \<times> forwards \<times> forward_event list" where
  "delete_forward i st =
     (let (r, log) = st in
      case map_of (fd_sessions r) i of
        None \<Rightarrow> (False, st)
      | Some f \<Rightarrow> (True, r\<lparr>fd_sessions := AList.delete i (fd_sessions r)\<rparr>, log @ [Halted (fw_handle f)]))"

definition get_forward :: "string \<Rightarrow> forwards \<Rightarrow> forward option" where
  "get_forward i r = map_of (fd_sessions r) i"

datatype forward_op =
    Register bool string string string int int string start_answer
  | Delete string

fun forward_step :: "forward_op \<Rightarrow> forwards \<times> forward_event list \<Rightarrow> forwards \<times> forward_event list" where
  "forward_step (Register av ns kind name l rm by ans) st = snd (register_forward av ns kind name l rm by ans st)"
| "forward_step (Delete i) st = snd (delete_forward i st)"

fun op_ids :: "forward_op \<Rightarrow> string list" where
  "op_ids (Register av ns kind name l rm by ans) = [sa_id ans]"
| "op_ids (Delete i) = []"

definition live_handles :: "forwards \<Rightarrow> nat \<Rightarrow> nat" where
  "live_handles r h = length (filter (\<lambda>(i, f). fw_handle f = h) (fd_sessions r))"

definition balanced :: "forwards \<times> forward_event list \<Rightarrow> bool" where
  "balanced st \<longleftrightarrow> distinct (map fst (fd_sessions (fst st)))
     \<and> (\<forall>h. count_list (snd st) (Started h) = count_list (snd st) (Halted h) + live_handles (fst st) h)"

lemma count_list_snoc: "count_list (xs @ [x]) y = count_list xs y + (if x = y then 1 else 0)"
  by simp

lemma live_delete:
  assumes "distinct (map fst m)" and "map_of m i = Some f"
  shows "length (filter (\<lambda>(i, f). fw_handle f = h) m)
    = length (filter (\<lambda>(i, f). fw_handle f = h) (AList.delete i m)) + (if fw_handle f = h then 1 else 0)"
  using assms
proof (induction m)
  case (Cons e m)
  show ?case
  proof (cases "fst e = i")
    case True
    then have "AList.delete i m = m" using Cons.prems(1)
      by (intro delete_id) auto
    with True Cons.prems show ?thesis by (cases e) auto
  next
    case False
    with Cons show ?thesis by (cases e) auto
  qed
qed simp

lemma register_cases:
  assumes "register_forward av ns kind name l rm by_ip ans (r, log) = (res, st)"
  obtains "st = (r, log)"
  | h where "st = (r, log @ [Started h, Halted h])"
  | f where "st = (r\<lparr>fd_sessions := AList.update (sa_id ans) f (fd_sessions r)\<rparr>, log @ [Started (fw_handle f)])"
proof -
  let ?v = "\<lparr>fv_session = sa_id ans, fv_cluster = fd_cluster r,
     fv_namespace = (if trim_space ns = [] then ''default'' else trim_space ns),
     fv_kind = (if trim_space kind = [] then ''Pod'' else trim_space kind),
     fv_name = trim_space name, fv_local = l, fv_remote = rm, fv_status = ''active'', fv_by = by_ip, fv_at = sa_at ans\<rparr>"
  show ?thesis
    using assms that(1) that(2) [of "snd (projr (sa_result ans))"]
      that(3) [of "\<lparr>fw_view = ?v, fw_port = fst (projr (sa_result ans)), fw_handle = snd (projr (sa_result ans))\<rparr>"]
    unfolding register_forward_def Let_def by (auto split: if_splits sum.splits)
qed

lemma balanced_add:
  assumes "balanced (r, log)" and "i \<notin> fst ` set (fd_sessions r)"
  shows "balanced (r\<lparr>fd_sessions := fd_sessions r @ [(i, f)]\<rparr>, log @ [Started (fw_handle f)])"
  using assms by (simp add: balanced_def live_handles_def)

lemma register_balanced:
  assumes "balanced (r, log)" and fresh: "sa_id ans \<notin> fst ` set (fd_sessions r)"
    and run: "register_forward av ns kind name l rm by_ip ans (r, log) = (res, st)"
  shows "balanced st \<and> fst ` set (fd_sessions (fst st)) \<subseteq> insert (sa_id ans) (fst ` set (fd_sessions r))"
  using run
proof (cases rule: register_cases)
  case 1
  then show ?thesis using assms(1) by auto
next
  case (2 h)
  have "balanced (r, log @ [Started h, Halted h])" using assms(1) by (simp add: balanced_def)
  with 2 show ?thesis by auto
next
  case (3 f)
  then have st: "st = (r\<lparr>fd_sessions := fd_sessions r @ [(sa_id ans, f)]\<rparr>, log @ [Started (fw_handle f)])"
    by (simp add: update_fresh [OF fresh])
  from balanced_add [OF assms(1) fresh, of f] show ?thesis unfolding st by auto
qed

lemma delete_balanced:
  assumes "balanced (r, log)" and "delete_forward i (r, log) = (ok, st)"
  shows "balanced st \<and> fst ` set (fd_sessions (fst st)) \<subseteq> fst ` set (fd_sessions r)"
proof (cases "map_of (fd_sessions r) i")
  case (Some f)
  with assms(2) have st: "st = (r\<lparr>fd_sessions := AList.delete i (fd_sessions r)\<rparr>, log @ [Halted (fw_handle f)])"
    by (simp add: delete_forward_def)
  have "distinct (map fst (fd_sessions r))" using assms(1) by (simp add: balanced_def)
  from live_delete [OF this Some] assms(1) show ?thesis
    unfolding st by (auto simp: balanced_def live_handles_def distinct_keys_delete set_alist_delete)
next
  case None
  with assms show ?thesis by (auto simp: delete_forward_def)
qed

lemma forward_step_balanced:
  assumes "balanced st" and "set (op_ids op) \<inter> fst ` set (fd_sessions (fst st)) = {}"
  shows "balanced (forward_step op st)
    \<and> fst ` set (fd_sessions (fst (forward_step op st))) \<subseteq> set (op_ids op) \<union> fst ` set (fd_sessions (fst st))"
proof (cases op)
  case (Register av ns kind name l rm by_ip ans)
  obtain r log where st: "st = (r, log)" by (cases st)
  obtain res st1 where reg: "register_forward av ns kind name l rm by_ip ans (r, log) = (res, st1)"
    by (cases "register_forward av ns kind name l rm by_ip ans (r, log)")
  from assms st Register have "balanced (r, log)" "sa_id ans \<notin> fst ` set (fd_sessions r)" by simp_all
  from register_balanced [OF this reg] show ?thesis using st Register reg by simp
next
  case (Delete i)
  obtain r log where st: "st = (r, log)" by (cases st)
  obtain ok st1 where del: "delete_forward i (r, log) = (ok, st1)" by (cases "delete_forward i (r, log)")
  from assms st have "balanced (r, log)" by simp
  from delete_balanced [OF this del] show ?thesis using st Delete del by simp
qed

lemma forward_run_balanced:
  assumes "balanced st" and "distinct (concat (map op_ids ops))"
    and "fst ` set (fd_sessions (fst st)) \<inter> set (concat (map op_ids ops)) = {}"
  shows "balanced (fold forward_step ops st)"
  using assms
proof (induction ops arbitrary: st)
  case (Cons op ops)
  have step: "balanced (forward_step op st)
    \<and> fst ` set (fd_sessions (fst (forward_step op st))) \<subseteq> set (op_ids op) \<union> fst ` set (fd_sessions (fst st))"
    by (rule forward_step_balanced) (use Cons.prems in auto)
  have "balanced (fold forward_step ops (forward_step op st))"
  proof (rule Cons.IH)
    show "balanced (forward_step op st)" using step by simp
    show "distinct (concat (map op_ids ops))" using Cons.prems(2) by simp
    have "set (op_ids op) \<inter> set (concat (map op_ids ops)) = {}" using Cons.prems(2) by simp
    moreover have "fst ` set (fd_sessions (fst st)) \<inter> set (concat (map op_ids ops)) = {}" using Cons.prems(3) by auto
    ultimately show "fst ` set (fd_sessions (fst (forward_step op st))) \<inter> set (concat (map op_ids ops)) = {}"
      using step by blast
  qed
  then show ?case by simp
qed simp

text \<open>Over any history of registrations (with distinct generated ids) and deletions, a port forward that was
  started is either in the registry or was stopped, once; none is lost and none is stopped twice.\<close>

theorem forwards_balanced:
  assumes "distinct (concat (map op_ids ops))"
    and "fold forward_step ops (new_forwards cluster, []) = (r, log)"
  shows "count_list log (Started h) = count_list log (Halted h) + live_handles r h"
proof -
  have "balanced (fold forward_step ops (new_forwards cluster, []))"
    by (rule forward_run_balanced) (simp_all add: balanced_def new_forwards_def live_handles_def assms(1))
  with assms(2) show ?thesis by (simp add: balanced_def)
qed

definition demo_start :: "nat \<Rightarrow> start_answer" where
  "demo_start n = \<lparr>sa_result = Inr (int n + 1024, n), sa_id = replicate (Suc n) CHR ''x'', sa_at = []\<rparr>"

definition demo_forwards :: "forward_op list" where
  "demo_forwards = [Register True [] [] ''pod'' 80 8080 ''ip'' (demo_start 0),
     Register True [] [] ''pod'' 80 8080 ''ip'' (demo_start 1), Delete ''x'', Delete ''x'']"

lemma demo_forwards_run:
  "snd (fold forward_step demo_forwards (new_forwards [], [])) = [Started 0, Started 1, Halted 0]"
  by code_simp

lemma forwards_balanced_witness: "\<exists>r. live_handles r 0 = 0 \<and> live_handles r 1 = 1"
proof -
  have ids: "distinct (concat (map op_ids demo_forwards))" by code_simp
  obtain r where run: "fold forward_step demo_forwards (new_forwards [], []) = (r, [Started 0, Started 1, Halted 0])"
    using demo_forwards_run by (metis prod.collapse)
  show ?thesis
    using forwards_balanced [OF ids run, of 0] forwards_balanced [OF ids run, of 1] by (intro exI [of _ r]) simp
qed

subsection \<open>The pod terminal\<close>

definition pod_shell :: "string \<Rightarrow> string" where
  "pod_shell s =
     (let t = trim_space s in
      if t = ''/bin/bash'' then ''/bin/bash'' else if t = ''/bin/ash'' then ''/bin/ash''
      else if t = ''/busybox/sh'' then ''/busybox/sh'' else ''/bin/sh'')"

text \<open>The size queue is a channel of capacity one; a size is converted to 16 bits, which drops high bits.\<close>

record terminal_size =
  tz_width :: "16 word"
  tz_height :: "16 word"

definition push_size :: "int \<Rightarrow> int \<Rightarrow> terminal_size option \<Rightarrow> terminal_size option" where
  "push_size cols rows q =
     (if cols \<le> 0 \<or> rows \<le> 0 then q
      else let z = \<lparr>tz_width = word_of_int cols, tz_height = word_of_int rows\<rparr> in
        case q of None \<Rightarrow> Some z | Some old \<Rightarrow> Some z)"

definition next_size :: "terminal_size option \<Rightarrow> (terminal_size \<times> terminal_size option) option" where
  "next_size q = (case q of None \<Rightarrow> None | Some z \<Rightarrow> Some (z, None))"

text \<open>The terminal sees the last valid size that was pushed, reduced modulo 65536 in both directions: a positive
  width of 65536 columns reaches it as 0, which the guard for non-positive sizes means to exclude.\<close>

theorem terminal_size_wraps:
  "if cols \<le> 0 \<or> rows \<le> 0 then push_size cols rows q = q
   else \<exists>z. next_size (push_size cols rows q) = Some (z, None)
     \<and> uint (tz_width z) = cols mod 65536 \<and> uint (tz_height z) = rows mod 65536"
  by (auto simp: next_size_def push_size_def Let_def uint_word_of_int split: option.splits)

end
