(* ===== verification/PodLogs.thy ===== *)
theory PodLogs
  imports SohaPrelude "HOL-Library.Product_Lexorder"
begin

text \<open>
  Logs of several pods as one page or one stream, \<^verbatim>\<open>internal/agent/kubernetes/pod_logs_aggregate.go\<close>:
  the checks of a query, the sources it resolves to, and the merge of what the sources return.

  The cluster is a parameter: how a pod is read or listed, which selector a workload has, how label
  selectors parse. The results of the sources arrive in an order that the five workers determine; the
  page is a function of that order. Time stamps are parsed and entries are encoded by parameters.
\<close>

subsection \<open>Queries\<close>

record log_selector =
  sl_namespace :: string
  sl_pods :: "string list"
  sl_containers :: "string list"
  sl_kind :: string
  sl_name :: string
  sl_labels :: string
  sl_all :: bool

record log_options =
  lo_previous :: bool
  lo_since :: int

record log_query =
  lq_mode :: string
  lq_cursor :: string
  lq_severities :: "string list"
  lq_tail :: int
  lq_limit :: int
  lq_text :: string
  lq_options :: "log_options option"
  lq_direction :: string
  lq_from :: "gotime option"
  lq_to :: "gotime option"
  lq_selector :: "log_selector option"

record log_source =
  so_cluster :: string
  so_namespace :: string
  so_pod :: string
  so_uid :: string
  so_container :: string
  so_kind :: string
  so_name :: string

record log_entry =
  le_time :: gotime
  le_observed :: gotime
  le_message :: string
  le_source :: log_source

datatype log_error = InvalidQuery string | QueryFailed

record log_names =
  ln_runtime :: string
  ln_auto :: string
  ln_backward :: string
  ln_forward :: string

abbreviation (input) max_entries :: int where "max_entries \<equiv> 5000"
abbreviation (input) max_pods :: nat where "max_pods \<equiv> 50"
abbreviation (input) max_sources :: nat where "max_sources \<equiv> 50"

definition validate_options :: "log_names \<Rightarrow> log_query \<Rightarrow> log_error option" where
  "validate_options n q =
     (if lq_mode q \<noteq> [] \<and> lq_mode q \<noteq> ln_runtime n \<and> lq_mode q \<noteq> ln_auto n
      then Some (InvalidQuery ''only runtime logs are supported'')
      else if lq_cursor q \<noteq> [] \<or> lq_severities q \<noteq> []
      then Some (InvalidQuery ''cursor and severity filters require durable logs'')
      else if lq_tail q < 0 \<or> max_entries < lq_tail q \<or> lq_limit q < 0 \<or> max_entries < lq_limit q
      then Some (InvalidQuery ''tail and limit must not exceed the bound'')
      else if 2048 < length (lq_text q) then Some (InvalidQuery ''text filter is too long'')
      else if (case lq_options q of None \<Rightarrow> False | Some x \<Rightarrow> lo_since x < 0 \<or> 604800 < lo_since x)
      then Some (InvalidQuery ''sinceSeconds is outside the supported range'')
      else if lq_direction q \<noteq> [] \<and> lq_direction q \<noteq> ln_backward n \<and> lq_direction q \<noteq> ln_forward n
      then Some (InvalidQuery ''unsupported direction'')
      else case (lq_from q, lq_to q) of
        (Some f, Some t) \<Rightarrow> if t < f then Some (InvalidQuery ''from must not be after to'') else None
      | _ \<Rightarrow> None)"

fun validate_names :: "string list \<Rightarrow> string list \<Rightarrow> string \<Rightarrow> log_error option" where
  "validate_names seen [] kind = None"
| "validate_names seen (v # vs) kind =
     (if trim_space v = [] then Some (InvalidQuery (kind @ '' names must not be empty''))
      else if trim_space v \<in> set seen then Some (InvalidQuery (kind @ '' names must be unique''))
      else validate_names (trim_space v # seen) vs kind)"

definition validate_selector :: "(string \<Rightarrow> string option) \<Rightarrow> log_selector \<Rightarrow> log_error + log_selector" where
  "validate_selector parse_labels s0 =
     (let s = s0\<lparr>sl_namespace := trim_space (sl_namespace s0)\<rparr> in
      if sl_namespace s = [] then Inl (InvalidQuery ''namespace is required'')
      else if max_pods < length (sl_pods s) then Inl (InvalidQuery ''too many pods'')
      else if max_sources < length (sl_containers s) then Inl (InvalidQuery ''too many containers'')
      else let s1 = s\<lparr>sl_kind := trim_space (sl_kind s), sl_name := trim_space (sl_name s)\<rparr> in
        if (sl_kind s1 = []) \<noteq> (sl_name s1 = [])
        then Inl (InvalidQuery ''workload kind and name must be provided together'')
        else case validate_names [] (sl_pods s1) ''pod'' of
          Some e \<Rightarrow> Inl e
        | None \<Rightarrow>
            (case validate_names [] (sl_containers s1) ''container'' of
               Some e \<Rightarrow> Inl e
             | None \<Rightarrow> if parse_labels (sl_labels s1) = None then Inl (InvalidQuery ''invalid label selector'') else Inr s1))"

definition validate_query :: "log_names \<Rightarrow> (string \<Rightarrow> string option) \<Rightarrow> log_query \<Rightarrow> log_error + log_selector" where
  "validate_query n parse_labels q =
     (case validate_options n q of
        Some e \<Rightarrow> Inl e
      | None \<Rightarrow>
          (case lq_selector q of
             None \<Rightarrow> Inl (InvalidQuery ''selector is required'')
           | Some s \<Rightarrow> validate_selector parse_labels s))"

subsection \<open>Sources\<close>

record log_pod =
  po_name :: string
  po_namespace :: string
  po_uid :: string
  po_default :: string
  po_containers :: "string list"
  po_init :: "string list"
  po_ephemeral :: "string list"

datatype pod_read = PodFound log_pod | PodUnavailable | QueryEnded

text \<open>The cluster: a workload's selector as text (none if it cannot be parsed), a pod by name, the pods of a
  selector.\<close>

record log_cluster =
  lc_workload :: "string \<Rightarrow> string \<Rightarrow> string \<Rightarrow> string option option"
  lc_pod :: "string \<Rightarrow> string \<Rightarrow> pod_read"
  lc_list :: "string \<Rightarrow> string \<Rightarrow> log_pod list option"

definition workload_kinds :: "string list" where
  "workload_kinds = [''deployment'', ''deployments'', ''statefulset'', ''statefulsets'', ''daemonset'', ''daemonsets'',
     ''replicaset'', ''replicasets'', ''job'', ''jobs'']"

definition resolve_workload ::
  "log_cluster \<Rightarrow> (string \<Rightarrow> string option) \<Rightarrow> log_selector \<Rightarrow> log_error + log_selector" where
  "resolve_workload k parse_labels s =
     (if sl_kind s = [] then Inr s
      else if to_lower (sl_kind s) \<notin> set workload_kinds then Inl (InvalidQuery ''unsupported workload kind'')
      else case lc_workload k (to_lower (sl_kind s)) (sl_namespace s) (sl_name s) of
        None \<Rightarrow> Inl QueryFailed
      | Some None \<Rightarrow> Inl (InvalidQuery ''invalid workload selector'')
      | Some (Some text) \<Rightarrow>
          if sl_labels s = [] then Inr (s\<lparr>sl_labels := text\<rparr>)
          else (case parse_labels (text @ '','' @ sl_labels s) of
            None \<Rightarrow> Inl (InvalidQuery ''invalid combined workload selector'')
          | Some combined \<Rightarrow> Inr (s\<lparr>sl_labels := combined\<rparr>)))"

fun read_pods ::
  "log_cluster \<Rightarrow> string \<Rightarrow> string list \<Rightarrow> string list \<Rightarrow> log_error + log_pod list \<times> string list" where
  "read_pods k ns seen [] = Inr ([], [])"
| "read_pods k ns seen (n0 # names) =
     (let n = trim_space n0 in
      if n = [] then Inl (InvalidQuery ''pod names must not be empty'')
      else if n \<in> set seen then read_pods k ns seen names
      else case lc_pod k ns n of
        QueryEnded \<Rightarrow> Inl QueryFailed
      | PodUnavailable \<Rightarrow> map_sum id (\<lambda>(ps, ms). (ps, n # ms)) (read_pods k ns (n # seen) names)
      | PodFound p \<Rightarrow> map_sum id (\<lambda>(ps, ms). (p # ps, ms)) (read_pods k ns (n # seen) names))"

fun pick_pods :: "string list \<Rightarrow> log_pod list \<Rightarrow> log_pod list \<times> string list" where
  "pick_pods wanted [] = ([], wanted)"
| "pick_pods wanted (p # ps) =
     (if po_name p \<in> set wanted
      then (case pick_pods (removeAll (po_name p) wanted) ps of (qs, rest) \<Rightarrow> (p # qs, rest))
      else pick_pods wanted ps)"

definition list_pods :: "log_cluster \<Rightarrow> log_selector \<Rightarrow> log_error + log_pod list \<times> string list" where
  "list_pods k s =
     (if sl_labels s = [] \<and> sl_pods s \<noteq> [] then read_pods k (sl_namespace s) [] (sl_pods s)
      else case lc_list k (sl_namespace s) (sl_labels s) of
        None \<Rightarrow> Inl QueryFailed
      | Some items \<Rightarrow>
          if sl_pods s = [] then Inr (items, [])
          else (case pick_pods (remdups (map trim_space (sl_pods s))) items of
            (ps, missing) \<Rightarrow> Inr (ps, sort missing)))"

definition select_containers :: "log_pod \<Rightarrow> log_selector \<Rightarrow> string list \<times> string list" where
  "select_containers p s =
     (let available = set (po_containers p) \<union> set (po_init p) \<union> set (po_ephemeral p) in
      if sl_all s then (po_containers p @ po_init p @ po_ephemeral p, [])
      else if sl_containers s \<noteq> []
      then (filter (\<lambda>n. n \<in> available) (sl_containers s), filter (\<lambda>n. n \<notin> available) (sl_containers s))
      else if po_default p \<noteq> [] \<and> po_default p \<in> available then ([po_default p], [])
      else (take 1 (po_containers p), []))"

definition source_of :: "string \<Rightarrow> log_query \<Rightarrow> log_pod \<Rightarrow> string \<Rightarrow> log_source" where
  "source_of cluster q p c =
     \<lparr>so_cluster = cluster, so_namespace = po_namespace p, so_pod = po_name p, so_uid = po_uid p, so_container = c,
      so_kind = (case lq_selector q of None \<Rightarrow> [] | Some s \<Rightarrow> sl_kind s),
      so_name = (case lq_selector q of None \<Rightarrow> [] | Some s \<Rightarrow> sl_name s)\<rparr>"

fun collect_sources ::
  "string \<Rightarrow> log_query \<Rightarrow> log_selector \<Rightarrow> nat \<Rightarrow> log_pod list \<Rightarrow> log_source list \<Rightarrow> (string \<times> log_source) list \<Rightarrow>
   log_error + log_source list \<times> (string \<times> log_source) list" where
  "collect_sources cluster q s bound [] sources warnings = Inr (sources, warnings)"
| "collect_sources cluster q s bound (p # ps) sources warnings =
     (case select_containers p s of
        (found, missing) \<Rightarrow>
          let warnings1 = warnings @ map (\<lambda>c. (''container_not_found'', source_of cluster q p c)) missing;
              sources1 = sources @ map (source_of cluster q p) found in
          if found \<noteq> [] \<and> bound < length sources1 then Inl (InvalidQuery ''too many log sources'')
          else collect_sources cluster q s bound ps sources1 warnings1)"

definition resolve_sources ::
  "log_names \<Rightarrow> (string \<Rightarrow> string option) \<Rightarrow> log_cluster \<Rightarrow> string \<Rightarrow> log_query \<Rightarrow> nat \<Rightarrow>
   log_error + log_source list \<times> (string \<times> log_source) list" where
  "resolve_sources n parse_labels k cluster q bound =
     (case validate_query n parse_labels q of
        Inl e \<Rightarrow> Inl e
      | Inr s0 \<Rightarrow>
          (case resolve_workload k parse_labels s0 of
             Inl e \<Rightarrow> Inl e
           | Inr s \<Rightarrow>
               (case list_pods k s of
                  Inl e \<Rightarrow> Inl e
                | Inr (pods, missing) \<Rightarrow>
                    if max_pods < length pods then Inl (InvalidQuery ''too many pods'')
                    else collect_sources cluster q s bound pods []
                      (map (\<lambda>m. (''pod_unavailable'',
                         \<lparr>so_cluster = cluster, so_namespace = sl_namespace s, so_pod = m, so_uid = [], so_container = [],
                          so_kind = sl_kind s, so_name = sl_name s\<rparr>)) missing))))"

subsection \<open>Entries\<close>

definition parse_line :: "(string \<Rightarrow> gotime option) \<Rightarrow> gotime \<Rightarrow> string \<Rightarrow> log_source \<Rightarrow> log_entry" where
  "parse_line parse_time now line src =
     (let (t, m) = (case cut_char CHR '' '' line of
                      None \<Rightarrow> (now, line)
                    | Some (raw, rest) \<Rightarrow> (case parse_time raw of None \<Rightarrow> (now, line) | Some t \<Rightarrow> (t, rest)))
      in \<lparr>le_time = t, le_observed = now, le_message = m, le_source = src\<rparr>)"

definition entry_matches :: "log_entry \<Rightarrow> log_query \<Rightarrow> bool" where
  "entry_matches e q \<longleftrightarrow>
     (case lq_from q of None \<Rightarrow> True | Some f \<Rightarrow> \<not> le_time e < f)
     \<and> (case lq_to q of None \<Rightarrow> True | Some t \<Rightarrow> \<not> t < le_time e)
     \<and> (lq_text q = [] \<or> contains (le_message e) (lq_text q))"

fun parse_lines ::
  "(string \<Rightarrow> gotime option) \<Rightarrow> (nat \<Rightarrow> gotime) \<Rightarrow> nat \<Rightarrow> string list \<Rightarrow> log_query \<Rightarrow> log_source \<Rightarrow> log_entry list" where
  "parse_lines parse_time clock k [] q src = []"
| "parse_lines parse_time clock k (l # ls) q src =
     (if l = [] then parse_lines parse_time clock k ls q src
      else let e = parse_line parse_time (clock k) l src in
        if entry_matches e q then e # parse_lines parse_time clock (Suc k) ls q src
        else parse_lines parse_time clock (Suc k) ls q src)"

definition parse_content ::
  "(string \<Rightarrow> gotime option) \<Rightarrow> (nat \<Rightarrow> gotime) \<Rightarrow> string \<Rightarrow> log_query \<Rightarrow> log_source \<Rightarrow> log_entry list" where
  "parse_content parse_time clock content q src =
     (let text = trim_suffix content [CHR 0x0A] in
      if text = [] then [] else parse_lines parse_time clock 0 (split_char CHR 0x0A text) q src)"

text \<open>The order of the page: by time in the asked direction, then by the key of the source and the message.\<close>

definition entry_key :: "bool \<Rightarrow> log_entry \<Rightarrow> int \<times> string" where
  "entry_key forward e =
     (if forward then le_time e else - le_time e,
      so_namespace (le_source e) @ [CHR 0x00] @ so_pod (le_source e) @ [CHR 0x00] @ so_container (le_source e)
        @ [CHR 0x00] @ le_message e)"

definition sort_entries :: "bool \<Rightarrow> log_entry list \<Rightarrow> log_entry list" where
  "sort_entries forward es = sort_key (entry_key forward) es"

text \<open>The prefix within the byte budget; the size of an entry is that of its encoding.\<close>

fun fit_budget :: "(log_entry \<Rightarrow> nat) \<Rightarrow> nat \<Rightarrow> nat \<Rightarrow> log_entry list \<Rightarrow> log_entry list \<times> bool" where
  "fit_budget esize budget used [] = ([], False)"
| "fit_budget esize budget used (e # es) =
     (let used1 = used + esize e + 1 in
      if budget < used1 then ([], True)
      else case fit_budget esize budget used1 es of (fit, short) \<Rightarrow> (e # fit, short))"

definition byte_budget :: nat where
  "byte_budget = 2 * 1024 * 1024 - 32 * 1024"

definition entry_limit :: "int \<Rightarrow> nat" where
  "entry_limit asked = nat (if asked \<le> 0 \<or> max_entries < asked then max_entries else asked)"

definition bound_entries :: "(log_entry \<Rightarrow> nat) \<Rightarrow> nat \<Rightarrow> int \<Rightarrow> log_entry list \<times> bool \<Rightarrow> log_entry list \<times> bool" where
  "bound_entries esize budget asked page =
     (case page of (es, truncated) \<Rightarrow>
        let limit = entry_limit asked; es1 = (if limit < length es then take limit es else es);
            truncated1 = (truncated \<or> limit < length es)
        in case fit_budget esize budget 0 es1 of (fit, short) \<Rightarrow> (fit, truncated1 \<or> short))"

subsection \<open>Pages\<close>

record log_result =
  lr_source :: log_source
  lr_read :: "(log_entry list \<times> bool) option"

record log_page =
  lp_entries :: "log_entry list"
  lp_truncated :: bool
  lp_partial :: bool
  lp_warnings :: "(string \<times> log_source) list"
  lp_resolved :: nat
  lp_successful :: nat
  lp_failed :: nat

definition add_result :: "(log_entry \<Rightarrow> nat) \<Rightarrow> nat \<Rightarrow> bool \<Rightarrow> int \<Rightarrow> log_page \<Rightarrow> log_result \<Rightarrow> log_page" where
  "add_result esize budget forward asked page r =
     (case lr_read r of
        None \<Rightarrow> page\<lparr>lp_partial := True, lp_failed := Suc (lp_failed page),
                  lp_warnings := lp_warnings page @ [(''source_unavailable'', lr_source r)]\<rparr>
      | Some (es, truncated) \<Rightarrow>
          (case bound_entries esize budget asked
              (sort_entries forward (lp_entries page @ es), lp_truncated page \<or> truncated) of
             (es1, short) \<Rightarrow> page\<lparr>lp_entries := es1, lp_truncated := short, lp_successful := Suc (lp_successful page)\<rparr>))"

definition finish_page :: "(log_entry \<Rightarrow> nat) \<Rightarrow> nat \<Rightarrow> bool \<Rightarrow> int \<Rightarrow> log_page \<Rightarrow> log_page" where
  "finish_page esize budget forward asked page =
     (case bound_entries esize budget asked (sort_entries forward (lp_entries page), lp_truncated page) of
        (es, short) \<Rightarrow> page\<lparr>lp_entries := es, lp_truncated := short\<rparr>)"

definition first_page :: "nat \<Rightarrow> (string \<times> log_source) list \<Rightarrow> log_page" where
  "first_page n warnings =
     \<lparr>lp_entries = [], lp_truncated = False, lp_partial = warnings \<noteq> [], lp_warnings = warnings, lp_resolved = n,
      lp_successful = 0, lp_failed = 0\<rparr>"

definition merge_results ::
  "(log_entry \<Rightarrow> nat) \<Rightarrow> nat \<Rightarrow> bool \<Rightarrow> int \<Rightarrow> (string \<times> log_source) list \<Rightarrow> log_result list \<Rightarrow> log_page" where
  "merge_results esize budget forward asked warnings rs =
     (if rs = [] then first_page 0 warnings
      else finish_page esize budget forward asked
        (foldl (add_result esize budget forward asked) (first_page (length rs) warnings) rs))"

text \<open>\<^verbatim>\<open>QueryPodLogs\<close>; the results are those of the resolved sources, in the order they arrive.\<close>

definition query_pod_logs ::
  "log_names \<Rightarrow> (string \<Rightarrow> string option) \<Rightarrow> log_cluster \<Rightarrow> string \<Rightarrow> (log_entry \<Rightarrow> nat) \<Rightarrow>
   (log_source list \<Rightarrow> log_result list) \<Rightarrow> log_query \<Rightarrow> log_error + log_page" where
  "query_pod_logs n parse_labels k cluster esize arrive q =
     (case resolve_sources n parse_labels k cluster q max_sources of
        Inl e \<Rightarrow> Inl e
      | Inr (sources, warnings) \<Rightarrow>
          Inr (merge_results esize byte_budget (lq_direction q = ln_forward n) (lq_limit q) warnings (arrive sources)))"

subsection \<open>Stable sorting of a cut list\<close>

lemma insort_split: "\<exists>p q. xs = p @ q \<and> insort_key f b xs = p @ b # q"
proof (induction xs)
  case (Cons x xs)
  show ?case
  proof (cases "f b \<le> f x")
    case True
    then show ?thesis by (intro exI [of _ "[]"] exI [of _ "x # xs"]) simp
  next
    case False
    with Cons show ?thesis by (metis append_Cons insort_key.simps(2))
  qed
qed simp

lemma insort_before:
  assumes "sorted (map f (p @ b # q))" and "f a \<le> f b"
  shows "\<exists>p'. insort_key f a (p @ b # q) = p' @ b # q \<and> insort_key f a (p @ q) = p' @ q \<and> length p' = Suc (length p)"
  using assms
proof (induction p)
  case Nil
  then have "insort_key f a q = a # q" by (cases q) auto
  with Nil show ?case by (intro exI [of _ "[a]"]) simp
next
  case (Cons x p)
  show ?case
  proof (cases "f a \<le> f x")
    case True
    then show ?thesis by (intro exI [of _ "a # x # p"]) simp
  next
    case False
    from Cons obtain p' where "insort_key f a (p @ b # q) = p' @ b # q" "insort_key f a (p @ q) = p' @ q"
      "length p' = Suc (length p)" by auto
    with False show ?thesis by (intro exI [of _ "x # p'"]) simp
  qed
qed

lemma sort_key_around:
  assumes "\<forall>a \<in> set A. f a \<le> f b"
  shows "\<exists>p q. sort_key f (A @ b # ys) = p @ b # q \<and> sort_key f (A @ ys) = p @ q \<and> length A \<le> length p"
  using assms
proof (induction A)
  case Nil
  then show ?case using insort_split [of "sort_key f ys" f b] by auto
next
  case (Cons a A)
  then obtain p q where pq: "sort_key f (A @ b # ys) = p @ b # q" "sort_key f (A @ ys) = p @ q" "length A \<le> length p"
    by auto
  have "sorted (map f (p @ b # q))" unfolding pq(1) [symmetric] by simp
  from insort_before [OF this, of a] Cons.prems obtain p' where "insort_key f a (p @ b # q) = p' @ b # q"
    "insort_key f a (p @ q) = p' @ q" "length p' = Suc (length p)" by auto
  with pq show ?case by (intro exI [of _ p'] exI [of _ q]) simp
qed

lemma take_sort_key_drop:
  assumes "sorted (map f (A @ B))"
  shows "take (length A) (sort_key f (A @ B @ ys)) = take (length A) (sort_key f (A @ ys))"
  using assms
proof (induction B)
  case (Cons b B)
  then have "\<forall>a \<in> set A. f a \<le> f b" by (auto simp: sorted_append)
  from sort_key_around [OF this, of "B @ ys"] obtain p q
    where "sort_key f (A @ b # B @ ys) = p @ b # q" "sort_key f (A @ B @ ys) = p @ q" "length A \<le> length p" by auto
  moreover have "sorted (map f (A @ B))" using Cons.prems by (auto simp: sorted_append)
  ultimately show ?case using Cons.IH by simp
qed simp

lemma stable_filter: "filter (\<lambda>x. f k = f x) (sort_key f xs) = filter (\<lambda>x. f k = f x) xs"
  using sort_key_stable [of f "f k" xs] by (simp add: eq_commute [of "f k"])

lemma sort_key_sorted_prefix: "sort_key f (sort_key f xs @ ys) = sort_key f (xs @ ys)"
  by (rule properties_for_sort_key [symmetric]) (simp_all only: stable_filter filter_append mset_append mset_sort sorted_sort_key)

lemma take_sort_key:
  "take n (sort_key f (take n (sort_key f xs) @ ys)) = take n (sort_key f (xs @ ys))"
proof (cases "n \<le> length xs")
  case True
  let ?S = "sort_key f xs"
  have "take n (sort_key f (xs @ ys)) = take n (sort_key f (take n ?S @ drop n ?S @ ys))"
    by (metis append.assoc append_take_drop_id sort_key_sorted_prefix)
  also have "\<dots> = take n (sort_key f (take n ?S @ ys))"
    using take_sort_key_drop [of f "take n ?S" "drop n ?S" ys] True by simp
  finally show ?thesis by simp
next
  case False
  then show ?thesis by (simp add: sort_key_sorted_prefix)
qed

subsection \<open>The budget\<close>

definition page_bytes :: "(log_entry \<Rightarrow> nat) \<Rightarrow> log_entry list \<Rightarrow> nat" where
  "page_bytes esize es = sum_list (map (\<lambda>e. esize e + 1) es)"

lemma fit_budget_fits: "used + page_bytes esize es \<le> budget \<Longrightarrow> fit_budget esize budget used es = (es, False)"
  by (induction es arbitrary: used) (auto simp: page_bytes_def Let_def)

lemma fit_budget_prefix:
  assumes "fit_budget esize budget used es = (fit, short)" and "used \<le> budget"
  shows "used + page_bytes esize fit \<le> budget \<and> (\<exists>rest. es = fit @ rest \<and> (short \<longleftrightarrow> rest \<noteq> []))"
  using assms
proof (induction es arbitrary: used fit short)
  case (Cons e es)
  show ?case
  proof (cases "budget < used + esize e + 1")
    case True
    with Cons.prems show ?thesis by (auto simp: page_bytes_def Let_def)
  next
    case False
    obtain fit1 short1 where r: "fit_budget esize budget (used + esize e + 1) es = (fit1, short1)" by (metis surj_pair)
    from Cons.IH [OF r] False Cons.prems r show ?thesis by (auto simp: page_bytes_def Let_def)
  qed
qed (simp add: page_bytes_def)

lemma bound_entries_sound:
  assumes "bound_entries esize budget asked (es, t) = (es1, t1)"
  shows "\<exists>rest. es = es1 @ rest \<and> (t1 \<longleftrightarrow> t \<or> rest \<noteq> []) \<and> length es1 \<le> entry_limit asked
    \<and> page_bytes esize es1 \<le> budget"
proof -
  let ?es = "take (entry_limit asked) es"
  obtain fit short where f: "fit_budget esize budget 0 ?es = (fit, short)" by (metis surj_pair)
  have "(if entry_limit asked < length es then take (entry_limit asked) es else es) = ?es" by simp
  with assms f have eq: "es1 = fit" "t1 \<longleftrightarrow> t \<or> entry_limit asked < length es \<or> short"
    by (auto simp: bound_entries_def Let_def split: if_splits prod.splits)
  from fit_budget_prefix [OF f] obtain rest where rest: "?es = fit @ rest" "short \<longleftrightarrow> rest \<noteq> []"
    "page_bytes esize fit \<le> budget" by auto
  have "length fit \<le> entry_limit asked" using rest(1) by (metis length_append length_take min.bounded_iff le_add1 min.cobounded2 order_trans)
  moreover have "es = fit @ (rest @ drop (entry_limit asked) es)"
    using rest(1) by (metis append.assoc append_take_drop_id)
  moreover have "rest @ drop (entry_limit asked) es \<noteq> [] \<longleftrightarrow> entry_limit asked < length es \<or> short"
    using rest(2) by auto
  ultimately show ?thesis using eq rest(3) by blast
qed

lemma bound_entries_fits:
  assumes "page_bytes esize (take (entry_limit asked) es) \<le> budget"
  shows "bound_entries esize budget asked (es, t) = (take (entry_limit asked) es, t \<or> entry_limit asked < length es)"
proof -
  have "(if entry_limit asked < length es then take (entry_limit asked) es else es) = take (entry_limit asked) es" by simp
  then show ?thesis
    using fit_budget_fits [of 0 esize "take (entry_limit asked) es" budget] assms
    by (simp add: bound_entries_def Let_def)
qed

lemma page_bytes_mset: "mset xs \<subseteq># mset ys \<Longrightarrow> page_bytes esize xs \<le> page_bytes esize ys"
proof -
  assume "mset xs \<subseteq># mset ys"
  then obtain R where "mset ys = mset xs + R" by (auto simp: mset_subset_eq_exists_conv)
  then have "sum_mset (image_mset (\<lambda>e. esize e + 1) (mset ys))
      = sum_mset (image_mset (\<lambda>e. esize e + 1) (mset xs)) + sum_mset (image_mset (\<lambda>e. esize e + 1) R)" by simp
  moreover have "page_bytes esize zs = sum_mset (image_mset (\<lambda>e. esize e + 1) (mset zs))" for zs
    by (simp add: page_bytes_def flip: sum_mset_sum_list)
  ultimately show ?thesis by simp
qed

subsection \<open>What a page holds\<close>

definition read_entries :: "log_result \<Rightarrow> log_entry list" where
  "read_entries r = (case lr_read r of None \<Rightarrow> [] | Some (es, t) \<Rightarrow> es)"

definition read_truncated :: "log_result \<Rightarrow> bool" where
  "read_truncated r = (case lr_read r of None \<Rightarrow> False | Some (es, t) \<Rightarrow> t)"

definition all_entries :: "log_result list \<Rightarrow> log_entry list" where
  "all_entries rs = concat (map read_entries rs)"

definition page_ok :: "(log_entry \<Rightarrow> nat) \<Rightarrow> nat \<Rightarrow> bool \<Rightarrow> int \<Rightarrow> log_result list \<Rightarrow> log_page \<Rightarrow> bool" where
  "page_ok esize budget forward asked rs p \<longleftrightarrow>
     sorted (map (entry_key forward) (lp_entries p)) \<and> length (lp_entries p) \<le> entry_limit asked
     \<and> page_bytes esize (lp_entries p) \<le> budget \<and> mset (lp_entries p) \<subseteq># mset (all_entries rs)
     \<and> (lp_truncated p \<or> mset (lp_entries p) = mset (all_entries rs))
     \<and> lp_successful p + lp_failed p = length rs"

lemma first_page_ok: "page_ok esize budget forward asked [] (first_page n warnings)"
  by (simp add: page_ok_def first_page_def all_entries_def page_bytes_def)

lemma resorted_ok:
  assumes ok: "page_ok esize budget forward asked rs p" and es: "es = [] \<or> (es, t) = the (lr_read r)"
    and bound: "bound_entries esize budget asked (sort_entries forward (lp_entries p @ es), lp_truncated p \<or> t) = (es1, t1)"
  shows "sorted (map (entry_key forward) es1) \<and> length es1 \<le> entry_limit asked \<and> page_bytes esize es1 \<le> budget
    \<and> mset es1 \<subseteq># mset (all_entries rs) + mset es \<and> (t1 \<or> mset es1 = mset (all_entries rs) + mset es)"
proof -
  from bound_entries_sound [OF bound] obtain rest where
    rest: "sort_entries forward (lp_entries p @ es) = es1 @ rest" "t1 \<longleftrightarrow> (lp_truncated p \<or> t) \<or> rest \<noteq> []"
      "length es1 \<le> entry_limit asked" "page_bytes esize es1 \<le> budget" by blast
  have "sorted (map (entry_key forward) (es1 @ rest))" unfolding rest(1) [symmetric] by (simp add: sort_entries_def)
  then have "sorted (map (entry_key forward) es1)" by (simp add: sorted_append)
  moreover have m: "mset es1 + mset rest = mset (lp_entries p) + mset es"
    using arg_cong [OF rest(1), of mset] by (simp add: sort_entries_def)
  then have "mset es1 \<subseteq># mset (lp_entries p) + mset es" by (metis mset_subset_eq_add_left)
  moreover have "mset (lp_entries p) + mset es \<subseteq># mset (all_entries rs) + mset es"
    using ok by (simp add: page_ok_def)
  ultimately show ?thesis using rest ok m by (auto simp: page_ok_def intro: subset_mset.order_trans)
qed

lemma add_result_ok:
  assumes ok: "page_ok esize budget forward asked rs p"
  shows "page_ok esize budget forward asked (rs @ [r]) (add_result esize budget forward asked p r)"
proof (cases "lr_read r")
  case None
  with ok show ?thesis by (simp add: page_ok_def add_result_def all_entries_def read_entries_def)
next
  case (Some x)
  obtain es t where x: "x = (es, t)" by (cases x)
  obtain es1 t1 where b: "bound_entries esize budget asked
      (sort_entries forward (lp_entries p @ es), lp_truncated p \<or> t) = (es1, t1)" by (metis surj_pair)
  from resorted_ok [OF ok _ b, of r] ok Some x b show ?thesis
    by (auto simp: page_ok_def add_result_def all_entries_def read_entries_def)
qed

lemma foldl_ok:
  "page_ok esize budget forward asked rs0 p \<Longrightarrow>
   page_ok esize budget forward asked (rs0 @ rs) (foldl (add_result esize budget forward asked) p rs)"
proof (induction rs arbitrary: rs0 p)
  case (Cons r rs)
  from Cons.IH [OF add_result_ok [OF Cons.prems]] show ?case by simp
qed simp

lemma finish_ok:
  assumes ok: "page_ok esize budget forward asked rs p"
  shows "page_ok esize budget forward asked rs (finish_page esize budget forward asked p)"
proof -
  obtain es1 t1 where b: "bound_entries esize budget asked
      (sort_entries forward (lp_entries p @ []), lp_truncated p \<or> False) = (es1, t1)" by (metis surj_pair)
  from resorted_ok [OF ok _ b] ok b show ?thesis by (auto simp: page_ok_def finish_page_def)
qed

lemma merge_ok: "page_ok esize budget forward asked rs (merge_results esize budget forward asked warnings rs)"
  using finish_ok [OF foldl_ok [OF first_page_ok, where rs = rs]] first_page_ok by (simp add: merge_results_def)

lemma entry_limit_max: "entry_limit asked \<le> 5000"
  by (auto simp: entry_limit_def)

text \<open>C37: whatever the sources return and in whatever order, the page is sorted in the asked direction, within
  the asked limit (at most 5000) and the byte budget, made of entries that were read, and complete unless it
  says that it is truncated; every source counts as successful or failed.\<close>

theorem log_page_sound:
  "let p = merge_results esize budget forward asked warnings rs in
   sorted (map (entry_key forward) (lp_entries p)) \<and> length (lp_entries p) \<le> entry_limit asked \<and> entry_limit asked \<le> 5000
   \<and> page_bytes esize (lp_entries p) \<le> budget \<and> mset (lp_entries p) \<subseteq># mset (all_entries rs)
   \<and> (lp_truncated p \<or> mset (lp_entries p) = mset (all_entries rs)) \<and> lp_successful p + lp_failed p = length rs"
  using merge_ok [of esize budget forward asked rs warnings] entry_limit_max [of asked]
  by (simp add: Let_def page_ok_def)

subsection \<open>The order of arrival\<close>

lemma take_sort_again:
  "take n (sort_key f (take n (sort_key f xs))) = take n (sort_key f xs)"
  using take_sort_key [of n f xs "[]"] by simp

lemma add_result_fits:
  assumes fits: "page_bytes esize (all_entries (rs @ [r])) \<le> budget"
    and p: "lp_entries p = take (entry_limit asked) (sort_entries forward (all_entries rs))"
    and t: "lp_truncated p \<longleftrightarrow> (\<exists>x \<in> set rs. read_truncated x) \<or> entry_limit asked < length (all_entries rs)"
  shows "lp_entries (add_result esize budget forward asked p r)
      = take (entry_limit asked) (sort_entries forward (all_entries (rs @ [r])))
    \<and> (lp_truncated (add_result esize budget forward asked p r) \<longleftrightarrow>
         (\<exists>x \<in> set (rs @ [r]). read_truncated x) \<or> entry_limit asked < length (all_entries (rs @ [r])))"
proof (cases "lr_read r")
  case None
  with p t show ?thesis by (simp add: add_result_def all_entries_def read_entries_def read_truncated_def)
next
  case (Some x)
  obtain es b where x: "x = (es, b)" by (cases x)
  let ?n = "entry_limit asked" and ?f = "entry_key forward"
  let ?all = "all_entries rs"
  have all: "all_entries (rs @ [r]) = ?all @ es" by (simp add: all_entries_def read_entries_def Some x)
  let ?S = "sort_entries forward (lp_entries p @ es)"
  have top: "take ?n ?S = take ?n (sort_entries forward (?all @ es))"
    using take_sort_key [of ?n ?f ?all es] by (simp add: p sort_entries_def)
  have "mset (take ?n ?S) \<subseteq># mset (?all @ es)"
    unfolding top by (metis mset_sort sort_entries_def mset_subset_eq_add_left append_take_drop_id mset_append)
  from page_bytes_mset [OF this] fits all have "page_bytes esize (take ?n ?S) \<le> budget" by (metis order_trans)
  from bound_entries_fits [OF this, of "lp_truncated p \<or> b"]
  have step: "lp_entries (add_result esize budget forward asked p r) = take ?n ?S"
    "lp_truncated (add_result esize budget forward asked p r) \<longleftrightarrow> (lp_truncated p \<or> b) \<or> ?n < length ?S"
    by (simp_all add: add_result_def Some x)
  have "(lp_truncated p \<or> b) \<or> ?n < length ?S
      \<longleftrightarrow> (\<exists>x \<in> set (rs @ [r]). read_truncated x) \<or> ?n < length (all_entries (rs @ [r]))"
    using t p by (auto simp: read_truncated_def Some x all sort_entries_def)
  with step top all show ?thesis by simp
qed

lemma page_bytes_append: "page_bytes esize (xs @ ys) = page_bytes esize xs + page_bytes esize ys"
  by (simp add: page_bytes_def)

lemma foldl_fits:
  assumes "page_bytes esize (all_entries rs) \<le> budget"
  shows "lp_entries (foldl (add_result esize budget forward asked) (first_page n warnings) rs)
      = take (entry_limit asked) (sort_entries forward (all_entries rs))
    \<and> (lp_truncated (foldl (add_result esize budget forward asked) (first_page n warnings) rs) \<longleftrightarrow>
         (\<exists>x \<in> set rs. read_truncated x) \<or> entry_limit asked < length (all_entries rs))"
  using assms
proof (induction rs rule: rev_induct)
  case (snoc r rs)
  have "page_bytes esize (all_entries rs) \<le> budget"
    using snoc.prems by (simp add: all_entries_def page_bytes_append)
  from snoc.IH [OF this] add_result_fits [OF snoc.prems] show ?case by simp
qed (simp add: first_page_def all_entries_def sort_entries_def)

lemma merge_fits:
  assumes "page_bytes esize (all_entries rs) \<le> budget"
  shows "lp_entries (merge_results esize budget forward asked warnings rs)
      = take (entry_limit asked) (sort_entries forward (all_entries rs))
    \<and> (lp_truncated (merge_results esize budget forward asked warnings rs) \<longleftrightarrow>
         (\<exists>x \<in> set rs. read_truncated x) \<or> entry_limit asked < length (all_entries rs))"
proof (cases "rs = []")
  case True
  then show ?thesis by (simp add: merge_results_def first_page_def all_entries_def sort_entries_def)
next
  case False
  let ?p = "foldl (add_result esize budget forward asked) (first_page (length rs) warnings) rs"
  let ?n = "entry_limit asked"
  note p = foldl_fits [OF assms, of forward asked "length rs" warnings]
  let ?S = "sort_entries forward (lp_entries ?p)"
  have top: "take ?n ?S = take ?n (sort_entries forward (all_entries rs))"
    using take_sort_again [of ?n "entry_key forward" "all_entries rs"] p by (simp add: sort_entries_def)
  have "mset (take ?n ?S) \<subseteq># mset (all_entries rs)"
    unfolding top by (metis mset_sort sort_entries_def mset_subset_eq_add_left append_take_drop_id mset_append)
  from page_bytes_mset [OF this] assms have "page_bytes esize (take ?n ?S) \<le> budget" by (metis order_trans)
  from bound_entries_fits [OF this, of "lp_truncated ?p"] False
  have "lp_entries (merge_results esize budget forward asked warnings rs) = take ?n ?S"
    "lp_truncated (merge_results esize budget forward asked warnings rs) \<longleftrightarrow> lp_truncated ?p \<or> ?n < length ?S"
    by (simp_all add: merge_results_def finish_page_def)
  moreover have "lp_truncated ?p \<or> ?n < length ?S \<longleftrightarrow> lp_truncated ?p"
    using p by (auto simp: sort_entries_def)
  ultimately show ?thesis using top p by simp
qed

lemma mset_short_eq:
  assumes "mset xs = mset ys" and "length xs \<le> 1"
  shows "xs = ys"
proof (cases xs)
  case Nil
  with assms show ?thesis by simp
next
  case (Cons x xs')
  with assms(2) have "xs = [x]" by simp
  with assms(1) show ?thesis by (metis mset_single_iff mset.simps(1) mset.simps(2))
qed

lemma concat_nonempty: "concat (filter (\<lambda>xs. xs \<noteq> []) xss) = concat xss"
  by (induction xss) auto

lemma concat_one_nonempty:
  assumes "mset xss = mset yss" and short: "length (filter (\<lambda>xs. xs \<noteq> []) xss) \<le> 1"
  shows "concat xss = concat yss"
proof -
  have "mset (filter (\<lambda>xs. xs \<noteq> []) xss) = mset (filter (\<lambda>xs. xs \<noteq> []) yss)" using assms(1) by simp
  from mset_short_eq [OF this short] have "concat (filter (\<lambda>xs. xs \<noteq> []) xss) = concat (filter (\<lambda>xs. xs \<noteq> []) yss)" by simp
  then show ?thesis by (simp only: concat_nonempty)
qed

text \<open>What tells the sources of a query apart, and what the cluster guarantees of its names: namespace, pod and container
  identify a source, hold no zero byte, and every entry carries the source it was read from. Entries may have
  equal times and equal messages, within a source and across sources.\<close>

definition sources_apart :: "log_result list \<Rightarrow> bool" where
  "sources_apart rs \<longleftrightarrow>
     distinct (map (\<lambda>r. (so_namespace (lr_source r), so_pod (lr_source r), so_container (lr_source r))) rs)
     \<and> (\<forall>r \<in> set rs. CHR 0x00 \<notin> set (so_namespace (lr_source r)) \<union> set (so_pod (lr_source r)) \<union> set (so_container (lr_source r))
          \<and> (\<forall>e \<in> set (read_entries r). le_source e = lr_source r))"

text \<open>No two results have entries of the same key.\<close>

definition keys_apart :: "bool \<Rightarrow> log_result list \<Rightarrow> bool" where
  "keys_apart forward rs \<longleftrightarrow>
     (\<forall>k. length (filter (\<lambda>r. \<exists>e \<in> set (read_entries r). entry_key forward e = k) rs) \<le> 1)"

lemma keys_apart_distinct:
  assumes "distinct rs" and "\<forall>r \<in> set rs. \<forall>r' \<in> set rs. r \<noteq> r' \<longrightarrow>
    (\<forall>e \<in> set (read_entries r). \<forall>e' \<in> set (read_entries r'). entry_key forward e \<noteq> entry_key forward e')"
  shows "keys_apart forward rs"
  unfolding keys_apart_def
proof
  fix k
  let ?F = "filter (\<lambda>r. \<exists>e \<in> set (read_entries r). entry_key forward e = k) rs"
  have "x = y" if "x \<in> set ?F" "y \<in> set ?F" for x y using that assms(2) by fastforce
  moreover have "distinct ?F" using assms(1) by simp
  ultimately have "card (set ?F) \<le> 1" unfolding One_nat_def by (subst card_le_Suc0_iff_eq) (rule finite_set, blast)
  with distinct_card [OF \<open>distinct ?F\<close>] show "length ?F \<le> 1" by metis
qed

lemma zero_split:
  "a @ z # b = c @ z # d \<Longrightarrow> z \<notin> set a \<Longrightarrow> z \<notin> set c \<Longrightarrow> a = c \<and> b = d"
  by (induction a arbitrary: c) (auto simp: Cons_eq_append_conv)

lemma entry_key_source:
  assumes "entry_key forward e = entry_key forward e'"
    and "CHR 0x00 \<notin> set (so_namespace (le_source e)) \<union> set (so_pod (le_source e)) \<union> set (so_container (le_source e))"
    and "CHR 0x00 \<notin> set (so_namespace (le_source e')) \<union> set (so_pod (le_source e')) \<union> set (so_container (le_source e'))"
  shows "so_namespace (le_source e) = so_namespace (le_source e') \<and> so_pod (le_source e) = so_pod (le_source e')
    \<and> so_container (le_source e) = so_container (le_source e')"
  using assms by (auto simp: entry_key_def dest!: zero_split)

lemma sources_keys_apart:
  assumes "sources_apart rs"
  shows "keys_apart forward rs"
proof (rule keys_apart_distinct)
  show "distinct rs" using assms distinct_map by (auto simp: sources_apart_def)
  show "\<forall>r \<in> set rs. \<forall>r' \<in> set rs. r \<noteq> r' \<longrightarrow>
    (\<forall>e \<in> set (read_entries r). \<forall>e' \<in> set (read_entries r'). entry_key forward e \<noteq> entry_key forward e')"
  proof (intro ballI impI notI)
    fix r r' e e' assume r: "r \<in> set rs" "r' \<in> set rs" "r \<noteq> r'"
      and e: "e \<in> set (read_entries r)" "e' \<in> set (read_entries r')" "entry_key forward e = entry_key forward e'"
    have src: "le_source e = lr_source r" "le_source e' = lr_source r'" using assms r e by (auto simp: sources_apart_def)
    have "so_namespace (le_source e) = so_namespace (le_source e') \<and> so_pod (le_source e) = so_pod (le_source e')
        \<and> so_container (le_source e) = so_container (le_source e')"
      by (rule entry_key_source [OF e(3)]) (use assms r src in \<open>auto simp: sources_apart_def\<close>)
    moreover have "inj_on (\<lambda>r. (so_namespace (lr_source r), so_pod (lr_source r), so_container (lr_source r))) (set rs)"
      using assms by (simp add: sources_apart_def distinct_map)
    ultimately show False using r unfolding src by (auto dest: inj_onD)
  qed
qed

lemma sort_entries_permuted:
  assumes perm: "mset rs = mset rs'" and apart: "keys_apart forward rs"
  shows "sort_entries forward (all_entries rs) = sort_entries forward (all_entries rs')"
  unfolding sort_entries_def
proof (rule properties_for_sort_key)
  have "mset (all_entries xs) = sum_mset (image_mset (mset \<circ> read_entries) (mset xs))" for xs
    by (induction xs) (simp_all add: all_entries_def)
  with perm show "mset (sort_key (entry_key forward) (all_entries rs')) = mset (all_entries rs)" by simp
next
  fix k
  let ?P = "\<lambda>e. entry_key forward k = entry_key forward e"
  let ?g = "\<lambda>r. filter ?P (read_entries r)"
  have flt: "filter ?P (all_entries xs) = concat (map ?g xs)" for xs
    by (induction xs) (simp_all add: all_entries_def)
  have "length (filter (\<lambda>xs. xs \<noteq> []) (map ?g rs)) = length (filter (\<lambda>r. \<exists>e \<in> set (read_entries r). entry_key forward e = entry_key forward k) rs)"
    by (simp add: filter_map o_def filter_empty_conv) (metis (no_types, lifting))
  also have "\<dots> \<le> 1" using apart unfolding keys_apart_def by (rule spec)
  finally have "concat (map ?g rs) = concat (map ?g rs')"
    by (intro concat_one_nonempty) (simp_all add: perm)
  then show "filter ?P (sort_key (entry_key forward) (all_entries rs')) = filter ?P (all_entries rs)"
    by (simp only: stable_filter flt)
qed simp

text \<open>C36: as long as everything that was read fits the byte budget, the page does not depend on the order in
  which the sources answer, also where entries of several sources have the same time and message: it is the first
  part, as long as the limit, of all entries in order. The sources differ in namespace, pod or container, whose names
  hold no zero byte, and every entry carries its source.\<close>

theorem log_page_order_independent:
  assumes "mset rs = mset rs'" and "sources_apart rs" and "page_bytes esize (all_entries rs) \<le> budget"
  shows "lp_entries (merge_results esize budget forward asked warnings rs)
      = take (entry_limit asked) (sort_entries forward (all_entries rs))
    \<and> lp_entries (merge_results esize budget forward asked warnings rs')
      = lp_entries (merge_results esize budget forward asked warnings rs)
    \<and> lp_truncated (merge_results esize budget forward asked warnings rs')
      = lp_truncated (merge_results esize budget forward asked warnings rs)"
proof -
  have m: "mset (all_entries xs) = sum_mset (image_mset (mset \<circ> read_entries) (mset xs))" for xs
    by (induction xs) (simp_all add: all_entries_def)
  have all: "mset (all_entries rs') = mset (all_entries rs)" unfolding m assms(1) ..
  then have fits': "page_bytes esize (all_entries rs') \<le> budget"
    using page_bytes_mset [of "all_entries rs'" "all_entries rs" esize] assms(3) by simp
  have "length (all_entries rs') = length (all_entries rs)" using all by (metis size_mset)
  moreover have "set rs' = set rs" using assms(1) by (metis set_mset_mset)
  ultimately show ?thesis
    using merge_fits [OF assms(3), of forward asked warnings] merge_fits [OF fits', of forward asked warnings]
      sort_entries_permuted [OF assms(1) sources_keys_apart [OF assms(2)]] by simp
qed

definition plain_source :: "string \<Rightarrow> log_source" where
  "plain_source pod = \<lparr>so_cluster = ''c'', so_namespace = ''n'', so_pod = pod, so_uid = [], so_container = ''app'',
     so_kind = [], so_name = []\<rparr>"

definition plain_result :: "string \<Rightarrow> gotime list \<Rightarrow> log_result" where
  "plain_result pod ts = \<lparr>lr_source = plain_source pod,
     lr_read = Some (map (\<lambda>t. \<lparr>le_time = t, le_observed = 99, le_message = ''m'', le_source = plain_source pod\<rparr>) ts, False)\<rparr>"

lemma log_page_order_independent_witness:
  "lp_entries (merge_results (\<lambda>e. 300) 2000 True 2 [] [plain_result ''b'' [1, 3], plain_result ''a'' [1]])
    = lp_entries (merge_results (\<lambda>e. 300) 2000 True 2 [] [plain_result ''a'' [1], plain_result ''b'' [1, 3]])"
proof -
  have "sources_apart [plain_result ''a'' [1], plain_result ''b'' [1, 3]]"
    by (auto simp: sources_apart_def plain_result_def plain_source_def read_entries_def)
  moreover have "page_bytes (\<lambda>e. 300) (all_entries [plain_result ''a'' [1], plain_result ''b'' [1, 3]]) \<le> 2000"
    by (simp add: plain_result_def all_entries_def read_entries_def page_bytes_def)
  ultimately show ?thesis
    using log_page_order_independent [of "[plain_result ''a'' [1], plain_result ''b'' [1, 3]]"
      "[plain_result ''b'' [1, 3], plain_result ''a'' [1]]" "\<lambda>e. 300" 2000 True 2 "[]"] by simp
qed

text \<open>Beyond the budget the page depends on the order: an entry that once did not fit is not read again, and an
  older, smaller one that arrives later takes its place.\<close>

abbreviation (input) sizes :: "log_entry \<Rightarrow> nat" where
  "sizes \<equiv> \<lambda>e. if le_time e = 12 then 100000 else if le_time e = 11 then 200 else 1000000"

lemma entry_limit_0 [simp]: "entry_limit 0 = 5000"
  by (simp add: entry_limit_def)

text \<open>The order in which the sources answer can decide which entries a page shows, and a page can show an
  entry while it lacks a newer one.\<close>

theorem log_page_order_dependent:
  "\<exists>esize rs rs' old new. mset rs = mset rs' \<and> sources_apart rs
    \<and> old \<in> set (lp_entries (merge_results esize byte_budget False 0 [] rs))
    \<and> new \<in> set (all_entries rs) \<and> le_time old < le_time new
    \<and> new \<notin> set (lp_entries (merge_results esize byte_budget False 0 [] rs))
    \<and> old \<notin> set (lp_entries (merge_results esize byte_budget False 0 [] rs'))"
proof -
  let ?a = "plain_result ''a'' [20, 19]" and ?b = "plain_result ''b'' [12]" and ?c = "plain_result ''c'' [11]"
  let ?e = "\<lambda>p t. \<lparr>le_time = t, le_observed = 99, le_message = ''m'', le_source = plain_source p\<rparr>"
  note defs = merge_results_def finish_page_def first_page_def add_result_def plain_result_def bound_entries_def
    sort_entries_def entry_key_def plain_source_def byte_budget_def less_prod_def' less_eq_prod_def
  have apart: "sources_apart [?a, ?b, ?c]"
    by (auto simp: sources_apart_def plain_result_def plain_source_def read_entries_def)
  have 1: "lp_entries (merge_results sizes byte_budget False 0 [] [?a, ?b, ?c]) = [?e ''a'' 20, ?e ''a'' 19, ?e ''c'' 11]"
    by (simp add: defs)
  have 2: "lp_entries (merge_results sizes byte_budget False 0 [] [?c, ?a, ?b]) = [?e ''a'' 20, ?e ''a'' 19]"
    by (simp add: defs)
  have new: "?e ''b'' 12 \<in> set (all_entries [?a, ?b, ?c])"
    by (simp add: all_entries_def read_entries_def plain_result_def)
  show ?thesis
    by (intro exI [of _ sizes] exI [of _ "[?a, ?b, ?c]"] exI [of _ "[?c, ?a, ?b]"] exI [of _ "?e ''c'' 11"]
          exI [of _ "?e ''b'' 12"] conjI apart new) (simp_all only: 1 2, simp_all)
qed

subsection \<open>Following the logs\<close>

text \<open>\<^verbatim>\<open>aggregatePodLogOptions\<close>: the tail (none is the whole log), the window and the previous container.\<close>

record stream_options =
  st_container :: string
  st_follow :: bool
  st_previous :: bool
  st_tail :: "int option"
  st_since :: "int option"
  st_from :: "gotime option"

definition pod_log_options :: "log_query \<Rightarrow> string \<Rightarrow> bool \<Rightarrow> stream_options" where
  "pod_log_options q c follow =
     (let tail = (if lq_tail q \<le> 0 \<and> (follow \<or> lq_from q = None) then 200 else lq_tail q);
          since = (case lq_options q of None \<Rightarrow> None | Some x \<Rightarrow> if 0 < lo_since x then Some (lo_since x) else None)
      in \<lparr>st_container = c, st_follow = follow,
          st_previous = (case lq_options q of None \<Rightarrow> False | Some x \<Rightarrow> lo_previous x),
          st_tail = (if 0 < tail then Some tail else None), st_since = since,
          st_from = (if since = None then lq_from q else None)\<rparr>)"

datatype log_event = StatusEvent string | SourceError | EntryEvent log_entry | Heartbeat | EndEvent

text \<open>\<^verbatim>\<open>streamAggregateLogSource\<close>: the events of one source as far as they are taken, which a Boolean per
  event says; the lines are those of the scanner, and the stream may not open or may break off.\<close>

fun take_events :: "bool list \<Rightarrow> log_event list \<Rightarrow> log_event list" where
  "take_events (True # ts) (e # es) = e # take_events ts es"
| "take_events ts es = []"

definition source_events ::
  "(string \<Rightarrow> gotime option) \<Rightarrow> (nat \<Rightarrow> gotime) \<Rightarrow> log_query \<Rightarrow> log_source \<Rightarrow> (string list \<times> bool) option \<Rightarrow> bool list \<Rightarrow>
   log_event list" where
  "source_events parse_time clock q src read taken =
     (case read of
        None \<Rightarrow> take_events taken [SourceError]
      | Some (ls, broken) \<Rightarrow>
          take_events taken (map EntryEvent (parse_lines parse_time clock 0 ls q src) @ (if broken then [SourceError] else [])))"

text \<open>\<^verbatim>\<open>StreamPodLogEvents\<close>: what the loop selects, and what it writes. The writer may fail at any event;
  the result is the list of the events it took and whether the call has returned, and how.\<close>

datatype stream_input = FromSource log_event | Tick | Drained | StreamOver

datatype stream_result = Running | Returned | WriteFailed

fun emit_all :: "bool list \<Rightarrow> log_event list \<Rightarrow> log_event list \<times> bool list \<times> bool" where
  "emit_all ok [] = ([], ok, True)"
| "emit_all [] (e # es) = ([], [], False)"
| "emit_all (ok # oks) (e # es) =
     (if ok then (case emit_all oks es of (out, rest, good) \<Rightarrow> (e # out, rest, good)) else ([], oks, False))"

fun stream_loop :: "bool list \<Rightarrow> stream_input list \<Rightarrow> log_event list \<times> stream_result" where
  "stream_loop ok [] = ([], Running)"
| "stream_loop ok (i # is) =
     (let event = (case i of FromSource e \<Rightarrow> e | Tick \<Rightarrow> Heartbeat | Drained \<Rightarrow> EndEvent | StreamOver \<Rightarrow> EndEvent) in
      case emit_all ok [event] of
        (out, rest, good) \<Rightarrow>
          if \<not> good then (out, WriteFailed)
          else if i = Drained \<or> i = StreamOver then (out, Returned)
          else (case stream_loop rest is of (later, r) \<Rightarrow> (out @ later, r)))"

definition stream_events ::
  "nat \<Rightarrow> nat \<Rightarrow> bool list \<Rightarrow> stream_input list \<Rightarrow> log_event list \<times> stream_result" where
  "stream_events warnings sources ok inputs =
     (case emit_all ok (StatusEvent (if 0 < warnings then ''degraded'' else ''live'') # replicate warnings SourceError
        @ (if sources = 0 then [EndEvent] else [])) of
        (out, rest, good) \<Rightarrow>
          if \<not> good then (out, WriteFailed)
          else if sources = 0 then (out, Returned)
          else (case stream_loop rest inputs of (later, r) \<Rightarrow> (out @ later, r)))"

text \<open>\<^verbatim>\<open>StreamPodLogEvents\<close> with the resolution of its sources, at most 20.\<close>

definition stream_pod_log_events ::
  "log_names \<Rightarrow> (string \<Rightarrow> string option) \<Rightarrow> log_cluster \<Rightarrow> string \<Rightarrow> log_query \<Rightarrow> bool list \<Rightarrow>
   (log_source list \<Rightarrow> stream_input list) \<Rightarrow> log_error + log_event list \<times> stream_result" where
  "stream_pod_log_events n parse_labels k cluster q ok arrive =
     (case resolve_sources n parse_labels k cluster q 20 of
        Inl e \<Rightarrow> Inl e
      | Inr (sources, warnings) \<Rightarrow> Inr (stream_events (length warnings) (length sources) ok (arrive sources)))"

lemma emit_all_spec:
  "emit_all ok es = (out, rest, good) \<Longrightarrow> (good \<longrightarrow> out = es) \<and> (\<exists>n. out = take n es) \<and> (\<not> good \<longrightarrow> length out < length es)"
proof (induction ok es arbitrary: out rest good rule: emit_all.induct)
  case (3 ok oks e es)
  obtain o1 r1 g1 where r: "emit_all oks es = (o1, r1, g1)" by (metis prod_cases3)
  show ?case
  proof (cases ok)
    case True
    from "3.IH" [OF True r] obtain n where "o1 = take n es" "g1 \<longrightarrow> o1 = es" "\<not> g1 \<longrightarrow> length o1 < length es" by auto
    with True r "3.prems" show ?thesis by (auto intro: exI [of _ "Suc n"])
  next
    case False
    with "3.prems" show ?thesis by (auto intro: exI [of _ 0])
  qed
qed (auto intro: exI [of _ 0])

fun quiet :: "stream_input \<Rightarrow> bool" where
  "quiet (FromSource EndEvent) = False"
| "quiet i = True"

lemma stream_loop_end:
  assumes "list_all quiet inputs" and "stream_loop ok inputs = (out, r)"
  shows "(r = Returned \<longrightarrow> (\<exists>es. out = es @ [EndEvent] \<and> EndEvent \<notin> set es)) \<and> (r \<noteq> Returned \<longrightarrow> EndEvent \<notin> set out)"
  using assms
proof (induction inputs arbitrary: ok out r)
  case (Cons i "is")
  let ?e = "case i of FromSource e \<Rightarrow> e | Tick \<Rightarrow> Heartbeat | Drained \<Rightarrow> EndEvent | StreamOver \<Rightarrow> EndEvent"
  obtain o1 r1 g1 where e: "emit_all ok [?e] = (o1, r1, g1)" by (metis prod_cases3)
  obtain o2 r2 where l: "stream_loop r1 is = (o2, r2)" by (metis surj_pair)
  have good: "g1 \<Longrightarrow> o1 = [?e]" and bad: "\<not> g1 \<Longrightarrow> o1 = []" using emit_all_spec [OF e] by auto
  have notend: "?e = EndEvent \<longleftrightarrow> i = Drained \<or> i = StreamOver" using Cons.prems(1) by (cases i rule: quiet.cases) auto
  show ?case
  proof (cases "g1 \<and> \<not> (i = Drained \<or> i = StreamOver)")
    case True
    from Cons.IH [OF _ l] Cons.prems
    have "(r2 = Returned \<longrightarrow> (\<exists>es. o2 = es @ [EndEvent] \<and> EndEvent \<notin> set es)) \<and> (r2 \<noteq> Returned \<longrightarrow> EndEvent \<notin> set o2)"
      by simp
    moreover from True e l Cons.prems(2) good have "out = ?e # o2" "r = r2" by (auto simp: Let_def)
    ultimately show ?thesis using True notend by (metis append_Cons set_ConsD)
  next
    case False
    with e Cons.prems(2) good bad notend show ?thesis by (cases g1) (auto simp: Let_def)
  qed
qed simp

text \<open>A stream of logs starts with its state and one error per source that is missing, and its end is
  written once, as the last event, exactly when the call returns without a failure of the writer; it resolves at
  most 20 sources.\<close>

theorem log_stream_shape:
  assumes "stream_events warnings sources ok inputs = (out, r)" and "list_all quiet inputs" and "r = Returned"
  shows "\<exists>es. out = StatusEvent (if 0 < warnings then ''degraded'' else ''live'') # replicate warnings SourceError
      @ es @ [EndEvent] \<and> EndEvent \<notin> set es"
proof -
  let ?start = "StatusEvent (if 0 < warnings then ''degraded'' else ''live'') # replicate warnings SourceError"
  obtain o1 r1 g1 where e: "emit_all ok (?start @ (if sources = 0 then [EndEvent] else [])) = (o1, r1, g1)"
    by (metis prod_cases3)
  obtain o2 r2 where l: "stream_loop r1 inputs = (o2, r2)" by (metis surj_pair)
  have good: "g1" using assms(1,3) e by (auto simp: stream_events_def split: if_splits)
  with emit_all_spec [OF e] have o1: "o1 = ?start @ (if sources = 0 then [EndEvent] else [])" by simp
  show ?thesis
  proof (cases "sources = 0")
    case True
    with assms(1) e good o1 show ?thesis by (intro exI [of _ "[]"]) (simp add: stream_events_def)
  next
    case False
    with assms(1) e good l o1 have "out = ?start @ o2" "r2 = r" by (simp_all add: stream_events_def)
    with stream_loop_end [OF assms(2) l] assms(3) show ?thesis by auto
  qed
qed

lemma log_stream_shape_witness:
  "\<exists>es. fst (stream_events 1 2 (replicate 9 True) [FromSource SourceError, Tick, Drained])
      = StatusEvent ''degraded'' # [SourceError] @ es @ [EndEvent] \<and> EndEvent \<notin> set es"
proof -
  obtain out r where s: "stream_events 1 2 (replicate 9 True) [FromSource SourceError, Tick, Drained] = (out, r)"
    by (metis surj_pair)
  have "r = Returned" using s by (simp add: stream_events_def eval_nat_numeral)
  from log_stream_shape [OF s _ this] s show ?thesis by simp
qed

lemma parse_lines_matching: "e \<in> set (parse_lines parse_time clock k ls q src) \<Longrightarrow> entry_matches e q \<and> le_source e = src"
  by (induction ls arbitrary: k) (auto simp: Let_def parse_line_def split: if_splits prod.splits option.splits)

lemma take_events_subset: "set (take_events ts es) \<subseteq> set es"
  by (induction ts es rule: take_events.induct) auto

lemma source_events_quiet: "EndEvent \<notin> set (source_events parse_time clock q src read taken)"
proof -
  have "EndEvent \<notin> set (map EntryEvent xs @ (if b then [SourceError] else []))" for xs b by auto
  then show ?thesis using take_events_subset by (fastforce simp: source_events_def split: option.splits)
qed

lemma pod_log_options_tail:
  "(st_tail (pod_log_options q c follow) = None \<longrightarrow> \<not> follow \<and> lq_from q \<noteq> None)
   \<and> (st_since (pod_log_options q c follow) = None \<or> st_from (pod_log_options q c follow) = None)"
  by (auto simp: pod_log_options_def Let_def)

end
