(* ===== verification/DockerCli.thy ===== *)
theory DockerCli
  imports EnvRuntime RunnerPayload
begin

text \<open>
  How the agent drives the Docker command line, \<^verbatim>\<open>internal/agent/environment/docker_executor.go\<close> and
  \<^verbatim>\<open>docker_volume.go\<close>: one command, a container's record, ownership of a container and of a volume.

  An operation is a function of the log of all commands so far with their results, and extends it. What Docker
  does with a command is a function of that log and the command (\<open>dk_run\<close>), so it may answer
  anything at any time, and commands that other processes interleave are part of what it does. The clock, fresh
  identifiers and the end of a context are functions of the log too. SHA-256, JSON, base64 and the text of
  instants are parameters; a JSON document that does not parse is \<^const>\<open>None\<close>. Operations compose by
  \<open>and_then\<close>, and a small Hoare logic over the log carries the safety proofs.
\<close>

named_theorems docker_wp \<open>weakest preconditions of Docker operations\<close>

subsection \<open>Commands\<close>

text \<open>What a process leaves: both outputs as far as they were kept (64 KiB each), and whether they were cut; the
  number of bytes on standard error; whether it failed.\<close>

record cli_outcome =
  co_out :: string
  co_out_cut :: bool
  co_err :: string
  co_err_cut :: bool
  co_err_bytes :: nat
  co_failed :: bool

definition output_limit :: nat where
  "output_limit = 64 * 1024"

definition cli_result :: "string list \<Rightarrow> cli_outcome \<Rightarrow> string option" where
  "cli_result args o' =
     (let exec = (args \<noteq> [] \<and> hd args = ''exec''); noisy = (0 < co_err_bytes o');
          output = (if exec \<and> noisy then co_out o' @ [CHR 0x0A] @ ''[stderr]'' @ [CHR 0x0A] @ co_err o' else co_out o');
          failed = (if exec \<and> noisy then co_failed o' else if noisy then True else co_failed o')
      in if failed \<or> co_out_cut o' \<or> co_err_cut o' \<or> output_limit < length output then None else Some output)"

type_synonym docker_log = "(string list \<times> string option) list"

record docker_record =
  dr_id :: string
  dr_labels :: "(string \<times> string) list"

record volume_record =
  vr_labels :: "(string \<times> string) list"
  vr_driver :: string
  vr_options :: "(string \<times> string) list"

record host_config =
  hc_network :: string
  hc_readonly :: bool
  hc_memory :: int
  hc_swap :: int
  hc_cpus :: int
  hc_pids :: int
  hc_drop :: "string list"
  hc_security :: "string list"

record docker_env =
  dk_run :: "docker_log \<Rightarrow> string list \<Rightarrow> cli_outcome"
  dk_now :: "docker_log \<Rightarrow> gotime"
  dk_uuid :: "docker_log \<Rightarrow> nat \<Rightarrow> string"
  dk_ended :: "docker_log \<Rightarrow> bool"
  dk_deadline :: "docker_log \<Rightarrow> gotime"
  dk_hash :: "string \<Rightarrow> string"
  dk_json :: "lease \<Rightarrow> string"
  dk_base64 :: "string \<Rightarrow> string"
  dk_lease :: "string \<Rightarrow> lease option"
  dk_record :: "string \<Rightarrow> docker_record option"
  dk_volume :: "string \<Rightarrow> volume_record option"
  dk_labels :: "string \<Rightarrow> (string \<times> string) list option"
  dk_host :: "string \<Rightarrow> host_config option"
  dk_time :: "gotime \<Rightarrow> string"
  dk_instant :: "string \<Rightarrow> gotime option"
  dk_canonical_uuid :: "string \<Rightarrow> bool"
  dk_utf8 :: "string \<Rightarrow> bool"

datatype docker_error =
    CommandFailed
  | Refused string
  | LeaseRefused lease_error
  | Joined docker_error docker_error

type_synonym 'a docker_op = "docker_log \<Rightarrow> (docker_error + 'a) \<times> docker_log"

definition give :: "'a \<Rightarrow> 'a docker_op" where
  "give x h = (Inr x, h)"

definition refuse :: "docker_error \<Rightarrow> 'a docker_op" where
  "refuse e h = (Inl e, h)"

definition and_then :: "'a docker_op \<Rightarrow> ('a \<Rightarrow> 'b docker_op) \<Rightarrow> 'b docker_op" where
  "and_then m f h = (case m h of (Inl e, h1) \<Rightarrow> (Inl e, h1) | (Inr x, h1) \<Rightarrow> f x h1)"

definition attempt :: "'a docker_op \<Rightarrow> (docker_error + 'a) docker_op" where
  "attempt m h = (case m h of (r, h1) \<Rightarrow> (Inr r, h1))"

definition settle :: "docker_error + 'a \<Rightarrow> 'a docker_op" where
  "settle r h = (r, h)"

definition require :: "bool \<Rightarrow> docker_error \<Rightarrow> unit docker_op" where
  "require b e h = (if b then Inr () else Inl e, h)"

definition read_env :: "(docker_log \<Rightarrow> 'a) \<Rightarrow> 'a docker_op" where
  "read_env f h = (Inr (f h), h)"

definition docker :: "docker_env \<Rightarrow> string list \<Rightarrow> string docker_op" where
  "docker d args h =
     (let r = cli_result args (dk_run d h args) in
      (case r of None \<Rightarrow> Inl CommandFailed | Some out \<Rightarrow> Inr out, h @ [(args, r)]))"

text \<open>\<^verbatim>\<open>errors.Join\<close> of errors that may be absent.\<close>

fun join_errors :: "docker_error option \<Rightarrow> docker_error option \<Rightarrow> docker_error option" where
  "join_errors None e = e"
| "join_errors e None = e"
| "join_errors (Some e) (Some e') = Some (Joined e e')"

definition error_of :: "docker_error + 'a \<Rightarrow> docker_error option" where
  "error_of r = (case r of Inl e \<Rightarrow> Some e | Inr x \<Rightarrow> None)"

definition or_value :: "docker_error option \<Rightarrow> 'a \<Rightarrow> docker_error + 'a" where
  "or_value e x = (case e of None \<Rightarrow> Inr x | Some e \<Rightarrow> Inl e)"

subsection \<open>Identities\<close>

abbreviation (input) env_label :: string where "env_label \<equiv> ''soha.environment''"
abbreviation (input) env_backend :: string where "env_backend \<equiv> ''personal-docker-v1''"
abbreviation (input) command_kind :: string where "command_kind \<equiv> ''personal-docker-command-v1''"
abbreviation (input) quota_kind :: string where "quota_kind \<equiv> ''personal-docker-quota-v1''"
abbreviation (input) export_kind :: string where "export_kind \<equiv> ''personal-docker-export-v1''"

definition lower_hex :: "nat \<Rightarrow> string \<Rightarrow> bool" where
  "lower_hex n s \<longleftrightarrow> length s = n \<and> list_all is_lower_hex s"

definition container_id_ok :: "string \<Rightarrow> bool" where
  "container_id_ok s \<longleftrightarrow> lower_hex 64 s"

definition scope_digest_ok :: "string \<Rightarrow> bool" where
  "scope_digest_ok s \<longleftrightarrow> has_prefix s ''sha256:'' \<and> lower_hex 64 (drop 7 s)"

definition environment_name_ok :: "string \<Rightarrow> bool" where
  "environment_name_ok s \<longleftrightarrow>
     has_prefix s ''soha-env-'' \<and> 1 \<le> length (drop 9 s) \<and> length (drop 9 s) \<le> 64
     \<and> list_all (\<lambda>c. is_lower c \<or> is_digit c \<or> c = CHR ''-'') (drop 9 s)"

text \<open>\<^verbatim>\<open>digestImagePattern\<close>: the name before the last 72 bytes holds at least one character.\<close>

definition digest_image_ok :: "string \<Rightarrow> bool" where
  "digest_image_ok s \<longleftrightarrow>
     72 < length s \<and>
     (let n = length s - 72; name = take n s; rest = drop n s in
      is_alnum (hd name)
      \<and> list_all (\<lambda>c. is_alnum c \<or> c \<in> {CHR ''.'', CHR ''/'', CHR '':'', CHR ''_'', CHR ''-''}) (tl name)
      \<and> take 8 rest = ''@sha256:'' \<and> lower_hex 64 (drop 8 rest))"

definition volume_name_ok :: "string \<Rightarrow> bool" where
  "volume_name_ok s \<longleftrightarrow> has_prefix s ''soha-env-data-'' \<and> lower_hex 40 (drop 14 s)"

definition label_of :: "(string \<times> string) list \<Rightarrow> string \<Rightarrow> string" where
  "label_of labels suffix = (case map_of labels (env_label @ suffix) of None \<Rightarrow> [] | Some v \<Rightarrow> v)"

definition lease_name :: "docker_env \<Rightarrow> lease \<Rightarrow> string" where
  "lease_name d l =
     (if lease_mode l = ''restricted-write'' then ''soha-env-write-'' @ take 40 (dk_hash d (owner_id l))
      else ''soha-env-read-'' @ take 40 (dk_hash d (owner_id l @ [CHR 0x00] @ lease_id l)))"

definition lease_ref :: "docker_env \<Rightarrow> lease \<Rightarrow> string" where
  "lease_ref d l = dk_hash d (dk_json d l)"

definition personal_volume :: "docker_env \<Rightarrow> string \<Rightarrow> string" where
  "personal_volume d owner = ''soha-env-data-'' @ take 40 (dk_hash d owner)"

definition lease_of_labels :: "docker_env \<Rightarrow> (string \<times> string) list \<Rightarrow> docker_error + lease" where
  "lease_of_labels d labels =
     (let encoded = label_of labels ''.lease'' in
      if 8192 < length encoded then Inl (Refused ''environment lease exceeds its bound'')
      else case dk_lease d encoded of
        None \<Rightarrow> Inl (Refused ''invalid environment lease receipt'')
      | Some l \<Rightarrow> Inr l)"

definition check_handle :: "docker_env \<Rightarrow> handle \<Rightarrow> docker_record \<Rightarrow> docker_error option" where
  "check_handle d hd' r =
     (if handle_id hd' \<noteq> dr_id r \<or> \<not> container_id_ok (handle_id hd') \<or> handle_ref hd' = []
         \<or> label_of (dr_labels r) [] \<noteq> env_backend \<or> label_of (dr_labels r) ''.ref'' \<noteq> handle_ref hd'
      then Some (Refused ''environment belongs to another lease'')
      else case lease_of_labels d (dr_labels r) of
        Inl e \<Rightarrow> Some e
      | Inr l \<Rightarrow>
          if label_of (dr_labels r) ''.name'' \<noteq> lease_name d l \<or> lease_ref d l \<noteq> handle_ref hd'
          then Some (Refused ''environment lease identity changed'') else None)"

definition validate_handle :: "docker_env \<Rightarrow> handle \<Rightarrow> docker_record \<Rightarrow> unit docker_op" where
  "validate_handle d hd' r = (case check_handle d hd' r of None \<Rightarrow> give () | Some e \<Rightarrow> refuse e)"

subsection \<open>Records\<close>

definition list_filter :: "string \<Rightarrow> string \<times> string" where
  "list_filter identifier =
     (if container_id_ok identifier then (''id='' @ identifier, ''{{.ID}}'')
      else (''name=^/'' @ identifier @ ''$'', ''{{.Names}}''))"

definition inspect_format :: string where
  \<open>inspect_format = ''{"id":"{{.Id}}","labels":{{json .Config.Labels}}}''\<close>

abbreviation (input) list_command :: "string \<Rightarrow> string list" where
  "list_command identifier \<equiv> [''container'', ''ls'', ''--all'', ''--no-trunc'', ''--filter'', fst (list_filter identifier),
     ''--format'', snd (list_filter identifier)]"

abbreviation (input) inspect_command :: "string \<Rightarrow> string list" where
  "inspect_command identifier \<equiv> [''container'', ''inspect'', ''--format'', inspect_format, identifier]"

definition container_record :: "docker_env \<Rightarrow> string \<Rightarrow> docker_record option docker_op" where
  "container_record d identifier =
     and_then (require (container_id_ok identifier \<or> environment_name_ok identifier) (Refused ''invalid environment handle'')) (\<lambda>_.
     and_then (docker d (list_command identifier)) (\<lambda>names.
       if trim_space names = [] then give None
       else if trim_space names \<noteq> identifier then refuse (Refused ''ambiguous environment handle'')
       else and_then (docker d (inspect_command identifier)) (\<lambda>out.
         case dk_record d out of
           None \<Rightarrow> refuse (Refused ''invalid environment labels'')
         | Some r \<Rightarrow> if container_id_ok (dr_id r) then give (Some r) else refuse (Refused ''invalid environment labels''))))"

subsection \<open>Volumes\<close>

definition volume_format :: string where
  \<open>volume_format = ''{"labels":{{json .Labels}},"driver":{{json .Driver}},"options":{{json .Options}}}''\<close>

definition verify_volume :: "docker_env \<Rightarrow> lease \<Rightarrow> unit docker_op" where
  "verify_volume d l =
     and_then (docker d [''volume'', ''inspect'', ''--format'', volume_format, personal_volume d (owner_id l)]) (\<lambda>out.
       case dk_volume d out of
         None \<Rightarrow> refuse (Refused ''persistent environment data ownership, driver or quota changed'')
       | Some v \<Rightarrow>
           require (vr_driver v = ''local'' \<and> vr_options v = [] \<and> label_of (vr_labels v) [] = env_backend
             \<and> label_of (vr_labels v) ''.owner'' = dk_hash d (owner_id l)
             \<and> label_of (vr_labels v) ''.disk'' = show_int (q_disk (lease_quota l)))
             (Refused ''persistent environment data ownership, driver or quota changed''))"

fun volume_quota_lines :: "string list \<Rightarrow> int \<Rightarrow> int \<Rightarrow> nat \<Rightarrow> (int \<times> nat) option" where
  "volume_quota_lines [] quota used n = Some (used, n)"
| "volume_quota_lines (l # ls) quota used n =
     (if contains (to_lower l) ''warning'' \<or> contains (to_lower l) ''inconsistent'' then None
      else let fs = RunnerPayload.fields l in
        if fs = [] \<or> \<not> has_prefix (hd fs) ''0/'' then volume_quota_lines ls quota used n
        else if length fs < 4 \<or> 5 < length fs \<or> (length fs = 5 \<and> 2048 < length (fs ! 4)) then None
        else case (parse_int64 (fs ! 1), parse_int64 (fs ! 3)) of
          (Some charged, Some limit) \<Rightarrow>
            if charged < 0 \<or> limit \<noteq> quota then None else volume_quota_lines ls quota charged (Suc n)
        | _ \<Rightarrow> None)"

definition parse_volume_quota :: "string \<Rightarrow> int \<Rightarrow> int docker_op" where
  "parse_volume_quota output quota =
     (case volume_quota_lines (split_char CHR 0x0A output) quota 0 0 of
        None \<Rightarrow> refuse (Refused ''persistent environment hard quota is unavailable'')
      | Some (used, n) \<Rightarrow>
          if n \<noteq> 1 then refuse (Refused ''persistent environment hard quota is ambiguous'') else give used)"

text \<open>\<^verbatim>\<open>quotaHelper\<close>: a helper container on the volume. If the context has ended meanwhile, a helper
  that is left is removed, and the error (if any) is kept; the result of the helper otherwise.\<close>

definition helper_args :: "string \<Rightarrow> string \<Rightarrow> string \<Rightarrow> string \<Rightarrow> string list \<Rightarrow> string list" where
  "helper_args helper name ref volume cmd =
     [''run'', ''--rm'', ''--name'', name, ''--label'', env_label @ ''='' @ quota_kind, ''--label'', env_label @ ''.ref='' @ ref,
      ''--network'', ''none'', ''--read-only'', ''--cap-drop'', ''ALL'', ''--cap-add'', ''SYS_ADMIN'', ''--cap-add'', ''CHOWN'',
      ''--cap-add'', ''FOWNER'', ''--cap-add'', ''DAC_OVERRIDE'', ''--security-opt'', ''no-new-privileges'', ''--memory'', ''64m'',
      ''--memory-swap'', ''64m'', ''--cpus'', ''0.25'', ''--pids-limit'', ''16'', ''--log-driver'', ''none'',
      ''--mount'', ''type=volume,src='' @ volume @ '',dst=/probe'', ''--entrypoint'', hd cmd, helper] @ tl cmd"

definition quota_helper :: "docker_env \<Rightarrow> string \<Rightarrow> string \<Rightarrow> string list \<Rightarrow> string docker_op" where
  "quota_helper d helper volume cmd =
     and_then (read_env (\<lambda>h. (''soha-env-helper-'' @ dk_uuid d h 0, dk_uuid d h 1))) (\<lambda>(name, ref).
     and_then (attempt (docker d (helper_args helper name ref volume cmd))) (\<lambda>r.
     and_then (read_env (dk_ended d)) (\<lambda>ended.
       if \<not> ended then settle r
       else and_then (attempt (container_record d name)) (\<lambda>found.
         case found of
           Inl e \<Rightarrow> refuse (case r of Inl e1 \<Rightarrow> Joined e1 e | Inr out \<Rightarrow> e)
         | Inr None \<Rightarrow> settle r
         | Inr (Some rec) \<Rightarrow>
             if label_of (dr_labels rec) [] = quota_kind \<and> label_of (dr_labels rec) ''.ref'' = ref
             then and_then (attempt (docker d [''container'', ''rm'', ''--force'', dr_id rec])) (\<lambda>c.
               settle (case join_errors (error_of r) (error_of c) of None \<Rightarrow> r | Some e \<Rightarrow> Inl e))
             else settle r))))"

end
