(* ===== verification/DockerExec.thy ===== *)
theory DockerExec
  imports DockerCli
begin

text \<open>
  Personal environments in Docker, \<^verbatim>\<open>internal/agent/environment/docker_executor.go\<close>,
  \<^verbatim>\<open>docker_volume.go\<close>, \<^verbatim>\<open>docker_recovery.go\<close>, \<^verbatim>\<open>docker_preflight.go\<close>, \<^verbatim>\<open>docker_data.go\<close>,
  \<^verbatim>\<open>docker_export.go\<close> and \<^verbatim>\<open>personal.go\<close>: start and stop, command execution under a fence, inspection,
  garbage collection from durable receipts, the quota probe, deletion and export of personal data.

  The shell scripts that run inside containers are texts; what they do is part of what Docker answers. A
  request of the contract package is a record of the fields the code reads; its \<^verbatim>\<open>Validate\<close> is a field.
\<close>

subsection \<open>Scripts\<close>

definition lines_text :: "string list \<Rightarrow> string" where
  "lines_text ls = join_with [CHR 0x0A] ls"

definition supervisor_script :: string where
  \<open>supervisor_script = lines_text
     [''exec 9</soha-control/.soha-data-lock'',
      ''flock -s -n 9 || exit 1'',
      ''[ ! -e /soha-control/.soha-personal-retired ] || exit 1'',
      ''remaining=$(($1 - $(date +%s) - 1))'',
      ''[ "$remaining" -gt 0 ] || exit 1'',
      ''exec /bin/sleep "$remaining"'']\<close>

definition ready_script :: string where
  \<open>ready_script = lines_text
     [''test "$(readlink /proc/1/fd/9)" = /soha-control/.soha-data-lock'',
      ''test "$(tr '' @ [CHR 0x27, CHR 0x5C] @ ''000'' @ [CHR 0x27] @ '' '' @ [CHR 0x27, CHR 0x5C] @ ''n'' @ [CHR 0x27]
        @ '' </proc/1/cmdline | head -n 1)" = /bin/sleep'',
      ''printf ready'']\<close>

definition workspace_script :: string where
  \<open>workspace_script = ''[ -d "$1" ] || mkdir -m 700 "$1"; [ ! -L "$1" ] && [ "$(readlink -f "$1")" = "$1" ]''\<close>

definition usage_script :: string where
  "usage_script = ''cat /sys/fs/cgroup/memory.current; cat /sys/fs/cgroup/pids.current; cat /sys/fs/cgroup/cpu.stat''"

definition quota_script :: string where
  \<open>quota_script = lines_text
     [[], ''exec 9>/probe/.soha-data-lock'', ''chmod 0644 /probe/.soha-data-lock'', ''lock_mode=-s'',
      ''[ -e /probe/data ] || lock_mode=-x'', ''flock "$lock_mode" -n 9 || exit 1'',
      ''[ ! -e /probe/.soha-personal-retired ] || exit 1'', ''if [ ! -e /probe/data ]; then'',
      ''  [ "$2" = true ] || exit 1'', ''  btrfs subvolume create /probe/data >/dev/null'', ''fi'',
      ''[ ! -e /probe/.soha-personal-retired ] || exit 1'', ''btrfs subvolume show /probe/data >/dev/null'',
      ''btrfs qgroup limit "$1" /probe/data'', ''chown 1000:1000 /probe/data'', ''chmod 0700 /probe/data'',
      ''btrfs qgroup show --sync -rf --raw /probe/data'', []]\<close>

definition retire_script :: string where
  \<open>retire_script = lines_text
     [''exec 9>/probe/.soha-data-lock'', ''flock -n 9 || exit 1'', ''touch /probe/.soha-personal-retired'',
      ''if [ -e /probe/data ]; then btrfs subvolume delete /probe/data >/dev/null; fi'', ''test ! -e /probe/data'']\<close>

definition probe_script :: string where
  "probe_script = ''if [ -e /probe/data ]; then btrfs subvolume delete /probe/data >/dev/null; fi''"

definition retired_script :: string where
  \<open>retired_script = lines_text
     [''if [ -f /probe/.soha-personal-retired ]; then'', ''  [ ! -e /probe/data ] || exit 1'', ''  printf retired'',
      ''else printf retained; fi'']\<close>

definition export_script :: string where
  \<open>export_script = lines_text
     [''exec 9</soha-control/.soha-data-lock'', ''flock -x -n 9 || exit 1'',
      ''[ ! -e /soha-control/.soha-personal-retired ] || exit 1'', ''exec /bin/tar -cf - -C /data .'']\<close>

subsection \<open>Volumes\<close>

record docker_executor =
  de_image :: string
  de_helper :: string

definition new_executor :: "string \<Rightarrow> string \<Rightarrow> docker_executor option" where
  "new_executor img helper =
     (if \<not> digest_image_ok img \<or> \<not> digest_image_ok helper then None else Some \<lparr>de_image = img, de_helper = helper\<rparr>)"

definition bool_text :: "bool \<Rightarrow> string" where
  "bool_text b = (if b then ''true'' else ''false'')"

definition prepare_quota :: "docker_env \<Rightarrow> docker_executor \<Rightarrow> lease \<Rightarrow> bool \<Rightarrow> string docker_op" where
  "prepare_quota d e l create =
     and_then (quota_helper d (de_helper e) (personal_volume d (owner_id l))
         [''/bin/sh'', ''-ec'', quota_script, ''quota'', show_int (q_disk (lease_quota l)), bool_text create]) (\<lambda>out.
     and_then (parse_volume_quota out (q_disk (lease_quota l))) (\<lambda>_. give (personal_volume d (owner_id l))))"

definition ensure_volume :: "docker_env \<Rightarrow> docker_executor \<Rightarrow> lease \<Rightarrow> bool \<Rightarrow> string docker_op" where
  "ensure_volume d e l create =
     and_then (if create
       then docker d [''volume'', ''create'', ''--label'', env_label @ ''='' @ env_backend,
          ''--label'', env_label @ ''.owner='' @ dk_hash d (owner_id l),
          ''--label'', env_label @ ''.disk='' @ show_int (q_disk (lease_quota l)), personal_volume d (owner_id l)]
       else give []) (\<lambda>_.
     and_then (verify_volume d l) (\<lambda>_. prepare_quota d e l create))"

definition volume_usage :: "docker_env \<Rightarrow> docker_executor \<Rightarrow> lease \<Rightarrow> int docker_op" where
  "volume_usage d e l =
     and_then (verify_volume d l) (\<lambda>_.
     and_then (quota_helper d (de_helper e) (personal_volume d (owner_id l))
         [''btrfs'', ''qgroup'', ''show'', ''--sync'', ''-rf'', ''--raw'', ''/probe/data'']) (\<lambda>out.
       parse_volume_quota out (q_disk (lease_quota l))))"

subsection \<open>Start and stop\<close>

definition validate_request :: "docker_executor \<Rightarrow> lease \<Rightarrow> spec \<Rightarrow> gotime \<Rightarrow> docker_error option" where
  "validate_request e l s now =
     (case validate_lease l now of
        Some x \<Rightarrow> Some (LeaseRefused x)
      | None \<Rightarrow>
          let q = lease_quota l in
          if 128 < length (lease_id l) \<or> 128 < length (run_id l) \<or> 128 < length (owner_id l)
             \<or> \<not> scope_digest_ok (scope_hash l) \<or> now + 24 * 60 * minute < expires_at l
          then Some (Refused ''invalid bounded Docker environment lease'')
          else if spec_backend s \<noteq> ''local-container'' \<or> spec_image s \<noteq> de_image e \<or> spec_env s \<noteq> [] \<or> spec_command s \<noteq> []
             \<or> spec_args s \<noteq> []
          then Some (Refused ''docker environment requires its configured image and controlled command execution'')
          else if q_egress q \<or> q_disk q < 2 ^ 24 \<or> 2 ^ 40 < q_disk q \<or> q_memory q < 2 ^ 25 \<or> 2 ^ 34 < q_memory q
             \<or> 8000 < q_cpu q \<or> q_procs q < 4 \<or> 256 < q_procs q
          then Some (Refused ''docker environment quota or network policy is unsupported'')
          else None)"

definition pad3 :: "int \<Rightarrow> string" where
  "pad3 n = (let t = show_int n in replicate (3 - length t) CHR ''0'' @ t)"

definition cpus_text :: "int \<Rightarrow> string" where
  "cpus_text units = show_int (units div 1000) @ ''.'' @ pad3 (units mod 1000)"

text \<open>\<^verbatim>\<open>Time.Unix\<close>: seconds since 1970.\<close>

definition unix_seconds :: "gotime \<Rightarrow> int" where
  "unix_seconds t = t div second - 62135596800"

definition tmpfs_text :: "string \<Rightarrow> int \<Rightarrow> string" where
  "tmpfs_text path bytes = path @ '':rw,nosuid,nodev,noexec,size='' @ show_int bytes @ '',uid=1000,gid=1000,mode=0700''"

definition container_args ::
  "docker_env \<Rightarrow> docker_executor \<Rightarrow> lease \<Rightarrow> string \<Rightarrow> string \<Rightarrow> string \<Rightarrow> string list" where
  "container_args d e l name ref volume =
     (let q = lease_quota l; temporary = min (q_memory q div 8) (2 ^ 23);
          mount = ''type=volume,src='' @ volume @ '',dst=/data,volume-subpath=data''
            @ (if lease_mode l = ''observe-only'' then '',readonly'' else [])
      in [''run'', ''--detach'', ''--name'', name, ''--label'', env_label @ ''='' @ env_backend,
          ''--label'', env_label @ ''.ref='' @ ref, ''--label'', env_label @ ''.name='' @ name,
          ''--label'', env_label @ ''.deadline='' @ dk_time d (expires_at l),
          ''--label'', env_label @ ''.image='' @ de_image e, ''--label'', env_label @ ''.lease='' @ dk_base64 d (dk_json d l),
          ''--network'', ''none'', ''--user'', ''65534:65534'', ''--read-only'', ''--cap-drop'', ''ALL'',
          ''--security-opt'', ''no-new-privileges'', ''--memory'', show_int (q_memory q), ''--memory-swap'', show_int (q_memory q),
          ''--cpus'', cpus_text (q_cpu q), ''--pids-limit'', show_int (q_procs q), ''--shm-size'', ''1m'', ''--log-driver'', ''none'',
          ''--mount'', mount, ''--mount'', ''type=volume,src='' @ volume @ '',dst=/soha-control,readonly'',
          ''--tmpfs'', tmpfs_text ''/workspace'' temporary, ''--tmpfs'', tmpfs_text ''/tmp'' temporary,
          ''--workdir'', ''/'', ''--entrypoint'', ''/bin/sh'', de_image e, ''-ec'', supervisor_script,
          ''personal-supervisor'', show_int (unix_seconds (expires_at l))])"

definition require_running :: "docker_env \<Rightarrow> string \<Rightarrow> unit docker_op" where
  "require_running d i =
     and_then (docker d [''container'', ''inspect'', ''--format'', ''{{.State.Running}}'', i]) (\<lambda>state.
       if trim_space state \<noteq> ''true'' then refuse (LeaseRefused LeaseExpired)
       else and_then (attempt (docker d [''exec'', ''--user'', ''65534:65534'', i, ''/bin/sh'', ''-ec'', ready_script])) (\<lambda>r.
         require (r = Inr ''ready'') (Refused ''personal environment supervisor lock is unavailable'')))"

abbreviation docker_handle :: "string \<Rightarrow> string \<Rightarrow> handle" where
  "docker_handle i ref \<equiv> \<lparr>handle_id = i, handle_backend = ''local-container'', handle_ref = ref\<rparr>"

definition adopt_container :: "docker_env \<Rightarrow> docker_executor \<Rightarrow> lease \<Rightarrow> string \<Rightarrow> docker_record \<Rightarrow> handle docker_op" where
  "adopt_container d e l ref r =
     (let hd' = docker_handle (dr_id r) ref in
      and_then (validate_handle d hd' r) (\<lambda>_.
      and_then (require (label_of (dr_labels r) ''.image'' = de_image e) (Refused ''environment image revision changed'')) (\<lambda>_.
      and_then (require_running d (dr_id r)) (\<lambda>_.
      and_then (ensure_volume d e l False) (\<lambda>_. give hd')))))"

definition create_container ::
  "docker_env \<Rightarrow> docker_executor \<Rightarrow> lease \<Rightarrow> bool \<Rightarrow> string \<Rightarrow> string \<Rightarrow> handle docker_op" where
  "create_container d e l existing name ref =
     and_then (ensure_volume d e l (\<not> existing)) (\<lambda>volume.
     and_then (docker d (container_args d e l name ref volume)) (\<lambda>_.
     and_then (attempt (container_record d name)) (\<lambda>again.
       case again of
         Inr (Some r) \<Rightarrow>
           (let hd' = docker_handle (dr_id r) ref in
            and_then (validate_handle d hd' r) (\<lambda>_. and_then (require_running d (dr_id r)) (\<lambda>_. give hd')))
       | _ \<Rightarrow> refuse (Refused ''environment creation receipt is unavailable''))))"

definition start :: "docker_env \<Rightarrow> docker_executor \<Rightarrow> lease \<Rightarrow> spec \<Rightarrow> handle docker_op" where
  "start d e l s =
     and_then (read_env (\<lambda>h. validate_request e l s (dk_now d h))) (\<lambda>bad.
       case bad of
         Some x \<Rightarrow> refuse x
       | None \<Rightarrow>
           and_then (attempt (docker d [''info'', ''--format'', ''{{.CgroupVersion}}''])) (\<lambda>info.
           and_then (require (case info of Inl x \<Rightarrow> False | Inr v \<Rightarrow> trim_space v = ''2'')
               (Refused ''personal environments require Docker cgroup v2'')) (\<lambda>_.
           and_then (container_record d (lease_name d l)) (\<lambda>found.
             case found of
               Some r \<Rightarrow> adopt_container d e l (lease_ref d l) r
             | None \<Rightarrow> create_container d e l (require_existing_data s) (lease_name d l) (lease_ref d l)))))"

subsection \<open>Fences and commands\<close>

record command_fence =
  cf_id :: string
  cf_call :: string
  cf_parent :: handle

definition fence_name :: "docker_env \<Rightarrow> handle \<Rightarrow> string" where
  "fence_name d parent = ''soha-env-command-'' @ take 40 (dk_hash d (handle_id parent))"

definition remove_fence :: "docker_env \<Rightarrow> command_fence \<Rightarrow> unit docker_op" where
  "remove_fence d f =
     and_then (container_record d (cf_id f)) (\<lambda>found.
       case found of
         None \<Rightarrow> give ()
       | Some r \<Rightarrow>
           if label_of (dr_labels r) [] \<noteq> command_kind \<or> label_of (dr_labels r) ''.parent'' \<noteq> handle_id (cf_parent f)
              \<or> label_of (dr_labels r) ''.ref'' \<noteq> handle_ref (cf_parent f) \<or> label_of (dr_labels r) ''.call'' \<noteq> cf_call f
           then refuse (Refused ''environment command reservation ownership changed'')
           else and_then (docker d [''container'', ''rm'', ''--force'', cf_id f]) (\<lambda>_. give ()))"

definition remove_parent_fence :: "docker_env \<Rightarrow> handle \<Rightarrow> unit docker_op" where
  "remove_parent_fence d parent =
     and_then (container_record d (fence_name d parent)) (\<lambda>found.
       case found of
         None \<Rightarrow> give ()
       | Some r \<Rightarrow> remove_fence d \<lparr>cf_id = dr_id r, cf_call = label_of (dr_labels r) ''.call'', cf_parent = parent\<rparr>)"

definition stop :: "docker_env \<Rightarrow> handle \<Rightarrow> unit docker_op" where
  "stop d hd' =
     and_then (container_record d (handle_id hd')) (\<lambda>found.
     and_then (case found of
         None \<Rightarrow> give ()
       | Some r \<Rightarrow>
           and_then (validate_handle d hd' r) (\<lambda>_.
           and_then (docker d [''container'', ''rm'', ''--force'', handle_id hd']) (\<lambda>_. give ()))) (\<lambda>_.
       remove_parent_fence d hd'))"

definition active_lease :: "docker_env \<Rightarrow> docker_executor \<Rightarrow> handle \<Rightarrow> lease docker_op" where
  "active_lease d e hd' =
     and_then (container_record d (handle_id hd')) (\<lambda>found.
       case found of
         None \<Rightarrow> refuse (LeaseRefused LeaseNotFound)
       | Some r \<Rightarrow>
           and_then (validate_handle d hd' r) (\<lambda>_.
           and_then (require (label_of (dr_labels r) ''.image'' = de_image e) (Refused ''environment image revision changed'')) (\<lambda>_.
           and_then (read_env (dk_now d)) (\<lambda>now.
             case lease_of_labels d (dr_labels r) of
               Inl x \<Rightarrow> refuse (LeaseRefused LeaseExpired)
             | Inr l \<Rightarrow>
                 if \<not> now < expires_at l then refuse (LeaseRefused LeaseExpired)
                 else and_then (require_running d (handle_id hd')) (\<lambda>_. give l)))))"

definition fence_args :: "docker_env \<Rightarrow> docker_executor \<Rightarrow> handle \<Rightarrow> string \<Rightarrow> gotime \<Rightarrow> string list" where
  "fence_args d e parent cid deadline =
     [''create'', ''--name'', fence_name d parent, ''--label'', env_label @ ''='' @ command_kind,
      ''--label'', env_label @ ''.ref='' @ handle_ref parent, ''--label'', env_label @ ''.parent='' @ handle_id parent,
      ''--label'', env_label @ ''.call='' @ cid, ''--label'', env_label @ ''.deadline='' @ dk_time d deadline,
      ''--network'', ''none'', ''--user'', ''65534:65534'', ''--read-only'', ''--cap-drop'', ''ALL'', ''--security-opt'',
      ''no-new-privileges'', ''--log-driver'', ''none'', ''--entrypoint'', ''/bin/true'', de_image e]"

text \<open>The reservation is someone else's: if its deadline has passed, the outcome of that command is unknown and the
  environment is stopped.\<close>

definition foreign_fence :: "docker_env \<Rightarrow> handle \<Rightarrow> docker_record \<Rightarrow> command_fence docker_op" where
  "foreign_fence d parent r =
     and_then (read_env (dk_now d)) (\<lambda>now.
       case dk_instant d (label_of (dr_labels r) ''.deadline'') of
         Some expires \<Rightarrow>
           if \<not> now < expires
           then and_then (attempt (stop d parent)) (\<lambda>s.
             refuse (case s of Inl x \<Rightarrow> Joined (Refused ''environment command outcome is unknown'') x
                             | Inr u \<Rightarrow> Refused ''environment command outcome is unknown''))
           else refuse (Refused ''environment command is already active'')
       | None \<Rightarrow> refuse (Refused ''environment command is already active''))"

definition acquire_fence :: "docker_env \<Rightarrow> docker_executor \<Rightarrow> handle \<Rightarrow> command_fence docker_op" where
  "acquire_fence d e parent =
     and_then (read_env (\<lambda>h. (dk_uuid d h 0, dk_deadline d h, dk_now d h))) (\<lambda>(cid, deadline, now).
     and_then (require (now < deadline) (Refused ''environment command deadline is unavailable'')) (\<lambda>_.
     and_then (attempt (docker d (fence_args d e parent cid deadline))) (\<lambda>created.
     and_then (attempt (container_record d (fence_name d parent))) (\<lambda>found.
       case found of
         Inr (Some r) \<Rightarrow>
           if label_of (dr_labels r) [] \<noteq> command_kind \<or> label_of (dr_labels r) ''.parent'' \<noteq> handle_id parent
              \<or> label_of (dr_labels r) ''.ref'' \<noteq> handle_ref parent
           then refuse (Refused ''environment command reservation ownership changed'')
           else if label_of (dr_labels r) ''.call'' \<noteq> cid then foreign_fence d parent r
           else (case created of
             Inr out \<Rightarrow> give \<lparr>cf_id = dr_id r, cf_call = cid, cf_parent = parent\<rparr>
           | Inl x \<Rightarrow>
               and_then (attempt (remove_fence d \<lparr>cf_id = dr_id r, cf_call = cid, cf_parent = parent\<rparr>)) (\<lambda>f.
                 refuse (case f of Inl y \<Rightarrow> Joined x y | Inr u \<Rightarrow> x)))
       | _ \<Rightarrow> refuse (Refused ''environment command reservation is unavailable'')))))"

definition require_only_supervisor :: "docker_env \<Rightarrow> handle \<Rightarrow> unit docker_op" where
  "require_only_supervisor d hd' =
     and_then (attempt (docker d [''top'', handle_id hd', ''-eo'', ''pid''])) (\<lambda>r.
       case r of
         Inl x \<Rightarrow> refuse (Refused ''personal command left processes or its completion is unconfirmed'')
       | Inr out \<Rightarrow>
           (let fs = RunnerPayload.fields out in
            if length fs \<noteq> 2 \<or> fs ! 0 \<noteq> ''PID''
            then refuse (Refused ''personal command left processes or its completion is unconfirmed'')
            else case parse_int64 (fs ! 1) of
              None \<Rightarrow> refuse (Refused ''personal command process receipt is invalid'')
            | Some pid \<Rightarrow> require (0 < pid) (Refused ''personal command process receipt is invalid'')))"

definition task_workspace :: "docker_env \<Rightarrow> handle \<Rightarrow> string \<Rightarrow> string docker_op" where
  "task_workspace d hd' task =
     (if task = [] then give ''/workspace''
      else if \<not> dk_canonical_uuid d task then refuse (Refused ''invalid server task identity'')
      else let w = ''/workspace/task-'' @ take 40 (dk_hash d task) in
        and_then (docker d [''exec'', ''--user'', ''1000:1000'', handle_id hd', ''/bin/sh'', ''-ec'', workspace_script,
            ''personal-task-workspace'', w]) (\<lambda>_. give w))"

definition run_command :: "docker_env \<Rightarrow> handle \<Rightarrow> string \<Rightarrow> string list \<Rightarrow> string docker_op" where
  "run_command d hd' workspace argv =
     and_then (docker d ([''exec'', ''--user'', ''1000:1000'', ''--workdir'', workspace, handle_id hd'] @ argv)) (\<lambda>out.
     and_then (require (dk_utf8 d out) (Refused ''personal command output is not UTF-8'')) (\<lambda>_.
     and_then (require_only_supervisor d hd') (\<lambda>_. give out)))"

definition fenced_command ::
  "docker_env \<Rightarrow> docker_executor \<Rightarrow> handle \<Rightarrow> lease \<Rightarrow> string \<Rightarrow> string list \<Rightarrow> string docker_op" where
  "fenced_command d e hd' l task argv =
     and_then (ensure_volume d e l False) (\<lambda>_.
     and_then (active_lease d e hd') (\<lambda>_.
     and_then (require_only_supervisor d hd') (\<lambda>_.
     and_then (task_workspace d hd' task) (\<lambda>workspace. run_command d hd' workspace argv))))"

text \<open>The deferred clean-up: after a failure or when the context has ended, the environment is stopped; the fence is
  removed in any case.\<close>

definition clean_up :: "docker_env \<Rightarrow> handle \<Rightarrow> command_fence \<Rightarrow> docker_error + 'a \<Rightarrow> 'a docker_op" where
  "clean_up d hd' fence r =
     and_then (read_env (dk_ended d)) (\<lambda>ended.
     and_then (if error_of r \<noteq> None \<or> ended then attempt (stop d hd') else give (Inr ())) (\<lambda>s.
     and_then (attempt (remove_fence d fence)) (\<lambda>f.
       settle (case join_errors (join_errors (join_errors (error_of r) (if ended then Some (Refused ''context'') else None))
           (error_of s)) (error_of f) of None \<Rightarrow> r | Some x \<Rightarrow> Inl x))))"

definition valid_argv :: "string list \<Rightarrow> docker_error option" where
  "valid_argv argv =
     (if argv = [] \<or> 64 < length argv \<or> \<not> has_prefix (hd argv) ''/''
      then Some (Refused ''bounded absolute sandbox command is required'')
      else if \<exists>a \<in> set argv. 4096 < length a \<or> CHR 0x00 \<in> set a
      then Some (Refused ''environment command argument is invalid'') else None)"

definition execute_command ::
  "docker_env \<Rightarrow> docker_executor \<Rightarrow> handle \<Rightarrow> string \<Rightarrow> string list \<Rightarrow> string docker_op" where
  "execute_command d e hd' task argv =
     (case valid_argv argv of
        Some x \<Rightarrow> refuse x
      | None \<Rightarrow>
          and_then (active_lease d e hd') (\<lambda>l.
          and_then (acquire_fence d e hd') (\<lambda>fence.
          and_then (attempt (fenced_command d e hd' l task argv)) (\<lambda>r. clean_up d hd' fence r))))"

subsection \<open>Inspection\<close>

text \<open>The loop looks for the first field \<^verbatim>\<open>usage_usec\<close> at an even position from the third on that a field follows.\<close>

fun find_cpu :: "string list \<Rightarrow> string option" where
  "find_cpu (k # v # fs) = (if k = ''usage_usec'' then Some v else find_cpu fs)"
| "find_cpu fs = None"

definition parse_cgroup_usage :: "string \<Rightarrow> resource_usage option" where
  "parse_cgroup_usage data =
     (let fs = RunnerPayload.fields data in
      if length fs < 4 then None
      else case (parse_int64 (fs ! 0), parse_int64 (fs ! 1), Option.bind (find_cpu (drop 2 fs)) parse_int64) of
        (Some memory, Some processes, Some cpu) \<Rightarrow>
          if memory < 0 \<or> processes < 0 \<or> cpu < 0 \<or> (2 ^ 63 - 1) div 1000 < cpu then None
          else Some \<lparr>u_disk = 0, u_memory = memory, u_cpu_nanos = cpu * 1000, u_procs = processes\<rparr>
      | _ \<Rightarrow> None)"

definition inspect :: "docker_env \<Rightarrow> docker_executor \<Rightarrow> handle \<Rightarrow> resource_usage docker_op" where
  "inspect d e hd' =
     and_then (active_lease d e hd') (\<lambda>l.
     and_then (volume_usage d e l) (\<lambda>disk.
     and_then (docker d [''exec'', ''--user'', ''1000:1000'', handle_id hd', ''/bin/sh'', ''-ec'', usage_script]) (\<lambda>out.
       case parse_cgroup_usage out of
         None \<Rightarrow> refuse (Refused ''environment usage is unavailable'')
       | Some u \<Rightarrow> give (u\<lparr>u_disk := disk\<rparr>))))"

subsection \<open>Deletion and export of personal data\<close>

definition attached_command :: "string \<Rightarrow> string list" where
  "attached_command volume =
     [''container'', ''ls'', ''--all'', ''--quiet'', ''--no-trunc'', ''--filter'', ''volume='' @ volume]"

definition require_unused :: "docker_env \<Rightarrow> string \<Rightarrow> unit docker_op" where
  "require_unused d volume =
     and_then (docker d (attached_command volume)) (\<lambda>out.
       require (trim_space out = []) (Refused ''personal data is still attached to a container''))"

definition delete_data :: "docker_env \<Rightarrow> docker_executor \<Rightarrow> lease \<Rightarrow> unit docker_op" where
  "delete_data d e l =
     and_then (verify_volume d l) (\<lambda>_.
     and_then (require_unused d (personal_volume d (owner_id l))) (\<lambda>_.
     and_then (quota_helper d (de_helper e) (personal_volume d (owner_id l)) [''/bin/sh'', ''-ec'', retire_script]) (\<lambda>_.
       require_unused d (personal_volume d (owner_id l)))))"

definition list_volume :: "string \<Rightarrow> string list" where
  "list_volume volume = [''volume'', ''ls'', ''--filter'', ''name='' @ volume, ''--format'', ''{{.Name}}'']"

definition data_retired :: "docker_env \<Rightarrow> docker_executor \<Rightarrow> lease \<Rightarrow> bool docker_op" where
  "data_retired d e l =
     (let volume = personal_volume d (owner_id l) in
      and_then (docker d (list_volume volume)) (\<lambda>names.
        if trim_space names = [] then give False
        else if trim_space names \<noteq> volume then refuse (Refused ''ambiguous personal data identity'')
        else and_then (verify_volume d l) (\<lambda>_.
          and_then (quota_helper d (de_helper e) volume [''/bin/sh'', ''-ec'', retired_script]) (\<lambda>out.
            if out = ''retired'' then give True
            else if out = ''retained'' then give False
            else refuse (Refused ''personal data receipt is unavailable'')))))"

definition deleted_result :: "bool \<Rightarrow> string" where
  "deleted_result retired = (if retired then ''deleted'' else ''missing'')"

text \<open>The export writes straight to its target, so its output has no bound; any byte on standard error fails it.\<close>

definition docker_stream :: "docker_env \<Rightarrow> string list \<Rightarrow> unit docker_op" where
  "docker_stream d args h =
     (let o' = dk_run d h args; failed = (co_failed o' \<or> 0 < co_err_bytes o') in
      (if failed then Inl (Refused ''personal data export did not complete'') else Inr (),
       h @ [(args, if failed then None else Some [])]))"

definition export_args :: "docker_executor \<Rightarrow> quota \<Rightarrow> string \<Rightarrow> string \<Rightarrow> string \<Rightarrow> string list" where
  "export_args e q name ref volume =
     [''run'', ''--rm'', ''--name'', name, ''--label'', env_label @ ''='' @ export_kind, ''--label'', env_label @ ''.ref='' @ ref,
      ''--network'', ''none'', ''--read-only'', ''--user'', ''1000:1000'', ''--cap-drop'', ''ALL'', ''--security-opt'',
      ''no-new-privileges'', ''--memory'', show_int (q_memory q), ''--memory-swap'', show_int (q_memory q),
      ''--cpus'', cpus_text (q_cpu q), ''--pids-limit'', show_int (q_procs q), ''--shm-size'', ''1m'', ''--log-driver'', ''none'',
      ''--mount'', ''type=volume,src='' @ volume @ '',dst=/data,volume-subpath=data,readonly'',
      ''--mount'', ''type=volume,src='' @ volume @ '',dst=/soha-control,readonly'', ''--workdir'', ''/'',
      ''--entrypoint'', ''/bin/timeout'', de_image e, ''30'', ''/bin/sh'', ''-ec'', export_script]"

definition remove_export :: "docker_env \<Rightarrow> string \<Rightarrow> string \<Rightarrow> unit docker_op" where
  "remove_export d name ref =
     and_then (container_record d name) (\<lambda>found.
       case found of
         None \<Rightarrow> give ()
       | Some r \<Rightarrow>
           if label_of (dr_labels r) [] \<noteq> export_kind \<or> label_of (dr_labels r) ''.ref'' \<noteq> ref
           then refuse (Refused ''personal data export cleanup identity changed'')
           else and_then (docker d [''container'', ''rm'', ''--force'', dr_id r]) (\<lambda>_. give ()))"

record personal_request =
  pr_valid :: bool
  pr_action :: string
  pr_lease :: lease
  pr_task :: string
  pr_argv :: "string list"
  pr_create :: bool

definition export_data :: "docker_env \<Rightarrow> docker_executor \<Rightarrow> personal_request \<Rightarrow> unit docker_op" where
  "export_data d e rq =
     (if \<not> pr_valid rq \<or> pr_action rq \<noteq> ''export_data'' then refuse (Refused ''invalid personal data export request'')
      else let l = pr_lease rq; volume = personal_volume d (owner_id l) in
        and_then (verify_volume d l) (\<lambda>_.
        and_then (require_unused d volume) (\<lambda>_.
        and_then (read_env (\<lambda>h. (''soha-env-export-'' @ dk_uuid d h 0, dk_uuid d h 1))) (\<lambda>(name, ref).
        and_then (attempt (docker_stream d (export_args e (lease_quota l) name ref volume))) (\<lambda>r.
        and_then (attempt (remove_export d name ref)) (\<lambda>c.
          settle (case join_errors (error_of r) (error_of c) of None \<Rightarrow> Inr () | Some x \<Rightarrow> Inl x)))))))"

subsection \<open>Handles from receipts\<close>

definition personal_handle :: "docker_env \<Rightarrow> lease \<Rightarrow> handle option docker_op" where
  "personal_handle d l =
     and_then (container_record d (lease_name d l)) (\<lambda>found.
       case found of
         None \<Rightarrow> give None
       | Some r \<Rightarrow>
           (let hd' = docker_handle (dr_id r) (lease_ref d l) in
            if check_handle d hd' r \<noteq> None then refuse (Refused ''environment belongs to another original lease'')
            else give (Some hd')))"

subsection \<open>The quota probe\<close>

abbreviation (input) probe_prefix :: string where "probe_prefix \<equiv> ''quota-probe:''"

definition probe_setting :: "string list \<Rightarrow> string \<Rightarrow> bool" where
  "probe_setting items expected \<longleftrightarrow> (\<exists>i \<in> set items. i = expected \<or> i = expected @ '':true'')"

definition create_probe_volume :: "docker_env \<Rightarrow> lease \<Rightarrow> unit docker_op" where
  "create_probe_volume d l =
     and_then (docker d [''volume'', ''create'', ''--label'', env_label @ ''='' @ env_backend,
        ''--label'', env_label @ ''.owner='' @ dk_hash d (owner_id l),
        ''--label'', env_label @ ''.disk='' @ show_int (q_disk (lease_quota l)),
        ''--label'', env_label @ ''.probe='' @ lease_id l, ''--label'', env_label @ ''.deadline='' @ dk_time d (expires_at l),
        ''--label'', env_label @ ''.lease='' @ dk_base64 d (dk_json d l), personal_volume d (owner_id l)]) (\<lambda>_. give ())"

definition verify_limits :: "docker_env \<Rightarrow> handle \<Rightarrow> quota \<Rightarrow> unit docker_op" where
  "verify_limits d hd' q =
     and_then (docker d [''container'', ''inspect'', ''--format'', ''{{json .HostConfig}}'', handle_id hd']) (\<lambda>out.
       case dk_host d out of
         None \<Rightarrow> refuse (Refused ''personal Docker hard limits are unavailable'')
       | Some c \<Rightarrow>
           require (hc_network c = ''none'' \<and> hc_readonly c \<and> hc_memory c = q_memory q \<and> hc_swap c = q_memory q
             \<and> hc_cpus c = q_cpu q * 1000000 \<and> hc_pids c = q_procs q \<and> probe_setting (hc_drop c) ''ALL''
             \<and> probe_setting (hc_security c) ''no-new-privileges'')
             (Refused ''personal Docker hard limits are unavailable''))"

definition labels_command :: "string \<Rightarrow> string list" where
  "labels_command volume = [''volume'', ''inspect'', ''--format'', ''{{json .Labels}}'', volume]"

definition remove_probe_volume :: "docker_env \<Rightarrow> docker_executor \<Rightarrow> lease \<Rightarrow> unit docker_op" where
  "remove_probe_volume d e l =
     (let volume = personal_volume d (owner_id l) in
      and_then (docker d (list_volume volume)) (\<lambda>names.
        if trim_space names = [] then give ()
        else if trim_space names \<noteq> volume then refuse (Refused ''ambiguous quota probe volume'')
        else and_then (docker d (labels_command volume)) (\<lambda>out.
          case dk_labels d out of
            None \<Rightarrow> refuse (Refused ''quota probe ownership changed'')
          | Some labels \<Rightarrow>
              if label_of labels ''.probe'' \<noteq> lease_id l then refuse (Refused ''quota probe ownership changed'')
              else and_then (verify_volume d l) (\<lambda>_.
                and_then (quota_helper d (de_helper e) volume [''/bin/sh'', ''-ec'', probe_script]) (\<lambda>_.
                and_then (docker d [''volume'', ''rm'', volume]) (\<lambda>_. give ()))))))"

definition cleanup_probe :: "docker_env \<Rightarrow> docker_executor \<Rightarrow> lease \<Rightarrow> unit docker_op" where
  "cleanup_probe d e l =
     (if \<not> dk_canonical_uuid d (lease_id l) \<or> owner_id l \<noteq> probe_prefix @ lease_id l
      then refuse (Refused ''refusing non-probe data cleanup'')
      else and_then (personal_handle d l) (\<lambda>found.
        and_then (case found of None \<Rightarrow> give () | Some hd' \<Rightarrow> stop d hd') (\<lambda>_. remove_probe_volume d e l)))"

record preflight_request =
  pf_valid :: bool
  pf_id :: string
  pf_disk :: int
  pf_memory :: int
  pf_cpu :: int
  pf_procs :: int
  pf_json :: string

definition probe_lease :: "docker_env \<Rightarrow> preflight_request \<Rightarrow> gotime \<Rightarrow> lease" where
  "probe_lease d rq now =
     \<lparr>lease_id = pf_id rq, run_id = pf_id rq, owner_id = probe_prefix @ pf_id rq,
      scope_hash = ''sha256:'' @ dk_hash d (pf_json rq), lease_mode = ''restricted-write'', workspace_path = [],
      lease_quota = \<lparr>q_disk = pf_disk rq, q_memory = pf_memory rq, q_cpu = pf_cpu rq, q_procs = pf_procs rq, q_egress = False\<rparr>,
      issued_at = now, expires_at = now + minute, released_at = zero_time\<rparr>"

definition plain_spec :: "docker_executor \<Rightarrow> bool \<Rightarrow> spec" where
  "plain_spec e existing =
     \<lparr>require_existing_data = existing, spec_backend = ''local-container'', spec_name = [], spec_namespace = [],
      spec_image = de_image e, spec_command = [], spec_args = [], spec_env = [], spec_workspace = [], spec_artifacts = []\<rparr>"

definition probe_body :: "docker_env \<Rightarrow> docker_executor \<Rightarrow> lease \<Rightarrow> gotime docker_op" where
  "probe_body d e l =
     and_then (create_probe_volume d l) (\<lambda>_.
     and_then (start d e l (plain_spec e False)) (\<lambda>hd'.
     and_then (verify_limits d hd' (lease_quota l)) (\<lambda>_.
     and_then (inspect d e hd') (\<lambda>_. read_env (dk_now d)))))"

text \<open>\<^verbatim>\<open>Preflight\<close>: the result (the time of the observation) only if the clean-up succeeded too.\<close>

definition preflight :: "docker_env \<Rightarrow> docker_executor \<Rightarrow> preflight_request \<Rightarrow> gotime docker_op" where
  "preflight d e rq =
     (if \<not> pf_valid rq then refuse (Refused ''invalid preflight request'')
      else and_then (read_env (dk_now d)) (\<lambda>now.
        and_then (attempt (probe_body d e (probe_lease d rq now))) (\<lambda>r.
        and_then (attempt (cleanup_probe d e (probe_lease d rq now))) (\<lambda>c.
          settle (case join_errors (error_of r) (error_of c) of None \<Rightarrow> r | Some x \<Rightarrow> Inl x)))))"

subsection \<open>Garbage collection\<close>

abbreviation (input) gc_batch :: nat where "gc_batch \<equiv> 32"

fun expired_names ::
  "(string \<Rightarrow> gotime option) \<Rightarrow> gotime \<Rightarrow> (string \<Rightarrow> bool) \<Rightarrow> string list \<Rightarrow> string list \<Rightarrow> docker_error + string list" where
  "expired_names instant now valid ids [] = Inr ids"
| "expired_names instant now valid ids (line # ls) =
     (let fs = RunnerPayload.fields line in
      if fs = [] then expired_names instant now valid ids ls
      else if length fs \<noteq> 2 \<or> \<not> valid (fs ! 0) then Inl (Refused ''invalid environment cleanup receipt'')
      else case instant (fs ! 1) of
        None \<Rightarrow> Inl (Refused ''invalid environment cleanup deadline'')
      | Some deadline \<Rightarrow>
          let ids1 = (if \<not> now < deadline then ids @ [fs ! 0] else ids) in
          if length ids1 = gc_batch then Inr ids1 else expired_names instant now valid ids1 ls)"

definition expired_receipts :: "docker_env \<Rightarrow> gotime \<Rightarrow> (string \<Rightarrow> bool) \<Rightarrow> string \<Rightarrow> string list docker_op" where
  "expired_receipts d now valid data =
     settle (expired_names (dk_instant d) now valid [] (split_char CHR 0x0A data))"

definition deadline_format :: string where
  \<open>deadline_format = ''{{.ID}} {{.Label "soha.environment.deadline"}}''\<close>

definition volume_deadline_format :: string where
  \<open>volume_deadline_format = ''{{.Name}} {{.Label "soha.environment.deadline"}}''\<close>

definition gc_lease :: "docker_env \<Rightarrow> string \<Rightarrow> gotime \<Rightarrow> lease option docker_op" where
  "gc_lease d i now =
     and_then (container_record d i) (\<lambda>found.
       case found of
         None \<Rightarrow> give None
       | Some r \<Rightarrow>
           and_then (settle (lease_of_labels d (dr_labels r))) (\<lambda>l.
           let hd' = docker_handle (dr_id r) (label_of (dr_labels r) ''.ref'') in
           and_then (validate_handle d hd' r) (\<lambda>_.
             if now < expires_at l then give None
             else and_then (stop d hd') (\<lambda>_. give (Some (l\<lparr>released_at := now\<rparr>))))))"

text \<open>The loops collect failures and go on; they stop when the context has ended.\<close>

fun gc_leases :: "docker_env \<Rightarrow> gotime \<Rightarrow> string list \<Rightarrow> lease list \<Rightarrow> docker_error option \<Rightarrow>
    (lease list \<times> docker_error option) docker_op" where
  "gc_leases d now [] released failure = give (released, failure)"
| "gc_leases d now (i # ids) released failure =
     and_then (read_env (dk_ended d)) (\<lambda>ended.
       if ended then give (released, join_errors failure (Some (Refused ''context'')))
       else and_then (attempt (gc_lease d i now)) (\<lambda>r.
         case r of
           Inl x \<Rightarrow> gc_leases d now ids released (join_errors failure (Some x))
         | Inr None \<Rightarrow> gc_leases d now ids released failure
         | Inr (Some l) \<Rightarrow> gc_leases d now ids (released @ [l]) failure))"

definition gc_fence :: "docker_env \<Rightarrow> string \<Rightarrow> unit docker_op" where
  "gc_fence d i =
     and_then (container_record d i) (\<lambda>found.
       case found of
         None \<Rightarrow> give ()
       | Some r \<Rightarrow>
           (let parent = docker_handle (label_of (dr_labels r) ''.parent'') (label_of (dr_labels r) ''.ref'') in
            if label_of (dr_labels r) [] \<noteq> command_kind \<or> \<not> container_id_ok (handle_id parent)
               \<or> \<not> scope_digest_ok (''sha256:'' @ handle_ref parent)
            then refuse (Refused ''invalid environment command recovery receipt'')
            else stop d parent))"

definition recover_probe :: "docker_env \<Rightarrow> docker_executor \<Rightarrow> gotime \<Rightarrow> string \<Rightarrow> unit docker_op" where
  "recover_probe d e now name =
     and_then (docker d (labels_command name)) (\<lambda>out.
       case dk_labels d out of
         None \<Rightarrow> refuse (Refused ''quota probe recovery labels unavailable'')
       | Some labels \<Rightarrow>
           and_then (settle (lease_of_labels d labels)) (\<lambda>l.
             if now < expires_at l \<or> personal_volume d (owner_id l) \<noteq> name \<or> label_of labels ''.probe'' \<noteq> lease_id l
             then refuse (Refused ''quota probe recovery identity changed'')
             else cleanup_probe d e l))"

text \<open>A loop over names that collects failures; the first flag says whether it stops when the context has ended.\<close>

fun gc_each :: "docker_env \<Rightarrow> bool \<Rightarrow> (string \<Rightarrow> unit docker_op) \<Rightarrow> string list \<Rightarrow> docker_error option \<Rightarrow>
    docker_error option docker_op" where
  "gc_each d stops f [] failure = give failure"
| "gc_each d stops f (i # ids) failure =
     and_then (read_env (dk_ended d)) (\<lambda>ended.
       if stops \<and> ended then give failure
       else and_then (attempt (f i)) (\<lambda>r. gc_each d stops f ids (join_errors failure (error_of r))))"

definition with_context_error :: "docker_env \<Rightarrow> docker_error option \<Rightarrow> unit docker_op" where
  "with_context_error d failure =
     and_then (read_env (dk_ended d)) (\<lambda>ended.
       settle (or_value (join_errors failure (if ended then Some (Refused ''context'') else None)) ()))"

definition gc_fences :: "docker_env \<Rightarrow> gotime \<Rightarrow> unit docker_op" where
  "gc_fences d now =
     and_then (docker d [''container'', ''ls'', ''--all'', ''--no-trunc'', ''--filter'', ''label='' @ env_label @ ''='' @ command_kind,
        ''--format'', deadline_format]) (\<lambda>data.
     and_then (expired_receipts d now container_id_ok data) (\<lambda>ids.
     and_then (gc_each d True (gc_fence d) ids None) (with_context_error d)))"

definition gc_probes :: "docker_env \<Rightarrow> docker_executor \<Rightarrow> gotime \<Rightarrow> unit docker_op" where
  "gc_probes d e now =
     and_then (docker d [''volume'', ''ls'', ''--filter'', ''label='' @ env_label @ ''.probe'', ''--format'', volume_deadline_format]) (\<lambda>data.
     and_then (expired_receipts d now volume_name_ok data) (\<lambda>names.
     and_then (gc_each d False (recover_probe d e now) names None) (with_context_error d)))"

text \<open>\<^verbatim>\<open>GC\<close>: the released leases together with the failures.\<close>

definition gc :: "docker_env \<Rightarrow> docker_executor \<Rightarrow> gotime \<Rightarrow> (lease list \<times> docker_error option) docker_op" where
  "gc d e now =
     and_then (docker d [''container'', ''ls'', ''--all'', ''--no-trunc'', ''--filter'', ''label='' @ env_label @ ''='' @ env_backend,
        ''--filter'', ''status=exited'', ''--filter'', ''status=dead'', ''--format'', deadline_format]) (\<lambda>data.
     and_then (expired_receipts d now container_id_ok data) (\<lambda>ids.
     and_then (gc_leases d now ids [] None) (\<lambda>(released, f1).
     and_then (attempt (gc_fences d now)) (\<lambda>f2.
     and_then (attempt (gc_probes d e now)) (\<lambda>f3.
       give (released, join_errors (join_errors f1 (error_of f2)) (error_of f3)))))))"

subsection \<open>Personal operations\<close>

record personal_result =
  ps_lease :: string
  ps_run :: string
  ps_task :: string
  ps_state :: string
  ps_observed :: gotime
  ps_output :: "string option"
  ps_usage :: "resource_usage option"

definition result_of :: "personal_request \<Rightarrow> string \<Rightarrow> gotime \<Rightarrow> personal_result" where
  "result_of rq state now =
     \<lparr>ps_lease = lease_id (pr_lease rq), ps_run = run_id (pr_lease rq), ps_task = pr_task rq, ps_state = state,
      ps_observed = now, ps_output = None, ps_usage = None\<rparr>"

definition observed_now :: "docker_env \<Rightarrow> personal_request \<Rightarrow> string \<Rightarrow> personal_result docker_op" where
  "observed_now d rq state = read_env (\<lambda>h. result_of rq state (dk_now d h))"

text \<open>The last part: the command if any, then the usage.\<close>

definition use_environment ::
  "docker_env \<Rightarrow> docker_executor \<Rightarrow> personal_request \<Rightarrow> handle \<Rightarrow> personal_result docker_op" where
  "use_environment d e rq hd' =
     and_then (if pr_action rq = ''execute''
       then and_then (execute_command d e hd' (pr_task rq) (pr_argv rq)) (\<lambda>out. give (Some out)) else give None) (\<lambda>output.
     and_then (inspect d e hd') (\<lambda>u.
     and_then (read_env (dk_now d)) (\<lambda>now.
     let q = lease_quota (pr_lease rq);
         state = (if q_disk q < u_disk u \<or> q_memory q < u_memory u \<or> q_procs q < u_procs u
                  then ''quota_exceeded'' else ''active'')
     in give ((result_of rq state now)\<lparr>ps_output := output, ps_usage := Some u\<rparr>))))"

definition personal_operation ::
  "docker_env \<Rightarrow> docker_executor \<Rightarrow> personal_request \<Rightarrow> personal_result docker_op" where
  "personal_operation d e rq =
     (let l = pr_lease rq in
      if \<not> pr_valid rq then refuse (Refused ''invalid request'')
      else if pr_action rq = ''export_data'' then refuse (Refused ''personal data export requires the dedicated stream endpoint'')
      else and_then (personal_handle d l) (\<lambda>found.
        if pr_action rq = ''delete_data'' then
          (if found \<noteq> None then refuse (Refused ''personal environment must be released before data deletion'')
           else and_then (delete_data d e l) (\<lambda>_. observed_now d rq ''deleted''))
        else if pr_action rq = ''release'' then
          (case found of
             None \<Rightarrow> observed_now d rq ''missing''
           | Some hd' \<Rightarrow> and_then (stop d hd') (\<lambda>_. observed_now d rq ''released''))
        else if pr_action rq = ''acquire'' then
          and_then (start d e l (plain_spec e (\<not> pr_create rq))) (use_environment d e rq)
        else case found of
          None \<Rightarrow>
            if pr_action rq = ''execute'' then refuse (LeaseRefused LeaseNotFound)
            else and_then (data_retired d e l) (\<lambda>retired. observed_now d rq (deleted_result retired))
        | Some hd' \<Rightarrow>
            and_then (read_env (dk_now d)) (\<lambda>now.
              if \<not> now < expires_at l
              then and_then (stop d hd') (\<lambda>_.
                if pr_action rq = ''execute'' then refuse (LeaseRefused LeaseExpired) else observed_now d rq ''expired'')
              else use_environment d e rq hd')))"

end
