(* ===== verification/EventLog.thy ===== *)
theory EventLog
  imports SohaPrelude
begin

text \<open>
  Logs of events that only grow. \<open>grows ok h h'\<close> says that the log h' extends h and that every event it adds is one
  that the policy \<open>ok\<close> allows after the log so far. A fact about a log is \<open>lasting\<close> when longer logs keep it. The
  logics of Docker commands and of host work are built on these two.
\<close>

named_theorems log_lasting \<open>facts about a log that longer logs keep\<close>

definition grows :: "('e list \<Rightarrow> 'e \<Rightarrow> bool) \<Rightarrow> 'e list \<Rightarrow> 'e list \<Rightarrow> bool" where
  "grows ok h h' \<longleftrightarrow> take (length h) h' = h
     \<and> (\<forall>n. length h \<le> n \<longrightarrow> n < length h' \<longrightarrow> ok (take n h') (h' ! n))"

definition lasting :: "('e list \<Rightarrow> bool) \<Rightarrow> bool" where
  "lasting P \<longleftrightarrow> (\<forall>h new. P h \<longrightarrow> P (h @ new))"

lemma grows_refl [simp]: "grows ok h h"
  by (simp add: grows_def)

lemma grows_longer: "grows ok h h' \<Longrightarrow> \<exists>new. h' = h @ new"
  unfolding grows_def by (metis append_take_drop_id)

lemma grows_trans:
  assumes "grows ok h h1" and "grows ok h1 h2"
  shows "grows ok h h2"
proof -
  obtain new where h1: "h1 = h @ new" using grows_longer [OF assms(1)] by blast
  obtain new' where h2: "h2 = h1 @ new'" using grows_longer [OF assms(2)] by blast
  have "ok (take n h2) (h2 ! n)" if "length h \<le> n" "n < length h2" for n
  proof (cases "n < length h1")
    case True
    then have "take n h2 = take n h1" "h2 ! n = h1 ! n" using h2 by (simp_all add: nth_append)
    with assms(1) that True show ?thesis by (simp add: grows_def)
  next
    case False
    with assms(2) that show ?thesis by (simp add: grows_def)
  qed
  then show ?thesis using h1 h2 by (simp add: grows_def)
qed

lemma grows_one: "ok h e \<Longrightarrow> grows ok h (h @ [e])"
  by (auto simp: grows_def nth_append)

lemma grows_member:
  assumes "grows (\<lambda>h. ok) h h'" and "e \<in> set h'"
  shows "e \<in> set h \<or> ok e"
proof -
  obtain n where n: "n < length h'" "e = h' ! n" using assms(2) by (metis in_set_conv_nth)
  show ?thesis
  proof (cases "n < length h")
    case True
    obtain new where "h' = h @ new" using grows_longer [OF assms(1)] by blast
    with n True show ?thesis by (simp add: nth_append)
  next
    case False
    with assms(1) n show ?thesis by (simp add: grows_def)
  qed
qed

lemma grows_new:
  assumes "grows (\<lambda>h. ok) h h'"
  shows "\<exists>new. h' = h @ new \<and> (\<forall>e \<in> set new. ok e)"
proof -
  obtain new where new: "h' = h @ new" using grows_longer [OF assms] by blast
  have "ok (new ! k)" if "k < length new" for k
    using assms that new by (auto simp: grows_def nth_append dest!: spec [of _ "length h + k"])
  then have "\<forall>e \<in> set new. ok e" by (metis in_set_conv_nth)
  with new show ?thesis by blast
qed

lemma grows_split: "grows ok [] (pre @ e # post) \<Longrightarrow> ok pre e"
  unfolding grows_def by (elim conjE allE [of _ "length pre"]) simp

lemma grows_at: "grows ok [] h \<Longrightarrow> e \<in> set h \<Longrightarrow> \<exists>pre. ok pre e"
  by (metis grows_split split_list)

lemma grows_mono: "grows ok h h' \<Longrightarrow> (\<And>g e. ok g e \<Longrightarrow> ok' g e) \<Longrightarrow> grows ok' h h'"
  by (simp add: grows_def)

lemma lasting_grows: "lasting P \<Longrightarrow> grows ok h h' \<Longrightarrow> P h \<Longrightarrow> P h'"
  using grows_longer [of ok h h'] by (auto simp: lasting_def)

lemma lasting_const [log_lasting, simp]: "lasting (\<lambda>h. b)"
  by (simp add: lasting_def)

lemma lasting_conj [log_lasting]: "lasting P \<Longrightarrow> lasting Q \<Longrightarrow> lasting (\<lambda>h. P h \<and> Q h)"
  by (simp add: lasting_def)

lemma lasting_imp [log_lasting]: "lasting Q \<Longrightarrow> lasting (\<lambda>h. b \<longrightarrow> Q h)"
  by (simp add: lasting_def)

lemma lasting_option [log_lasting]:
  "lasting P \<Longrightarrow> (\<And>y. lasting (Q y)) \<Longrightarrow> lasting (\<lambda>h. case x of None \<Rightarrow> P h | Some y \<Rightarrow> Q y h)"
  by (cases x) simp_all

lemma lasting_all [log_lasting]: "(\<And>x. lasting (Q x)) \<Longrightarrow> lasting (\<lambda>h. \<forall>x. Q x h)"
  by (simp add: lasting_def)

lemma lasting_member [log_lasting]: "lasting (\<lambda>h. e \<in> set h)"
  by (simp add: lasting_def)

end
