(* ===== verification/DockerSafety.thy ===== *)
theory DockerSafety
  imports DockerExec EventLog
begin

text \<open>
  What the Docker executor may and may not do to containers and volumes.

  A small Hoare logic over the log: \<open>keeps ok P m Q\<close> says that from a log with \<open>P\<close> every command that \<open>m\<close> issues is
  one that the policy \<open>ok\<close> allows after the log so far, and that a result satisfies \<open>Q\<close>. The locale
  \<open>docker_calls\<close> says which commands a policy must allow for running, inspecting and stopping an
  environment, \<open>docker_lifecycle\<close> adds creation, deletion and export; the operations are proved once for any such
  policy, and two policies are instances.
\<close>

subsection \<open>A logic of commands\<close>

definition allowed :: "(docker_log \<Rightarrow> string list \<Rightarrow> bool) \<Rightarrow> docker_log \<Rightarrow> docker_log \<Rightarrow> bool" where
  "allowed ok = grows (\<lambda>h e. ok h (fst e))"

definition keeps ::
  "(docker_log \<Rightarrow> string list \<Rightarrow> bool) \<Rightarrow> (docker_log \<Rightarrow> bool) \<Rightarrow> 'a docker_op \<Rightarrow> ('a \<Rightarrow> docker_log \<Rightarrow> bool) \<Rightarrow> bool" where
  "keeps ok P m Q \<longleftrightarrow>
     (\<forall>h. P h \<longrightarrow> allowed ok h (snd (m h)) \<and> (\<forall>x. fst (m h) = Inr x \<longrightarrow> Q x (snd (m h))))"

named_theorems docker_rule \<open>rules of the logic of commands\<close>
named_theorems docker_fact \<open>what the remaining goals of the logic of commands unfold\<close>

lemma allowed_refl [simp]: "allowed ok h h"
  by (simp add: allowed_def)

lemma allowed_longer: "allowed ok h h' \<Longrightarrow> \<exists>new. h' = h @ new"
  unfolding allowed_def by (rule grows_longer)

lemma allowed_trans: "allowed ok h h1 \<Longrightarrow> allowed ok h1 h2 \<Longrightarrow> allowed ok h h2"
  unfolding allowed_def by (rule grows_trans)

lemma allowed_one: "ok h c \<Longrightarrow> allowed ok h (h @ [(c, r)])"
  unfolding allowed_def by (rule grows_one) simp

lemma keeps_give [simp]: "keeps ok P (give x) Q \<longleftrightarrow> (\<forall>h. P h \<longrightarrow> Q x h)"
  by (simp add: keeps_def give_def)

lemma keeps_given [docker_rule]: "keeps ok P (give x) (\<lambda>y h. True)"
  by simp

lemma keeps_refuse [docker_rule]: "keeps ok P (refuse e) Q"
  by (simp add: keeps_def refuse_def)

lemma keeps_then [docker_rule]:
  assumes "lasting P" and m: "keeps ok P m Q" and f: "\<And>x. keeps ok (\<lambda>h. P h \<and> Q x h) (f x) R"
  shows "keeps ok P (and_then m f) R"
  unfolding keeps_def
proof (intro allI impI)
  fix h assume P: "P h"
  obtain r h1 where r: "m h = (r, h1)" by (metis surj_pair)
  from m P r have a: "allowed ok h h1" and q: "\<And>x. r = Inr x \<Longrightarrow> Q x h1" by (auto simp: keeps_def)
  from allowed_longer [OF a] \<open>lasting P\<close> P have "P h1" by (auto simp: lasting_def)
  show "allowed ok h (snd (and_then m f h)) \<and> (\<forall>x. fst (and_then m f h) = Inr x \<longrightarrow> R x (snd (and_then m f h)))"
  proof (cases r)
    case (Inl e)
    with r a show ?thesis by (simp add: and_then_def)
  next
    case (Inr x)
    with f [of x] \<open>P h1\<close> q have "allowed ok h1 (snd (f x h1))"
      "\<forall>y. fst (f x h1) = Inr y \<longrightarrow> R y (snd (f x h1))" by (auto simp: keeps_def)
    with r Inr allowed_trans [OF a] show ?thesis by (simp add: and_then_def)
  qed
qed

lemma keeps_attempt [docker_rule]: "keeps ok P m Q \<Longrightarrow> keeps ok P (attempt m) (\<lambda>r h. \<forall>x. r = Inr x \<longrightarrow> Q x h)"
  by (auto simp: keeps_def attempt_def split: prod.splits)

lemma keeps_settle [docker_rule]: "keeps ok P (settle r) (\<lambda>x h. r = Inr x)"
  by (simp add: keeps_def settle_def)

lemma keeps_require [docker_rule]: "keeps ok P (require b e) (\<lambda>x h. b)"
  by (simp add: keeps_def require_def)

lemma keeps_read [docker_rule]: "keeps ok P (read_env f) (\<lambda>x h. True)"
  by (simp add: keeps_def read_env_def)

lemma keeps_docker: "(\<And>h. P h \<Longrightarrow> ok h args) \<Longrightarrow> keeps ok P (docker d args) (\<lambda>out h. (args, Some out) \<in> set h)"
  by (auto simp: keeps_def docker_def Let_def allowed_one split: option.splits)

lemma keeps_stream: "(\<And>h. P h \<Longrightarrow> ok h args) \<Longrightarrow> keeps ok P (docker_stream d args) (\<lambda>out h. True)"
  by (simp add: keeps_def docker_stream_def Let_def allowed_one)

lemma keeps_weaken: "keeps ok P m Q \<Longrightarrow> (\<And>h. P' h \<Longrightarrow> P h) \<Longrightarrow> (\<And>x h. Q x h \<Longrightarrow> Q' x h) \<Longrightarrow> keeps ok P' m Q'"
  by (auto simp: keeps_def)

lemma keeps_ends:
  "(\<And>h. P h \<Longrightarrow> b \<Longrightarrow> Q () h) \<Longrightarrow> keeps ok P (require b e) Q"
  "(\<And>h x. P h \<Longrightarrow> r = Inr x \<Longrightarrow> R x h) \<Longrightarrow> keeps ok P (settle r) R"
  "(\<And>h. P h \<Longrightarrow> S (f h) h) \<Longrightarrow> keeps ok P (read_env f) S"
  by (auto simp: keeps_def require_def settle_def read_env_def)

lemma keeps_from: "keeps ok (\<lambda>h. True) m Q \<Longrightarrow> keeps ok P m Q"
  by (simp add: keeps_def)

lemma keeps_if [docker_rule]: "(b \<Longrightarrow> keeps ok P m Q) \<Longrightarrow> (\<not> b \<Longrightarrow> keeps ok P m' Q) \<Longrightarrow> keeps ok P (if b then m else m') Q"
  by simp

lemma keeps_option [docker_rule]:
  "(x = None \<Longrightarrow> keeps ok P m Q) \<Longrightarrow> (\<And>y. x = Some y \<Longrightarrow> keeps ok P (f y) Q) \<Longrightarrow>
   keeps ok P (case x of None \<Rightarrow> m | Some y \<Rightarrow> f y) Q"
  by (cases x) simp_all

lemma keeps_sum [docker_rule]:
  "(\<And>e. x = Inl e \<Longrightarrow> keeps ok P (g e) Q) \<Longrightarrow> (\<And>y. x = Inr y \<Longrightarrow> keeps ok P (f y) Q) \<Longrightarrow>
   keeps ok P (case x of Inl e \<Rightarrow> g e | Inr y \<Rightarrow> f y) Q"
  by (cases x) simp_all

lemma keeps_pair [docker_rule]: "(\<And>a b. x = (a, b) \<Longrightarrow> keeps ok P (f a b) Q) \<Longrightarrow> keeps ok P (case x of (a, b) \<Rightarrow> f a b) Q"
  by (cases x) simp

lemma keeps_let [docker_rule]: "(\<And>y. y = x \<Longrightarrow> keeps ok P (f y) Q) \<Longrightarrow> keeps ok P (let y = x in f y) Q"
  by simp

subsection \<open>Evidence in the log\<close>

definition shown :: "docker_env \<Rightarrow> docker_log \<Rightarrow> string \<Rightarrow> docker_record \<Rightarrow> bool" where
  "shown d h i r \<longleftrightarrow> (\<exists>out. (inspect_command i, Some out) \<in> set h \<and> dk_record d out = Some r)"

text \<open>An admitted container showed a receipt that makes it the environment of a lease; an owned one is admitted or
  showed the kind of one of the agent's helpers.\<close>

definition admitted :: "docker_env \<Rightarrow> docker_log \<Rightarrow> string \<Rightarrow> bool" where
  "admitted d h i \<longleftrightarrow> (\<exists>j r hd'. shown d h j r \<and> handle_id hd' = i \<and> check_handle d hd' r = None)"

definition owned :: "docker_env \<Rightarrow> docker_log \<Rightarrow> string \<Rightarrow> bool" where
  "owned d h i \<longleftrightarrow> admitted d h i
     \<or> (\<exists>j r. shown d h j r \<and> (j = i \<or> dr_id r = i) \<and> label_of (dr_labels r) [] \<in> {command_kind, quota_kind, export_kind})"

definition vacant :: "docker_env \<Rightarrow> docker_log \<Rightarrow> string \<Rightarrow> bool" where
  "vacant d h name \<longleftrightarrow> (\<exists>out. (list_command name, Some out) \<in> set h \<and> trim_space out = [])"

definition unattached :: "docker_log \<Rightarrow> string \<Rightarrow> bool" where
  "unattached h v \<longleftrightarrow> (\<exists>out. (attached_command v, Some out) \<in> set h \<and> trim_space out = [])"

definition probe_volume :: "docker_env \<Rightarrow> docker_log \<Rightarrow> string \<Rightarrow> bool" where
  "probe_volume d h v \<longleftrightarrow> (\<exists>i out labels. v = personal_volume d (probe_prefix @ i) \<and> dk_canonical_uuid d i
     \<and> (labels_command v, Some out) \<in> set h \<and> dk_labels d out = Some labels \<and> label_of labels ''.probe'' = i)"

lemma lasting_evidence [log_lasting]:
  "lasting (\<lambda>h. shown d h i r)" "lasting (\<lambda>h. admitted d h i)" "lasting (\<lambda>h. owned d h i)" "lasting (\<lambda>h. vacant d h name)"
  "lasting (\<lambda>h. unattached h v)" "lasting (\<lambda>h. probe_volume d h v)"
  unfolding lasting_def shown_def admitted_def owned_def vacant_def unattached_def probe_volume_def
  by (simp_all, blast+)

definition read_command :: "string list \<Rightarrow> bool" where
  "read_command c \<longleftrightarrow> take 1 c \<in> {[''info''], [''top'']}
     \<or> take 2 c \<in> {[''container'', ''ls''], [''container'', ''inspect''], [''volume'', ''ls''], [''volume'', ''inspect'']}"

definition exec_command :: "string \<Rightarrow> string list \<Rightarrow> bool" where
  "exec_command i c \<longleftrightarrow> take 2 c = [''exec'', ''--user''] \<and> 3 < length c \<and> c ! 3 = i"

text \<open>The dispatch of a task's command.\<close>

definition dispatch :: "string list \<Rightarrow> bool" where
  "dispatch c \<longleftrightarrow> take 4 c = [''exec'', ''--user'', ''1000:1000'', ''--workdir'']"

declare read_command_def [docker_fact] exec_command_def [docker_fact] dispatch_def [docker_fact]

subsection \<open>Running, inspecting and stopping\<close>

locale docker_upkeep =
  fixes d :: docker_env and ok :: "docker_log \<Rightarrow> string list \<Rightarrow> bool" and helper_ok :: "string list \<Rightarrow> bool"
  assumes reads: "read_command c \<Longrightarrow> ok h c"
    and removes: "owned d h i \<Longrightarrow> ok h [''container'', ''rm'', ''--force'', i]"
    and execs: "admitted d h i \<Longrightarrow> exec_command i c \<Longrightarrow> ok h c"
    and fences: "ok h (fence_args d e p cid t)"
    and helpers: "helper_ok cmd \<Longrightarrow> ok h (helper_args hp name ref v cmd)"
    and quota_command: "helper_ok [''/bin/sh'', ''-ec'', quota_script, ''quota'', q, ''false'']"
    and usage_command: "helper_ok [''btrfs'', ''qgroup'', ''show'', ''--sync'', ''-rf'', ''--raw'', ''/probe/data'']"
begin

lemma keeps_reading:
  "read_command args \<Longrightarrow> keeps ok P (docker d args) (\<lambda>out h. (args, Some out) \<in> set h)"
  by (rule keeps_docker) (rule reads)

declare log_lasting [docker_rule]

lemma record_shown [THEN keeps_from, docker_rule]:
  "keeps ok (\<lambda>h. True) (container_record d i) (\<lambda>r h. case r of None \<Rightarrow> vacant d h i | Some r \<Rightarrow> shown d h i r)"
  unfolding container_record_def
  by (rule docker_rule | (rule keeps_reading; simp add: docker_fact; fail) | rule keeps_ends
      | (force simp: vacant_def shown_def; fail))+

lemma handle_checked [THEN keeps_from, docker_rule]:
  "keeps ok (\<lambda>h. True) (validate_handle d hd' r) (\<lambda>x h. check_handle d hd' r = None)"
  unfolding validate_handle_def by (rule docker_rule | (rule keeps_reading; simp add: docker_fact; fail) | rule keeps_ends | (force; fail))+

lemma verify_volume_keeps [THEN keeps_from, docker_rule]: "keeps ok (\<lambda>h. True) (verify_volume d l) (\<lambda>x h. True)"
  unfolding verify_volume_def by (rule docker_rule | (rule keeps_reading; simp add: docker_fact; fail) | rule keeps_ends | (force; fail))+

lemma parse_quota_keeps [docker_rule]: "keeps ok P (parse_volume_quota out q) (\<lambda>x h. True)"
  unfolding parse_volume_quota_def by (rule docker_rule | (rule keeps_reading; simp add: docker_fact; fail) | rule keeps_ends | (force; fail))+

lemma owned_helper:
  "shown d h i r \<Longrightarrow> label_of (dr_labels r) [] \<in> {command_kind, quota_kind, export_kind} \<Longrightarrow> owned d h i \<and> owned d h (dr_id r)"
  unfolding owned_def by blast

lemma admitted_handle: "shown d h j r \<Longrightarrow> check_handle d hd' r = None \<Longrightarrow> admitted d h (handle_id hd')"
  unfolding admitted_def by blast

lemma keeps_removal:
  "(\<And>h. P h \<Longrightarrow> owned d h i) \<Longrightarrow> keeps ok P (docker d [''container'', ''rm'', ''--force'', i]) (\<lambda>out h. True)"
  by (rule keeps_weaken [OF keeps_docker [where P = P]]) (auto intro: removes)

lemma keeps_exec:
  "exec_command i c \<Longrightarrow> (\<And>h. P h \<Longrightarrow> admitted d h i) \<Longrightarrow> keeps ok P (docker d c) (\<lambda>out h. True)"
  by (rule keeps_weaken [OF keeps_docker [where P = P]]) (auto intro: execs)

lemma keeps_helper:
  "helper_ok cmd \<Longrightarrow> keeps ok P (docker d (helper_args hp name ref v cmd)) (\<lambda>out h. True)"
  by (rule keeps_weaken [OF keeps_docker [where P = P]]) (auto intro: helpers)

lemma quota_helper_keeps [THEN keeps_from, docker_rule]:
  assumes "helper_ok cmd"
  shows "keeps ok (\<lambda>h. True) (quota_helper d hp v cmd) (\<lambda>x h. True)"
  unfolding quota_helper_def
  by (rule docker_rule keeps_helper [OF assms] keeps_removal
      | (rule keeps_reading; simp add: docker_fact; fail) | rule keeps_ends | (force dest: owned_helper; fail))+

lemma prepare_quota_keeps [THEN keeps_from, docker_rule]:
  "keeps ok (\<lambda>h. True) (prepare_quota d e l False) (\<lambda>x h. True)"
  unfolding prepare_quota_def bool_text_def
  by (rule docker_rule | (simp add: quota_command; fail) | (force; fail))+

lemma keep_volume [THEN keeps_from, docker_rule]: "keeps ok (\<lambda>h. True) (ensure_volume d e l False) (\<lambda>x h. True)"
  unfolding ensure_volume_def by (rule docker_rule | (force; fail))+

lemma volume_usage_keeps [THEN keeps_from, docker_rule]: "keeps ok (\<lambda>h. True) (volume_usage d e l) (\<lambda>x h. True)"
  unfolding volume_usage_def by (rule docker_rule usage_command | (force; fail))+

lemma require_running_keeps [docker_rule]:
  "(\<And>h. P h \<Longrightarrow> admitted d h i) \<Longrightarrow> lasting P \<Longrightarrow> keeps ok P (require_running d i) (\<lambda>x h. True)"
  unfolding require_running_def
  by (rule docker_rule | (rule keeps_reading; simp add: docker_fact; fail) | (rule keeps_exec [where i = i]; simp add: docker_fact; fail)
      | rule keeps_ends | assumption | (force; fail))+

lemma remove_fence_keeps [THEN keeps_from, docker_rule]: "keeps ok (\<lambda>h. True) (remove_fence d f) (\<lambda>x h. True)"
  unfolding remove_fence_def by (rule docker_rule keeps_removal | (force dest: owned_helper; fail))+

lemma remove_parent_fence_keeps [THEN keeps_from, docker_rule]:
  "keeps ok (\<lambda>h. True) (remove_parent_fence d p) (\<lambda>x h. True)"
  unfolding remove_parent_fence_def by (rule docker_rule | (force; fail))+

lemma stop_keeps [THEN keeps_from, docker_rule]: "keeps ok (\<lambda>h. True) (stop d hd') (\<lambda>x h. True)"
  unfolding stop_def
  by (rule docker_rule keeps_removal | (force dest: admitted_handle simp: owned_def; fail))+

lemma active_lease_keeps [THEN keeps_from, docker_rule]:
  "keeps ok (\<lambda>h. True) (active_lease d e hd') (\<lambda>l h. admitted d h (handle_id hd'))"
  unfolding active_lease_def by (rule docker_rule | (force dest: admitted_handle; fail))+

lemma only_supervisor_keeps [THEN keeps_from, docker_rule]: "keeps ok (\<lambda>h. True) (require_only_supervisor d hd') (\<lambda>x h. True)"
  unfolding require_only_supervisor_def
  by (rule docker_rule | (rule keeps_reading; simp add: docker_fact; fail) | rule keeps_ends | (force; fail))+

lemma foreign_fence_keeps [THEN keeps_from, docker_rule]: "keeps ok (\<lambda>h. True) (foreign_fence d p r) (\<lambda>x h. True)"
  unfolding foreign_fence_def by (rule docker_rule | (force; fail))+

lemma keeps_fence: "keeps ok P (docker d (fence_args d e p cid t)) (\<lambda>out h. True)"
  by (rule keeps_weaken [OF keeps_docker [where P = P]]) (auto intro: fences)

lemma acquire_fence_keeps [THEN keeps_from, docker_rule]: "keeps ok (\<lambda>h. True) (acquire_fence d e p) (\<lambda>x h. True)"
  unfolding acquire_fence_def by (rule docker_rule keeps_fence | (force; fail))+

lemma task_workspace_keeps [docker_rule]:
  "(\<And>h. P h \<Longrightarrow> admitted d h (handle_id hd')) \<Longrightarrow> lasting P \<Longrightarrow> keeps ok P (task_workspace d hd' task) (\<lambda>x h. True)"
  unfolding task_workspace_def
  by (rule docker_rule | (rule keeps_exec [where i = "handle_id hd'"]; simp add: docker_fact; fail) | assumption | (force; fail))+

lemma clean_up_keeps [THEN keeps_from, docker_rule]: "keeps ok (\<lambda>h. True) (clean_up d hd' fence r) (\<lambda>x h. True)"
  unfolding clean_up_def by (rule docker_rule | rule keeps_ends | (force; fail))+

lemma inspect_keeps [THEN keeps_from, docker_rule]: "keeps ok (\<lambda>h. True) (inspect d e hd') (\<lambda>x h. True)"
  unfolding inspect_def
  by (rule docker_rule | (rule keeps_exec [where i = "handle_id hd'"]; simp add: docker_fact; fail) | (force; fail))+

lemma unused_keeps [THEN keeps_from, docker_rule]:
  "keeps ok (\<lambda>h. True) (require_unused d v) (\<lambda>x h. unattached h v)"
  unfolding require_unused_def
  by (rule docker_rule | (rule keeps_reading; simp add: docker_fact attached_command_def; fail) | rule keeps_ends
      | (force simp: unattached_def; fail))+

lemma personal_handle_keeps [THEN keeps_from, docker_rule]: "keeps ok (\<lambda>h. True) (personal_handle d l) (\<lambda>x h. True)"
  unfolding personal_handle_def by (rule docker_rule | (force; fail))+

lemma verify_limits_keeps [THEN keeps_from, docker_rule]: "keeps ok (\<lambda>h. True) (verify_limits d hd' q) (\<lambda>x h. True)"
  unfolding verify_limits_def
  by (rule docker_rule | (rule keeps_reading; simp add: docker_fact; fail) | rule keeps_ends | (force; fail))+

lemma receipts_keeps [docker_rule]: "keeps ok P (expired_receipts d now valid data) (\<lambda>x h. True)"
  unfolding expired_receipts_def by (rule keeps_ends) simp

lemma gc_lease_keeps [THEN keeps_from, docker_rule]: "keeps ok (\<lambda>h. True) (gc_lease d i now) (\<lambda>x h. True)"
  unfolding gc_lease_def by (rule docker_rule | (force; fail))+

lemma gc_leases_keeps [THEN keeps_from, docker_rule]:
  "keeps ok (\<lambda>h. True) (gc_leases d now ids released failure) (\<lambda>x h. True)"
proof (induction ids arbitrary: released failure)
  case (Cons i ids)
  note IH = Cons.IH [THEN keeps_from]
  show ?case unfolding gc_leases.simps by (rule docker_rule IH | (force; fail))+
qed simp

lemma gc_fence_keeps [THEN keeps_from, docker_rule]: "keeps ok (\<lambda>h. True) (gc_fence d i) (\<lambda>x h. True)"
  unfolding gc_fence_def by (rule docker_rule | (force; fail))+

lemma gc_each_keeps:
  assumes "\<And>i. keeps ok (\<lambda>h. True) (f i) (\<lambda>x h. True)"
  shows "keeps ok (\<lambda>h. True) (gc_each d b f ids failure) (\<lambda>x h. True)"
proof (induction ids arbitrary: failure)
  case (Cons i ids)
  note IH = Cons.IH [THEN keeps_from] and f = assms [THEN keeps_from]
  show ?case unfolding gc_each.simps by (rule docker_rule IH f | (force; fail))+
qed simp

lemma context_error_keeps [THEN keeps_from, docker_rule]: "keeps ok (\<lambda>h. True) (with_context_error d f) (\<lambda>x h. True)"
  unfolding with_context_error_def by (rule docker_rule | rule keeps_ends | (force; fail))+

lemma gc_fences_keeps [THEN keeps_from, docker_rule]: "keeps ok (\<lambda>h. True) (gc_fences d now) (\<lambda>x h. True)"
  unfolding gc_fences_def
  by (rule docker_rule gc_each_keeps [THEN keeps_from] | (rule keeps_reading; simp add: docker_fact; fail) | rule keeps_ends
      | (force; fail))+

end

text \<open>The commands of tasks.\<close>

locale docker_calls = docker_upkeep +
  assumes dispatches: "admitted d h i \<Longrightarrow> dispatch c \<Longrightarrow> 5 < length c \<Longrightarrow> c ! 5 = i \<Longrightarrow> ok h c"
begin

lemma keeps_dispatch:
  "dispatch c \<Longrightarrow> 5 < length c \<Longrightarrow> c ! 5 = i \<Longrightarrow> (\<And>h. P h \<Longrightarrow> admitted d h i) \<Longrightarrow>
   keeps ok P (docker d c) (\<lambda>out h. True)"
  by (rule keeps_weaken [OF keeps_docker [where P = P]]) (auto intro: dispatches)

lemma run_command_keeps [docker_rule]:
  "(\<And>h. P h \<Longrightarrow> admitted d h (handle_id hd')) \<Longrightarrow> lasting P \<Longrightarrow> keeps ok P (run_command d hd' w argv) (\<lambda>x h. True)"
  unfolding run_command_def
  by (rule docker_rule | (rule keeps_dispatch [where i = "handle_id hd'"]; simp add: docker_fact; fail) | assumption | (force; fail))+

lemma fenced_command_keeps [THEN keeps_from, docker_rule]:
  "keeps ok (\<lambda>h. True) (fenced_command d e hd' l task argv) (\<lambda>x h. True)"
  unfolding fenced_command_def by (rule docker_rule | (force; fail))+

lemma execute_command_keeps [THEN keeps_from, docker_rule]:
  "keeps ok (\<lambda>h. True) (execute_command d e hd' task argv) (\<lambda>x h. True)"
  unfolding execute_command_def by (rule docker_rule | (force; fail))+

end

text \<open>Creating, deleting, exporting and probing.\<close>

locale docker_lifecycle = docker_calls +
  assumes creates: "vacant d h name \<Longrightarrow> ok h (container_args d e l name ref v)"
    and volumes: "ok h ([''volume'', ''create''] @ c)"
    and exports: "ok h (export_args e q name ref v)"
    and create_command: "helper_ok [''/bin/sh'', ''-ec'', quota_script, ''quota'', q', ''true'']"
    and retired_command: "helper_ok [''/bin/sh'', ''-ec'', retired_script]"
    and retires: "unattached h v \<Longrightarrow> ok h (helper_args hp name ref v [''/bin/sh'', ''-ec'', retire_script])"
    and probes: "probe_volume d h v \<Longrightarrow> ok h (helper_args hp name ref v [''/bin/sh'', ''-ec'', probe_script])"
    and volume_removals: "probe_volume d h v \<Longrightarrow> ok h [''volume'', ''rm'', v]"
begin

lemma keeps_volume: "keeps ok P (docker d (''volume'' # ''create'' # c)) (\<lambda>out h. True)"
  by (rule keeps_weaken [OF keeps_docker [where P = P]]) (use volumes in auto)

lemma ensure_volume_keeps [THEN keeps_from, docker_rule]: "keeps ok (\<lambda>h. True) (ensure_volume d e l c) (\<lambda>x h. True)"
proof (cases c)
  case True
  have q: "keeps ok P (prepare_quota d e l True) (\<lambda>x h. True)" for P
    unfolding prepare_quota_def bool_text_def
    by (rule keeps_from) (rule docker_rule | (simp add: create_command; fail) | (force; fail))+
  have "keeps ok (\<lambda>h. True) (ensure_volume d e l True) (\<lambda>x h. True)"
    unfolding ensure_volume_def by (rule docker_rule keeps_volume q | (force; fail))+
  with True show ?thesis by simp
qed (use keep_volume in simp)

lemma keeps_creation:
  "(\<And>h. P h \<Longrightarrow> vacant d h name) \<Longrightarrow> keeps ok P (docker d (container_args d e l name ref v)) (\<lambda>out h. True)"
  by (rule keeps_weaken [OF keeps_docker [where P = P]]) (auto intro: creates)

lemma adopt_keeps [docker_rule]:
  "(\<And>h. P h \<Longrightarrow> shown d h i r) \<Longrightarrow> lasting P \<Longrightarrow> keeps ok P (adopt_container d e l ref r) (\<lambda>x h. True)"
  unfolding adopt_container_def
  by (rule docker_rule | assumption | (force dest: admitted_handle; fail))+

lemma create_keeps [docker_rule]:
  "(\<And>h. P h \<Longrightarrow> vacant d h name) \<Longrightarrow> lasting P \<Longrightarrow> keeps ok P (create_container d e l existing name ref) (\<lambda>x h. True)"
  unfolding create_container_def
  by (rule docker_rule keeps_creation | assumption | (force dest: admitted_handle; fail))+

lemma start_keeps [THEN keeps_from, docker_rule]: "keeps ok (\<lambda>h. True) (start d e l s) (\<lambda>x h. True)"
  unfolding start_def
  by (rule docker_rule | (rule keeps_reading; simp add: docker_fact; fail) | (force; fail))+

lemma keeps_retirement:
  "(\<And>h. P h \<Longrightarrow> unattached h v) \<Longrightarrow>
   keeps ok P (docker d (helper_args hp name ref v [''/bin/sh'', ''-ec'', retire_script])) (\<lambda>out h. True)"
  by (rule keeps_weaken [OF keeps_docker [where P = P]]) (auto intro: retires)

lemma keeps_probe_clearing:
  "(\<And>h. P h \<Longrightarrow> probe_volume d h v) \<Longrightarrow>
   keeps ok P (docker d (helper_args hp name ref v [''/bin/sh'', ''-ec'', probe_script])) (\<lambda>out h. True)"
  by (rule keeps_weaken [OF keeps_docker [where P = P]]) (auto intro: probes)

lemma keeps_volume_removal:
  "(\<And>h. P h \<Longrightarrow> probe_volume d h v) \<Longrightarrow> keeps ok P (docker d [''volume'', ''rm'', v]) (\<lambda>out h. True)"
  by (rule keeps_weaken [OF keeps_docker [where P = P]]) (auto intro: volume_removals)

lemma retire_helper_keeps:
  assumes "\<And>h. P h \<Longrightarrow> unattached h v" and "lasting P"
  shows "keeps ok P (quota_helper d hp v [''/bin/sh'', ''-ec'', retire_script]) (\<lambda>x h. True)"
  unfolding quota_helper_def using assms
  by - (rule docker_rule keeps_retirement keeps_removal | rule keeps_ends | assumption | (force dest: owned_helper; fail))+

lemma probe_helper_keeps:
  assumes "\<And>h. P h \<Longrightarrow> probe_volume d h v" and "lasting P"
  shows "keeps ok P (quota_helper d hp v [''/bin/sh'', ''-ec'', probe_script]) (\<lambda>x h. True)"
  unfolding quota_helper_def using assms
  by - (rule docker_rule keeps_probe_clearing keeps_removal | rule keeps_ends | assumption | (force dest: owned_helper; fail))+

lemma unused_any: "keeps ok P (require_unused d v) (\<lambda>x h. True)"
  by (rule keeps_weaken [OF unused_keeps]) simp_all

lemma delete_data_keeps [THEN keeps_from, docker_rule]: "keeps ok (\<lambda>h. True) (delete_data d e l) (\<lambda>x h. True)"
  unfolding delete_data_def by (rule retire_helper_keeps | rule docker_rule | rule unused_any | (force; fail))+

lemma data_retired_keeps [THEN keeps_from, docker_rule]: "keeps ok (\<lambda>h. True) (data_retired d e l) (\<lambda>x h. True)"
  unfolding data_retired_def
  by (rule docker_rule retired_command | (rule keeps_reading; simp add: docker_fact list_volume_def; fail) | (force; fail))+

lemma keeps_export: "keeps ok P (docker_stream d (export_args e q name ref v)) (\<lambda>out h. True)"
  by (rule keeps_stream) (rule exports)

lemma remove_export_keeps [THEN keeps_from, docker_rule]: "keeps ok (\<lambda>h. True) (remove_export d name ref) (\<lambda>x h. True)"
  unfolding remove_export_def by (rule docker_rule keeps_removal | (force dest: owned_helper; fail))+

lemma export_keeps [THEN keeps_from, docker_rule]: "keeps ok (\<lambda>h. True) (export_data d e rq) (\<lambda>x h. True)"
  unfolding export_data_def Let_def by (rule docker_rule keeps_export | rule keeps_ends | (force; fail))+

lemma create_probe_keeps [THEN keeps_from, docker_rule]: "keeps ok (\<lambda>h. True) (create_probe_volume d l) (\<lambda>x h. True)"
  unfolding create_probe_volume_def by (rule docker_rule keeps_volume | (force; fail))+

lemma remove_probe_keeps [THEN keeps_from]:
  assumes "dk_canonical_uuid d (lease_id l)" and "owner_id l = probe_prefix @ lease_id l"
  shows "keeps ok (\<lambda>h. True) (remove_probe_volume d e l) (\<lambda>x h. True)"
  unfolding remove_probe_volume_def Let_def
  by (rule probe_helper_keeps | rule docker_rule keeps_volume_removal
      | (rule keeps_reading; simp add: docker_fact list_volume_def labels_command_def; fail)
      | (use assms in \<open>force simp: probe_volume_def\<close>; fail))+

lemma cleanup_probe_keeps [THEN keeps_from, docker_rule]: "keeps ok (\<lambda>h. True) (cleanup_probe d e l) (\<lambda>x h. True)"
proof (cases "dk_canonical_uuid d (lease_id l) \<and> owner_id l = probe_prefix @ lease_id l")
  case True
  then have r: "keeps ok P (remove_probe_volume d e l) (\<lambda>x h. True)" for P by (intro remove_probe_keeps) simp_all
  show ?thesis unfolding cleanup_probe_def by (rule docker_rule r | (force; fail))+
next
  case False
  then show ?thesis by (auto simp: cleanup_probe_def keeps_refuse)
qed

lemma preflight_keeps [THEN keeps_from, docker_rule]: "keeps ok (\<lambda>h. True) (preflight d e rq) (\<lambda>x h. True)"
  unfolding preflight_def probe_body_def by (rule docker_rule | rule keeps_ends | (force; fail))+

lemma recover_probe_keeps: "keeps ok (\<lambda>h. True) (recover_probe d e now name) (\<lambda>x h. True)"
  unfolding recover_probe_def
  by (rule docker_rule | (rule keeps_reading; simp add: docker_fact labels_command_def; fail) | (force; fail))+

lemma gc_probes_keeps [THEN keeps_from, docker_rule]: "keeps ok (\<lambda>h. True) (gc_probes d e now) (\<lambda>x h. True)"
  unfolding gc_probes_def
  by (rule docker_rule gc_each_keeps [THEN keeps_from] recover_probe_keeps
      | (rule keeps_reading; simp add: docker_fact; fail) | (force; fail))+

lemma gc_keeps [THEN keeps_from, docker_rule]: "keeps ok (\<lambda>h. True) (gc d e now) (\<lambda>x h. True)"
  unfolding gc_def by (rule docker_rule | (rule keeps_reading; simp add: docker_fact; fail) | (force; fail))+

lemma observed_keeps [THEN keeps_from, docker_rule]: "keeps ok (\<lambda>h. True) (observed_now d rq st) (\<lambda>x h. True)"
  unfolding observed_now_def by (rule docker_rule)

lemma use_environment_keeps [THEN keeps_from, docker_rule]:
  "keeps ok (\<lambda>h. True) (use_environment d e rq hd') (\<lambda>x h. True)"
  unfolding use_environment_def Let_def by (rule docker_rule | (force; fail))+

lemma personal_operation_keeps [THEN keeps_from, docker_rule]:
  "keeps ok (\<lambda>h. True) (personal_operation d e rq) (\<lambda>x h. True)"
  unfolding personal_operation_def Let_def by (rule docker_rule | (force; fail))+

end

subsection \<open>Two policies\<close>

lemma helper_args_inj:
  "helper_args hp name ref v cmd = helper_args hp' name' ref' v' cmd' \<Longrightarrow> v = v' \<and> hd cmd = hd cmd' \<and> tl cmd = tl cmd'"
  by (simp add: helper_args_def)

lemma helper_args_other:
  "hd c \<noteq> ''run'' \<Longrightarrow> c \<noteq> helper_args hp name ref v cmd" "take 2 c \<noteq> [''run'', ''--rm''] \<Longrightarrow> c \<noteq> helper_args hp name ref v cmd"
  by (auto simp: helper_args_def)

text \<open>Every removal, execution, creation and deletion has its reason in the log.\<close>

definition justified :: "docker_env \<Rightarrow> docker_log \<Rightarrow> string list \<Rightarrow> bool" where
  "justified d h c \<longleftrightarrow>
     (take 3 c = [''container'', ''rm'', ''--force''] \<longrightarrow> owned d h (c ! 3))
     \<and> (take 1 c = [''exec''] \<longrightarrow> admitted d h (c ! 3) \<or> c ! 3 = ''--workdir'' \<and> admitted d h (c ! 5))
     \<and> (take 2 c = [''run'', ''--detach''] \<longrightarrow> vacant d h (c ! 3))
     \<and> (take 2 c = [''volume'', ''rm''] \<longrightarrow> probe_volume d h (c ! 2))
     \<and> (\<forall>hp name ref v. c = helper_args hp name ref v [''/bin/sh'', ''-ec'', retire_script] \<longrightarrow> unattached h v)
     \<and> (\<forall>hp name ref v. c = helper_args hp name ref v [''/bin/sh'', ''-ec'', probe_script] \<longrightarrow> probe_volume d h v)"

text \<open>A command that neither creates nor deletes environments or data.\<close>

definition leaves_data :: "string list \<Rightarrow> bool" where
  "leaves_data c \<longleftrightarrow>
     take 2 c \<noteq> [''run'', ''--detach''] \<and> take 2 c \<noteq> [''volume'', ''rm''] \<and> take 2 c \<noteq> [''volume'', ''create'']
     \<and> (\<forall>hp name ref v script rest. c = helper_args hp name ref v ([''/bin/sh'', ''-ec'', script] @ rest) \<longrightarrow>
          script \<noteq> retire_script \<and> script \<noteq> probe_script \<and> (\<exists>q. rest = [''quota'', q, ''false'']))"

lemma script_starts:
  "hd quota_script = CHR 0x0A" "hd retire_script = CHR ''e''" "hd probe_script = CHR ''i''" "hd retired_script = CHR ''i''"
  "probe_script ! 6 = CHR ''e''" "retired_script ! 6 = CHR ''f''"
  by (simp_all add: quota_script_def retire_script_def probe_script_def retired_script_def lines_text_def)

lemma scripts_differ [simp]:
  "quota_script \<noteq> retire_script" "quota_script \<noteq> probe_script" "retired_script \<noteq> retire_script"
  "retire_script \<noteq> probe_script" "probe_script \<noteq> retire_script"
  by (rule notI, drule arg_cong [where f = hd], simp add: script_starts)+

lemma scripts_differ_inside [simp]: "retired_script \<noteq> probe_script"
  by (rule notI, drule arg_cong [where f = "\<lambda>s. s ! 6"], simp add: script_starts)

lemma starts:
  "take 1 c = [x] \<longleftrightarrow> 1 \<le> length c \<and> c ! 0 = x"
  "take (Suc 0) c = [x] \<longleftrightarrow> 1 \<le> length c \<and> c ! 0 = x"
  "take 2 c = [x, y] \<longleftrightarrow> 2 \<le> length c \<and> c ! 0 = x \<and> c ! 1 = y"
  "take 3 c = [x, y, z] \<longleftrightarrow> 3 \<le> length c \<and> c ! 0 = x \<and> c ! 1 = y \<and> c ! 2 = z"
  by (cases c; cases "tl c"; cases "tl (tl c)"; auto simp: numeral_2_eq_2 numeral_3_eq_3)+

lemma helper_start [simp]:
  "take (Suc 0) (helper_args hp name ref v cmd) = [''run'']"
  "take 2 (helper_args hp name ref v cmd) = [''run'', ''--rm'']"
  "take 3 (helper_args hp name ref v cmd) = [''run'', ''--rm'', ''--name'']"
  by (simp_all add: helper_args_def)

lemma export_start [simp]:
  "take (Suc 0) (export_args e q name ref v) = [''run'']"
  "take 2 (export_args e q name ref v) = [''run'', ''--rm'']"
  "take 3 (export_args e q name ref v) = [''run'', ''--rm'', ''--name'']"
  "export_args e q name ref v \<noteq> helper_args hp name' ref' v' cmd"
  by (simp_all add: helper_args_def export_args_def)

lemma plain_justified:
  assumes "take 2 c \<notin> {[''container'', ''rm''], [''run'', ''--detach''], [''volume'', ''rm''], [''run'', ''--rm'']}"
    and "take 1 c \<noteq> [''exec'']"
  shows "justified d h c"
proof -
  have "take 3 c \<noteq> [''container'', ''rm'', ''--force'']" using assms(1) by (auto simp: starts)
  with assms show ?thesis by (auto simp: justified_def)
qed

lemma plain_leaves_data:
  "take 2 c \<notin> {[''run'', ''--detach''], [''volume'', ''rm''], [''volume'', ''create''], [''run'', ''--rm'']} \<Longrightarrow> leaves_data c"
  by (auto simp: leaves_data_def)

lemma read_plain:
  assumes "read_command c"
  shows "take 2 c \<notin> {[''container'', ''rm''], [''run'', ''--detach''], [''volume'', ''rm''], [''volume'', ''create''], [''run'', ''--rm'']}"
    and "take 1 c \<noteq> [''exec'']"
  using assms by (auto simp: read_command_def starts)

lemma dispatch_start:
  "dispatch c \<Longrightarrow> take 2 c = [''exec'', ''--user''] \<and> c ! 3 = ''--workdir''"
proof -
  assume d: "dispatch c"
  have "take 2 c = take 2 (take 4 c)" "c ! 3 = take 4 c ! 3" by (simp_all add: take_take)
  with d show ?thesis by (simp add: dispatch_def)
qed

lemma exec_start:
  "exec_command i c \<Longrightarrow> take 2 c = [''exec'', ''--user''] \<and> take 1 c = [''exec''] \<and> take 3 c \<noteq> [''container'', ''rm'', ''--force'']"
  by (auto simp: exec_command_def starts)

lemma dispatch_justified: "admitted d h i \<Longrightarrow> dispatch c \<Longrightarrow> 5 < length c \<Longrightarrow> c ! 5 = i \<Longrightarrow> justified d h c"
proof -
  assume c: "admitted d h i" "dispatch c" "5 < length c" "c ! 5 = i"
  from dispatch_start [OF c(2)] have "c \<noteq> helper_args hp name ref v cmd" for hp name ref v cmd
    by (intro helper_args_other(2)) simp
  with c dispatch_start [OF c(2)] show "justified d h c" by (auto simp: justified_def starts)
qed

lemma exec_justified: "admitted d h i \<Longrightarrow> exec_command i c \<Longrightarrow> justified d h c"
  using exec_start [of i c] by (auto simp: justified_def exec_command_def)

lemma helper_justified:
  "cmd \<noteq> [''/bin/sh'', ''-ec'', retire_script] \<Longrightarrow> cmd \<noteq> [''/bin/sh'', ''-ec'', probe_script] \<Longrightarrow> cmd \<noteq> [] \<Longrightarrow>
   justified d h (helper_args hp name ref v cmd)"
  using helper_args_inj [of hp name ref v cmd] by (auto simp: justified_def) (metis list.collapse list.sel(1,3))+

lemma script_helper_justified:
  "unattached h v \<Longrightarrow> justified d h (helper_args hp name ref v [''/bin/sh'', ''-ec'', retire_script])"
  "probe_volume d h v \<Longrightarrow> justified d h (helper_args hp name ref v [''/bin/sh'', ''-ec'', probe_script])"
  by (auto simp: justified_def dest!: helper_args_inj)

interpretation j: docker_lifecycle d "justified d"
  "\<lambda>cmd. cmd \<noteq> [''/bin/sh'', ''-ec'', retire_script] \<and> cmd \<noteq> [''/bin/sh'', ''-ec'', probe_script] \<and> cmd \<noteq> []" for d
proof
  show "justified d h [''container'', ''rm'', ''--force'', i]" if "owned d h i" for h i
    using that by (simp add: justified_def helper_args_def)
  show "justified d h (container_args d' e l name ref v)" if "vacant d h name" for h d' e l name ref v
    using that by (simp add: justified_def container_args_def Let_def helper_args_def)
  show "justified d h [''volume'', ''rm'', v]" if "probe_volume d h v" for h v
    using that by (simp add: justified_def helper_args_def)
  show "justified d h (export_args e q name ref v)" for h e q name ref v by (simp add: justified_def)
  show "justified d h c" if "read_command c" for h c
    using read_plain [OF that] by (intro plain_justified) auto
qed (auto intro: plain_justified exec_justified dispatch_justified helper_justified script_helper_justified simp: fence_args_def)

interpretation l: docker_calls d "\<lambda>h. leaves_data"
  "\<lambda>cmd. (\<exists>q. cmd = [''/bin/sh'', ''-ec'', quota_script, ''quota'', q, ''false''])
     \<or> cmd = [''btrfs'', ''qgroup'', ''show'', ''--sync'', ''-rf'', ''--raw'', ''/probe/data'']" for d
proof
  show "leaves_data (helper_args hp name ref v cmd)"
    if "(\<exists>q. cmd = [''/bin/sh'', ''-ec'', quota_script, ''quota'', q, ''false''])
      \<or> cmd = [''btrfs'', ''qgroup'', ''show'', ''--sync'', ''-rf'', ''--raw'', ''/probe/data'']" for hp name ref v cmd
    using that by (auto simp: leaves_data_def dest!: helper_args_inj)
  show "leaves_data c" if "read_command c" for c
    using read_plain [OF that] by (intro plain_leaves_data) auto
  show "leaves_data c" if "exec_command i c" for i c
    using exec_start [OF that] by (intro plain_leaves_data) auto
  show "leaves_data c" if "dispatch c" for c
    using dispatch_start [OF that] by (intro plain_leaves_data) auto
qed (auto intro!: plain_leaves_data simp: fence_args_def)

subsection \<open>Histories of requests\<close>

datatype docker_request =
    StartRequest lease spec
  | StopRequest handle
  | ExecuteRequest handle "string list"
  | InspectRequest handle
  | PreflightRequest preflight_request
  | CollectRequest gotime
  | PersonalRequest personal_request
  | ExportRequest personal_request

fun serve :: "docker_env \<Rightarrow> docker_executor \<Rightarrow> docker_request \<Rightarrow> docker_log \<Rightarrow> docker_log" where
  "serve d e (StartRequest l s) h = snd (start d e l s h)"
| "serve d e (StopRequest hd') h = snd (stop d hd' h)"
| "serve d e (ExecuteRequest hd' argv) h = snd (execute_command d e hd' [] argv h)"
| "serve d e (InspectRequest hd') h = snd (inspect d e hd' h)"
| "serve d e (PreflightRequest rq) h = snd (preflight d e rq h)"
| "serve d e (CollectRequest now) h = snd (gc d e now h)"
| "serve d e (PersonalRequest rq) h = snd (personal_operation d e rq h)"
| "serve d e (ExportRequest rq) h = snd (export_data d e rq h)"

definition serve_all :: "docker_env \<Rightarrow> docker_executor \<Rightarrow> docker_request list \<Rightarrow> docker_log" where
  "serve_all d e rqs = foldl (\<lambda>h rq. serve d e rq h) [] rqs"

lemma keeps_allowed: "keeps ok (\<lambda>h. True) m Q \<Longrightarrow> allowed ok h (snd (m h))"
  by (simp add: keeps_def)

lemma serve_justified: "allowed (justified d) h (serve d e rq h)"
  by (cases rq) (simp_all, (rule keeps_allowed, rule docker_rule)+)

lemma serve_all_justified: "allowed (justified d) [] (serve_all d e rqs)"
proof (induction rqs rule: rev_induct)
  case (snoc rq rqs)
  then show ?case using allowed_trans serve_justified by (simp add: serve_all_def)
qed (simp add: serve_all_def)

text \<open>C6: whatever Docker answers and whatever is requested, every command that removes a container, runs
  something in one, creates an environment, or deletes data or a volume is justified by what earlier commands
  showed: the container carries a receipt of the agent, no container has the name, the volume is attached to no
  container, or it is the volume of a quota probe.\<close>

theorem docker_commands_justified:
  assumes "n < length (serve_all d e rqs)"
  shows "justified d (take n (serve_all d e rqs)) (fst (serve_all d e rqs ! n))"
  using serve_all_justified [of d e rqs] assms by (simp add: allowed_def grows_def)

definition failing_env :: docker_env where
  "failing_env =
     \<lparr>dk_run = (\<lambda>h c. \<lparr>co_out = [], co_out_cut = False, co_err = [], co_err_cut = False, co_err_bytes = 0, co_failed = True\<rparr>),
      dk_now = (\<lambda>h. 0), dk_uuid = (\<lambda>h n. ''u''), dk_ended = (\<lambda>h. False), dk_deadline = (\<lambda>h. 9),
      dk_hash = (\<lambda>s. replicate 64 CHR ''a''), dk_json = (\<lambda>l. []), dk_base64 = id, dk_lease = (\<lambda>s. None),
      dk_record = (\<lambda>s. None), dk_volume = (\<lambda>s. None), dk_labels = (\<lambda>s. None), dk_host = (\<lambda>s. None),
      dk_time = (\<lambda>t. []), dk_instant = (\<lambda>s. None), dk_canonical_uuid = (\<lambda>s. False), dk_utf8 = (\<lambda>s. True)\<rparr>"

lemma docker_commands_justified_witness:
  "justified failing_env [] (fst (serve_all failing_env \<lparr>de_image = ''i'', de_helper = ''h''\<rparr> [CollectRequest 7] ! 0))"
proof -
  let ?h = "serve_all failing_env \<lparr>de_image = ''i'', de_helper = ''h''\<rparr> [CollectRequest 7]"
  have "0 < length ?h" by (simp add: serve_all_def gc_def and_then_def docker_def cli_result_def failing_env_def)
  from docker_commands_justified [OF this] show ?thesis by simp
qed

text \<open>Running commands in an environment, inspecting and stopping it never create or delete an
  environment's data or volume, and never start an environment.\<close>

theorem environment_use_leaves_data:
  assumes "m \<in> {snd (execute_command d e hd' task argv h), snd (inspect d e hd' h), snd (stop d hd' h)}"
    and "length h \<le> n" and "n < length m"
  shows "take (length h) m = h \<and> leaves_data (fst (m ! n))"
proof -
  have "allowed (\<lambda>h. leaves_data) h m"
    using assms(1) keeps_allowed [OF l.execute_command_keeps] keeps_allowed [OF l.inspect_keeps] keeps_allowed [OF l.stop_keeps]
    by blast
  with assms(2,3) show ?thesis by (simp add: allowed_def grows_def)
qed

lemma environment_use_leaves_data_witness:
  "leaves_data (fst (snd (stop failing_env \<lparr>handle_id = replicate 64 CHR ''a'', handle_backend = [], handle_ref = []\<rparr> []) ! 0))"
proof -
  let ?hd = "\<lparr>handle_id = replicate 64 CHR ''a'', handle_backend = [], handle_ref = []\<rparr>"
  have "container_id_ok (handle_id ?hd)" by (simp add: container_id_ok_def lower_hex_def is_lower_hex_def in_range_def list_all_iff)
  then have "0 < length (snd (stop failing_env ?hd []))"
    by (simp add: stop_def container_record_def and_then_def require_def docker_def cli_result_def failing_env_def)
  from environment_use_leaves_data [OF _ _ this, of "failing_env" _ ?hd, simplified] show ?thesis by simp
qed

end
