(* ===== verification/DockerResults.thy ===== *)
theory DockerResults
  imports DockerSafety
begin

text \<open>
  What the results of the Docker executor mean: names, receipts and quotas that are read back, the outcome of a
  command, of a start, of a preflight and of a collection.
\<close>

subsection \<open>Composition\<close>

lemma and_then_Inr: "and_then m f h = (Inr y, h') \<longleftrightarrow> (\<exists>x h1. m h = (Inr x, h1) \<and> f x h1 = (Inr y, h'))"
  by (auto simp: and_then_def split: prod.splits sum.splits)

lemma attempt_Inr [simp]: "attempt m h = (Inr r, h') \<longleftrightarrow> m h = (r, h')"
  by (auto simp: attempt_def split: prod.splits)

lemma read_Inr [simp]: "read_env f h = (Inr x, h') \<longleftrightarrow> x = f h \<and> h' = h"
  by (auto simp: read_env_def)

lemma require_Inr [simp]: "require b e h = (Inr x, h') \<longleftrightarrow> b \<and> h' = h"
  by (auto simp: require_def)

lemma give_Inr [simp]: "give x h = (Inr y, h') \<longleftrightarrow> y = x \<and> h' = h"
  by (auto simp: give_def)

lemma refuse_Inr [simp]: "refuse e h \<noteq> (Inr y, h')"
  by (simp add: refuse_def)

lemma settle_Inr [simp]: "settle r h = (x, h') \<longleftrightarrow> x = r \<and> h' = h"
  by (auto simp: settle_def)

lemma docker_Inr: "docker d args h = (Inr out, h') \<Longrightarrow> h' = h @ [(args, Some out)]"
  by (auto simp: docker_def Let_def split: option.splits)

lemma join_None [simp]: "join_errors a b = None \<longleftrightarrow> a = None \<and> b = None"
  by (cases a; cases b) simp_all

lemma error_of_None: "error_of r = None \<longleftrightarrow> (\<exists>x. r = Inr x)"
  by (cases r) (simp_all add: error_of_def)

lemma settled_Inr: "(case join_errors a b of None \<Rightarrow> r | Some x \<Rightarrow> Inl x) = Inr y \<longleftrightarrow> a = None \<and> b = None \<and> r = Inr y"
  using join_None [of a b] by (cases "join_errors a b") auto

lemma settled_Inr': "Inr y = (case join_errors a b of None \<Rightarrow> r | Some x \<Rightarrow> Inl x) \<longleftrightarrow> a = None \<and> b = None \<and> r = Inr y"
  using join_None [of a b] by (cases "join_errors a b") auto

lemma kept_longer: "keeps ok (\<lambda>h. True) m Q \<Longrightarrow> m h = (r, h') \<Longrightarrow> \<exists>new. h' = h @ new"
  using allowed_longer [OF keeps_allowed [of ok m Q h]] by simp

subsection \<open>The outcome of a command\<close>

definition dispatches :: "docker_log \<Rightarrow> docker_log \<Rightarrow> string list list" where
  "dispatches h h' = filter dispatch (map fst (drop (length h) h'))"

lemma admitted_id: "admitted d h i \<Longrightarrow> length i = 64"
  by (auto simp: admitted_def check_handle_def container_id_ok_def lower_hex_def split: if_splits)

interpretation n: docker_upkeep d "\<lambda>h c. \<not> dispatch c" "\<lambda>cmd. True" for d
proof
  show "\<not> dispatch c" if "read_command c" for c
    using read_plain(2) [OF that] dispatch_start [of c] by (auto simp: starts)
  show "\<not> dispatch c" if "admitted d h i" "exec_command i c" for h i c
    using admitted_id [OF that(1)] that(2) dispatch_start [of c] by (auto simp: exec_command_def)
  show "\<not> dispatch (helper_args hp name ref v cmd)" for hp name ref v cmd
    using dispatch_start [of "helper_args hp name ref v cmd"] by auto
qed (auto simp: dispatch_def fence_args_def)

lemma dispatches_none:
  assumes "keeps (\<lambda>h c. \<not> dispatch c) (\<lambda>h. True) m Q" and "m h = (r, h')"
  shows "dispatches h h' = [] \<and> (\<exists>new. h' = h @ new)"
proof -
  have a: "allowed (\<lambda>h c. \<not> dispatch c) h h'" using keeps_allowed [OF assms(1), of h] assms(2) by simp
  then obtain new where new: "h' = h @ new" using allowed_longer by blast
  have "\<not> dispatch (fst e)" if e: "e \<in> set new" for e
  proof -
    from e obtain k where "k < length new" "new ! k = e" by (metis in_set_conv_nth)
    with a new show ?thesis by (auto simp: allowed_def grows_def nth_append dest: spec [of _ "length h + k"])
  qed
  with new show ?thesis by (auto simp: dispatches_def filter_empty_conv)
qed

lemma dispatches_append: "dispatches h ((h @ xs) @ ys) = dispatches h (h @ xs) @ dispatches (h @ xs) ((h @ xs) @ ys)"
  by (simp add: dispatches_def)

lemma dispatches_same [simp]: "dispatches h h = []"
  by (simp add: dispatches_def)

text \<open>Operations that dispatch nothing, and operations that dispatch at most one command.\<close>

definition idle :: "'a docker_op \<Rightarrow> bool" where
  "idle m \<longleftrightarrow> (\<forall>h r h'. m h = (r, h') \<longrightarrow> (\<exists>new. h' = h @ new) \<and> dispatches h h' = [])"

definition once :: "'a docker_op \<Rightarrow> bool" where
  "once m \<longleftrightarrow> (\<forall>h r h'. m h = (r, h') \<longrightarrow> (\<exists>new. h' = h @ new) \<and> length (dispatches h h') \<le> 1)"

lemma idleI: "keeps (\<lambda>h c. \<not> dispatch c) (\<lambda>h. True) m Q \<Longrightarrow> idle m"
  using dispatches_none [of m Q] by (simp add: idle_def)

lemma idle_once: "idle m \<Longrightarrow> once m"
  by (simp add: idle_def once_def)

lemma once_docker: "once (docker d c)"
  by (auto simp: once_def docker_def Let_def dispatches_def)

lemma then_split:
  assumes "and_then m f h = (r, h')"
    and "\<And>r1 h1. m h = (r1, h1) \<Longrightarrow> \<exists>new. h1 = h @ new" and "\<And>x h1 r' h2. f x h1 = (r', h2) \<Longrightarrow> \<exists>new. h2 = h1 @ new"
  shows "(\<exists>e. m h = (Inl e, h')) \<or> (\<exists>x h1. m h = (Inr x, h1) \<and> f x h1 = (r, h') \<and> dispatches h h' = dispatches h h1 @ dispatches h1 h'
      \<and> (\<exists>new. h' = h @ new))"
proof -
  obtain r1 h1 where m: "m h = (r1, h1)" by (metis surj_pair)
  from assms(2) [OF m] obtain new where h1: "h1 = h @ new" by blast
  show ?thesis
  proof (cases r1)
    case (Inl e)
    with assms(1) m show ?thesis by (auto simp: and_then_def)
  next
    case (Inr x)
    with assms(1) m have f: "f x h1 = (r, h')" by (simp add: and_then_def)
    from assms(3) [OF f] obtain new' where "h' = h1 @ new'" by blast
    with m Inr f h1 dispatches_append [of h new new'] show ?thesis by auto
  qed
qed

lemma idle_then:
  assumes m: "idle m" and f: "\<And>x. idle (f x)"
  shows "idle (and_then m f)"
  unfolding idle_def
proof (intro allI impI)
  fix h r h' assume t: "and_then m f h = (r, h')"
  have "(\<exists>e. m h = (Inl e, h')) \<or> (\<exists>x h1. m h = (Inr x, h1) \<and> f x h1 = (r, h')
      \<and> dispatches h h' = dispatches h h1 @ dispatches h1 h' \<and> (\<exists>new. h' = h @ new))"
    by (rule then_split [OF t]) (use m f in \<open>auto simp: idle_def\<close>)
  with m f show "(\<exists>new. h' = h @ new) \<and> dispatches h h' = []" by (fastforce simp: idle_def)
qed

lemma once_then:
  assumes m: "once m" and f: "\<And>x. once (f x)" and one: "idle m \<or> (\<forall>x. idle (f x))"
  shows "once (and_then m f)"
  unfolding once_def
proof (intro allI impI)
  fix h r h' assume t: "and_then m f h = (r, h')"
  have "(\<exists>e. m h = (Inl e, h')) \<or> (\<exists>x h1. m h = (Inr x, h1) \<and> f x h1 = (r, h')
      \<and> dispatches h h' = dispatches h h1 @ dispatches h1 h' \<and> (\<exists>new. h' = h @ new))"
    by (rule then_split [OF t]) (use m f in \<open>auto simp: once_def\<close>)
  then show "(\<exists>new. h' = h @ new) \<and> length (dispatches h h') \<le> 1"
  proof (elim disjE exE conjE)
    fix x h1 new assume s: "m h = (Inr x, h1)" "f x h1 = (r, h')" "dispatches h h' = dispatches h h1 @ dispatches h1 h'" "h' = h @ new"
    have "length (dispatches h h1) \<le> 1" "length (dispatches h1 h') \<le> 1" using m f s by (auto simp: once_def)
    moreover have "dispatches h h1 = [] \<or> dispatches h1 h' = []" using one s by (auto simp: idle_def)
    ultimately show ?thesis using s by auto
  qed (use m in \<open>auto simp: once_def\<close>)
qed

lemma idle_simple [simp]: "idle (give x)" "idle (refuse e)" "idle (require b e)" "idle (settle r)" "idle (read_env f)"
  by (auto simp: idle_def give_def refuse_def require_def settle_def read_env_def)

lemma idle_attempt: "idle m \<Longrightarrow> idle (attempt m)" and once_attempt: "once m \<Longrightarrow> once (attempt m)"
  by (auto simp: idle_def once_def attempt_def split: prod.splits)

lemma idle_upkeep:
  "idle (ensure_volume d e l False)" "idle (active_lease d e hd')" "idle (require_only_supervisor d hd')" "idle (stop d hd')"
  "idle (acquire_fence d e hd')" "idle (remove_fence d f)" "idle (clean_up d hd' f r)"
  by (rule idleI, rule n.keep_volume n.active_lease_keeps n.only_supervisor_keeps n.stop_keeps n.acquire_fence_keeps
      n.remove_fence_keeps n.clean_up_keeps)+

lemma idle_workspace:
  assumes "length (handle_id hd') = 64"
  shows "idle (task_workspace d hd' task)"
proof -
  have "handle_id hd' \<noteq> ''--workdir''" using assms by auto
  then have "idle (docker d [''exec'', ''--user'', ''1000:1000'', handle_id hd', ''/bin/sh'', ''-ec'', workspace_script,
      ''personal-task-workspace'', w])" for w
    by (auto simp: idle_def docker_def Let_def dispatches_def dispatch_def)
  then show ?thesis unfolding task_workspace_def Let_def by (simp add: idle_then)
qed

lemma once_run: "once (run_command d hd' w argv)"
  unfolding run_command_def
  by (intro once_then once_docker idle_once idle_then idle_upkeep disjI2 allI) simp_all

lemma once_fenced: "length (handle_id hd') = 64 \<Longrightarrow> once (fenced_command d e hd' l task argv)"
  unfolding fenced_command_def
  by (intro once_then once_run idle_once idle_upkeep idle_workspace disjI1)


text \<open>A command is settled when it was dispatched, its output is what is reported, and right after it only the
  supervisor was left. A failed execution has stopped the environment when a stop follows all dispatches.\<close>

definition settled :: "docker_env \<Rightarrow> handle \<Rightarrow> string list \<Rightarrow> docker_log \<Rightarrow> docker_log \<Rightarrow> string \<Rightarrow> bool" where
  "settled d hd' argv h h' out \<longleftrightarrow> (\<exists>w pre t p n post. h' = h @ pre
     @ [([''exec'', ''--user'', ''1000:1000'', ''--workdir'', w, handle_id hd'] @ argv, Some out),
        ([''top'', handle_id hd', ''-eo'', ''pid''], Some t)] @ post
     \<and> RunnerPayload.fields t = [''PID'', p] \<and> parse_int64 p = Some n \<and> 0 < n \<and> dk_utf8 d out)"

definition stopped_after :: "docker_env \<Rightarrow> handle \<Rightarrow> docker_log \<Rightarrow> docker_log \<Rightarrow> bool" where
  "stopped_after d hd' h h' \<longleftrightarrow> (\<exists>h3 s h4 post. stop d hd' h3 = (s, h4) \<and> h' = h4 @ post \<and> dispatches h h3 = dispatches h h')"

lemma settled_more:
  assumes "settled d hd' argv (h @ mid) h' out"
  shows "settled d hd' argv h (h' @ post) out"
proof -
  let ?c = "\<lambda>w. [''exec'', ''--user'', ''1000:1000'', ''--workdir'', w, handle_id hd'] @ argv"
    and ?top = "[''top'', handle_id hd', ''-eo'', ''pid'']"
  from assms obtain w pre t p n post' where s: "h' = (h @ mid) @ pre @ [(?c w, Some out), (?top, Some t)] @ post'"
    "RunnerPayload.fields t = [''PID'', p] \<and> parse_int64 p = Some n \<and> 0 < n \<and> dk_utf8 d out"
    unfolding settled_def by blast
  from s(1) have "h' @ post = h @ (mid @ pre) @ [(?c w, Some out), (?top, Some t)] @ (post' @ post)" by simp
  with s(2) show ?thesis unfolding settled_def by blast
qed

lemma two_fields: "length fs = 2 \<Longrightarrow> fs ! 0 = a \<Longrightarrow> fs = [a, fs ! 1]"
  by (cases fs; cases "tl fs") auto

lemma supervisor_Inr:
  assumes "require_only_supervisor d hd' h = (Inr (), h')"
  obtains t where "docker d [''top'', handle_id hd', ''-eo'', ''pid''] h = (Inr t, h')"
    "length (RunnerPayload.fields t) = 2" "RunnerPayload.fields t ! 0 = ''PID''"
    "\<exists>n. parse_int64 (RunnerPayload.fields t ! 1) = Some n \<and> 0 < n"
proof -
  from assms obtain r h1 where r: "docker d [''top'', handle_id hd', ''-eo'', ''pid''] h = (r, h1)"
    by (auto simp: require_only_supervisor_def and_then_Inr)
  show ?thesis
  proof (cases r)
    case (Inl e)
    with assms r show ?thesis by (simp add: require_only_supervisor_def and_then_def attempt_def)
  next
    case (Inr t)
    with assms r that show ?thesis
      by (auto simp: require_only_supervisor_def and_then_def attempt_def Let_def split: if_splits option.splits)
  qed
qed

lemma run_command_settled:
  assumes "run_command d hd' w argv h = (Inr out, h')"
  shows "settled d hd' argv h h' out"
proof -
  from assms obtain h1 where r: "docker d ([''exec'', ''--user'', ''1000:1000'', ''--workdir'', w, handle_id hd'] @ argv) h = (Inr out, h1)"
    "dk_utf8 d out" "require_only_supervisor d hd' h1 = (Inr (), h')"
    by (auto simp: run_command_def and_then_Inr)
  from docker_Inr [OF r(1)] have h1: "h1 = h @ [([''exec'', ''--user'', ''1000:1000'', ''--workdir'', w, handle_id hd'] @ argv, Some out)]" .
  from r(3) obtain t where t: "docker d [''top'', handle_id hd', ''-eo'', ''pid''] h1 = (Inr t, h')"
    "length (RunnerPayload.fields t) = 2" "RunnerPayload.fields t ! 0 = ''PID''"
    "\<exists>n. parse_int64 (RunnerPayload.fields t ! 1) = Some n \<and> 0 < n"
    by (elim supervisor_Inr)
  from t(4) obtain n where n: "parse_int64 (RunnerPayload.fields t ! 1) = Some n" "0 < n" by blast
  have "h' = h @ [] @ [([''exec'', ''--user'', ''1000:1000'', ''--workdir'', w, handle_id hd'] @ argv, Some out),
      ([''top'', handle_id hd', ''-eo'', ''pid''], Some t)] @ []"
    using docker_Inr [OF t(1)] h1 by simp
  with two_fields [OF t(2,3)] n r(2) show ?thesis unfolding settled_def by blast
qed

lemma fenced_command_settled:
  assumes "fenced_command d e hd' l task argv h = (Inr out, h')" and id: "length (handle_id hd') = 64"
  shows "settled d hd' argv h h' out"
proof -
  from assms(1) obtain v h1 x h2 h3 w h4 where s: "ensure_volume d e l False h = (Inr v, h1)" "active_lease d e hd' h1 = (Inr x, h2)"
    "require_only_supervisor d hd' h2 = (Inr (), h3)" "task_workspace d hd' task h3 = (Inr w, h4)"
    "run_command d hd' w argv h4 = (Inr out, h')"
    by (auto simp: fenced_command_def and_then_Inr)
  have "\<exists>new. h4 = h @ new"
    using s idle_upkeep(1-3) idle_workspace [OF id] unfolding idle_def by (metis append_assoc)
  then obtain new where "h4 = h @ new" ..
  with run_command_settled [OF s(5)] settled_more [of d hd' argv h new h' out "[]"] show ?thesis by simp
qed


lemma longer: "idle m \<Longrightarrow> m h = (r, h') \<Longrightarrow> \<exists>new. h' = h @ new"
  and idle_nothing: "idle m \<Longrightarrow> m h = (r, h') \<Longrightarrow> dispatches h h' = []"
  by (auto simp: idle_def)

lemma clean_up_success:
  assumes "clean_up d hd' f r h = (Inr out, h')"
  shows "r = Inr out"
proof -
  from assms obtain ended and t :: "docker_error + unit" and h1 :: "docker_error + unit" where "settle (case join_errors (join_errors (join_errors (error_of r)
      (if ended then Some (Refused ''context'') else None)) (error_of t)) (error_of h1) of None \<Rightarrow> r | Some x \<Rightarrow> Inl x) h'
      = (Inr out, h')"
    unfolding clean_up_def and_then_Inr settle_Inr by blast
  then show ?thesis by (simp add: settled_Inr')
qed

lemma clean_up_outcome:
  assumes "clean_up d hd' f r h = (res, h')"
  shows "(\<exists>out. res = Inr out \<and> r = Inr out) \<or> (\<exists>s h4 post. stop d hd' h = (s, h4) \<and> h' = h4 @ post)
    \<or> (\<exists>out e. r = Inr out \<and> remove_fence d f h = (Inl e, h'))"
proof (cases "error_of r \<noteq> None \<or> dk_ended d h")
  case True
  obtain s h4 where s: "stop d hd' h = (s, h4)" by (metis surj_pair)
  obtain f' h5 where f: "remove_fence d f h4 = (f', h5)" by (metis surj_pair)
  from longer [OF idle_upkeep(6) f] obtain post where "h5 = h4 @ post" by blast
  moreover from assms True s f have "h' = h5" by (simp add: clean_up_def and_then_def read_env_def attempt_def settle_def)
  ultimately show ?thesis using s by blast
next
  case False
  then obtain out where r: "r = Inr out" by (auto simp: error_of_None)
  obtain f' h5 where f: "remove_fence d f h = (f', h5)" by (metis surj_pair)
  from assms False r f have "res = (case error_of f' of None \<Rightarrow> r | Some x \<Rightarrow> Inl x)" "h' = h5"
    by (auto simp: clean_up_def and_then_def read_env_def attempt_def settle_def give_def error_of_def)
  with r f show ?thesis by (cases f') (auto simp: error_of_def)
qed

lemma fenced_part:
  assumes "execute_command d e hd' task argv h = (res, h')" and "dispatches h h' \<noteq> [] \<or> (\<exists>out. res = Inr out)"
  obtains l h1 fence h2 r h3 where "active_lease d e hd' h = (Inr l, h1)" "acquire_fence d e hd' h1 = (Inr fence, h2)"
    "fenced_command d e hd' l task argv h2 = (r, h3)" "clean_up d hd' fence r h3 = (res, h')"
proof -
  from assms have argv: "valid_argv argv = None"
    by (auto simp: execute_command_def refuse_def split: option.splits)
  obtain a h1 where a: "active_lease d e hd' h = (a, h1)" by (metis surj_pair)
  show ?thesis
  proof (cases a)
    case (Inl x)
    with assms argv a idle_nothing [OF idle_upkeep(2) a] show ?thesis by (auto simp: execute_command_def and_then_def)
  next
    case (Inr l)
    obtain f h2 where f: "acquire_fence d e hd' h1 = (f, h2)" by (metis surj_pair)
    obtain new where h1: "h1 = h @ new" using longer [OF idle_upkeep(2) a] by blast
    obtain new' where h2: "h2 = h1 @ new'" using longer [OF idle_upkeep(5) f] by blast
    show ?thesis
    proof (cases f)
      case (Inl x)
      with assms argv a f Inr idle_nothing [OF idle_upkeep(2) a] idle_nothing [OF idle_upkeep(5) f] h1 h2
        dispatches_append [of h new new'] show ?thesis by (auto simp: execute_command_def and_then_def)
    next
      case (Inr fence)
      obtain r h3 where r: "fenced_command d e hd' l task argv h2 = (r, h3)" by (metis surj_pair)
      with assms argv a f \<open>a = Inr l\<close> Inr have "clean_up d hd' fence r h3 = (res, h')"
        by (simp add: execute_command_def and_then_def attempt_def)
      with a f r \<open>a = Inr l\<close> Inr that show ?thesis by blast
    qed
  qed
qed


text \<open>C39: one execution dispatches at most one command. What it reports as a success is the output of that command,
  after which only the supervisor was left; when it reports a failure after the dispatch, the environment is
  stopped after the command, unless the command was settled and only its reservation could not be removed.\<close>

theorem command_outcome:
  assumes "execute_command d e hd' task argv h = (res, h')"
  shows "length (dispatches h h') \<le> 1
    \<and> (case res of
         Inr out \<Rightarrow> settled d hd' argv h h' out
       | Inl x \<Rightarrow> dispatches h h' = [] \<or> stopped_after d hd' h h'
           \<or> (\<exists>out. settled d hd' argv h h' out \<and> (\<exists>f h3 e. remove_fence d f h3 = (Inl e, h'))))"
proof (cases "dispatches h h' \<noteq> [] \<or> (\<exists>out. res = Inr out)")
  case False
  then show ?thesis by (cases res) auto
next
  case True
  from fenced_part [OF assms True] obtain l h1 fence h2 r h3 where s: "active_lease d e hd' h = (Inr l, h1)"
    "acquire_fence d e hd' h1 = (Inr fence, h2)" "fenced_command d e hd' l task argv h2 = (r, h3)"
    "clean_up d hd' fence r h3 = (res, h')" .
  have "fst (active_lease d e hd' h) = Inr x \<Longrightarrow> admitted d (snd (active_lease d e hd' h)) (handle_id hd')" for x
    using n.active_lease_keeps [of "\<lambda>h. True" d e hd'] unfolding keeps_def by blast
  with s(1) have "admitted d h1 (handle_id hd')" by simp
  from admitted_id [OF this] have id: "length (handle_id hd') = 64" .
  obtain n1 where n1: "h1 = h @ n1" using longer [OF idle_upkeep(2) s(1)] by blast
  obtain n2 where n2: "h2 = h1 @ n2" using longer [OF idle_upkeep(5) s(2)] by blast
  obtain n3 where n3: "h3 = h2 @ n3" using once_fenced [OF id] s(3) unfolding once_def by blast
  obtain n4 where n4: "h' = h3 @ n4" using longer [OF idle_upkeep(7) s(4)] by blast
  have none: "dispatches h h1 = []" "dispatches h1 h2 = []" "dispatches h3 h' = []"
    using idle_nothing [OF idle_upkeep(2) s(1)] idle_nothing [OF idle_upkeep(5) s(2)] idle_nothing [OF idle_upkeep(7) s(4)] .
  have all: "dispatches h h3 = dispatches h2 h3" "dispatches h h' = dispatches h h3"
    using none dispatches_append [of h n1 n2] dispatches_append [of h "n1 @ n2" n3] dispatches_append [of h "n1 @ n2 @ n3" n4]
    by (simp_all add: n1 n2 n3 n4)
  have "length (dispatches h2 h3) \<le> 1" using once_fenced [OF id] s(3) unfolding once_def by blast
  moreover have ok: "settled d hd' argv h h' out" if "r = Inr out" for out
  proof -
    from fenced_command_settled [of d e hd' l task argv h2 out h3] s(3) that id have "settled d hd' argv (h @ n1 @ n2) h3 out"
      by (simp add: n1 n2)
    from settled_more [OF this, of n4] show ?thesis by (simp add: n4)
  qed
  moreover from clean_up_outcome [OF s(4)] consider out where "res = Inr out" "r = Inr out"
    | s' h4 post where "stop d hd' h3 = (s', h4)" "h' = h4 @ post"
    | out x where "r = Inr out" "remove_fence d fence h3 = (Inl x, h')" by blast
  then have "case res of Inr out \<Rightarrow> settled d hd' argv h h' out
       | Inl x \<Rightarrow> dispatches h h' = [] \<or> stopped_after d hd' h h'
           \<or> (\<exists>out. settled d hd' argv h h' out \<and> (\<exists>f h3 e. remove_fence d f h3 = (Inl e, h')))"
  proof cases
    case 1
    with ok show ?thesis by simp
  next
    case 2
    have "res = Inr out \<Longrightarrow> r = Inr out" for out using s(4) clean_up_success by metis
    moreover have "stopped_after d hd' h h'" using 2 all unfolding stopped_after_def by metis
    ultimately show ?thesis using ok by (cases res) auto
  next
    case 3
    have "res = Inr out' \<Longrightarrow> r = Inr out'" for out' using s(4) clean_up_success by metis
    with 3 ok show ?thesis by (cases res) auto
  qed
  ultimately show ?thesis using all by simp
qed

lemma command_outcome_witness:
  "length (dispatches [] (snd (execute_command failing_env \<lparr>de_image = ''i'', de_helper = ''h''\<rparr> (docker_handle ''x'' ''y'') [] [''/bin/ls''] []))) \<le> 1"
proof -
  obtain res h' where x: "execute_command failing_env \<lparr>de_image = ''i'', de_helper = ''h''\<rparr> (docker_handle ''x'' ''y'') [] [''/bin/ls''] []
      = (res, h')" by (metis surj_pair)
  from command_outcome [OF x] x show ?thesis by simp
qed


subsection \<open>Names\<close>

lemma take_hex: "lower_hex 64 s \<Longrightarrow> lower_hex 40 (take 40 s)"
  by (auto simp: lower_hex_def list_all_iff dest: in_set_takeD)

lemma hex_in_name: "lower_hex n s \<Longrightarrow> list_all (\<lambda>c. is_lower c \<or> is_digit c \<or> c = CHR ''-'') s"
  by (auto simp: lower_hex_def list_all_iff is_lower_hex_def in_range_def)

lemma short_hash: "(\<And>s. lower_hex 64 (dk_hash d s)) \<Longrightarrow>
  length (take 40 (dk_hash d s)) = 40 \<and> list_all (\<lambda>c. is_lower c \<or> is_digit c \<or> c = CHR ''-'') (take 40 (dk_hash d s))"
proof -
  assume "\<And>s. lower_hex 64 (dk_hash d s)"
  then have "lower_hex 40 (take 40 (dk_hash d s))" by (rule take_hex)
  then show ?thesis using hex_in_name [of 40] by (simp add: lower_hex_def)
qed

definition name_char :: "char \<Rightarrow> bool" where
  "name_char c \<longleftrightarrow> is_lower c \<or> is_digit c \<or> c = CHR ''-''"

lemma environment_name_parts:
  "list_all name_char r \<Longrightarrow> list_all name_char s \<Longrightarrow> s \<noteq> [] \<Longrightarrow> length r + length s \<le> 64 \<Longrightarrow>
   environment_name_ok (''soha-env-'' @ r @ s)"
proof -
  assume r: "list_all name_char r" "list_all name_char s" "s \<noteq> []" "length r + length s \<le> 64"
  have drop: "drop 9 (''soha-env-'' @ r @ s) = r @ s" and start: "has_prefix (''soha-env-'' @ r @ s) ''soha-env-''" by simp_all
  have len: "1 \<le> length (r @ s)" "length (r @ s) \<le> 64" using r(3,4) by (cases s, auto)+
  have "list_all name_char (r @ s)" using r(1,2) by simp
  then have chars: "list_all (\<lambda>c. is_lower c \<or> is_digit c \<or> c = CHR ''-'') (r @ s)" unfolding name_char_def [abs_def] .
  show ?thesis unfolding environment_name_ok_def drop by (intro conjI start len chars)
qed

lemma roles:
  "list_all name_char ''read-''" "list_all name_char ''write-''" "list_all name_char ''command-''"
  "list_all name_char ''helper-''" "list_all name_char ''export-''"
  by (simp_all add: name_char_def in_range_def)

text \<open>C35: every container and volume name that the executor makes has the form that its own checks accept, and names of
  different roles (a reader's, a writer's, a fence's, a helper's, an export's container) never coincide.\<close>

theorem generated_names_wellformed:
  assumes hash: "\<And>s. lower_hex 64 (dk_hash d s)"
    and uuid: "length u = 36 \<and> list_all (\<lambda>c. is_lower_hex c \<or> c = CHR ''-'') u"
  shows "environment_name_ok (lease_name d l) \<and> environment_name_ok (fence_name d p) \<and> environment_name_ok (''soha-env-helper-'' @ u)
    \<and> environment_name_ok (''soha-env-export-'' @ u) \<and> volume_name_ok (personal_volume d owner)
    \<and> scope_digest_ok (''sha256:'' @ lease_ref d l)
    \<and> distinct [lease_name d l, fence_name d p, ''soha-env-helper-'' @ u, ''soha-env-export-'' @ u]
    \<and> (lease_name d l = lease_name d l' \<longrightarrow> (lease_mode l = ''restricted-write'' \<longleftrightarrow> lease_mode l' = ''restricted-write''))"
proof -
  have u: "list_all (\<lambda>c. is_lower c \<or> is_digit c \<or> c = CHR ''-'') u" "length u = 36"
    using uuid by (auto simp: list_all_iff is_lower_hex_def in_range_def)
  have h: "list_all name_char (take 40 (dk_hash d s))" "take 40 (dk_hash d s) \<noteq> []" "length (take 40 (dk_hash d s)) = 40" for s
    using short_hash [of d s, OF hash] unfolding name_char_def [abs_def] by auto
  have name: "environment_name_ok (lease_name d l)"
  proof (cases "lease_mode l = ''restricted-write''")
    case True
    have "environment_name_ok (''soha-env-'' @ ''write-'' @ take 40 (dk_hash d (owner_id l)))"
      by (rule environment_name_parts [OF roles(2) h(1,2)]) (simp add: h(3))
    with True show ?thesis by (simp add: lease_name_def)
  next
    case False
    have "environment_name_ok (''soha-env-'' @ ''read-'' @ take 40 (dk_hash d (owner_id l @ [CHR 0x00] @ lease_id l)))"
      by (rule environment_name_parts [OF roles(1) h(1,2)]) (simp add: h(3))
    with False show ?thesis by (simp add: lease_name_def)
  qed
  have "environment_name_ok (''soha-env-'' @ ''command-'' @ take 40 (dk_hash d (handle_id p)))"
    by (rule environment_name_parts [OF roles(3) h(1,2)]) (simp add: h(3))
  then have fence: "environment_name_ok (fence_name d p)" by (simp add: fence_name_def)
  have vol: "volume_name_ok (personal_volume d owner)"
    using take_hex [OF hash] by (simp add: volume_name_ok_def personal_volume_def)
  have ref: "scope_digest_ok (''sha256:'' @ lease_ref d l)"
    using hash by (simp add: scope_digest_ok_def lease_ref_def)
  have v: "list_all name_char u" "u \<noteq> []" "length u = 36" using u unfolding name_char_def [abs_def] by auto
  have "environment_name_ok (''soha-env-'' @ ''helper-'' @ u)" "environment_name_ok (''soha-env-'' @ ''export-'' @ u)"
    by (rule environment_name_parts [OF roles(4) v(1,2)], simp add: v(3),
        rule environment_name_parts [OF roles(5) v(1,2)], simp add: v(3))
  then have "environment_name_ok (''soha-env-helper-'' @ u)" "environment_name_ok (''soha-env-export-'' @ u)" by simp_all
  moreover have "distinct [lease_name d l, fence_name d p, ''soha-env-helper-'' @ u, ''soha-env-export-'' @ u]"
    by (simp add: lease_name_def fence_name_def)
  moreover have "lease_name d l = lease_name d l' \<longrightarrow> (lease_mode l = ''restricted-write'' \<longleftrightarrow> lease_mode l' = ''restricted-write'')"
    by (simp add: lease_name_def)
  ultimately show ?thesis using name fence vol ref by blast
qed

lemma generated_names_wellformed_witness:
  "environment_name_ok (fence_name failing_env (docker_handle ''x'' ''y''))"
proof -
  have "lower_hex 64 (dk_hash failing_env s)" for s
    by (simp add: failing_env_def lower_hex_def is_lower_hex_def in_range_def list_all_iff)
  moreover have "length (replicate 36 CHR ''-'') = 36 \<and> list_all (\<lambda>c. is_lower_hex c \<or> c = CHR ''-'') (replicate 36 CHR ''-'')"
    by (simp add: list_all_iff)
  ultimately show ?thesis using generated_names_wellformed [of failing_env "replicate 36 CHR ''-''"] by blast
qed

subsection \<open>What is read back\<close>

definition due_receipt :: "(string \<Rightarrow> gotime option) \<Rightarrow> gotime \<Rightarrow> string \<Rightarrow> bool" where
  "due_receipt instant now line \<longleftrightarrow>
     RunnerPayload.fields line \<noteq> [] \<and> (\<exists>t. instant (RunnerPayload.fields line ! 1) = Some t \<and> t \<le> now)"

lemma expired_names_prefix:
  assumes "expired_names instant now valid ids ls = Inr out" and "length ids < gc_batch"
  shows "out = take gc_batch (ids @ map (\<lambda>l. RunnerPayload.fields l ! 0) (filter (due_receipt instant now) ls))
    \<and> (\<forall>i \<in> set out. i \<in> set ids \<or> valid i)"
  using assms
proof (induction ls arbitrary: ids)
  case (Cons line ls)
  let ?fs = "RunnerPayload.fields line"
  show ?case
  proof (cases "?fs = []")
    case True
    with Cons.prems have "expired_names instant now valid ids ls = Inr out" by simp
    with Cons.IH [OF this Cons.prems(2)] True show ?thesis by (simp add: due_receipt_def)
  next
    case False
    with Cons.prems(1) obtain t where t: "instant (?fs ! 1) = Some t" "length ?fs = 2" "valid (?fs ! 0)"
      by (auto simp: Let_def split: if_splits option.splits)
    let ?ids = "if \<not> now < t then ids @ [?fs ! 0] else ids"
    have due: "due_receipt instant now line \<longleftrightarrow> \<not> now < t" using False t by (simp add: due_receipt_def not_less)
    show ?thesis
    proof (cases "length ?ids = gc_batch")
      case True
      with Cons.prems t False have out: "out = ?ids" by (auto simp: Let_def)
      have "\<not> now < t" using True Cons.prems(2) by (auto split: if_splits)
      with True out t due show ?thesis by auto
    next
      case less: False
      with Cons.prems t False have rest: "expired_names instant now valid ?ids ls = Inr out" by (auto simp: Let_def)
      let ?rest = "map (\<lambda>l. RunnerPayload.fields l ! 0) (filter (due_receipt instant now) ls)"
      have "length ?ids < gc_batch" using less Cons.prems(2) by auto
      from Cons.IH [OF rest this] have out: "out = take gc_batch (?ids @ ?rest)" "\<forall>i \<in> set out. i \<in> set ?ids \<or> valid i" by auto
      have "?ids @ ?rest = ids @ map (\<lambda>l. RunnerPayload.fields l ! 0) (filter (due_receipt instant now) (line # ls))"
        using due by simp
      moreover have "\<forall>i \<in> set out. i \<in> set ids \<or> valid i" using out(2) t(3) by (auto split: if_splits)
      ultimately show ?thesis using out(1) by metis
    qed
  qed
qed simp

text \<open>A collection takes up the first 32 receipts that are due, in the order Docker lists them, and only names of the
  right form; a malformed receipt before them stops it.\<close>

theorem expired_receipts_spec:
  assumes "expired_receipts d now valid data h = (Inr names, h')"
  shows "h' = h \<and> length names \<le> 32
    \<and> names = take 32 (map (\<lambda>l. RunnerPayload.fields l ! 0) (filter (due_receipt (dk_instant d) now) (split_char CHR 0x0A data)))
    \<and> (\<forall>i \<in> set names. valid i)"
proof -
  from assms have "expired_names (dk_instant d) now valid [] (split_char CHR 0x0A data) = Inr names" "h' = h"
    by (simp_all add: expired_receipts_def)
  with expired_names_prefix [OF this(1)] show ?thesis by auto
qed

lemma expired_receipts_spec_witness:
  "expired_receipts failing_env 5 container_id_ok [] [] = (Inr [], []) \<and> length ([] :: string list) \<le> 32"
proof -
  have "RunnerPayload.fields [] = []" by (subst RunnerPayload.fields.simps) (simp add: trim_left_def strip_front_fixed)
  then have "expired_receipts failing_env 5 container_id_ok [] [] = (Inr [], [])" by (simp add: expired_receipts_def)
  with expired_receipts_spec [OF this] show ?thesis by simp
qed

definition quota_group :: "string \<Rightarrow> bool" where
  "quota_group line \<longleftrightarrow> RunnerPayload.fields line \<noteq> [] \<and> has_prefix (hd (RunnerPayload.fields line)) ''0/''"

lemma volume_quota_lines_sound:
  assumes "volume_quota_lines ls quota used n = Some (used', n')"
  shows "n' = n + length (filter quota_group ls)
    \<and> (\<forall>l \<in> set ls. \<not> contains (to_lower l) ''warning'' \<and> \<not> contains (to_lower l) ''inconsistent''
        \<and> (quota_group l \<longrightarrow> parse_int64 (RunnerPayload.fields l ! 3) = Some quota))
    \<and> (if filter quota_group ls = [] then used' = used
       else parse_int64 (RunnerPayload.fields (last (filter quota_group ls)) ! 1) = Some used' \<and> 0 \<le> used')"
  using assms
proof (induction ls arbitrary: used n)
  case (Cons l ls)
  let ?fs = "RunnerPayload.fields l"
  have clean: "\<not> contains (to_lower l) ''warning''" "\<not> contains (to_lower l) ''inconsistent''"
    using Cons.prems by (auto split: if_splits)
  show ?case
  proof (cases "quota_group l")
    case False
    with Cons.prems clean have "volume_quota_lines ls quota used n = Some (used', n')"
      by (auto simp: quota_group_def Let_def split: if_splits)
    from Cons.IH [OF this] clean False show ?thesis by (simp del: One_nat_def)
  next
    case True
    with Cons.prems clean obtain c where c: "parse_int64 (?fs ! 1) = Some c" "parse_int64 (?fs ! 3) = Some quota" "0 \<le> c"
      "volume_quota_lines ls quota c (Suc n) = Some (used', n')"
      by (auto simp: quota_group_def Let_def split: if_splits option.splits)
    from Cons.IH [OF c(4)] clean True c(1-3) show ?thesis by (auto simp del: One_nat_def)
  qed
qed simp

text \<open>A usage is read from the quota report only if the report holds exactly one group of the file system's level,
  whose limit is the granted one, and no line that warns of inconsistent accounting.\<close>

theorem volume_quota_sound:
  assumes "parse_volume_quota report quota h = (Inr used, h')"
  shows "\<exists>l. filter quota_group (split_char CHR 0x0A report) = [l] \<and> parse_int64 (RunnerPayload.fields l ! 1) = Some used
    \<and> parse_int64 (RunnerPayload.fields l ! 3) = Some quota \<and> 0 \<le> used
    \<and> (\<forall>l \<in> set (split_char CHR 0x0A report). \<not> contains (to_lower l) ''warning'' \<and> \<not> contains (to_lower l) ''inconsistent'')"
proof -
  from assms have v: "volume_quota_lines (split_char CHR 0x0A report) quota 0 0 = Some (used, 1)"
    by (auto simp: parse_volume_quota_def split: option.splits prod.splits if_splits)
  note s = volume_quota_lines_sound [OF v]
  from s have "length (filter quota_group (split_char CHR 0x0A report)) = 1" by simp
  then obtain l where l: "filter quota_group (split_char CHR 0x0A report) = [l]" by (auto simp: length_Suc_conv)
  then have "l \<in> set (filter quota_group (split_char CHR 0x0A report))" by simp
  then have "l \<in> set (split_char CHR 0x0A report)" "quota_group l" by simp_all
  with s l show ?thesis by auto
qed

text \<open>A command other than \<^verbatim>\<open>exec\<close> succeeds only in silence.\<close>

theorem noisy_command_fails:
  assumes "cli_result args o' = Some out" and "args \<noteq> []" and "hd args \<noteq> ''exec''"
  shows "out = co_out o' \<and> co_err_bytes o' = 0 \<and> \<not> co_failed o' \<and> \<not> co_out_cut o' \<and> length out \<le> 64 * 1024"
  using assms by (auto simp: cli_result_def Let_def output_limit_def split: if_splits)

subsection \<open>Starts and preflights\<close>

lemma shown_more: "shown d h i r \<Longrightarrow> shown d (h @ new) i r"
  by (auto simp: shown_def)

lemma record_found:
  assumes "container_record d i h = (Inr (Some r), h')"
  shows "shown d h' i r"
proof -
  have "keeps (justified d) (\<lambda>h. True) (container_record d i) (\<lambda>r h. case r of None \<Rightarrow> vacant d h i | Some r \<Rightarrow> shown d h i r)"
    by (rule j.record_shown)
  then have "fst (container_record d i h) = Inr (Some r) \<Longrightarrow> shown d (snd (container_record d i h)) i r"
    unfolding keeps_def by fastforce
  with assms show ?thesis by simp
qed

text \<open>Operations only extend the log.\<close>

definition grows :: "'a docker_op \<Rightarrow> bool" where
  "grows m \<longleftrightarrow> (\<forall>h r h'. m h = (r, h') \<longrightarrow> (\<exists>new. h' = h @ new))"

lemma grows_kept: "keeps ok (\<lambda>h. True) m Q \<Longrightarrow> grows m"
  using kept_longer unfolding grows_def by blast

lemma grows_then: "grows m \<Longrightarrow> (\<And>x. grows (f x)) \<Longrightarrow> grows (and_then m f)"
  unfolding grows_def and_then_def by (auto split: prod.splits sum.splits) (metis append_assoc)

lemma grows_simple [simp]: "grows (give x)" "grows (refuse e)" "grows (require b e)" "grows (docker d c)"
  by (auto simp: grows_def give_def refuse_def require_def docker_def Let_def)

lemma grows_attempt: "grows m \<Longrightarrow> grows (attempt m)"
  by (auto simp: grows_def attempt_def split: prod.splits)

lemma grows_running: "grows (require_running d i)"
  unfolding require_running_def by (auto intro!: grows_then grows_attempt)

lemma grows_volume: "grows (ensure_volume d e l c)"
  by (rule grows_kept, rule j.ensure_volume_keeps)

lemma validated [simp]: "validate_handle d hd' r h = (Inr x, h') \<longleftrightarrow> check_handle d hd' r = None \<and> h' = h"
  by (auto simp: validate_handle_def split: option.splits)

text \<open>A started environment is a container whose durable receipt, as Docker showed it, is a lease with the reference
  and the container name of the requested one, and the request was valid when it was made.\<close>

theorem started_environment_receipt:
  assumes "start d e l s h = (Inr hd', h')"
  shows "validate_request e l s (dk_now d h) = None \<and> handle_ref hd' = lease_ref d l
    \<and> (\<exists>i r l'. shown d h' i r \<and> dr_id r = handle_id hd' \<and> lease_of_labels d (dr_labels r) = Inr l'
        \<and> lease_ref d l' = lease_ref d l \<and> label_of (dr_labels r) ''.name'' = lease_name d l')"
proof -
  from assms have v: "validate_request e l s (dk_now d h) = None"
    by (auto simp: start_def and_then_Inr split: option.splits)
  obtain h1 h2 found where f: "container_record d (lease_name d l) h1 = (Inr found, h2)"
    "(case found of None \<Rightarrow> create_container d e l (require_existing_data s) (lease_name d l) (lease_ref d l)
      | Some r \<Rightarrow> adopt_container d e l (lease_ref d l) r) h2 = (Inr hd', h')"
  proof -
    from assms obtain bad where b: "bad = validate_request e l s (dk_now d h)"
      "(case bad of Some x \<Rightarrow> refuse x
        | None \<Rightarrow> and_then (attempt (docker d [''info'', ''--format'', ''{{.CgroupVersion}}''])) (\<lambda>info.
           and_then (require (case info of Inl x \<Rightarrow> False | Inr v \<Rightarrow> trim_space v = ''2'')
               (Refused ''personal environments require Docker cgroup v2'')) (\<lambda>_.
           and_then (container_record d (lease_name d l)) (\<lambda>found.
             case found of
               Some r \<Rightarrow> adopt_container d e l (lease_ref d l) r
             | None \<Rightarrow> create_container d e l (require_existing_data s) (lease_name d l) (lease_ref d l))))) h = (Inr hd', h')"
      unfolding start_def and_then_Inr read_Inr by blast
    have "bad = None" using b(1) v by simp
    from b(2) show ?thesis unfolding \<open>bad = None\<close> and_then_Inr option.case using that by blast
  qed
  have "\<exists>i r. shown d h' i r \<and> check_handle d hd' r = None \<and> handle_ref hd' = lease_ref d l"
  proof (cases found)
    case (Some r)
    with f record_found have a: "adopt_container d e l (lease_ref d l) r h2 = (Inr hd', h')" "shown d h2 (lease_name d l) r" by auto
    from a(1) obtain h3 x where s: "hd' = docker_handle (dr_id r) (lease_ref d l)" "check_handle d hd' r = None"
      "require_running d (dr_id r) h2 = (Inr (), h3)" "ensure_volume d e l False h3 = (Inr x, h')"
      by (auto simp: adopt_container_def Let_def and_then_Inr)
    with grows_running grows_volume have "\<exists>new. h' = h2 @ new" unfolding grows_def by (metis append_assoc)
    with a(2) shown_more have "shown d h' (lease_name d l) r" by metis
    with s(1,2) show ?thesis by auto
  next
    case None
    with f have c: "create_container d e l (require_existing_data s) (lease_name d l) (lease_ref d l) h2 = (Inr hd', h')" by simp
    then obtain hx r' hy where r: "container_record d (lease_name d l) hx = (r', hy)"
      "(case r' of Inr (Some r) \<Rightarrow> (let hd' = docker_handle (dr_id r) (lease_ref d l) in
         and_then (validate_handle d hd' r) (\<lambda>_. and_then (require_running d (dr_id r)) (\<lambda>_. give hd')))
       | _ \<Rightarrow> refuse (Refused ''environment creation receipt is unavailable'')) hy = (Inr hd', h')"
      unfolding create_container_def and_then_Inr attempt_Inr by blast
    then obtain r where s: "r' = Inr (Some r)" by (cases r') (auto split: option.splits)
    with r(2) have x: "hd' = docker_handle (dr_id r) (lease_ref d l)" "check_handle d hd' r = None"
      "require_running d (dr_id r) hy = (Inr (), h')"
      by (auto simp: Let_def and_then_Inr)
    obtain new where "h' = hy @ new" using grows_running x(3) unfolding grows_def by blast
    with record_found r(1) s shown_more have "shown d h' (lease_name d l) r" by metis
    with x(1,2) show ?thesis by auto
  qed
  then obtain i r where r: "shown d h' i r" "check_handle d hd' r = None" "handle_ref hd' = lease_ref d l" by blast
  from r(2) obtain l' where "lease_of_labels d (dr_labels r) = Inr l'" "label_of (dr_labels r) ''.name'' = lease_name d l'"
    "lease_ref d l' = handle_ref hd'" "dr_id r = handle_id hd'"
    by (auto simp: check_handle_def split: if_splits sum.splits)
  with r v show ?thesis by metis
qed


lemma limits_checked:
  assumes "verify_limits d hd' q h = (Inr x, h')"
  shows "\<exists>out c. ([''container'', ''inspect'', ''--format'', ''{{json .HostConfig}}'', handle_id hd'], Some out) \<in> set h'
    \<and> dk_host d out = Some c \<and> hc_network c = ''none'' \<and> hc_readonly c \<and> hc_memory c = q_memory q \<and> hc_swap c = q_memory q
    \<and> hc_cpus c = q_cpu q * 1000000 \<and> hc_pids c = q_procs q \<and> probe_setting (hc_drop c) ''ALL''
    \<and> probe_setting (hc_security c) ''no-new-privileges''"
proof -
  from assms obtain out h1 where o: "docker d [''container'', ''inspect'', ''--format'', ''{{json .HostConfig}}'', handle_id hd'] h
      = (Inr out, h1)"
    "(case dk_host d out of None \<Rightarrow> refuse (Refused ''personal Docker hard limits are unavailable'')
       | Some c \<Rightarrow> require (hc_network c = ''none'' \<and> hc_readonly c \<and> hc_memory c = q_memory q \<and> hc_swap c = q_memory q
           \<and> hc_cpus c = q_cpu q * 1000000 \<and> hc_pids c = q_procs q \<and> probe_setting (hc_drop c) ''ALL''
           \<and> probe_setting (hc_security c) ''no-new-privileges'') (Refused ''personal Docker hard limits are unavailable'')) h1
      = (Inr x, h')"
    unfolding verify_limits_def and_then_Inr by blast
  then show ?thesis by (auto dest!: docker_Inr split: option.splits)
qed

text \<open>A preflight reports readiness only if a container with the probe's lease had the asked limits, no network, a
  read-only root and no privileges, and the clean-up of the probe succeeded after everything else.\<close>

theorem preflight_ready_only_if:
  assumes "preflight d e rq h = (Inr t, h')"
  shows "pf_valid rq \<and> (\<exists>(hd' :: handle) h1 out c. cleanup_probe d e (probe_lease d rq (dk_now d h)) h1 = (Inr (), h')
    \<and> handle_ref hd' = lease_ref d (probe_lease d rq (dk_now d h))
    \<and> ([''container'', ''inspect'', ''--format'', ''{{json .HostConfig}}'', handle_id hd'], Some out) \<in> set h1
    \<and> dk_host d out = Some c \<and> hc_network c = ''none'' \<and> hc_readonly c \<and> hc_memory c = pf_memory rq \<and> hc_swap c = pf_memory rq
    \<and> hc_cpus c = pf_cpu rq * 1000000 \<and> hc_pids c = pf_procs rq)"
proof -
  let ?l = "probe_lease d rq (dk_now d h)"
  from assms have valid: "pf_valid rq" by (auto simp: preflight_def split: if_splits)
  with assms obtain r h1 c h2 where p: "probe_body d e ?l h = (r, h1)" "cleanup_probe d e ?l h1 = (c, h2)"
    "settle (case join_errors (error_of r) (error_of c) of None \<Rightarrow> r | Some x \<Rightarrow> Inl x) h2 = (Inr t, h')"
    by (auto simp: preflight_def and_then_Inr)
  from p(3) have ok: "r = Inr t" "c = Inr ()" "h2 = h'" by (auto simp: settled_Inr' error_of_None)
  from p(1) ok obtain ha hb hc hd' u where b: "create_probe_volume d ?l h = (Inr (), ha)"
    "start d e ?l (plain_spec e False) ha = (Inr hd', hb)" "verify_limits d hd' (lease_quota ?l) hb = (Inr (), hc)"
    "inspect d e hd' hc = (Inr u, h1)"
    by (auto simp: probe_body_def and_then_Inr)
  from started_environment_receipt [OF b(2)] have ref: "handle_ref hd' = lease_ref d ?l" by simp
  have "grows (inspect d e hd')" by (rule grows_kept, rule j.inspect_keeps)
  with b(4) obtain new where "h1 = hc @ new" unfolding grows_def by blast
  then have sub: "set hc \<subseteq> set h1" by simp
  have q: "q_memory (lease_quota ?l) = pf_memory rq" "q_cpu (lease_quota ?l) = pf_cpu rq" "q_procs (lease_quota ?l) = pf_procs rq"
    by (simp_all add: probe_lease_def)
  from limits_checked [OF b(3)] obtain out c' where c: "([''container'', ''inspect'', ''--format'', ''{{json .HostConfig}}'',
      handle_id hd'], Some out) \<in> set hc" "dk_host d out = Some c'" "hc_network c' = ''none'' \<and> hc_readonly c'
      \<and> hc_memory c' = pf_memory rq \<and> hc_swap c' = pf_memory rq \<and> hc_cpus c' = pf_cpu rq * 1000000 \<and> hc_pids c' = pf_procs rq"
    unfolding q by blast
  from c(1) sub have "([''container'', ''inspect'', ''--format'', ''{{json .HostConfig}}'', handle_id hd'], Some out) \<in> set h1"
    by blast
  moreover have "cleanup_probe d e ?l h1 = (Inr (), h')" using p(2) ok by simp
  ultimately show ?thesis using valid ref c(2,3)
    by - (rule conjI, assumption, rule exI [of _ hd'], rule exI [of _ h1], rule exI [of _ out], rule exI [of _ c'], simp)
qed

lemma gc_lease_released:
  "gc_lease d i now h = (Inr (Some l), h') \<Longrightarrow> expires_at l \<le> now \<and> released_at l = now"
  by (auto simp: gc_lease_def and_then_Inr not_less Let_def split: option.splits if_splits)

lemma gc_leases_released:
  "gc_leases d now ids released failure h = (Inr (out, f), h') \<Longrightarrow>
   (\<forall>l \<in> set out. l \<in> set released \<or> expires_at l \<le> now \<and> released_at l = now) \<and> length out \<le> length released + length ids"
proof (induction ids arbitrary: released failure h)
  case (Cons i ids)
  show ?case
  proof (cases "dk_ended d h")
    case True
    with Cons.prems show ?thesis by (auto simp: and_then_Inr)
  next
    case False
    with Cons.prems obtain r h1 where r: "gc_lease d i now h = (r, h1)"
      "(case r of Inl x \<Rightarrow> gc_leases d now ids released (join_errors failure (Some x))
         | Inr None \<Rightarrow> gc_leases d now ids released failure
         | Inr (Some l) \<Rightarrow> gc_leases d now ids (released @ [l]) failure) h1 = (Inr (out, f), h')"
      by (auto simp: and_then_Inr)
    consider x where "r = Inl x" | "r = Inr None" | l where "r = Inr (Some l)" by (metis obj_sumE option.exhaust)
    then show ?thesis
    proof cases
      case (3 l)
      with r Cons.IH [of "released @ [l]" failure h1] gc_lease_released show ?thesis by fastforce
    qed (use r Cons.IH in fastforce)+
  qed
qed auto

text \<open>A collection reports as released at most 32 leases, each of them expired.\<close>

theorem gc_releases_expired:
  assumes "gc d e now h = (Inr (released, f), h')"
  shows "length released \<le> 32 \<and> (\<forall>l \<in> set released. expires_at l \<le> now \<and> released_at l = now)"
proof -
  from assms obtain data h1 ids h2 f1 h3 where g: "expired_receipts d now container_id_ok data h1 = (Inr ids, h2)"
    "gc_leases d now ids [] None h2 = (Inr (released, f1), h3)"
    unfolding gc_def and_then_Inr by (auto simp: and_then_Inr)
  from expired_names_prefix [of "dk_instant d" now container_id_ok "[]" "split_char CHR 0x0A data" ids] g(1)
  have "length ids \<le> 32" by (auto simp: expired_receipts_def)
  with gc_leases_released [OF g(2)] show ?thesis by auto
qed

lemma sample_report:
  "parse_volume_quota ''0/257 16384 16384 99999 /data'' 99999 [] = (Inr 16384, [])"
  by code_simp

lemma volume_quota_sound_witness:
  "\<exists>l. filter quota_group (split_char CHR 0x0A ''0/257 16384 16384 99999 /data'') = [l]
    \<and> parse_int64 (RunnerPayload.fields l ! 1) = Some 16384"
  using volume_quota_sound [OF sample_report] by blast

end
