(* ===== verification/ComposeWork.thy ===== *)
theory ComposeWork
  imports Executor
begin

text \<open>
  What the runner does on the host for an operation on a Docker Compose project,
  \<^verbatim>\<open>internal/agent/runner/runner.go\<close>, \<^verbatim>\<open>docker_payload.go\<close>, \<^verbatim>\<open>docker_delivery.go\<close> and \<^verbatim>\<open>docker_git.go\<close>.

  A step is a function of the state of the work, which holds the runner, the acts done so far
  (commands, writes, reports) in order, the context of the operation and the stop channel. What the
  host answers to an act is a function of the acts before it (\<open>host\<close>), so it may answer anything. A Go
  function that returns its log lines and an error is a \<open>prog\<close>; \<open>thenp\<close> appends the lines and stops at
  the first error. While an operation runs, its heartbeat goroutine and the end of its context
  interleave with its acts: \<open>ho_events\<close> lists what happens during an act.
\<close>

subsection \<open>Data\<close>

record docker_operation =
  op_id :: string
  op_kind :: string
  op_project :: string
  op_token :: string
  op_timeout :: int
  op_payload :: gmap

record docker_config =
  dc_runner :: runner_config
  dc_worker :: string
  dc_endpoint :: string
  dc_kinds :: "string list"
  dc_root :: string

record docker_report =
  kr_operation :: string
  kr_acknowledged :: bool
  kr_worker :: string
  kr_token :: string
  kr_status :: string
  kr_payload :: gvalue
  kr_logs :: "string list"
  kr_delivered :: bool

datatype act =
    Ran string "string list"
  | MadeDir string
  | MadeTemp string
  | Wrote string string
  | Removed string
  | RemovedAll string
  | Told docker_report

record work =
  wk_runner :: runner
  wk_acts :: "act list"
  wk_ctx :: ctx_state
  wk_parent :: bool
  wk_beating :: bool
  wk_stop :: "string option"

text \<open>An answer of the control plane to a status poll is an id and a status. A heartbeat is the attempts of its
  report and the poll that follows it.\<close>

datatype work_event = TimeUp | ParentUp | Beat "nat \<Rightarrow> call_outcome" "(string \<times> string) option"

datatype file_kind = Directory | Regular | Special

datatype file_error = NotThere string | FileError string

fun file_text :: "file_error \<Rightarrow> string" where
  "file_text (NotThere s) = s"
| "file_text (FileError s) = s"

record repo_url =
  ru_host :: string
  ru_scheme :: string
  ru_user :: "(string \<times> bool) option"

record host =
  ho_text :: "rat \<Rightarrow> string"
  ho_quote :: "string \<Rightarrow> string"
  ho_first :: bool
  ho_late :: "(bool \<times> (nat \<Rightarrow> call_outcome) \<times> (string \<times> string) option) option"
  ho_goarch :: string
  ho_cwd :: "string + string"
  ho_run :: "act list \<Rightarrow> string \<Rightarrow> string list \<Rightarrow> string \<times> string \<times> string option"
  ho_file :: "act list \<Rightarrow> act \<Rightarrow> file_error option"
  ho_temp :: "act list \<Rightarrow> string + string"
  ho_read :: "act list \<Rightarrow> string \<Rightarrow> string option"
  ho_stat :: "act list \<Rightarrow> string \<Rightarrow> file_error + file_kind"
  ho_real :: "act list \<Rightarrow> string \<Rightarrow> string + string"
  ho_url :: "string \<Rightarrow> repo_url option"
  ho_records :: "string \<Rightarrow> gmap list"
  ho_calls :: "act list \<Rightarrow> nat \<Rightarrow> call_outcome"
  ho_stamp :: "act list \<Rightarrow> string"
  ho_events :: "act list \<Rightarrow> work_event list"

subsection \<open>Reports\<close>

definition docker_worker :: "docker_config \<Rightarrow> string" where
  "docker_worker c = first_non_empty [trim_space (dc_worker c), trim_space (rc_agent (dc_runner c)), ''local-docker-runner'']"

definition note_act :: "act \<Rightarrow> work \<Rightarrow> work" where
  "note_act a w = w\<lparr>wk_acts := wk_acts w @ [a]\<rparr>"

definition command_line :: "string list \<Rightarrow> string" where
  "command_line argv = ''$ '' @ trim_space (join_with '' '' argv)"

definition command_output :: "string list \<Rightarrow> string \<Rightarrow> string \<Rightarrow> string list" where
  "command_output argv out err = command_line argv # filter (\<lambda>v. v \<noteq> []) [trim_space out, trim_space err]"

text \<open>\<^verbatim>\<open>commandVersion\<close>: the first line of the log that is no command line. A context that is done starts no
  process.\<close>

definition command_version :: "host \<Rightarrow> bool \<Rightarrow> string list \<Rightarrow> work \<Rightarrow> string \<times> work" where
  "command_version h live argv w =
     (if \<not> live then ([], w)
      else case ho_run h (wk_acts w) [] argv of
        (out, err, failed) \<Rightarrow>
          ((if failed \<noteq> None then []
            else case find (\<lambda>l. trim_space l \<noteq> [] \<and> \<not> has_prefix (trim_space l) ''$ '') (command_output argv out err) of
              None \<Rightarrow> [] | Some l \<Rightarrow> trim_space l),
           note_act (Ran [] argv) w))"

definition put_entries :: "gmap \<Rightarrow> gmap \<Rightarrow> gmap" where
  "put_entries m es = foldl (\<lambda>m e. AList.update (fst e) (snd e) m) m es"

definition probes :: "string list list" where
  "probes = [[''docker'', ''info'', ''--format'', ''{{.Architecture}}''], [''docker'', ''--version''],
     [''docker'', ''compose'', ''version'']]"

definition runtime_payload :: "host \<Rightarrow> docker_config \<Rightarrow> bool \<Rightarrow> gmap \<Rightarrow> work \<Rightarrow> gmap \<times> work" where
  "runtime_payload h c live extra w =
     (let host_arch = normalize_architecture (ho_goarch h);
          (raw, w1) = command_version h live (probes ! 0) w;
          arch = normalize_architecture raw;
          (version, w2) = command_version h live (probes ! 1) w1;
          (compose, w3) = command_version h live (probes ! 2) w2
      in (put_entries
            [(''agentId'', VStr (agent_id (dc_runner c))), (''workerId'', VStr (docker_worker c)),
             (''endpoint'', VStr (trim_space (dc_endpoint c))), (''hostArchitecture'', VStr host_arch),
             (''dockerArchitecture'', VStr arch), (''architecture'', VStr (first_non_empty [arch, host_arch])),
             (''dockerVersion'', VStr version), (''composeVersion'', VStr compose)] extra, w3))"

definition docker_callback ::
  "host \<Rightarrow> docker_config \<Rightarrow> docker_operation \<Rightarrow> string \<Rightarrow> gmap \<Rightarrow> string list \<Rightarrow> (nat \<Rightarrow> call_outcome) \<Rightarrow> work \<Rightarrow>
   (string \<times> string) option \<times> work" where
  "docker_callback h c op status payload logs calls w =
     (let (answer, r) = with_callback_retry (dc_runner c) scope_docker status (ho_stamp h (wk_acts w)) calls (wk_runner w);
          w1 = note_act (Told \<lparr>kr_operation = op_id op,
            kr_acknowledged = (status = ''canceled'' \<and> bool_value (map_get payload ''cancellationAcknowledged'') False),
            kr_worker = docker_worker c, kr_token = op_token op, kr_status = status,
            kr_payload = redact_value (VMap payload), kr_logs = redact_logs logs,
            kr_delivered = (answer \<noteq> None)\<rparr>) (w\<lparr>wk_runner := r\<rparr>)
      in case answer of
           None \<Rightarrow> (None, w1)
         | Some (i, s) \<Rightarrow> if trim_space i = [] then (None, w1) else (Some (i, s), w1))"

subsection \<open>What happens during an act\<close>

definition end_work :: "ctx_state \<Rightarrow> work \<Rightarrow> work" where
  "end_work s w = (if wk_ctx w = CtxLive then w\<lparr>wk_ctx := s\<rparr> else w)"

definition stop_work :: "string \<Rightarrow> work \<Rightarrow> work" where
  "stop_work status w = end_work CtxCanceled (w\<lparr>wk_beating := False,
     wk_stop := (if wk_stop w = None then Some (trim_space status) else wk_stop w)\<rparr>)"

definition stopping :: "(string \<times> string) option \<Rightarrow> bool" where
  "stopping ans = (case ans of None \<Rightarrow> False | Some (i, s) \<Rightarrow> trim_space i \<noteq> [] \<and> should_stop_docker s)"

definition beat_now :: "host \<Rightarrow> docker_config \<Rightarrow> docker_operation \<Rightarrow> (nat \<Rightarrow> call_outcome) \<Rightarrow> (string \<times> string) option \<Rightarrow> work \<Rightarrow> work" where
  "beat_now h c op calls poll w =
     (let (payload, w1) = runtime_payload h c (wk_ctx w = CtxLive) [(''heartbeatAt'', VStr (ho_stamp h (wk_acts w)))] w;
          (answer, w2) = docker_callback h c op ''running'' payload [] calls w1
      in if stopping answer then stop_work (snd (the answer)) w2
         else if stopping poll then stop_work (snd (the poll)) w2 else w2)"

fun work_step :: "host \<Rightarrow> docker_config \<Rightarrow> docker_operation \<Rightarrow> work \<Rightarrow> work_event \<Rightarrow> work" where
  "work_step h c op w TimeUp = end_work CtxDeadline w"
| "work_step h c op w ParentUp = end_work CtxCanceled (w\<lparr>wk_parent := True\<rparr>)"
| "work_step h c op w (Beat calls poll) =
     (if wk_beating w \<and> wk_ctx w = CtxLive then beat_now h c op calls poll w else w)"

definition happen :: "host \<Rightarrow> docker_config \<Rightarrow> docker_operation \<Rightarrow> work \<Rightarrow> work" where
  "happen h c op w = foldl (work_step h c op) w (ho_events h (wk_acts w))"

subsection \<open>Programs\<close>

type_synonym 'a prog = "work \<Rightarrow> string list \<times> (string + 'a) \<times> work"

definition retp :: "'a \<Rightarrow> 'a prog" where
  "retp x w = ([], Inr x, w)"

definition failp :: "string \<Rightarrow> 'a prog" where
  "failp e w = ([], Inl e, w)"

definition thenp :: "'a prog \<Rightarrow> ('a \<Rightarrow> 'b prog) \<Rightarrow> 'b prog" where
  "thenp m f w =
     (case m w of
        (logs, Inl e, w1) \<Rightarrow> (logs, Inl e, w1)
      | (logs, Inr x, w1) \<Rightarrow> (case f x w1 of (lines, r, w2) \<Rightarrow> (logs @ lines, r, w2)))"

definition sayp :: "string list \<Rightarrow> unit prog" where
  "sayp logs w = (logs, Inr (), w)"

definition wrapp :: "string \<Rightarrow> 'a prog \<Rightarrow> 'a prog" where
  "wrapp before m w = (case m w of (logs, Inl e, w1) \<Rightarrow> (logs, Inl (before @ '': '' @ e), w1) | (logs, Inr x, w1) \<Rightarrow> (logs, Inr x, w1))"

definition needp :: "bool \<Rightarrow> string \<Rightarrow> unit prog" where
  "needp b e w = ([], if b then Inr () else Inl e, w)"

definition settlep :: "string + 'a \<Rightarrow> 'a prog" where
  "settlep r w = ([], r, w)"

definition readp :: "(act list \<Rightarrow> 'a) \<Rightarrow> 'a prog" where
  "readp f w = ([], Inr (f (wk_acts w)), w)"

text \<open>The outcome of a program as a value, and a program without its log lines.\<close>

definition tryp :: "'a prog \<Rightarrow> (string + 'a) prog" where
  "tryp m w = (case m w of (logs, r, w1) \<Rightarrow> (logs, Inr r, w1))"

definition mutep :: "'a prog \<Rightarrow> (string list \<times> 'a) prog" where
  "mutep m w = (case m w of (logs, Inl e, w1) \<Rightarrow> ([], Inl e, w1) | (logs, Inr x, w1) \<Rightarrow> ([], Inr (logs, x), w1))"


definition perform :: "host \<Rightarrow> docker_config \<Rightarrow> docker_operation \<Rightarrow> act \<Rightarrow> work \<Rightarrow> work" where
  "perform h c op a w = happen h c op (note_act a w)"

text \<open>\<^verbatim>\<open>runCommand\<close> under a context that is live or done.\<close>

definition runp :: "host \<Rightarrow> docker_config \<Rightarrow> docker_operation \<Rightarrow> (work \<Rightarrow> bool) \<Rightarrow> string \<Rightarrow> string list \<Rightarrow> unit prog" where
  "runp h c op live dir argv w =
     (if \<not> live w then ([command_line argv], Inl ''context done'', w)
      else case ho_run h (wk_acts w) dir argv of
        (out, err, failed) \<Rightarrow>
          (command_output argv out err, (case failed of None \<Rightarrow> Inr () | Some e \<Rightarrow> Inl e), perform h c op (Ran dir argv) w))"

definition task_live :: "work \<Rightarrow> bool" where
  "task_live w \<longleftrightarrow> wk_ctx w = CtxLive"

definition parent_live :: "work \<Rightarrow> bool" where
  "parent_live w \<longleftrightarrow> \<not> wk_parent w"

definition filep :: "host \<Rightarrow> docker_config \<Rightarrow> docker_operation \<Rightarrow> act \<Rightarrow> unit prog" where
  "filep h c op a w =
     ([], (case ho_file h (wk_acts w) a of None \<Rightarrow> Inr () | Some e \<Rightarrow> Inl (file_text e)), perform h c op a w)"

text \<open>Removing a file that may be absent.\<close>

definition dropp :: "host \<Rightarrow> docker_config \<Rightarrow> docker_operation \<Rightarrow> string \<Rightarrow> unit prog" where
  "dropp h c op path w =
     ([], (case ho_file h (wk_acts w) (Removed path) of Some (FileError e) \<Rightarrow> Inl e | r \<Rightarrow> Inr ()), perform h c op (Removed path) w)"

definition resolvep :: "string \<Rightarrow> string \<Rightarrow> string prog" where
  "resolvep place relative =
     (case resolve_workspace_path place relative of
        Some p \<Rightarrow> retp p
      | None \<Rightarrow> failp ((if is_abs relative then ''absolute workspace paths are not allowed: ''
                       else ''workspace path escapes root: '') @ relative))"

definition abs_path :: "host \<Rightarrow> string \<Rightarrow> string + string" where
  "abs_path h p =
     (if is_abs p then Inr (clean_path p)
      else case ho_cwd h of Inl e \<Rightarrow> Inl e | Inr d \<Rightarrow> Inr (join_path [d, p]))"

subsection \<open>The payload\<close>

record compose_payload =
  cp_action :: string
  cp_slug :: string
  cp_content :: string
  cp_env :: string
  cp_service :: string

definition payload_fields :: "(string \<times> (string \<Rightarrow> compose_payload \<Rightarrow> compose_payload)) list" where
  "payload_fields =
     [(''action'', \<lambda>s p. p\<lparr>cp_action := s\<rparr>), (''projectSlug'', \<lambda>s p. p\<lparr>cp_slug := s\<rparr>),
      (''composeContent'', \<lambda>s p. p\<lparr>cp_content := s\<rparr>), (''envContent'', \<lambda>s p. p\<lparr>cp_env := s\<rparr>),
      (''serviceName'', \<lambda>s p. p\<lparr>cp_service := s\<rparr>)]"

text \<open>The kind of a JSON value as \<^verbatim>\<open>encoding/json\<close> names it in its errors.\<close>

fun json_kind :: "gvalue \<Rightarrow> string" where
  "json_kind VNil = ''null''"
| "json_kind (VBool b) = ''bool''"
| "json_kind (VInt i) = ''number''"
| "json_kind (VFloat q) = ''number''"
| "json_kind (VMap es) = ''object''"
| "json_kind (VStr s) = ''string''"
| "json_kind (VStrs ss) = ''array''"
| "json_kind (VList vs) = ''array''"
| "json_kind (VMaps ms) = ''array''"
| "json_kind (VOpaque s) = ''value''"

text \<open>A member is decoded into the field whose name equals its key under case folding; an unknown key and a null are
  skipped, the first value that is no string is the error, and decoding goes on. Members arrive in the
  order of their keys, as \<^verbatim>\<open>json.Marshal\<close> writes a map.\<close>

definition decode_member :: "string option \<times> compose_payload \<Rightarrow> string \<times> gvalue \<Rightarrow> string option \<times> compose_payload" where
  "decode_member = (\<lambda>(err, p) (k, v).
     case find (\<lambda>f. match_word (to_lower (fst f)) k = Some []) payload_fields of
       None \<Rightarrow> (err, p)
     | Some (name, set_field) \<Rightarrow>
         (case v of
            VStr s \<Rightarrow> (err, set_field s p)
          | VNil \<Rightarrow> (err, p)
          | _ \<Rightarrow> (if err = None
               then Some (''json: cannot unmarshal '' @ json_kind v @ '' into Go struct field dockerComposePayload.'' @ name @ '' of type string'')
               else err, p)))"

definition decode_compose :: "gmap \<Rightarrow> string + compose_payload" where
  "decode_compose m =
     (case foldl decode_member (None, \<lparr>cp_action = [], cp_slug = [], cp_content = [], cp_env = [], cp_service = []\<rparr>)
        (sort_key fst m) of
        (None, p) \<Rightarrow> Inr p
      | (Some e, p) \<Rightarrow> Inl (''invalid Docker operation payload: '' @ e))"

definition validate_operation :: "(string \<Rightarrow> string) \<Rightarrow> docker_operation \<Rightarrow> string option" where
  "validate_operation quote op =
     (if op_kind op \<notin> {''container_start'', ''project_deploy'', ''service_action''} then None
      else case decode_compose (op_payload op) of
        Inl e \<Rightarrow> Some e
      | Inr p \<Rightarrow>
          if trim_space (cp_content p) = [] then Some (''composeContent is required for '' @ op_kind op)
          else if op_kind op = ''service_action'' then
            (if trim_space (cp_service p) = [] then Some ''serviceName is required for docker service action''
             else if compose_service_args (cp_action p) (cp_service p) = []
             then Some (''unsupported docker service action '' @ quote (cp_action p)) else None)
          else if compose_args (cp_action p) = [] then Some (''unsupported compose action '' @ quote (cp_action p))
          else None)"

definition op_field :: "host \<Rightarrow> docker_operation \<Rightarrow> string \<Rightarrow> string" where
  "op_field h op k = text_field (ho_text h) (op_payload op) k"

subsection \<open>The workspace of a project\<close>

definition compose_root :: "docker_config \<Rightarrow> string" where
  "compose_root c = (if trim_space (dc_root c) = [] then ''.soha/docker'' else trim_space (dc_root c))"

definition newline :: string where
  "newline = [CHR 0x0A]"

definition write_env :: "host \<Rightarrow> docker_config \<Rightarrow> docker_operation \<Rightarrow> string \<Rightarrow> unit prog" where
  "write_env h c op dir =
     (let content = op_field h op ''envContent''; path = join_path [dir, ''.env''] in
      if content \<noteq> [] then wrapp ''write .env'' (filep h c op (Wrote path (content @ newline)))
      else wrapp ''remove stale .env'' (dropp h c op path))"

definition prepare_compose :: "host \<Rightarrow> docker_config \<Rightarrow> docker_operation \<Rightarrow> string prog" where
  "prepare_compose h c op =
     thenp (wrapp ''resolve docker compose root'' (settlep (abs_path h (compose_root c)))) (\<lambda>place.
     thenp (resolvep place (first_non_empty [op_field h op ''projectSlug'', op_project op, op_id op])) (\<lambda>dir.
     thenp (wrapp ''create docker compose workspace'' (filep h c op (MadeDir dir))) (\<lambda>_.
     let content = op_field h op ''composeContent'' in
     thenp (needp (content \<noteq> []) ''composeContent is required'') (\<lambda>_.
     thenp (wrapp ''write compose.yaml'' (filep h c op (Wrote (join_path [dir, ''compose.yaml'']) (content @ newline)))) (\<lambda>_.
     thenp (write_env h c op dir) (\<lambda>_.
     thenp (sayp [''compose workspace prepared at '' @ dir]) (\<lambda>_. retp dir)))))))"

definition compose_command :: "string list \<Rightarrow> string list" where
  "compose_command args = ''docker'' # args"

text \<open>A program followed by a clean-up that is told whether it failed; the outcome is the program's.\<close>

definition afterp :: "'a prog \<Rightarrow> (bool \<Rightarrow> unit prog) \<Rightarrow> 'a prog" where
  "afterp m g w = (case m w of (logs, r, w1) \<Rightarrow>
     (case g (isl r) w1 of (lines, r', w2) \<Rightarrow> (logs @ lines, r, w2)))"

text \<open>An act whose failure is ignored.\<close>

definition actp :: "host \<Rightarrow> docker_config \<Rightarrow> docker_operation \<Rightarrow> act \<Rightarrow> unit prog" where
  "actp h c op a w = ([], Inr (), perform h c op a w)"

text \<open>\<^verbatim>\<open>validateDeliveryCompose\<close>. The temporary directory is removed at the end, whatever happened.\<close>

definition validate_in :: "host \<Rightarrow> docker_config \<Rightarrow> docker_operation \<Rightarrow> compose_payload \<Rightarrow> string \<Rightarrow> unit prog" where
  "validate_in h c op p dir =
     thenp (filep h c op (Wrote (join_path [dir, ''compose.yaml'']) (cp_content p))) (\<lambda>_.
     thenp (filep h c op (Wrote (join_path [dir, ''.env'']) (cp_env p))) (\<lambda>_.
     thenp (wrapp ''docker preflight requires a reachable daemon''
       (runp h c op task_live dir [''docker'', ''info'', ''--format'', ''{{.ServerVersion}}''])) (\<lambda>_.
     runp h c op task_live dir (compose_command (compose_args ''validate'')))))"

definition validate_delivery :: "host \<Rightarrow> docker_config \<Rightarrow> docker_operation \<Rightarrow> unit prog" where
  "validate_delivery h c op =
     thenp (settlep (decode_compose (op_payload op))) (\<lambda>p.
     thenp (readp (ho_temp h)) (\<lambda>made.
     thenp (settlep made) (\<lambda>dir.
     thenp (actp h c op (MadeTemp dir)) (\<lambda>_.
     afterp (validate_in h c op p dir) (\<lambda>_. actp h c op (RemovedAll dir))))))"

subsection \<open>Building an image from a Git repository\<close>

record git_spec =
  gs_url :: string
  gs_ref :: string
  gs_dockerfile :: string
  gs_context :: string
  gs_image :: string
  gs_platform :: string
  gs_pull :: bool
  gs_no_cache :: bool

definition commit_ok :: "string \<Rightarrow> bool" where
  "commit_ok s \<longleftrightarrow> length s = 40 \<and> list_all is_lower_hex s"

definition build_id_ok :: "string \<Rightarrow> bool" where
  "build_id_ok s \<longleftrightarrow> s \<noteq> [] \<and> length s \<le> 128 \<and> is_alnum (hd s)
     \<and> list_all (\<lambda>c. is_alnum c \<or> c \<in> {CHR ''.'', CHR ''_'', CHR ''-''}) (tl s)"

definition leaves_repository :: "string \<Rightarrow> bool" where
  "leaves_repository p \<longleftrightarrow> is_abs (clean_path p) \<or> clean_path p = ''..'' \<or> has_prefix (clean_path p) ''../''"

text \<open>The two paths are checked in the order in which a Go map yields them (\<open>ho_first\<close>).\<close>

definition validate_git_spec :: "host \<Rightarrow> git_spec \<Rightarrow> string option" where
  "validate_git_spec h s =
     (case ho_url h (gs_url s) of
        None \<Rightarrow> Some ''repositoryUrl must use http, https, or ssh''
      | Some u \<Rightarrow>
          if ru_host u = [] \<or> to_lower (ru_scheme u) \<notin> {''http'', ''https'', ''ssh''}
          then Some ''repositoryUrl must use http, https, or ssh''
          else if (case ru_user u of None \<Rightarrow> False
                   | Some (name, password) \<Rightarrow> ru_scheme u \<noteq> ''ssh'' \<or> name \<noteq> ''git'' \<or> password)
          then Some ''repositoryUrl must not contain credentials''
          else if gs_image s = [] then Some ''image is required for git Dockerfile build''
          else if gs_ref s = [] \<or> has_prefix (gs_ref s) ''-'' \<or> contains_any (gs_ref s) [CHR 0x0D, CHR 0x0A]
          then Some ''git ref is invalid''
          else
            let paths = [(''dockerfilePath'', gs_dockerfile s), (''contextDir'', gs_context s)] in
            case find (\<lambda>e. leaves_repository (snd e)) (if ho_first h then paths else rev paths) of
              None \<Rightarrow> None
            | Some e \<Rightarrow> Some (fst e @ '' must stay inside the repository''))"

definition git_spec_of :: "host \<Rightarrow> docker_operation \<Rightarrow> string + git_spec" where
  "git_spec_of h op =
     (case map_get (op_payload op) ''gitBuild'' of
        VMap raw \<Rightarrow>
          (let field = text_field (ho_text h) raw;
               s = \<lparr>gs_url = field ''repositoryUrl'', gs_ref = first_non_empty [field ''ref'', ''main''],
                 gs_dockerfile = first_non_empty [field ''dockerfilePath'', ''Dockerfile''],
                 gs_context = first_non_empty [field ''contextDir'', ''.''],
                 gs_image = op_field h op ''image'', gs_platform = op_field h op ''platform'',
                 gs_pull = bool_value (map_get raw ''pull'') False,
                 gs_no_cache = bool_value (map_get raw ''noCache'') False\<rparr>
           in case validate_git_spec h s of None \<Rightarrow> Inr s | Some e \<Rightarrow> Inl e)
      | _ \<Rightarrow> Inl ''gitBuild payload is required for git_dockerfile source'')"

definition git_root :: "host \<Rightarrow> docker_operation \<Rightarrow> string \<Rightarrow> (git_spec \<times> string) prog" where
  "git_root h op dir =
     thenp (settlep (git_spec_of h op)) (\<lambda>s.
     thenp (needp (build_id_ok (trim_space (op_id op))) ''docker operation id is invalid for git build workspace'') (\<lambda>_.
     thenp (wrapp ''resolve git build workspace'' (resolvep (join_path [dir, ''.soha-build'']) (op_id op))) (\<lambda>place.
     retp (s, place))))"

definition git_init :: "host \<Rightarrow> docker_config \<Rightarrow> docker_operation \<Rightarrow> string \<Rightarrow> unit prog" where
  "git_init h c op repo =
     thenp (readp (\<lambda>acts. ho_stat h acts (join_path [repo, ''.git'']))) (\<lambda>found.
     case found of
       Inr k \<Rightarrow> retp ()
     | Inl (FileError e) \<Rightarrow> failp (''inspect git build workspace: '' @ e)
     | Inl (NotThere e) \<Rightarrow>
         thenp (wrapp ''reset git build workspace'' (filep h c op (RemovedAll repo))) (\<lambda>_.
         thenp (wrapp ''recreate git build workspace'' (filep h c op (MadeDir repo))) (\<lambda>_.
         wrapp ''initialize git repository'' (runp h c op task_live repo [''git'', ''init'', ''--quiet'']))))"

definition maskp :: "unit prog \<Rightarrow> unit prog" where
  "maskp m w = (case m w of (logs, r, w1) \<Rightarrow>
     ((case logs of [] \<Rightarrow> [] | l # ls \<Rightarrow> ''$ git remote [repository URL omitted]'' # ls), r, w1))"

definition git_origin :: "host \<Rightarrow> docker_config \<Rightarrow> docker_operation \<Rightarrow> git_spec \<Rightarrow> string \<Rightarrow> unit prog" where
  "git_origin h c op s repo =
     thenp (mutep (tryp (runp h c op task_live repo [''git'', ''remote'', ''get-url'', ''origin'']))) (\<lambda>(logs, known).
     case known of
       Inr u \<Rightarrow> wrapp ''update git origin'' (maskp (runp h c op task_live repo [''git'', ''remote'', ''set-url'', ''origin'', gs_url s]))
     | Inl e \<Rightarrow> wrapp ''configure git origin'' (maskp (runp h c op task_live repo [''git'', ''remote'', ''add'', ''origin'', gs_url s])))"

definition fetch_ref :: "git_spec \<Rightarrow> string option \<Rightarrow> string" where
  "fetch_ref s saved =
     (case saved of None \<Rightarrow> gs_ref s | Some raw \<Rightarrow> if commit_ok (trim_space raw) then trim_space raw else gs_ref s)"

definition git_checkout :: "host \<Rightarrow> docker_config \<Rightarrow> docker_operation \<Rightarrow> git_spec \<Rightarrow> string \<Rightarrow> string \<Rightarrow> unit prog" where
  "git_checkout h c op s place repo =
     thenp (readp (\<lambda>acts. fetch_ref s (ho_read h acts (join_path [place, ''resolved-commit''])))) (\<lambda>ref.
     thenp (wrapp (''fetch git ref '' @ ho_quote h ref)
       (runp h c op task_live repo [''git'', ''fetch'', ''--quiet'', ''--depth=1'', ''origin'', ref])) (\<lambda>_.
     thenp (wrapp (''checkout git ref '' @ ho_quote h ref)
       (runp h c op task_live repo [''git'', ''checkout'', ''--quiet'', ''--detach'', ''FETCH_HEAD''])) (\<lambda>_.
     wrapp ''clean git checkout'' (runp h c op task_live repo [''git'', ''clean'', ''-fdx'']))))"

definition git_commit :: "host \<Rightarrow> docker_config \<Rightarrow> docker_operation \<Rightarrow> string \<Rightarrow> string \<Rightarrow> unit prog" where
  "git_commit h c op place repo =
     thenp (mutep (tryp (runp h c op task_live repo [''git'', ''rev-parse'', ''HEAD'']))) (\<lambda>(logs, r).
     let commit = trim_space (last logs) in
     thenp (needp (\<not> isl r \<and> 2 \<le> length logs \<and> commit_ok commit) ''resolve checked out git commit'') (\<lambda>_.
     thenp (wrapp ''persist resolved git commit'' (filep h c op (Wrote (join_path [place, ''resolved-commit'']) (commit @ newline)))) (\<lambda>_.
     sayp [''git source resolved at commit '' @ commit])))"

definition build_path :: "host \<Rightarrow> string \<Rightarrow> string \<Rightarrow> bool \<Rightarrow> string prog" where
  "build_path h repo relative want_dir =
     thenp (resolvep repo relative) (\<lambda>full.
     thenp (readp (\<lambda>acts. ho_real h acts full)) (\<lambda>r1. thenp (settlep r1) (\<lambda>resolved.
     thenp (readp (\<lambda>acts. ho_real h acts repo)) (\<lambda>r2. thenp (settlep r2) (\<lambda>canonical.
     thenp (case rel_path (clean_path canonical) resolved of
         Some p \<Rightarrow> retp p
       | None \<Rightarrow> failp (''Rel: can'' @ [CHR 0x27] @ ''t make '' @ resolved @ '' relative to '' @ clean_path canonical)) (\<lambda>inside.
     thenp (resolvep canonical inside) (\<lambda>path.
     thenp (readp (\<lambda>acts. ho_stat h acts path)) (\<lambda>found.
     case found of
       Inl e \<Rightarrow> failp (file_text e)
     | Inr k \<Rightarrow>
         if want_dir \<and> k \<noteq> Directory then failp (relative @ '' is not a directory'')
         else if \<not> want_dir \<and> k \<noteq> Regular then failp (relative @ '' is not a regular file'')
         else retp path))))))))"

definition build_args :: "git_spec \<Rightarrow> string \<Rightarrow> string \<Rightarrow> string list" where
  "build_args s dockerfile context_dir =
     [''docker'', ''build'', ''--file'', dockerfile, ''--tag'', gs_image s]
     @ (if gs_platform s = [] then [] else [''--platform'', gs_platform s])
     @ (if gs_pull s then [''--pull''] else []) @ (if gs_no_cache s then [''--no-cache''] else []) @ [context_dir]"

definition build_in :: "host \<Rightarrow> docker_config \<Rightarrow> docker_operation \<Rightarrow> git_spec \<Rightarrow> string \<Rightarrow> unit prog" where
  "build_in h c op s place =
     (let repo = join_path [place, ''repository''] in
      thenp (wrapp ''create git build workspace'' (filep h c op (MadeDir repo))) (\<lambda>_.
      thenp (sayp [''git build workspace prepared'']) (\<lambda>_.
      thenp (git_init h c op repo) (\<lambda>_.
      thenp (git_origin h c op s repo) (\<lambda>_.
      thenp (git_checkout h c op s place repo) (\<lambda>_.
      thenp (git_commit h c op place repo) (\<lambda>_.
      thenp (wrapp ''resolve Dockerfile'' (build_path h repo (gs_dockerfile s) False)) (\<lambda>dockerfile.
      thenp (wrapp ''resolve build context'' (build_path h repo (gs_context s) True)) (\<lambda>context_dir.
      thenp (wrapp (''build Docker image '' @ ho_quote h (gs_image s))
        (runp h c op task_live repo (build_args s dockerfile context_dir))) (\<lambda>_.
      sayp [''Docker image built from Git source: '' @ gs_image s]))))))))))"

definition cleanup_build :: "host \<Rightarrow> docker_config \<Rightarrow> docker_operation \<Rightarrow> string \<Rightarrow> bool \<Rightarrow> unit prog" where
  "cleanup_build h c op place preserve =
     (if trim_space place = [] then retp ()
      else if \<not> preserve then filep h c op (RemovedAll place)
      else
        thenp (readp (\<lambda>acts. ho_read h acts (join_path [place, ''resolved-commit'']))) (\<lambda>saved.
        if saved = None \<or> \<not> commit_ok (trim_space (the saved)) then filep h c op (RemovedAll place)
        else
          thenp (filep h c op (RemovedAll place)) (\<lambda>_.
          thenp (filep h c op (MadeDir place)) (\<lambda>_.
          filep h c op (Wrote (join_path [place, ''resolved-commit'']) (trim_space (the saved) @ newline))))))"

definition cleanup_failed :: "string \<Rightarrow> string" where
  "cleanup_failed e = ''git build workspace cleanup failed: '' @ e"

definition cleanup_silent :: "host \<Rightarrow> docker_config \<Rightarrow> docker_operation \<Rightarrow> string \<Rightarrow> unit prog" where
  "cleanup_silent h c op place =
     thenp (tryp (cleanup_build h c op place True)) (\<lambda>r. case r of Inr u \<Rightarrow> retp () | Inl e \<Rightarrow> sayp [cleanup_failed e])"

definition cleanup_lines :: "host \<Rightarrow> docker_config \<Rightarrow> docker_operation \<Rightarrow> string \<Rightarrow> bool \<Rightarrow> unit prog" where
  "cleanup_lines h c op place preserve =
     (if place = [] then retp ()
      else thenp (tryp (cleanup_build h c op place preserve)) (\<lambda>r.
        sayp [case r of Inl e \<Rightarrow> cleanup_failed e
              | Inr u \<Rightarrow> if preserve then ''git build checkout cleaned; resolved commit retained''
                       else ''git build workspace cleaned'']))"

subsection \<open>Actions\<close>

definition source_kind :: "host \<Rightarrow> docker_operation \<Rightarrow> string" where
  "source_kind h op = op_field h op ''sourceKind''"

definition redeploy_single :: "host \<Rightarrow> docker_config \<Rightarrow> docker_operation \<Rightarrow> string \<Rightarrow> unit prog" where
  "redeploy_single h c op dir =
     thenp (if source_kind h op = ''git_dockerfile''
       then thenp (git_root h op dir) (\<lambda>(s, place).
         thenp (afterp (build_in h c op s place) (\<lambda>bad. if bad then cleanup_lines h c op place True else retp ())) (\<lambda>_. retp place))
       else thenp (runp h c op task_live dir (compose_command (compose_base @ [''pull'']))) (\<lambda>_. retp [])) (\<lambda>place.
     thenp (afterp (runp h c op task_live dir (compose_command (compose_base @ [''down'', ''--remove-orphans''])))
       (\<lambda>bad. if bad then cleanup_lines h c op place True else retp ())) (\<lambda>_.
     afterp (runp h c op task_live dir (compose_command (compose_base @ [''up'', ''-d'', ''--force-recreate''])))
       (cleanup_lines h c op place)))"

definition compose_action :: "host \<Rightarrow> docker_config \<Rightarrow> docker_operation \<Rightarrow> unit prog" where
  "compose_action h c op =
     (let action = first_non_empty [op_field h op ''action'', ''deploy''] in
      if action = ''validate'' then validate_delivery h c op
      else
        thenp (prepare_compose h c op) (\<lambda>dir.
        if action = ''redeploy'' \<and> source_kind h op \<in> {''single_container'', ''git_dockerfile''}
        then redeploy_single h c op dir
        else
          thenp (if source_kind h op = ''git_dockerfile''
            then thenp (git_root h op dir) (\<lambda>(s, place).
              thenp (afterp (build_in h c op s place) (\<lambda>bad. if bad then cleanup_silent h c op place else retp ())) (\<lambda>_. retp place))
            else retp []) (\<lambda>place.
          if compose_args action = []
          then thenp (cleanup_silent h c op place) (\<lambda>_. failp (''unsupported compose action '' @ ho_quote h action))
          else afterp (runp h c op task_live dir (compose_command (compose_args action))) (cleanup_lines h c op place))))"

definition service_action :: "host \<Rightarrow> docker_config \<Rightarrow> docker_operation \<Rightarrow> unit prog" where
  "service_action h c op =
     (let action = op_field h op ''action''; service = op_field h op ''serviceName'' in
      thenp (needp (service \<noteq> []) ''serviceName is required for docker service action'') (\<lambda>_.
      thenp (prepare_compose h c op) (\<lambda>dir.
      thenp (needp (compose_service_args action service \<noteq> []) (''unsupported docker service action '' @ ho_quote h action)) (\<lambda>_.
      runp h c op task_live dir (compose_command (compose_service_args action service))))))"

definition host_provision :: "host \<Rightarrow> docker_config \<Rightarrow> docker_operation \<Rightarrow> unit prog" where
  "host_provision h c op =
     thenp (sayp [''validating docker runtime before marking host provision ready'']) (\<lambda>_.
     thenp (wrapp ''docker runtime unavailable''
       (runp h c op task_live [] [''docker'', ''info'', ''--format'', ''{{.ServerVersion}} {{.Architecture}}''])) (\<lambda>_.
     thenp (wrapp ''docker compose unavailable'' (runp h c op task_live [] [''docker'', ''compose'', ''version''])) (\<lambda>_.
     sayp [''docker runtime validated''])))"

definition log_records :: "host \<Rightarrow> string \<Rightarrow> gmap list" where
  "log_records h line =
     (if trim_space line = [] \<or> has_prefix (trim_space line) ''$ '' then []
      else concat (map (\<lambda>item. if trim_space item = [] then [] else service_records (ho_text h) (ho_records h (trim_space item)))
        (split_char (CHR 0x0A) (trim_space line))))"

definition collect_services :: "host \<Rightarrow> docker_config \<Rightarrow> docker_operation \<Rightarrow> gmap list prog" where
  "collect_services h c op =
     thenp (prepare_compose h c op) (\<lambda>dir.
     thenp (mutep (runp h c op parent_live dir (compose_command (compose_base @ [''ps'', ''--format'', ''json''])))) (\<lambda>(logs, u).
     retp (concat (map (log_records h) logs))))"

end
