(* ===== verification/DockerJobs.thy ===== *)
theory DockerJobs
  imports ComposeWork
begin

text \<open>
  A Docker operation from its claim to its last report: \<^verbatim>\<open>executeDockerOperation\<close>,
  \<^verbatim>\<open>acknowledgeDockerCancellation\<close> and the claim of \<^verbatim>\<open>internal/agent/runner/runner.go\<close>.

  The heartbeat goroutine may be in the middle of a beat when the operation ends; \<open>ho_late\<close> is that beat, and
  whether its report arrives after the last one.
\<close>

definition start_work :: "runner \<Rightarrow> work" where
  "start_work r = \<lparr>wk_runner = r, wk_acts = [], wk_ctx = CtxLive, wk_parent = False, wk_beating = False, wk_stop = None\<rparr>"

definition send_docker ::
  "host \<Rightarrow> docker_config \<Rightarrow> docker_operation \<Rightarrow> string \<Rightarrow> (work \<Rightarrow> bool) \<Rightarrow> gmap \<Rightarrow> string list \<Rightarrow> work \<Rightarrow>
   (string \<times> string) option \<times> work" where
  "send_docker h c op status live extra logs w =
     (let (payload, w1) = runtime_payload h c (live w) extra w
      in docker_callback h c op status payload logs (ho_calls h (wk_acts w1)) w1)"

definition mark_docker :: "string \<Rightarrow> work \<Rightarrow> work" where
  "mark_docker status w = w\<lparr>wk_runner := mark_outcome scope_docker status (wk_runner w)\<rparr>"

definition stopped_line :: string where
  "stopped_line = ''runner commands stopped; applied runtime changes are retained''"

definition acknowledge_stop :: "host \<Rightarrow> docker_config \<Rightarrow> docker_operation \<Rightarrow> string \<Rightarrow> work \<Rightarrow> work" where
  "acknowledge_stop h c op status w =
     (if status \<noteq> ''canceling'' \<and> status \<noteq> ''canceled'' then w
      else snd (docker_callback h c op ''canceled'' [(''cancellationAcknowledged'', VBool True)] [stopped_line]
        (ho_calls h (wk_acts w)) w))"

definition refuse_operation :: "host \<Rightarrow> docker_config \<Rightarrow> docker_operation \<Rightarrow> string \<Rightarrow> string \<Rightarrow> work \<Rightarrow> work" where
  "refuse_operation h c op before err w =
     mark_docker ''denied'' (snd (send_docker h c op ''failed'' parent_live
       [(''error'', VStr err), (''workerId'', VStr (docker_worker c))] [before @ err] w))"

definition perform_operation :: "host \<Rightarrow> docker_config \<Rightarrow> docker_operation \<Rightarrow> unit prog" where
  "perform_operation h c op =
     (if op_kind op = ''host_provision'' then host_provision h c op
      else if op_kind op \<in> {''container_start'', ''project_deploy''} then compose_action h c op
      else if op_kind op = ''service_action'' then service_action h c op
      else if op_kind op = ''port_reserve''
      then sayp [''port mapping reserved in control plane; no local Docker command required'']
      else if op_kind op = ''host_sync'' then sayp [''host runtime heartbeat reported by docker runner'']
      else failp (''unsupported docker operation kind '' @ ho_quote h (op_kind op)))"

definition late_beat :: "host \<Rightarrow> docker_config \<Rightarrow> docker_operation \<Rightarrow> bool \<Rightarrow> bool \<Rightarrow> work \<Rightarrow> work" where
  "late_beat h c op alive after w =
     (case ho_late h of
        None \<Rightarrow> w
      | Some (last_one, calls, poll) \<Rightarrow> if alive \<and> last_one = after then beat_now h c op calls poll w else w)"

definition op_action :: "docker_operation \<Rightarrow> gvalue" where
  "op_action op = map_get (op_payload op) ''action''"

definition digest_entries :: "docker_operation \<Rightarrow> gmap" where
  "digest_entries op =
     (if op_action op = VStr ''validate'' then [(''validatedRenderedDigest'', map_get (op_payload op) ''renderedDigest'')] else [])
     @ (if op_action op = VStr ''delivery_deploy'' then [(''appliedRenderedDigest'', map_get (op_payload op) ''renderedDigest'')] else [])"

definition service_entries :: "host \<Rightarrow> docker_config \<Rightarrow> docker_operation \<Rightarrow> work \<Rightarrow> gmap \<times> work" where
  "service_entries h c op w =
     (if op_project op \<noteq> [] \<and> op_action op \<noteq> VStr ''validate'' then
        (case collect_services h c op w of
           (logs, Inr services, w1) \<Rightarrow> (if services = [] then [] else [(''services'', VMaps services)], w1)
         | (logs, Inl e, w1) \<Rightarrow> ([], w1))
      else ([], w))"

definition finish_operation ::
  "host \<Rightarrow> docker_config \<Rightarrow> docker_operation \<Rightarrow> string list \<Rightarrow> string + unit \<Rightarrow> work \<Rightarrow> work" where
  "finish_operation h c op logs result w =
     (case result of
        Inl err \<Rightarrow>
          (let status = (if wk_ctx w = CtxDeadline then ''callback_timeout'' else ''failed'') in
           mark_docker status (snd (send_docker h c op status parent_live
             [(''error'', VStr err), (''workerId'', VStr (docker_worker c))]
             (logs @ [''docker operation failed: '' @ err]) w)))
      | Inr _ \<Rightarrow>
          (let (payload, w1) = runtime_payload h c (parent_live w) [(''completedAt'', VStr (ho_stamp h (wk_acts w)))] w;
               (services, w2) = service_entries h c op w1
           in mark_docker ''completed'' (snd (docker_callback h c op ''completed''
                (put_entries payload (digest_entries op @ services)) logs (ho_calls h (wk_acts w2)) w2))))"

definition stop_status :: "work \<Rightarrow> string" where
  "stop_status w = (case wk_stop w of None \<Rightarrow> [] | Some s \<Rightarrow> trim_space s)"

definition run_operation :: "host \<Rightarrow> docker_config \<Rightarrow> docker_operation \<Rightarrow> string list \<Rightarrow> work \<Rightarrow> work" where
  "run_operation h c op logs w =
     (let (lines, result, w1) = perform_operation h c op (happen h c op (w\<lparr>wk_beating := True\<rparr>));
          alive = wk_beating w1;
          remote = stop_status w1;
          w2 = late_beat h c op alive False (w1\<lparr>wk_beating := False\<rparr>)
      in late_beat h c op alive True
        (if remote \<noteq> [] then mark_docker remote (acknowledge_stop h c op remote w2)
         else finish_operation h c op (logs @ lines) result w2))"

definition started_line :: "docker_operation \<Rightarrow> string" where
  "started_line op = ''docker operation '' @ op_id op @ '' started: '' @ op_kind op"

definition ask_start :: "host \<Rightarrow> docker_config \<Rightarrow> docker_operation \<Rightarrow> work \<Rightarrow> (string \<times> string) option \<times> work" where
  "ask_start h c op w =
     (let (answer, w1) = send_docker h c op ''running'' task_live
        [(''heartbeatAt'', VStr (ho_stamp h (wk_acts w)))] [started_line op] w
      in (answer, happen h c op w1))"

definition execute_docker_operation :: "host \<Rightarrow> docker_config \<Rightarrow> docker_operation \<Rightarrow> runner \<Rightarrow> work" where
  "execute_docker_operation h c op r =
     (let w = start_work (mark_started scope_docker r) in
      if \<not> docker_kind_allowed (dc_kinds c) (op_kind op) then
        refuse_operation h c op ''docker operation denied: ''
          (''docker operation kind '' @ ho_quote h (op_kind op) @ '' is not allowlisted'') w
      else case validate_operation (ho_quote h) op of
        Some err \<Rightarrow> refuse_operation h c op ''docker operation payload rejected: '' err w
      | None \<Rightarrow>
          (case ask_start h c op w of
             (None, w1) \<Rightarrow> mark_docker ''denied'' w1
           | (Some (i, s), w1) \<Rightarrow>
               if i \<noteq> op_id op \<or> s \<noteq> ''running'' \<and> \<not> should_stop_docker s then mark_docker ''denied'' w1
               else if should_stop_docker s then mark_docker (trim_space s) (acknowledge_stop h c op s w1)
               else run_operation h c op [started_line op] w1))"

subsection \<open>Claims\<close>

text \<open>What a worker asks for, and what it takes from the answer: an error, or an operation that may be blank. Without
  operation kinds nothing is asked.\<close>

record docker_claim =
  kl_worker :: string
  kl_agent :: string
  kl_hosts :: "string list"
  kl_kinds :: "string list"
  kl_token :: bool

definition docker_claim_request :: "docker_config \<Rightarrow> string list \<Rightarrow> docker_claim option" where
  "docker_claim_request c hosts =
     (if normalize_kinds (dc_kinds c) = [] then None
      else Some \<lparr>kl_worker = docker_worker c, kl_agent = agent_id (dc_runner c), kl_hosts = hosts,
        kl_kinds = normalize_kinds (dc_kinds c), kl_token = True\<rparr>)"

definition claim_docker ::
  "docker_config \<Rightarrow> string list \<Rightarrow> (docker_claim \<Rightarrow> docker_operation option) \<Rightarrow> runner \<Rightarrow> docker_operation option \<times> runner" where
  "claim_docker c hosts ask r =
     (case docker_claim_request c hosts of
        None \<Rightarrow> (None, mark_claim scope_docker False r)
      | Some q \<Rightarrow>
          (case ask q of
             None \<Rightarrow> (None, mark_claim scope_docker False r)
           | Some op \<Rightarrow> if trim_space (op_id op) = [] then (None, mark_claim scope_docker False r)
                       else (Some op, mark_claim scope_docker True r)))"

end
