(* ===== verification/ComposeSafety.thy ===== *)
theory ComposeSafety
  imports DockerJobs EventLog
begin

text \<open>
  What an operation on a Compose project may do to the host, and what it reports.

  \<open>does ok P m Q\<close>: from acts with \<open>P\<close> the program \<open>m\<close> adds only acts that the policy \<open>ok\<close> allows after the acts so
  far, leaves the settled metrics and the tasks of the runner alone, and a result satisfies \<open>Q\<close>. The locale
  \<open>host_policy\<close> asks a policy to allow what heartbeats do, \<open>preflight_policy\<close> adds the work in a temporary
  directory, \<open>project_policy\<close> the work in a project's directory; each program is proved once for all policies.
\<close>

named_theorems work_rule \<open>rules of the logic of host work\<close>

subsection \<open>A logic of host work\<close>

definition settled_docker :: "runner \<Rightarrow> metric_set" where
  "settled_docker r = (rm_docker (rn_metrics r))
     \<lparr>ms_heartbeats := 0, ms_attempts := 0, ms_failures := 0, ms_finals := 0,
      ms_last_heartbeat := [], ms_last_callback := []\<rparr>"

definition steady :: "runner \<Rightarrow> runner \<Rightarrow> bool" where
  "steady r s \<longleftrightarrow> settled_docker s = settled_docker r \<and> rn_active s = rn_active r \<and> rn_slots s = rn_slots r
     \<and> rn_capacity s = rn_capacity r \<and> rn_reports s = rn_reports r
     \<and> rm_execution (rn_metrics s) = rm_execution (rn_metrics r) \<and> rm_agent (rn_metrics s) = rm_agent (rn_metrics r)"

definition moves :: "(act list \<Rightarrow> act \<Rightarrow> bool) \<Rightarrow> work \<Rightarrow> work \<Rightarrow> bool" where
  "moves ok w v \<longleftrightarrow> grows ok (wk_acts w) (wk_acts v) \<and> steady (wk_runner w) (wk_runner v)
     \<and> (\<forall>s. wk_stop v = Some s \<longrightarrow> wk_stop w = Some s \<or> should_stop_docker s)"

definition does ::
  "(act list \<Rightarrow> act \<Rightarrow> bool) \<Rightarrow> (act list \<Rightarrow> bool) \<Rightarrow> 'a prog \<Rightarrow> ('a \<Rightarrow> act list \<Rightarrow> bool) \<Rightarrow> bool" where
  "does ok P m Q \<longleftrightarrow>
     (\<forall>w. P (wk_acts w) \<longrightarrow> moves ok w (snd (snd (m w)))
        \<and> (\<forall>x. fst (snd (m w)) = Inr x \<longrightarrow> Q x (wk_acts (snd (snd (m w))))))"

lemma steady_refl [simp]: "steady r r"
  by (simp add: steady_def)

lemma steady_trans: "steady r s \<Longrightarrow> steady s t \<Longrightarrow> steady r t"
  by (simp add: steady_def)

lemma moves_same: "wk_acts v = wk_acts w \<Longrightarrow> wk_runner v = wk_runner w \<Longrightarrow> wk_stop v = wk_stop w \<Longrightarrow> moves ok w v"
  by (simp add: moves_def)

lemma moves_refl [simp]: "moves ok w w"
  by (simp add: moves_same)

lemma moves_trans:
  assumes "moves ok w v" and "moves ok v u"
  shows "moves ok w u"
proof -
  have "grows ok (wk_acts w) (wk_acts u)" "steady (wk_runner w) (wk_runner u)"
    using assms unfolding moves_def by (metis grows_trans, metis steady_trans)
  then show ?thesis using assms by (auto simp: moves_def)
qed

lemma moves_lasting: "moves ok w v \<Longrightarrow> lasting P \<Longrightarrow> P (wk_acts w) \<Longrightarrow> P (wk_acts v)"
  unfolding moves_def using lasting_grows [of P ok "wk_acts w" "wk_acts v"] by simp

lemma moves_note: "ok (wk_acts w) a \<Longrightarrow> moves ok w (note_act a w)"
  by (simp add: moves_def note_act_def grows_one)

lemma does_retp [simp]: "does ok P (retp x) Q \<longleftrightarrow> (\<forall>w::work. P (wk_acts w) \<longrightarrow> Q x (wk_acts w))"
  by (simp add: does_def retp_def)

lemma does_given [work_rule]: "does ok P (retp x) (\<lambda>y acts. True)" "does ok P (failp e) Q'"
    "does ok P (sayp logs) (\<lambda>y acts. True)"
  by (simp_all add: does_def retp_def failp_def sayp_def)

lemma does_thenp [work_rule]:
  assumes P: "lasting P" and m: "does ok P m Q" and f: "\<And>x. does ok (\<lambda>acts. P acts \<and> Q x acts) (f x) R"
  shows "does ok P (thenp m f) R"
  unfolding does_def
proof (intro allI impI)
  fix w :: work assume w: "P (wk_acts w)"
  obtain logs r v where r: "m w = (logs, r, v)" by (metis surj_pair)
  from m w r have a: "moves ok w v" and q: "\<And>x. r = Inr x \<Longrightarrow> Q x (wk_acts v)" by (auto simp: does_def)
  have v: "P (wk_acts v)" using a P w by (rule moves_lasting)
  let ?t = "thenp m f w"
  show "moves ok w (snd (snd ?t)) \<and> (\<forall>x. fst (snd ?t) = Inr x \<longrightarrow> R x (wk_acts (snd (snd ?t))))"
  proof (cases r)
    case (Inl e)
    with r a show ?thesis by (simp add: thenp_def)
  next
    case (Inr x)
    obtain logs' r' u where u: "f x v = (logs', r', u)" by (metis surj_pair)
    with f [of x] v q [OF Inr] have "moves ok v u" "\<And>y. r' = Inr y \<Longrightarrow> R y (wk_acts u)" by (auto simp: does_def)
    with r u Inr moves_trans [OF a] show ?thesis by (simp add: thenp_def)
  qed
qed

lemma does_wrapp [work_rule]: "does ok P m Q \<Longrightarrow> does ok P (wrapp s m) Q"
  by (auto simp: does_def wrapp_def split: prod.splits sum.splits)

lemma does_needp [work_rule]: "does ok P (needp b e) (\<lambda>x acts. b)"
  by (simp add: does_def needp_def)

lemma does_settlep [work_rule]: "does ok P (settlep r) (\<lambda>x acts. r = Inr x)"
  by (simp add: does_def settlep_def)

lemma does_readp [work_rule]: "does ok P (readp f) (\<lambda>x acts. x \<in> range f)"
  by (simp add: does_def readp_def)

lemma does_fetch:
  assumes "\<And>x. Inr x \<in> range f \<Longrightarrow> does ok P (g x) R"
  shows "does ok P (thenp (readp f) (\<lambda>r. thenp (settlep r) g)) R"
  unfolding does_def
proof (intro allI impI)
  fix w :: work assume w: "P (wk_acts w)"
  let ?t = "thenp (readp f) (\<lambda>r. thenp (settlep r) g) w"
  show "moves ok w (snd (snd ?t)) \<and> (\<forall>x. fst (snd ?t) = Inr x \<longrightarrow> R x (wk_acts (snd (snd ?t))))"
  proof (cases "f (wk_acts w)")
    case (Inl e)
    then show ?thesis by (simp add: thenp_def readp_def settlep_def)
  next
    case (Inr x)
    then have "Inr x \<in> range f" by (metis rangeI)
    from assms [OF this] w Inr show ?thesis
      by (auto simp: does_def thenp_def readp_def settlep_def split: prod.splits sum.splits)
  qed
qed

lemma does_tryp [work_rule]: "does ok P m Q \<Longrightarrow> does ok P (tryp m) (\<lambda>r acts. \<forall>x. r = Inr x \<longrightarrow> Q x acts)"
  by (auto simp: does_def tryp_def split: prod.splits)

lemma does_mutep [work_rule]: "does ok P m Q \<Longrightarrow> does ok P (mutep m) (\<lambda>r acts. Q (snd r) acts)"
  by (auto simp: does_def mutep_def split: prod.splits sum.splits)

lemma does_maskp [work_rule]: "does ok P m Q \<Longrightarrow> does ok P (maskp m) Q"
  by (auto simp: does_def maskp_def split: prod.splits)

lemma does_afterp [work_rule]:
  assumes P: "lasting P" and Q: "\<And>x. lasting (Q x)" and m: "does ok P m Q" and g: "\<And>b. does ok P (g b) (\<lambda>x acts. True)"
  shows "does ok P (afterp m g) Q"
  unfolding does_def
proof (intro allI impI)
  fix w :: work assume w: "P (wk_acts w)"
  obtain logs r v where r: "m w = (logs, r, v)" by (metis surj_pair)
  from m w r have a: "moves ok w v" and q: "\<And>x. r = Inr x \<Longrightarrow> Q x (wk_acts v)" by (auto simp: does_def)
  obtain logs' r' u where u: "g (isl r) v = (logs', r', u)" by (metis surj_pair)
  with g [of "isl r"] moves_lasting [OF a P w] have b: "moves ok v u" by (auto simp: does_def)
  let ?t = "afterp m g w"
  show "moves ok w (snd (snd ?t)) \<and> (\<forall>x. fst (snd ?t) = Inr x \<longrightarrow> Q x (wk_acts (snd (snd ?t))))"
    using r u moves_trans [OF a b] q moves_lasting [OF b Q] by (cases r) (simp_all add: afterp_def)
qed

lemma does_weaken: "does ok P m Q \<Longrightarrow> (\<And>acts. P' acts \<Longrightarrow> P acts) \<Longrightarrow> (\<And>x acts. Q x acts \<Longrightarrow> Q' x acts) \<Longrightarrow> does ok P' m Q'"
  by (auto simp: does_def)

lemma does_from: "does ok (\<lambda>acts. True) m Q \<Longrightarrow> does ok P m Q"
  by (simp add: does_def)

lemma does_when: "(b \<Longrightarrow> does ok (\<lambda>acts. True) m Q) \<Longrightarrow> (\<And>acts. P acts \<Longrightarrow> b) \<Longrightarrow> does ok P m Q"
  unfolding does_def by blast

lemma does_if [work_rule]: "(b \<Longrightarrow> does ok P m Q) \<Longrightarrow> (\<not> b \<Longrightarrow> does ok P m' Q) \<Longrightarrow> does ok P (if b then m else m') Q"
  by simp

lemma does_pair [work_rule]: "(\<And>a b. x = (a, b) \<Longrightarrow> does ok P (f a b) Q) \<Longrightarrow> does ok P (case x of (a, b) \<Rightarrow> f a b) Q"
  by (cases x) simp

lemma does_let [work_rule]: "(\<And>y. y = x \<Longrightarrow> does ok P (f y) Q) \<Longrightarrow> does ok P (let y = x in f y) Q"
  by simp

lemma does_option [work_rule]:
  "(x = None \<Longrightarrow> does ok P m Q) \<Longrightarrow> (\<And>y. x = Some y \<Longrightarrow> does ok P (f y) Q) \<Longrightarrow>
   does ok P (case x of None \<Rightarrow> m | Some y \<Rightarrow> f y) Q"
  "(x = None \<Longrightarrow> does ok P m Q) \<Longrightarrow> (\<And>y. x = Some y \<Longrightarrow> does ok P (f y) Q) \<Longrightarrow>
   does ok P (case x of Some y \<Rightarrow> f y | None \<Rightarrow> m) Q"
  by (cases x; simp)+

lemma does_sum [work_rule]:
  "(\<And>e. x = Inl e \<Longrightarrow> does ok P (g e) Q) \<Longrightarrow> (\<And>y. x = Inr y \<Longrightarrow> does ok P (f y) Q) \<Longrightarrow>
   does ok P (case x of Inl e \<Rightarrow> g e | Inr y \<Rightarrow> f y) Q"
  by (cases x) simp_all

lemma does_file_error [work_rule]:
  "(\<And>s. x = NotThere s \<Longrightarrow> does ok P (f s) Q) \<Longrightarrow> (\<And>s. x = FileError s \<Longrightarrow> does ok P (g s) Q) \<Longrightarrow>
   does ok P (case x of NotThere s \<Rightarrow> f s | FileError s \<Rightarrow> g s) Q"
  by (cases x) simp_all

declare log_lasting [work_rule]

text \<open>The run of a command that succeeded.\<close>

definition succeeded :: "host \<Rightarrow> string \<Rightarrow> string list \<Rightarrow> act list \<Rightarrow> bool" where
  "succeeded h dir argv acts \<longleftrightarrow>
     (\<exists>pre post. acts = pre @ Ran dir argv # post \<and> snd (snd (ho_run h pre dir argv)) = None)"

lemma lasting_succeeded [log_lasting, work_rule]: "lasting (succeeded h dir argv)"
  unfolding lasting_def succeeded_def by fastforce

lemma lasting_ex [log_lasting, work_rule]: "(\<And>x. lasting (P x)) \<Longrightarrow> lasting (\<lambda>acts. \<exists>x. P x acts)"
  unfolding lasting_def by blast

lemma lasting_disj [log_lasting, work_rule]: "lasting P \<Longrightarrow> lasting Q \<Longrightarrow> lasting (\<lambda>acts. P acts \<or> Q acts)"
  unfolding lasting_def by blast

subsection \<open>Heartbeats\<close>

text \<open>What every report carries: the operation and its token, a redacted payload and redacted log lines.\<close>

definition sent_report :: "docker_config \<Rightarrow> docker_operation \<Rightarrow> docker_report \<Rightarrow> bool" where
  "sent_report c op rep \<longleftrightarrow> kr_operation rep = op_id op \<and> kr_token rep = op_token op
     \<and> kr_worker rep = docker_worker c \<and> (kr_acknowledged rep \<longrightarrow> kr_status rep = ''canceled'')
     \<and> (\<exists>payload. kr_payload rep = redact_value (VMap payload)) \<and> (\<exists>logs. kr_logs rep = redact_logs logs)"

lemma steady_retry: "steady r (snd (retry_loop scope_docker status stamp calls n a r))"
proof (induction scope_docker status stamp calls n a r rule: retry_loop.induct)
  case (2 status stamp calls left attempt r)
  have m: "steady s (mark_attempt scope_docker s)" "steady s (mark_failure scope_docker s)"
    "steady s (mark_success scope_docker st sp s)" for s st sp
    by (simp_all add: steady_def settled_docker_def metric_marks with_scope_def count_success_def Let_def)
  show ?case
  proof (cases "calls attempt")
    case (CallAnswered i s)
    then show ?thesis using steady_trans [OF m(1) m(3)] by (simp add: Let_def)
  next
    case (CallFailed ended waiting)
    have f: "steady r (mark_failure scope_docker (mark_attempt scope_docker r))" by (rule steady_trans [OF m(1) m(2)])
    have "steady (mark_failure scope_docker (mark_attempt scope_docker r))
        (snd (retry_loop scope_docker status stamp calls left (Suc attempt) (mark_failure scope_docker (mark_attempt scope_docker r))))"
      if "\<not> (ended \<or> left = 0)" "\<not> waiting" using 2 [OF refl CallFailed refl that] .
    then show ?thesis using steady_trans [OF f] f by (simp add: CallFailed Let_def)
  qed
qed simp

lemma callback_moves:
  fixes w :: work
  assumes "\<And>rep. sent_report c op rep \<Longrightarrow> kr_status rep = status \<Longrightarrow> ok (wk_acts w) (Told rep)"
  shows "moves ok w (snd (docker_callback h c op status payload logs calls w))"
proof -
  obtain ans r where retry: "with_callback_retry (dc_runner c) scope_docker status (ho_stamp h (wk_acts w)) calls (wk_runner w) = (ans, r)"
    by fastforce
  then have s: "steady (wk_runner w) r" unfolding with_callback_retry_def by (metis steady_retry snd_conv)
  let ?rep = "\<lparr>kr_operation = op_id op,
            kr_acknowledged = (status = ''canceled'' \<and> bool_value (map_get payload ''cancellationAcknowledged'') False),
            kr_worker = docker_worker c, kr_token = op_token op, kr_status = status,
            kr_payload = redact_value (VMap payload), kr_logs = redact_logs logs,
            kr_delivered = (ans \<noteq> None)\<rparr>"
  have "ok (wk_acts w) (Told ?rep)" by (rule assms) (auto simp: sent_report_def simp del: redact_value.simps)
  then have "moves ok w (note_act (Told ?rep) (w\<lparr>wk_runner := r\<rparr>))"
    using s by (simp add: moves_def note_act_def grows_one)
  then show ?thesis by (auto simp: docker_callback_def retry Let_def split: option.splits)
qed

locale host_policy =
  fixes ok :: "act list \<Rightarrow> act \<Rightarrow> bool" and h :: host and c :: docker_config and op :: docker_operation
  assumes probe: "argv \<in> set probes \<Longrightarrow> ok acts (Ran [] argv)"
    and beat: "sent_report c op rep \<Longrightarrow> kr_status rep = ''running'' \<Longrightarrow> ok acts (Told rep)"
begin

lemma version_moves: "argv \<in> set probes \<Longrightarrow> moves ok w (snd (command_version h live argv w))"
  using moves_note [of ok w "Ran [] argv"] probe by (simp add: command_version_def split: prod.splits)

lemma payload_moves: "moves ok w (snd (runtime_payload h c live extra w))"
proof -
  have p: "probes ! 0 \<in> set probes" "probes ! 1 \<in> set probes" "probes ! 2 \<in> set probes" by (simp_all add: probes_def)
  note m = version_moves [OF p(1)] version_moves [OF p(2)] version_moves [OF p(3)]
  obtain a w1 where 1: "command_version h live (probes ! 0) w = (a, w1)" by fastforce
  obtain b w2 where 2: "command_version h live (probes ! 1) w1 = (b, w2)" by fastforce
  obtain d w3 where 3: "command_version h live (probes ! 2) w2 = (d, w3)" by fastforce
  have "moves ok w w1" "moves ok w1 w2" "moves ok w2 w3"
    using m(1) [of w live] m(2) [of w1 live] m(3) [of w2 live] 1 2 3 by simp_all
  then have "moves ok w w3" using moves_trans by blast
  then show ?thesis by (simp add: runtime_payload_def 1 2 3 Let_def del: One_nat_def)
qed

lemma end_moves: "moves ok w (end_work s w)" "should_stop_docker status \<Longrightarrow> moves ok w (stop_work status w)"
  by (auto simp: end_work_def stop_work_def moves_def should_stop_docker_def should_stop_local_def)

lemma beat_moves: "moves ok w (beat_now h c op calls poll w)"
proof -
  let ?e = "[(''heartbeatAt'', VStr (ho_stamp h (wk_acts w)))]"
  obtain p w1 where 1: "runtime_payload h c (wk_ctx w = CtxLive) ?e w = (p, w1)" by fastforce
  obtain ans w2 where 2: "docker_callback h c op ''running'' p [] calls w1 = (ans, w2)" by fastforce
  have "moves ok w w1" using payload_moves [of w "wk_ctx w = CtxLive" ?e] 1 by simp
  moreover have "moves ok w1 w2"
    using callback_moves [of c op "''running''" ok w1 h p "[]" calls] beat 2 by simp
  ultimately have m: "moves ok w w2" by (rule moves_trans)
  have stop: "moves ok w (stop_work (snd (the a)) w2)" if "stopping a" for a
    using that moves_trans [OF m end_moves(2)] by (auto simp: stopping_def split: option.splits)
  show ?thesis using m stop by (simp add: beat_now_def 1 2)
qed

lemma step_moves: "moves ok w (work_step h c op w e)"
proof (cases e)
  case ParentUp
  have "moves ok w (w\<lparr>wk_parent := True\<rparr>)" by (simp add: moves_same)
  then show ?thesis using moves_trans [OF _ end_moves(1)] by (simp add: ParentUp)
qed (simp_all add: end_moves beat_moves)

lemma happen_moves: "moves ok w (happen h c op w)"
proof -
  have "moves ok w (foldl (work_step h c op) w es)" for es
    by (induction es arbitrary: w) (auto intro: moves_trans [OF step_moves])
  then show ?thesis by (simp add: happen_def)
qed

lemma perform_moves: "ok (wk_acts w) a \<Longrightarrow> moves ok w (perform h c op a w)"
  unfolding perform_def using moves_trans [OF moves_note happen_moves] by blast

lemma late_moves: "moves ok w (late_beat h c op alive after w)"
  by (simp add: late_beat_def beat_moves split: option.split prod.split)

lemma does_runp:
  assumes "\<And>acts. P acts \<Longrightarrow> ok acts (Ran dir argv)"
  shows "does ok P (runp h c op live dir argv) (\<lambda>x. succeeded h dir argv)"
  unfolding does_def
proof (intro allI impI)
  fix w :: work assume w: "P (wk_acts w)"
  let ?v = "perform h c op (Ran dir argv) w"
  have m: "moves ok w ?v" using assms w by (intro perform_moves)
  obtain out err failed where r: "ho_run h (wk_acts w) dir argv = (out, err, failed)" by (metis surj_pair)
  have "\<exists>post. wk_acts ?v = wk_acts w @ Ran dir argv # post"
    using happen_moves [of "note_act (Ran dir argv) w"] grows_longer
    by (fastforce simp: moves_def perform_def note_act_def)
  then have "succeeded h dir argv (wk_acts ?v)" if "failed = None"
    unfolding succeeded_def using r that by auto
  with m r show "moves ok w (snd (snd (runp h c op live dir argv w)))
      \<and> (\<forall>x. fst (snd (runp h c op live dir argv w)) = Inr x \<longrightarrow>
          succeeded h dir argv (wk_acts (snd (snd (runp h c op live dir argv w)))))"
    by (simp add: runp_def split: option.split)
qed

lemma does_filep: "(\<And>acts. P acts \<Longrightarrow> ok acts a) \<Longrightarrow> does ok P (filep h c op a) (\<lambda>x acts. True)"
  by (simp add: does_def filep_def perform_moves)

lemma does_dropp: "(\<And>acts. P acts \<Longrightarrow> ok acts (Removed p)) \<Longrightarrow> does ok P (dropp h c op p) (\<lambda>x acts. True)"
  by (simp add: does_def dropp_def perform_moves)

end

subsection \<open>Preflight\<close>

definition info_command :: "string list" where
  "info_command = [''docker'', ''info'', ''--format'', ''{{.ServerVersion}}'']"

definition preflight_commands :: "string list set" where
  "preflight_commands = {info_command, compose_command (compose_args ''validate'')}"

definition temporary :: "host \<Rightarrow> string \<Rightarrow> bool" where
  "temporary h dir \<longleftrightarrow> Inr dir \<in> range (ho_temp h)"

locale preflight_policy = host_policy +
  assumes temp_dir: "temporary h dir \<Longrightarrow> ok acts (MadeTemp dir)" "temporary h dir \<Longrightarrow> ok acts (RemovedAll dir)"
    and temp_file: "temporary h dir \<Longrightarrow> x \<in> {''compose.yaml'', ''.env''} \<Longrightarrow> ok acts (Wrote (join_path [dir, x]) content)"
    and temp_run: "temporary h dir \<Longrightarrow> argv \<in> preflight_commands \<Longrightarrow> ok acts (Ran dir argv)"
begin

lemma does_actp: "(\<And>acts. P acts \<Longrightarrow> ok acts a) \<Longrightarrow> does ok P (actp h c op a) (\<lambda>x acts. True)"
  by (simp add: does_def actp_def perform_moves)

lemma does_validate_in:
  assumes "temporary h dir"
  shows "does ok (\<lambda>acts. True) (validate_in h c op p dir) (\<lambda>x acts. True)"
  unfolding validate_in_def using assms
  by (intro does_weaken [OF does_thenp [OF _ does_filep does_thenp [OF _ does_filep does_thenp [OF _
        does_wrapp [OF does_runp] does_runp]]], of "\<lambda>acts. True"] log_lasting lasting_succeeded)
    (auto simp: temp_file temp_run preflight_commands_def info_command_def)

lemma does_validate: "does ok (\<lambda>acts. True) (validate_delivery h c op) (\<lambda>x acts. True)"
proof -
  have d: "does ok (\<lambda>acts. True \<and> decode_compose (op_payload op) = Inr p) (thenp (actp h c op (MadeTemp dir)) (\<lambda>_.
      afterp (validate_in h c op p dir) (\<lambda>_. actp h c op (RemovedAll dir)))) (\<lambda>x acts. True)"
    if "Inr dir \<in> range (ho_temp h)" for p dir
  proof -
    from that have t: "temporary h dir" by (simp add: temporary_def)
    show ?thesis by (rule work_rule does_actp does_from [OF does_validate_in] temp_dir t)+
  qed
  show ?thesis unfolding validate_delivery_def
    by (rule does_thenp [OF _ does_settlep does_fetch [OF d]]) simp_all
qed

end

subsection \<open>Projects\<close>

definition down_command :: "string list" where
  "down_command = compose_command (compose_base @ [''down'', ''--remove-orphans''])"

definition asked_down :: "host \<Rightarrow> docker_operation \<Rightarrow> bool" where
  "asked_down h op \<longleftrightarrow> trim_space (first_non_empty [op_field h op ''action'', ''deploy'']) \<in> {''down'', ''destroy''}"

text \<open>The image that a redeployment starts was pulled or built.\<close>

definition renewed :: "host \<Rightarrow> string \<Rightarrow> act list \<Rightarrow> bool" where
  "renewed h dir acts \<longleftrightarrow> succeeded h dir (compose_command (compose_base @ [''pull''])) acts
     \<or> (\<exists>repo s dockerfile context_dir. succeeded h repo (build_args s dockerfile context_dir) acts)"

lemma lasting_renewed [log_lasting, work_rule]: "lasting (renewed h dir)"
  unfolding renewed_def by (intro log_lasting)

lemma compose_args_down:
  assumes "compose_command (compose_args a) = down_command"
  shows "trim_space a = ''down'' \<or> trim_space a = ''destroy''"
  using assms by (auto simp: compose_args_def compose_command_def down_command_def compose_base_def Let_def split: if_splits)

lemma service_args_no_down: "compose_command (compose_service_args a s) \<noteq> down_command"
  by (simp add: compose_service_args_def compose_command_def down_command_def compose_base_def Let_def)

lemma git_no_down: "''git'' # args \<noteq> down_command" "build_args s d x \<noteq> down_command"
  by (simp_all add: down_command_def compose_command_def build_args_def compose_base_def)

definition provision_commands :: "string list set" where
  "provision_commands = {[''docker'', ''info'', ''--format'', ''{{.ServerVersion}} {{.Architecture}}''],
     [''docker'', ''compose'', ''version'']}"

locale project_policy = preflight_policy +
  fixes inside :: "string \<Rightarrow> bool"
  assumes base: "abs_path h (compose_root c) = Inr p \<Longrightarrow> inside p"
    and deeper: "inside p \<Longrightarrow> resolve_workspace_path p relative = Some q \<Longrightarrow> inside q"
    and part: "inside p \<Longrightarrow> x \<in> {''compose.yaml'', ''.env'', ''.soha-build'', ''repository'', ''resolved-commit''} \<Longrightarrow> inside (join_path [p, x])"
    and put: "inside p \<Longrightarrow> ok acts (MadeDir p)" "inside p \<Longrightarrow> ok acts (Wrote p content)"
      "inside p \<Longrightarrow> ok acts (Removed p)" "inside p \<Longrightarrow> ok acts (RemovedAll p)"
    and run: "inside dir \<Longrightarrow> argv \<noteq> down_command \<Longrightarrow> ok acts (Ran dir argv)"
    and replace: "inside dir \<Longrightarrow> asked_down h op \<or> renewed h dir acts \<Longrightarrow> ok acts (Ran dir down_command)"
    and provision: "argv \<in> provision_commands \<Longrightarrow> ok acts (Ran [] argv)"
begin

lemma does_resolvep: "(\<And>acts. P acts \<Longrightarrow> inside p) \<Longrightarrow> does ok P (resolvep p relative) (\<lambda>q acts. inside q)"
  unfolding does_def resolvep_def retp_def failp_def using deeper by (auto split: option.split)

lemma does_write_env: "(\<And>acts. P acts \<Longrightarrow> inside dir) \<Longrightarrow> does ok P (write_env h c op dir) (\<lambda>x acts. True)"
  unfolding write_env_def by (rule work_rule does_filep does_dropp | simp add: put part)+

lemma does_prepare: "does ok P (prepare_compose h c op) (\<lambda>dir acts. inside dir)"
  unfolding prepare_compose_def
  by (rule does_from) (rule work_rule does_resolvep does_filep does_write_env | simp add: put part base)+

lemma does_git_root: "(\<And>acts. P acts \<Longrightarrow> inside dir) \<Longrightarrow> does ok P (git_root h op dir) (\<lambda>r acts. inside (snd r))"
  unfolding git_root_def
  by (rule does_when [where b = "inside dir"]) (rule work_rule does_resolvep | simp add: part)+

lemma does_run_true:
  assumes "\<And>acts. P acts \<Longrightarrow> ok acts (Ran dir argv)"
  shows "does ok P (runp h c op live dir argv) (\<lambda>x acts. True)"
  by (rule does_weaken [OF does_runp [of P, OF assms]]) simp_all

lemma does_git_init: "inside repo \<Longrightarrow> does ok P (git_init h c op repo) (\<lambda>x acts. True)"
  unfolding git_init_def
  by (rule does_from) (rule work_rule does_filep does_run_true | simp add: put run git_no_down)+

lemma does_git_origin: "inside repo \<Longrightarrow> does ok P (git_origin h c op s repo) (\<lambda>x acts. True)"
  unfolding git_origin_def
  by (rule does_from) (rule work_rule does_run_true | simp add: run git_no_down)+

lemma does_git_checkout: "inside repo \<Longrightarrow> does ok P (git_checkout h c op s place repo) (\<lambda>x acts. True)"
  unfolding git_checkout_def
  by (rule does_from) (rule work_rule does_run_true | simp add: run git_no_down)+

lemma does_git_commit: "inside place \<Longrightarrow> inside repo \<Longrightarrow> does ok P (git_commit h c op place repo) (\<lambda>x acts. True)"
  unfolding git_commit_def
  by (rule does_from) (rule work_rule does_run_true does_filep | simp add: run put part git_no_down)+

lemma does_build_path: "does ok P (build_path h repo relative want) (\<lambda>x acts. True)"
proof -
  have r: "does ok P' (resolvep p rel) (\<lambda>q acts. True)" for P' p rel
    by (auto simp: does_def resolvep_def retp_def failp_def split: option.split)
  show ?thesis unfolding build_path_def by (rule does_from) (rule work_rule r | simp)+
qed

lemma does_build_in:
  "inside place \<Longrightarrow> does ok P (build_in h c op s place)
     (\<lambda>x acts. \<exists>repo s dockerfile context_dir. succeeded h repo (build_args s dockerfile context_dir) acts)"
proof -
  assume p: "inside place"
  let ?repo = "join_path [place, ''repository'']"
  have q: "inside ?repo" using part p by simp
  have e: "does ok P' (thenp (wrapp t (runp h c op task_live ?repo (build_args s d x))) (\<lambda>_. sayp ls))
     (\<lambda>x acts. \<exists>repo s dockerfile context_dir. succeeded h repo (build_args s dockerfile context_dir) acts)" for P' t d x ls
  proof (rule does_from, rule does_thenp)
    show "does ok (\<lambda>acts. True) (wrapp t (runp h c op task_live ?repo (build_args s d x)))
        (\<lambda>u. succeeded h ?repo (build_args s d x))"
      by (rule does_wrapp, rule does_runp) (simp add: run q git_no_down)
  qed (auto simp: does_def sayp_def)
  show ?thesis unfolding build_in_def Let_def
    by (rule does_from) (rule work_rule e does_filep does_git_init does_git_origin does_git_checkout does_git_commit
      does_build_path put p q)+
qed

lemma does_cleanup: "place = [] \<or> inside place \<Longrightarrow> does ok P (cleanup_build h c op place preserve) (\<lambda>x acts. True)"
proof (rule does_from, cases "place = []")
  case True
  have "trim_space [] = []" by code_simp
  with True show "does ok (\<lambda>acts. True) (cleanup_build h c op place preserve) (\<lambda>x acts. True)"
    by (simp add: cleanup_build_def)
next
  case False
  moreover assume "place = [] \<or> inside place"
  ultimately have "inside place" by simp
  then show "does ok (\<lambda>acts. True) (cleanup_build h c op place preserve) (\<lambda>x acts. True)"
    unfolding cleanup_build_def by - (rule work_rule does_filep | simp add: put part)+
qed

lemma does_cleanup_silent: "place = [] \<or> inside place \<Longrightarrow> does ok P (cleanup_silent h c op place) (\<lambda>x acts. True)"
  unfolding cleanup_silent_def by (rule does_from) (rule work_rule does_cleanup | assumption)+

lemma does_cleanup_lines: "place = [] \<or> inside place \<Longrightarrow> does ok P (cleanup_lines h c op place preserve) (\<lambda>x acts. True)"
  unfolding cleanup_lines_def by (rule does_from) (rule work_rule does_cleanup | assumption)+

lemma does_redeploy:
  assumes dir: "inside dir"
  shows "does ok P (redeploy_single h c op dir) (\<lambda>x acts. True)"
proof -
  let ?built = "\<lambda>acts. \<exists>repo s d x. succeeded h repo (build_args s d x) acts"
  let ?first = "if source_kind h op = ''git_dockerfile''
       then thenp (git_root h op dir) (\<lambda>(s, place).
         thenp (afterp (build_in h c op s place) (\<lambda>bad. if bad then cleanup_lines h c op place True else retp ())) (\<lambda>_. retp place))
       else thenp (runp h c op task_live dir (compose_command (compose_base @ [''pull'']))) (\<lambda>_. retp [])"
  have git: "does ok (\<lambda>acts. True) (thenp (afterp (build_in h c op s place)
      (\<lambda>bad. if bad then cleanup_lines h c op place True else retp ())) (\<lambda>_. retp place))
      (\<lambda>place acts. (place = [] \<or> inside place) \<and> renewed h dir acts)" if p: "inside place" for s place
  proof -
    have b: "does ok (\<lambda>acts. True) (afterp (build_in h c op s place)
        (\<lambda>bad. if bad then cleanup_lines h c op place True else retp ())) (\<lambda>u. ?built)"
      by (rule does_afterp does_build_in work_rule does_cleanup_lines p disjI2)+
    show ?thesis by (rule does_thenp [OF _ b]) (use p in \<open>auto simp: renewed_def\<close>)
  qed
  have pull: "does ok (\<lambda>acts. True) (thenp (runp h c op task_live dir (compose_command (compose_base @ [''pull'']))) (\<lambda>_. retp []))
      (\<lambda>place acts. (place = [] \<or> inside place) \<and> renewed h dir acts)"
  proof (rule does_thenp [OF _ does_runp])
    show "ok acts (Ran dir (compose_command (compose_base @ [''pull''])))" for acts
      by (rule run [OF dir]) (simp add: down_command_def compose_command_def)
  qed (auto simp: renewed_def)
  have first: "does ok (\<lambda>acts. True) ?first (\<lambda>place acts. (place = [] \<or> inside place) \<and> renewed h dir acts)"
    by (rule does_if does_thenp [OF _ does_git_root] does_pair log_lasting pull dir does_when [OF git] | simp)+
  have down: "does ok (\<lambda>acts. True \<and> (place = [] \<or> inside place) \<and> renewed h dir acts)
      (runp h c op task_live dir (compose_command (compose_base @ [''down'', ''--remove-orphans'']))) (\<lambda>x acts. True)" for place
    using replace [OF dir] unfolding down_command_def by (intro does_run_true) blast
  have up: "ok acts (Ran dir (compose_command (compose_base @ [''up'', ''-d'', ''--force-recreate''])))" for acts
    by (rule run [OF dir]) (simp add: down_command_def compose_command_def)
  have rest: "does ok (\<lambda>acts. True \<and> (place = [] \<or> inside place) \<and> renewed h dir acts)
      (thenp (afterp (runp h c op task_live dir (compose_command (compose_base @ [''down'', ''--remove-orphans''])))
        (\<lambda>bad. if bad then cleanup_lines h c op place True else retp ())) (\<lambda>_.
      afterp (runp h c op task_live dir (compose_command (compose_base @ [''up'', ''-d'', ''--force-recreate''])))
        (cleanup_lines h c op place))) (\<lambda>x acts. True)" for place
  proof (cases "place = [] \<or> inside place")
    case True
    show ?thesis
      by (rule does_thenp does_afterp down does_if does_given does_cleanup_lines does_run_true up True log_lasting)+
  qed (simp add: does_def)
  show ?thesis unfolding redeploy_single_def
    by (rule does_from, rule does_thenp [OF _ first rest]) simp
qed

lemma does_source:
  assumes dir: "inside dir"
  shows "does ok P (if source_kind h op = ''git_dockerfile''
      then thenp (git_root h op dir) (\<lambda>(s, place).
        thenp (afterp (build_in h c op s place) (\<lambda>bad. if bad then cleanup_silent h c op place else retp ())) (\<lambda>_. retp place))
      else retp []) (\<lambda>place acts. place = [] \<or> inside place)"
proof -
  have b: "does ok (\<lambda>acts. True) (thenp (afterp (build_in h c op s place)
      (\<lambda>bad. if bad then cleanup_silent h c op place else retp ())) (\<lambda>_. retp place)) (\<lambda>place acts. place = [] \<or> inside place)"
    if p: "inside place" for s place
  proof (rule does_thenp)
    show "does ok (\<lambda>acts. True) (afterp (build_in h c op s place)
        (\<lambda>bad. if bad then cleanup_silent h c op place else retp ()))
        (\<lambda>x acts. \<exists>repo s d x. succeeded h repo (build_args s d x) acts)"
      by (rule does_afterp does_build_in work_rule does_cleanup_silent p disjI2)+
  qed (auto simp: p)
  show ?thesis
    by (rule does_from) (rule does_if does_thenp [OF _ does_git_root] does_pair log_lasting dir does_when [OF b] | simp)+
qed

lemma does_compose_action: "does ok P (compose_action h c op) (\<lambda>x acts. True)"
proof -
  let ?action = "first_non_empty [op_field h op ''action'', ''deploy'']"
  have final: "ok acts (Ran dir (compose_command (compose_args ?action)))" if "inside dir" for dir acts
  proof (cases "compose_command (compose_args ?action) = down_command")
    case True
    with compose_args_down [OF this] show ?thesis using replace [OF that] by (simp add: asked_down_def)
  qed (rule run [OF that])
  have act: "does ok (\<lambda>acts. True \<and> inside dir)
      (if ?action = ''redeploy'' \<and> source_kind h op \<in> {''single_container'', ''git_dockerfile''}
        then redeploy_single h c op dir
        else
          thenp (if source_kind h op = ''git_dockerfile''
            then thenp (git_root h op dir) (\<lambda>(s, place).
              thenp (afterp (build_in h c op s place) (\<lambda>bad. if bad then cleanup_silent h c op place else retp ())) (\<lambda>_. retp place))
            else retp []) (\<lambda>place.
          if compose_args ?action = []
          then thenp (cleanup_silent h c op place) (\<lambda>_. failp e)
          else afterp (runp h c op task_live dir (compose_command (compose_args ?action))) (cleanup_lines h c op place)))
      (\<lambda>x acts. True)" for dir e
  proof (rule does_when [where b = "inside dir"])
    assume dir: "inside dir"
    have tail: "does ok (\<lambda>acts. True \<and> (place = [] \<or> inside place))
        (if compose_args ?action = [] then thenp (cleanup_silent h c op place) (\<lambda>_. failp e)
          else afterp (runp h c op task_live dir (compose_command (compose_args ?action))) (cleanup_lines h c op place))
        (\<lambda>x acts. True)" for place
    proof (rule does_when [where b = "place = [] \<or> inside place"])
      assume "place = [] \<or> inside place"
      then show "does ok (\<lambda>acts. True)
          (if compose_args ?action = [] then thenp (cleanup_silent h c op place) (\<lambda>_. failp e)
          else afterp (runp h c op task_live dir (compose_command (compose_args ?action))) (cleanup_lines h c op place))
          (\<lambda>x acts. True)"
        by - (rule work_rule does_cleanup_silent does_cleanup_lines does_run_true final dir | assumption)+
    qed simp
    show "does ok (\<lambda>acts. True) (if ?action = ''redeploy'' \<and> source_kind h op \<in> {''single_container'', ''git_dockerfile''}
        then redeploy_single h c op dir
        else
          thenp (if source_kind h op = ''git_dockerfile''
            then thenp (git_root h op dir) (\<lambda>(s, place).
              thenp (afterp (build_in h c op s place) (\<lambda>bad. if bad then cleanup_silent h c op place else retp ())) (\<lambda>_. retp place))
            else retp []) (\<lambda>place.
          if compose_args ?action = []
          then thenp (cleanup_silent h c op place) (\<lambda>_. failp e)
          else afterp (runp h c op task_live dir (compose_command (compose_args ?action))) (cleanup_lines h c op place)))
      (\<lambda>x acts. True)"
      by (rule does_if, rule does_redeploy [OF dir], rule does_thenp [OF _ does_source [OF dir] tail]) simp
  qed simp
  show ?thesis unfolding compose_action_def Let_def
    by (rule does_from) (rule does_if does_from [OF does_validate] does_thenp [OF _ does_prepare act] lasting_const)+
qed

lemma does_service_action: "does ok P (service_action h c op) (\<lambda>x acts. True)"
  unfolding service_action_def Let_def
  by (rule does_from) (rule work_rule does_prepare does_run_true | simp add: run service_args_no_down)+

lemma does_host_provision: "does ok P (host_provision h c op) (\<lambda>x acts. True)"
  unfolding host_provision_def
  by (rule does_from) (rule work_rule does_run_true provision | simp add: provision_commands_def)+

lemma does_collect: "does ok P (collect_services h c op) (\<lambda>x acts. True)"
  unfolding collect_services_def
  by (rule does_from) (rule work_rule does_prepare does_run_true | simp add: run down_command_def compose_command_def)+

lemma service_moves: "moves ok w (snd (service_entries h c op w))"
proof -
  obtain logs r v where r: "collect_services h c op w = (logs, r, v)" by (metis surj_pair)
  have "moves ok w (snd (snd (collect_services h c op w)))"
    using does_collect [of "\<lambda>acts. True"] unfolding does_def by blast
  then have "moves ok w v" by (simp add: r)
  then show ?thesis by (cases r) (simp_all add: service_entries_def r)
qed

lemma does_perform: "does ok P (perform_operation h c op) (\<lambda>x acts. True)"
  unfolding perform_operation_def
  by (rule does_from) (rule work_rule does_host_provision does_compose_action does_service_action)+

lemma perform_operation_moves: "moves ok w (snd (snd (perform_operation h c op w)))"
  using does_perform [of "\<lambda>acts. True"] unfolding does_def by blast

end

end
