(* ===== verification/DockerJobResults.thy ===== *)
theory DockerJobResults
  imports ComposeSafety
begin

text \<open>
  Operations on Compose projects as a whole: nothing happens on the host before the control plane confirms the
  start, everything that happens stays in the project's directory, a preflight stays in its temporary
  directory, a container is replaced only after its image was renewed, and how often and with which contents an operation
  is reported. The policies that express this are interpretations of the locales of \<open>ComposeSafety\<close>.
\<close>

subsection \<open>From the claim to the start\<close>

definition confirmed :: "host \<Rightarrow> docker_config \<Rightarrow> docker_operation \<Rightarrow> runner \<Rightarrow> bool" where
  "confirmed h c op r \<longleftrightarrow> docker_kind_allowed (dc_kinds c) (op_kind op) \<and> validate_operation (ho_quote h) op = None
     \<and> fst (ask_start h c op (start_work (mark_started scope_docker r))) = Some (op_id op, ''running'')"

definition after_ask :: "host \<Rightarrow> docker_config \<Rightarrow> docker_operation \<Rightarrow> runner \<Rightarrow> work" where
  "after_ask h c op r = snd (ask_start h c op (start_work (mark_started scope_docker r)))"

lemma running_goes_on: "\<not> should_stop_docker ''running''"
  by code_simp

lemma execute_confirmed:
  "confirmed h c op r \<Longrightarrow> execute_docker_operation h c op r = run_operation h c op [started_line op] (after_ask h c op r)"
  unfolding confirmed_def after_ask_def
  by (auto simp: execute_docker_operation_def Let_def running_goes_on split: prod.splits)

lemma execute_declined:
  assumes "\<not> confirmed h c op r"
  obtains (refused) before err where "execute_docker_operation h c op r
      = refuse_operation h c op before err (start_work (mark_started scope_docker r))"
      "\<not> (docker_kind_allowed (dc_kinds c) (op_kind op) \<and> validate_operation (ho_quote h) op = None)"
  | (denied) "execute_docker_operation h c op r = mark_docker ''denied'' (after_ask h c op r)"
  | (stopped) s where "should_stop_docker s" "execute_docker_operation h c op r
      = mark_docker (trim_space s) (acknowledge_stop h c op s (after_ask h c op r))"
      "fst (ask_start h c op (start_work (mark_started scope_docker r))) = Some (op_id op, s)"
proof (cases "docker_kind_allowed (dc_kinds c) (op_kind op) \<and> validate_operation (ho_quote h) op = None")
  case False
  then show ?thesis using that(1) by (cases "docker_kind_allowed (dc_kinds c) (op_kind op)")
      (auto simp: execute_docker_operation_def Let_def)
next
  case True
  obtain ans w where a: "ask_start h c op (start_work (mark_started scope_docker r)) = (ans, w)" by fastforce
  then have w: "after_ask h c op r = w" by (simp add: after_ask_def)
  have e: "execute_docker_operation h c op r = (case ans of None \<Rightarrow> mark_docker ''denied'' w
      | Some (i, s) \<Rightarrow> if i \<noteq> op_id op \<or> s \<noteq> ''running'' \<and> \<not> should_stop_docker s then mark_docker ''denied'' w
               else if should_stop_docker s then mark_docker (trim_space s) (acknowledge_stop h c op s w)
               else run_operation h c op [started_line op] w)"
    using True a by (simp add: execute_docker_operation_def Let_def split: option.split)
  show ?thesis
  proof (cases ans)
    case None
    with e w that(2) show ?thesis by simp
  next
    case (Some x)
    then obtain i s where x: "ans = Some (i, s)" by (cases x) simp
    have no: "i \<noteq> op_id op \<or> s \<noteq> ''running''" using assms True a x by (auto simp: confirmed_def)
    show ?thesis
    proof (cases "i \<noteq> op_id op \<or> s \<noteq> ''running'' \<and> \<not> should_stop_docker s")
      case True
      with e w x that(2) show ?thesis by simp
    next
      case False
      with no have "should_stop_docker s" by blast
      with False e w x a that(3) show ?thesis by simp
    qed
  qed
qed

lemma acts_mark [simp]: "wk_acts (mark_docker s w) = wk_acts w"
  by (simp add: mark_docker_def)

locale told_policy = host_policy +
  assumes tell: "sent_report c op rep \<Longrightarrow> ok acts (Told rep)"
begin

lemma send_moves: "moves ok w (snd (send_docker h c op status live extra logs w))"
proof -
  obtain p w1 where p: "runtime_payload h c (live w) extra w = (p, w1)" by fastforce
  have a: "moves ok w w1" using payload_moves [of w "live w" extra] p by simp
  have b: "moves ok w1 (snd (docker_callback h c op status p logs (ho_calls h (wk_acts w1)) w1))"
    by (rule callback_moves) (rule tell)
  show ?thesis using moves_trans [OF a b] by (simp add: send_docker_def p)
qed

lemma ask_moves: "moves ok (start_work (mark_started scope_docker r)) (after_ask h c op r)"
  using moves_trans [OF send_moves happen_moves] by (simp add: after_ask_def ask_start_def Let_def case_prod_unfold)

lemma acknowledge_moves: "moves ok w (acknowledge_stop h c op s w)"
  by (simp add: acknowledge_stop_def callback_moves tell)

text \<open>The acts of an execution, given that its program and the services it collects obey the policy.\<close>

lemma unconfirmed_grows:
  assumes "\<not> confirmed h c op r"
  shows "grows ok [] (wk_acts (execute_docker_operation h c op r))"
proof -
  let ?w = "start_work (mark_started scope_docker r)"
  have s: "wk_acts ?w = []" by (simp add: start_work_def)
  from assms show ?thesis
  proof (cases rule: execute_declined)
    case (refused before err)
    with send_moves [of ?w] s show ?thesis by (simp add: refuse_operation_def moves_def)
  next
    case denied
    with ask_moves [of r] s show ?thesis by (simp add: moves_def)
  next
    case (stopped st)
    with moves_trans [OF ask_moves [of r] acknowledge_moves] s show ?thesis by (simp add: moves_def)
  qed
qed

lemma finish_grows:
  assumes "\<And>w. moves ok w (snd (service_entries h c op w))"
  shows "grows ok (wk_acts w) (wk_acts (finish_operation h c op logs result w))"
proof (cases result)
  case (Inl e)
  with send_moves [of w] show ?thesis by (simp add: finish_operation_def Let_def moves_def)
next
  case (Inr u)
  let ?e = "[(''completedAt'', VStr (ho_stamp h (wk_acts w)))]"
  obtain p w1 where 1: "runtime_payload h c (parent_live w) ?e w = (p, w1)" by fastforce
  obtain es w2 where 2: "service_entries h c op w1 = (es, w2)" by fastforce
  have "moves ok w w1" using payload_moves [of w "parent_live w" ?e] 1 by simp
  moreover have "moves ok w1 w2" using assms [of w1] 2 by simp
  moreover have "moves ok w2 (snd (docker_callback h c op ''completed''
      (put_entries p (digest_entries op @ es)) logs (ho_calls h (wk_acts w2)) w2))"
    by (rule callback_moves) (rule tell)
  ultimately show ?thesis
    unfolding moves_def by (auto simp: finish_operation_def Inr 1 2 intro: grows_trans)
qed

lemma run_grows:
  assumes program: "\<And>w. moves ok w (snd (snd (perform_operation h c op w)))"
    and services: "\<And>w. moves ok w (snd (service_entries h c op w))"
  shows "grows ok (wk_acts w) (wk_acts (run_operation h c op logs w))"
proof -
  obtain lines result w1 where 1: "perform_operation h c op (happen h c op (w\<lparr>wk_beating := True\<rparr>)) = (lines, result, w1)"
    by (metis surj_pair)
  let ?w2 = "late_beat h c op (wk_beating w1) False (w1\<lparr>wk_beating := False\<rparr>)"
  let ?w3 = "if stop_status w1 \<noteq> [] then mark_docker (stop_status w1) (acknowledge_stop h c op (stop_status w1) ?w2)
      else finish_operation h c op (logs @ lines) result ?w2"
  have a: "moves ok w (w\<lparr>wk_beating := True\<rparr>)" "moves ok w1 (w1\<lparr>wk_beating := False\<rparr>)" by (simp_all add: moves_same)
  have b: "moves ok (happen h c op (w\<lparr>wk_beating := True\<rparr>)) w1"
    using program [of "happen h c op (w\<lparr>wk_beating := True\<rparr>)"] 1 by simp
  have m: "moves ok w ?w2"
    by (rule moves_trans [OF moves_trans [OF moves_trans [OF moves_trans [OF a(1) happen_moves] b] a(2)] late_moves])
  have "grows ok (wk_acts ?w2) (wk_acts ?w3)"
    using finish_grows [OF services] acknowledge_moves [of ?w2 "stop_status w1"] by (simp add: moves_def)
  moreover have "grows ok (wk_acts ?w3) (wk_acts (late_beat h c op (wk_beating w1) True ?w3))"
    using late_moves by (simp add: moves_def)
  ultimately show ?thesis
    using grows_trans [OF grows_trans, of ok "wk_acts w" "wk_acts ?w2" "wk_acts ?w3"] m
    by (simp add: run_operation_def 1 Let_def moves_def)
qed

lemma execute_grows:
  assumes "\<And>w. moves ok w (snd (snd (perform_operation h c op w)))"
    and "\<And>w. moves ok w (snd (service_entries h c op w))"
  shows "grows ok [] (wk_acts (execute_docker_operation h c op r))"
proof (cases "confirmed h c op r")
  case True
  have "grows ok [] (wk_acts (after_ask h c op r))" using ask_moves [of r] by (simp add: moves_def start_work_def)
  from grows_trans [OF this run_grows [OF assms]] True show ?thesis by (simp add: execute_confirmed)
qed (rule unconfirmed_grows)

end

subsection \<open>Policies\<close>

definition gentle :: "docker_config \<Rightarrow> docker_operation \<Rightarrow> act \<Rightarrow> bool" where
  "gentle c op a \<longleftrightarrow> (\<exists>argv \<in> set probes. a = Ran [] argv) \<or> (\<exists>rep. a = Told rep \<and> sent_report c op rep)"

interpretation gentle: told_policy "\<lambda>acts. gentle c op" h c op for h c op
  by unfold_locales (auto simp: gentle_def)

definition preflight_only :: "host \<Rightarrow> docker_config \<Rightarrow> docker_operation \<Rightarrow> act \<Rightarrow> bool" where
  "preflight_only h c op a \<longleftrightarrow> gentle c op a
     \<or> (\<exists>dir. temporary h dir \<and> (a = MadeTemp dir \<or> a = RemovedAll dir
          \<or> (\<exists>argv \<in> preflight_commands. a = Ran dir argv)
          \<or> (\<exists>x \<in> {''compose.yaml'', ''.env''}. \<exists>content. a = Wrote (join_path [dir, x]) content)))"

interpretation preflight: preflight_policy "\<lambda>acts. preflight_only h c op" h c op for h c op
  by unfold_locales (auto simp: preflight_only_def gentle_def)

interpretation preflight: told_policy "\<lambda>acts. preflight_only h c op" h c op for h c op
  by unfold_locales (auto simp: preflight_only_def gentle_def)

definition below :: "string \<Rightarrow> string \<Rightarrow> bool" where
  "below base p \<longleftrightarrow> is_abs p \<and> take (length (path_parts base)) (path_parts p) = path_parts base"

text \<open>In the directory of the Compose projects, whenever that is an absolute path.\<close>

definition in_projects :: "host \<Rightarrow> docker_config \<Rightarrow> string \<Rightarrow> bool" where
  "in_projects h c p \<longleftrightarrow> (\<forall>base. abs_path h (compose_root c) = Inr base \<longrightarrow> is_abs base \<longrightarrow> below base p)"

definition in_bounds :: "host \<Rightarrow> docker_config \<Rightarrow> docker_operation \<Rightarrow> act list \<Rightarrow> act \<Rightarrow> bool" where
  "in_bounds h c op acts a \<longleftrightarrow> preflight_only h c op a \<or> (\<exists>argv \<in> provision_commands. a = Ran [] argv)
     \<or> (\<exists>p. in_projects h c p \<and> (a = MadeDir p \<or> a = Removed p \<or> a = RemovedAll p \<or> (\<exists>content. a = Wrote p content)
          \<or> (\<exists>argv. a = Ran p argv \<and> (argv = down_command \<longrightarrow> asked_down h op \<or> renewed h p acts))))"

lemma plain_render:
  assumes "list_all plain_part ps"
  shows "path_parts (render_path True ps) = ps" "is_abs (render_path True ps)"
proof -
  have c: "clean_stack True (rev ps)" unfolding clean_stack_def
    using assms by (intro exI [of _ "rev ps"] exI [of _ 0]) (simp add: list_all_iff)
  show "path_parts (render_path True ps) = ps" "is_abs (render_path True ps)"
    using path_parts_render [OF c] is_abs_render [OF c] by simp_all
qed

lemma below_length: "below base p \<Longrightarrow> length (path_parts base) \<le> length (path_parts p)"
  unfolding below_def by (metis length_take min.cobounded1)

lemma below_deeper:
  assumes "below base p" and "resolve_workspace_path p relative = Some q"
  shows "below base q"
proof -
  have p: "is_abs p" using assms(1) by (simp add: below_def)
  from assms(2) have q: "q = render_path True (path_parts p @ path_parts relative)"
    and r: "\<not> is_abs relative" "\<not> has_prefix (clean_path relative) ''..''"
    by (auto simp: resolve_workspace_path_eq [OF p] split: if_splits)
  have "list_all plain_part (path_parts p @ path_parts relative)"
    using abs_parts_plain [OF p] rel_no_escape [OF r] by simp
  from plain_render [OF this] assms(1) below_length [OF assms(1)] q show ?thesis by (auto simp: below_def)
qed

lemma below_part:
  assumes "below base p" and "plain_part x"
  shows "below base (join_path [p, x])"
proof -
  have p: "is_abs p" using assms(1) by (simp add: below_def)
  have "list_all plain_part (path_parts p @ [x])" using abs_parts_plain [OF p] assms(2) by simp
  from plain_render [OF this] assms(1) below_length [OF assms(1)] join_path_part [OF p assms(2)] show ?thesis by (auto simp: below_def)
qed

interpretation bounds: project_policy "in_bounds h c op" h c op "in_projects h c" for h c op
proof unfold_locales
  fix p x assume "in_projects h c p" "x \<in> {''compose.yaml'', ''.env'', ''.soha-build'', ''repository'', ''resolved-commit''}"
  moreover from this have "plain_part x" by (auto simp: plain_part_def)
  ultimately show "in_projects h c (join_path [p, x])" by (auto simp: in_projects_def below_part)
next
  fix p relative q assume "in_projects h c p" "resolve_workspace_path p relative = Some q"
  then show "in_projects h c q" using below_deeper unfolding in_projects_def by blast
qed (auto simp: in_bounds_def preflight_only_def gentle_def in_projects_def below_def)

interpretation bounds: told_policy "in_bounds h c op" h c op for h c op
  by unfold_locales (auto simp: in_bounds_def preflight_only_def gentle_def)

text \<open>Only reports that the operation is running.\<close>

definition unfinished :: "docker_config \<Rightarrow> docker_operation \<Rightarrow> act \<Rightarrow> bool" where
  "unfinished c op a \<longleftrightarrow> (\<forall>rep. a = Told rep \<longrightarrow> sent_report c op rep \<and> kr_status rep = ''running'')"

interpretation unfinished: project_policy "\<lambda>acts. unfinished c op" h c op "\<lambda>p. True" for h c op
  by unfold_locales (simp_all add: unfinished_def)

subsection \<open>Reports and outcomes\<close>

definition last_reports :: "act list \<Rightarrow> docker_report list" where
  "last_reports acts = concat (map (\<lambda>a. case a of Told rep \<Rightarrow> if kr_status rep = ''running'' then [] else [rep] | _ \<Rightarrow> []) acts)"

definition idle :: "docker_config \<Rightarrow> docker_operation \<Rightarrow> work \<Rightarrow> work \<Rightarrow> bool" where
  "idle c op = moves (\<lambda>acts. unfinished c op)"

text \<open>One last report with the status t, and the outcome s in the metrics.\<close>

definition ended_once :: "docker_config \<Rightarrow> docker_operation \<Rightarrow> string \<Rightarrow> string \<Rightarrow> work \<Rightarrow> work \<Rightarrow> bool" where
  "ended_once c op s t w v \<longleftrightarrow>
     (\<exists>rep. last_reports (wk_acts v) = last_reports (wk_acts w) @ [rep] \<and> sent_report c op rep \<and> kr_status rep = t)
     \<and> settled_docker (wk_runner v) = count_outcome s (settled_docker (wk_runner w))"

text \<open>No last report, and the outcome s in the metrics.\<close>

definition silent :: "string \<Rightarrow> work \<Rightarrow> work \<Rightarrow> bool" where
  "silent s w v \<longleftrightarrow> last_reports (wk_acts v) = last_reports (wk_acts w)
     \<and> settled_docker (wk_runner v) = count_outcome s (settled_docker (wk_runner w))"

lemma idle_trans: "idle c op w v \<Longrightarrow> idle c op v u \<Longrightarrow> idle c op w u"
  unfolding idle_def by (rule moves_trans)

lemma idle_same:
  assumes "idle c op w v"
  shows "last_reports (wk_acts v) = last_reports (wk_acts w)"
    and "settled_docker (wk_runner v) = settled_docker (wk_runner w)"
proof -
  obtain new where new: "wk_acts v = wk_acts w @ new" "\<forall>e \<in> set new. unfinished c op e"
    using assms grows_new unfolding idle_def moves_def by metis
  have "last_reports new = []" using new(2) by (auto simp: last_reports_def unfinished_def split: act.split)
  then show "last_reports (wk_acts v) = last_reports (wk_acts w)" using new(1) by (simp add: last_reports_def)
  show "settled_docker (wk_runner v) = settled_docker (wk_runner w)" using assms by (simp add: idle_def moves_def steady_def)
qed

lemma closed_idle: "idle c op w v \<Longrightarrow> ended_once c op s t v u \<Longrightarrow> ended_once c op s t w u"
    "ended_once c op s t w v \<Longrightarrow> idle c op v u \<Longrightarrow> ended_once c op s t w u"
    "idle c op w v \<Longrightarrow> silent s v u \<Longrightarrow> silent s w u" "silent s w v \<Longrightarrow> idle c op v u \<Longrightarrow> silent s w u"
  by (simp_all add: ended_once_def silent_def idle_same)

lemma settled_mark: "settled_docker (wk_runner (mark_docker s w)) = count_outcome s (settled_docker (wk_runner w))"
  by (simp add: settled_docker_def mark_docker_def mark_outcome_def with_scope_def count_outcome_def Let_def)

lemma silent_mark: "silent s w (mark_docker s w)"
  by (simp add: silent_def settled_mark)

lemma closed_callback:
  assumes "t \<noteq> ''running''"
  shows "ended_once c op s t w (mark_docker s (snd (docker_callback h c op t payload logs calls w)))"
proof -
  let ?v = "snd (docker_callback h c op t payload logs calls w)"
  have m: "moves (\<lambda>acts a. \<exists>rep. a = Told rep \<and> sent_report c op rep \<and> kr_status rep = t) w ?v"
    by (rule callback_moves) blast
  have l: "length (wk_acts ?v) = Suc (length (wk_acts w))"
    by (simp add: docker_callback_def note_act_def Let_def case_prod_unfold split: option.split)
  from m have "grows (\<lambda>acts a. \<exists>rep. a = Told rep \<and> sent_report c op rep \<and> kr_status rep = t) (wk_acts w) (wk_acts ?v)"
    by (simp add: moves_def)
  from grows_new [OF this] obtain new where new: "wk_acts ?v = wk_acts w @ new"
      "\<forall>a \<in> set new. \<exists>rep. a = Told rep \<and> sent_report c op rep \<and> kr_status rep = t" by blast
  with l obtain a where "new = [a]" by (cases new) auto
  with new obtain rep where rep: "wk_acts ?v = wk_acts w @ [Told rep]" "sent_report c op rep" "kr_status rep = t" by auto
  have "last_reports (wk_acts ?v) = last_reports (wk_acts w) @ [rep]"
    using rep assms by (simp add: last_reports_def)
  moreover have "settled_docker (wk_runner ?v) = settled_docker (wk_runner w)" using m by (simp add: moves_def steady_def)
  ultimately show ?thesis unfolding ended_once_def using rep by (auto simp: settled_mark)
qed


lemma closed_acknowledge:
  "s \<in> {''canceling'', ''canceled''} \<Longrightarrow> ended_once c op u ''canceled'' w (mark_docker u (acknowledge_stop h c op s w))"
  "s \<notin> {''canceling'', ''canceled''} \<Longrightarrow> silent u w (mark_docker u (acknowledge_stop h c op s w))"
  using closed_callback [of "''canceled''"] silent_mark by (auto simp: acknowledge_stop_def)



lemma idle_ask: "idle c op (start_work (mark_started scope_docker r)) (after_ask h c op r)"
proof -
  let ?w = "start_work (mark_started scope_docker r)"
  let ?x = "[(''heartbeatAt'', VStr (ho_stamp h (wk_acts ?w)))]"
  obtain p w1 where 1: "runtime_payload h c (task_live ?w) ?x ?w = (p, w1)" by fastforce
  let ?v = "snd (docker_callback h c op ''running'' p [started_line op] (ho_calls h (wk_acts w1)) w1)"
  have a: "idle c op ?w w1" using unfinished.payload_moves [of c op ?w h "task_live ?w" ?x] 1 by (simp add: idle_def)
  have b: "idle c op w1 ?v" unfolding idle_def by (rule callback_moves) (simp add: unfinished_def)
  have d: "idle c op ?v (happen h c op ?v)" unfolding idle_def by (rule unfinished.happen_moves)
  have "after_ask h c op r = happen h c op ?v"
    by (simp add: after_ask_def ask_start_def send_docker_def 1 case_prod_unfold Let_def)
  with idle_trans [OF idle_trans [OF a b] d] show ?thesis by simp
qed


subsection \<open>What happens on the host\<close>

lemmas bounded_work = bounds.execute_grows [OF bounds.perform_operation_moves bounds.service_moves]

fun act_path :: "act \<Rightarrow> string option" where
  "act_path (Ran dir argv) = Some dir"
| "act_path (MadeDir p) = Some p"
| "act_path (MadeTemp p) = Some p"
| "act_path (Wrote p content) = Some p"
| "act_path (Removed p) = Some p"
| "act_path (RemovedAll p) = Some p"
| "act_path (Told rep) = None"

text \<open>C7: Until the control plane has confirmed the start of an operation, and for good when the operation is denied,
  rejected or stopped, the runner only asks Docker for its versions and sends reports.\<close>

theorem docker_unconfirmed_harmless:
  assumes "\<not> confirmed h c op r" and "a \<in> set (wk_acts (execute_docker_operation h c op r))"
  shows "(\<exists>argv \<in> set probes. a = Ran [] argv) \<or> (\<exists>rep. a = Told rep \<and> sent_report c op rep)"
  using grows_at [OF gentle.unconfirmed_grows [OF assms(1)] assms(2)] by (auto simp: gentle_def)

text \<open>C29: Every directory in which an operation runs a command and every file it writes or removes lies in the directory of
  the Compose projects, or is a temporary directory, or the command only asks Docker for its state.\<close>

theorem compose_work_confined:
  assumes "abs_path h (compose_root c) = Inr base" and "is_abs base"
    and "a \<in> set (wk_acts (execute_docker_operation h c op r))" and "act_path a = Some p"
  shows "below base p \<or> (\<exists>dir. temporary h dir \<and> p \<in> {dir, join_path [dir, ''compose.yaml''], join_path [dir, ''.env'']})
    \<or> p = [] \<and> (\<exists>argv \<in> set probes \<union> provision_commands. a = Ran [] argv)"
proof -
  obtain pre where "in_bounds h c op pre a" using grows_at [OF bounded_work assms(3)] by blast
  moreover have "in_projects h c q \<Longrightarrow> below base q" for q using assms(1,2) by (simp add: in_projects_def)
  ultimately show ?thesis using assms(4)
    unfolding in_bounds_def preflight_only_def gentle_def by (elim disjE exE conjE bexE) auto
qed

lemma down_not_read: "down_command \<notin> set probes" "down_command \<notin> provision_commands" "down_command \<notin> preflight_commands"
  by (simp_all add: down_command_def probes_def provision_commands_def preflight_commands_def info_command_def
      compose_command_def compose_base_def compose_args_def Let_def) code_simp+

text \<open>C34: Unless the action itself is to take the project down, its containers are removed only after the new image was
  pulled or built successfully: a failing pull or build leaves the running service alone.\<close>

theorem replacement_needs_new_image:
  assumes "wk_acts (execute_docker_operation h c op r) = pre @ Ran dir down_command # post" and "\<not> asked_down h op"
  shows "renewed h dir pre"
proof -
  have "in_bounds h c op pre (Ran dir down_command)"
    using grows_split [of "in_bounds h c op"] bounded_work [of h c op r] assms(1) by simp
  with down_not_read assms(2) show ?thesis
    unfolding in_bounds_def preflight_only_def gentle_def by (elim disjE exE conjE bexE) auto
qed

lemma validate_action: "op_action op = VStr ''validate'' \<Longrightarrow> first_non_empty [op_field h op ''action'', ''deploy''] = ''validate''"
proof -
  assume "op_action op = VStr ''validate''"
  then have "op_field h op ''action'' = trim_space ''validate''"
    by (simp add: op_field_def text_field_def op_action_def)
  moreover have "trim_space ''validate'' = ''validate''" by code_simp
  ultimately show ?thesis by (simp add: first_non_empty_def)
qed

text \<open>The preflight of a Compose project, action \<open>validate\<close>, works in a temporary directory only: no file of the
  live project is written or removed, and the only commands ask Docker for its state or check the file.\<close>

theorem preflight_leaves_projects:
  assumes "op_kind op \<in> {''container_start'', ''project_deploy''}" and "op_action op = VStr ''validate''"
    and "a \<in> set (wk_acts (execute_docker_operation h c op r))"
  shows "preflight_only h c op a"
proof -
  have p: "perform_operation h c op = validate_delivery h c op"
    using assms(1) validate_action [OF assms(2)] by (auto simp: perform_operation_def compose_action_def)
  have "moves (\<lambda>acts. preflight_only h c op) w (snd (snd (perform_operation h c op w)))" for w
    unfolding p using preflight.does_validate [of h c op] unfolding does_def by blast
  moreover have "moves (\<lambda>acts. preflight_only h c op) w (snd (service_entries h c op w))" for w
    using assms(2) by (simp add: service_entries_def)
  ultimately have "grows (\<lambda>acts. preflight_only h c op) [] (wk_acts (execute_docker_operation h c op r))"
    by (rule preflight.execute_grows)
  from grows_at [OF this assms(3)] show ?thesis by blast
qed

subsection \<open>Concrete operations\<close>

definition sample_host :: host where
  "sample_host = \<lparr>ho_text = (\<lambda>q. []), ho_quote = (\<lambda>s. s), ho_first = True, ho_late = None, ho_goarch = ''amd64'',
     ho_cwd = Inr ''/srv'', ho_run = (\<lambda>acts dir argv. (''ok'', [], None)), ho_file = (\<lambda>acts a. None),
     ho_temp = (\<lambda>acts. Inr ''/tmp/t''), ho_read = (\<lambda>acts p. None), ho_stat = (\<lambda>acts p. Inl (NotThere [])),
     ho_real = (\<lambda>acts p. Inr p), ho_url = (\<lambda>s. None), ho_records = (\<lambda>s. []),
     ho_calls = (\<lambda>acts n. CallAnswered ''op1'' ''running''), ho_stamp = (\<lambda>acts. ''now''), ho_events = (\<lambda>acts. [])\<rparr>"

definition sample_docker :: docker_config where
  "sample_docker = \<lparr>dc_runner = \<lparr>rc_agent = ''a1'', rc_attempts = 1, rc_backoff = 0, rc_timeout = 0, rc_root = []\<rparr>,
     dc_worker = ''w1'', dc_endpoint = [], dc_kinds = [''project_deploy''], dc_root = ''/srv/compose''\<rparr>"

definition sample_operation :: "gmap \<Rightarrow> docker_operation" where
  "sample_operation payload = \<lparr>op_id = ''op1'', op_kind = ''project_deploy'', op_project = ''p1'', op_token = ''t'',
     op_timeout = 0, op_payload = payload\<rparr>"

definition probe_acts :: "act list" where
  "probe_acts = map (Ran []) probes"

lemma probed_payload:
  fixes w :: work
  assumes "runtime_payload h c True extra w = (p, v)"
  shows "v = w\<lparr>wk_acts := wk_acts w @ probe_acts\<rparr>"
proof -
  have v: "snd (command_version h True argv u) = note_act (Ran [] argv) u" for argv u
    by (simp add: command_version_def split: prod.split)
  have "snd (runtime_payload h c True extra w)
      = note_act (Ran [] (probes ! 2)) (note_act (Ran [] (probes ! 1)) (note_act (Ran [] (probes ! 0)) w))"
    by (simp add: runtime_payload_def Let_def case_prod_unfold v)
  with assms show ?thesis by (simp add: note_act_def probe_acts_def probes_def)
qed

lemma answered_callback:
  assumes "calls 1 = CallAnswered i s" and "trim_space i \<noteq> []" and "docker_callback h c op t payload logs calls w = (ans, v)"
  shows "ans = Some (i, s) \<and> (\<exists>r rep. v = w\<lparr>wk_runner := r, wk_acts := wk_acts w @ [Told rep]\<rparr>)"
proof -
  let ?k = "nat (if rc_attempts (dc_runner c) \<le> 0 then 1 else rc_attempts (dc_runner c))"
  have "?k \<noteq> 0" by simp
  then obtain n where n: "?k = Suc n" by (cases ?k) simp_all
  show ?thesis using assms
    by (auto simp: docker_callback_def with_callback_retry_def n Let_def note_act_def case_prod_unfold simp del: redact_value.simps)
qed

definition busy_work :: "runner \<Rightarrow> act list \<Rightarrow> bool \<Rightarrow> work" where
  "busy_work r as beating = \<lparr>wk_runner = r, wk_acts = as, wk_ctx = CtxLive, wk_parent = False, wk_beating = beating, wk_stop = None\<rparr>"

lemma sample_start_answer:
  assumes "op_id op = ''op1''"
  shows "\<exists>r' rep. ask_start sample_host sample_docker op (start_work r) = (Some (''op1'', ''running''), busy_work r' (probe_acts @ [Told rep]) False)"
proof -
  let ?w = "start_work r"
  have live: "task_live ?w = True" by (simp add: task_live_def start_work_def)
  obtain p v where p: "runtime_payload sample_host sample_docker True [(''heartbeatAt'', VStr (ho_stamp sample_host (wk_acts ?w)))] ?w = (p, v)"
    by fastforce
  note v = probed_payload [OF p]
  obtain ans u where c: "docker_callback sample_host sample_docker op ''running'' p [started_line op] (ho_calls sample_host (wk_acts v)) v = (ans, u)"
    by fastforce
  have "ans = Some (''op1'', ''running'') \<and> (\<exists>r rep. u = v\<lparr>wk_runner := r, wk_acts := wk_acts v @ [Told rep]\<rparr>)"
  proof (rule answered_callback [OF _ _ c])
    show "trim_space ''op1'' \<noteq> []" by code_simp
  qed (simp add: sample_host_def)
  then obtain r' rep where u: "ans = Some (''op1'', ''running'')" "u = v\<lparr>wk_runner := r', wk_acts := wk_acts v @ [Told rep]\<rparr>" by blast
  have h: "happen sample_host sample_docker op u = u" by (simp add: happen_def sample_host_def)
  have "ask_start sample_host sample_docker op ?w = (ans, u)"
    by (simp add: ask_start_def send_docker_def live p c h)
  moreover have "u = busy_work r' (probe_acts @ [Told rep]) False"
    unfolding u(2) v by (simp add: start_work_def busy_work_def)
  ultimately show ?thesis using u(1) by blast
qed

lemma sample_acts:
  assumes "validate_operation (ho_quote sample_host) (sample_operation payload) = None"
    and "\<And>r as. wk_acts (snd (snd (compose_action sample_host sample_docker (sample_operation payload) (busy_work r as True)))) = as @ acts"
  shows "\<exists>rep post. wk_acts (execute_docker_operation sample_host sample_docker (sample_operation payload) r)
      = (probe_acts @ [Told rep]) @ acts @ post"
proof -
  let ?op = "sample_operation payload"
  obtain r' rep where a: "ask_start sample_host sample_docker ?op (start_work (mark_started scope_docker r))
      = (Some (''op1'', ''running''), busy_work r' (probe_acts @ [Told rep]) False)"
    using sample_start_answer [of ?op "mark_started scope_docker r"] by (auto simp: sample_operation_def)
  have k: "docker_kind_allowed (dc_kinds sample_docker) (op_kind ?op)"
    unfolding sample_operation_def sample_docker_def docker_config.simps docker_operation.simps by code_simp
  have i: "op_id ?op = ''op1''" "op_kind ?op = ''project_deploy''" by (simp_all add: sample_operation_def)
  have conf: "confirmed sample_host sample_docker ?op r"
    using assms(1) k i a by (simp add: confirmed_def)
  let ?v = "busy_work r' (probe_acts @ [Told rep]) False"
  have ev: "happen sample_host sample_docker ?op w = w" for w by (simp add: happen_def sample_host_def)
  have pf: "perform_operation sample_host sample_docker ?op = compose_action sample_host sample_docker ?op"
    using i by (simp add: perform_operation_def)
  obtain lines res w1 where w1: "compose_action sample_host sample_docker ?op (busy_work r' (probe_acts @ [Told rep]) True) = (lines, res, w1)"
    by (metis surj_pair)
  then have acts: "wk_acts w1 = (probe_acts @ [Told rep]) @ acts" using assms(2) by (metis snd_conv)
  have late: "late_beat sample_host sample_docker ?op x y w = w" for x y w by (simp add: late_beat_def sample_host_def)
  have beat: "?v\<lparr>wk_beating := True\<rparr> = busy_work r' (probe_acts @ [Told rep]) True" by (simp add: busy_work_def)
  let ?w2 = "w1\<lparr>wk_beating := False\<rparr>"
  let ?fin = "if stop_status w1 \<noteq> [] then mark_docker (stop_status w1) (acknowledge_stop sample_host sample_docker ?op (stop_status w1) ?w2)
      else finish_operation sample_host sample_docker ?op ([started_line ?op] @ lines) res ?w2"
  have e: "execute_docker_operation sample_host sample_docker ?op r = ?fin"
    using execute_confirmed [OF conf]
    by (simp add: after_ask_def a run_operation_def ev beat pf w1 late Let_def)
  have "grows (\<lambda>acts a. in_bounds sample_host sample_docker ?op acts a) (wk_acts ?w2) (wk_acts ?fin)"
    using bounds.finish_grows [OF bounds.service_moves, where w = ?w2] bounds.acknowledge_moves [where w = ?w2 and s = "stop_status w1"]
    by (simp add: moves_def)
  from grows_longer [OF this] acts show ?thesis unfolding e by auto
qed

lemma sample_redeploy:
  "wk_acts (snd (snd (compose_action sample_host sample_docker (sample_operation
     [(''action'', VStr ''redeploy''), (''sourceKind'', VStr ''single_container''), (''composeContent'', VStr ''x''), (''envContent'', VStr []), (''projectSlug'', VStr ''web'')])
      (busy_work r as True))))
   = as @ [MadeDir ''/srv/compose/web'', Wrote ''/srv/compose/web/compose.yaml'' (''x'' @ newline), Removed ''/srv/compose/web/.env'',
      Ran ''/srv/compose/web'' [''docker'', ''compose'', ''-f'', ''compose.yaml'', ''pull''],
      Ran ''/srv/compose/web'' [''docker'', ''compose'', ''-f'', ''compose.yaml'', ''down'', ''--remove-orphans''],
      Ran ''/srv/compose/web'' [''docker'', ''compose'', ''-f'', ''compose.yaml'', ''up'', ''-d'', ''--force-recreate'']]"
  by (code_simp, simp)

abbreviation (input) redeploy_payload :: gmap where
  "redeploy_payload \<equiv> [(''action'', VStr ''redeploy''), (''sourceKind'', VStr ''single_container''),
     (''composeContent'', VStr ''x''), (''envContent'', VStr []), (''projectSlug'', VStr ''web'')]"

lemma sample_root: "abs_path sample_host (compose_root sample_docker) = Inr ''/srv/compose''" "is_abs ''/srv/compose''"
  by code_simp+

lemma redeploy_acts: "\<exists>rep post. wk_acts (execute_docker_operation sample_host sample_docker (sample_operation redeploy_payload) idle_runner)
  = (probe_acts @ [Told rep]) @ [MadeDir ''/srv/compose/web'', Wrote ''/srv/compose/web/compose.yaml'' (''x'' @ newline), Removed ''/srv/compose/web/.env'',
      Ran ''/srv/compose/web'' [''docker'', ''compose'', ''-f'', ''compose.yaml'', ''pull''],
      Ran ''/srv/compose/web'' [''docker'', ''compose'', ''-f'', ''compose.yaml'', ''down'', ''--remove-orphans''],
      Ran ''/srv/compose/web'' [''docker'', ''compose'', ''-f'', ''compose.yaml'', ''up'', ''-d'', ''--force-recreate'']] @ post"
proof (rule sample_acts)
  show "validate_operation (ho_quote sample_host) (sample_operation redeploy_payload) = None" by code_simp
qed (rule sample_redeploy)

theorem compose_work_confined_witness:
  "\<exists>rep. below ''/srv/compose'' ''/srv/compose/web/compose.yaml''
     \<and> Told rep \<in> set (wk_acts (execute_docker_operation sample_host sample_docker (sample_operation redeploy_payload) idle_runner))"
proof -
  let ?p = "''/srv/compose/web/compose.yaml''"
  obtain rep post where acts: "wk_acts (execute_docker_operation sample_host sample_docker (sample_operation redeploy_payload) idle_runner)
    = (probe_acts @ [Told rep]) @ [MadeDir ''/srv/compose/web'', Wrote ?p (''x'' @ newline), Removed ''/srv/compose/web/.env'',
      Ran ''/srv/compose/web'' [''docker'', ''compose'', ''-f'', ''compose.yaml'', ''pull''],
      Ran ''/srv/compose/web'' [''docker'', ''compose'', ''-f'', ''compose.yaml'', ''down'', ''--remove-orphans''],
      Ran ''/srv/compose/web'' [''docker'', ''compose'', ''-f'', ''compose.yaml'', ''up'', ''-d'', ''--force-recreate'']] @ post"
    using redeploy_acts by blast
  have w: "Wrote ?p (''x'' @ newline) \<in> set (wk_acts (execute_docker_operation sample_host sample_docker (sample_operation redeploy_payload) idle_runner))"
    unfolding acts by simp
  have "below ''/srv/compose'' ?p \<or> (\<exists>dir. temporary sample_host dir \<and> ?p \<in> {dir, join_path [dir, ''compose.yaml''], join_path [dir, ''.env'']})
    \<or> ?p = [] \<and> (\<exists>argv \<in> set probes \<union> provision_commands. Wrote ?p (''x'' @ newline) = Ran [] argv)"
    by (rule compose_work_confined [OF sample_root w act_path.simps(4)])
  moreover have "dir = ''/tmp/t''" if "temporary sample_host dir" for dir
    using that by (auto simp: temporary_def sample_host_def)
  moreover have "?p \<noteq> ''/tmp/t''" "?p \<noteq> join_path [''/tmp/t'', ''compose.yaml'']" "?p \<noteq> join_path [''/tmp/t'', ''.env'']"
    by code_simp+
  ultimately have "below ''/srv/compose'' ?p" by auto
  moreover have "Told rep \<in> set (wk_acts (execute_docker_operation sample_host sample_docker (sample_operation redeploy_payload) idle_runner))"
    unfolding acts by simp
  ultimately show ?thesis by blast
qed

theorem replacement_needs_new_image_witness:
  "\<exists>pre post. wk_acts (execute_docker_operation sample_host sample_docker (sample_operation redeploy_payload) idle_runner)
     = pre @ Ran ''/srv/compose/web'' down_command # post \<and> renewed sample_host ''/srv/compose/web'' pre"
proof -
  have d: "down_command = [''docker'', ''compose'', ''-f'', ''compose.yaml'', ''down'', ''--remove-orphans'']" by code_simp
  obtain pre post where "wk_acts (execute_docker_operation sample_host sample_docker (sample_operation redeploy_payload) idle_runner)
     = pre @ Ran ''/srv/compose/web'' down_command # post"
    using redeploy_acts unfolding d append.append_Cons append.append_Nil append_assoc [symmetric]
    by (metis append_Cons append_Nil append_assoc)
  moreover have "\<not> asked_down sample_host (sample_operation redeploy_payload)" by code_simp
  ultimately show ?thesis using replacement_needs_new_image by blast
qed

abbreviation (input) preflight_payload :: gmap where
  "preflight_payload \<equiv> [(''action'', VStr ''validate''), (''composeContent'', VStr ''x'')]"

lemma sample_preflight:
  "wk_acts (snd (snd (compose_action sample_host sample_docker (sample_operation preflight_payload) (busy_work r as True))))
   = as @ [MadeTemp ''/tmp/t'', Wrote ''/tmp/t/compose.yaml'' ''x'', Wrote ''/tmp/t/.env'' [], Ran ''/tmp/t'' info_command,
      Ran ''/tmp/t'' [''docker'', ''compose'', ''-f'', ''compose.yaml'', ''config'', ''--quiet''], RemovedAll ''/tmp/t'']"
  by (code_simp, simp)

theorem preflight_leaves_projects_witness:
  "preflight_only sample_host sample_docker (sample_operation preflight_payload) (Wrote ''/tmp/t/compose.yaml'' ''x'')"
proof (rule preflight_leaves_projects [where r = idle_runner])
  show "op_kind (sample_operation preflight_payload) \<in> {''container_start'', ''project_deploy''}"
    by (simp add: sample_operation_def)
  show "op_action (sample_operation preflight_payload) = VStr ''validate''" by code_simp
  have "\<exists>rep post. wk_acts (execute_docker_operation sample_host sample_docker (sample_operation preflight_payload) idle_runner)
    = (probe_acts @ [Told rep]) @ [MadeTemp ''/tmp/t'', Wrote ''/tmp/t/compose.yaml'' ''x'', Wrote ''/tmp/t/.env'' [], Ran ''/tmp/t'' info_command,
      Ran ''/tmp/t'' [''docker'', ''compose'', ''-f'', ''compose.yaml'', ''config'', ''--quiet''], RemovedAll ''/tmp/t''] @ post"
  proof (rule sample_acts)
    show "validate_operation (ho_quote sample_host) (sample_operation preflight_payload) = None" by code_simp
  qed (rule sample_preflight)
  then obtain rep post where acts: "wk_acts (execute_docker_operation sample_host sample_docker (sample_operation preflight_payload) idle_runner)
    = (probe_acts @ [Told rep]) @ [MadeTemp ''/tmp/t'', Wrote ''/tmp/t/compose.yaml'' ''x'', Wrote ''/tmp/t/.env'' [], Ran ''/tmp/t'' info_command,
      Ran ''/tmp/t'' [''docker'', ''compose'', ''-f'', ''compose.yaml'', ''config'', ''--quiet''], RemovedAll ''/tmp/t''] @ post" by blast
  show "Wrote ''/tmp/t/compose.yaml'' ''x'' \<in> set (wk_acts (execute_docker_operation sample_host sample_docker (sample_operation preflight_payload) idle_runner))"
    unfolding acts by simp
qed

theorem docker_unconfirmed_harmless_witness:
  "(\<exists>argv \<in> set probes. Ran [] (probes ! 0) = Ran [] argv) \<or> (\<exists>rep. Ran [] (probes ! 0) = Told rep
     \<and> sent_report (sample_docker\<lparr>dc_kinds := []\<rparr>) (sample_operation redeploy_payload) rep)"
proof (rule docker_unconfirmed_harmless [where h = sample_host and r = idle_runner])
  let ?c = "sample_docker\<lparr>dc_kinds := []\<rparr>"
  let ?op = "sample_operation redeploy_payload"
  have k: "\<not> docker_kind_allowed (dc_kinds ?c) (op_kind ?op)" by (simp add: docker_kind_allowed_def normalize_kinds_def)
  then show "\<not> confirmed sample_host ?c ?op idle_runner" by (simp add: confirmed_def)
  let ?w = "start_work (mark_started scope_docker idle_runner)"
  let ?x = "[(''error'', VStr (''docker operation kind '' @ ho_quote sample_host (op_kind ?op) @ '' is not allowlisted'')),
    (''workerId'', VStr (docker_worker ?c))]"
  obtain p v where p: "runtime_payload sample_host ?c True ?x ?w = (p, v)" by fastforce
  have live: "parent_live ?w = True" by (simp add: parent_live_def start_work_def)
  have "probe_acts \<noteq> [] \<and> hd probe_acts = Ran [] (probes ! 0)" by (simp add: probe_acts_def probes_def)
  then have v: "Ran [] (probes ! 0) \<in> set (wk_acts v)" unfolding probed_payload [OF p] using hd_in_set [of probe_acts] by auto
  have "wk_acts (execute_docker_operation sample_host ?c ?op idle_runner)
      = wk_acts (snd (docker_callback sample_host ?c ?op ''failed'' p [''docker operation denied: '' @ ''docker operation kind '' @ ho_quote sample_host (op_kind ?op) @ '' is not allowlisted'']
        (ho_calls sample_host (wk_acts v)) v))"
    using k p live by (simp only: execute_docker_operation_def Let_def refuse_operation_def send_docker_def acts_mark simp_thms if_True prod.case)
  moreover have "Ran [] (probes ! 0) \<in> set (wk_acts (snd (docker_callback sample_host ?c ?op t p l ca v)))" for t l ca
    using v by (simp add: docker_callback_def note_act_def Let_def case_prod_unfold del: redact_value.simps split: option.split)
  ultimately show "Ran [] (probes ! 0) \<in> set (wk_acts (execute_docker_operation sample_host ?c ?op idle_runner))" by simp
qed

subsection \<open>Where the code does not do what it means to\<close>

text \<open>Payload fields that are absent read as the text <nil>. A deployment without slug, environment and action
  passes the validation, where an absent action means deploy; it is then prepared in a directory called <nil>, which all such
  projects share, with an environment file that holds the text <nil>, and fails because of its action.\<close>

theorem absent_fields_read_as_nil:
  "validate_operation (ho_quote sample_host) (sample_operation [(''composeContent'', VStr ''x'')]) = None
   \<and> (case compose_action sample_host sample_docker (sample_operation [(''composeContent'', VStr ''x'')]) (busy_work idle_runner [] True) of
        (logs, result, w) \<Rightarrow> result = Inl ''unsupported compose action <nil>''
          \<and> wk_acts w = [MadeDir ''/srv/compose/<nil>'', Wrote ''/srv/compose/<nil>/compose.yaml'' (''x'' @ newline),
               Wrote ''/srv/compose/<nil>/.env'' (''<nil>'' @ newline)])"
  by (intro conjI; code_simp)

text \<open>The action is trimmed when it is carried out but not when the result is put together. A preflight whose action
  carries a blank does not report the digest it has validated, and it overwrites the files of the live project.\<close>

theorem padded_preflight_overwrites:
  "(case compose_action sample_host sample_docker (sample_operation [(''action'', VStr '' validate''), (''composeContent'', VStr ''x''), (''projectSlug'', VStr ''web'')])
      (busy_work idle_runner [] True) of (logs, result, w) \<Rightarrow> result = Inr () \<and> hd (wk_acts w) = MadeTemp ''/tmp/t'')
   \<and> digest_entries (sample_operation [(''action'', VStr '' validate''), (''composeContent'', VStr ''x''), (''projectSlug'', VStr ''web'')]) = []
   \<and> Wrote ''/srv/compose/web/compose.yaml'' (''x'' @ newline)
       \<in> set (wk_acts (snd (service_entries sample_host sample_docker
            (sample_operation [(''action'', VStr '' validate''), (''composeContent'', VStr ''x''), (''projectSlug'', VStr ''web'')])
            (busy_work idle_runner [] False))))"
  by (intro conjI; code_simp)

text \<open>An operation that the control plane is cancelling is acknowledged as canceled, and yet it counts under no outcome
  in the metrics, because the status canceling is none of those that are counted.\<close>

theorem canceling_operation_uncounted:
  assumes "docker_kind_allowed (dc_kinds c) (op_kind op)" and "validate_operation (ho_quote h) op = None"
    and "fst (ask_start h c op (start_work (mark_started scope_docker r))) = Some (op_id op, ''canceling'')"
  shows "settled_docker (wk_runner (execute_docker_operation h c op r)) = settled_docker (mark_started scope_docker r)
    \<and> (\<exists>rep. last_reports (wk_acts (execute_docker_operation h c op r)) = [rep] \<and> kr_status rep = ''canceled'')"
proof -
  let ?w = "start_work (mark_started scope_docker r)"
  have s: "should_stop_docker ''canceling''" "trim_space ''canceling'' = ''canceling''" by code_simp+
  have e: "execute_docker_operation h c op r = mark_docker ''canceling'' (acknowledge_stop h c op ''canceling'' (after_ask h c op r))"
    using assms s by (auto simp: execute_docker_operation_def after_ask_def Let_def split: prod.splits)
  have "ended_once c op ''canceling'' ''canceled'' ?w (execute_docker_operation h c op r)"
    unfolding e by (rule closed_idle(1) [OF idle_ask closed_acknowledge(1)]) simp
  moreover have "count_outcome ''canceling'' m = m" for m
    by (simp add: count_outcome_def s(2))
  moreover have "last_reports (wk_acts ?w) = []" "wk_runner ?w = mark_started scope_docker r"
    by (simp_all add: start_work_def last_reports_def)
  ultimately show ?thesis by (auto simp: ended_once_def)
qed

lemma answered_ask:
  assumes "\<And>acts. ho_calls h acts 1 = CallAnswered i s" and "trim_space i \<noteq> []"
  shows "fst (ask_start h c op w) = Some (i, s)"
proof -
  let ?x = "[(''heartbeatAt'', VStr (ho_stamp h (wk_acts w)))]"
  obtain p v where p: "runtime_payload h c (task_live w) ?x w = (p, v)" by fastforce
  obtain ans u where u: "docker_callback h c op ''running'' p [started_line op] (ho_calls h (wk_acts v)) v = (ans, u)" by fastforce
  have "ans = Some (i, s)" using answered_callback [OF assms u] by simp
  then show ?thesis by (simp add: ask_start_def send_docker_def p u)
qed

theorem canceling_operation_uncounted_witness:
  "settled_docker (wk_runner (execute_docker_operation (sample_host\<lparr>ho_calls := \<lambda>acts n. CallAnswered ''op1'' ''canceling''\<rparr>)
     sample_docker (sample_operation redeploy_payload) idle_runner)) = settled_docker (mark_started scope_docker idle_runner)"
proof -
  let ?h = "sample_host\<lparr>ho_calls := \<lambda>acts n. CallAnswered ''op1'' ''canceling''\<rparr>"
  let ?op = "sample_operation redeploy_payload"
  have t: "trim_space ''op1'' \<noteq> []" by code_simp
  have a: "fst (ask_start ?h sample_docker ?op (start_work (mark_started scope_docker idle_runner))) = Some (''op1'', ''canceling'')"
    by (rule answered_ask) (simp_all add: t)
  have i: "op_id ?op = ''op1''" by (simp add: sample_operation_def)
  have v: "validate_operation (ho_quote ?h) ?op = None" by code_simp
  have k: "docker_kind_allowed (dc_kinds sample_docker) (op_kind ?op)" by code_simp
  show ?thesis using canceling_operation_uncounted [OF k v] a i by simp
qed

end
