(* ===== verification/LeaseSpec.thy ===== *)
theory LeaseSpec
  imports Leases
begin

text \<open>
  The abstract specification of the lease ledger and the proof that the manager of
  \<^verbatim>\<open>internal/agent/environment/manager.go\<close> refines it.

  The specification shares only the data of a lease with the manager. It knows a partial function from identifiers to
  the terms a lease was given under and the time it was given back, if it was; it has its own table of refusals, its own
  notion of a lease whose time is over, and answers a collection with the leases that are over, in the order of their
  identifiers. The manager keeps an association list, in an order that nobody promises, of leases that hold the zero
  time while they are not given back. Every history of calls gives the same leases and the same answers.
\<close>

datatype ledger_call =
    CallAcquire lease gotime
  | CallRelease string gotime
  | CallRemove string
  | CallGet string
  | CallCollect gotime

datatype ledger_answer = Lease "lease_error + lease" | Quiet | Collected "lease list"

subsection \<open>The specification\<close>

text \<open>The terms of a lease, without the time of its return, and that time.\<close>

type_synonym spec_lease = "lease \<times> gotime option"

text \<open>What stands against a lease, the weightiest reason first.\<close>

definition refusals :: "(string \<rightharpoonup> spec_lease) \<Rightarrow> lease \<Rightarrow> gotime \<Rightarrow> lease_error list" where
  "refusals M l now = map snd (filter fst
     [(\<exists>t \<in> {lease_id l, run_id l, owner_id l}. trim_space t = [], LeaseIdentityRequired),
      (trim_space (scope_hash l) = [], LeaseScopeRequired),
      (lease_mode l \<notin> {''observe-only'', ''restricted-write''}, LeaseModeUnsupported (lease_mode l)),
      (expires_at l \<le> now, LeaseExpired),
      (\<exists>bound \<in> {q_disk, q_memory, q_cpu, q_procs}. bound (lease_quota l) \<le> 0, LeaseQuotaUnbounded),
      (lease_id l \<in> dom M, LeaseAlreadyExists (lease_id l))])"

text \<open>The terms under which a lease is given: issued now unless its issue is dated.\<close>

definition given_terms :: "lease \<Rightarrow> gotime \<Rightarrow> spec_lease" where
  "given_terms l now = (l\<lparr>issued_at := (if issued_at l = zero_time then now else issued_at l), released_at := zero_time\<rparr>, None)"

text \<open>The first return counts; the zero time stands for none.\<close>

fun given_back :: "gotime \<Rightarrow> spec_lease \<Rightarrow> spec_lease" where
  "given_back now (l, None) = (l, if now = zero_time then None else Some now)"
| "given_back now (l, Some t) = (l, Some t)"

fun shown :: "spec_lease \<Rightarrow> lease" where
  "shown (l, None) = l"
| "shown (l, Some t) = l\<lparr>released_at := t\<rparr>"

fun over :: "gotime \<Rightarrow> spec_lease \<Rightarrow> bool" where
  "over now (l, returned) \<longleftrightarrow> returned \<noteq> None \<or> expires_at l \<le> now"

definition overdue :: "(string \<rightharpoonup> spec_lease) \<Rightarrow> gotime \<Rightarrow> string set" where
  "overdue M now = {i \<in> dom M. over now (the (M i))}"

fun spec_step :: "(string \<rightharpoonup> spec_lease) \<Rightarrow> ledger_call \<Rightarrow> (string \<rightharpoonup> spec_lease) \<times> ledger_answer" where
  "spec_step M (CallAcquire l now) =
     (case refusals M l now of
        e # _ \<Rightarrow> (M, Lease (Inl e))
      | [] \<Rightarrow> (M(lease_id l \<mapsto> given_terms l now), Lease (Inr (shown (given_terms l now)))))"
| "spec_step M (CallRelease i now) =
     (case M i of
        None \<Rightarrow> (M, Lease (Inl LeaseNotFound))
      | Some g \<Rightarrow> (M(i \<mapsto> given_back now g), Lease (Inr (shown (given_back now g)))))"
| "spec_step M (CallRemove i) = (M(i := None), Quiet)"
| "spec_step M (CallGet i) = (M, Lease (case M i of None \<Rightarrow> Inl LeaseNotFound | Some g \<Rightarrow> Inr (shown g)))"
| "spec_step M (CallCollect now) =
     (M |` (- overdue M now), Collected (map (\<lambda>i. shown (the (M i))) (sorted_list_of_set (overdue M now))))"

fun spec_run :: "(string \<rightharpoonup> spec_lease) \<Rightarrow> ledger_call list \<Rightarrow> (string \<rightharpoonup> spec_lease) \<times> ledger_answer list" where
  "spec_run M [] = (M, [])"
| "spec_run M (c # cs) = (let (M1, a) = spec_step M c; (M2, as) = spec_run M1 cs in (M2, a # as))"

subsection \<open>The manager\<close>

fun manager_step :: "manager \<Rightarrow> ledger_call \<Rightarrow> manager \<times> ledger_answer" where
  "manager_step m (CallAcquire l now) = (let (m1, r) = manager_acquire m l now in (m1, Lease r))"
| "manager_step m (CallRelease i now) = (let (m1, r) = manager_release m i now in (m1, Lease r))"
| "manager_step m (CallRemove i) = (manager_remove m i, Quiet)"
| "manager_step m (CallGet i) = (m, Lease (manager_get m i))"
| "manager_step m (CallCollect now) = (let (m1, ls) = manager_gc_expired m now in (m1, Collected ls))"

fun manager_calls :: "manager \<Rightarrow> ledger_call list \<Rightarrow> manager \<times> ledger_answer list" where
  "manager_calls m [] = (m, [])"
| "manager_calls m (c # cs) = (let (m1, a) = manager_step m c; (m2, as) = manager_calls m1 cs in (m2, a # as))"

subsection \<open>Refinement\<close>

lemma manager_step_wf: "wf_manager m \<Longrightarrow> wf_manager (fst (manager_step m c))"
  by (cases c) (simp_all add: Let_def case_prod_unfold wf_manager_acquire wf_manager_release wf_manager_remove wf_manager_gc)

text \<open>What a stored lease stands for, and what a manager stands for.\<close>

definition spec_of :: "lease \<Rightarrow> spec_lease" where
  "spec_of l = (l\<lparr>released_at := zero_time\<rparr>, if released_at l = zero_time then None else Some (released_at l))"

definition ledger_of :: "manager \<Rightarrow> (string \<rightharpoonup> spec_lease)" where
  "ledger_of m = map_option spec_of \<circ> map_of m"

lemma shown_spec_of [simp]: "shown (spec_of l) = l"
  by (cases l) (simp add: spec_of_def)

lemma over_spec_of: "over now (spec_of l) \<longleftrightarrow> gc_due now l"
  by (auto simp: spec_of_def gc_due_def)

lemma given_back_spec_of: "given_back now (spec_of l) = spec_of (mark_released l now)"
  by (simp add: spec_of_def mark_released_def)

lemma given_terms_spec_of:
  "given_terms l now = spec_of ((if issued_at l = zero_time then l\<lparr>issued_at := now\<rparr> else l)\<lparr>released_at := zero_time\<rparr>)"
  by (simp add: given_terms_def spec_of_def)

lemma refusals_validate:
  "refusals (ledger_of m) l now = [] \<longleftrightarrow> validate_lease l now = None \<and> map_of m (lease_id l) = None"
  "validate_lease l now = Some e \<Longrightarrow> \<exists>es. refusals (ledger_of m) l now = e # es"
  "validate_lease l now = None \<Longrightarrow> map_of m (lease_id l) \<noteq> None \<Longrightarrow> refusals (ledger_of m) l now = [LeaseAlreadyExists (lease_id l)]"
  by (auto simp: refusals_def validate_lease_def ledger_of_def not_less split: if_splits)

lemma ledger_of_update: "ledger_of (AList.update i l m) = (ledger_of m)(i \<mapsto> spec_of l)"
  by (rule ext) (simp add: ledger_of_def go_map)

lemma acquire_refines: "spec_step (ledger_of m) (CallAcquire l now)
  = (ledger_of (fst (manager_acquire m l now)), Lease (snd (manager_acquire m l now)))"
proof (cases "validate_lease l now")
  case (Some e)
  obtain es where "refusals (ledger_of m) l now = e # es" using refusals_validate(2) [OF Some] by blast
  then show ?thesis by (simp add: manager_acquire_def Some)
next
  case None
  show ?thesis
  proof (cases "map_of m (lease_id l)")
    case fresh: None
    then have "refusals (ledger_of m) l now = []" using None by (simp add: refusals_validate(1))
    then show ?thesis
      by (simp add: manager_acquire_def None fresh given_terms_spec_of ledger_of_update Let_def)
  next
    case (Some l')
    then have "refusals (ledger_of m) l now = [LeaseAlreadyExists (lease_id l)]" using None by (simp add: refusals_validate(3))
    then show ?thesis by (simp add: manager_acquire_def None Some)
  qed
qed

lemma release_refines: "spec_step (ledger_of m) (CallRelease i now)
  = (ledger_of (fst (manager_release m i now)), Lease (snd (manager_release m i now)))"
proof (cases "map_of m i")
  case (Some l)
  then have i: "ledger_of m i = Some (spec_of l)" by (simp add: ledger_of_def)
  have same: "(ledger_of m)(i := Some (spec_of l)) = ledger_of m" by (rule fun_upd_idem) (rule i)
  show ?thesis
    by (simp add: manager_release_def Some i same given_back_spec_of mark_released_def ledger_of_update Let_def)
qed (simp add: manager_release_def ledger_of_def)

text \<open>A list with distinct keys, sorted by them, is the list of its keys in order, looked up.\<close>

lemma sort_by_key:
  fixes xs :: "('k :: linorder \<times> 'v) list"
  assumes "distinct (map fst xs)" and "\<And>k v. (k, v) \<in> set xs \<Longrightarrow> key v = k"
  shows "sort_key key (map snd xs) = map (\<lambda>k. the (map_of xs k)) (sorted_list_of_set (fst ` set xs))"
proof -
  let ?ys = "sort_key key (map snd xs)"
  have keys: "map key (map snd xs) = map fst xs" using assms(2) by auto
  have "mset (map key ?ys) = mset (map fst xs)" by (simp add: keys [symmetric] del: map_map)
  then have "distinct (map key ?ys)" "set (map key ?ys) = fst ` set xs"
    using assms(1) by (metis mset_eq_imp_distinct_iff, metis list.set_map mset_eq_setD)
  then have "sorted_list_of_set (fst ` set xs) = map key ?ys"
    by (metis sorted_list_of_set.idem_if_sorted_distinct sorted_sort_key)
  moreover have "the (map_of xs (key v)) = v" if "v \<in> set ?ys" for v
    using that assms by fastforce
  then have "map (\<lambda>k. the (map_of xs k)) (map key ?ys) = ?ys" unfolding map_map by (intro map_idI) simp
  ultimately show ?thesis by simp
qed

lemma collect_refines:
  assumes "wf_manager m"
  shows "spec_step (ledger_of m) (CallCollect now)
    = (ledger_of (fst (manager_gc_expired m now)), Collected (snd (manager_gc_expired m now)))"
proof -
  let ?due = "filter (\<lambda>(k, l). gc_due now l) m"
  have d: "distinct (map fst m)" and keys: "(k, l) \<in> set m \<Longrightarrow> lease_id l = k" for k l
    using assms by (auto simp: wf_manager_def)
  have dd: "distinct (map fst ?due)" using d by (simp add: distinct_map_filter)
  have over: "overdue (ledger_of m) now = fst ` set ?due"
  proof (rule set_eqI)
    fix i
    show "i \<in> overdue (ledger_of m) now \<longleftrightarrow> i \<in> fst ` set ?due"
    proof (cases "map_of m i")
      case None
      then have "i \<notin> fst ` set m" by (simp add: map_of_eq_None_iff)
      with None show ?thesis by (auto simp: overdue_def ledger_of_def)
    next
      case (Some l)
      have "l' = l" if "(i, l') \<in> set m" for l' using Some map_of_is_SomeI [OF d that] by simp
      moreover have "i \<in> fst ` set ?due \<longleftrightarrow> (\<exists>l'. (i, l') \<in> set m \<and> gc_due now l')" by (auto simp: image_iff)
      ultimately have "i \<in> fst ` set ?due \<longleftrightarrow> gc_due now l" using map_of_SomeD [OF Some] by blast
      with Some show ?thesis by (simp add: overdue_def ledger_of_def over_spec_of dom_def)
    qed
  qed
  have "(ledger_of m |` (- overdue (ledger_of m) now)) i = ledger_of (filter (\<lambda>(k, l). \<not> gc_due now l) m) i" for i
    by (auto simp: overdue_def ledger_of_def over_spec_of restrict_map_def map_of_filter_keys [OF d] split: option.split)
  then have rest: "ledger_of m |` (- overdue (ledger_of m) now) = ledger_of (filter (\<lambda>(k, l). \<not> gc_due now l) m)" by (rule ext)
  have "shown (the (ledger_of m i)) = the (map_of ?due i)" if w: "i \<in> fst ` set ?due" for i
  proof -
    obtain l where "(i, l) \<in> set ?due" using w by (auto simp: image_iff)
    then have "map_of ?due i = Some l" "map_of m i = Some l" using d dd by (auto intro: map_of_is_SomeI)
    then show ?thesis by (simp add: ledger_of_def)
  qed
  then have "map (\<lambda>i. shown (the (ledger_of m i))) (sorted_list_of_set (fst ` set ?due))
      = map (\<lambda>i. the (map_of ?due i)) (sorted_list_of_set (fst ` set ?due))" by (intro map_cong) simp_all
  also have "\<dots> = sort_key lease_id (map snd ?due)"
    by (rule sort_by_key [symmetric, OF dd]) (use keys in auto)
  finally show ?thesis by (simp only: spec_step.simps manager_gc_expired_def fst_conv snd_conv rest [unfolded over] over)
qed

lemma step_refines:
  "wf_manager m \<Longrightarrow> spec_step (ledger_of m) c = (ledger_of (fst (manager_step m c)), snd (manager_step m c))"
proof (cases c)
  case (CallRemove i)
  then show ?thesis by (auto simp: manager_remove_def ledger_of_def go_map)
next
  case (CallGet i)
  then show ?thesis by (simp add: manager_get_def ledger_of_def split: option.split)
qed (simp_all add: acquire_refines release_refines collect_refines case_prod_unfold Let_def del: spec_step.simps(1,2,5))

lemma calls_refine:
  "wf_manager m \<Longrightarrow> spec_run (ledger_of m) cs = (ledger_of (fst (manager_calls m cs)), snd (manager_calls m cs))"
proof (induction cs arbitrary: m)
  case (Cons c cs)
  obtain m1 a where s: "manager_step m c = (m1, a)" by fastforce
  have "wf_manager m1" using manager_step_wf [OF Cons.prems, of c] s by simp
  from Cons.IH [OF this] step_refines [OF Cons.prems, of c] s show ?case
    by (simp add: Let_def case_prod_unfold)
qed simp

text \<open>C13: Every history of acquisitions, releases, removals, queries and collections gives the leases and exactly the answers of
  the abstract ledger, whose table of refusals, times of return and notion of an overdue lease are its own; in particular the
  order in which the manager stores its leases never shows, and a collection answers in the order of the identifiers.\<close>

theorem manager_refines_ledger:
  "spec_run Map.empty cs = (ledger_of (fst (manager_calls new_manager cs)), snd (manager_calls new_manager cs))"
  using calls_refine [OF wf_new_manager] by (simp add: new_manager_def ledger_of_def)

end
