(* ===== verification/RunnerLoops.thy ===== *)
theory RunnerLoops
  imports Executor
begin

text \<open>
  How work reaches the runner, \<^verbatim>\<open>internal/agent/runner/runner.go\<close>: \<^verbatim>\<open>New\<close>, \<^verbatim>\<open>Start\<close>, the poll loops and
  the claims, and the concurrency of everything that holds an execution slot.

  The execution loop and the agent-runtime loop share the slots. A loop takes a slot without waiting, claims, and either hands
  the slot to a goroutine for the claimed work or gives it back; the goroutine gives it back at its end. \<open>loop_step\<close> is one
  such step, and steps of the loops and of all goroutines interleave freely. What a goroutine does in between is any
  change of the runner that leaves the slots alone.
\<close>

subsection \<open>Configuration\<close>

record loop_config =
  lc_enabled :: bool
  lc_base_url :: string
  lc_token :: string
  lc_agent :: string
  lc_endpoint :: string
  lc_kinds :: "string list"
  lc_buildpacks :: bool
  lc_docker :: bool
  lc_agent_runtime :: bool
  lc_poll :: duration
  lc_docker_poll :: duration
  lc_agent_poll :: duration
  lc_concurrency :: int
  lc_timeout :: duration
  lc_attempts :: int
  lc_backoff :: duration
  lc_worker :: string
  lc_provider_ids :: "string list"
  lc_provider_kinds :: "string list"

text \<open>The clusters that \<^verbatim>\<open>SetSSHExecutor\<close>, \<^verbatim>\<open>SetManifestExecutor\<close> and \<^verbatim>\<open>SetHelmExecutor\<close> have set.\<close>

record loop_clusters =
  cl_ssh :: string
  cl_manifest :: "string option"
  cl_helm :: "(string \<times> string) option"

definition with_defaults :: "loop_config \<Rightarrow> loop_config" where
  "with_defaults c = c\<lparr>
     lc_poll := (if lc_poll c \<le> 0 then 5 * second else lc_poll c),
     lc_concurrency := (if lc_concurrency c \<le> 0 then 1 else lc_concurrency c),
     lc_timeout := (if lc_timeout c \<le> 0 then 30 * minute else lc_timeout c),
     lc_attempts := (if lc_attempts c \<le> 0 then 3 else lc_attempts c),
     lc_backoff := (if lc_backoff c \<le> 0 then 500 * millisecond else lc_backoff c)\<rparr>"

definition new_runner :: "loop_config \<Rightarrow> runner" where
  "new_runner c = \<lparr>rn_capacity = nat (lc_concurrency (with_defaults c)), rn_slots = 0, rn_active = [],
     rn_metrics = \<lparr>rm_execution = zero_metrics, rm_docker = zero_metrics, rm_agent = zero_metrics\<rparr>, rn_reports = []\<rparr>"

datatype loop = TaskLoop | DockerLoop | RegistryLoop | AgentLoop

definition start_loops :: "loop_config \<Rightarrow> loop_clusters \<Rightarrow> loop list" where
  "start_loops c k =
     (if \<not> lc_enabled c \<or> trim_space (lc_base_url c) = [] \<or> trim_space (lc_token c) = [] then []
      else (if lc_kinds c \<noteq> [] \<or> lc_buildpacks c \<or> cl_ssh k \<noteq> [] then [TaskLoop] else [])
        @ (if lc_docker c then [DockerLoop] else [])
        @ (if lc_agent_runtime c then [RegistryLoop, AgentLoop] else []))"

text \<open>The interval between two polls; \<^verbatim>\<open>New\<close> has seen to it that the general interval is positive.\<close>

definition loop_interval :: "duration \<Rightarrow> duration \<Rightarrow> duration" where
  "loop_interval own general =
     (let i = (if own \<le> 0 then general else own) in if i \<le> 0 then 5 * second else i)"

subsection \<open>Claims\<close>

record claim_request =
  cq_agent :: string
  cq_kinds :: "string list"
  cq_endpoint :: string

text \<open>The prefix of the second manifest provider is a constant of another module.\<close>

definition claim_kinds :: "string \<Rightarrow> loop_config \<Rightarrow> loop_clusters \<Rightarrow> string list" where
  "claim_kinds manifest_prefix c k =
     (if lc_buildpacks c then [''buildpacks_runner.'' @ lc_agent c] else lc_kinds c)
     @ (if cl_ssh k \<noteq> [] then [''vm_ssh.'' @ cl_ssh k] else [])
     @ (case cl_manifest k of
          Some cluster \<Rightarrow> if cluster \<noteq> [] then [''manifest_agent.'' @ cluster, manifest_prefix @ cluster] else []
        | None \<Rightarrow> [])"

definition helm_request :: "loop_config \<Rightarrow> loop_clusters \<Rightarrow> claim_request option" where
  "helm_request c k =
     (case cl_helm k of
        Some (cluster, token) \<Rightarrow>
          if cluster = [] \<or> token = [] then None
          else Some \<lparr>cq_agent = lc_agent c, cq_kinds = [''helm_agent.'' @ cluster], cq_endpoint = lc_endpoint c\<rparr>
      | None \<Rightarrow> None)"

definition claim_helm :: "loop_config \<Rightarrow> loop_clusters \<Rightarrow> (claim_request \<Rightarrow> exec_task option) \<Rightarrow> runner \<Rightarrow> exec_task option \<times> runner" where
  "claim_helm c k ask r =
     (case helm_request c k of
        None \<Rightarrow> (None, r)
      | Some q \<Rightarrow>
          (case ask q of
             Some t \<Rightarrow> if task_id t \<noteq> [] then (Some t, mark_claim scope_execution True r)
                      else (None, mark_claim scope_execution False r)
           | None \<Rightarrow> (None, mark_claim scope_execution False r)))"

definition claim_task ::
  "string \<Rightarrow> loop_config \<Rightarrow> loop_clusters \<Rightarrow> bool \<Rightarrow> (claim_request \<Rightarrow> exec_task option) \<Rightarrow> runner \<Rightarrow> exec_task option \<times> runner" where
  "claim_task manifest_prefix c k blocked ask r =
     (if lc_buildpacks c \<and> blocked then (None, r)
      else case claim_helm c k ask r of
        (Some t, r1) \<Rightarrow> (Some t, r1)
      | (None, r1) \<Rightarrow>
          (case ask \<lparr>cq_agent = first_non_empty [trim_space (lc_agent c), ''local-agent''],
              cq_kinds = claim_kinds manifest_prefix c k, cq_endpoint = trim_space (lc_endpoint c)\<rparr> of
             Some t \<Rightarrow> if trim_space (task_id t) = [] then (None, mark_claim scope_execution False r1)
                      else (Some t, mark_claim scope_execution True r1)
           | None \<Rightarrow> (None, mark_claim scope_execution False r1)))"

definition agent_worker :: "loop_config \<Rightarrow> string" where
  "agent_worker c = first_non_empty [trim_space (lc_worker c), trim_space (lc_agent c), ''local-hermes-runner'']"

record agent_claim =
  ac_agent :: string
  ac_ids :: "string list"
  ac_kinds :: "string list"

definition claim_agent_run ::
  "loop_config \<Rightarrow> (agent_claim \<Rightarrow> 'run option) \<Rightarrow> ('run \<Rightarrow> string) \<Rightarrow> runner \<Rightarrow> 'run option \<times> runner" where
  "claim_agent_run c ask ident r =
     (case ask \<lparr>ac_agent = agent_worker c, ac_ids = lc_provider_ids c, ac_kinds = lc_provider_kinds c\<rparr> of
        Some t \<Rightarrow> if trim_space (ident t) = [] then (None, mark_claim scope_agent False r)
                 else (Some t, mark_claim scope_agent True r)
      | None \<Rightarrow> (None, mark_claim scope_agent False r))"

subsection \<open>Interleaving\<close>

text \<open>A loop is waiting for its ticker or in the middle of a claim, holding a slot; a goroutine is known by its claimed work.\<close>

datatype loop_place = Waiting | Claiming

record 'w loops =
  lp_runner :: runner
  lp_task :: loop_place
  lp_agent :: loop_place
  lp_working :: "'w list"

definition slot_neutral :: "(runner \<Rightarrow> runner) \<Rightarrow> bool" where
  "slot_neutral f \<longleftrightarrow> (\<forall>r. rn_slots (f r) = rn_slots r \<and> rn_capacity (f r) = rn_capacity r)"

inductive loop_step :: "'w loops \<Rightarrow> 'w loops \<Rightarrow> bool" where
  task_tick: "lp_task s = Waiting \<Longrightarrow> try_acquire_slot (lp_runner s) = (True, r) \<Longrightarrow>
    loop_step s (s\<lparr>lp_runner := r, lp_task := Claiming\<rparr>)"
| task_full: "lp_task s = Waiting \<Longrightarrow> try_acquire_slot (lp_runner s) = (False, r) \<Longrightarrow>
    loop_step s (s\<lparr>lp_runner := r\<rparr>)"
| task_hit: "lp_task s = Claiming \<Longrightarrow> slot_neutral f \<Longrightarrow>
    loop_step s (s\<lparr>lp_runner := f (lp_runner s), lp_task := Waiting, lp_working := w # lp_working s\<rparr>)"
| task_miss: "lp_task s = Claiming \<Longrightarrow> slot_neutral f \<Longrightarrow>
    loop_step s (s\<lparr>lp_runner := release_slot (f (lp_runner s)), lp_task := Waiting\<rparr>)"
| agent_tick: "lp_agent s = Waiting \<Longrightarrow> try_acquire_slot (lp_runner s) = (True, r) \<Longrightarrow>
    loop_step s (s\<lparr>lp_runner := r, lp_agent := Claiming\<rparr>)"
| agent_full: "lp_agent s = Waiting \<Longrightarrow> try_acquire_slot (lp_runner s) = (False, r) \<Longrightarrow>
    loop_step s (s\<lparr>lp_runner := r\<rparr>)"
| agent_hit: "lp_agent s = Claiming \<Longrightarrow> slot_neutral f \<Longrightarrow>
    loop_step s (s\<lparr>lp_runner := f (lp_runner s), lp_agent := Waiting, lp_working := w # lp_working s\<rparr>)"
| agent_miss: "lp_agent s = Claiming \<Longrightarrow> slot_neutral f \<Longrightarrow>
    loop_step s (s\<lparr>lp_runner := release_slot (f (lp_runner s)), lp_agent := Waiting\<rparr>)"
| work: "w \<in> set (lp_working s) \<Longrightarrow> slot_neutral f \<Longrightarrow> loop_step s (s\<lparr>lp_runner := f (lp_runner s)\<rparr>)"
| finish: "w \<in> set (lp_working s) \<Longrightarrow> slot_neutral f \<Longrightarrow>
    loop_step s (s\<lparr>lp_runner := release_slot (f (lp_runner s)), lp_working := remove1 w (lp_working s)\<rparr>)"

inductive loop_reachable :: "loop_config \<Rightarrow> 'w loops \<Rightarrow> bool" for c where
  start: "loop_reachable c \<lparr>lp_runner = new_runner c, lp_task = Waiting, lp_agent = Waiting, lp_working = []\<rparr>"
| step: "loop_reachable c s \<Longrightarrow> loop_step s t \<Longrightarrow> loop_reachable c t"

inductive_cases loop_stepE: "loop_step s t"

subsection \<open>What the goroutines do leaves the slots alone\<close>

named_theorems slot_simps \<open>operations that leave the slots alone\<close>

lemma slots_mark [slot_simps]:
  "rn_slots (with_scope scope f r) = rn_slots r" "rn_capacity (with_scope scope f r) = rn_capacity r"
  by (simp_all add: with_scope_def Let_def)

lemma slots_retry [slot_simps]:
  "rn_slots (snd (retry_loop scope status stamp calls n a r)) = rn_slots r"
  "rn_capacity (snd (retry_loop scope status stamp calls n a r)) = rn_capacity r"
  by (induction scope status stamp calls n a r rule: retry_loop.induct)
    (auto simp: Let_def metric_marks slots_mark split: call_outcome.splits)

lemma slots_with_retry [slot_simps]:
  "rn_slots (snd (with_callback_retry cfg scope status stamp calls r)) = rn_slots r"
  "rn_capacity (snd (with_callback_retry cfg scope status stamp calls r)) = rn_capacity r"
  unfolding with_callback_retry_def by (rule slots_retry)+

lemma slots_callback [slot_simps]:
  "rn_slots (snd (task_callback cfg registry secrets scope status payload stamp calls r)) = rn_slots r"
  "rn_capacity (snd (task_callback cfg registry secrets scope status payload stamp calls r)) = rn_capacity r"
  by (simp_all add: task_callback_def Let_def case_prod_unfold slot_simps
      del: redact_value.simps split: option.split)

lemma slots_tasks [slot_simps]:
  "rn_slots (update_active_task i f now r) = rn_slots r" "rn_capacity (update_active_task i f now r) = rn_capacity r"
  "rn_slots (register_active_task t now r) = rn_slots r" "rn_capacity (register_active_task t now r) = rn_capacity r"
  "rn_slots (unregister_active_task i r) = rn_slots r" "rn_capacity (unregister_active_task i r) = rn_capacity r"
  "rn_slots (snd (cancel_active_task i reason now r)) = rn_slots r"
  "rn_capacity (snd (cancel_active_task i reason now r)) = rn_capacity r"
  by (simp_all add: update_active_task_def register_active_task_def unregister_active_task_def cancel_active_task_def
      Let_def split: option.split)

definition same_slots :: "exec \<Rightarrow> exec \<Rightarrow> bool" where
  "same_slots x y \<longleftrightarrow> rn_slots (ex_runner y) = rn_slots (ex_runner x) \<and> rn_capacity (ex_runner y) = rn_capacity (ex_runner x)"

lemma same_slots_basic [slot_simps]:
  "same_slots x (snd (send_report p status payload stamp calls x))"
  "same_slots x (update_task p now f x)" "same_slots x (put_stop s x)" "same_slots x (end_ctx c x)"
  "same_slots x x" "same_slots x (x\<lparr>ex_stop := z\<rparr>)"
  by (simp_all add: same_slots_def send_report_def update_task_def put_stop_def end_ctx_def Let_def case_prod_unfold slot_simps)

lemma same_slots_trans: "same_slots x y \<Longrightarrow> same_slots y z \<Longrightarrow> same_slots x z"
  by (simp add: same_slots_def)

lemma same_slots_event: "same_slots x (on_event p hb x ev)"
proof (cases ev)
  case (EvCancel i reason now)
  have "same_slots x (x\<lparr>ex_runner := snd (cancel_active_task i reason now (ex_runner x))\<rparr>)"
    by (simp add: same_slots_def slot_simps)
  then show ?thesis using same_slots_trans [OF _ same_slots_basic(4)] by (simp add: EvCancel Let_def case_prod_unfold)
next
  case (EvHeartbeat calls stamp)
  then show ?thesis
    using same_slots_basic(1) [of x p "''running''" hb stamp calls] same_slots_trans [OF same_slots_basic(1) same_slots_basic(3)]
    by (simp add: Let_def case_prod_unfold split: option.split)
next
  case (EvPoll s now)
  then show ?thesis using same_slots_trans [OF same_slots_basic(2) same_slots_basic(3)] by (simp add: slot_simps)
qed (simp_all add: slot_simps)

lemma same_slots_events [slot_simps]: "same_slots x (task_events p hb evs x)"
proof (induction evs arbitrary: x)
  case (Cons ev evs)
  have "task_events p hb (ev # evs) x = task_events p hb evs (on_event p hb x ev)" by (simp add: task_events_def)
  then show ?case using same_slots_trans [OF same_slots_event Cons] by simp
qed (simp add: task_events_def slot_simps)

lemma same_slots_outcome [slot_simps]: "same_slots x (outcome_report p status payload stamp calls x)"
  using same_slots_basic(1) [of x p status payload stamp calls]
  by (simp add: outcome_report_def same_slots_def mark_outcome_def slot_simps Let_def)

lemma same_slots_reports [slot_simps]:
  "same_slots x (cancel_report p ws e x)" "same_slots x (timeout_report p c ws e x)"
  "same_slots x (failure_report p c ws err e x)" "same_slots x (prepare_failure p pe err x)"
  using same_slots_trans [OF same_slots_basic(2) same_slots_outcome]
  by (simp_all add: cancel_report_def timeout_report_def failure_report_def prepare_failure_def Let_def case_prod_unfold)

lemma same_slots_branch:
  "same_slots x (snd a) \<Longrightarrow> same_slots x (snd b) \<Longrightarrow> same_slots x (snd (if c then a else b))"
  "same_slots x y \<Longrightarrow> same_slots x (snd (u, y))"
  "same_slots x y \<Longrightarrow> same_slots x z \<Longrightarrow> same_slots x (if c then y else z)"
  "(\<And>e. same_slots x (snd (f e))) \<Longrightarrow> same_slots x (snd a) \<Longrightarrow> same_slots x (snd (case o' of Some e \<Rightarrow> f e | None \<Rightarrow> a))"
  by (simp_all split: option.split)

lemma same_slots_command: "same_slots x (snd (execute_task_command p c ws k n e x))"
proof -
  have send: "same_slots x (snd (send_report p st pl sp ca x))" for st pl sp ca x by (rule same_slots_basic)
  let ?hb = "extend_map (heartbeat_payload (agent_id (xp_cfg p)) c (k + 1) n (ce_stamp e)) [(''workspacePath'', VStr ws)]"
  let ?p1 = "extend_map (heartbeat_payload (agent_id (xp_cfg p)) c (k + 1) n (ce_stamp e))
    [(''workspacePath'', VStr ws), (''pipelineStage'', VStr (command_pipeline_stage c))]"
  let ?p2 = "extend_map (heartbeat_payload (agent_id (xp_cfg p)) c (k + 1) n (ce_stamp e))
    [(''logs'', VStrs (command_logs c e)), (''workspacePath'', VStr ws), (''pipelineStage'', VStr (command_pipeline_stage c))]"
  let ?x1 = "update_task p (ce_now e) (\<lambda>a. a\<lparr>at_status := ''running'', at_command := c,
        at_index := k + 1, at_count := n, at_workspace := ws\<rparr>) x"
  let ?x2 = "snd (send_report p ''running'' ?p1 (ce_stamp e) (ce_first e) ?x1)"
  let ?x3 = "task_events p ?hb (ce_before e) ?x2"
  let ?x4 = "task_events p ?hb (ce_during e) (?x3\<lparr>ex_stop := None\<rparr>)"
  let ?x5 = "snd (send_report p ''running'' ?p2 (ce_stamp e) (ce_second e) ?x4)"
  let ?x6 = "task_events p ?hb (ce_after e) ?x5"
  have 3: "same_slots x ?x3"
    by (rule same_slots_trans [OF same_slots_trans [OF same_slots_basic(2) send] same_slots_events])
  have 6: "same_slots x ?x6"
    by (rule same_slots_trans [OF same_slots_trans [OF same_slots_trans [OF same_slots_trans [OF 3 same_slots_basic(6)]
      same_slots_events] send] same_slots_events])
  note reports = same_slots_trans [OF 6 same_slots_reports(1)] same_slots_trans [OF 6 same_slots_reports(2)]
    same_slots_trans [OF 6 same_slots_reports(3)]
  show ?thesis unfolding execute_task_command_def Let_def case_prod_unfold
    by (rule same_slots_branch 3 6 reports)+
qed

lemma same_slots_commands: "same_slots x (snd (run_commands p ws k steps cs env x))"
proof (induction cs arbitrary: k x)
  case (Cons c cs)
  obtain go y where y: "execute_task_command p c ws (int k) steps (env k) x = (go, y)" by fastforce
  then have "same_slots x y" using same_slots_command [of x p c ws "int k" steps "env k"] by simp
  with Cons.IH [of y "Suc k"] y show ?case by (auto intro: same_slots_trans)
qed (simp add: slot_simps)

lemma same_slots_prepare: "same_slots x (snd (prepare_step p e x))"
proof -
  let ?x1 = "update_task p (pe_now e) (\<lambda>a. a\<lparr>at_status := ''preparing''\<rparr>) x"
  let ?x2 = "task_events p [] (pe_during e) ?x1"
  let ?x21 = "update_task p (pe_now e) (\<lambda>a. a\<lparr>at_status := ''running'', at_workspace := pe_path e\<rparr>) ?x2"
  let ?x22 = "snd (send_report p ''running''
                     [(''logs'', VStrs (pe_logs e)), (''agentId'', VStr (agent_id (xp_cfg p))),
                      (''workspacePath'', VStr (pe_path e)), (''heartbeatAt'', VStr (pe_stamp e))]
                     (pe_stamp e) (pe_calls e) ?x21)"
  have 2: "same_slots x ?x2" by (rule same_slots_trans [OF same_slots_basic(2) same_slots_events])
  have 3: "same_slots x (task_events p [] (pe_after e) ?x22)"
    by (rule same_slots_trans [OF same_slots_trans [OF same_slots_trans [OF 2 same_slots_basic(2)] same_slots_basic(1)] same_slots_events])
  show ?thesis
  proof (cases "pe_logs e = []")
    case True
    then show ?thesis unfolding prepare_step_def Let_def case_prod_unfold if_P [OF True] fst_conv snd_conv
      by (intro same_slots_branch 2 same_slots_trans [OF 2 same_slots_reports(4)])
  next
    case False
    show ?thesis unfolding prepare_step_def Let_def case_prod_unfold if_not_P [OF False] fst_conv snd_conv
      by (intro same_slots_branch 3 same_slots_trans [OF 3 same_slots_reports(4)])
  qed
qed

lemma same_slots_run: "same_slots x (run_task p commands e env fin x)"
proof -
  obtain ready x1 where 1: "prepare_step p e x = (ready, x1)" by fastforce
  obtain go x2 where 2: "run_commands p (pe_path e) 0 (int (length commands)) commands env x1 = (go, x2)" by fastforce
  have a: "same_slots x x1" using same_slots_prepare [of x p e] 1 by simp
  have b: "same_slots x1 x2" using same_slots_commands [of x1 p "pe_path e" 0 "int (length commands)" commands env] 2 by simp
  have "same_slots x (outcome_report p s pl st ca (update_task p now f x2))" for s pl st ca now f
    by (rule same_slots_trans [OF same_slots_trans [OF same_slots_trans [OF a b] same_slots_basic(2)] same_slots_outcome])
  then show ?thesis using a same_slots_trans [OF a b] by (simp add: run_task_def 1 2 Let_def)
qed

lemma execute_task_slots: "slot_neutral (execute_task p redeemed e env fin)"
  unfolding slot_neutral_def
proof (intro allI)
  fix r :: runner
  let ?x0 = "\<lparr>ex_runner = mark_started scope_execution r, ex_ctx = CtxLive, ex_stop = None\<rparr>"
  have x0: "rn_slots (ex_runner ?x0) = rn_slots r" "rn_capacity (ex_runner ?x0) = rn_capacity r"
    by (simp_all add: mark_started_def slot_simps)
  have out: "rn_slots (ex_runner (outcome_report q s pl st ca ?x0)) = rn_slots r
      \<and> rn_capacity (ex_runner (outcome_report q s pl st ca ?x0)) = rn_capacity r" for q s pl st ca
    using same_slots_outcome [of ?x0 q s pl st ca] x0 by (simp add: same_slots_def)
  have run: "rn_slots (ex_runner (run_task q cs e env fin (?x0\<lparr>ex_runner := register_active_task t now (ex_runner ?x0)\<rparr>))) = rn_slots r
      \<and> rn_capacity (ex_runner (run_task q cs e env fin (?x0\<lparr>ex_runner := register_active_task t now (ex_runner ?x0)\<rparr>))) = rn_capacity r" for q cs t now
    using same_slots_run [of "?x0\<lparr>ex_runner := register_active_task t now (ex_runner ?x0)\<rparr>" q cs e env fin] x0
    by (simp add: same_slots_def slot_simps)
  show "rn_slots (execute_task p redeemed e env fin r) = rn_slots r \<and> rn_capacity (execute_task p redeemed e env fin r) = rn_capacity r"
    using out run by (simp add: execute_task_def Let_def slot_simps split: sum.split)
qed

subsection \<open>The invariant of the slots\<close>

definition claiming :: "'w loops \<Rightarrow> nat" where
  "claiming s = (if lp_task s = Claiming then 1 else 0) + (if lp_agent s = Claiming then 1 else 0)"

definition slots_ok :: "loop_config \<Rightarrow> 'w loops \<Rightarrow> bool" where
  "slots_ok c s \<longleftrightarrow> rn_capacity (lp_runner s) = nat (lc_concurrency (with_defaults c))
     \<and> rn_slots (lp_runner s) = claiming s + length (lp_working s)
     \<and> rn_slots (lp_runner s) \<le> rn_capacity (lp_runner s)"

lemma try_acquire_cases:
  "try_acquire_slot r = (got, r') \<Longrightarrow> got \<and> rn_slots r' = Suc (rn_slots r) \<and> Suc (rn_slots r) \<le> rn_capacity r \<and> rn_capacity r' = rn_capacity r
     \<or> \<not> got \<and> r' = r \<and> rn_capacity r \<le> rn_slots r"
  by (auto simp: try_acquire_slot_def split: if_splits)

lemma release_slot_counts: "rn_slots (release_slot r) = rn_slots r - 1" "rn_capacity (release_slot r) = rn_capacity r"
  by (simp_all add: release_slot_def)

lemma loop_step_slots: "loop_step s t \<Longrightarrow> slots_ok c s \<Longrightarrow> slots_ok c t"
proof (induction rule: loop_step.induct)
  case (finish w s f)
  then have "0 < length (lp_working s)" by (cases "lp_working s") auto
  with finish show ?case
    by (auto simp: slots_ok_def claiming_def slot_neutral_def release_slot_counts length_remove1)
qed (auto simp: slots_ok_def claiming_def slot_neutral_def release_slot_counts dest: try_acquire_cases)

lemma loop_reachable_slots: "loop_reachable c s \<Longrightarrow> slots_ok c s"
proof (induction rule: loop_reachable.induct)
  case start
  show ?case by (simp add: slots_ok_def claiming_def new_runner_def)
next
  case (step s t)
  show ?case by (rule loop_step_slots [OF step.hyps(2) step.IH])
qed

text \<open>C14: whatever the loops and the goroutines of the claimed work do and however they interleave, the number of executions at
  a time is bounded by the configured concurrency, and slots are neither lost nor taken twice: a loop gets
  a slot exactly when claims in progress and running goroutines together leave one.\<close>

theorem executions_bounded:
  assumes "loop_reachable c s"
  shows "claiming s + length (lp_working s) \<le> nat (lc_concurrency (with_defaults c))
    \<and> (fst (try_acquire_slot (lp_runner s))
        = (claiming s + length (lp_working s) < nat (lc_concurrency (with_defaults c))))"
  using loop_reachable_slots [OF assms] by (simp add: slots_ok_def try_acquire_slot_def)

definition sample_loops :: loop_config where
  "sample_loops = \<lparr>lc_enabled = True, lc_base_url = ''u'', lc_token = ''t'', lc_agent = ''a'', lc_endpoint = [],
     lc_kinds = [''k''], lc_buildpacks = False, lc_docker = False, lc_agent_runtime = False, lc_poll = 0,
     lc_docker_poll = 0, lc_agent_poll = 0, lc_concurrency = 0, lc_timeout = 0, lc_attempts = 0, lc_backoff = 0,
     lc_worker = [], lc_provider_ids = [], lc_provider_kinds = []\<rparr>"

theorem executions_bounded_witness:
  "\<exists>s :: string loops. loop_reachable sample_loops s \<and> lp_working s = [''task''] \<and> \<not> fst (try_acquire_slot (lp_runner s))"
proof -
  let ?s0 = "\<lparr>lp_runner = new_runner sample_loops, lp_task = Waiting, lp_agent = Waiting, lp_working = []\<rparr> :: string loops"
  have n: "rn_slots (new_runner sample_loops) = 0" "rn_capacity (new_runner sample_loops) = 1"
    by (simp_all add: new_runner_def with_defaults_def sample_loops_def)
  obtain r where r: "try_acquire_slot (new_runner sample_loops) = (True, r)"
    using n by (simp add: try_acquire_slot_def)
  let ?s1 = "?s0\<lparr>lp_runner := r, lp_task := Claiming\<rparr>"
  let ?s2 = "?s1\<lparr>lp_runner := r, lp_task := Waiting, lp_working := ''task'' # lp_working ?s1\<rparr>"
  have 1: "loop_step ?s0 ?s1" by (rule task_tick) (simp_all add: r)
  have 2: "loop_step ?s1 ?s2"
    using task_hit [of ?s1 "\<lambda>r. r" "''task''"] by (simp add: slot_neutral_def)
  have reach: "loop_reachable sample_loops ?s2"
    by (rule loop_reachable.step [OF loop_reachable.step [OF loop_reachable.start 1] 2])
  have "claiming ?s2 = 0" "length (lp_working ?s2) = 1" "nat (lc_concurrency (with_defaults sample_loops)) = 1"
    by (simp_all add: claiming_def with_defaults_def sample_loops_def)
  with executions_bounded [OF reach] have "\<not> fst (try_acquire_slot (lp_runner ?s2))" by simp
  moreover have "lp_working ?s2 = [''task'']" by simp
  ultimately show ?thesis using reach by blast
qed

text \<open>A claim hands out only work with an identifier; it asks for Helm work first, asks for nothing while a failed
  build blocks the runner, and counts one hit for work and a miss for every request that brought none.\<close>

theorem claim_task_spec:
  fixes r :: runner
  shows "case claim_task prefix c k blocked ask r of (found, r') \<Rightarrow>
    (case found of
       Some t \<Rightarrow> \<not> (lc_buildpacks c \<and> blocked) \<and> task_id t \<noteq> []
         \<and> ms_claims (rm_execution (rn_metrics r')) = ms_claims (rm_execution (rn_metrics r)) + 1
     | None \<Rightarrow> ms_claims (rm_execution (rn_metrics r')) = ms_claims (rm_execution (rn_metrics r)))
    \<and> rn_slots r' = rn_slots r
    \<and> ((lc_buildpacks c \<and> blocked) = (found = None \<and> r' = r))"
proof -
  have m: "rn_slots (mark_claim scope_execution b q) = rn_slots q"
    "ms_claims (rm_execution (rn_metrics (mark_claim scope_execution b q))) = ms_claims (rm_execution (rn_metrics q)) + (if b then 1 else 0)"
    "ms_misses (rm_execution (rn_metrics (mark_claim scope_execution b q))) = ms_misses (rm_execution (rn_metrics q)) + (if b then 0 else 1)"
    for b and q :: runner by (simp_all add: mark_claim_def with_scope_def Let_def)
  have ne: "mark_claim scope_execution False q \<noteq> q" "mark_claim scope_execution False (mark_claim scope_execution False q) \<noteq> q" for q :: runner
    using m(3) [of False q] m(3) [of False "mark_claim scope_execution False q"] by auto
  have blank: "trim_space [] = []" by simp
  show ?thesis
  proof (cases "lc_buildpacks c \<and> blocked")
    case True
    then show ?thesis by (simp add: claim_task_def)
  next
    case False
    obtain found r1 where h: "claim_helm c k ask r = (found, r1)" by fastforce
    then have 1: "found = None \<and> (r1 = r \<or> r1 = mark_claim scope_execution False r)
        \<or> (\<exists>t. found = Some t \<and> task_id t \<noteq> [] \<and> r1 = mark_claim scope_execution True r)"
      by (auto simp: claim_helm_def split: option.splits if_splits)
    show ?thesis
    proof (cases found)
      case (Some t)
      with 1 False h m show ?thesis by (auto simp: claim_task_def)
    next
      case None
      with 1 False h m ne blank show ?thesis by (auto simp: claim_task_def split: option.splits)
    qed
  qed
qed

end
