(* ===== verification/GoRunes.thy ===== *)
theory GoRunes
  imports SohaPrelude
begin

text \<open>
  Runes of Go strings, \<^verbatim>\<open>[]rune(s)\<close> and \<^verbatim>\<open>unicode/utf8\<close>. A string is its bytes; \<open>runes s\<close> is the list of its runes, each as
  the bytes \<^verbatim>\<open>string(r)\<close> writes for it. A byte that starts no valid encoding is one rune, the replacement character.
\<close>

subsection \<open>Decoding\<close>

definition byte_in :: "nat \<Rightarrow> nat \<Rightarrow> char \<Rightarrow> bool" where
  "byte_in lo hi c \<longleftrightarrow> lo \<le> (of_char c :: nat) \<and> (of_char c :: nat) \<le> hi"

abbreviation continuation :: "char \<Rightarrow> bool" where "continuation \<equiv> byte_in 128 191"

definition second_byte :: "char \<Rightarrow> char \<Rightarrow> bool" where
  "second_byte c d = (let n = (of_char c :: nat) in
     if n = 224 then byte_in 160 191 d
     else if n = 237 then byte_in 128 159 d
     else if n = 240 then byte_in 144 191 d
     else if n = 244 then byte_in 128 143 d
     else continuation d)"

text \<open>The number of bytes of the first rune, 0 when the first byte starts no valid encoding.\<close>

fun rune_width :: "string \<Rightarrow> nat" where
  "rune_width [] = 0"
| "rune_width (c # s) =
     (if byte_in 0 127 c then 1
      else if byte_in 194 223 c then (case s of d # _ \<Rightarrow> if second_byte c d then 2 else 0 | _ \<Rightarrow> 0)
      else if byte_in 224 239 c then
        (case s of d # e # _ \<Rightarrow> if second_byte c d \<and> continuation e then 3 else 0 | _ \<Rightarrow> 0)
      else if byte_in 240 244 c then
        (case s of d # e # f # _ \<Rightarrow> if second_byte c d \<and> continuation e \<and> continuation f then 4 else 0 | _ \<Rightarrow> 0)
      else 0)"

declare rune_width.simps(2) [simp del]

definition replacement_rune :: string where
  "replacement_rune = [CHR 0xEF, CHR 0xBF, CHR 0xBD]"

function runes :: "string \<Rightarrow> string list" where
  "runes [] = []"
| "runes (c # s) =
     (if rune_width (c # s) = 0 then replacement_rune # runes s
      else take (rune_width (c # s)) (c # s) # runes (drop (rune_width (c # s)) (c # s)))"
  by pat_completeness auto
termination by (relation "measure length") auto

declare runes.simps(2) [simp del]

definition rune_length :: "string \<Rightarrow> nat" where
  "rune_length s = length (runes s)"

text \<open>\<^verbatim>\<open>string([]rune(s)[:n])\<close>\<close>

definition take_runes :: "nat \<Rightarrow> string \<Rightarrow> string" where
  "take_runes n s = concat (take n (runes s))"

text \<open>\<^verbatim>\<open>utf8.ValidString\<close>\<close>

function valid_utf8 :: "string \<Rightarrow> bool" where
  "valid_utf8 [] = True"
| "valid_utf8 (c # s) = (if rune_width (c # s) = 0 then False else valid_utf8 (drop (rune_width (c # s)) (c # s)))"
  by pat_completeness auto
termination by (relation "measure length") auto

declare valid_utf8.simps(2) [simp del]

subsection \<open>Laws\<close>

lemma rune_width_le: "rune_width s \<le> length s"
  by (cases s) (auto simp: rune_width.simps(2) split: list.splits)

lemma runes_valid: "valid_utf8 s \<Longrightarrow> concat (runes s) = s"
proof (induction s rule: valid_utf8.induct)
  case (2 c s)
  then have w: "rune_width (c # s) \<noteq> 0" and "concat (runes (drop (rune_width (c # s)) (c # s))) = drop (rune_width (c # s)) (c # s)"
    by (simp_all add: valid_utf8.simps(2) split: if_splits)
  then show ?case by (simp add: runes.simps(2))
qed simp

lemma take_runes_valid: "valid_utf8 s \<Longrightarrow> has_prefix s (take_runes n s)"
proof -
  assume "valid_utf8 s"
  then have "s = take_runes n s @ concat (drop n (runes s))"
    unfolding take_runes_def by (metis append_take_drop_id concat_append runes_valid)
  then show ?thesis by (metis has_prefix_append)
qed

lemma length_runes_le: "rune_length s \<le> length s"
proof -
  have "length (runes s) \<le> length s"
  proof (induction s rule: runes.induct)
    case (2 c s)
    show ?case
    proof (cases "rune_width (c # s) = 0")
      case False
      have "length (runes (drop (rune_width (c # s)) (c # s))) \<le> length (drop (rune_width (c # s)) (c # s))"
        by (rule 2(2) [OF False])
      with False show ?thesis by (simp add: runes.simps(2))
    qed (use 2(1) in \<open>simp add: runes.simps(2)\<close>)
  qed simp
  then show ?thesis by (simp add: rune_length_def)
qed

text \<open>Text of single bytes is cut like a list.\<close>

definition ascii :: "string \<Rightarrow> bool" where
  "ascii s \<longleftrightarrow> list_all (byte_in 0 127) s"

lemma runes_ascii_Cons: "byte_in 0 127 c \<Longrightarrow> runes (c # s) = [c] # runes s"
  by (simp add: runes.simps(2) rune_width.simps(2))

lemma runes_ascii_append: "ascii s \<Longrightarrow> runes (s @ t) = map (\<lambda>c. [c]) s @ runes t"
  by (induction s) (auto simp: ascii_def runes_ascii_Cons)

lemma runes_ascii: "ascii s \<Longrightarrow> runes s = map (\<lambda>c. [c]) s"
  using runes_ascii_append [of s "[]"] by simp

lemma take_runes_ascii: "ascii s \<Longrightarrow> take_runes n s = take n s"
  by (simp add: take_runes_def runes_ascii take_map concat_map_singleton)

lemma rune_length_ascii: "ascii s \<Longrightarrow> rune_length s = length s"
  by (simp add: rune_length_def runes_ascii)

text \<open>Bytes of a rune of several bytes are no ASCII bytes.\<close>

lemma continuation_high: "continuation c \<Longrightarrow> \<not> byte_in 0 127 c"
  by (simp add: byte_in_def)

lemma second_byte_high: "second_byte c d \<Longrightarrow> \<not> byte_in 0 127 d"
  by (auto simp: second_byte_def Let_def byte_in_def split: if_splits)

lemma long_rune_bytes:
  assumes "rune_width s \<noteq> 0" "rune_width s \<noteq> 1" "c \<in> set (take (rune_width s) s)"
  shows "\<not> byte_in 0 127 c"
proof -
  obtain d t where s: "s = d # t" using assms(1) by (cases s) auto
  from assms show ?thesis
    by (auto simp: s rune_width.simps(2) take_Cons' split: if_splits list.splits dest!: second_byte_high continuation_high)
qed

lemma replacement_bytes: "c \<in> set replacement_rune \<Longrightarrow> \<not> byte_in 0 127 c"
  by (auto simp: replacement_rune_def byte_in_def)

end
