(* ===== verification/AgentRuns.thy ===== *)
theory AgentRuns
  imports RunnerState RunnerPayload ProviderRegistry GoRunes GoPath
begin

text \<open>
  Agent runs, \<^verbatim>\<open>internal/agent/runner/runner.go\<close> and \<^verbatim>\<open>chat_tools.go\<close>: reports to the control plane, heartbeats, tool
  calls and their grants, the executor of a provider's command line, and the artifact built from its output. The
  executor of conversations is in \<open>HermesChat\<close>, the whole run in \<open>AgentJobs\<close>.

  The world of a run holds the runner, the registry of providers and the logs of what left the agent. The answers of the
  control plane, of commands and of the Hermes server are parameters that may depend on everything so far. What arrives
  beside a run, a heartbeat tick or a tool call from the Hermes server, is handled at the points named by \<open>happen\<close>.
\<close>

subsection \<open>Data\<close>

record chat_input =
  ch_question :: string
  ch_context :: string
  ch_history :: "(string \<times> string) list"

text \<open>\<open>ag_pin\<close> is what decoding the entry \<^verbatim>\<open>_sohaProvider\<close> of the input gives: the pinned version and catalog.\<close>

record agent_run =
  ag_id :: string
  ag_token :: string
  ag_provider :: string
  ag_kind :: string
  ag_capability :: string
  ag_skills :: "string list"
  ag_scope :: gvalue
  ag_toolset :: gvalue
  ag_tools :: "gmap list"
  ag_skill_bindings :: "gmap list"
  ag_input :: gmap
  ag_timeout :: int
  ag_grant :: "secret_grant option"
  ag_chat :: "chat_input option"
  ag_pin :: "(string \<times> 64 word) option"

record agent_credentials = command_spec +
  cr_endpoint :: string
  cr_bearer :: string
  cr_ca :: string

text \<open>\<open>ac_worker\<close> is \<^verbatim>\<open>agentRuntimeWorkerID\<close> of the configuration.\<close>

record agent_config =
  ac_runner :: runner_config
  ac_worker :: string
  ac_workspace :: string
  ac_hermes :: string
  ac_providers :: "(string \<times> agent_credentials) list"

record chat_event =
  cv_type :: string
  cv_id :: string
  cv_message :: string
  cv_text :: string

record agent_report =
  gr_status :: string
  gr_payload :: gvalue
  gr_tools :: gvalue
  gr_artifacts :: gvalue
  gr_external :: string
  gr_error :: string
  gr_events :: "chat_event list"
  gr_delivered :: bool

text \<open>A tool call names the run and its callback token; the agent's id is the same in all of a runner's requests.\<close>

record tool_request =
  tq_run :: string
  tq_token :: string
  tq_binding :: string
  tq_adapter :: string
  tq_tool :: string
  tq_input :: gmap

record tool_answer =
  ta_run :: string
  ta_execution :: gvalue
  ta_output :: gvalue

record chat_grant =
  cg_run :: agent_run
  cg_calls :: nat
  cg_done :: bool

record hermes_request =
  hq_method :: string
  hq_path :: string
  hq_body :: "gvalue option"
  hq_key :: string
  hq_session :: string

record agent_world =
  aw_runner :: runner
  aw_registry :: registry
  aw_reports :: "agent_report list"
  aw_requests :: "hermes_request list"
  aw_tools :: "tool_request list"
  aw_grants :: "(string \<times> chat_grant) list"
  aw_commands :: "(string \<times> string \<times> string list) list"
  aw_beating :: bool
  aw_stop :: "string option"

text \<open>The input of a tool call: the tool, the size of its encoding unless that fails, the fields of the inner input, and for
  a change of a delivery the inner tool and the fields of the change.\<close>

record chat_tool_input =
  ci_tool :: string
  ci_size :: "nat option"
  ci_fields :: gmap
  ci_inner :: string
  ci_change :: "gmap option"

text \<open>The last argument of a call says whether the caller has gone.\<close>

datatype arrival = Beat | Call string chat_tool_input bool

datatype http_answer = NoAnswer | Answered int string bool

datatype task_context = TaskLive | TaskCanceled | TaskDeadline

text \<open>The parameters. \<open>ah_callback\<close> gives the attempts of the next report, \<open>ah_pending\<close> whether its answer carries
  \<^verbatim>\<open>cancellationPending\<close>; \<open>ah_hermes\<close> is the Hermes server; \<open>ah_json\<close> decodes an object, \<open>ah_prompt\<close> is the
  prompt built from a run; \<open>ah_grant_key\<close> the random text of a new grant.\<close>

record agent_host =
  ah_num :: "rat \<Rightarrow> string"
  ah_secret_text :: "string \<Rightarrow> string list"
  ah_redeem :: "string \<Rightarrow> string \<Rightarrow> string \<Rightarrow> string + redemption"
  ah_secret_error :: "secret_error \<Rightarrow> string"
  ah_run_error :: "run_error \<Rightarrow> string"
  ah_quote :: "string \<Rightarrow> string"
  ah_now :: "agent_world \<Rightarrow> gotime"
  ah_stamp :: "agent_world \<Rightarrow> string"
  ah_callback :: "agent_world \<Rightarrow> nat \<Rightarrow> call_outcome"
  ah_pending :: "agent_world \<Rightarrow> bool"
  ah_arrivals :: "agent_world \<Rightarrow> arrival list"
  ah_tool :: "agent_world \<Rightarrow> tool_request \<Rightarrow> tool_answer option"
  ah_command :: "agent_world \<Rightarrow> string list \<times> string option"
  ah_abs :: "string \<Rightarrow> string + string"
  ah_mkdir :: "agent_world \<Rightarrow> string \<Rightarrow> string option"
  ah_json :: "string \<Rightarrow> gmap option"
  ah_prompt :: "agent_run \<Rightarrow> string"
  ah_context :: "agent_world \<Rightarrow> task_context"
  ah_hermes :: "agent_world \<Rightarrow> http_answer"
  ah_grant_key :: "agent_world \<Rightarrow> string"

subsection \<open>Reports\<close>

definition local_agent :: "agent_config \<Rightarrow> string" where
  "local_agent c = first_non_empty [trim_space (rc_agent (ac_runner c)), ''local-agent'']"

definition safe_text :: "agent_host \<Rightarrow> secret_values \<Rightarrow> string \<Rightarrow> string" where
  "safe_text h secrets s =
     (if secrets = [] then redact_text s else redact_secret_text (ah_secret_text h) secrets (redact_text s))"

definition safe_value :: "agent_host \<Rightarrow> secret_values \<Rightarrow> gvalue \<Rightarrow> gvalue" where
  "safe_value h secrets v = redact_secret_value (ah_secret_text h) secrets (redact_value v)"

text \<open>A report with its attempts; the answer counts when it names a run.\<close>

definition deliver :: "agent_host \<Rightarrow> agent_config \<Rightarrow> agent_report \<Rightarrow> agent_world \<Rightarrow> (string \<times> string) option \<times> agent_world" where
  "deliver h c rep w =
     (let (answer, r1) = with_callback_retry (ac_runner c) scope_agent (gr_status rep) (ah_stamp h w) (ah_callback h w) (aw_runner w)
      in (answer, w\<lparr>aw_runner := r1, aw_reports := aw_reports w @ [rep\<lparr>gr_delivered := (answer \<noteq> None)\<rparr>]\<rparr>))"

definition agent_report_of ::
  "agent_host \<Rightarrow> secret_values \<Rightarrow> string \<Rightarrow> gmap \<Rightarrow> gmap list \<Rightarrow> gmap list \<Rightarrow> string \<Rightarrow> string \<Rightarrow> agent_report" where
  "agent_report_of h secrets status payload tools artifacts external err =
     \<lparr>gr_status = status, gr_payload = safe_value h secrets (VMap payload), gr_tools = safe_value h secrets (VMaps tools),
      gr_artifacts = safe_value h secrets (VMaps artifacts), gr_external = safe_text h secrets external,
      gr_error = safe_text h secrets err, gr_events = [], gr_delivered = False\<rparr>"

definition named_answer :: "(string \<times> string) option \<Rightarrow> (string \<times> string) option" where
  "named_answer a = (case a of None \<Rightarrow> None | Some (i, s) \<Rightarrow> if trim_space i = [] then None else Some (i, s))"

text \<open>The report of an acknowledgement carries \<^verbatim>\<open>cancellationAcknowledged\<close>, so that its own answer asks for no other one.\<close>

definition acknowledge_agent :: "agent_host \<Rightarrow> agent_config \<Rightarrow> secret_values \<Rightarrow> string \<Rightarrow> agent_world \<Rightarrow> agent_world" where
  "acknowledge_agent h c secrets status w =
     (if status = ''canceled'' \<or> status = ''cancelled''
      then snd (deliver h c (agent_report_of h secrets ''canceled'' [(''cancellationAcknowledged'', VBool True)] [] [] [] []) w)
      else w)"

definition agent_callback ::
  "agent_host \<Rightarrow> agent_config \<Rightarrow> secret_values \<Rightarrow> string \<Rightarrow> gmap \<Rightarrow> gmap list \<Rightarrow> gmap list \<Rightarrow> string \<Rightarrow> string \<Rightarrow>
   agent_world \<Rightarrow> (string \<times> string) option \<times> agent_world" where
  "agent_callback h c secrets status payload tools artifacts external err w =
     (let (answer, w1) = deliver h c (agent_report_of h secrets status payload tools artifacts external err) w in
      case named_answer answer of
        None \<Rightarrow> (None, w1)
      | Some (i, s) \<Rightarrow>
          (Some (i, s),
           if should_stop_local status \<and> map_get payload ''cancellationAcknowledged'' \<noteq> VBool True \<and> s = ''canceled'' \<and> ah_pending h w
           then acknowledge_agent h c secrets s w1 else w1))"

subsection \<open>Tool calls\<close>

abbreviation max_chat_calls :: nat where "max_chat_calls \<equiv> 8"

definition tool_call :: "agent_host \<Rightarrow> agent_run \<Rightarrow> gmap \<Rightarrow> gmap \<Rightarrow> agent_world \<Rightarrow> tool_answer option \<times> agent_world" where
  "tool_call h run binding input w =
     (let req = \<lparr>tq_run = ag_id run, tq_token = ag_token run, tq_binding = text_field (ah_num h) binding ''id'', tq_adapter = text_field (ah_num h) binding ''adapterId'',
        tq_tool = text_field (ah_num h) binding ''toolName'', tq_input = input\<rparr>;
        w1 = w\<lparr>aw_tools := aw_tools w @ [req]\<rparr>
      in case ah_tool h w req of
           None \<Rightarrow> (None, w1)
         | Some a \<Rightarrow> (if trim_space (ta_run a) = [] then None else Some a, w1))"

definition begin_grant :: "agent_host \<Rightarrow> agent_run \<Rightarrow> agent_world \<Rightarrow> string \<times> agent_world" where
  "begin_grant h run w =
     (if ag_tools run = [] then ([], w)
      else let key = ''soha-tools:'' @ ah_grant_key h w in
        (key, w\<lparr>aw_grants := AList.update key \<lparr>cg_run = run, cg_calls = 0, cg_done = False\<rparr> (aw_grants w)\<rparr>))"

definition end_grant :: "string \<Rightarrow> agent_world \<Rightarrow> agent_world" where
  "end_grant key w = (if key = [] then w else w\<lparr>aw_grants := AList.delete key (aw_grants w)\<rparr>)"

definition chat_fields :: "string list" where
  "chat_fields = [''query'', ''clusterId'', ''namespace'', ''nodeName'', ''limit'', ''title'', ''artifactKind'', ''format'',
     ''content'', ''baselineCitationId'', ''serviceName'']"

definition chat_arguments :: "chat_tool_input \<Rightarrow> gmap" where
  "chat_arguments i =
     map (\<lambda>k. (k, map_get (ci_fields i) k)) chat_fields
     @ (case ci_change i of
          None \<Rightarrow> []
        | Some change \<Rightarrow>
            [(''toolName'', VStr (ci_inner i)),
             (''arguments'', VMap (map (\<lambda>k. (k, map_get change k))
                (if ci_inner i = ''delivery.applications.create'' then [''name'', ''key'', ''description'', ''enabled'']
                 else [''applicationId'', ''applicationEnvironmentId'', ''action''])))])"

text \<open>The first binding whose tool is the one asked for; the comparison is with the text as it stands.\<close>

definition bound_tool :: "agent_host \<Rightarrow> agent_run \<Rightarrow> string \<Rightarrow> gmap option" where
  "bound_tool h run tool = find (\<lambda>b. sprint (ah_num h) (map_get b ''toolName'') = tool) (ag_tools run)"

definition call_chat_tool ::
  "agent_host \<Rightarrow> string \<Rightarrow> chat_tool_input \<Rightarrow> bool \<Rightarrow> agent_world \<Rightarrow> (string + tool_answer) \<times> agent_world" where
  "call_chat_tool h key input gone w =
     (let denied = Inl ''agent tool grant is invalid or exhausted'' in
      case map_of (aw_grants w) key of
        None \<Rightarrow> (denied, w)
      | Some g \<Rightarrow>
          if cg_done g \<or> max_chat_calls \<le> cg_calls g \<or> gone then (denied, w)
          else let w1 = w\<lparr>aw_grants := AList.update key (g\<lparr>cg_calls := cg_calls g + 1\<rparr>) (aw_grants w)\<rparr> in
            if (case ci_size input of None \<Rightarrow> True | Some n \<Rightarrow> 16384 < n) \<or> trim_space (ci_tool input) = [] then (denied, w1)
            else case bound_tool h (cg_run g) (ci_tool input) of
              None \<Rightarrow> (denied, w1)
            | Some binding \<Rightarrow>
                (case tool_call h (cg_run g) binding (chat_arguments input) w1 of
                   (None, w2) \<Rightarrow> (Inl ''soha tool call was denied or failed'', w2)
                 | (Some a, w2) \<Rightarrow> (Inr a, w2)))"

subsection \<open>What arrives beside a run\<close>

text \<open>One tick of \<^verbatim>\<open>streamAgentRunHeartbeats\<close>. The goroutine ends with the run or with the first status that stops it.\<close>

definition beat_agent :: "agent_host \<Rightarrow> agent_config \<Rightarrow> secret_values \<Rightarrow> agent_run \<Rightarrow> agent_world \<Rightarrow> agent_world" where
  "beat_agent h c secrets run w =
     (if \<not> aw_beating w then w
      else case agent_callback h c secrets ''running''
          [(''agentId'', VStr (local_agent c)), (''workerId'', VStr (ac_worker c)), (''heartbeatAt'', VStr (ah_stamp h w)),
           (''providerId'', VStr (ag_provider run)), (''capabilityId'', VStr (ag_capability run))] [] [] [] [] w of
        (Some (i, s), w1) \<Rightarrow>
          if should_stop_local s then w1\<lparr>aw_beating := False, aw_stop := Some (trim_space s)\<rparr> else w1
      | (None, w1) \<Rightarrow> w1)"

fun arrive :: "agent_host \<Rightarrow> agent_config \<Rightarrow> secret_values \<Rightarrow> agent_run \<Rightarrow> agent_world \<Rightarrow> arrival \<Rightarrow> agent_world" where
  "arrive h c secrets run w Beat = beat_agent h c secrets run w"
| "arrive h c secrets run w (Call key input gone) = snd (call_chat_tool h key input gone w)"

definition happen_agent :: "agent_host \<Rightarrow> agent_config \<Rightarrow> secret_values \<Rightarrow> agent_run \<Rightarrow> agent_world \<Rightarrow> agent_world" where
  "happen_agent h c secrets run w = foldl (arrive h c secrets run) w (ah_arrivals h w)"

subsection \<open>Commands of providers\<close>

definition provider_key :: "agent_run \<Rightarrow> string" where
  "provider_key run = to_lower (first_non_empty [trim_space (ag_kind run), trim_space (ag_provider run)])"

definition no_command :: command_spec where
  "no_command = \<lparr>cs_command = [], cs_args = [], cs_prompt = [], cs_skill = [], cs_provider_skill = []\<rparr>"

definition normalize_spec :: "agent_credentials \<Rightarrow> command_spec" where
  "normalize_spec s = \<lparr>cs_command = trim_space (cs_command s), cs_args = compact_strings (cs_args s),
     cs_prompt = trim_space (cs_prompt s), cs_skill = trim_space (cs_skill s),
     cs_provider_skill = trim_space (cs_provider_skill s)\<rparr>"

definition hermes_override :: "agent_config \<Rightarrow> provider \<Rightarrow> command_spec \<Rightarrow> command_spec" where
  "hermes_override c p s =
     (if trim_space (ac_hermes c) \<noteq> [] \<and> pv_kind p = ''hermes'' then s\<lparr>cs_command := trim_space (ac_hermes c)\<rparr> else s)"

definition command_spec_of :: "agent_config \<Rightarrow> registry \<Rightarrow> string \<Rightarrow> command_spec" where
  "command_spec_of c r key0 =
     (let key = to_lower (trim_space key0);
          fallback = (case default_provider key of
            None \<Rightarrow> no_command | Some p \<Rightarrow> hermes_override c p (pv_default p))
      in if key = [] then no_command
         else case map_of (ac_providers c) key of
           Some s \<Rightarrow> normalize_spec s
         | None \<Rightarrow>
             (case resolve_provider r key [] of
                Some p \<Rightarrow>
                  if \<not> pv_draining p \<and> pr_kind (pv_runtime p) = ''cli'' then hermes_override c p (provider_command p)
                  else fallback
              | None \<Rightarrow> fallback))"

fun distinct_refs :: "string list \<Rightarrow> string list \<Rightarrow> string list" where
  "distinct_refs seen [] = []"
| "distinct_refs seen (v # vs) =
     (if v = [] \<or> v \<in> set seen then distinct_refs seen vs else v # distinct_refs (v # seen) vs)"

definition skill_refs :: "(rat \<Rightarrow> string) \<Rightarrow> gmap list \<Rightarrow> string list" where
  "skill_refs ft bindings = distinct_refs [] (map (\<lambda>b. text_field ft b ''providerSkillRef'') bindings)"

definition command_skills :: "(rat \<Rightarrow> string) \<Rightarrow> agent_run \<Rightarrow> command_spec \<Rightarrow> string list" where
  "command_skills ft run s =
     (if trim_space (cs_provider_skill s) = [] \<and> skill_refs ft (ag_skill_bindings run) \<noteq> []
      then skill_refs ft (ag_skill_bindings run) else compact_strings (ag_skills run))"

definition command_provider_skills :: "(rat \<Rightarrow> string) \<Rightarrow> agent_run \<Rightarrow> command_spec \<Rightarrow> string list" where
  "command_provider_skills ft run s =
     (if skill_refs ft (ag_skill_bindings run) \<noteq> [] then skill_refs ft (ag_skill_bindings run)
      else if trim_space (cs_skill s) = [] then compact_strings (ag_skills run) else [])"

definition provider_args :: "(rat \<Rightarrow> string) \<Rightarrow> agent_run \<Rightarrow> command_spec \<Rightarrow> string \<Rightarrow> string list" where
  "provider_args ft run s prompt =
     (let p = trim_space (cs_prompt s); k = trim_space (cs_skill s); v = trim_space (cs_provider_skill s) in
      cs_args s @ (if p = [] then [prompt] else [p, prompt])
      @ (if k = [] then [] else concat (map (\<lambda>x. [k, x]) (compact_strings (command_skills ft run s))))
      @ (if v = [] then [] else concat (map (\<lambda>x. [v, x]) (command_provider_skills ft run s))))"

subsection \<open>Read-only context\<close>

definition prefetch_tools :: "string list" where
  "prefetch_tools = [''events.query'', ''logs.query'', ''metrics.query'', ''traces.query'', ''delivery.releases.list'',
     ''delivery.builds.list'', ''delivery.execution_tasks.list'', ''platform.resources.snapshot'', ''docker.operations.list'',
     ''docker.services.list'', ''virtualization.operations.list'', ''alerts.list'', ''oncall.routes.resolve'']"

definition prefetchable :: "(rat \<Rightarrow> string) \<Rightarrow> gmap \<Rightarrow> bool" where
  "prefetchable ft binding \<longleftrightarrow> text_field ft binding ''toolName'' \<in> set prefetch_tools"

fun prefetch_context :: "agent_host \<Rightarrow> agent_run \<Rightarrow> gmap list \<Rightarrow> tool_answer list \<Rightarrow> agent_world \<Rightarrow> tool_answer list \<times> agent_world" where
  "prefetch_context h run [] items w = (items, w)"
| "prefetch_context h run (b # bs) items w =
     (if 3 \<le> length items then (items, w)
      else if \<not> prefetchable (ah_num h) b then prefetch_context h run bs items w
      else case tool_call h run b [(''limit'', VInt 20)] w of
        (None, w1) \<Rightarrow> prefetch_context h run bs items w1
      | (Some a, w1) \<Rightarrow> prefetch_context h run bs (items @ [a]) w1)"

definition tool_results :: "tool_answer list \<Rightarrow> gmap list" where
  "tool_results items = map (\<lambda>a. [(''runId'', VStr (ta_run a)), (''toolExecution'', ta_execution a), (''output'', ta_output a)]) items"

definition with_context :: "agent_run \<Rightarrow> tool_answer list \<Rightarrow> agent_run" where
  "with_context run items =
     (if items = [] then run
      else run\<lparr>ag_input := AList.update ''toolContextRule'' (VStr ''Use prefetchedToolResults as soha-controlled read-only evidence. Do not call soha data sources directly.'')
        (AList.update ''prefetchedToolResults'' (VMaps (tool_results items)) (ag_input run))\<rparr>)"

subsection \<open>Output\<close>

definition join_output :: "string list \<Rightarrow> string" where
  "join_output logs =
     join_with [CHR 0x0A] (filter (\<lambda>t. t \<noteq> [] \<and> \<not> has_prefix t ''$ '') (map trim_space logs))"

definition summarize_output :: "string \<Rightarrow> string" where
  "summarize_output text =
     (let t = trim_space text in
      if t = [] then [] else if rune_length t \<le> 600 then t else take_runes 600 t @ ''...'')"

definition parse_output :: "(string \<Rightarrow> gmap option) \<Rightarrow> string \<Rightarrow> gmap" where
  "parse_output json text =
     (let t = trim_space text in
      if t = [] \<or> \<not> has_prefix t ''{'' then [] else case json t of None \<Rightarrow> [] | Some m \<Rightarrow> m)"

text \<open>What the command printed as JSON replaces entries of the output, those of the runner included.\<close>

definition overlay :: "gmap \<Rightarrow> gmap \<Rightarrow> gmap" where
  "overlay base m = foldl (\<lambda>b (k, v). AList.update k v b) base m"

definition agent_output :: "agent_host \<Rightarrow> agent_run \<Rightarrow> tool_answer list \<Rightarrow> string list \<Rightarrow> gmap" where
  "agent_output h run items logs =
     (let raw = trim_space (join_output logs);
          base = [(''provider'', VStr (ag_provider run)), (''providerKind'', VStr (ag_kind run)),
            (''capabilityId'', VStr (ag_capability run)), (''skillIds'', VStrs (ag_skills run)), (''logs'', VStrs logs)]
            @ (if items = [] then [] else [(''prefetchedToolResults'', VMaps (tool_results items))])
            @ (if raw = [] then [] else [(''rawOutput'', VStr raw), (''summary'', VStr (summarize_output raw))])
      in overlay base (parse_output (ah_json h) raw))"

subsection \<open>The executor of a provider\<close>

type_synonym agent_result = "gmap \<times> string list \<times> string option"

definition provider_failure :: "agent_run \<Rightarrow> string \<Rightarrow> agent_result" where
  "provider_failure run err = ([(''provider'', VStr (ag_provider run)), (''capabilityId'', VStr (ag_capability run)), (''error'', VStr err)], [], Some err)"

definition provider_label :: "agent_host \<Rightarrow> agent_run \<Rightarrow> string" where
  "provider_label h run = ah_quote h (first_non_empty [ag_provider run, ag_kind run])"

definition execute_cli ::
  "agent_host \<Rightarrow> agent_config \<Rightarrow> secret_values \<Rightarrow> agent_run \<Rightarrow> command_spec \<Rightarrow> agent_world \<Rightarrow> agent_result \<times> agent_world" where
  "execute_cli h c secrets run0 spec w =
     (let command = trim_space (cs_command spec) in
      if command = [] then (provider_failure run0 (''agent provider '' @ provider_label h run0 @ '' command is not configured''), w)
      else
        let (items, w1) = prefetch_context h run0 (ag_tools run0) [] w;
            run = with_context run0 items;
            args = provider_args (ah_num h) run spec (ah_prompt h run);
            place = (if trim_space (ac_workspace c) = [] then ''.soha/agent-runtime'' else trim_space (ac_workspace c))
        in case ah_abs h place of
             Inl e \<Rightarrow> (([], [], Some (''resolve agent runtime workspace: '' @ e)), w1)
           | Inr start \<Rightarrow>
               (case resolve_workspace_path start (ag_id run) of
                  None \<Rightarrow>
                    (([], [], Some ((if is_abs (ag_id run) then ''absolute workspace paths are not allowed: ''
                                     else ''workspace path escapes root: '') @ ag_id run)), w1)
                | Some dir \<Rightarrow>
                    (case ah_mkdir h w1 dir of
                       Some e \<Rightarrow> (([], [], Some (''create agent runtime workspace: '' @ e)), w1)
                     | None \<Rightarrow>
                         let w2 = happen_agent h c secrets run (w1\<lparr>aw_commands := aw_commands w1 @ [(dir, command, args)]\<rparr>);
                             (logs, err) = ah_command h w2
                         in ((agent_output h run items logs, logs, err), w2))))"

definition execute_provider ::
  "agent_host \<Rightarrow> agent_config \<Rightarrow> secret_values \<Rightarrow> agent_run \<Rightarrow> agent_world \<Rightarrow> agent_result \<times> agent_world" where
  "execute_provider h c secrets run w =
     (let key = provider_key run; spec = command_spec_of c (aw_registry w) key in
      if key \<noteq> ''hermes'' \<and> trim_space (cs_command spec) = []
      then (provider_failure run (''agent provider '' @ provider_label h run @ '' is not configured on this runner''), w)
      else case resolve_provider (aw_registry w) key [] of
        None \<Rightarrow> execute_cli h c secrets run spec w
      | Some _ \<Rightarrow>
          (case acquire_provider key [] None (ah_now h w) (aw_registry w) of
             (Inl e, r) \<Rightarrow>
               (([(''provider'', VStr key), (''error'', VStr (ah_run_error h e))], [], Some (ah_run_error h e)), w\<lparr>aw_registry := r\<rparr>)
           | (Inr p, r) \<Rightarrow>
               let (result, w1) = execute_cli h c secrets run spec (w\<lparr>aw_registry := r\<rparr>) in
               (result, w1\<lparr>aw_registry := release_provider (pv_id p) (ah_now h w1) (aw_registry w1)\<rparr>)))"

subsection \<open>Artifacts\<close>

text \<open>The entries a snapshot lacks are added; Go adds them to the map inside the output itself.\<close>

definition add_missing :: "gmap \<Rightarrow> gmap \<Rightarrow> gmap" where
  "add_missing m entries = foldl (\<lambda>b (k, v). if map_of b k = None then b @ [(k, v)] else b) m entries"

definition snapshot_of :: "agent_run \<Rightarrow> gmap \<Rightarrow> string list \<Rightarrow> gmap" where
  "snapshot_of run output logs =
     add_missing (case map_value (map_get output ''dataSourceSnapshot'') of None \<Rightarrow> [] | Some m \<Rightarrow> m)
       ([(''providerId'', VStr (ag_provider run)), (''providerKind'', VStr (ag_kind run)), (''capabilityId'', VStr (ag_capability run)),
         (''skillIds'', VStrs (ag_skills run)), (''toolset'', ag_toolset run), (''logCount'', VInt (int (length logs)))]
        @ (if ag_tools run = [] then [] else [(''toolBindings'', VMaps (ag_tools run))])
        @ (if ag_skill_bindings run = [] then [] else [(''skillBindings'', VMaps (ag_skill_bindings run))]))"

text \<open>An output whose snapshot is shared with the artifact shows the entries added to it.\<close>

definition share_snapshot :: "gmap \<Rightarrow> gmap \<Rightarrow> gmap" where
  "share_snapshot output snap =
     (if map_value (map_get output ''dataSourceSnapshot'') = None then output
      else AList.update ''dataSourceSnapshot'' (VMap snap) output)"

definition tool_execution :: "agent_run \<Rightarrow> string \<Rightarrow> string \<Rightarrow> string \<Rightarrow> string \<Rightarrow> gmap \<Rightarrow> gmap" where
  "tool_execution run started_at completed_at status summary output =
     (let label = first_non_empty [ag_kind run, ag_provider run] in
      [(''id'', VStr (''tool:'' @ ag_id run)), (''adapterId'', VStr (''agent.'' @ label)), (''toolName'', VStr (label @ ''.analysis'')),
       (''status'', VStr status), (''summary'', VStr summary),
       (''input'', VMap ([(''capabilityId'', VStr (ag_capability run)), (''skillIds'', VStrs (ag_skills run)), (''scope'', ag_scope run)]
          @ (if ag_tools run = [] then [] else [(''toolBindings'', VMaps (ag_tools run))])
          @ (if ag_skill_bindings run = [] then [] else [(''skillBindings'', VMaps (ag_skill_bindings run))]))),
       (''output'', VMap output), (''startedAt'', VStr started_at), (''completedAt'', VStr completed_at)])"

definition artifact_of :: "(rat \<Rightarrow> string) \<Rightarrow> agent_run \<Rightarrow> gmap \<Rightarrow> gmap \<Rightarrow> gmap list \<Rightarrow> gmap" where
  "artifact_of ft run output snap tools =
     (let summary = first_non_empty [string_map_value ft output ''summary'', string_map_value ft output ''rawOutput''] in
      [(''kind'', VStr (first_non_empty [ag_capability run, ''agent_analysis''])), (''runId'', VStr (ag_id run)),
       (''title'', VStr (first_non_empty [ag_capability run, ''agent''] @ '' analysis'')),
       (''summary'', VStr (if summary = [] then ag_capability run @ '' analysis completed by '' @ ag_provider run else summary)),
       (''scope'', ag_scope run), (''evidence'', VMaps (value_as_maps (map_get output ''evidence''))),
       (''hypotheses'', VMaps (value_as_maps (map_get output ''hypotheses''))),
       (''recommendations'', VStrs (first_non_empty_slice
          [value_as_strings ft (map_get output ''recommendations''), value_as_strings ft (map_get output ''nextSteps'')])),
       (''toolExecutions'', VMaps (value_as_maps (map_get output ''toolExecutions'') @ tools)),
       (''graph'', VMap (case map_value (map_get output ''graph'') of None \<Rightarrow> [] | Some m \<Rightarrow> m)),
       (''dataSourceSnapshot'', VMap snap)])"

text \<open>The output of a failed run as \<^verbatim>\<open>agentRunFailedArtifact\<close> hands it on.\<close>

definition failed_output :: "(rat \<Rightarrow> string) \<Rightarrow> agent_run \<Rightarrow> gmap \<Rightarrow> string \<Rightarrow> string \<Rightarrow> gmap" where
  "failed_output ft run output status err =
     (let base = (case map_value (map_get output ''dataSourceSnapshot'') of None \<Rightarrow> [] | Some m \<Rightarrow> m) in
      overlay output
        [(''summary'', VStr (first_non_empty [ag_capability run, ''agent''] @ '' analysis '' @ status @ '': '' @ err)),
         (''recommendations'', VStrs (first_non_empty_slice [value_as_strings ft (map_get output ''recommendations''),
            [''Review the agent runtime logs, provider configuration, skill binding, and tool binding context before retrying.'']])),
         (''dataSourceSnapshot'', VMap (overlay base [(''status'', VStr status), (''error'', VStr err)]))])"

end
