(* ===== verification/AgentJobs.thy ===== *)
theory AgentJobs
  imports HermesChat
begin

text \<open>
  The whole of an agent run, \<^verbatim>\<open>executeAgentRun\<close> and \<^verbatim>\<open>finishAgentChatRun\<close> of \<^verbatim>\<open>internal/agent/runner\<close>: the secret lease, the
  report of the start, the executor beside the heartbeats, and the final report. \<open>ah_context\<close> is the state of the
  run's context when the executor has returned.
\<close>

definition agent_executor ::
  "agent_host \<Rightarrow> agent_config \<Rightarrow> hermes_decoders \<Rightarrow> secret_values \<Rightarrow> agent_run \<Rightarrow> agent_world \<Rightarrow> agent_result \<times> agent_world" where
  "agent_executor h c d secrets run w =
     (if ag_capability run = ''general''
      then (case execute_chat h c d secrets run w of
              (Inl e, w1) \<Rightarrow> (([], [], Some e), w1)
            | (Inr out, w1) \<Rightarrow> ((out, [], None), w1))
      else execute_provider h c secrets run w)"

definition mark_agent :: "string \<Rightarrow> agent_world \<Rightarrow> agent_world" where
  "mark_agent status w = w\<lparr>aw_runner := mark_outcome scope_agent status (aw_runner w)\<rparr>"

definition finish_chat_run ::
  "agent_host \<Rightarrow> agent_config \<Rightarrow> secret_values \<Rightarrow> agent_run \<Rightarrow> gmap \<Rightarrow> string option \<Rightarrow> agent_world \<Rightarrow> agent_world" where
  "finish_chat_run h c secrets run output err w =
     (if ah_context h w = TaskCanceled then mark_agent ''canceled'' w
      else
        let (status, message, out) = (case err of
              None \<Rightarrow> (''completed'', [], output)
            | Some e \<Rightarrow>
                if ah_context h w = TaskDeadline then (''callback_timeout'', ''external agent timed out'', [])
                else if e = ''context canceled'' then (''canceled'', ''external agent cancelled'', [])
                else (''failed'', ''external agent failed'', []))
        in mark_agent status
             (snd (agent_callback h c secrets status out [] [] (string_map_value (ah_num h) out ''externalRunId'') message w)))"

definition safe_output :: "gmap \<Rightarrow> gmap" where
  "safe_output output = (case redact_value (VMap output) of VMap m \<Rightarrow> m | _ \<Rightarrow> [])"

definition agent_base :: "agent_config \<Rightarrow> agent_run \<Rightarrow> gmap" where
  "agent_base c run = [(''agentId'', VStr (local_agent c)), (''workerId'', VStr (ac_worker c)), (''providerId'', VStr (ag_provider run))]"

definition run_seconds :: "agent_run \<Rightarrow> int" where
  "run_seconds run = (if ag_timeout run \<le> 0 then 600 else ag_timeout run)"

definition fail_run ::
  "agent_host \<Rightarrow> agent_config \<Rightarrow> secret_values \<Rightarrow> agent_run \<Rightarrow> string \<Rightarrow> agent_result \<Rightarrow> string \<Rightarrow> agent_world \<Rightarrow> agent_world" where
  "fail_run h c secrets run started_at result err w =
     (let (output, logs, _) = result;
          late = ah_context h w = TaskDeadline;
          status = (if late then ''callback_timeout'' else ''failed'');
          message = redact_text (if late then ''agent run timed out after '' @ show_int (run_seconds run) @ '' seconds'' else err);
          lines = redact_logs logs;
          out = safe_output output;
          handed = failed_output (ah_num h) run out status message;
          snap = snapshot_of run handed lines;
          tool = tool_execution run started_at (ah_stamp h w) status message (share_snapshot out snap);
          art = artifact_of (ah_num h) run handed snap [tool]
      in mark_agent status
           (snd (agent_callback h c secrets status (agent_base c run @ [(''logs'', VStrs lines), (''error'', VStr message)])
             [tool] [art] [] message w)))"

definition complete_run ::
  "agent_host \<Rightarrow> agent_config \<Rightarrow> secret_values \<Rightarrow> agent_run \<Rightarrow> string \<Rightarrow> agent_result \<Rightarrow> agent_world \<Rightarrow> agent_world" where
  "complete_run h c secrets run started_at result w =
     (let (output, logs, _) = result;
          stamp = ah_stamp h w;
          text = (\<lambda>k. string_map_value (ah_num h) output k);
          snap = snapshot_of run output logs;
          tool = tool_execution run started_at stamp ''completed''
            (first_non_empty [ag_kind run, ag_provider run, ''provider''] @ '' agent run completed'') (share_snapshot output snap);
          art = artifact_of (ah_num h) run output snap [tool]
      in mark_agent ''completed''
           (snd (agent_callback h c secrets ''completed''
             (agent_base c run @ [(''completedAt'', VStr stamp), (''summary'', VStr (first_non_empty [text ''summary'', text ''rawOutput''])),
               (''rawOutput'', VStr (text ''rawOutput'')), (''logs'', VStrs logs)])
             [tool] [art] (first_non_empty [text ''externalRunId'', ag_id run]) [] w)))"

text \<open>The executor beside the heartbeats, and what follows it. Nothing is counted for a run that the control plane stopped.\<close>

definition run_agent ::
  "agent_host \<Rightarrow> agent_config \<Rightarrow> hermes_decoders \<Rightarrow> secret_values \<Rightarrow> agent_run \<Rightarrow> string \<Rightarrow> agent_world \<Rightarrow> agent_world" where
  "run_agent h c d secrets run started_at w =
     (let (result, w1) = agent_executor h c d secrets run (happen_agent h c secrets run (w\<lparr>aw_beating := True\<rparr>));
          w2 = (happen_agent h c secrets run w1)\<lparr>aw_beating := False\<rparr>
      in case aw_stop w2 of
           Some status \<Rightarrow> acknowledge_agent h c secrets status w2
         | None \<Rightarrow>
             if ag_capability run = ''general'' then finish_chat_run h c secrets run (fst result) (snd (snd result)) w2
             else case snd (snd result) of
               Some err \<Rightarrow> fail_run h c secrets run started_at result err w2
             | None \<Rightarrow> complete_run h c secrets run started_at result w2)"

definition execute_agent_run ::
  "agent_host \<Rightarrow> agent_config \<Rightarrow> hermes_decoders \<Rightarrow> agent_run \<Rightarrow> agent_world \<Rightarrow> agent_world" where
  "execute_agent_run h c d run w0 =
     (let w = w0\<lparr>aw_runner := mark_started scope_agent (aw_runner w0), aw_beating := False, aw_stop := None\<rparr> in
      case redeem_secret_lease (ah_redeem h) (ag_grant run) (ac_worker c) (ah_now h w) [] of
        Inl e \<Rightarrow>
          mark_agent ''failed'' (snd (agent_callback h c [] ''failed''
            [(''agentId'', VStr (ac_worker c)), (''workerId'', VStr (ac_worker c)), (''error'', VStr (ah_secret_error h e))]
            [] [] [] (ah_secret_error h e) w))
      | Inr secrets \<Rightarrow>
          let run1 = run\<lparr>ag_grant := None\<rparr>; started_at = ah_stamp h w0 in
          (case agent_callback h c secrets ''running''
              [(''agentId'', VStr (local_agent c)), (''workerId'', VStr (ac_worker c)), (''heartbeatAt'', VStr started_at),
               (''providerId'', VStr (ag_provider run))] [] [] [] [] w of
             (Some (i, s), w1) \<Rightarrow>
               if should_stop_local s then acknowledge_agent h c secrets s w1 else run_agent h c d secrets run1 started_at w1
           | (None, w1) \<Rightarrow> run_agent h c d secrets run1 started_at w1))"

end
