(* ===== verification/AgentSafety.thy ===== *)
theory AgentSafety
  imports AgentJobs
begin

text \<open>
  What holds of agent runs: the text a conversation publishes, the calls of tools, the requests to the Hermes server, the runs
  a provider is charged with. The lemmas follow the layers of the model: text, one report, one arrival, the stream, the
  executors.
\<close>

subsection \<open>Text\<close>

text \<open>A text cut at a rune shows no text of single bytes that the whole does not show.\<close>

lemma contains_append_other:
  assumes "contains (a @ b) t" and "t \<noteq> []" and "\<And>x. x \<in> set a \<Longrightarrow> x \<notin> set t"
  shows "contains b t"
  using assms
proof (induction a)
  case (Cons x a)
  then have "\<not> has_prefix (x # a @ b) t" by (cases t) auto
  with Cons show ?case by auto
qed simp

lemma contains_suffix: "contains b t \<Longrightarrow> contains (a @ b) t"
  by (induction a) auto

lemma contains_prefix: "contains a t \<Longrightarrow> contains (a @ b) t"
  unfolding contains_iff by (metis append.assoc)

lemma ascii_other: "ascii t \<Longrightarrow> (\<And>x. x \<in> set a \<Longrightarrow> \<not> byte_in 0 127 x) \<Longrightarrow> x \<in> set a \<Longrightarrow> x \<notin> set t"
  by (auto simp: ascii_def list_all_iff)

lemma take_runes_Cons:
  "take_runes (Suc n) (c # s) =
     (if rune_width (c # s) = 0 then replacement_rune @ take_runes n s
      else take (rune_width (c # s)) (c # s) @ take_runes n (drop (rune_width (c # s)) (c # s)))"
  by (simp add: take_runes_def runes.simps(2))

lemma take_runes_has_prefix:
  "ascii t \<Longrightarrow> has_prefix (take_runes n s) t \<Longrightarrow> has_prefix s t"
proof (induction t arbitrary: n s)
  case (Cons x t)
  obtain m where n: "n = Suc m" using Cons.prems(2) by (cases n) (auto simp: take_runes_def)
  obtain c r where s: "s = c # r" using Cons.prems(2) by (cases s) (auto simp: take_runes_def)
  have x: "byte_in 0 127 x" "ascii t" using Cons.prems(1) by (auto simp: ascii_def)
  show ?case
  proof (cases "rune_width s = 1")
    case True
    with Cons.prems(2) have "x = c" "has_prefix (take_runes m r) t" by (simp_all add: n s take_runes_Cons)
    with Cons.IH [OF x(2)] show ?thesis by (simp add: s)
  next
    case False
    have "\<exists>y ys z. take_runes n s = (y # ys) @ z \<and> \<not> byte_in 0 127 y"
    proof (cases "rune_width s = 0")
      case True
      have "byte_in 0 127 CHR 0xEF \<longleftrightarrow> False" by (simp add: byte_in_def)
      with True show ?thesis by (auto simp: n s take_runes_Cons replacement_rune_def)
    next
      case wide: False
      then obtain w where w: "rune_width s = Suc w" by (cases "rune_width s") auto
      have "c \<in> set (take (rune_width s) s)" unfolding w unfolding s by simp
      with long_rune_bytes [OF wide False] have "\<not> byte_in 0 127 c" by blast
      with w show ?thesis by (auto simp: n s take_runes_Cons)
    qed
    with Cons.prems(2) x show ?thesis by auto
  qed
qed simp

lemma take_runes_clean:
  assumes "ascii t" "t \<noteq> []" "contains (take_runes n s) t"
  shows "contains s t"
  using assms(3)
proof (induction n arbitrary: s)
  case 0
  then show ?case using assms(2) by (simp add: take_runes_def)
next
  case (Suc n)
  show ?case
  proof (cases s)
    case Nil
    with Suc.prems show ?thesis by (simp add: take_runes_def)
  next
    case (Cons c r)
    consider "rune_width s = 0" | "rune_width s = 1" | "rune_width s \<noteq> 0" "rune_width s \<noteq> 1" by auto
    then show ?thesis
    proof cases
      case 1
      have "take_runes (Suc n) s = replacement_rune @ take_runes n r"
        using 1 take_runes_Cons [of n c r] unfolding Cons by argo
      then have c: "contains (replacement_rune @ take_runes n r) t" using Suc.prems by argo
      have other: "x \<notin> set t" if "x \<in> set replacement_rune" for x
        by (rule ascii_other [OF assms(1) replacement_bytes that])
      have "contains (take_runes n r) t" by (rule contains_append_other [OF c assms(2) other])
      then show ?thesis using Suc.IH by (simp add: Cons)
    next
      case 2
      with Suc.prems have c: "contains (c # take_runes n r) t" by (simp add: Cons take_runes_Cons)
      show ?thesis
      proof (cases "contains (take_runes n r) t")
        case True
        then show ?thesis using Suc.IH by (simp add: Cons)
      next
        case False
        with c have "has_prefix (take_runes (Suc n) s) t" using 2 by (simp add: Cons take_runes_Cons)
        from take_runes_has_prefix [OF assms(1) this] show ?thesis by (simp add: Cons)
      qed
    next
      case 3
      have "take_runes (Suc n) s = take (rune_width s) s @ take_runes n (drop (rune_width s) s)"
        using 3(1) take_runes_Cons [of n c r] unfolding Cons by argo
      then have c: "contains (take (rune_width s) s @ take_runes n (drop (rune_width s) s)) t" using Suc.prems by argo
      have other: "x \<notin> set t" if "x \<in> set (take (rune_width s) s)" for x
        by (rule ascii_other [OF assms(1) _ that]) (rule long_rune_bytes [OF 3])
      have "contains (take_runes n (drop (rune_width s) s)) t"
        by (rule contains_append_other [OF c assms(2) other])
      then have "contains (drop (rune_width s) s) t" by (rule Suc.IH)
      then show ?thesis by (metis append_take_drop_id contains_suffix)
    qed
  qed
qed

text \<open>Redaction of assignments brings back no removable text.\<close>

lemma contains_mark:
  assumes "removable t" and "contains (a @ ''[REDACTED]'' @ b) t"
  shows "contains a t \<or> contains b t"
proof -
  have t: "t \<noteq> []" "CHR ''['' \<notin> set t" "CHR '']'' \<notin> set t" "\<not> contains ''REDACTED'' t"
    using assms(1) by (auto simp: removable_def bracket_free_def)
  have "contains a t \<or> contains (''REDACTED'' @ CHR '']'' # b) t"
    by (rule contains_sep [of a "CHR ''[''"]) (use assms(2) t in simp_all)
  then show ?thesis using contains_sep [of "''REDACTED''" "CHR '']''" b t] t by blast
qed

lemma before_mark: "a @ x # b = u @ z \<Longrightarrow> x \<notin> set u \<Longrightarrow> \<exists>y. a = u @ y"
proof (induction u arbitrary: a)
  case (Cons w u)
  then show ?case by (cases a) auto
qed simp

lemma redact_text_has_prefix:
  assumes "removable t" "has_prefix (redact_text s) u" "bracket_free u"
  shows "has_prefix s u"
  using assms(2,3)
proof (induction s arbitrary: u rule: redact_text.induct)
  case (1 s)
  show ?case
  proof (cases "match_assignment s")
    case (Some m)
    obtain k rest where m: "match_assignment s = Some (k, rest)" using Some by (cases m) auto
    obtain v where s: "s = k @ CHR ''='' # v @ rest" using match_assignment_key [OF m] by blast
    define M where "M = ''REDACTED]'' @ redact_text rest"
    have "redact_text s = (k @ ''='') @ CHR ''['' # M" using redact_text_match [OF m] by (simp add: M_def)
    with "1.prems"(1) obtain z where z: "(k @ ''='') @ CHR ''['' # M = u @ z" unfolding has_prefix_iff by metis
    have "CHR ''['' \<notin> set u" using "1.prems"(2) by (simp add: bracket_free_def)
    from before_mark [OF z this] obtain y where y: "k @ ''='' = u @ y" by blast
    have "s = (k @ ''='') @ v @ rest" using s by simp
    also have "\<dots> = u @ (y @ v @ rest)" unfolding y by simp
    finally have "s = u @ (y @ v @ rest)" .
    then show ?thesis unfolding has_prefix_iff by blast
  next
    case None
    show ?thesis
    proof (cases s)
      case (Cons c cs)
      show ?thesis
      proof (cases u)
        case (Cons d ds)
        have "c = d" "has_prefix (redact_text cs) ds"
          using "1.prems"(1) None \<open>s = c # cs\<close> Cons by (simp_all add: redact_text_step)
        then show ?thesis using "1.IH"(1) [OF \<open>s = c # cs\<close> None, of ds] "1.prems"(2) \<open>s = c # cs\<close> Cons
          by (simp add: bracket_free_def)
      qed simp
    qed (use "1.prems" in simp)
  qed
qed

lemma redact_text_contains:
  assumes "removable t" "contains (redact_text s) t"
  shows "contains s t"
  using assms(2)
proof (induction s rule: redact_text.induct)
  case (1 s)
  have bf: "bracket_free t" using assms(1) by (simp add: removable_def)
  show ?case
  proof (cases "match_assignment s")
    case (Some m)
    obtain k rest where m: "match_assignment s = Some (k, rest)" using Some by (cases m) auto
    obtain v where s: "s = k @ CHR ''='' # v @ rest" using match_assignment_key [OF m] by blast
    have "contains ((k @ ''='') @ ''[REDACTED]'' @ redact_text rest) t" using "1.prems" redact_text_match [OF m] by simp
    from contains_mark [OF assms(1) this] show ?thesis
    proof
      assume "contains (k @ ''='') t"
      then show ?thesis using contains_prefix [of "k @ ''=''" t "v @ rest"] s by simp
    next
      assume "contains (redact_text rest) t"
      moreover obtain c cs where "s = c # cs" using s by (metis append_is_Nil_conv list.distinct(1) neq_Nil_conv)
      ultimately have "contains rest t" using "1.IH"(2) [OF _ m refl] by blast
      then show ?thesis using contains_suffix [of rest t "k @ ''='' @ v"] s by simp
    qed
  next
    case None
    show ?thesis
    proof (cases s)
      case (Cons c cs)
      show ?thesis
      proof (cases "contains (redact_text cs) t")
        case True
        then show ?thesis using "1.IH"(1) [OF Cons None] Cons by simp
      next
        case False
        then have "has_prefix (redact_text s) t" using "1.prems" None Cons by (simp add: redact_text_step)
        then show ?thesis using redact_text_has_prefix [OF assms(1) _ bf] Cons by simp
      qed
    qed (use "1.prems" in simp)
  qed
qed

subsection \<open>Reports\<close>

definition shown_in :: "agent_report \<Rightarrow> string \<Rightarrow> bool" where
  "shown_in rep t \<longleftrightarrow> holds_text (gr_payload rep) t \<or> holds_text (gr_tools rep) t \<or> holds_text (gr_artifacts rep) t
     \<or> t = gr_external rep \<or> t = gr_error rep \<or> t \<in> cv_text ` set (gr_events rep)"

definition clean_report :: "string \<Rightarrow> agent_report \<Rightarrow> bool" where
  "clean_report s rep \<longleftrightarrow> (\<forall>t. shown_in rep t \<longrightarrow> \<not> contains t s)"

text \<open>What must not be shown of a conversation: the token of the client, the key of its grant, the leased secrets.\<close>

definition credential :: "secret_values \<Rightarrow> hermes_client \<Rightarrow> string \<Rightarrow> bool" where
  "credential secrets cl t \<longleftrightarrow> removable t \<and> ascii t \<and> (t = hc_token cl \<or> t = hc_session cl \<or> t \<in> snd ` set secrets)"

definition shows_none :: "secret_values \<Rightarrow> hermes_client \<Rightarrow> string \<Rightarrow> bool" where
  "shows_none secrets cl text \<longleftrightarrow> (\<forall>t. credential secrets cl t \<longrightarrow> \<not> contains text t)"

definition deltas :: "agent_report list \<Rightarrow> string" where
  "deltas reps = concat (map cv_text (filter (\<lambda>e. cv_type e = ''message.delta'') (concat (map gr_events reps))))"

definition told :: "(agent_report \<Rightarrow> bool) \<Rightarrow> string \<Rightarrow> agent_world \<Rightarrow> agent_world \<Rightarrow> bool" where
  "told P d w w' \<longleftrightarrow> (\<exists>new. aw_reports w' = aw_reports w @ new \<and> (\<forall>r \<in> set new. P r) \<and> deltas new = d)"

lemma told_same: "aw_reports w' = aw_reports w \<Longrightarrow> told P [] w w'"
  by (simp add: told_def deltas_def)

lemma told_trans: "told P d w w' \<Longrightarrow> told P e w' w'' \<Longrightarrow> told P (d @ e) w w''"
  by (force simp: told_def deltas_def)

lemma told_more: "told P [] w w' \<Longrightarrow> told P d w' w'' \<Longrightarrow> told P d w w''"
  using told_trans [of P "[]" w w' d w''] by simp

lemma told_after: "told P d w w' \<Longrightarrow> told P [] w' w'' \<Longrightarrow> told P d w w''"
  using told_trans [of P d w w' "[]" w''] by simp

lemma told_one: "aw_reports w' = aw_reports w @ [r] \<Longrightarrow> P r \<Longrightarrow> told P (deltas [r]) w w'"
  by (simp add: told_def)

lemma told_shift: "aw_reports w1 = aw_reports w \<Longrightarrow> told P d w1 w' \<Longrightarrow> told P d w w'"
  "aw_reports w2 = aw_reports w' \<Longrightarrow> told P d w w' \<Longrightarrow> told P d w w2"
  by (simp_all add: told_def)

lemma clean_safe_value: "(a, s) \<in> set secrets \<Longrightarrow> removable s \<Longrightarrow> holds_text (safe_value h secrets v) t \<Longrightarrow> \<not> contains t s"
  using map_texts_image [of "map_texts (redact_secret_text (ah_secret_text h) secrets) (redact_value v)" t _ "redact_value v"]
    redact_secret_text_removes [of a s secrets "ah_secret_text h"]
  by (auto simp: safe_value_def redact_secret_value_def split: if_splits)

lemma clean_safe_text: "(a, s) \<in> set secrets \<Longrightarrow> removable s \<Longrightarrow> \<not> contains (safe_text h secrets t) s"
  using redact_secret_text_removes [of a s secrets "ah_secret_text h"] by (auto simp: safe_text_def)

lemma clean_agent_report:
  "(a, s) \<in> set secrets \<Longrightarrow> removable s \<Longrightarrow>
   clean_report s ((agent_report_of h secrets status payload tools artifacts external err)\<lparr>gr_delivered := b\<rparr>)"
  using clean_safe_value [of a s secrets] clean_safe_text [of a s secrets]
  by (auto simp: clean_report_def shown_in_def agent_report_of_def)

lemma safe_text_contains: "removable t \<Longrightarrow> contains (safe_text h secrets s) t \<Longrightarrow> contains s t"
proof -
  assume t: "removable t" and "contains (safe_text h secrets s) t"
  then have "contains (redact_text s) t"
    using fold_replace_contains [OF t, of "secret_list (ah_secret_text h) secrets" "redact_text s"]
    by (auto simp: safe_text_def redact_secret_text_def split: if_splits)
  then show ?thesis by (rule redact_text_contains [OF t])
qed

lemma safe_chat_shows_none: "shows_none secrets cl (safe_chat_text h secrets cl text)"
  unfolding shows_none_def
proof (intro allI impI notI)
  fix t assume t: "credential secrets cl t" and c: "contains (safe_chat_text h secrets cl text) t"
  have r: "removable t" using t by (simp add: credential_def)
  define t0 where "t0 = replace_all text (hc_token cl) ''[REDACTED]''"
  define t1 where "t1 = (if hc_session cl = [] then t0 else replace_all t0 (hc_session cl) ''[REDACTED]'')"
  have safe: "safe_chat_text h secrets cl text = safe_text h secrets t1" by (simp add: safe_chat_text_def t0_def t1_def)
  have c1: "contains t1 t" using c safe_text_contains [OF r] unfolding safe by blast
  consider a where "(a, t) \<in> set secrets" | "t = hc_token cl" | "t = hc_session cl"
    using t by (auto simp: credential_def)
  then show False
  proof cases
    case 1
    from clean_safe_text [OF 1 r] c show False unfolding safe by blast
  next
    case 2
    have "\<not> contains t0 t" unfolding t0_def by (rule replace_mark_contains [OF r]) (simp add: 2)
    then have "\<not> contains (replace_all t0 (hc_session cl) ''[REDACTED]'') t" using replace_mark_contains [OF r, of t0 "hc_session cl"] by argo
    with \<open>\<not> contains t0 t\<close> c1 show False unfolding t1_def by (cases "hc_session cl = []") (simp_all only: simp_thms if_True if_False)
  next
    case 3
    then have "hc_session cl \<noteq> []" using r by (auto simp: removable_def)
    moreover have "\<not> contains (replace_all t0 (hc_session cl) ''[REDACTED]'') t" by (rule replace_mark_contains [OF r]) (simp add: 3)
    ultimately show False using c1 unfolding t1_def by (simp only: simp_thms if_False)
  qed
qed

lemma shows_none_cut: "shows_none secrets cl text \<Longrightarrow> shows_none secrets cl (take_runes n text)"
  unfolding shows_none_def
proof (intro allI impI notI)
  fix t assume s: "\<forall>t. credential secrets cl t \<longrightarrow> \<not> contains text t" and t: "credential secrets cl t"
    and c: "contains (take_runes n text) t"
  have "ascii t" "t \<noteq> []" using t by (simp_all add: credential_def removable_def)
  from take_runes_clean [OF this c] s t show False by blast
qed

lemma shows_none_parts: "shows_none secrets cl (a @ b) \<Longrightarrow> shows_none secrets cl a \<and> shows_none secrets cl b"
  unfolding shows_none_def using contains_prefix contains_suffix by blast

lemma shows_none_Nil: "shows_none secrets cl []"
  by (auto simp: shows_none_def credential_def removable_def)

subsection \<open>Frames\<close>

named_theorems agent_frame

lemma deliver_frame [agent_frame]:
  "aw_registry (snd (deliver h c rep w)) = aw_registry w" "aw_requests (snd (deliver h c rep w)) = aw_requests w"
  "aw_tools (snd (deliver h c rep w)) = aw_tools w" "aw_grants (snd (deliver h c rep w)) = aw_grants w"
  "aw_commands (snd (deliver h c rep w)) = aw_commands w" "aw_beating (snd (deliver h c rep w)) = aw_beating w"
  "aw_stop (snd (deliver h c rep w)) = aw_stop w"
  by (simp_all add: deliver_def Let_def case_prod_unfold)

lemma deliver_reports: "\<exists>b. aw_reports (snd (deliver h c rep w)) = aw_reports w @ [rep\<lparr>gr_delivered := b\<rparr>]"
  by (auto simp: deliver_def Let_def case_prod_unfold)

lemma acknowledge_frame [agent_frame]:
  "aw_registry (acknowledge_agent h c sec s w) = aw_registry w" "aw_requests (acknowledge_agent h c sec s w) = aw_requests w"
  "aw_tools (acknowledge_agent h c sec s w) = aw_tools w" "aw_grants (acknowledge_agent h c sec s w) = aw_grants w"
  "aw_commands (acknowledge_agent h c sec s w) = aw_commands w" "aw_beating (acknowledge_agent h c sec s w) = aw_beating w"
  "aw_stop (acknowledge_agent h c sec s w) = aw_stop w"
  by (simp_all add: acknowledge_agent_def agent_frame)

lemma agent_callback_snd:
  "snd (agent_callback h c sec st pl ts ar ex er w) = snd (deliver h c (agent_report_of h sec st pl ts ar ex er) w)
   \<or> (\<exists>s. snd (agent_callback h c sec st pl ts ar ex er w) = acknowledge_agent h c sec s (snd (deliver h c (agent_report_of h sec st pl ts ar ex er) w)))"
  by (auto simp: agent_callback_def Let_def case_prod_unfold split: option.split)

lemma agent_callback_frame [agent_frame]:
  "aw_registry (snd (agent_callback h c sec st pl ts ar ex er w)) = aw_registry w"
  "aw_requests (snd (agent_callback h c sec st pl ts ar ex er w)) = aw_requests w"
  "aw_tools (snd (agent_callback h c sec st pl ts ar ex er w)) = aw_tools w"
  "aw_grants (snd (agent_callback h c sec st pl ts ar ex er w)) = aw_grants w"
  "aw_commands (snd (agent_callback h c sec st pl ts ar ex er w)) = aw_commands w"
  "aw_beating (snd (agent_callback h c sec st pl ts ar ex er w)) = aw_beating w"
  "aw_stop (snd (agent_callback h c sec st pl ts ar ex er w)) = aw_stop w"
  using agent_callback_snd [of h c sec st pl ts ar ex er w] by (auto simp: agent_frame)

lemma tool_call_frame [agent_frame]:
  "aw_registry (snd (tool_call h run b i w)) = aw_registry w" "aw_requests (snd (tool_call h run b i w)) = aw_requests w"
  "aw_reports (snd (tool_call h run b i w)) = aw_reports w" "aw_grants (snd (tool_call h run b i w)) = aw_grants w"
  "aw_commands (snd (tool_call h run b i w)) = aw_commands w" "aw_beating (snd (tool_call h run b i w)) = aw_beating w"
  "aw_stop (snd (tool_call h run b i w)) = aw_stop w" "aw_runner (snd (tool_call h run b i w)) = aw_runner w"
  by (simp_all add: tool_call_def Let_def split: option.split)

lemma call_chat_frame [agent_frame]:
  "aw_registry (snd (call_chat_tool h k i g w)) = aw_registry w" "aw_requests (snd (call_chat_tool h k i g w)) = aw_requests w"
  "aw_reports (snd (call_chat_tool h k i g w)) = aw_reports w" "aw_commands (snd (call_chat_tool h k i g w)) = aw_commands w"
  "aw_beating (snd (call_chat_tool h k i g w)) = aw_beating w" "aw_stop (snd (call_chat_tool h k i g w)) = aw_stop w"
  "aw_runner (snd (call_chat_tool h k i g w)) = aw_runner w"
proof -
  have t: "tool_call h run b i w1 = (a, w2) \<Longrightarrow> aw_registry w2 = aw_registry w1 \<and> aw_requests w2 = aw_requests w1
      \<and> aw_reports w2 = aw_reports w1 \<and> aw_commands w2 = aw_commands w1 \<and> aw_beating w2 = aw_beating w1
      \<and> aw_stop w2 = aw_stop w1 \<and> aw_runner w2 = aw_runner w1" for run b i w1 a w2
    using tool_call_frame [of h run b i w1] by simp
  show "aw_registry (snd (call_chat_tool h k i g w)) = aw_registry w" "aw_requests (snd (call_chat_tool h k i g w)) = aw_requests w"
    "aw_reports (snd (call_chat_tool h k i g w)) = aw_reports w" "aw_commands (snd (call_chat_tool h k i g w)) = aw_commands w"
    "aw_beating (snd (call_chat_tool h k i g w)) = aw_beating w" "aw_stop (snd (call_chat_tool h k i g w)) = aw_stop w"
    "aw_runner (snd (call_chat_tool h k i g w)) = aw_runner w"
    by (simp_all add: call_chat_tool_def Let_def split: option.split prod.split) (auto dest: t)
qed

lemma beat_frame [agent_frame]:
  "aw_registry (beat_agent h c sec run w) = aw_registry w" "aw_requests (beat_agent h c sec run w) = aw_requests w"
  "aw_tools (beat_agent h c sec run w) = aw_tools w" "aw_grants (beat_agent h c sec run w) = aw_grants w"
  "aw_commands (beat_agent h c sec run w) = aw_commands w"
proof -
  have t: "agent_callback h c sec st pl ts ar ex er w = (a, w2) \<Longrightarrow> aw_registry w2 = aw_registry w \<and> aw_requests w2 = aw_requests w
      \<and> aw_tools w2 = aw_tools w \<and> aw_grants w2 = aw_grants w \<and> aw_commands w2 = aw_commands w" for st pl ts ar ex er a w2
    using agent_callback_frame [of h c sec st pl ts ar ex er w] by simp
  show "aw_registry (beat_agent h c sec run w) = aw_registry w" "aw_requests (beat_agent h c sec run w) = aw_requests w"
    "aw_tools (beat_agent h c sec run w) = aw_tools w" "aw_grants (beat_agent h c sec run w) = aw_grants w"
    "aw_commands (beat_agent h c sec run w) = aw_commands w"
    by (simp_all add: beat_agent_def split: option.split prod.split) (auto dest: t)
qed

lemma arrive_frame [agent_frame]:
  "aw_registry (arrive h c sec run w e) = aw_registry w" "aw_requests (arrive h c sec run w e) = aw_requests w"
  "aw_commands (arrive h c sec run w e) = aw_commands w"
  by (cases e; simp add: agent_frame)+

lemma happen_frame [agent_frame]:
  "aw_registry (happen_agent h c sec run w) = aw_registry w" "aw_requests (happen_agent h c sec run w) = aw_requests w"
  "aw_commands (happen_agent h c sec run w) = aw_commands w"
proof -
  have "aw_registry (foldl (arrive h c sec run) w es) = aw_registry w \<and> aw_requests (foldl (arrive h c sec run) w es) = aw_requests w
      \<and> aw_commands (foldl (arrive h c sec run) w es) = aw_commands w" for es
    by (induction es arbitrary: w) (simp_all add: agent_frame)
  then show "aw_registry (happen_agent h c sec run w) = aw_registry w" "aw_requests (happen_agent h c sec run w) = aw_requests w"
    "aw_commands (happen_agent h c sec run w) = aw_commands w" by (simp_all add: happen_agent_def)
qed

lemma request_frame [agent_frame]:
  "aw_registry (snd (hermes_request_to h cl m p b k w)) = aw_registry w" "aw_reports (snd (hermes_request_to h cl m p b k w)) = aw_reports w"
  "aw_tools (snd (hermes_request_to h cl m p b k w)) = aw_tools w" "aw_grants (snd (hermes_request_to h cl m p b k w)) = aw_grants w"
  "aw_commands (snd (hermes_request_to h cl m p b k w)) = aw_commands w"
  by (simp_all add: hermes_request_to_def Let_def split: http_answer.split)

lemma json_frame [agent_frame]:
  "aw_registry (snd (hermes_json h cl m p b k f w)) = aw_registry w" "aw_reports (snd (hermes_json h cl m p b k f w)) = aw_reports w"
  "aw_tools (snd (hermes_json h cl m p b k f w)) = aw_tools w" "aw_grants (snd (hermes_json h cl m p b k f w)) = aw_grants w"
  "aw_commands (snd (hermes_json h cl m p b k f w)) = aw_commands w"
proof -
  have t: "hermes_request_to h cl m p b k w = (a, w2) \<Longrightarrow> aw_registry w2 = aw_registry w \<and> aw_reports w2 = aw_reports w
     \<and> aw_tools w2 = aw_tools w \<and> aw_grants w2 = aw_grants w \<and> aw_commands w2 = aw_commands w" for a w2
    using request_frame [of h cl m p b k w] by simp
  show "aw_registry (snd (hermes_json h cl m p b k f w)) = aw_registry w" "aw_reports (snd (hermes_json h cl m p b k f w)) = aw_reports w"
    "aw_tools (snd (hermes_json h cl m p b k f w)) = aw_tools w" "aw_grants (snd (hermes_json h cl m p b k f w)) = aw_grants w"
    "aw_commands (snd (hermes_json h cl m p b k f w)) = aw_commands w"
    by (simp_all add: hermes_json_def split: sum.split prod.split) (auto dest: t)
qed

subsection \<open>What a conversation publishes\<close>

text \<open>A policy of reports: what the agent builds from a run passes, and what a conversation publishes does when it shows no
  credential.\<close>

locale report_policy =
  fixes h :: agent_host and c :: agent_config and secrets :: secret_values and cl :: hermes_client
    and P :: "agent_report \<Rightarrow> bool"
  assumes built: "P ((agent_report_of h secrets status payload tools artifacts external err)\<lparr>gr_delivered := b\<rparr>)"
    and published: "shows_none secrets cl text \<Longrightarrow>
      P \<lparr>gr_status = ''running'', gr_payload = VMap [], gr_tools = VMaps [], gr_artifacts = VMaps [], gr_external = [],
         gr_error = [], gr_events = [\<lparr>cv_type = ty, cv_id = i, cv_message = m, cv_text = text\<rparr>], gr_delivered = b\<rparr>"
begin

lemma told_built: "told P [] w (snd (deliver h c (agent_report_of h secrets st pl ts ar ex er) w))"
proof -
  obtain b where b: "aw_reports (snd (deliver h c (agent_report_of h secrets st pl ts ar ex er) w))
      = aw_reports w @ [(agent_report_of h secrets st pl ts ar ex er)\<lparr>gr_delivered := b\<rparr>]"
    using deliver_reports by blast
  from told_one [where P = P, OF b built] show ?thesis by (simp add: deltas_def agent_report_of_def)
qed

lemma told_acknowledge: "told P [] w (acknowledge_agent h c secrets s w)"
  by (simp add: acknowledge_agent_def told_built told_same)

lemma told_callback: "told P [] w (snd (agent_callback h c secrets st pl ts ar ex er w))"
  using agent_callback_snd [of h c secrets st pl ts ar ex er w] told_built [of w st pl ts ar ex er]
    told_after [OF told_built told_acknowledge] by metis

lemma told_beat: "told P [] w (beat_agent h c secrets run w)"
proof (cases "aw_beating w")
  case True
  let ?p = "[(''agentId'', VStr (local_agent c)), (''workerId'', VStr (ac_worker c)), (''heartbeatAt'', VStr (ah_stamp h w)),
           (''providerId'', VStr (ag_provider run)), (''capabilityId'', VStr (ag_capability run))]"
  obtain a w1 where w1: "agent_callback h c secrets ''running'' ?p [] [] [] [] w = (a, w1)" by fastforce
  have t: "told P [] w w1" using told_callback [of w "''running''" ?p "[]" "[]" "[]" "[]"] unfolding w1 by simp
  have "aw_reports (beat_agent h c secrets run w) = aw_reports w1"
    using True by (simp add: beat_agent_def w1 split: option.split)
  from told_shift(2) [OF this t] show ?thesis .
next
  case False
  then show ?thesis by (simp add: beat_agent_def told_same)
qed

lemma told_happen: "told P [] w (happen_agent h c secrets run w)"
proof -
  have "told P [] w (foldl (arrive h c secrets run) w es)" for es
  proof (induction es arbitrary: w)
    case (Cons e es)
    have "told P [] w (arrive h c secrets run w e)" by (cases e) (simp_all add: told_beat told_same agent_frame)
    from told_after [OF this Cons] show ?case by simp
  qed (simp add: told_same)
  then show ?thesis by (simp add: happen_agent_def)
qed

lemma told_event:
  assumes "shows_none secrets cl text"
  shows "told P (if ty = ''message.delta'' then text else []) w
    (snd (publish_event h c \<lparr>cv_type = ty, cv_id = i, cv_message = m, cv_text = text\<rparr> w))"
proof -
  let ?rep = "\<lparr>gr_status = ''running'', gr_payload = VMap [], gr_tools = VMaps [], gr_artifacts = VMaps [], gr_external = [],
         gr_error = [], gr_events = [\<lparr>cv_type = ty, cv_id = i, cv_message = m, cv_text = text\<rparr>], gr_delivered = False\<rparr>"
  obtain b where b: "aw_reports (snd (deliver h c ?rep w)) = aw_reports w @ [?rep\<lparr>gr_delivered := b\<rparr>]"
    using deliver_reports by blast
  have p: "P (?rep\<lparr>gr_delivered := b\<rparr>)" using published [OF assms, of ty i m b] by simp
  have e: "snd (publish_event h c \<lparr>cv_type = ty, cv_id = i, cv_message = m, cv_text = text\<rparr> w) = snd (deliver h c ?rep w)"
    by (simp add: publish_event_def split: prod.split option.split)
  have d: "deltas [?rep\<lparr>gr_delivered := b\<rparr>] = (if ty = ''message.delta'' then text else [])" by (simp add: deltas_def)
  from told_one [where P = P, OF b p] show ?thesis unfolding e d .
qed

lemma told_delta: "shows_none secrets cl text \<Longrightarrow> told P text w (snd (publish_delta h c run n text w))"
  using told_event [of "text" "''message.delta''" w] by (simp add: publish_delta_def told_same)

text \<open>The deltas extend what is out, and the whole shows no credential, wherever it was cut.\<close>

lemma told_finish:
  assumes "shows_none secrets cl pub"
  shows "\<exists>x. told P x w (snd (finish_stream h c d secrets cl run ext output pub n w)) \<and> shows_none secrets cl (pub @ x)"
proof -
  obtain r w1 where w1: "completed_chat h d secrets cl ext output w = (r, w1)" by fastforce
  have same: "aw_reports w1 = aw_reports w"
    using json_frame(2) [of h cl "''GET''" "''/v1/runs/'' @ ext" None "[]" "hd_state d" w] w1
    by (auto simp: completed_chat_def split: prod.splits sum.splits)
  show ?thesis
  proof (cases r)
    case (Inl e)
    then show ?thesis using assms same by (intro exI [of _ "[]"]) (simp add: finish_stream_def w1 told_same)
  next
    case (Inr s)
    have clean: "shows_none secrets cl (st_output s)"
      using w1 Inr safe_chat_shows_none
      by (auto simp: completed_chat_def Let_def split: prod.splits sum.splits if_splits)
    let ?x = "if has_prefix (st_output s) pub then drop (length pub) (st_output s) else []"
    obtain e2 w2 where w2: "(if has_prefix (st_output s) pub
        then publish_delta h c run (Suc n) (drop (length pub) (st_output s)) w1 else (None, w1)) = (e2, w2)" by fastforce
    have whole: "pub @ ?x = (if has_prefix (st_output s) pub then st_output s else pub)" by (auto simp: has_prefix_iff)
    have x: "shows_none secrets cl (pub @ ?x)" unfolding whole using clean assms by simp
    then have "shows_none secrets cl ?x" using shows_none_parts by blast
    then have t: "told P ?x w w2"
    proof (cases "has_prefix (st_output s) pub")
      case True
      then have "told P ?x w1 (snd (publish_delta h c run (Suc n) ?x w1))" using told_delta [OF \<open>shows_none secrets cl ?x\<close>] by blast
      with True w2 have "told P ?x w1 w2" by simp
      then show ?thesis by (rule told_shift(1) [OF same])
    next
      case False
      with w2 same show ?thesis by (simp add: told_same)
    qed
    have "told P ?x w (snd (finish_stream h c d secrets cl run ext output pub n w))"
    proof (cases e2)
      case (Some e)
      then show ?thesis using t by (simp add: finish_stream_def w1 Inr w2)
    next
      case None
      let ?ev = "\<lparr>cv_type = ''message.done'', cv_id = ''chat:done'', cv_message = ag_id run @ '':reply'', cv_text = st_output s\<rparr>"
      have "snd (finish_stream h c d secrets cl run ext output pub n w) = snd (publish_event h c ?ev w2)"
        using None by (simp add: finish_stream_def w1 Inr w2 split: prod.split option.split)
      moreover have "told P [] w2 (snd (publish_event h c ?ev w2))"
        using told_event [OF clean, of "''message.done''"] by simp
      ultimately show ?thesis using told_after [OF t] by simp
    qed
    with x show ?thesis by blast
  qed
qed

lemma told_stream:
  "shows_none secrets cl pub \<Longrightarrow>
   \<exists>x. told P x w (snd (chat_stream h c d secrets cl run ext lines output pub n w)) \<and> shows_none secrets cl (pub @ x)"
proof (induction lines arbitrary: "output" pub n w)
  case Nil
  then show ?case by (intro exI [of _ "[]"]) (simp add: told_same)
next
  case (Cons line rest)
  let ?w = "happen_agent h c secrets run w"
  have t: "told P [] w ?w" by (rule told_happen)
  have stop: ?case if "snd (chat_stream h c d secrets cl run ext (line # rest) output pub n w) = ?w"
    unfolding that using t Cons.prems by (intro exI [of _ "[]"]) simp
  have go: ?case if "chat_stream h c d secrets cl run ext (line # rest) output pub n w
      = chat_stream h c d secrets cl run ext rest out1 pub n ?w" for out1
    unfolding that using Cons.IH [OF Cons.prems, where w = ?w] told_more [OF t] by blast
  show ?case
  proof (cases "has_prefix line ''data:''")
    case False
    then show ?thesis by (intro go) (simp add: chat_stream.simps(2))
  next
    case data: True
    show ?thesis
    proof (cases "hd_event d (trim_space (drop 5 line))")
      case None
      then show ?thesis using data by (intro stop) (simp add: chat_stream.simps(2))
    next
      case (Some ev)
      note st = chat_stream.simps(2) [of h c d secrets cl run ext line rest "output" pub n w, unfolded Let_def, simplified data Some, simplified]
      consider "he_run ev \<noteq> ext" | "he_run ev = ext" "he_event ev = ''message.delta''"
        | "he_run ev = ext" "he_event ev = ''run.completed''"
        | "he_run ev = ext" "he_event ev \<noteq> ''message.delta''" "he_event ev \<noteq> ''run.completed''" by blast
      then show ?thesis
      proof cases
        case 1
        then show ?thesis by (intro stop) (simp add: st)
      next
        case 2
        let ?out = "output @ he_delta ev"
        show ?thesis
        proof (cases "max_output_runes < rune_length ?out")
          case True
          then show ?thesis using 2 by (intro stop) (simp add: st)
        next
          case False
          consider "next_text h secrets cl ?out pub = None" | e where "next_text h secrets cl ?out pub = Some (Inl e)"
            | new where "next_text h secrets cl ?out pub = Some (Inr new)"
            by (metis option.exhaust sum.exhaust)
          then show ?thesis
          proof cases
            case a: 1
            show ?thesis using 2 False a by (intro go) (simp add: st)
          next
            case a: 2
            show ?thesis using 2 False a by (intro stop) (simp add: st)
          next
            case a: 3
            have new: "has_prefix new pub" "shows_none secrets cl new"
              using a shows_none_cut [OF safe_chat_shows_none]
              by (auto simp: next_text_def Let_def split: if_splits)
            let ?x = "drop (length pub) new"
            have whole: "pub @ ?x = new" using new(1) by (auto simp: has_prefix_iff)
            then have x: "shows_none secrets cl ?x" using new(2) shows_none_parts by metis
            obtain e1 w1 where w1: "publish_delta h c run (Suc n) ?x ?w = (e1, w1)" by fastforce
            have t1: "told P ?x w w1" using told_more [OF t told_delta [OF x, of ?w run "Suc n"]] w1 by simp
            show ?thesis
            proof (cases e1)
              case (Some e)
              then have "snd (chat_stream h c d secrets cl run ext (line # rest) output pub n w) = w1"
                using 2 False a w1 by (simp add: st)
              with t1 new(2) whole show ?thesis by metis
            next
              case None
              then have s: "chat_stream h c d secrets cl run ext (line # rest) output pub n w
                  = chat_stream h c d secrets cl run ext rest ?out new (Suc n) w1"
                using 2 False a w1 by (simp add: st)
              obtain y where y: "told P y w1 (snd (chat_stream h c d secrets cl run ext rest ?out new (Suc n) w1))"
                "shows_none secrets cl (new @ y)" using Cons.IH [OF new(2)] by blast
              have "pub @ ?x @ y = new @ y" using whole by simp
              with told_trans [OF t1 y(1)] y(2) s show ?thesis by metis
            qed
          qed
        qed
      next
        case 3
        then have s: "chat_stream h c d secrets cl run ext (line # rest) output pub n w
            = finish_stream h c d secrets cl run ext (he_output ev) pub n ?w" by (simp add: st)
        from told_finish [OF Cons.prems, of ?w d run ext "he_output ev" n] told_more [OF t] show ?thesis
          unfolding s by blast
      next
        case 4
        show ?thesis
        proof (cases "(he_event ev = ''tool.started'' \<or> he_event ev = ''tool.completed'' \<or> he_event ev = ''tool.failed'') \<longrightarrow> allowed_tool (he_tool ev)")
          case True
          show ?thesis
          proof (cases "he_event ev \<in> {''run.cancelled'', ''run.failed'', ''approval.request''}")
            case True
            then show ?thesis using 4 by (intro stop) (auto simp: st)
          next
            case False
            then show ?thesis using 4 True by (intro go) (auto simp: st)
          qed
        next
          case False
          then show ?thesis using 4 by (intro stop) (auto simp: st)
        qed
      qed
    qed
  qed
qed

end

subsection \<open>What a run reports\<close>

definition told_any :: "(agent_report \<Rightarrow> bool) \<Rightarrow> agent_world \<Rightarrow> agent_world \<Rightarrow> bool" where
  "told_any P w w' \<longleftrightarrow> (\<exists>x. told P x w w')"

lemma told_anyI: "told P x w w' \<Longrightarrow> told_any P w w'"
  by (auto simp: told_any_def)

lemma told_any_trans: "told_any P w w' \<Longrightarrow> told_any P w' w'' \<Longrightarrow> told_any P w w''"
  using told_trans by (fastforce simp: told_any_def)

lemma told_any_same: "aw_reports w' = aw_reports w \<Longrightarrow> told_any P w w'"
  by (rule told_anyI [OF told_same])

lemma told_any_new: "told_any P w w' \<longleftrightarrow> (\<exists>new. aw_reports w' = aw_reports w @ new \<and> (\<forall>r \<in> set new. P r))"
  by (auto simp: told_any_def told_def)

lemma prefetch_reports: "aw_reports (snd (prefetch_context h run bs items w)) = aw_reports w
    \<and> aw_registry (snd (prefetch_context h run bs items w)) = aw_registry w
    \<and> aw_requests (snd (prefetch_context h run bs items w)) = aw_requests w"
proof (induction bs arbitrary: items w)
  case (Cons b bs)
  obtain a w1 where w1: "tool_call h run b [(''limit'', VInt 20)] w = (a, w1)" by fastforce
  then have "aw_reports w1 = aw_reports w" "aw_registry w1 = aw_registry w" "aw_requests w1 = aw_requests w"
    using tool_call_frame [of h run b "[(''limit'', VInt 20)]" w] by simp_all
  with Cons.IH w1 show ?case by (auto split: option.split)
qed simp

locale run_policy =
  fixes h :: agent_host and c :: agent_config and secrets :: secret_values and P :: "agent_report \<Rightarrow> bool"
  assumes built: "P ((agent_report_of h secrets status payload tools artifacts external err)\<lparr>gr_delivered := b\<rparr>)"
    and shown: "(\<And>t. t \<in> snd ` set secrets \<Longrightarrow> removable t \<Longrightarrow> ascii t \<Longrightarrow> \<not> contains text t) \<Longrightarrow>
      P \<lparr>gr_status = ''running'', gr_payload = VMap [], gr_tools = VMaps [], gr_artifacts = VMaps [], gr_external = [],
         gr_error = [], gr_events = [\<lparr>cv_type = ty, cv_id = i, cv_message = m, cv_text = text\<rparr>], gr_delivered = b\<rparr>"

sublocale run_policy \<subseteq> chat: report_policy h c secrets cl P for cl
  by unfold_locales (auto intro!: built shown simp: shows_none_def credential_def)

context run_policy
begin

lemma any_started: "told_any P w (snd (chat_started h c d secrets cl run ext w))"
proof -
  obtain a w1 where w1: "agent_callback h c secrets ''running'' [] [] [] ext [] w = (a, w1)" by fastforce
  have t1: "told_any P w w1" using chat.told_callback [of w "''running''" "[]" "[]" "[]" ext "[]"] w1 by (intro told_anyI) simp
  obtain r w2 where w2: "stream_chat h c d secrets cl run ext w1 = (r, w2)" by fastforce
  have t2: "told_any P w1 w2"
  proof -
    obtain q w0 where w0: "hermes_request_to h cl ''GET'' (''/v1/runs/'' @ ext @ ''/events'') None [] w1 = (q, w0)" by fastforce
    have same: "aw_reports w0 = aw_reports w1"
      using request_frame(2) [of h cl "''GET''" "''/v1/runs/'' @ ext @ ''/events''" None "[]" w1] w0 by simp
    show ?thesis
    proof (cases q)
      case (Inl e)
      then show ?thesis using w2 w0 same by (simp add: stream_chat_def told_any_same)
    next
      case (Inr x)
      obtain body broken where x: "x = (body, broken)" by fastforce
      have "w2 = snd (chat_stream h c d secrets cl run ext (scanned_lines body) [] [] 0 w0)"
        using w2 w0 Inr x by (simp add: stream_chat_def)
      then have "told_any P w0 w2" using chat.told_stream [OF shows_none_Nil] told_anyI by metis
      then show ?thesis by (rule told_any_trans [OF told_any_same [OF same]])
    qed
  qed
  have stop: "told_any P v (snd (hermes_json h cl ''POST'' p b k f v))" for v p b k and f :: "string \<Rightarrow> unit option"
    by (rule told_any_same) (simp add: agent_frame)
  show ?thesis
    using t1 t2 told_any_trans [OF t1 stop] told_any_trans [OF told_any_trans [OF t1 t2] stop] told_any_trans [OF t1 t2]
    by (simp add: chat_started_def w1 w2 Let_def split: option.split sum.split)
qed

lemma any_submit: "told_any P w (snd (submit_chat h c d secrets cl run body w))"
proof -
  obtain q w1 where w1: "hermes_json h cl ''POST'' ''/v1/runs'' (Some body) (ag_id run) (hd_state d) w = (q, w1)" by fastforce
  have "aw_reports w1 = aw_reports w"
    using json_frame(2) [of h cl "''POST''" "''/v1/runs''" "Some body" "ag_id run" "hd_state d" w] w1 by simp
  then have t: "told_any P w w1" by (rule told_any_same)
  show ?thesis using t told_any_trans [OF t any_started] by (simp add: submit_chat_def w1 split: sum.split)
qed

lemma any_client: "told_any P w (snd (chat_with_client h c d secrets cl0 run input w))"
proof -
  obtain a w1 where w1: "check_ready h d cl0 w = (a, w1)" by fastforce
  have s1: "aw_reports w1 = aw_reports w"
  proof -
    have j1: "hermes_json h cl0 m p b k (hd_features d) v = (x, v') \<Longrightarrow> aw_reports v' = aw_reports v" for m p b k v x v'
      using json_frame(2) [of h cl0 m p b k "hd_features d" v] by simp
    have j2: "hermes_json h cl0 m p b k (hd_health d) v = (x, v') \<Longrightarrow> aw_reports v' = aw_reports v" for m p b k v x v'
      using json_frame(2) [of h cl0 m p b k "hd_health d" v] by simp
    have j3: "hermes_json h cl0 m p b k (hd_toolsets d) v = (x, v') \<Longrightarrow> aw_reports v' = aw_reports v" for m p b k v x v'
      using json_frame(2) [of h cl0 m p b k "hd_toolsets d" v] by simp
    from w1 show ?thesis
      by (auto simp: check_ready_def split: prod.splits sum.splits if_splits option.splits dest!: j1 j2 j3)
  qed
  obtain key w2 where w2: "begin_grant h run w1 = (key, w2)" by fastforce
  have s2: "aw_reports w2 = aw_reports w1" using w2 by (auto simp: begin_grant_def Let_def split: if_splits)
  have grant: "aw_reports (end_grant key v) = aw_reports v" for v by (simp add: end_grant_def)
  have t2: "told_any P w w2" by (rule told_any_same) (simp add: s1 s2)
  have e: "told_any P w (end_grant key v)" if "told_any P w2 v" for v
    by (rule told_any_trans [OF told_any_trans [OF t2 that] told_any_same [OF grant]])
  have "told_any P w (end_grant key (snd (submit_chat h c d secrets (cl0\<lparr>hc_session := key\<rparr>) run body w2)))" for body
    by (rule e [OF any_submit])
  with told_any_same [OF s1, of P] show ?thesis
    by (simp add: chat_with_client_def w1 w2 Let_def case_prod_unfold split: option.split)
qed

lemma any_execute_chat: "told_any P w (snd (execute_chat h c d secrets run w))"
proof -
  have r: "aw_reports (v\<lparr>aw_registry := q\<rparr>) = aw_reports v" for v q by simp
  have a: "told_any P w (v\<lparr>aw_registry := q\<rparr>)" if "told_any P (w\<lparr>aw_registry := q'\<rparr>) v" for v q q'
  proof -
    have "told_any P w (w\<lparr>aw_registry := q'\<rparr>)" by (rule told_any_same) simp
    from told_any_trans [OF told_any_trans [OF this that] told_any_same [OF r]] show ?thesis .
  qed
  have b: "told_any P w (w\<lparr>aw_registry := q\<rparr>)" "told_any P w w" for q by (rule told_any_same; simp)+
  have e: "told_any P w (v\<lparr>aw_registry := q\<rparr>)" if "chat_with_client h c d secrets cl run input (w\<lparr>aw_registry := q'\<rparr>) = (x, v)" for cl run input q' x v q
    using a [OF any_client] that by (metis snd_conv)
  show ?thesis
    by (simp add: execute_chat_def Let_def split: option.split prod.split sum.split) (auto intro: b e dest: sym)
qed

lemma any_cli: "told_any P w (snd (execute_cli h c secrets run spec w))"
proof -
  obtain items w1 where w1: "prefetch_context h run (ag_tools run) [] w = (items, w1)" by fastforce
  have s: "aw_reports w1 = aw_reports w" using prefetch_reports [of h run "ag_tools run" "[]" w] w1 by simp
  have t1: "told_any P w w1" by (rule told_any_same [OF s])
  have t2: "told_any P w (happen_agent h c secrets run' (w1\<lparr>aw_commands := x\<rparr>))" for run' x
    by (rule told_any_trans [OF told_any_same told_anyI [OF chat.told_happen]]) (simp add: s)
  show ?thesis using told_any_same [OF refl, of P w] t1 t2
    by (simp add: execute_cli_def Let_def w1 case_prod_unfold split: option.split sum.split)
qed

lemma any_executor: "told_any P w (snd (agent_executor h c d secrets run w))"
proof -
  have p: "told_any P w (snd (execute_provider h c secrets run w))"
  proof -
    have a: "told_any P w ((snd (execute_cli h c secrets run spec (w\<lparr>aw_registry := q'\<rparr>)))\<lparr>aw_registry := q\<rparr>)" for spec q q'
      by (rule told_any_trans [OF told_any_trans [OF told_any_same any_cli] told_any_same]) simp_all
    have b: "told_any P w (w\<lparr>aw_registry := q\<rparr>)" "told_any P w w" for q by (rule told_any_same; simp)+
    show ?thesis using any_cli a b
      by (simp add: execute_provider_def Let_def case_prod_unfold split: option.split prod.split sum.split)
  qed
  show ?thesis using p any_execute_chat [of w d run]
    by (simp add: agent_executor_def case_prod_unfold split: sum.split prod.split)
qed

lemma any_callback: "told_any P w v \<Longrightarrow> told_any P w (snd (agent_callback h c secrets st pl ts ar ex er v))"
  by (rule told_any_trans [OF _ told_anyI [OF chat.told_callback]])

lemma any_mark: "told_any P w v \<Longrightarrow> told_any P w (mark_agent s v)"
  by (rule told_any_trans [OF _ told_any_same]) (simp_all add: mark_agent_def)

lemma any_run: "told_any P w (run_agent h c d secrets run started_at w)"
proof -
  let ?w0 = "happen_agent h c secrets run (w\<lparr>aw_beating := True\<rparr>)"
  obtain result w1 where w1: "agent_executor h c d secrets run ?w0 = (result, w1)" by fastforce
  let ?w2 = "(happen_agent h c secrets run w1)\<lparr>aw_beating := False\<rparr>"
  have t0: "told_any P w ?w0" by (rule told_any_trans [OF told_any_same told_anyI [OF chat.told_happen]]) simp
  have t1: "told_any P w w1" using told_any_trans [OF t0 any_executor [of ?w0 d run]] w1 by simp
  have t2: "told_any P w ?w2"
    by (rule told_any_trans [OF told_any_trans [OF t1 told_anyI [OF chat.told_happen]] told_any_same]) simp
  have ack: "told_any P w (acknowledge_agent h c secrets s ?w2)" for s
    by (rule told_any_trans [OF t2 told_anyI [OF chat.told_acknowledge]])
  have chatting: "told_any P w (finish_chat_run h c secrets run out err ?w2)" for out err
    using any_mark [OF t2] any_mark [OF any_callback [OF t2]]
    by (simp add: finish_chat_run_def case_prod_unfold Let_def)
  have bad: "told_any P w (fail_run h c secrets run started_at r err ?w2)" for r err
    by (simp add: fail_run_def case_prod_unfold Let_def any_mark any_callback t2)
  have good: "told_any P w (complete_run h c secrets run started_at r ?w2)" for r
    by (simp add: complete_run_def case_prod_unfold Let_def any_mark any_callback t2)
  show ?thesis using ack chatting bad good
    by (simp add: run_agent_def w1 Let_def split: option.split)
qed

lemma any_agent_run:
  assumes "redeem_secret_lease (ah_redeem h) (ag_grant run) (ac_worker c)
     (ah_now h (w\<lparr>aw_runner := mark_started scope_agent (aw_runner w), aw_beating := False, aw_stop := None\<rparr>)) [] = Inr secrets"
  shows "told_any P w (execute_agent_run h c d run w)"
proof -
  let ?w0 = "w\<lparr>aw_runner := mark_started scope_agent (aw_runner w), aw_beating := False, aw_stop := None\<rparr>"
  let ?p = "[(''agentId'', VStr (local_agent c)), (''workerId'', VStr (ac_worker c)), (''heartbeatAt'', VStr (ah_stamp h w)),
               (''providerId'', VStr (ag_provider run))]"
  obtain a w1 where w1: "agent_callback h c secrets ''running'' ?p [] [] [] [] ?w0 = (a, w1)" by fastforce
  have t0: "told_any P w ?w0" by (rule told_any_same) simp
  have t1: "told_any P w w1" using any_callback [OF t0, of "''running''" ?p "[]" "[]" "[]" "[]"] unfolding w1 by simp
  have ack: "told_any P w (acknowledge_agent h c secrets s w1)" for s
    by (rule told_any_trans [OF t1 told_anyI [OF chat.told_acknowledge]])
  have run: "told_any P w (run_agent h c d secrets r st w1)" for r st by (rule told_any_trans [OF t1 any_run])
  show ?thesis using ack run assms by (simp add: execute_agent_run_def w1 Let_def split: option.split)
qed

end

end
