(* ===== verification/AgentResults.thy ===== *)
theory AgentResults
  imports AgentSafety
begin

text \<open>The properties of agent runs and conversations, over the lemmas of \<open>AgentSafety\<close>.\<close>

subsection \<open>Reports and secrets\<close>

definition events_clean :: "secret_values \<Rightarrow> hermes_client \<Rightarrow> agent_report \<Rightarrow> bool" where
  "events_clean secrets cl rep \<longleftrightarrow> (\<forall>e \<in> set (gr_events rep). shows_none secrets cl (cv_text e))"

definition secrets_kept :: "secret_values \<Rightarrow> agent_report \<Rightarrow> bool" where
  "secrets_kept secrets rep \<longleftrightarrow> (\<forall>s \<in> snd ` set secrets. removable s \<longrightarrow> ascii s \<longrightarrow> clean_report s rep)"

interpretation talk: report_policy h c secrets cl "events_clean secrets cl" for h c secrets cl
  by unfold_locales (simp_all add: events_clean_def agent_report_of_def)

lemma event_kept:
  assumes "\<not> contains text s" and "s \<noteq> []"
  shows "clean_report s \<lparr>gr_status = ''running'', gr_payload = VMap [], gr_tools = VMaps [], gr_artifacts = VMaps [],
    gr_external = [], gr_error = [], gr_events = [\<lparr>cv_type = ty, cv_id = i, cv_message = m, cv_text = text\<rparr>], gr_delivered = b\<rparr>"
  using assms by (auto simp: clean_report_def shown_in_def elim: holds_text_MapE holds_text_MapsE)

interpretation kept: run_policy h c secrets "secrets_kept secrets" for h c secrets
  by unfold_locales (auto simp: secrets_kept_def removable_def intro!: clean_agent_report event_kept)

lemma stream_chat_told:
  "\<exists>x. told (events_clean secrets cl) x w (snd (stream_chat h c d secrets cl run ext w)) \<and> shows_none secrets cl x"
proof -
  obtain q w0 where w0: "hermes_request_to h cl ''GET'' (''/v1/runs/'' @ ext @ ''/events'') None [] w = (q, w0)" by fastforce
  have same: "aw_reports w0 = aw_reports w"
    using request_frame(2) [of h cl "''GET''" "''/v1/runs/'' @ ext @ ''/events''" None "[]" w] w0 by simp
  show ?thesis
  proof (cases q)
    case (Inl e)
    then have "snd (stream_chat h c d secrets cl run ext w) = w0" using w0 by (simp add: stream_chat_def)
    then show ?thesis using told_same [OF same] shows_none_Nil by metis
  next
    case (Inr x)
    obtain body broken where "x = (body, broken)" by fastforce
    then have s: "snd (stream_chat h c d secrets cl run ext w) = snd (chat_stream h c d secrets cl run ext (scanned_lines body) [] [] 0 w0)"
      using w0 Inr by (simp add: stream_chat_def)
    obtain x where "told (events_clean secrets cl) x w0 (snd (chat_stream h c d secrets cl run ext (scanned_lines body) [] [] 0 w0))"
      "shows_none secrets cl ([] @ x)" using talk.told_stream [OF shows_none_Nil] by blast
    then show ?thesis unfolding s using told_shift(1) [OF same] by auto
  qed
qed

text \<open>C10: whatever a Hermes server streams and wherever it cuts, what the runner has published of a conversation, all deltas put
  together, shows neither the token of the client nor the key of its tool grant nor a leased secret, and no single
  event shows one. This is for a token, key or secret that is ASCII, not empty, without brackets and no part of the
  word that replaces it, \<^verbatim>\<open>REDACTED\<close>.\<close>

theorem chat_publishes_no_credential:
  assumes "removable t" and "ascii t" and "t = hc_token cl \<or> t = hc_session cl \<or> t \<in> snd ` set secrets"
  shows "let new = drop (length (aw_reports w)) (aw_reports (snd (stream_chat h c d secrets cl run ext w))) in
    \<not> contains (deltas new) t \<and> list_all (\<lambda>rep. list_all (\<lambda>e. \<not> contains (cv_text e) t) (gr_events rep)) new"
proof -
  obtain x where x: "told (events_clean secrets cl) x w (snd (stream_chat h c d secrets cl run ext w))" "shows_none secrets cl x"
    using stream_chat_told by blast
  then obtain new where new: "aw_reports (snd (stream_chat h c d secrets cl run ext w)) = aw_reports w @ new"
    "\<forall>r \<in> set new. events_clean secrets cl r" "deltas new = x" by (auto simp: told_def)
  have t: "credential secrets cl t" using assms by (simp add: credential_def)
  show ?thesis using new x(2) t by (auto simp: Let_def list_all_iff events_clean_def shows_none_def)
qed

text \<open>No report of an agent run, whatever its kind, shows a leased secret in any field or event.\<close>

theorem agent_run_keeps_secrets:
  assumes "redeem_secret_lease (ah_redeem h) (ag_grant run) (ac_worker c)
     (ah_now h (w\<lparr>aw_runner := mark_started scope_agent (aw_runner w), aw_beating := False, aw_stop := None\<rparr>)) [] = Inr secrets"
    and "s \<in> snd ` set secrets" and "removable s" and "ascii s"
  shows "\<exists>new. aw_reports (execute_agent_run h c d run w) = aw_reports w @ new \<and> list_all (clean_report s) new"
proof -
  obtain new where "aw_reports (execute_agent_run h c d run w) = aw_reports w @ new" "\<forall>r \<in> set new. secrets_kept secrets r"
    using kept.any_agent_run [OF assms(1), of d] unfolding told_any_new by blast
  then show ?thesis using assms(2-4) by (auto simp: secrets_kept_def list_all_iff)
qed

subsection \<open>Runs of the Hermes server\<close>

definition stop_request :: "string \<Rightarrow> hermes_request" where
  "stop_request ext = \<lparr>hq_method = ''POST'', hq_path = ''/v1/runs/'' @ ext @ ''/stop'', hq_body = Some (VMap []), hq_key = [],
     hq_session = []\<rparr>"

definition get_request :: "string \<Rightarrow> hermes_request" where
  "get_request path = \<lparr>hq_method = ''GET'', hq_path = path, hq_body = None, hq_key = [], hq_session = []\<rparr>"

lemma request_logged:
  "aw_requests (snd (hermes_request_to h cl m p b k w)) = aw_requests w @ [\<lparr>hq_method = m, hq_path = p, hq_body = b, hq_key = k,
     hq_session = (if m = ''POST'' \<and> p = ''/v1/runs'' then hc_session cl else [])\<rparr>]"
  by (simp add: hermes_request_to_def Let_def split: http_answer.split)

lemma json_logged:
  "aw_requests (snd (hermes_json h cl m p b k f w)) = aw_requests w @ [\<lparr>hq_method = m, hq_path = p, hq_body = b, hq_key = k,
     hq_session = (if m = ''POST'' \<and> p = ''/v1/runs'' then hc_session cl else [])\<rparr>]"
proof -
  obtain r w1 where w1: "hermes_request_to h cl m p b k w = (r, w1)" by fastforce
  have "aw_requests (snd (hermes_json h cl m p b k f w)) = aw_requests w1" by (simp add: hermes_json_def w1 split: sum.split prod.split)
  then show ?thesis using request_logged [of h cl m p b k w] unfolding w1 by simp
qed

lemma get_logged: "aw_requests (snd (hermes_json h cl ''GET'' p None [] f w)) = aw_requests w @ [get_request p]"
  by (simp add: json_logged get_request_def)

lemma stop_logged:
  "aw_requests (snd (hermes_json h cl ''POST'' (''/v1/runs/'' @ ext @ ''/stop'') (Some (VMap [])) [] f w)) = aw_requests w @ [stop_request ext]"
  by (simp add: json_logged stop_request_def)

lemma publish_requests: "aw_requests (snd (publish_event h c ev w)) = aw_requests w"
  "aw_requests (snd (publish_delta h c run n t w)) = aw_requests w"
proof -
  have e: "aw_requests (snd (publish_event h c ev w)) = aw_requests w" for ev
  proof -
    obtain a w1 where w1: "deliver h c \<lparr>gr_status = ''running'', gr_payload = VMap [], gr_tools = VMaps [], gr_artifacts = VMaps [],
         gr_external = [], gr_error = [], gr_events = [ev], gr_delivered = False\<rparr> w = (a, w1)" by fastforce
    then have "aw_requests w1 = aw_requests w" using deliver_frame(2) by (metis snd_conv)
    then show ?thesis by (simp add: publish_event_def w1 split: option.split)
  qed
  show "aw_requests (snd (publish_event h c ev w)) = aw_requests w"
    "aw_requests (snd (publish_delta h c run n t w)) = aw_requests w" by (simp_all add: publish_delta_def e)
qed

text \<open>A stream brings a result only through the state of the run, read last. The server has answered the read that follows the
  requests \<open>q\<close> with a completed state of that very run, and \<open>s\<close> is what it says after redaction; a state without output leaves
  the text \<open>out\<close> the stream has brought.\<close>

definition read_completed ::
  "agent_host \<Rightarrow> hermes_decoders \<Rightarrow> secret_values \<Rightarrow> hermes_client \<Rightarrow> string \<Rightarrow> hermes_request list \<Rightarrow> hermes_state \<Rightarrow> bool" where
  "read_completed h d secrets cl ext q s \<longleftrightarrow>
     (\<exists>v s0 out. aw_requests v = q \<and> fst (hermes_json h cl ''GET'' (''/v1/runs/'' @ ext) None [] (hd_state d) v) = Inr s0
       \<and> st_run s0 = ext \<and> st_state s0 = ''completed''
       \<and> st_output s = safe_chat_text h secrets cl (if st_output s0 = [] then out else st_output s0)
       \<and> trim_space (st_output s) \<noteq> [] \<and> st_model s = safe_chat_text h secrets cl (st_model s0))"

lemma finish_reads_state:
  assumes "finish_stream h c d secrets cl run ext out pub n w = (Inr s, w')"
  shows "aw_requests w' = aw_requests w @ [get_request (''/v1/runs/'' @ ext)] \<and> read_completed h d secrets cl ext (aw_requests w) s"
proof -
  obtain r w1 where w1: "completed_chat h d secrets cl ext out w = (r, w1)" by fastforce
  obtain j w0 where w0: "hermes_json h cl ''GET'' (''/v1/runs/'' @ ext) None [] (hd_state d) w = (j, w0)" by fastforce
  have q: "aw_requests w1 = aw_requests w @ [get_request (''/v1/runs/'' @ ext)]"
    using w1 w0 get_logged [of h cl "''/v1/runs/'' @ ext" "hd_state d" w] by (auto simp: completed_chat_def split: sum.splits)
  obtain s1 where s1: "r = Inr s1" using assms by (cases r) (simp_all add: finish_stream_def w1)
  obtain s0 where s0: "j = Inr s0" "st_run s0 = ext" "st_state s0 = ''completed''"
    "st_output s1 = safe_chat_text h secrets cl (if st_output s0 = [] then out else st_output s0)"
    "trim_space (st_output s1) \<noteq> []" "st_model s1 = safe_chat_text h secrets cl (st_model s0)"
    using w1 w0 s1 by (cases j) (auto simp: completed_chat_def Let_def split: if_splits)
  have st: "read_completed h d secrets cl ext (aw_requests w) s1"
    unfolding read_completed_def using w0 s0 by (intro exI [of _ w] exI [of _ s0] exI [of _ out]) simp
  obtain e2 w2 where w2: "(if has_prefix (st_output s1) pub
        then publish_delta h c run (Suc n) (drop (length pub) (st_output s1)) w1 else (None, w1)) = (e2, w2)" by fastforce
  have q2: "aw_requests w2 = aw_requests w1" using w2 publish_requests(2) by (metis snd_conv)
  have n: "e2 = None" using assms s1 by (cases e2) (simp_all add: finish_stream_def w1 w2)
  let ?ev = "\<lparr>cv_type = ''message.done'', cv_id = ''chat:done'', cv_message = ag_id run @ '':reply'', cv_text = st_output s1\<rparr>"
  obtain e3 w3 where w3: "publish_event h c ?ev w2 = (e3, w3)" by fastforce
  have q3: "aw_requests w3 = aw_requests w2" using w3 publish_requests(1) by (metis snd_conv)
  have "s = s1 \<and> w' = w3" using assms s1 n by (cases e3) (simp_all add: finish_stream_def w1 w2 w3)
  with q q2 q3 st show ?thesis by simp
qed

lemma stream_reads_state:
  "chat_stream h c d secrets cl run ext lines out pub n w = (Inr s, w') \<Longrightarrow>
   aw_requests w' = aw_requests w @ [get_request (''/v1/runs/'' @ ext)] \<and> read_completed h d secrets cl ext (aw_requests w) s"
proof (induction lines arbitrary: out pub n w)
  case (Cons line rest)
  let ?w = "happen_agent h c secrets run w"
  have same: "aw_requests ?w = aw_requests w" by (simp add: agent_frame)
  have go: ?case if "chat_stream h c d secrets cl run ext rest o1 p1 n1 v = (Inr s, w')" "aw_requests v = aw_requests w" for o1 p1 n1 v
    using Cons.IH [OF that(1)] that(2) by simp
  show ?case
  proof (cases "has_prefix line ''data:''")
    case False
    then show ?thesis using Cons.prems same by (intro go [of out pub n ?w]) (simp_all add: chat_stream.simps(2))
  next
    case data: True
    obtain ev where ev: "hd_event d (trim_space (drop 5 line)) = Some ev"
      using Cons.prems data by (cases "hd_event d (trim_space (drop 5 line))") (auto simp: chat_stream.simps(2) Let_def)
    note st = chat_stream.simps(2) [of h c d secrets cl run ext line rest out pub n w, unfolded Let_def, simplified data ev, simplified]
    have run: "he_run ev = ext" using Cons.prems by (auto simp: st split: if_splits)
    consider "he_event ev = ''message.delta''" | "he_event ev = ''run.completed''"
      | "he_event ev \<noteq> ''message.delta''" "he_event ev \<noteq> ''run.completed''" by blast
    then show ?thesis
    proof cases
      case 1
      let ?out = "out @ he_delta ev"
      have small: "\<not> max_output_runes < rune_length ?out" using Cons.prems 1 run by (auto simp: st split: if_splits)
      consider "next_text h secrets cl ?out pub = None" | e where "next_text h secrets cl ?out pub = Some (Inl e)"
        | new where "next_text h secrets cl ?out pub = Some (Inr new)"
        by (metis option.exhaust sum.exhaust)
      then show ?thesis
      proof cases
        case a: 1
        show ?thesis using Cons.prems 1 run small a same by (intro go [of ?out pub n ?w]) (simp_all add: st)
      next
        case a: 2
        then show ?thesis using Cons.prems 1 run small by (simp add: st)
      next
        case a: 3
        obtain e1 w1 where w1: "publish_delta h c run (Suc n) (drop (length pub) new) ?w = (e1, w1)" by fastforce
        have q: "aw_requests w1 = aw_requests w" using w1 publish_requests(2) same by (metis snd_conv)
        have "e1 = None" using Cons.prems 1 run small a w1 by (cases e1) (simp_all add: st)
        then have "chat_stream h c d secrets cl run ext rest ?out new (Suc n) w1 = (Inr s, w')"
          using Cons.prems 1 run small a w1 by (simp add: st)
        then show ?thesis using q by (rule go)
      qed
    next
      case 2
      have "finish_stream h c d secrets cl run ext (he_output ev) pub n ?w = (Inr s, w')" using Cons.prems 2 run by (simp add: st)
      from finish_reads_state [OF this] same show ?thesis by simp
    next
      case 3
      have "chat_stream h c d secrets cl run ext rest out pub n ?w = (Inr s, w')"
        using Cons.prems 3 run by (auto simp: st split: if_splits)
      then show ?thesis using same by (rule go)
    qed
  qed
qed simp

lemma started_stops:
  "case chat_started h c d secrets cl run ext w of
     (Inl e, w') \<Rightarrow> last (aw_requests w') = stop_request ext
   | (Inr res, w') \<Rightarrow> map_get res ''externalRunId'' = VStr ext
       \<and> aw_requests w' = aw_requests w @ [get_request (''/v1/runs/'' @ ext @ ''/events''), get_request (''/v1/runs/'' @ ext)]
       \<and> (\<exists>s. read_completed h d secrets cl ext (aw_requests w @ [get_request (''/v1/runs/'' @ ext @ ''/events'')]) s
            \<and> map_get res ''summary'' = VStr (st_output s) \<and> map_get res ''model'' = VStr (st_model s))"
proof -
  obtain a w1 where w1: "agent_callback h c secrets ''running'' [] [] [] ext [] w = (a, w1)" by fastforce
  have q1: "aw_requests w1 = aw_requests w" using w1 agent_callback_frame(2) by (metis snd_conv)
  obtain r w2 where w2: "stream_chat h c d secrets cl run ext w1 = (r, w2)" by fastforce
  have q2: "aw_requests w2 = aw_requests w1 @ [get_request (''/v1/runs/'' @ ext @ ''/events''), get_request (''/v1/runs/'' @ ext)]
      \<and> read_completed h d secrets cl ext (aw_requests w1 @ [get_request (''/v1/runs/'' @ ext @ ''/events'')]) s"
    if "r = Inr s" for s
  proof -
    obtain q w0 where w0: "hermes_request_to h cl ''GET'' (''/v1/runs/'' @ ext @ ''/events'') None [] w1 = (q, w0)" by fastforce
    have "aw_requests w0 = aw_requests w1 @ [get_request (''/v1/runs/'' @ ext @ ''/events'')]"
      using request_logged [of h cl "''GET''" "''/v1/runs/'' @ ext @ ''/events''" None "[]" w1] w0 by (simp add: get_request_def)
    moreover have "(case q of Inl e \<Rightarrow> (Inl e, w0)
       | Inr (body, broken) \<Rightarrow> chat_stream h c d secrets cl run ext (scanned_lines body) [] [] 0 w0) = (Inr s, w2)"
      using w2 [unfolded stream_chat_def w0 that] by (cases q) simp_all
    then obtain body where "chat_stream h c d secrets cl run ext (scanned_lines body) [] [] 0 w0 = (Inr s, w2)"
      by (cases q) auto
    ultimately show ?thesis using stream_reads_state by fastforce
  qed
  show ?thesis
  proof (cases a)
    case None
    then show ?thesis by (simp add: chat_started_def w1 Let_def stop_logged [simplified])
  next
    case (Some x)
    show ?thesis
    proof (cases r)
      case (Inl e)
      then show ?thesis using Some by (simp add: chat_started_def w1 w2 Let_def stop_logged [simplified])
    next
      case (Inr s)
      then show ?thesis using Some q1 q2 [OF Inr] by (simp add: chat_started_def w1 w2 Let_def map_get_def) blast
    qed
  qed
qed

text \<open>C28: once the server has accepted a conversation under a valid identity, one of two things happens. Either the runner has
  asked exactly for its events and then its state, the server has answered that last read with a completed state of that very run,
  and the result is the redacted text and model of that state (the text of the stream when the state has none, and never blank)
  under the accepted identity; or the last thing the runner asks of the server is to stop that run.\<close>

theorem chat_stopped_unless_completed:
  assumes "hermes_json h cl ''POST'' ''/v1/runs'' (Some body) (ag_id run) (hd_state d) w = (Inr s, w1)" and "valid_hermes_id (st_run s)"
  shows "case submit_chat h c d secrets cl run body w of
     (Inl e, w') \<Rightarrow> last (aw_requests w') = stop_request (st_run s)
   | (Inr res, w') \<Rightarrow> map_get res ''externalRunId'' = VStr (st_run s)
       \<and> aw_requests w' = aw_requests w1 @ [get_request (''/v1/runs/'' @ st_run s @ ''/events''), get_request (''/v1/runs/'' @ st_run s)]
       \<and> (\<exists>s1. read_completed h d secrets cl (st_run s) (aw_requests w1 @ [get_request (''/v1/runs/'' @ st_run s @ ''/events'')]) s1
            \<and> map_get res ''summary'' = VStr (st_output s1) \<and> map_get res ''model'' = VStr (st_model s1))"
  using started_stops [where ext = "st_run s" and w = w1 and h = h and c = c and d = d and secrets = secrets and cl = cl and run = run] assms by (simp add: submit_chat_def)

subsection \<open>Providers\<close>

lemma stream_registry: "aw_registry (snd (chat_stream h c d secrets cl run ext lines out pub n w)) = aw_registry w"
proof -
  have p: "aw_registry (snd (publish_event h c ev w)) = aw_registry w" for ev w
  proof -
    obtain a w1 where w1: "deliver h c \<lparr>gr_status = ''running'', gr_payload = VMap [], gr_tools = VMaps [], gr_artifacts = VMaps [],
         gr_external = [], gr_error = [], gr_events = [ev], gr_delivered = False\<rparr> w = (a, w1)" by fastforce
    then have "aw_registry w1 = aw_registry w" using deliver_frame(1) by (metis snd_conv)
    then show ?thesis by (simp add: publish_event_def w1 split: option.split)
  qed
  have pd: "publish_event h c ev v = (a, v') \<Longrightarrow> aw_registry v' = aw_registry v"
    "publish_delta h c run k t v = (a, v') \<Longrightarrow> aw_registry v' = aw_registry v" for ev v a v' k t
    using p by (auto simp: publish_delta_def split: if_splits) (metis snd_conv)+
  have pd1: "aw_registry (snd (publish_delta h c run k t v)) = aw_registry v" for k t v
    by (simp add: publish_delta_def p)
  have cc: "aw_registry (snd (completed_chat h d secrets cl ext out w)) = aw_registry w" for out w
  proof -
    obtain j w1 where w1: "hermes_json h cl ''GET'' (''/v1/runs/'' @ ext) None [] (hd_state d) w = (j, w1)" by fastforce
    have "aw_registry w1 = aw_registry w" using w1 json_frame(1) by (metis snd_conv)
    then show ?thesis unfolding completed_chat_def w1 by (simp split: sum.split)
  qed
  have f: "aw_registry (snd (finish_stream h c d secrets cl run ext out pub n w)) = aw_registry w" for out pub n w
  proof -
    obtain r w1 where w1: "completed_chat h d secrets cl ext out w = (r, w1)" by fastforce
    have q1: "aw_registry w1 = aw_registry w" using w1 cc by (metis snd_conv)
    show ?thesis
    proof (cases r)
      case (Inr s)
      obtain e2 w2 where w2: "(if has_prefix (st_output s) pub
          then publish_delta h c run (Suc n) (drop (length pub) (st_output s)) w1 else (None, w1)) = (e2, w2)" by fastforce
      have q2: "aw_registry w2 = aw_registry w1" using w2 pd1 by (metis snd_conv)
      let ?ev = "\<lparr>cv_type = ''message.done'', cv_id = ''chat:done'', cv_message = ag_id run @ '':reply'', cv_text = st_output s\<rparr>"
      have "snd (finish_stream h c d secrets cl run ext out pub n w) = (if e2 = None then snd (publish_event h c ?ev w2) else w2)"
        by (simp add: finish_stream_def w1 Inr w2 split: prod.split option.split)
      then show ?thesis using q1 q2 p [of ?ev w2] by simp
    qed (simp add: finish_stream_def w1 q1)
  qed
  show ?thesis
  proof (induction lines arbitrary: out pub n w)
    case (Cons line rest)
    have hp: "aw_registry (happen_agent h c secrets run w) = aw_registry w" by (simp add: agent_frame)
    show ?case
      by (simp add: chat_stream.simps(2) Let_def Cons.IH f hp split: option.split sum.split prod.split) (auto simp: hp dest!: pd)
  qed simp
qed

lemma client_registry: "aw_registry (snd (chat_with_client h c d secrets cl run input w)) = aw_registry w"
proof -
  have r: "hermes_request_to h cl m p b k v = (a, v') \<Longrightarrow> aw_registry v' = aw_registry v" for cl m p b k v a v'
    using request_frame(1) [of h cl m p b k v] by simp
  have j: "aw_registry (snd (hermes_json h cl m p b k f v)) = aw_registry v" for cl m p b k v and f :: "string \<Rightarrow> 'a option"
    by (simp add: agent_frame)
  have s: "aw_registry (snd (stream_chat h c d secrets cl run ext v)) = aw_registry v" for cl ext v
    by (auto simp: stream_chat_def stream_registry split: sum.split prod.split dest!: r)
  have st: "aw_registry (snd (chat_started h c d secrets cl run ext v)) = aw_registry v" for cl ext v
  proof -
    obtain a w1 where w1: "agent_callback h c secrets ''running'' [] [] [] ext [] v = (a, w1)" by fastforce
    have q1: "aw_registry w1 = aw_registry v" using w1 agent_callback_frame(1) by (metis snd_conv)
    obtain b w2 where w2: "stream_chat h c d secrets cl run ext w1 = (b, w2)" by fastforce
    have q2: "aw_registry w2 = aw_registry w1" using w2 s by (metis snd_conv)
    show ?thesis using q1 q2 by (simp add: chat_started_def w1 w2 Let_def agent_frame split: option.split sum.split)
  qed
  have sub: "aw_registry (snd (submit_chat h c d secrets cl run body v)) = aw_registry v" for cl body v
  proof -
    obtain q w1 where w1: "hermes_json h cl ''POST'' ''/v1/runs'' (Some body) (ag_id run) (hd_state d) v = (q, w1)" by fastforce
    have "aw_registry w1 = aw_registry v"
      using json_frame(1) [of h cl "''POST''" "''/v1/runs''" "Some body" "ag_id run" "hd_state d" v] w1 by simp
    then show ?thesis using st by (simp add: submit_chat_def w1 split: sum.split)
  qed
  obtain a w1 where w1: "check_ready h d cl w = (a, w1)" by fastforce
  have q1: "aw_registry w1 = aw_registry w"
  proof -
    have j1: "hermes_json h cl m p b k (hd_features d) v = (x, v') \<Longrightarrow> aw_registry v' = aw_registry v" for m p b k v x v'
      using json_frame(1) [of h cl m p b k "hd_features d" v] by simp
    have j2: "hermes_json h cl m p b k (hd_health d) v = (x, v') \<Longrightarrow> aw_registry v' = aw_registry v" for m p b k v x v'
      using json_frame(1) [of h cl m p b k "hd_health d" v] by simp
    have j3: "hermes_json h cl m p b k (hd_toolsets d) v = (x, v') \<Longrightarrow> aw_registry v' = aw_registry v" for m p b k v x v'
      using json_frame(1) [of h cl m p b k "hd_toolsets d" v] by simp
    from w1 show ?thesis
      by (auto simp: check_ready_def split: prod.splits sum.splits if_splits option.splits dest!: j1 j2 j3)
  qed
  obtain key w2 where w2: "begin_grant h run w1 = (key, w2)" by fastforce
  have q2: "aw_registry w2 = aw_registry w1" using w2 by (auto simp: begin_grant_def Let_def split: if_splits)
  have q3: "aw_registry (end_grant key v) = aw_registry v" for v by (simp add: end_grant_def)
  show ?thesis using q1 q2 q3 sub by (simp add: chat_with_client_def w1 w2 case_prod_unfold Let_def split: option.split)
qed

lemma cli_registry: "aw_registry (snd (execute_cli h c secrets run spec w)) = aw_registry w"
proof -
  obtain items w1 where w1: "prefetch_context h run (ag_tools run) [] w = (items, w1)" by fastforce
  have s: "aw_registry w1 = aw_registry w" using prefetch_reports [of h run "ag_tools run" "[]" w] w1 by simp
  show ?thesis using s
    by (simp add: execute_cli_def Let_def w1 case_prod_unfold agent_frame split: option.split sum.split)
qed

text \<open>What acquires and releases a provider around work that leaves the registry alone is a legal history.\<close>

lemma hold_and_return:
  assumes "registry_run digest url r held" and "acquire_provider i v vn now r = (Inr p, r1)"
  shows "registry_run digest url (release_provider (pv_id p) later r1) held"
proof -
  have "registry_run digest url r1 ((pv_id p, pv_version p) # held)" by (rule run_acquire [OF assms])
  from run_release [OF this, of "pv_id p" "pv_version p" later] show ?thesis by simp
qed

lemma provider_returned:
  assumes "registry_run digest url (aw_registry w) held"
  shows "registry_run digest url (aw_registry (snd (execute_provider h c secrets run w))) held"
proof -
  let ?key = "provider_key run"
  let ?spec = "command_spec_of c (aw_registry w) ?key"
  show ?thesis
  proof (cases "?key \<noteq> ''hermes'' \<and> trim_space (cs_command ?spec) = [] \<or> resolve_provider (aw_registry w) ?key [] = None")
    case True
    then have "aw_registry (snd (execute_provider h c secrets run w)) = aw_registry w"
      by (auto simp: execute_provider_def Let_def cli_registry)
    with assms show ?thesis by simp
  next
    case False
    obtain a r where r: "acquire_provider ?key [] None (ah_now h w) (aw_registry w) = (a, r)" by fastforce
    show ?thesis
    proof (cases a)
      case (Inl e)
      then have "aw_registry (snd (execute_provider h c secrets run w)) = r" using False r by (auto simp: execute_provider_def Let_def)
      with run_refused [OF assms r [unfolded Inl]] show ?thesis by simp
    next
      case (Inr p)
      obtain res w1 where w1: "execute_cli h c secrets run ?spec (w\<lparr>aw_registry := r\<rparr>) = (res, w1)" by fastforce
      have "aw_registry w1 = r" using cli_registry [of h c secrets run ?spec "w\<lparr>aw_registry := r\<rparr>"] w1 by simp
      then have "aw_registry (snd (execute_provider h c secrets run w)) = release_provider (pv_id p) (ah_now h w1) r"
        using False r Inr w1 by (auto simp: execute_provider_def Let_def)
      with hold_and_return [OF assms r [unfolded Inr]] show ?thesis by simp
    qed
  qed
qed

lemma execute_chat_cases:
  "snd (execute_chat h c d secrets run w) = w
   \<or> (\<exists>i v vn e r. acquire_provider i v vn (ah_now h w) (aw_registry w) = (Inl e, r)
        \<and> snd (execute_chat h c d secrets run w) = w\<lparr>aw_registry := r\<rparr>)
   \<or> (\<exists>i v vn p r w2. acquire_provider i v vn (ah_now h w) (aw_registry w) = (Inr p, r)
        \<and> snd (execute_chat h c d secrets run w) = w2\<lparr>aw_registry := release_provider (pv_id p) (ah_now h w2) (aw_registry w2)\<rparr>
        \<and> (w2 = w\<lparr>aw_registry := r\<rparr> \<or> (\<exists>cl input. w2 = snd (chat_with_client h c d secrets cl run input (w\<lparr>aw_registry := r\<rparr>)))))"
proof (cases "ag_chat run")
  case chat: (Some input)
  show ?thesis
  proof (cases "resolve_provider (aw_registry w) (ag_provider run) []")
    case p: (Some p)
    show ?thesis
    proof (cases "''general'' \<in> set (pv_capabilities p) \<and> (\<exists>vn. ag_pin run = Some (pv_version p, vn) \<and> vn \<noteq> 0)")
      case False
      then have "snd (execute_chat h c d secrets run w) = w" using chat p by (auto simp: execute_chat_def split: option.split)
      then show ?thesis by blast
    next
      case True
      then obtain vn where pin: "ag_pin run = Some (pv_version p, vn)" "vn \<noteq> 0" "''general'' \<in> set (pv_capabilities p)" by blast
      obtain a r where r: "acquire_provider (pv_id p) (pv_version p) (Some vn) (ah_now h w) (aw_registry w) = (a, r)" by fastforce
      show ?thesis
      proof (cases a)
        case (Inl e)
        then have "snd (execute_chat h c d secrets run w) = w\<lparr>aw_registry := r\<rparr>" using chat p pin r by (simp add: execute_chat_def)
        with r Inl show ?thesis by blast
      next
        case (Inr q)
        obtain res w2 where w2: "(case hermes_client_for d c q of Inl e \<Rightarrow> (Inl e, w\<lparr>aw_registry := r\<rparr>)
            | Inr cl \<Rightarrow> chat_with_client h c d secrets cl run input (w\<lparr>aw_registry := r\<rparr>)) = (res, w2)" by fastforce
        have "snd (execute_chat h c d secrets run w) = w2\<lparr>aw_registry := release_provider (pv_id q) (ah_now h w2) (aw_registry w2)\<rparr>"
          using chat p pin r Inr w2 by (simp add: execute_chat_def Let_def)
        moreover have "w2 = w\<lparr>aw_registry := r\<rparr> \<or> (\<exists>cl input. w2 = snd (chat_with_client h c d secrets cl run input (w\<lparr>aw_registry := r\<rparr>)))"
          using w2 by (cases "hermes_client_for d c q") (simp_all, metis snd_conv)
        ultimately show ?thesis using r Inr by blast
      qed
    qed
  qed (use chat in \<open>simp add: execute_chat_def\<close>)
qed (simp add: execute_chat_def)

lemma chat_provider_returned:
  assumes "registry_run digest url (aw_registry w) held"
  shows "registry_run digest url (aw_registry (snd (execute_chat h c d secrets run w))) held"
  using execute_chat_cases [of h c d secrets run w]
proof (elim disjE exE conjE)
  assume "snd (execute_chat h c d secrets run w) = w"
  then show ?thesis using assms by simp
next
  fix i v vn e r
  assume a: "acquire_provider i v vn (ah_now h w) (aw_registry w) = (Inl e, r)"
    and e: "snd (execute_chat h c d secrets run w) = w\<lparr>aw_registry := r\<rparr>"
  show ?thesis unfolding e using run_refused [OF assms a] by simp
next
  fix i v vn p r w2
  assume a: "acquire_provider i v vn (ah_now h w) (aw_registry w) = (Inr p, r)"
    and e: "snd (execute_chat h c d secrets run w) = w2\<lparr>aw_registry := release_provider (pv_id p) (ah_now h w2) (aw_registry w2)\<rparr>"
    and w2: "w2 = w\<lparr>aw_registry := r\<rparr>"
  show ?thesis unfolding e using hold_and_return [OF assms a] w2 by simp
next
  fix i v vn p r w2 cl input
  assume a: "acquire_provider i v vn (ah_now h w) (aw_registry w) = (Inr p, r)"
    and e: "snd (execute_chat h c d secrets run w) = w2\<lparr>aw_registry := release_provider (pv_id p) (ah_now h w2) (aw_registry w2)\<rparr>"
    and w2: "w2 = snd (chat_with_client h c d secrets cl run input (w\<lparr>aw_registry := r\<rparr>))"
  show ?thesis unfolding e using hold_and_return [OF assms a] client_registry [of h c d secrets cl run input "w\<lparr>aw_registry := r\<rparr>"] w2
    by simp
qed

lemma executor_returns:
  "registry_run digest url (aw_registry w) held \<Longrightarrow> registry_run digest url (aw_registry (snd (agent_executor h c d secrets run w))) held"
  using provider_returned [of digest url w held h c secrets run] chat_provider_returned [of digest url w held h c d secrets run]
  by (auto simp: agent_executor_def split: sum.split prod.split)

lemma final_registry:
  "aw_registry (mark_agent s w) = aw_registry w" "aw_registry (finish_chat_run h c secrets run out err w) = aw_registry w"
  "aw_registry (fail_run h c secrets run st r e w) = aw_registry w" "aw_registry (complete_run h c secrets run st r w) = aw_registry w"
  by (simp_all add: mark_agent_def finish_chat_run_def fail_run_def complete_run_def Let_def case_prod_unfold agent_frame)

text \<open>C11: an agent run, whatever its kind and its end, is a legal history of the provider registry that gives back what it held:
  the runs charged to the providers are the same after it, so no run blocks a later catalog for good.\<close>

theorem agent_run_returns_provider:
  assumes "registry_run digest url (aw_registry w) held"
  shows "registry_run digest url (aw_registry (execute_agent_run h c d run w)) held"
proof -
  have r: "registry_run digest url (aw_registry (run_agent h c d secrets run' st v)) held" if "aw_registry v = aw_registry w" for secrets run' st v
  proof -
    let ?v0 = "happen_agent h c secrets run' (v\<lparr>aw_beating := True\<rparr>)"
    obtain res v1 where v1: "agent_executor h c d secrets run' ?v0 = (res, v1)" by fastforce
    have "registry_run digest url (aw_registry ?v0) held" using assms that by (simp add: agent_frame)
    from executor_returns [OF this, of h c d secrets run'] have "registry_run digest url (aw_registry v1) held" unfolding v1 by simp
    then show ?thesis by (simp add: run_agent_def v1 Let_def agent_frame final_registry split: option.split)
  qed
  let ?w0 = "w\<lparr>aw_runner := mark_started scope_agent (aw_runner w), aw_beating := False, aw_stop := None\<rparr>"
  show ?thesis
  proof (cases "redeem_secret_lease (ah_redeem h) (ag_grant run) (ac_worker c) (ah_now h ?w0) []")
    case (Inl e)
    then show ?thesis using assms by (simp add: execute_agent_run_def Let_def final_registry agent_frame)
  next
    case (Inr secrets)
    let ?p = "[(''agentId'', VStr (local_agent c)), (''workerId'', VStr (ac_worker c)), (''heartbeatAt'', VStr (ah_stamp h w)),
               (''providerId'', VStr (ag_provider run))]"
    obtain a w1 where w1: "agent_callback h c secrets ''running'' ?p [] [] [] [] ?w0 = (a, w1)" by fastforce
    have q: "aw_registry w1 = aw_registry w" using agent_callback_frame(1) [of h c secrets "''running''" ?p "[]" "[]" "[]" "[]" ?w0] unfolding w1 by simp
    show ?thesis using Inr r [OF q] assms by (simp add: execute_agent_run_def w1 Let_def agent_frame q split: option.split)
  qed
qed

text \<open>A run is carried out under its provider's kind, while the registry knows providers by their ids. For a run of kind
  Hermes the registry is not asked when no provider has that very id: the built-in command runs, whatever the
  registry says of the run's own provider, and the run is charged to none.\<close>

theorem kind_bypasses_registry:
  assumes "to_lower (first_non_empty [trim_space (ag_kind run), trim_space (ag_provider run)]) = ''hermes''"
    and "map_of (ac_providers c) ''hermes'' = None"
    and "\<forall>p \<in> set (cat_providers (rg_current (aw_registry w))). \<not> equal_fold (pv_id p) ''hermes''"
  shows "execute_provider h c secrets run w = execute_cli h c secrets run (hermes_override c hermes_provider hermes_command) w
    \<and> aw_registry (snd (execute_provider h c secrets run w)) = aw_registry w"
proof -
  have key: "provider_key run = ''hermes''" using assms(1) by (simp add: provider_key_def)
  have trim: "trim_space ''hermes'' = ''hermes''" "to_lower ''hermes'' = ''hermes''" by code_simp+
  have "find (names_provider ''hermes'' []) (cat_providers (rg_current (aw_registry w))) = None"
    using assms(3) trim(1) by (auto simp: find_None_iff names_provider_def)
  then have none: "resolve_provider (aw_registry w) ''hermes'' [] = None" by (simp add: resolve_provider_def)
  have builtin: "default_provider ''hermes'' = Some hermes_provider" by code_simp
  have "pv_default hermes_provider = hermes_command" by (simp add: hermes_provider_def)
  then have spec: "command_spec_of c (aw_registry w) ''hermes'' = hermes_override c hermes_provider hermes_command"
    by (simp only: command_spec_of_def Let_def trim builtin none assms(2) option.case) simp
  have e: "execute_provider h c secrets run w = execute_cli h c secrets run (hermes_override c hermes_provider hermes_command) w"
    by (simp only: execute_provider_def Let_def key spec none option.case) simp
  show ?thesis unfolding e by (simp add: cli_registry)
qed

subsection \<open>Tool calls\<close>

definition budget :: "agent_world \<Rightarrow> nat" where
  "budget w = sum_list (map (\<lambda>(k, g). max_chat_calls - cg_calls g) (aw_grants w))"

definition bindings :: "agent_world \<Rightarrow> gmap set" where
  "bindings w = (\<Union>(k, g) \<in> set (aw_grants w). set (ag_tools (cg_run g)))"

definition bound_request :: "agent_host \<Rightarrow> gmap set \<Rightarrow> tool_request \<Rightarrow> bool" where
  "bound_request h bs r \<longleftrightarrow> (\<exists>b \<in> bs. tq_binding r = text_field (ah_num h) b ''id'' \<and> tq_adapter r = text_field (ah_num h) b ''adapterId''
     \<and> tq_tool r = text_field (ah_num h) b ''toolName'')"

definition spent :: "agent_host \<Rightarrow> agent_world \<Rightarrow> agent_world \<Rightarrow> bool" where
  "spent h w w' \<longleftrightarrow> (\<exists>new. aw_tools w' = aw_tools w @ new \<and> length new + budget w' \<le> budget w
     \<and> (\<forall>r \<in> set new. bound_request h (bindings w) r)) \<and> bindings w' \<subseteq> bindings w"

lemma bound_request_mono: "bound_request h A r \<Longrightarrow> A \<subseteq> B \<Longrightarrow> bound_request h B r"
  by (auto simp: bound_request_def)

lemma spent_trans: "spent h w w' \<Longrightarrow> spent h w' w'' \<Longrightarrow> spent h w w''"
proof -
  assume a: "spent h w w'" and b: "spent h w' w''"
  obtain x where x: "aw_tools w' = aw_tools w @ x" "length x + budget w' \<le> budget w" "\<forall>r \<in> set x. bound_request h (bindings w) r"
    using a by (auto simp: spent_def)
  obtain y where y: "aw_tools w'' = aw_tools w' @ y" "length y + budget w'' \<le> budget w'" "\<forall>r \<in> set y. bound_request h (bindings w') r"
    using b by (auto simp: spent_def)
  have sub: "bindings w' \<subseteq> bindings w" "bindings w'' \<subseteq> bindings w'" using a b by (simp_all add: spent_def)
  have "aw_tools w'' = aw_tools w @ (x @ y)" "length (x @ y) + budget w'' \<le> budget w"
    "\<forall>r \<in> set (x @ y). bound_request h (bindings w) r"
    using x y sub(1) bound_request_mono by auto
  with sub show ?thesis unfolding spent_def by blast
qed

lemma spent_same: "aw_tools w' = aw_tools w \<Longrightarrow> aw_grants w' = aw_grants w \<Longrightarrow> spent h w w'"
  by (simp add: spent_def budget_def bindings_def)

lemma alist_update_subset: "set (AList.update k v m) \<subseteq> insert (k, v) (set m)"
  by (induction m) auto

lemma sum_update:
  fixes f :: "'v \<Rightarrow> nat"
  shows "map_of m k = Some v \<Longrightarrow> sum_list (map (\<lambda>(k, x). f x) (AList.update k v' m)) + f v = sum_list (map (\<lambda>(k, x). f x) m) + f v'"
  by (induction m) (auto split: if_splits)

lemma sum_update_le:
  fixes f :: "'v \<Rightarrow> nat"
  shows "sum_list (map (\<lambda>(k, x). f x) (AList.update k v' m)) \<le> sum_list (map (\<lambda>(k, x). f x) m) + f v'"
  by (induction m) auto

lemma sum_delete_le:
  fixes f :: "'v \<Rightarrow> nat"
  shows "sum_list (map (\<lambda>(k, x). f x) (AList.delete k m)) \<le> sum_list (map (\<lambda>(k, x). f x) m)"
  by (induction m) (auto simp: AList.delete_eq)

lemma spent_call: "spent h w (snd (call_chat_tool h key i gone w))"
proof (cases "map_of (aw_grants w) key")
  case (Some g)
  show ?thesis
  proof (cases "cg_done g \<or> max_chat_calls \<le> cg_calls g \<or> gone")
    case False
    let ?w1 = "w\<lparr>aw_grants := AList.update key (g\<lparr>cg_calls := cg_calls g + 1\<rparr>) (aw_grants w)\<rparr>"
    have "budget ?w1 + (max_chat_calls - cg_calls g) = budget w + (max_chat_calls - (cg_calls g + 1))"
      using sum_update [OF Some, of "\<lambda>x. max_chat_calls - cg_calls x" "g\<lparr>cg_calls := cg_calls g + 1\<rparr>"]
      unfolding budget_def by simp
    then have b: "Suc (budget ?w1) = budget w" using False by arith
    have "(key, g) \<in> set (aw_grants w)" using Some by (rule map_of_SomeD)
    then have own: "set (ag_tools (cg_run g)) \<subseteq> bindings w" by (force simp: bindings_def)
    have "bindings ?w1 \<subseteq> set (ag_tools (cg_run g)) \<union> bindings w"
      using alist_update_subset [of key "g\<lparr>cg_calls := cg_calls g + 1\<rparr>" "aw_grants w"] by (fastforce simp: bindings_def)
    with own have sub: "bindings ?w1 \<subseteq> bindings w" "set (ag_tools (cg_run g)) \<subseteq> bindings w" by auto
    have idle: "spent h w ?w1" using b sub by (simp add: spent_def)
    show ?thesis
    proof (cases "(case ci_size i of None \<Rightarrow> True | Some n \<Rightarrow> 16384 < n) \<or> trim_space (ci_tool i) = [] \<or> bound_tool h (cg_run g) (ci_tool i) = None")
      case True
      then show ?thesis using idle Some False by (auto simp: call_chat_tool_def Let_def)
    next
      case go: False
      then obtain bd where bd: "bound_tool h (cg_run g) (ci_tool i) = Some bd" by auto
      then have "bd \<in> set (ag_tools (cg_run g))" by (auto simp: bound_tool_def find_Some_iff)
      then have bd': "bd \<in> bindings w" using sub(2) by blast
      obtain a w2 where w2: "tool_call h (cg_run g) bd (chat_arguments i) ?w1 = (a, w2)" by fastforce
      have e: "snd (call_chat_tool h key i gone w) = w2"
        using Some False go bd w2 by (simp add: call_chat_tool_def Let_def split: option.split)
      have g2: "aw_grants w2 = aw_grants ?w1" using w2 tool_call_frame(4) by (metis snd_conv)
      obtain r where r: "aw_tools w2 = aw_tools w @ [r]" "bound_request h (bindings w) r"
      proof
        let ?r = "\<lparr>tq_run = ag_id (cg_run g), tq_token = ag_token (cg_run g), tq_binding = text_field (ah_num h) bd ''id'', tq_adapter = text_field (ah_num h) bd ''adapterId'',
          tq_tool = text_field (ah_num h) bd ''toolName'', tq_input = chat_arguments i\<rparr>"
        show "aw_tools w2 = aw_tools w @ [?r]" using w2 by (auto simp: tool_call_def Let_def split: option.splits)
        show "bound_request h (bindings w) ?r" unfolding bound_request_def by (rule bexI [OF _ bd']) simp
      qed
      have "budget w2 = budget ?w1" "bindings w2 = bindings ?w1" using g2 by (simp_all add: budget_def bindings_def)
      with b sub(1) r show ?thesis unfolding e spent_def by (intro conjI exI [of _ "[r]"]) simp_all
    qed
  qed (use Some in \<open>simp add: call_chat_tool_def Let_def spent_same\<close>)
qed (simp add: call_chat_tool_def Let_def spent_same)

lemma spent_happen: "spent h w (happen_agent h c secrets run w)"
proof -
  have "spent h w (foldl (arrive h c secrets run) w es)" for es
  proof (induction es arbitrary: w)
    case (Cons e es)
    have "spent h w (arrive h c secrets run w e)" by (cases e) (simp_all add: spent_call spent_same agent_frame)
    from spent_trans [OF this Cons] show ?case by simp
  qed (simp add: spent_same)
  then show ?thesis by (simp add: happen_agent_def)
qed

lemma publish_spent: "spent h' w (snd (publish_event h c ev w))" "spent h' w (snd (publish_delta h c run n t w))"
proof -
  have e: "aw_tools (snd (publish_event h c ev w)) = aw_tools w \<and> aw_grants (snd (publish_event h c ev w)) = aw_grants w" for ev
  proof -
    obtain a w1 where w1: "deliver h c \<lparr>gr_status = ''running'', gr_payload = VMap [], gr_tools = VMaps [], gr_artifacts = VMaps [],
         gr_external = [], gr_error = [], gr_events = [ev], gr_delivered = False\<rparr> w = (a, w1)" by fastforce
    then have "aw_tools w1 = aw_tools w \<and> aw_grants w1 = aw_grants w" using deliver_frame(3,4) by (metis snd_conv)
    then show ?thesis by (simp add: publish_event_def w1 split: option.split)
  qed
  then show "spent h' w (snd (publish_event h c ev w))" "spent h' w (snd (publish_delta h c run n t w))"
    by (simp_all add: publish_delta_def spent_same)
qed

lemma json_spent: "spent h' w (snd (hermes_json h cl m p b k f w))"
  by (rule spent_same) (simp_all add: agent_frame)

lemma finish_spent: "spent h w (snd (finish_stream h c d secrets cl run ext out pub n w))"
proof -
  obtain j w0 where w0: "hermes_json h cl ''GET'' (''/v1/runs/'' @ ext) None [] (hd_state d) w = (j, w0)" by fastforce
  have s0: "spent h w w0" using w0 json_spent by (metis snd_conv)
  obtain r w1 where w1: "completed_chat h d secrets cl ext out w = (r, w1)" by fastforce
  have "w1 = w0" using w1 unfolding completed_chat_def w0 by (simp split: sum.splits)
  with s0 have s1: "spent h w w1" by simp
  show ?thesis
  proof (cases r)
    case (Inr s)
    obtain e2 w2 where w2: "(if has_prefix (st_output s) pub
        then publish_delta h c run (Suc n) (drop (length pub) (st_output s)) w1 else (None, w1)) = (e2, w2)" by fastforce
    have s2: "spent h w1 w2" using w2 publish_spent(2) spent_same by (metis snd_conv)
    let ?ev = "\<lparr>cv_type = ''message.done'', cv_id = ''chat:done'', cv_message = ag_id run @ '':reply'', cv_text = st_output s\<rparr>"
    have "snd (finish_stream h c d secrets cl run ext out pub n w) = (if e2 = None then snd (publish_event h c ?ev w2) else w2)"
      by (simp add: finish_stream_def w1 Inr w2 split: prod.split option.split)
    then show ?thesis using spent_trans [OF s1 s2] spent_trans [OF spent_trans [OF s1 s2] publish_spent(1) [where w = w2]] by simp
  qed (simp add: finish_stream_def w1 s1)
qed

lemma stream_spent: "spent h w (snd (chat_stream h c d secrets cl run ext lines out pub n w))"
proof (induction lines arbitrary: out pub n w)
  case (Cons line rest)
  let ?w = "happen_agent h c secrets run w"
  have s: "spent h w ?w" by (rule spent_happen)
  have go: "spent h w (snd (chat_stream h c d secrets cl run ext rest o1 p1 n1 ?w))" for o1 p1 n1 by (rule spent_trans [OF s Cons.IH])
  have fin: "spent h w (snd (finish_stream h c d secrets cl run ext o1 p1 n1 ?w))" for o1 p1 n1 by (rule spent_trans [OF s finish_spent])
  have pub: "spent h w w1" "spent h w (snd (chat_stream h c d secrets cl run ext rest o1 p1 n1 w1))"
    if "publish_delta h c run k t ?w = (e, w1)" for k t e w1 o1 p1 n1
  proof -
    have "spent h ?w w1" using that publish_spent(2) by (metis snd_conv)
    from spent_trans [OF s this] show "spent h w w1" .
    from spent_trans [OF this Cons.IH] show "spent h w (snd (chat_stream h c d secrets cl run ext rest o1 p1 n1 w1))" .
  qed
  show ?case
    by (simp add: chat_stream.simps(2) Let_def go fin s split: option.split sum.split prod.split) (auto simp: pub)
qed (simp add: spent_same)

lemma started_spent: "spent h w (snd (chat_started h c d secrets cl run ext w))"
proof -
  obtain a w1 where w1: "agent_callback h c secrets ''running'' [] [] [] ext [] w = (a, w1)" by fastforce
  have "aw_tools w1 = aw_tools w \<and> aw_grants w1 = aw_grants w" using w1 agent_callback_frame(3,4) by (metis snd_conv)
  then have s1: "spent h w w1" by (simp add: spent_same)
  obtain r w2 where w2: "stream_chat h c d secrets cl run ext w1 = (r, w2)" by fastforce
  obtain q w0 where w0: "hermes_request_to h cl ''GET'' (''/v1/runs/'' @ ext @ ''/events'') None [] w1 = (q, w0)" by fastforce
  have "aw_tools w0 = aw_tools w1 \<and> aw_grants w0 = aw_grants w1" using w0 request_frame(3,4) by (metis snd_conv)
  then have s0: "spent h w1 w0" by (simp add: spent_same)
  have s2: "spent h w1 w2"
    using w2 [unfolded stream_chat_def w0] s0 spent_trans [OF s0 stream_spent]
    by (cases q) (auto, metis snd_conv)
  have stop: "spent h v (snd (hermes_json h cl m p b k f v))" for m p b k v and f :: "string \<Rightarrow> unit option" by (rule json_spent)
  show ?thesis
    using s1 spent_trans [OF s1 s2] spent_trans [OF s1 stop] spent_trans [OF spent_trans [OF s1 s2] stop]
    by (simp add: chat_started_def w1 w2 Let_def split: option.split sum.split)
qed

lemma submit_spent: "spent h w (snd (submit_chat h c d secrets cl run body w))"
proof -
  obtain q w1 where w1: "hermes_json h cl ''POST'' ''/v1/runs'' (Some body) (ag_id run) (hd_state d) w = (q, w1)" by fastforce
  have s: "spent h w w1" using w1 json_spent by (metis snd_conv)
  show ?thesis using s spent_trans [OF s started_spent] by (simp add: submit_chat_def w1 split: sum.split)
qed

text \<open>A conversation may spend what was open before it and the budget of its own grant, which it takes back.\<close>

lemma client_spent:
  "\<exists>new. aw_tools (snd (chat_with_client h c d secrets cl run input w)) = aw_tools w @ new
     \<and> length new \<le> budget w + max_chat_calls \<and> list_all (bound_request h (bindings w \<union> set (ag_tools run))) new"
proof -
  obtain a w1 where w1: "check_ready h d cl w = (a, w1)" by fastforce
  have q1: "aw_tools w1 = aw_tools w \<and> aw_grants w1 = aw_grants w"
  proof -
    have j1: "hermes_json h cl m p b k (hd_features d) v = (x, v') \<Longrightarrow> aw_tools v' = aw_tools v \<and> aw_grants v' = aw_grants v" for m p b k v x v'
      using json_frame(3,4) [of h cl m p b k "hd_features d" v] by simp
    have j2: "hermes_json h cl m p b k (hd_health d) v = (x, v') \<Longrightarrow> aw_tools v' = aw_tools v \<and> aw_grants v' = aw_grants v" for m p b k v x v'
      using json_frame(3,4) [of h cl m p b k "hd_health d" v] by simp
    have j3: "hermes_json h cl m p b k (hd_toolsets d) v = (x, v') \<Longrightarrow> aw_tools v' = aw_tools v \<and> aw_grants v' = aw_grants v" for m p b k v x v'
      using json_frame(3,4) [of h cl m p b k "hd_toolsets d" v] by simp
    from w1 show ?thesis
      by (auto simp: check_ready_def split: prod.splits sum.splits if_splits option.splits dest!: j1 j2 j3)
  qed
  obtain key w2 where w2: "begin_grant h run w1 = (key, w2)" by fastforce
  have q2: "aw_tools w2 = aw_tools w"
    using w2 q1 by (auto simp: begin_grant_def Let_def split: if_splits)
  have b2: "budget w2 \<le> budget w + max_chat_calls"
    using w2 q1 sum_update_le [of "\<lambda>x. max_chat_calls - cg_calls x" key "\<lparr>cg_run = run, cg_calls = 0, cg_done = False\<rparr>" "aw_grants w"]
    by (auto simp: begin_grant_def Let_def budget_def split: if_splits)
  have bd: "bindings w2 \<subseteq> bindings w \<union> set (ag_tools run)"
    using w2 q1 alist_update_subset [of key "\<lparr>cg_run = run, cg_calls = 0, cg_done = False\<rparr>" "aw_grants w"]
    by (fastforce simp: begin_grant_def Let_def bindings_def split: if_splits)
  let ?v = "snd (submit_chat h c d secrets (cl\<lparr>hc_session := key\<rparr>) run (chat_body d run input key) w2)"
  obtain new where new: "aw_tools ?v = aw_tools w2 @ new" "length new + budget ?v \<le> budget w2" "\<forall>r \<in> set new. bound_request h (bindings w2) r"
    using submit_spent [of h w2 c d secrets "cl\<lparr>hc_session := key\<rparr>" run "chat_body d run input key"] by (auto simp: spent_def)
  have none: ?thesis if "snd (chat_with_client h c d secrets cl run input w) = w1"
    unfolding that using q1 by (intro exI [of _ "[]"]) simp
  show ?thesis
  proof (cases "a = None \<and> validate_chat input = None")
    case True
    have "aw_tools (snd (chat_with_client h c d secrets cl run input w)) = aw_tools ?v"
      using True by (simp add: chat_with_client_def w1 w2 case_prod_unfold Let_def end_grant_def)
    then have "aw_tools (snd (chat_with_client h c d secrets cl run input w)) = aw_tools w @ new"
      using new(1) q2 by simp
    moreover have "length new \<le> budget w + max_chat_calls" using new(2) b2 by linarith
    moreover have "list_all (bound_request h (bindings w \<union> set (ag_tools run))) new"
      using new(3) bound_request_mono [OF _ bd] by (auto simp: list_all_iff)
    ultimately show ?thesis by blast
  next
    case False
    then show ?thesis by (intro none) (auto simp: chat_with_client_def w1 split: option.split)
  qed
qed

text \<open>C25: during a conversation at most eight tool calls per grant reach the control plane, whatever the Hermes server asks for and
  whenever, and each is for a tool bound to the run of its grant. When no other conversation is open, these are at most
  eight calls of the run's own bindings.\<close>

theorem chat_tool_calls_bounded:
  "\<exists>new. aw_tools (snd (execute_chat h c d secrets run w)) = aw_tools w @ new
     \<and> length new \<le> budget w + max_chat_calls \<and> list_all (bound_request h (bindings w \<union> set (ag_tools run))) new"
proof -
  have none: ?thesis if "aw_tools (snd (execute_chat h c d secrets run w)) = aw_tools w"
    unfolding that by (intro exI [of _ "[]"]) simp
  show ?thesis
  proof (cases "aw_tools (snd (execute_chat h c d secrets run w)) = aw_tools w")
    case False
    have "\<exists>cl input r. aw_tools (snd (execute_chat h c d secrets run w))
        = aw_tools (snd (chat_with_client h c d secrets cl run input (w\<lparr>aw_registry := r\<rparr>)))"
      using execute_chat_cases [of h c d secrets run w] False by (elim disjE exE conjE) (simp_all, blast)
    then obtain cl input r where e: "aw_tools (snd (execute_chat h c d secrets run w))
      = aw_tools (snd (chat_with_client h c d secrets cl run input (w\<lparr>aw_registry := r\<rparr>)))" by blast
    have "budget (w\<lparr>aw_registry := r\<rparr>) = budget w" "bindings (w\<lparr>aw_registry := r\<rparr>) = bindings w"
      by (simp_all add: budget_def bindings_def)
    then show ?thesis unfolding e using client_spent [where w = "w\<lparr>aw_registry := r\<rparr>" and h = h and c = c and d = d
      and secrets = secrets and cl = cl and run = run and input = input] by simp
  qed (rule none)
qed

subsection \<open>Two defects\<close>

lemma replace_all_absent: "\<not> contains s old \<Longrightarrow> replace_all s old new = s"
proof (induction s)
  case Nil
  then show ?case by (subst replace_all.simps) simp
next
  case (Cons c s)
  then show ?case by (subst replace_all.simps) simp
qed

lemma redact_text_plain: "CHR ''='' \<notin> set s \<Longrightarrow> redact_text s = s"
proof (induction s)
  case (Cons c s)
  have "match_assignment (c # s) = None"
  proof (rule ccontr)
    assume "match_assignment (c # s) \<noteq> None"
    then obtain k rest where "match_assignment (c # s) = Some (k, rest)" by auto
    from match_assignment_key [OF this] obtain v where "c # s = k @ CHR ''='' # v @ rest" by blast
    then have "CHR ''='' \<in> set (c # s)" by (metis in_set_conv_decomp)
    with Cons.prems show False by blast
  qed
  with Cons show ?case by (simp add: redact_text_step)
qed simp

lemma contains_longer: "contains s t \<Longrightarrow> length t \<le> length s"
  unfolding contains_iff by auto

text \<open>C38: the stream holds back no more than 256 runes or the length of the client's token, whichever is more. Let a run have one
  leased secret and no registry authorisation, and a client without tool key. When the text that has arrived is a proper beginning
  of the secret, at least 256 runes longer than what is held back, ASCII, without an equals sign and without the client's
  token, then all of it but the held back tail is sent out, at least 256 characters of the secret.\<close>

theorem long_secret_leaks:
  assumes "ascii text" and "CHR ''='' \<notin> set text" and "rest \<noteq> []" and "hold_back cl + 256 \<le> length text"
    and "\<not> contains text (hc_token cl)" and "hc_session cl = []"
    and "a \<noteq> ''REGISTRY_AUTH''" and "ah_secret_text h [] = []"
  shows "next_text h [(a, text @ rest)] cl text [] = Some (Inr (take (length text - hold_back cl) text))
    \<and> has_prefix (text @ rest) (take (length text - hold_back cl) text) \<and> 256 \<le> length (take (length text - hold_back cl) text)"
proof -
  have "\<not> contains text (text @ rest)" using contains_longer [of "text" "text @ rest"] assms(3) by auto
  moreover have "secret_list (ah_secret_text h) [(a, text @ rest)] = [text @ rest]"
    using assms(3,7,8) by (auto simp: secret_list_def)
  ultimately have "redact_secret_text (ah_secret_text h) [(a, text @ rest)] text = text"
    by (simp add: redact_secret_text_def replace_all_absent)
  then have safe: "safe_chat_text h [(a, text @ rest)] cl text = text"
    using assms(2,5,6) by (simp add: safe_chat_text_def replace_all_absent safe_text_def redact_text_plain)
  have n: "rune_length [] = 0" by (simp add: rune_length_def)
  have big: "\<not> int (length text) - int (hold_back cl) - int 0 < 256" using assms(4) by linarith
  have "next_text h [(a, text @ rest)] cl text [] = Some (Inr (take (length text - hold_back cl) text))"
    unfolding next_text_def Let_def safe n rune_length_ascii [OF assms(1)] take_runes_ascii [OF assms(1)] if_not_P [OF big] by simp
  moreover have "text @ rest = take (length text - hold_back cl) text @ (drop (length text - hold_back cl) text @ rest)" by simp
  then have "has_prefix (text @ rest) (take (length text - hold_back cl) text)" by (metis has_prefix_append)
  moreover have "256 \<le> length (take (length text - hold_back cl) text)" using assms(4) by simp
  ultimately show ?thesis by blast
qed

definition agent_ended :: "runner \<Rightarrow> int list" where
  "agent_ended r = (let m = rm_agent (rn_metrics r) in [ms_completed m, ms_failed m, ms_canceled m, ms_timed_out m, ms_denied m])"

lemma ended_marks:
  "agent_ended (mark_attempt s r) = agent_ended r" "agent_ended (mark_failure s r) = agent_ended r"
  "agent_ended (mark_success s st stamp r) = agent_ended r" "agent_ended (mark_started s r) = agent_ended r"
  by (simp_all add: agent_ended_def mark_attempt_def mark_failure_def mark_success_def mark_started_def count_success_def with_scope_def Let_def)

lemma ended_retry: "agent_ended (snd (retry_loop scope st stamp calls left k r)) = agent_ended r"
  by (induction scope st stamp calls left k r rule: retry_loop.induct)
    (auto simp: Let_def ended_marks split: call_outcome.split)

lemma ended_deliver: "agent_ended (aw_runner (snd (deliver h c rep w))) = agent_ended (aw_runner w)"
  by (simp add: deliver_def with_callback_retry_def case_prod_unfold Let_def ended_retry)

lemma ended_callback: "agent_ended (aw_runner (snd (agent_callback h c sec st pl ts ar ex er w))) = agent_ended (aw_runner w)"
  using agent_callback_snd [of h c sec st pl ts ar ex er w] by (auto simp: acknowledge_agent_def ended_deliver)

lemma ended_acknowledge: "agent_ended (aw_runner (acknowledge_agent h c sec s w)) = agent_ended (aw_runner w)"
  by (simp add: acknowledge_agent_def ended_deliver)

text \<open>A run that the control plane stops when its start is reported is counted as started and under no outcome, though runs
  that end in any other way, a refused secret lease included, are.\<close>

theorem stopped_agent_run_uncounted:
  assumes "w0 = w\<lparr>aw_runner := mark_started scope_agent (aw_runner w), aw_beating := False, aw_stop := None\<rparr>"
    and "redeem_secret_lease (ah_redeem h) (ag_grant run) (ac_worker c) (ah_now h w0) [] = Inr secrets"
    and "agent_callback h c secrets ''running''
           [(''agentId'', VStr (local_agent c)), (''workerId'', VStr (ac_worker c)), (''heartbeatAt'', VStr (ah_stamp h w)),
            (''providerId'', VStr (ag_provider run))] [] [] [] [] w0 = (Some (i, status), w1)"
    and "should_stop_local status"
  shows "agent_ended (aw_runner (execute_agent_run h c d run w)) = agent_ended (aw_runner w)
    \<and> execute_agent_run h c d run w = acknowledge_agent h c secrets status w1"
proof -
  have e: "execute_agent_run h c d run w = acknowledge_agent h c secrets status w1"
    using assms by (simp add: execute_agent_run_def Let_def)
  have "agent_ended (aw_runner w1) = agent_ended (aw_runner w0)" using assms(3) ended_callback by (metis snd_conv)
  also have "\<dots> = agent_ended (aw_runner w)" by (simp add: assms(1) ended_marks)
  finally show ?thesis unfolding e by (simp add: ended_acknowledge)
qed

subsection \<open>Samples\<close>

definition sample_agent_host :: agent_host where
  "sample_agent_host = \<lparr>ah_num = (\<lambda>q. []), ah_secret_text = (\<lambda>s. []),
     ah_redeem = (\<lambda>i t a. Inr \<lparr>red_lease = i, red_expires = 1, red_values = [(''KEY'', ''hunter2'')]\<rparr>), ah_secret_error = (\<lambda>e. ''e''),
     ah_run_error = (\<lambda>e. ''e''), ah_quote = id, ah_now = (\<lambda>w. 0), ah_stamp = (\<lambda>w. ''now''),
     ah_callback = (\<lambda>w n. CallAnswered ''r'' ''canceled''), ah_pending = (\<lambda>w. False), ah_arrivals = (\<lambda>w. []),
     ah_tool = (\<lambda>w r. None), ah_command = (\<lambda>w. ([], None)), ah_abs = Inr, ah_mkdir = (\<lambda>w p. None), ah_json = (\<lambda>s. None),
     ah_prompt = (\<lambda>r. ''p''), ah_context = (\<lambda>w. TaskLive), ah_hermes = (\<lambda>w. Answered 200 ''{}'' False), ah_grant_key = (\<lambda>w. ''k'')\<rparr>"

definition sample_agent_config :: agent_config where
  "sample_agent_config = \<lparr>ac_runner = \<lparr>rc_agent = ''a'', rc_attempts = 1, rc_backoff = 1, rc_timeout = 1, rc_root = ''/w''\<rparr>,
     ac_worker = ''a'', ac_workspace = ''/w'', ac_hermes = [], ac_providers = []\<rparr>"

definition sample_decoders :: hermes_decoders where
  "sample_decoders = \<lparr>hd_features = (\<lambda>s. None), hd_health = (\<lambda>s. None), hd_toolsets = (\<lambda>s. None),
     hd_state = (\<lambda>s. Some \<lparr>st_run = ''x1'', st_state = ''running'', st_output = [], st_model = [], st_usage = []\<rparr>),
     hd_event = (\<lambda>s. None), hd_url = (\<lambda>s. None), hd_tls = (\<lambda>s. None), hd_context_text = id\<rparr>"

definition sample_agent_run :: agent_run where
  "sample_agent_run = \<lparr>ag_id = ''r'', ag_token = ''k'', ag_provider = ''prod'', ag_kind = ''hermes'', ag_capability = ''root_cause'', ag_skills = [],
     ag_scope = VNil, ag_toolset = VNil, ag_tools = [], ag_skill_bindings = [], ag_input = [], ag_timeout = 0,
     ag_grant = Some \<lparr>grant_id = ''g'', grant_token = ''t''\<rparr>, ag_chat = None, ag_pin = None\<rparr>"

definition sample_runner :: runner where
  "sample_runner = (let m = \<lparr>ms_claims = 0, ms_misses = 0, ms_started = 0, ms_heartbeats = 0, ms_attempts = 0, ms_failures = 0,
       ms_finals = 0, ms_completed = 0, ms_failed = 0, ms_canceled = 0, ms_timed_out = 0, ms_denied = 0, ms_last_heartbeat = [],
       ms_last_callback = []\<rparr>
     in \<lparr>rn_capacity = 1, rn_slots = 1, rn_active = [], rn_metrics = \<lparr>rm_execution = m, rm_docker = m, rm_agent = m\<rparr>, rn_reports = []\<rparr>)"

definition sample_world :: "registry \<Rightarrow> agent_world" where
  "sample_world r = \<lparr>aw_runner = sample_runner, aw_registry = r, aw_reports = [], aw_requests = [], aw_tools = [], aw_grants = [],
     aw_commands = [], aw_beating = False, aw_stop = None\<rparr>"

definition sample_client :: hermes_client where
  "sample_client = \<lparr>hc_endpoint = ''https://h'', hc_token = ''tok'', hc_session = []\<rparr>"

definition other_registry :: registry where
  "other_registry = first_registry\<lparr>rg_current := (rg_current first_registry)\<lparr>cat_providers := [hermes_provider\<lparr>pv_id := ''prod'', pv_draining := True\<rparr>]\<rparr>\<rparr>"

theorem chat_publishes_no_credential_witness:
  "let new = drop 0 (aw_reports (snd (stream_chat sample_agent_host sample_agent_config sample_decoders [(''KEY'', ''hunter2'')]
       sample_client sample_agent_run ''x1'' (sample_world first_registry)))) in
    \<not> contains (deltas new) ''tok'' \<and> list_all (\<lambda>rep. list_all (\<lambda>e. \<not> contains (cv_text e) ''tok'') (gr_events rep)) new"
  using chat_publishes_no_credential [of "''tok''" sample_client "[(''KEY'', ''hunter2'')]" "sample_world first_registry"]
  by (simp add: sample_client_def sample_world_def removable_def bracket_free_def ascii_def byte_in_def)

lemma sample_redeemed: "redeem_secret_lease (ah_redeem sample_agent_host) (ag_grant sample_agent_run) (ac_worker sample_agent_config)
   (ah_now sample_agent_host w) [] = Inr [(''KEY'', ''hunter2'')]"
  by (simp add: sample_agent_host_def) code_simp

theorem agent_run_keeps_secrets_witness:
  "\<exists>new. aw_reports (execute_agent_run sample_agent_host sample_agent_config sample_decoders sample_agent_run (sample_world first_registry)) = new
     \<and> list_all (clean_report ''hunter2'') new"
proof -
  have "removable ''hunter2''" "ascii ''hunter2''" by code_simp+
  with agent_run_keeps_secrets [OF sample_redeemed, of "''hunter2''" sample_decoders "sample_world first_registry"] show ?thesis
    by (simp add: sample_world_def)
qed

theorem chat_stopped_unless_completed_witness:
  "case submit_chat sample_agent_host sample_agent_config sample_decoders [] sample_client sample_agent_run VNil (sample_world first_registry) of
     (Inl e, w') \<Rightarrow> last (aw_requests w') = stop_request ''x1''
   | (Inr res, w') \<Rightarrow> map_get res ''externalRunId'' = VStr ''x1''
       \<and> drop 1 (aw_requests w') = [get_request (''/v1/runs/'' @ ''x1'' @ ''/events''), get_request (''/v1/runs/'' @ ''x1'')]
       \<and> (\<exists>q s1. read_completed sample_agent_host sample_decoders [] sample_client ''x1'' q s1 \<and> map_get res ''summary'' = VStr (st_output s1))"
proof -
  obtain s w1 where w1: "hermes_json sample_agent_host sample_client ''POST'' ''/v1/runs'' (Some VNil) (ag_id sample_agent_run) (hd_state sample_decoders)
      (sample_world first_registry) = (Inr s, w1)" "st_run s = ''x1''"
    by (simp add: hermes_json_def hermes_request_to_def Let_def sample_agent_host_def sample_decoders_def)
  have q: "length (aw_requests w1) = 1"
    using json_logged [of sample_agent_host sample_client "''POST''" "''/v1/runs''" "Some VNil" "ag_id sample_agent_run" "hd_state sample_decoders"
      "sample_world first_registry"] unfolding w1(1) by (simp add: sample_world_def)
  have "valid_hermes_id (st_run s)" unfolding w1(2) by code_simp
  from chat_stopped_unless_completed [OF w1(1) this, where c = sample_agent_config and secrets = "[]"] q show ?thesis
    unfolding w1(2) by (auto split: prod.splits sum.splits)
qed

theorem agent_run_returns_provider_witness:
  "registry_run sample_digest sample_url (aw_registry (execute_agent_run sample_agent_host sample_agent_config sample_decoders sample_agent_run
     (sample_world busy_registry))) [(''hermes'', ''builtin-v1'')]"
proof (rule agent_run_returns_provider)
  have "aw_registry (sample_world busy_registry) = busy_registry" by (simp add: sample_world_def)
  then show "registry_run sample_digest sample_url (aw_registry (sample_world busy_registry)) [(''hermes'', ''builtin-v1'')]"
    using busy_run by (simp only:)
qed

theorem kind_bypasses_registry_witness:
  "execute_provider sample_agent_host sample_agent_config [] sample_agent_run (sample_world other_registry)
     = execute_cli sample_agent_host sample_agent_config [] sample_agent_run hermes_command (sample_world other_registry)
   \<and> fst (acquire_provider (ag_provider sample_agent_run) [] None 0 other_registry) = Inl (ProviderDraining ''prod'')"
proof -
  have 1: "to_lower (first_non_empty [trim_space (ag_kind sample_agent_run), trim_space (ag_provider sample_agent_run)]) = ''hermes''" by code_simp
  have 2: "map_of (ac_providers sample_agent_config) ''hermes'' = None" by (simp add: sample_agent_config_def)
  have "\<not> equal_fold ''prod'' ''hermes''" by code_simp
  then have 3: "\<forall>p \<in> set (cat_providers (rg_current (aw_registry (sample_world other_registry)))). \<not> equal_fold (pv_id p) ''hermes''"
    by (simp add: sample_world_def other_registry_def)
  have 4: "hermes_override sample_agent_config hermes_provider hermes_command = hermes_command" by code_simp
  have 5: "fst (acquire_provider (ag_provider sample_agent_run) [] None 0 other_registry) = Inl (ProviderDraining ''prod'')" by code_simp
  from kind_bypasses_registry [OF 1 2 3, of sample_agent_host "[]"] 4 5 show ?thesis by simp
qed

theorem long_secret_leaks_witness:
  "next_text sample_agent_host [(''KEY'', replicate 600 (CHR ''x'') @ ''y'')] sample_client (replicate 600 (CHR ''x'')) [] = Some (Inr (replicate 344 (CHR ''x'')))"
proof -
  have a: "ascii (replicate 600 (CHR ''x''))" by (simp add: ascii_def list_all_iff byte_in_def)
  have "\<not> contains (replicate n (CHR ''x'')) ''tok''" for n by (induction n) (simp_all add: has_prefix_def)
  then have t: "\<not> contains (replicate 600 (CHR ''x'')) (hc_token sample_client)" by (simp add: sample_client_def)
  have g: "hold_back sample_client = 256" by code_simp
  have l: "hold_back sample_client + 256 \<le> length (replicate 600 (CHR ''x''))" by (simp add: g)
  have s: "hc_session sample_client = []" "ah_secret_text sample_agent_host [] = []" by (simp_all add: sample_client_def sample_agent_host_def)
  have e: "CHR ''='' \<notin> set (replicate 600 (CHR ''x''))" by simp
  have "take (length (replicate 600 (CHR ''x'')) - hold_back sample_client) (replicate 600 (CHR ''x'')) = replicate 344 (CHR ''x'')" by (simp add: g)
  then show ?thesis using long_secret_leaks [OF a e _ l t s(1) _ s(2), of "''y''" "''KEY''"] by simp
qed

theorem stopped_agent_run_uncounted_witness:
  "agent_ended (aw_runner (execute_agent_run sample_agent_host sample_agent_config sample_decoders sample_agent_run (sample_world first_registry)))
    = [0, 0, 0, 0, 0]"
proof -
  let ?w = "sample_world first_registry"
  let ?started = "?w\<lparr>aw_runner := mark_started scope_agent (aw_runner ?w), aw_beating := False, aw_stop := None\<rparr>"
  let ?p = "[(''agentId'', VStr (local_agent sample_agent_config)), (''workerId'', VStr (ac_worker sample_agent_config)),
            (''heartbeatAt'', VStr (ah_stamp sample_agent_host ?w)), (''providerId'', VStr (ag_provider sample_agent_run))]"
  let ?s = "[(''KEY'', ''hunter2'')]"
  have n: "nat (if rc_attempts (ac_runner sample_agent_config) \<le> 0 then 1 else rc_attempts (ac_runner sample_agent_config)) = Suc 0"
    by (simp add: sample_agent_config_def)
  have cb: "ah_callback sample_agent_host v k = CallAnswered ''r'' ''canceled''" for v k by (simp add: sample_agent_host_def)
  have "named_answer (Some (''r'', ''canceled'')) = Some (''r'', ''canceled'')" "should_stop_local ''running'' = False" by code_simp+
  then obtain w1 where w1: "agent_callback sample_agent_host sample_agent_config ?s ''running'' ?p [] [] [] [] ?started = (Some (''r'', ''canceled''), w1)"
    by (simp add: agent_callback_def deliver_def with_callback_retry_def n cb Let_def)
  have "should_stop_local ''canceled''" by code_simp
  from stopped_agent_run_uncounted [OF refl sample_redeemed w1 this, of sample_decoders]
  have "agent_ended (aw_runner (execute_agent_run sample_agent_host sample_agent_config sample_decoders sample_agent_run ?w))
      = agent_ended (aw_runner ?w)" by blast
  also have "\<dots> = [0, 0, 0, 0, 0]" by (simp add: sample_world_def sample_runner_def agent_ended_def Let_def)
  finally show ?thesis .
qed

end
