(* ===== verification/DockerRuntime.thy ===== *)
theory DockerRuntime
  imports GoPath RunnerPayload AgentRoutes
begin

text \<open>
  The Docker runtime routes of the API (\<^verbatim>\<open>internal/agent/api/docker_runtime.go\<close>): container logs and
  their stream, the terminal, and the volumes and volume files of a compose project.

  Every handler is a function of the request and of a world: what creating the temporary directory,
  writing its files and running the Docker command give. It returns its answer with the list of what it
  did, in order. The YAML parser and Go's printing of floats are parameters. The terminal is a state that
  events move: messages of the client, output of the process, and its end.
\<close>

subsection \<open>Requests\<close>

record dr_request =
  dq_project :: string
  dq_name :: string
  dq_compose :: string
  dq_env :: string
  dq_config :: gmap
  dq_service :: string
  dq_tail :: int
  dq_since :: int
  dq_target :: string
  dq_path :: string
  dq_limit :: int
  dq_limit_bytes :: int
  dq_shell :: string

record project_volume =
  pv_name :: string
  pv_type :: string
  pv_source :: string
  pv_target :: string
  pv_read_only :: bool
  pv_sub_path :: string
  pv_browse :: bool

record dr_ports =
  dp_yaml :: "string \<Rightarrow> gmap option"
  dp_float :: "rat \<Rightarrow> string"

definition no_volume :: project_volume where
  "no_volume = \<lparr>pv_name = [], pv_type = [], pv_source = [], pv_target = [], pv_read_only = False,
     pv_sub_path = [], pv_browse = False\<rparr>"

text \<open>The readers of untyped values. \<open>first_present\<close> takes the values in the order of the call.\<close>

fun map_any :: "gvalue \<Rightarrow> gmap" where
  "map_any (VMap m) = m"
| "map_any v = []"

fun list_any :: "gvalue \<Rightarrow> gvalue list" where
  "list_any (VList vs) = vs"
| "list_any v = []"

definition first_present :: "gvalue list \<Rightarrow> gvalue" where
  "first_present vs = (case find (\<lambda>v. v \<noteq> VNil) vs of None \<Rightarrow> VNil | Some v \<Rightarrow> v)"

definition string_any :: "dr_ports \<Rightarrow> gvalue \<Rightarrow> string" where
  "string_any dp v = (if v = VNil then [] else trim_space (sprint (dp_float dp) v))"

fun bool_any :: "gvalue \<Rightarrow> bool" where
  "bool_any (VBool b) = b"
| "bool_any (VStr s) = (to_lower (trim_space s) \<in> {''true'', ''1'', ''yes'', ''ro''})"
| "bool_any v = False"

text \<open>The pattern \<^verbatim>\<open>^[A-Za-z0-9._-]+$\<close>.\<close>

definition service_name_ok :: "string \<Rightarrow> bool" where
  "service_name_ok s \<longleftrightarrow>
     s \<noteq> [] \<and> list_all (\<lambda>c. is_alnum c \<or> c = CHR ''.'' \<or> c = CHR ''_'' \<or> c = CHR ''-'') s"

definition compose_services :: "dr_ports \<Rightarrow> string \<Rightarrow> string list" where
  "compose_services dp content =
     (case dp_yaml dp content of
        None \<Rightarrow> []
      | Some raw \<Rightarrow> compact_strings (map fst (map_any (map_get raw ''services''))))"

definition validate_runtime_request :: "dr_ports \<Rightarrow> dr_request \<Rightarrow> string option" where
  "validate_runtime_request dp q =
     (if trim_space (dq_project q) = [] then Some ''projectId is required''
      else if trim_space (dq_name q) = [] then Some ''projectName is required''
      else if trim_space (dq_compose q) = [] then Some ''composeContent is required''
      else if trim_space (dq_service q) = [] then Some ''serviceName is required''
      else if \<not> service_name_ok (trim_space (dq_service q)) then Some ''serviceName is invalid''
      else if dq_since q < 0 \<or> 604800 < dq_since q
      then Some ''sinceSeconds is outside the supported range''
      else let services = compose_services dp (dq_compose q) in
        if services \<noteq> [] \<and> trim_space (dq_service q) \<notin> set services
        then Some (''serviceName '' @ dq_service q @ '' is not defined in compose'') else None)"

subsection \<open>Limits and names\<close>

definition clamp_limit :: "int \<Rightarrow> int \<Rightarrow> int \<Rightarrow> int" where
  "clamp_limit usual most value = (if value \<le> 0 then usual else if most < value then most else value)"

definition tail_lines :: "int \<Rightarrow> int" where "tail_lines value = clamp_limit 200 2000 value"

definition list_limit :: "int \<Rightarrow> int" where "list_limit value = clamp_limit 200 1000 value"

definition read_limit :: "int \<Rightarrow> int" where
  "read_limit value = clamp_limit (256 * 1024) (1024 * 1024) value"

text \<open>The loop over the runes: a byte of a longer rune is not kept, as the rune is not.\<close>

fun project_chars :: "string \<Rightarrow> string" where
  "project_chars [] = []"
| "project_chars (c # cs) =
     (if is_lower c \<or> is_digit c \<or> c = CHR ''-'' \<or> c = CHR ''_'' then c # project_chars cs
      else if c = CHR ''.'' \<or> c = CHR '' '' then CHR ''-'' # project_chars cs
      else project_chars cs)"

definition runtime_project_name :: "string \<Rightarrow> string" where
  "runtime_project_name value =
     (let out = trim_cutset (project_chars (to_lower (trim_space value))) ''-_'' in
      if out = [] then ''soha-docker'' else out)"

definition rooted_path :: "string \<Rightarrow> string" where
  "rooted_path value = clean_path (CHR ''/'' # trim_prefix (trim_space value) ''/'')"

definition inner_path :: "string \<Rightarrow> string" where
  "inner_path value =
     (let cleaned = rooted_path value in if cleaned = ''.'' \<or> cleaned = [] then ''/'' else cleaned)"

definition container_path :: "string \<Rightarrow> string \<Rightarrow> string" where
  "container_path target inner =
     (let base = rooted_path target; rest = trim_prefix (inner_path inner) ''/'' in
      if rest = [] then base else join_path [base, rest])"

definition runtime_shell :: "string \<Rightarrow> string" where
  "runtime_shell value =
     (let v = trim_space value in if v = ''/bin/bash'' \<or> v = ''bash'' then ''/bin/bash'' else ''/bin/sh'')"

subsection \<open>Volumes\<close>

definition parse_volume_string :: "string \<Rightarrow> project_volume option" where
  "parse_volume_string value =
     (let trimmed = trim_space value in
      if trimmed = [] then None
      else let parts = split_char CHR '':'' trimmed in
        if length parts = 1
        then Some (no_volume\<lparr>pv_target := parts ! 0, pv_type := ''anonymous''\<rparr>)
        else
          let mode = to_lower (trim_space (last parts));
              ro = 3 \<le> length parts \<and> (mode = ''ro'' \<or> contains mode ''ro'')
          in Some (no_volume\<lparr>pv_name := parts ! 0, pv_source := parts ! 0, pv_target := parts ! 1,
               pv_read_only := ro\<rparr>))"

definition parse_volume_map :: "dr_ports \<Rightarrow> gmap \<Rightarrow> project_volume option" where
  "parse_volume_map dp item =
     (let targ = string_any dp (map_get item ''target'') in
      if trim_space targ = [] then None
      else Some (no_volume\<lparr>pv_name := string_any dp (map_get item ''source''),
        pv_type := string_any dp (map_get item ''type''),
        pv_source := string_any dp (map_get item ''source''), pv_target := targ,
        pv_read_only := bool_any (first_present
          [map_get item ''read_only'', map_get item ''readOnly'', map_get item ''readonly''])\<rparr>))"

definition parse_volume_spec :: "dr_ports \<Rightarrow> gvalue \<Rightarrow> project_volume option" where
  "parse_volume_spec dp raw =
     (case raw of VStr s \<Rightarrow> parse_volume_string s | _ \<Rightarrow> parse_volume_map dp (map_any raw))"

definition compose_volumes :: "dr_ports \<Rightarrow> string \<Rightarrow> string \<Rightarrow> project_volume list" where
  "compose_volumes dp content service =
     (case dp_yaml dp content of
        None \<Rightarrow> []
      | Some raw \<Rightarrow>
          (let sv = map_any (map_get (map_any (map_get raw ''services'')) (trim_space service)) in
           List.map_filter (parse_volume_spec dp) (list_any (map_get sv ''volumes''))))"

definition config_volume :: "dr_ports \<Rightarrow> gvalue \<Rightarrow> project_volume option" where
  "config_volume dp raw =
     (let item = map_any raw;
          targ = string_any dp (first_present
            [map_get item ''target'', map_get item ''containerPath'', map_get item ''mountPath''])
      in if trim_space targ = [] then None
         else Some (no_volume\<lparr>pv_name := string_any dp (map_get item ''name''),
           pv_type := string_any dp (map_get item ''type''),
           pv_source := string_any dp (first_present
             [map_get item ''source'', map_get item ''hostPath'', map_get item ''name'']),
           pv_target := targ,
           pv_read_only := bool_any (first_present
             [map_get item ''readOnly'', map_get item ''readonly'', map_get item ''ro'']),
           pv_sub_path := string_any dp (map_get item ''subPath'')\<rparr>))"

definition config_volumes :: "dr_ports \<Rightarrow> gmap \<Rightarrow> project_volume list" where
  "config_volumes dp config =
     List.map_filter (config_volume dp) (list_any (map_get config ''volumes''))"

text \<open>The closure \<^verbatim>\<open>add\<close>: the targets kept so far are \<^verbatim>\<open>seen\<close>.\<close>

definition add_volume :: "project_volume list \<Rightarrow> project_volume \<Rightarrow> project_volume list" where
  "add_volume vs v =
     (let targ = rooted_path (pv_target v) in
      if targ = ''.'' \<or> targ = ''/'' \<or> targ \<in> set (map pv_target vs) then vs
      else vs @ [v\<lparr>pv_target := targ, pv_browse := True\<rparr>])"

definition project_volumes :: "dr_ports \<Rightarrow> dr_request \<Rightarrow> project_volume list" where
  "project_volumes dp q =
     foldl add_volume []
       (compose_volumes dp (dq_compose q) (dq_service q) @ config_volumes dp (dq_config q))"

definition find_volume :: "project_volume list \<Rightarrow> string \<Rightarrow> project_volume option" where
  "find_volume vs targ = find (\<lambda>v. clean_path (pv_target v) = rooted_path targ) vs"

subsection \<open>Commands and scripts\<close>

definition shell_quote :: "string \<Rightarrow> string" where
  "shell_quote v = [CHR 0x27] @ replace_all v [CHR 0x27] [CHR 0x27, CHR 0x5C, CHR 0x27, CHR 0x27] @ [CHR 0x27]"

record dr_workspace =
  wk_dir :: string
  wk_project :: string

definition runtime_compose_args :: "dr_workspace \<Rightarrow> string list \<Rightarrow> string list" where
  "runtime_compose_args w args = [''compose'', ''-p'', wk_project w, ''-f'', ''compose.yaml''] @ args"

definition runtime_log_args :: "dr_workspace \<Rightarrow> dr_request \<Rightarrow> bool \<Rightarrow> string list" where
  "runtime_log_args w q follow =
     runtime_compose_args w
       ([''logs'', ''--timestamps'', ''--no-color'', ''--tail'', show_int (tail_lines (dq_tail q))]
        @ (if follow then [''--follow''] else [])
        @ (if 0 < dq_since q then [''--since'', show_int (dq_since q) @ ''s''] else [])
        @ [dq_service q])"

definition script_args :: "dr_workspace \<Rightarrow> dr_request \<Rightarrow> string \<Rightarrow> string list" where
  "script_args w q script =
     runtime_compose_args w [''exec'', ''-T'', dq_service q, ''sh'', ''-lc''] @ [script]"

definition list_script_lines :: "string list" where \<open>
  list_script_lines =
    [''[ -d "$p" ] || { echo "target is not a directory" >&2; exit 2; }'',
     ''count=0'',
     ''for f in "$p"/* "$p"/.[!.]* "$p"/..?*; do'',
     ''  [ -e "$f" ] || [ -L "$f" ] || continue'',
     ''  name=${f##*/}'',
     ''  kind=file; [ -d "$f" ] && kind=directory; [ -L "$f" ] && kind=symlink'',
     ''  size=$(stat -c %s "$f" 2>/dev/null || wc -c < "$f" 2>/dev/null || echo 0)'',
     ''  mtime=$(stat -c %y "$f" 2>/dev/null || echo "")'',
     ''  printf '' @ [CHR 0x27] @ ''%s'' @ [CHR 0x5C] @ ''t%s'' @ [CHR 0x5C] @ ''t%s'' @ [CHR 0x5C] @ ''t%s''
       @ [CHR 0x5C] @ ''n'' @ [CHR 0x27] @ '' "$kind" "$size" "$mtime" "$name"'',
     ''  count=$((count + 1))'',
     ''  [ "$count" -ge "$limit" ] && break'',
     ''done'']\<close>

definition read_script_lines :: "string list" where \<open>
  read_script_lines =
    [''[ -f "$p" ] || { echo "target is not a regular file" >&2; exit 2; }'',
     ''size=$(stat -c %s "$p" 2>/dev/null || wc -c < "$p" 2>/dev/null || echo 0)'',
     ''printf '' @ [CHR 0x27] @ ''__SOHA_SIZE__%s'' @ [CHR 0x5C] @ ''n'' @ [CHR 0x27] @ '' "$size"'',
     ''head -c "$limit" "$p"'']\<close>

definition script_of :: "string list \<Rightarrow> string \<Rightarrow> int \<Rightarrow> string" where
  "script_of body path limit =
     join_with [CHR 0x0A] ((''p='' @ shell_quote path) # (''limit='' @ show_int limit) # body)"

definition list_script :: "string \<Rightarrow> int \<Rightarrow> string" where
  "list_script = script_of list_script_lines"

definition read_script :: "string \<Rightarrow> int \<Rightarrow> string" where
  "read_script = script_of read_script_lines"

subsection \<open>Reading the output\<close>

record file_entry =
  fe_name :: string
  fe_path :: string
  fe_kind :: string
  fe_size :: int
  fe_modified :: string

text \<open>\<^verbatim>\<open>strconv.ParseInt\<close> with its error dropped: a number out of range reads as the nearest one.\<close>

definition parse_size :: "string \<Rightarrow> int" where
  "parse_size s =
     (let neg = has_prefix s ''-''; ds = (if neg \<or> has_prefix s ''+'' then drop 1 s else s) in
      if ds = [] \<or> \<not> list_all is_digit ds then 0
      else let v = foldl (\<lambda>a c. 10 * a + digit_value c) 0 ds; x = (if neg then - v else v)
           in max (- (2 ^ 63)) (min (2 ^ 63 - 1) x))"

text \<open>\<^verbatim>\<open>strings.SplitN(line, "\t", 4)\<close> when it has four parts.\<close>

definition split_entry :: "string \<Rightarrow> (string \<times> string \<times> string \<times> string) option" where
  "split_entry line =
     (case cut_char (CHR 0x09) line of None \<Rightarrow> None | Some (a, r1) \<Rightarrow>
      (case cut_char (CHR 0x09) r1 of None \<Rightarrow> None | Some (b, r2) \<Rightarrow>
       (case cut_char (CHR 0x09) r2 of None \<Rightarrow> None | Some (c, d) \<Rightarrow> Some (a, b, c, d))))"

definition parse_file_entry :: "string \<Rightarrow> string \<Rightarrow> file_entry option" where
  "parse_file_entry parent line =
     (case split_entry line of
        None \<Rightarrow> None
      | Some (kind, bytes, modified, rest) \<Rightarrow>
          (let name = trim_space rest in
           if name = [] then None
           else Some \<lparr>fe_name = name, fe_path = inner_path (join_path [parent, name]),
             fe_kind = trim_space kind, fe_size = parse_size (trim_space bytes),
             fe_modified = trim_space modified\<rparr>))"

definition parse_file_entries :: "string \<Rightarrow> string \<Rightarrow> file_entry list" where
  "parse_file_entries parent out =
     List.map_filter (parse_file_entry parent) (split_char (CHR 0x0A) (trim_space out))"

definition parse_file_content :: "string \<Rightarrow> int \<times> string" where
  "parse_file_content raw =
     (case cut_char (CHR 0x0A) raw of
        None \<Rightarrow> (int (length raw), raw)
      | Some (first, rest) \<Rightarrow>
          if \<not> has_prefix first ''__SOHA_SIZE__'' then (int (length raw), raw)
          else (parse_size (trim_space (trim_prefix first ''__SOHA_SIZE__'')), rest))"

subsection \<open>Handlers\<close>

text \<open>What the world gives: \<open>dw_temp\<close> the new directory, \<open>dw_write\<close> whether a file is written, \<open>dw_run\<close>
  the end of a command: its output, its error and whether its 30 seconds are over; \<open>dw_stream\<close> a stream.\<close>

record command_end =
  ce_output :: string
  ce_error :: "string option"
  ce_expired :: bool

datatype ctx_end = CtxLive | CtxCanceled | CtxExpired

record stream_end =
  st_text :: string
  st_start :: "bool option"
  st_failed :: bool
  st_ctx :: ctx_end

record dr_world =
  dw_temp :: "string option"
  dw_write :: "string \<Rightarrow> bool"
  dw_run :: "string \<Rightarrow> string list \<Rightarrow> command_end"
  dw_deadline :: bool
  dw_stream :: "string \<Rightarrow> string list \<Rightarrow> stream_end"

datatype dr_act =
    MadeTemp string
  | WroteFile string string
  | RanDocker string "string list"
  | RemovedTemp string

datatype dr_reply =
    DrError int string string
  | DrLogs string string int string string
  | DrStreamed string
  | DrVolumes "project_volume list"
  | DrFiles string string string string "file_entry list"
  | DrContent string string string string string int bool

definition runtime_failed :: dr_reply where
  "runtime_failed = DrError 502 ''docker_runtime_failed'' ''docker runtime request failed''"

text \<open>\<^verbatim>\<open>prepareDockerRuntimeWorkspace\<close>; its \<^verbatim>\<open>cleanup\<close> is \<^const>\<open>RemovedTemp\<close>.\<close>

definition prepare_runtime :: "dr_world \<Rightarrow> dr_request \<Rightarrow> dr_act list \<times> dr_workspace option" where
  "prepare_runtime w q =
     (case dw_temp w of
        None \<Rightarrow> ([], None)
      | Some dir \<Rightarrow>
          (let compose = join_path [dir, ''compose.yaml'']; env = join_path [dir, ''.env''];
               a1 = [MadeTemp dir, WroteFile compose (trim_space (dq_compose q) @ [CHR 0x0A])];
               a2 = a1 @ [WroteFile env (trim_space (dq_env q) @ [CHR 0x0A])];
               wk = \<lparr>wk_dir = dir, wk_project = runtime_project_name (dq_name q)\<rparr>
           in if \<not> dw_write w compose then (a1 @ [RemovedTemp dir], None)
              else if trim_space (dq_env q) = [] then (a1, Some wk)
              else if \<not> dw_write w env then (a2 @ [RemovedTemp dir], None)
              else (a2, Some wk)))"

definition run_runtime_command :: "dr_world \<Rightarrow> string \<Rightarrow> string list \<Rightarrow> string + string" where
  "run_runtime_command w dir args =
     (let e = dw_run w dir args in
      if ce_expired e then Inl ''docker runtime command timed out''
      else case ce_error e of
        Some m \<Rightarrow> Inl (''docker runtime command failed: '' @ m @ '': '' @ trim_space (ce_output e))
      | None \<Rightarrow> Inr (ce_output e))"

text \<open>\<^verbatim>\<open>streamDockerRuntimeCommand\<close>: whether it ends with an error that is not the cancellation.\<close>

definition stream_error :: "stream_end \<Rightarrow> bool" where
  "stream_error e =
     (case st_start e of
        Some canceled \<Rightarrow> \<not> canceled
      | None \<Rightarrow> (st_failed e \<and> st_ctx e = CtxLive) \<or> st_ctx e = CtxExpired)"

definition in_workspace ::
  "dr_world \<Rightarrow> dr_request \<Rightarrow> (dr_workspace \<Rightarrow> dr_act list \<times> dr_reply) \<Rightarrow> dr_act list \<times> dr_reply" where
  "in_workspace w q f =
     (case prepare_runtime w q of
        (acts, None) \<Rightarrow> (acts, runtime_failed)
      | (acts, Some wk) \<Rightarrow>
          (let (more, reply) = f wk in (acts @ more @ [RemovedTemp (wk_dir wk)], reply)))"

definition with_command ::
  "dr_world \<Rightarrow> dr_workspace \<Rightarrow> string list \<Rightarrow> (string \<Rightarrow> dr_reply) \<Rightarrow> dr_act list \<times> dr_reply" where
  "with_command w wk args f =
     ([RanDocker (wk_dir wk) args],
      case run_runtime_command w (wk_dir wk) args of Inl e \<Rightarrow> runtime_failed | Inr out \<Rightarrow> f out)"

text \<open>\<open>bind_runtime\<close> is \<^verbatim>\<open>bindDockerRuntimeRequest\<close>: the body is \<^const>\<open>None\<close> when it does not decode.\<close>

definition bind_runtime ::
  "dr_ports \<Rightarrow> dr_request option \<Rightarrow> (dr_request \<Rightarrow> dr_act list \<times> dr_reply) \<Rightarrow> dr_act list \<times> dr_reply" where
  "bind_runtime dp body f =
     (case body of
        None \<Rightarrow> ([], DrError 400 ''invalid_argument'' ''invalid docker runtime payload'')
      | Some q \<Rightarrow>
          (case validate_runtime_request dp q of
             Some e \<Rightarrow> ([], DrError 400 ''invalid_argument'' ''invalid docker runtime request'')
           | None \<Rightarrow> f q))"

definition handle_logs :: "dr_ports \<Rightarrow> dr_world \<Rightarrow> dr_request option \<Rightarrow> dr_act list \<times> dr_reply" where
  "handle_logs dp w body =
     bind_runtime dp body (\<lambda>q. in_workspace w q (\<lambda>wk.
       with_command w wk (runtime_log_args wk q False) (\<lambda>out.
         DrLogs (dq_project q) (dq_service q) (tail_lines (dq_tail q)) out ''agent_docker_cli'')))"

definition handle_log_stream :: "dr_ports \<Rightarrow> dr_world \<Rightarrow> dr_request option \<Rightarrow> dr_act list \<times> dr_reply" where
  "handle_log_stream dp w body =
     bind_runtime dp body (\<lambda>q. in_workspace w q (\<lambda>wk.
       if \<not> dw_deadline w
       then ([], DrError 500 ''stream_unavailable'' ''streaming response is unavailable'')
       else let args = runtime_log_args wk q True; e = dw_stream w (wk_dir wk) args in
         ([RanDocker (wk_dir wk) args],
          DrStreamed (st_text e @ (if stream_error e
            then [CHR 0x0A] @ ''[docker-runtime] docker runtime stream ended with an error'' @ [CHR 0x0A]
            else [])))))"

definition handle_volumes :: "dr_ports \<Rightarrow> dr_request option \<Rightarrow> dr_act list \<times> dr_reply" where
  "handle_volumes dp body = bind_runtime dp body (\<lambda>q. ([], DrVolumes (project_volumes dp q)))"

definition in_volume ::
  "dr_ports \<Rightarrow> dr_world \<Rightarrow> dr_request option
   \<Rightarrow> (dr_request \<Rightarrow> project_volume \<Rightarrow> dr_workspace \<Rightarrow> dr_act list \<times> dr_reply) \<Rightarrow> dr_act list \<times> dr_reply" where
  "in_volume dp w body f =
     bind_runtime dp body (\<lambda>q.
       case find_volume (project_volumes dp q) (dq_target q) of
         None \<Rightarrow> ([], DrError 404 ''not_found'' ''docker project volume not found'')
       | Some v \<Rightarrow> in_workspace w q (f q v))"

definition handle_volume_files :: "dr_ports \<Rightarrow> dr_world \<Rightarrow> dr_request option \<Rightarrow> dr_act list \<times> dr_reply" where
  "handle_volume_files dp w body =
     in_volume dp w body (\<lambda>q v wk.
       let inner = inner_path (dq_path q);
           script = list_script (container_path (pv_target v) inner) (list_limit (dq_limit q))
       in with_command w wk (script_args wk q script) (\<lambda>out.
            DrFiles (dq_project q) (dq_service q) (pv_target v) inner (parse_file_entries inner out)))"

definition handle_volume_file :: "dr_ports \<Rightarrow> dr_world \<Rightarrow> dr_request option \<Rightarrow> dr_act list \<times> dr_reply" where
  "handle_volume_file dp w body =
     in_volume dp w body (\<lambda>q v wk.
       let inner = inner_path (dq_path q); limit = read_limit (dq_limit_bytes q);
           script = read_script (container_path (pv_target v) inner) limit
       in with_command w wk (script_args wk q script) (\<lambda>out.
            let (bytes, content) = parse_file_content out in
            DrContent (dq_project q) (dq_service q) (pv_target v) inner content bytes (limit < bytes)))"

subsection \<open>The terminal\<close>

record term_message =
  tm_type :: string
  tm_data :: string
  tm_text :: string

definition term_error :: "string \<Rightarrow> term_message" where
  "term_error m = \<lparr>tm_type = ''error'', tm_data = [], tm_text = m\<rparr>"

text \<open>A session after the start of its process. \<open>tt_reading\<close> holds until \<^verbatim>\<open>readDone\<close> is closed;
  \<open>tt_stdout\<close> and \<open>tt_stderr\<close> hold while the two writers run.\<close>

record term_state =
  tt_sent :: "term_message list"
  tt_input :: string
  tt_reading :: bool
  tt_canceled :: bool
  tt_stdout :: bool
  tt_stderr :: bool
  tt_ended :: bool

datatype term_event =
    ClientSays string string bool
  | ClientLost
  | OutChunk string bool
  | ErrChunk string bool
  | ProcessEnds bool

definition stop_reading :: "term_state \<Rightarrow> term_state" where
  "stop_reading t = t\<lparr>tt_reading := False, tt_canceled := True\<rparr>"

definition term_send :: "term_message \<Rightarrow> term_state \<Rightarrow> term_state" where
  "term_send m t = t\<lparr>tt_sent := tt_sent t @ [m]\<rparr>"

definition client_says :: "string \<Rightarrow> string \<Rightarrow> bool \<Rightarrow> term_state \<Rightarrow> term_state" where
  "client_says kind data written t =
     (if \<not> tt_reading t then t
      else if kind = ''input''
      then if written then t\<lparr>tt_input := tt_input t @ data\<rparr> else stop_reading t
      else if kind = ''close'' then stop_reading t
      else t)"

definition out_chunk :: "string \<Rightarrow> bool \<Rightarrow> term_state \<Rightarrow> term_state" where
  "out_chunk data ok t =
     (if \<not> tt_stdout t then t
      else if ok then term_send \<lparr>tm_type = ''stdout'', tm_data = data, tm_text = []\<rparr> t
      else t\<lparr>tt_stdout := False\<rparr>)"

definition err_chunk :: "string \<Rightarrow> bool \<Rightarrow> term_state \<Rightarrow> term_state" where
  "err_chunk data ok t =
     (if \<not> tt_stderr t then t
      else if ok then term_send \<lparr>tm_type = ''stderr'', tm_data = data, tm_text = []\<rparr> t
      else t\<lparr>tt_stderr := False\<rparr>)"

text \<open>The end of the handler: the \<^verbatim>\<open>select\<close> cancels when the reader is not done; then the error of
  \<^verbatim>\<open>cmd.Wait\<close> is looked at.\<close>

definition process_ends :: "bool \<Rightarrow> term_state \<Rightarrow> term_state" where
  "process_ends failed t =
     (if tt_ended t then t
      else let t1 = (if tt_reading t then t\<lparr>tt_canceled := True\<rparr> else t);
               m = (if failed \<and> \<not> tt_canceled t1
                    then term_error ''docker runtime terminal exited with an error''
                    else \<lparr>tm_type = ''exit'', tm_data = [], tm_text = ''terminal session closed''\<rparr>)
           in (term_send m t1)\<lparr>tt_ended := True, tt_canceled := True\<rparr>)"

fun term_step :: "term_event \<Rightarrow> term_state \<Rightarrow> term_state" where
  "term_step (ClientSays kind data written) t = client_says kind data written t"
| "term_step ClientLost t = (if tt_reading t then stop_reading t else t)"
| "term_step (OutChunk data ok) t = out_chunk data ok t"
| "term_step (ErrChunk data ok) t = err_chunk data ok t"
| "term_step (ProcessEnds failed) t = process_ends failed t"

definition term_started :: term_state where
  "term_started = \<lparr>tt_sent = [], tt_input = [], tt_reading = True, tt_canceled = False, tt_stdout = True,
     tt_stderr = True, tt_ended = False\<rparr>"

definition term_run :: "term_event list \<Rightarrow> term_state" where
  "term_run es = fold term_step es term_started"

definition terminal_args :: "dr_workspace \<Rightarrow> dr_request \<Rightarrow> string list" where
  "terminal_args wk q =
     runtime_compose_args wk [''exec'', ''-T''] @ [dq_service q, runtime_shell (dq_shell q)]"

text \<open>\<open>init\<close> is the client's first message, if one is read; \<open>started\<close> whether the pipes and the process
  start.\<close>

definition terminal_session ::
  "dr_ports \<Rightarrow> dr_world \<Rightarrow> (string \<Rightarrow> dr_request option) \<Rightarrow> term_message option \<Rightarrow> bool \<Rightarrow> term_event list
   \<Rightarrow> dr_act list \<times> term_message list" where
  "terminal_session dp w decode init started es =
     (case init of
        None \<Rightarrow> ([], [term_error ''terminal init message is required''])
      | Some m \<Rightarrow>
          if tm_type m \<noteq> ''init'' \<or> trim_space (tm_data m) = []
          then ([], [term_error ''terminal init message is required''])
          else case decode (tm_data m) of
            None \<Rightarrow> ([], [term_error ''invalid terminal init payload''])
          | Some q \<Rightarrow>
              if validate_runtime_request dp q \<noteq> None
              then ([], [term_error ''invalid docker runtime request''])
              else case prepare_runtime w q of
                (acts, None) \<Rightarrow> (acts, [term_error ''docker runtime terminal is unavailable''])
              | (acts, Some wk) \<Rightarrow>
                  if \<not> started
                  then (acts @ [RemovedTemp (wk_dir wk)], [term_error ''docker runtime terminal failed to start''])
                  else (acts @ [RanDocker (wk_dir wk) (terminal_args wk q), RemovedTemp (wk_dir wk)],
                        tt_sent (term_run es)))"

subsection \<open>Routes\<close>

text \<open>The guards of a route, and what a request may do after them.\<close>

definition runtime_routes :: "string list \<Rightarrow> (string \<times> string \<times> guard list) list" where
  "runtime_routes tokens =
     [(''POST'', ''/logs'', [TokenRequired tokens]),
      (''POST'', ''/logs/stream'', [TokenRequired tokens]),
      (''GET'', ''/terminal'', [TokenRequired tokens, Action ''docker.runtime.terminal'']),
      (''POST'', ''/volumes'', [TokenRequired tokens]),
      (''POST'', ''/volume-files'', [TokenRequired tokens]),
      (''POST'', ''/volume-file'', [TokenRequired tokens])]"

definition runtime_handler ::
  "dr_ports \<Rightarrow> dr_world \<Rightarrow> string \<Rightarrow> dr_request option \<Rightarrow> dr_act list \<times> dr_reply" where
  "runtime_handler dp w path body =
     (if path = ''/logs'' then handle_logs dp w body
      else if path = ''/logs/stream'' then handle_log_stream dp w body
      else if path = ''/volumes'' then handle_volumes dp body
      else if path = ''/volume-files'' then handle_volume_files dp w body
      else handle_volume_file dp w body)"

end
