(* ===== verification/DockerRuntimeResults.thy ===== *)
theory DockerRuntimeResults
  imports DockerRuntime
begin

text \<open>
  What holds of the Docker runtime routes: the shell reads the quoted path of a script as that path, and
  the path is below the volume; a request works in one temporary directory, which it removes, with at most
  one Docker command; the limits and the project name; and what a terminal's client is told.

  \<open>shell_word\<close> is the specification of quoting: how a POSIX shell reads one word that holds no expansion.
\<close>

subsection \<open>Quoting\<close>

fun shell_word :: "bool \<Rightarrow> string \<Rightarrow> (string \<times> string) option" where
  "shell_word True [] = None"
| "shell_word False [] = Some ([], [])"
| "shell_word True (c # cs) =
     (if c = CHR 0x27 then shell_word False cs else map_option (apfst ((#) c)) (shell_word True cs))"
| "shell_word False (c # cs) =
     (if c = CHR 0x27 then shell_word True cs
      else if c = CHR 0x5C
      then (case cs of [] \<Rightarrow> None | d # ds \<Rightarrow> map_option (apfst ((#) d)) (shell_word False ds))
      else if c \<in> {CHR '' '', CHR 0x09, CHR 0x0A, CHR '';'', CHR ''&'', CHR ''|''} then Some ([], c # cs)
      else if c \<in> {CHR 0x22, CHR ''$'', CHR 0x60, CHR ''<'', CHR ''>'', CHR ''('', CHR '')'', CHR ''*'',
                   CHR ''?'', CHR ''['', CHR ''#'', CHR ''~''} then None
      else map_option (apfst ((#) c)) (shell_word False cs))"

lemma replace_quote_simps [simp]:
  "replace_all [] [CHR 0x27] r = []"
  "replace_all (CHR 0x27 # cs) [CHR 0x27] r = r @ replace_all cs [CHR 0x27] r"
  "c \<noteq> CHR 0x27 \<Longrightarrow> replace_all (c # cs) [CHR 0x27] r = c # replace_all cs [CHR 0x27] r"
  by (subst replace_all.simps, simp add: has_prefix_def)+

lemma shell_word_replaced:
  "shell_word True (replace_all v [CHR 0x27] [CHR 0x27, CHR 0x5C, CHR 0x27, CHR 0x27] @ CHR 0x27 # rest)
     = map_option (apfst ((@) v)) (shell_word False rest)"
proof (induction v)
  case (Cons c v)
  then show ?case
    by (cases "c = CHR 0x27") (auto simp: option.map_comp comp_def apfst_def map_prod_def split_def)
qed (simp add: apfst_def map_prod_def option.map_ident)

lemma shell_word_quote:
  "shell_word False (shell_quote v @ rest) = map_option (apfst ((@) v)) (shell_word False rest)"
  using shell_word_replaced [of v rest] by (simp add: shell_quote_def)

lemma shell_word_script:
  "shell_word False (script_of body p n)
     = Some (''p='' @ p, CHR 0x0A # join_with [CHR 0x0A] ((''limit='' @ show_int n) # body))"
  by (simp add: script_of_def shell_word_quote)

subsection \<open>Paths\<close>

lemma is_abs_rooted [simp]: "is_abs (rooted_path v)"
  by (simp add: rooted_path_def is_abs_def [of "CHR ''/'' # _"] has_prefix_def)

lemma rooted_path_clean [simp]: "clean_path (rooted_path v) = rooted_path v"
  by (simp add: rooted_path_def)

lemma inner_path_rooted: "inner_path v = rooted_path v"
proof -
  have "rooted_path v \<noteq> ''.''" and "rooted_path v \<noteq> []"
    using is_abs_rooted [of v] by (auto simp: is_abs_def has_prefix_def)
  then show ?thesis by (simp add: inner_path_def)
qed

lemma rooted_render: "rooted_path v = render_path True (path_parts (rooted_path v))"
  by (metis clean_path_def is_abs_rooted rooted_path_clean)

lemma container_path_parts:
  obtains ps where "list_all plain_part ps"
    and "container_path targ inner = render_path True (path_parts (rooted_path targ) @ ps)"
proof
  let ?ps = "path_parts (rooted_path inner)"
  show plain: "list_all plain_part ?ps" by (rule abs_parts_plain) simp
  have rest: "trim_prefix (inner_path inner) ''/'' = join_with ''/'' ?ps"
    by (subst inner_path_rooted, subst rooted_render) (simp add: render_path_def trim_prefix_def has_prefix_def)
  have ne: "join_with ''/'' ?ps = [] \<longleftrightarrow> ?ps = []"
    using plain by (cases ?ps) (auto simp: join_with_Cons plain_part_def)
  show "container_path targ inner = render_path True (path_parts (rooted_path targ) @ ?ps)"
  proof (cases "?ps = []")
    case True
    then show ?thesis using rooted_render [of targ] by (simp add: container_path_def rest)
  next
    case False
    have "rooted_path targ \<noteq> []" using is_abs_rooted [of targ] by (auto simp: is_abs_def has_prefix_def)
    then have "clean_path (join_path [rooted_path targ, join_with ''/'' ?ps])
        = join_path [rooted_path targ, join_with ''/'' ?ps]"
      by (simp add: join_path_def)
    with False ne join_root_relative [OF is_abs_rooted plain, of targ]
    show ?thesis by (simp add: container_path_def rest)
  qed
qed

text \<open>The volumes that can be browsed have clean, rooted targets that are not the root.\<close>

definition volume_ok :: "project_volume \<Rightarrow> bool" where
  "volume_ok v \<longleftrightarrow> is_abs (pv_target v) \<and> clean_path (pv_target v) = pv_target v
     \<and> path_parts (pv_target v) \<noteq> [] \<and> pv_browse v"

lemma add_volume_ok: "list_all volume_ok vs \<Longrightarrow> list_all volume_ok (add_volume vs v)"
proof -
  have "path_parts (rooted_path (pv_target v)) \<noteq> []" if "rooted_path (pv_target v) \<noteq> ''/''"
    using that rooted_render [of "pv_target v"] by (auto simp: render_path_def)
  then show "list_all volume_ok vs \<Longrightarrow> list_all volume_ok (add_volume vs v)"
    by (simp add: add_volume_def Let_def volume_ok_def)
qed

lemma add_volume_distinct: "distinct (map pv_target vs) \<Longrightarrow> distinct (map pv_target (add_volume vs v))"
  by (simp add: add_volume_def Let_def)

lemma foldl_add_volume:
  "list_all volume_ok vs \<and> distinct (map pv_target vs) \<Longrightarrow>
   list_all volume_ok (foldl add_volume vs xs) \<and> distinct (map pv_target (foldl add_volume vs xs))"
  by (induction xs arbitrary: vs) (simp_all add: add_volume_ok add_volume_distinct)

lemma project_volumes_ok:
  "list_all volume_ok (project_volumes dp q)" "distinct (map pv_target (project_volumes dp q))"
  unfolding project_volumes_def
  by (rule conjunct1 [OF foldl_add_volume], simp) (rule conjunct2 [OF foldl_add_volume], simp)

lemma find_volume_Some: "find_volume vs targ = Some v \<Longrightarrow> v \<in> set vs \<and> clean_path (pv_target v) = rooted_path targ"
  by (auto simp: find_volume_def find_Some_iff)

lemma unpadded_target:
  "volume_ok v \<Longrightarrow> trim_space (pv_target v) = pv_target v \<Longrightarrow> rooted_path (pv_target v) = pv_target v"
  by (cases "pv_target v") (auto simp: volume_ok_def rooted_path_def is_abs_def has_prefix_def trim_prefix_def)

subsection \<open>Limits\<close>

lemma clamp_limit_bounds: "1 \<le> usual \<Longrightarrow> usual \<le> most \<Longrightarrow> 1 \<le> clamp_limit usual most v \<and> clamp_limit usual most v \<le> most"
  by (simp add: clamp_limit_def)

lemma list_limit_bounds: "1 \<le> list_limit v \<and> list_limit v \<le> 1048576"
  using clamp_limit_bounds [of 200 1000 v] by (simp add: list_limit_def)

lemma read_limit_bounds: "1 \<le> read_limit v \<and> read_limit v \<le> 1048576"
  using clamp_limit_bounds [of "256 * 1024" "1024 * 1024" v] by (simp add: read_limit_def)

subsection \<open>What a request does\<close>

text \<open>One directory, made first and removed last; between, files and at most one command in it.\<close>

definition is_run :: "dr_act \<Rightarrow> bool" where
  "is_run a = (case a of RanDocker d args \<Rightarrow> True | _ \<Rightarrow> False)"

definition act_within :: "string \<Rightarrow> dr_act \<Rightarrow> bool" where
  "act_within d a =
     (case a of
        WroteFile p t \<Rightarrow> p = join_path [d, ''compose.yaml''] \<or> p = join_path [d, ''.env'']
      | RanDocker e args \<Rightarrow> e = d
      | _ \<Rightarrow> False)"

definition tidy :: "dr_act list \<Rightarrow> bool" where
  "tidy acts \<longleftrightarrow> acts = []
     \<or> (\<exists>d mid. acts = MadeTemp d # mid @ [RemovedTemp d] \<and> list_all (act_within d) mid
          \<and> length (filter is_run mid) \<le> 1)"

lemma prepare_runtime_cases:
  obtains (failed) acts where "prepare_runtime w q = (acts, None)" "tidy acts" "filter is_run acts = []"
  | (ready) mid d where
      "prepare_runtime w q = (MadeTemp d # mid, Some \<lparr>wk_dir = d, wk_project = runtime_project_name (dq_name q)\<rparr>)"
      "list_all (act_within d) mid" "filter is_run mid = []"
proof (cases "dw_temp w")
  case None
  then show ?thesis using failed by (simp add: prepare_runtime_def tidy_def)
next
  case (Some d)
  show ?thesis
  proof (cases "snd (prepare_runtime w q)")
    case None
    with Some have "tidy (fst (prepare_runtime w q))" and "filter is_run (fst (prepare_runtime w q)) = []"
      by (auto simp: prepare_runtime_def Let_def tidy_def act_within_def is_run_def split: if_splits)
    with None failed show ?thesis by (metis prod.collapse)
  next
    case (Some wk)
    with \<open>dw_temp w = Some d\<close> show ?thesis
      by (auto simp: prepare_runtime_def Let_def act_within_def is_run_def intro!: ready split: if_splits)
  qed
qed

lemma tidy_complete:
  "list_all (act_within d) mid \<Longrightarrow> filter is_run mid = [] \<Longrightarrow> list_all (act_within d) new \<Longrightarrow>
   length new \<le> 1 \<Longrightarrow> tidy (MadeTemp d # mid @ new @ [RemovedTemp d])"
  unfolding tidy_def
  by (rule disjI2, rule exI [of _ d], rule exI [of _ "mid @ new"])
     (simp add: le_trans [OF length_filter_le])

lemma in_workspace_tidy:
  assumes "\<And>wk. length (fst (f wk)) \<le> 1 \<and> list_all (act_within (wk_dir wk)) (fst (f wk))"
  shows "tidy (fst (in_workspace w q f))"
proof (cases rule: prepare_runtime_cases [of w q])
  case (failed acts)
  then show ?thesis by (simp add: in_workspace_def)
next
  case (ready mid d)
  let ?wk = "\<lparr>wk_dir = d, wk_project = runtime_project_name (dq_name q)\<rparr>"
  show ?thesis
    using tidy_complete [OF ready(2,3), of "fst (f ?wk)"] assms [of ?wk] ready(1)
    by (simp add: in_workspace_def split_def Let_def)
qed

lemma bind_runtime_tidy: "(\<And>q. tidy (fst (f q))) \<Longrightarrow> tidy (fst (bind_runtime dp body f))"
  by (simp add: bind_runtime_def tidy_def split: option.splits)

lemma with_command_short: "length (fst (with_command w wk args f)) \<le> 1 \<and> list_all (act_within (wk_dir wk)) (fst (with_command w wk args f))"
  by (simp add: with_command_def act_within_def)

lemma in_volume_tidy:
  "(\<And>q v wk. length (fst (f q v wk)) \<le> 1 \<and> list_all (act_within (wk_dir wk)) (fst (f q v wk))) \<Longrightarrow>
   tidy (fst (in_volume dp w body f))"
  unfolding in_volume_def
  by (rule bind_runtime_tidy) (auto simp: tidy_def [of "[]"] intro!: in_workspace_tidy split: option.split)

lemma runtime_handler_tidy: "tidy (fst (runtime_handler dp w path body))"
proof -
  have "tidy (fst (handle_logs dp w body))" "tidy (fst (handle_log_stream dp w body))"
    unfolding handle_logs_def handle_log_stream_def
    by (intro bind_runtime_tidy in_workspace_tidy with_command_short)
       (intro bind_runtime_tidy in_workspace_tidy, simp add: Let_def act_within_def)
  moreover have "tidy (fst (handle_volumes dp body))"
    unfolding handle_volumes_def by (rule bind_runtime_tidy) (simp add: tidy_def)
  moreover have "tidy (fst (handle_volume_files dp w body))" "tidy (fst (handle_volume_file dp w body))"
    unfolding handle_volume_files_def handle_volume_file_def Let_def
    by (rule in_volume_tidy, rule with_command_short)+
  ultimately show ?thesis by (simp add: runtime_handler_def)
qed

lemma terminal_session_tidy: "tidy (fst (terminal_session dp w decode init started es))"
proof -
  have "tidy (fst (case prepare_runtime w q of
      (acts, None) \<Rightarrow> (acts, m1)
    | (acts, Some wk) \<Rightarrow>
        if \<not> started then (acts @ [RemovedTemp (wk_dir wk)], m2)
        else (acts @ [RanDocker (wk_dir wk) (terminal_args wk q), RemovedTemp (wk_dir wk)], m3)))" for q m1 m2 m3
  proof (cases rule: prepare_runtime_cases [of w q])
    case (failed acts)
    then show ?thesis by simp
  next
    case (ready mid d)
    let ?args = "terminal_args \<lparr>wk_dir = d, wk_project = runtime_project_name (dq_name q)\<rparr> q"
    show ?thesis
      using tidy_complete [OF ready(2,3), of "[]"] tidy_complete [OF ready(2,3), of "[RanDocker d ?args]"] ready(1)
      by (simp add: act_within_def)
  qed
  note branch = this
  show ?thesis
    unfolding terminal_session_def
    by (simp add: tidy_def [of "[]"] split: option.split) (intro allI impI, rule branch)
qed

subsection \<open>The terminal's messages\<close>

text \<open>A reader that is done has canceled; no error is among the messages.\<close>

definition term_quiet :: "term_state \<Rightarrow> bool" where
  "term_quiet t \<longleftrightarrow> (\<not> tt_reading t \<longrightarrow> tt_canceled t) \<and> list_all (\<lambda>m. tm_type m \<noteq> ''error'') (tt_sent t)"

lemma term_step_quiet: "term_quiet t \<Longrightarrow> term_quiet (term_step e t)"
  by (cases e)
     (simp_all add: term_quiet_def client_says_def stop_reading_def out_chunk_def err_chunk_def
       process_ends_def term_send_def Let_def)

lemma term_run_quiet: "term_quiet (term_run es)"
proof -
  have "term_quiet (fold term_step es t)" if "term_quiet t" for t
    using that by (induction es arbitrary: t) (simp_all add: term_step_quiet)
  then show ?thesis by (simp add: term_run_def term_started_def term_quiet_def)
qed

subsection \<open>The project name\<close>

definition name_char :: "char \<Rightarrow> bool" where
  "name_char c \<longleftrightarrow> is_lower c \<or> is_digit c \<or> c = CHR ''-'' \<or> c = CHR ''_''"

lemma project_chars_ok: "list_all name_char (project_chars s)"
  by (induction s) (auto simp: name_char_def)

lemma hd_prefix: "u @ v = t \<Longrightarrow> u \<noteq> [] \<Longrightarrow> hd t = hd u \<and> t \<noteq> []"
  by auto

lemma trim_cutset_ends:
  assumes "trim_cutset s chars \<noteq> []"
  shows "hd (trim_cutset s chars) \<notin> set chars \<and> last (trim_cutset s chars) \<notin> set chars"
proof -
  define t u where "t = dropWhile (\<lambda>c. c \<in> set chars) s" and "u = dropWhile (\<lambda>c. c \<in> set chars) (rev t)"
  then have result: "trim_cutset s chars = rev u" by (simp add: trim_cutset_def)
  have u: "u \<noteq> []" using assms unfolding result by simp
  have "takeWhile (\<lambda>c. c \<in> set chars) (rev t) @ u = rev t" by (simp add: u_def)
  then have "rev u @ rev (takeWhile (\<lambda>c. c \<in> set chars) (rev t)) = t"
    by (metis rev_append rev_rev_ident)
  then have t: "hd t = hd (rev u)" "t \<noteq> []" using hd_prefix u by (metis rev_is_Nil_conv)+
  have "hd t \<notin> set chars" using t(2) hd_dropWhile unfolding t_def by metis
  moreover have "hd u \<notin> set chars" using u hd_dropWhile unfolding u_def by metis
  ultimately show ?thesis unfolding result t(1) by (simp add: last_rev u)
qed

lemma set_trim_cutset: "c \<in> set (trim_cutset s chars) \<Longrightarrow> c \<in> set s"
  unfolding trim_cutset_def by (metis set_dropWhileD set_rev)

subsection \<open>Theorems\<close>

lemma runtime_name_chars: "list_all name_char (runtime_project_name v)"
proof -
  have "list_all name_char (trim_cutset (project_chars s) ''-_'')" for s
    using project_chars_ok [of s] set_trim_cutset [of _ "project_chars s"] by (auto simp: list_all_iff)
  moreover have "list_all name_char ''soha-docker''" by code_simp
  ultimately show ?thesis by (simp only: runtime_project_name_def Let_def split: if_split) simp
qed

lemma name_char_end: "name_char c \<Longrightarrow> c \<notin> set ''-_'' \<Longrightarrow> is_lower c \<or> is_digit c"
  by (auto simp: name_char_def)

lemma bound_script: "list_script_lines \<noteq> []" "read_script_lines \<noteq> []"
  unfolding list_script_lines_def read_script_lines_def by (rule list.distinct)+

lemma shell_word_body:
  assumes "body \<noteq> []"
  shows "shell_word False (script_of body p n)
     = Some (''p='' @ p, CHR 0x0A # ''limit='' @ show_int n @ CHR 0x0A # join_with [CHR 0x0A] body)"
  unfolding shell_word_script using assms by (simp add: join_with_Cons)

lemma run_in_volume:
  assumes "RanDocker d args \<in> set (fst (in_volume dp w body (\<lambda>q v wk.
      with_command w wk (script_args wk q (script q v)) (f q v))))"
  obtains q v where "body = Some q" "find_volume (project_volumes dp q) (dq_target q) = Some v"
    "args = [''compose'', ''-p'', runtime_project_name (dq_name q), ''-f'', ''compose.yaml'', ''exec'', ''-T'',
       dq_service q, ''sh'', ''-lc'', script q v]"
proof -
  obtain q v where q: "body = Some q" "find_volume (project_volumes dp q) (dq_target q) = Some v"
    and run: "RanDocker d args \<in> set (fst (in_workspace w q (\<lambda>wk. with_command w wk (script_args wk q (script q v)) (f q v))))"
    using assms by (auto simp: in_volume_def bind_runtime_def split: option.splits)
  have "args = script_args \<lparr>wk_dir = d, wk_project = runtime_project_name (dq_name q)\<rparr> q (script q v)"
  proof (cases rule: prepare_runtime_cases [of w q])
    case (failed acts)
    have "RanDocker d args \<in> set (filter is_run acts)"
      using run failed(1) by (simp add: in_workspace_def is_run_def)
    then show ?thesis using failed(3) by simp
  next
    case (ready mid e)
    have "RanDocker d args \<notin> set mid" using ready(3) by (auto simp: filter_empty_conv is_run_def)
    then show ?thesis using run ready(1) by (auto simp: in_workspace_def with_command_def Let_def)
  qed
  with q that show thesis by (simp add: script_args_def runtime_compose_args_def)
qed

lemma script_confined:
  assumes body: "body = Some q" and found: "find_volume (project_volumes dp q) (dq_target q) = Some v"
    and args: "args = [''compose'', ''-p'', runtime_project_name (dq_name q), ''-f'', ''compose.yaml'', ''exec'', ''-T'',
       dq_service q, ''sh'', ''-lc'', script_of lines (container_path (pv_target v) inner) n]"
    and lines: "lines \<in> {list_script_lines, read_script_lines}" and n: "1 \<le> n \<and> n \<le> 1048576"
  shows "\<exists>q v ps script n lines. body = Some q
    \<and> args = [''compose'', ''-p'', runtime_project_name (dq_name q), ''-f'', ''compose.yaml'', ''exec'', ''-T'',
        dq_service q, ''sh'', ''-lc'', script]
    \<and> lines \<in> {list_script_lines, read_script_lines}
    \<and> v \<in> set (project_volumes dp q) \<and> list_all plain_part ps \<and> 1 \<le> n \<and> n \<le> 1048576
    \<and> shell_word False script
        = Some (''p='' @ render_path True (path_parts (rooted_path (pv_target v)) @ ps),
             CHR 0x0A # ''limit='' @ show_int n @ CHR 0x0A # join_with [CHR 0x0A] lines)
    \<and> (trim_space (pv_target v) = pv_target v
         \<longrightarrow> rooted_path (pv_target v) = pv_target v \<and> path_parts (pv_target v) \<noteq> [])"
proof -
  obtain ps where ps: "list_all plain_part ps"
      and path: "container_path (pv_target v) inner = render_path True (path_parts (rooted_path (pv_target v)) @ ps)"
    by (rule container_path_parts)
  have v: "v \<in> set (project_volumes dp q)" using find_volume_Some [OF found] by (rule conjunct1)
  then have ok: "volume_ok v" using project_volumes_ok(1) [of dp q] by (simp add: list_all_iff)
  have "lines \<noteq> []" using lines bound_script by auto
  note script = shell_word_body [OF this, of "container_path (pv_target v) inner" n, unfolded path]
  have whole: "trim_space (pv_target v) = pv_target v
      \<longrightarrow> rooted_path (pv_target v) = pv_target v \<and> path_parts (pv_target v) \<noteq> []"
    using ok unpadded_target [OF ok] by (simp add: volume_ok_def)
  show ?thesis
    by (intro exI conjI, rule body, rule args [unfolded path], rule lines, rule v, rule ps,
        rule n [THEN conjunct1], rule n [THEN conjunct2], rule script, rule whole)
qed

text \<open>C33: the command of a request for the files of a volume: its script is given whole to the shell of the
  requested service; the shell reads its first word as the assignment of one path, then the limit, which is within the bounds,
  and then one of the two fixed scripts. The path lies below what trimming and cleaning once more makes of the
  target of a declared volume; that is the target itself, and not the root, unless the target has a blank at its
  end. With such a blank the path may be anywhere: \<open>padded_target_opens_root\<close> reads \<^verbatim>\<open>/etc/passwd\<close>.\<close>

theorem volume_scripts_confined:
  assumes "RanDocker d args \<in> set (fst (handle_volume_files dp w body)) \<union> set (fst (handle_volume_file dp w body))"
  shows "\<exists>q v ps script n lines. body = Some q
    \<and> args = [''compose'', ''-p'', runtime_project_name (dq_name q), ''-f'', ''compose.yaml'', ''exec'', ''-T'',
        dq_service q, ''sh'', ''-lc'', script]
    \<and> lines \<in> {list_script_lines, read_script_lines}
    \<and> v \<in> set (project_volumes dp q) \<and> list_all plain_part ps \<and> 1 \<le> n \<and> n \<le> 1048576
    \<and> shell_word False script
        = Some (''p='' @ render_path True (path_parts (rooted_path (pv_target v)) @ ps),
             CHR 0x0A # ''limit='' @ show_int n @ CHR 0x0A # join_with [CHR 0x0A] lines)
    \<and> (trim_space (pv_target v) = pv_target v
         \<longrightarrow> rooted_path (pv_target v) = pv_target v \<and> path_parts (pv_target v) \<noteq> [])"
  using assms unfolding Un_iff
proof
  assume "RanDocker d args \<in> set (fst (handle_volume_files dp w body))"
  then obtain q v where "body = Some q" "find_volume (project_volumes dp q) (dq_target q) = Some v"
    "args = [''compose'', ''-p'', runtime_project_name (dq_name q), ''-f'', ''compose.yaml'', ''exec'', ''-T'',
       dq_service q, ''sh'', ''-lc'', list_script (container_path (pv_target v) (inner_path (dq_path q))) (list_limit (dq_limit q))]"
    unfolding handle_volume_files_def Let_def by (rule run_in_volume)
  then show ?thesis unfolding list_script_def by (rule script_confined) (rule insertI1, rule list_limit_bounds)
next
  assume "RanDocker d args \<in> set (fst (handle_volume_file dp w body))"
  then obtain q v where "body = Some q" "find_volume (project_volumes dp q) (dq_target q) = Some v"
    "args = [''compose'', ''-p'', runtime_project_name (dq_name q), ''-f'', ''compose.yaml'', ''exec'', ''-T'',
       dq_service q, ''sh'', ''-lc'', read_script (container_path (pv_target v) (inner_path (dq_path q))) (read_limit (dq_limit_bytes q))]"
    unfolding handle_volume_file_def Let_def by (rule run_in_volume)
  then show ?thesis unfolding read_script_def
    by (rule script_confined) (rule insertI2, rule singletonI, rule read_limit_bounds)
qed

text \<open>C30: whatever the answer and whatever fails, a request does nothing or makes one temporary directory,
  writes its two files and runs at most one Docker command there, and removes it last; a terminal too.\<close>

theorem runtime_directory_removed:
  "tidy (fst (runtime_handler dp w path body)) \<and> tidy (fst (terminal_session dp w decode init started es))"
  using runtime_handler_tidy terminal_session_tidy by blast

text \<open>The client of a terminal is never told of a failure of its process: the message for it is never
  sent, whatever happens and in whatever order, and a process that fails is told as a closed session.\<close>

theorem terminal_failure_never_told:
  "list_all (\<lambda>m. tm_type m \<noteq> ''error'') (tt_sent (term_run es))
   \<and> tt_sent (term_run [ProcessEnds True])
       = [\<lparr>tm_type = ''exit'', tm_data = [], tm_text = ''terminal session closed''\<rparr>]"
proof
  show "list_all (\<lambda>m. tm_type m \<noteq> ''error'') (tt_sent (term_run es))"
    using term_run_quiet [of es] unfolding term_quiet_def by (rule conjunct2)
  show "tt_sent (term_run [ProcessEnds True])
       = [\<lparr>tm_type = ''exit'', tm_data = [], tm_text = ''terminal session closed''\<rparr>]"
    by (simp add: term_run_def term_started_def process_ends_def term_send_def Let_def)
qed

text \<open>The name of the Compose project that a request works on is not empty, holds lower case letters,
  digits, hyphens and underscores only, and begins and ends with a letter or a digit.\<close>

theorem runtime_project_name_wellformed:
  "let n = runtime_project_name v in
     n \<noteq> [] \<and> list_all name_char n \<and> (is_lower (hd n) \<or> is_digit (hd n)) \<and> (is_lower (last n) \<or> is_digit (last n))"
proof -
  let ?n = "runtime_project_name v"
  have n: "?n \<noteq> []" "hd ?n \<notin> set ''-_''" "last ?n \<notin> set ''-_''"
    using trim_cutset_ends [of "project_chars (to_lower (trim_space v))" "''-_''"]
    by (simp_all add: runtime_project_name_def Let_def)
  moreover have "name_char (hd ?n)" "name_char (last ?n)"
    using runtime_name_chars [of v] n(1) by (auto simp: list_all_iff)
  ultimately show ?thesis unfolding Let_def using runtime_name_chars [of v] name_char_end by blast
qed

subsection \<open>Instances\<close>

definition sample_ports :: dr_ports where
  "sample_ports = \<lparr>dp_yaml = (\<lambda>t. Some [(''services'', VMap [(''web'', VMap [(''volumes'', VList [VStr ''data:/data:ro''])])])]),
     dp_float = (\<lambda>r. [])\<rparr>"

definition sample_request :: dr_request where
  "sample_request = \<lparr>dq_project = ''p1'', dq_name = ''Web Shop'', dq_compose = ''services:'', dq_env = [], dq_config = [],
     dq_service = ''web'', dq_tail = 0, dq_since = 0, dq_target = ''/data'', dq_path = ''../logs/app'',
     dq_limit = 0, dq_limit_bytes = 0, dq_shell = []\<rparr>"

definition sample_world :: dr_world where
  "sample_world = \<lparr>dw_temp = Some ''/tmp/d1'', dw_write = (\<lambda>p. True),
     dw_run = (\<lambda>d args. \<lparr>ce_output = ''ok'', ce_error = None, ce_expired = False\<rparr>), dw_deadline = True,
     dw_stream = (\<lambda>d args. \<lparr>st_text = [], st_start = None, st_failed = False, st_ctx = CtxLive\<rparr>)\<rparr>"

definition sample_args :: "string \<Rightarrow> string list" where
  "sample_args path = script_args \<lparr>wk_dir = ''/tmp/d1'', wk_project = ''web-shop''\<rparr> sample_request (read_script path 262144)"

text \<open>The run of a request for one file, from the parts of it that are evaluated.\<close>

lemma file_request_runs:
  assumes valid: "validate_runtime_request dp q = None"
    and found: "map_option pv_target (find_volume (project_volumes dp q) (dq_target q)) = Some targ"
    and path: "container_path targ (inner_path (dq_path q)) = p"
    and world: "snd (prepare_runtime w q) = Some wk"
  shows "RanDocker (wk_dir wk) (script_args wk q (read_script p (read_limit (dq_limit_bytes q))))
    \<in> set (fst (handle_volume_file dp w (Some q)))"
proof -
  obtain v where v: "find_volume (project_volumes dp q) (dq_target q) = Some v" "pv_target v = targ"
    using found by auto
  obtain acts where acts: "prepare_runtime w q = (acts, Some wk)" using world by (metis prod.collapse)
  show ?thesis
    by (simp add: handle_volume_file_def in_volume_def bind_runtime_def valid v in_workspace_def acts path Let_def
        with_command_def)
qed

lemma sample_args_read:
  "script_args \<lparr>wk_dir = ''/tmp/d1'', wk_project = ''web-shop''\<rparr> sample_request (read_script p (read_limit 0)) = sample_args p"
proof -
  have "read_limit 0 = 262144" by code_simp
  then show ?thesis unfolding sample_args_def by argo
qed

lemma sample_volume_run:
  "RanDocker ''/tmp/d1'' (sample_args ''/data/logs/app'') \<in> set (fst (handle_volume_file sample_ports sample_world (Some sample_request)))"
proof -
  have "validate_runtime_request sample_ports sample_request = None" by code_simp
  moreover have "map_option pv_target (find_volume (project_volumes sample_ports sample_request) (dq_target sample_request))
      = Some ''/data''" by code_simp
  moreover have "container_path ''/data'' (inner_path (dq_path sample_request)) = ''/data/logs/app''" by code_simp
  moreover have "snd (prepare_runtime sample_world sample_request) = Some \<lparr>wk_dir = ''/tmp/d1'', wk_project = ''web-shop''\<rparr>"
    by code_simp
  ultimately have "RanDocker (wk_dir \<lparr>wk_dir = ''/tmp/d1'', wk_project = ''web-shop''\<rparr>)
      (script_args \<lparr>wk_dir = ''/tmp/d1'', wk_project = ''web-shop''\<rparr> sample_request
        (read_script ''/data/logs/app'' (read_limit (dq_limit_bytes sample_request))))
      \<in> set (fst (handle_volume_file sample_ports sample_world (Some sample_request)))"
    by (rule file_request_runs)
  moreover have "dq_limit_bytes sample_request = 0" by (simp only: sample_request_def dr_request.simps)
  ultimately show ?thesis by (simp only: sample_args_read dr_workspace.simps)
qed

lemma volume_scripts_confined_witness:
  "\<exists>v ps script n lines. sample_args ''/data/logs/app''
      = [''compose'', ''-p'', runtime_project_name ''Web Shop'', ''-f'', ''compose.yaml'', ''exec'', ''-T'', ''web'', ''sh'', ''-lc'', script]
    \<and> v \<in> set (project_volumes sample_ports sample_request)
    \<and> shell_word False script
        = Some (''p='' @ render_path True (path_parts (rooted_path (pv_target v)) @ ps),
             CHR 0x0A # ''limit='' @ show_int n @ CHR 0x0A # join_with [CHR 0x0A] lines)"
proof -
  have "RanDocker ''/tmp/d1'' (sample_args ''/data/logs/app'')
      \<in> set (fst (handle_volume_files sample_ports sample_world (Some sample_request)))
        \<union> set (fst (handle_volume_file sample_ports sample_world (Some sample_request)))"
    by (rule UnI2 [OF sample_volume_run])
  from volume_scripts_confined [OF this]
  obtain q v ps script n lines where q: "Some sample_request = Some q"
    and found: "sample_args ''/data/logs/app'' = [''compose'', ''-p'', runtime_project_name (dq_name q), ''-f'', ''compose.yaml'',
        ''exec'', ''-T'', dq_service q, ''sh'', ''-lc'', script]"
      "v \<in> set (project_volumes sample_ports q)"
      "shell_word False script = Some (''p='' @ render_path True (path_parts (rooted_path (pv_target v)) @ ps),
         CHR 0x0A # ''limit='' @ show_int n @ CHR 0x0A # join_with [CHR 0x0A] lines)"
    by (elim exE conjE) (rule that)
  have q': "q = sample_request" using q by (simp only: option.inject)
  have names: "dq_name sample_request = ''Web Shop''" "dq_service sample_request = ''web''"
    by (simp_all only: sample_request_def dr_request.simps)
  show ?thesis
    by (intro exI conjI, rule found(1) [unfolded q' names], rule found(2) [unfolded q'], rule found(3))
qed

definition padded_request :: dr_request where
  "padded_request = sample_request\<lparr>dq_config := [(''volumes'', VList [VMap [(''target'', VStr ''/ /x/..'')]])],
     dq_target := ''/ /x/..'', dq_path := ''etc/passwd''\<rparr>"

text \<open>A target whose cleaned form ends in a blank is kept as a volume, and the blank is cut off when the path
  in the container is formed: with such a target the files of the whole container are read, though no target
  is the root.\<close>

theorem padded_target_opens_root:
  "map pv_target (project_volumes sample_ports padded_request) = [''/data'', ''/ '']
   \<and> RanDocker ''/tmp/d1'' (sample_args ''/etc/passwd'')
       \<in> set (fst (handle_volume_file sample_ports sample_world (Some padded_request)))"
proof
  show "map pv_target (project_volumes sample_ports padded_request) = [''/data'', ''/ '']" by code_simp
  have "validate_runtime_request sample_ports padded_request = None" by code_simp
  moreover have "map_option pv_target (find_volume (project_volumes sample_ports padded_request) (dq_target padded_request))
      = Some ''/ ''" by code_simp
  moreover have "container_path ''/ '' (inner_path (dq_path padded_request)) = ''/etc/passwd''" by code_simp
  moreover have "snd (prepare_runtime sample_world padded_request) = Some \<lparr>wk_dir = ''/tmp/d1'', wk_project = ''web-shop''\<rparr>"
    by code_simp
  ultimately have "RanDocker (wk_dir \<lparr>wk_dir = ''/tmp/d1'', wk_project = ''web-shop''\<rparr>)
      (script_args \<lparr>wk_dir = ''/tmp/d1'', wk_project = ''web-shop''\<rparr> padded_request
        (read_script ''/etc/passwd'' (read_limit (dq_limit_bytes padded_request))))
      \<in> set (fst (handle_volume_file sample_ports sample_world (Some padded_request)))"
    by (rule file_request_runs)
  moreover have "dq_limit_bytes padded_request = 0"
    "script_args wk padded_request script = script_args wk sample_request script" for wk script
    by (simp_all only: padded_request_def sample_request_def script_args_def dr_request.simps dr_request.update_convs)
  ultimately show "RanDocker ''/tmp/d1'' (sample_args ''/etc/passwd'')
       \<in> set (fst (handle_volume_file sample_ports sample_world (Some padded_request)))"
    by (simp only: sample_args_read dr_workspace.simps)
qed

text \<open>The name of the service is validated without the blanks around it and given to Docker with them.\<close>

theorem padded_service_reaches_docker:
  "validate_runtime_request sample_ports (sample_request\<lparr>dq_service := '' web ''\<rparr>) = None
   \<and> last (runtime_log_args wk (sample_request\<lparr>dq_service := '' web ''\<rparr>) follow) = '' web ''"
proof
  show "validate_runtime_request sample_ports (sample_request\<lparr>dq_service := '' web ''\<rparr>) = None" by code_simp
  show "last (runtime_log_args wk (sample_request\<lparr>dq_service := '' web ''\<rparr>) follow) = '' web ''"
    by (simp add: runtime_log_args_def runtime_compose_args_def)
qed

end
