(* ===== verification/SshCommand.thy ===== *)
theory SshCommand
  imports ApiSessions RunnerPayload GoRunes
begin

text \<open>
  SSH commands (\<^verbatim>\<open>internal/agent/runner/ssh_command.go\<close>): the bounded
  output, and the run of a command from its validation to the report, as the list of what it does.

  \<open>SshCheck\<close> records what the control plane answers. What it and the SSH server answer, and the output of the command, are the world. The loop
  that waits is a function of the events that arrive; it has no result while none of them ends it.
\<close>

subsection \<open>Output\<close>

record ssh_output =
  so_data :: string
  so_truncated :: bool

definition ssh_limit :: nat where "ssh_limit = 1048576"

definition no_output :: ssh_output where
  "no_output = \<lparr>so_data = [], so_truncated = False\<rparr>"

definition ssh_write :: "string \<Rightarrow> ssh_output \<Rightarrow> ssh_output" where
  "ssh_write data out =
     (let remaining = ssh_limit - length (so_data out) in
      if remaining < length data
      then out\<lparr>so_data := so_data out @ take remaining data, so_truncated := True\<rparr>
      else out\<lparr>so_data := so_data out @ data\<rparr>)"

text \<open>\<^verbatim>\<open>strings.ToValidUTF8\<close>: one replacement for a run of invalid bytes; the flag holds inside a run.\<close>

function to_valid :: "string \<Rightarrow> bool \<Rightarrow> string \<Rightarrow> string" where
  "to_valid repl bad [] = []"
| "to_valid repl bad (c # s) =
     (if rune_width (c # s) = 0 then (if bad then [] else repl) @ to_valid repl True s
      else take (rune_width (c # s)) (c # s) @ to_valid repl False (drop (rune_width (c # s)) (c # s)))"
  by pat_completeness auto
termination by (relation "measure (\<lambda>(r, b, s). length s)") auto

declare to_valid.simps(2) [simp del]

definition ssh_snapshot :: "ssh_output \<Rightarrow> string \<times> bool" where
  "ssh_snapshot out =
     (let shown = to_valid replacement_rune False (so_data out) in
      if ssh_limit < length shown then (to_valid [] False (take ssh_limit shown), True)
      else (shown, so_truncated out))"

subsection \<open>Commands\<close>

record ssh_command =
  sc_session :: ssh_input
  sc_timeout :: int
  sc_text :: string

record ssh_result =
  sr_session :: string
  sr_agent :: string
  sr_command :: string
  sr_effect :: string
  sr_stopped :: bool
  sr_exit :: "int option"
  sr_stdout :: string
  sr_stderr :: string
  sr_truncated :: bool
  sr_output :: string

text \<open>\<open>sx_decode\<close> reads the payload: whether it decodes, and what was read of it.\<close>

record ssh_host =
  sx_ports :: ssh_ports
  sx_cfg :: ssh_cfg
  sx_cluster :: string
  sx_sha :: "string \<Rightarrow> string"
  sx_decode :: "gvalue \<Rightarrow> bool \<times> ssh_command"

definition ssh_command_valid :: "ssh_host \<Rightarrow> gotime \<Rightarrow> exec_task \<Rightarrow> bool" where
  "ssh_command_valid h now t =
     (let (decoded, c) = sx_decode h (map_get (task_payload t) ''sshCommand'') in
      decoded \<and> sx_cluster h \<noteq> [] \<and> si_cluster (sc_session c) = sx_cluster h
      \<and> task_provider t = ''vm_ssh.'' @ sx_cluster h \<and> si_session (sc_session c) = task_id t
      \<and> sc_timeout c = task_timeout t \<and> 1 \<le> sc_timeout c \<and> sc_timeout c \<le> 300
      \<and> sc_text c \<noteq> [] \<and> length (sc_text c) \<le> 16384 \<and> CHR 0x00 \<notin> set (sc_text c)
      \<and> validate_ssh (sx_ports h) (sx_cfg h) now (sc_session c) = None)"

text \<open>The context can end, by its deadline or the runner, without the loop seeing it at once. \<open>CommandEnds\<close> has what
  \<^verbatim>\<open>session.Wait\<close> returns, as \<^const>\<open>ssh_exit_code\<close> reads it.\<close>

datatype command_event = ContextEnds | DoneSeen | CommandEnds "int option option" | StatusTick bool

record ssh_end =
  sn_status :: string
  sn_effect :: string
  sn_exit :: "int option"
  sn_canceled :: bool

definition unknown_end :: "bool \<Rightarrow> ssh_end" where
  "unknown_end canceled =
     \<lparr>sn_status = ''callback_timeout'', sn_effect = ''unknown'', sn_exit = None, sn_canceled = canceled\<rparr>"

definition command_end_of :: "bool \<Rightarrow> int option option \<Rightarrow> ssh_end" where
  "command_end_of canceled r =
     (if canceled then unknown_end True
      else case ssh_exit_code r of
        None \<Rightarrow> unknown_end False
      | Some n \<Rightarrow> \<lparr>sn_status = (if n = 0 then ''completed'' else ''failed''), sn_effect = ''exited'',
          sn_exit = Some n, sn_canceled = False\<rparr>)"

fun ssh_wait :: "bool \<Rightarrow> command_event list \<Rightarrow> ssh_end option" where
  "ssh_wait canceled [] = None"
| "ssh_wait canceled (ContextEnds # es) = ssh_wait True es"
| "ssh_wait canceled (DoneSeen # es) = (if canceled then Some (unknown_end True) else ssh_wait canceled es)"
| "ssh_wait canceled (CommandEnds r # es) = Some (command_end_of canceled r)"
| "ssh_wait canceled (StatusTick ok # es) = ssh_wait (canceled \<or> \<not> ok) es"

record ssh_world =
  sw_first_check :: bool
  sw_auth :: bool
  sw_dial :: bool
  sw_session :: bool
  sw_second_check :: bool
  sw_start :: bool
  sw_expired :: bool
  sw_events :: "command_event list"
  sw_stdout :: "string list"
  sw_stderr :: "string list"

datatype ssh_act =
    SshMetric
  | SshRegister string
  | SshUnregister string
  | SshCheck bool
  | SshRedeem
  | SshDial
  | SshSession
  | SshStart string
  | SshRunning ssh_result
  | SshKill
  | SshCloseSession
  | SshCloseClient
  | SshFinal string ssh_result
  | SshOutcome string

definition finish_ssh :: "string \<Rightarrow> ssh_result \<Rightarrow> ssh_act list" where
  "finish_ssh status r = [SshFinal status r, SshOutcome status]"

definition initial_result :: "ssh_host \<Rightarrow> exec_task \<Rightarrow> ssh_command \<Rightarrow> ssh_result" where
  "initial_result h t c =
     \<lparr>sr_session = task_id t, sr_agent = sh_agent (sx_cfg h), sr_command = ''sha256:'' @ sx_sha h (sc_text c),
      sr_effect = ''not_started'', sr_stopped = True, sr_exit = None, sr_stdout = [], sr_stderr = [],
      sr_truncated = False, sr_output = []\<rparr>"

definition final_result :: "ssh_host \<Rightarrow> ssh_world \<Rightarrow> ssh_end \<Rightarrow> ssh_result \<Rightarrow> ssh_result" where
  "final_result h w e r =
     (let (out, cut1) = ssh_snapshot (fold ssh_write (sw_stdout w) no_output);
          (err, cut2) = ssh_snapshot (fold ssh_write (sw_stderr w) no_output)
      in r\<lparr>sr_effect := sn_effect e, sr_exit := sn_exit e, sr_stdout := out, sr_stderr := err,
           sr_truncated := (cut1 \<or> cut2),
           sr_output := ''sha256:'' @ sx_sha h (out @ [CHR 0x00] @ err), sr_stopped := True\<rparr>)"

text \<open>After the session is open. \<open>SshKill\<close> is what \<^verbatim>\<open>stopSSHCommandOnCancel\<close> sends when the context has ended
  before it is told to stop, which \<open>sw_expired\<close> says for an end that the loop does not see;
  the deferred calls that close the session and the client run after the report when the start fails.\<close>

definition run_ssh_session ::
  "ssh_host \<Rightarrow> ssh_world \<Rightarrow> ssh_command \<Rightarrow> ssh_result \<Rightarrow> ssh_act list option" where
  "run_ssh_session h w c r =
     (let closing = [SshCloseSession, SshCloseClient]; unknown = r\<lparr>sr_effect := ''unknown''\<rparr>;
          late = (if sw_expired w then [SshKill] else []) in
      if \<not> sw_second_check w then Some ([SshCheck (sw_second_check w)] @ finish_ssh ''failed'' r @ late @ closing)
      else if \<not> sw_start w
      then Some ([SshCheck (sw_second_check w), SshStart (sc_text c)] @ finish_ssh ''failed'' unknown @ late @ closing)
      else case ssh_wait False (sw_events w) of
        None \<Rightarrow> None
      | Some e \<Rightarrow>
          Some ([SshCheck (sw_second_check w), SshStart (sc_text c), SshRunning (unknown\<lparr>sr_stopped := False\<rparr>)]
            @ (if sn_canceled e \<or> sw_expired w then [SshKill] else [])
            @ closing @ finish_ssh (sn_status e) (final_result h w e unknown) @ closing))"

definition execute_ssh_command ::
  "ssh_host \<Rightarrow> gotime \<Rightarrow> exec_task \<Rightarrow> ssh_world \<Rightarrow> ssh_act list option" where
  "execute_ssh_command h now t w =
     (let c = snd (sx_decode h (map_get (task_payload t) ''sshCommand''));
          r = initial_result h t c; failed = finish_ssh ''failed'' r;
          whole = (\<lambda>acts. [SshMetric, SshRegister (task_id t)] @ acts @ [SshUnregister (task_id t)])
      in if \<not> ssh_command_valid h now t then Some (SshMetric # failed)
         else if \<not> sw_first_check w then Some (whole ([SshCheck (sw_first_check w)] @ failed))
         else if \<not> sw_auth w then Some (whole ([SshCheck (sw_first_check w), SshRedeem] @ failed))
         else if \<not> sw_dial w then Some (whole ([SshCheck (sw_first_check w), SshRedeem, SshDial] @ failed))
         else if \<not> sw_session w
         then Some (whole ([SshCheck (sw_first_check w), SshRedeem, SshDial, SshSession] @ failed @ [SshCloseClient]))
         else map_option (\<lambda>acts. whole ([SshCheck (sw_first_check w), SshRedeem, SshDial, SshSession] @ acts))
                (run_ssh_session h w c r))"

subsection \<open>The output is bounded\<close>

lemma to_valid_length: "length (to_valid [] bad s) \<le> length s"
proof (induction "[] :: string" bad s rule: to_valid.induct)
  case (2 bad c s)
  then show ?case using rune_width_le [of "c # s"] by (subst to_valid.simps) auto
qed simp

definition output_of :: "string \<Rightarrow> ssh_output" where
  "output_of s = \<lparr>so_data = take ssh_limit s, so_truncated = (ssh_limit < length s)\<rparr>"

lemma ssh_write_output: "ssh_write d (output_of s) = output_of (s @ d)"
  by (cases "length s \<le> ssh_limit") (auto simp: ssh_write_def output_of_def Let_def min_def)

lemma fold_ssh_write: "fold ssh_write ds (output_of s) = output_of (s @ concat ds)"
  by (induction ds arbitrary: s) (simp_all add: ssh_write_output)

lemma no_output_of: "no_output = output_of []"
  by (simp add: no_output_def output_of_def)

lemma snapshot_length: "length (fst (ssh_snapshot out)) \<le> ssh_limit"
  using to_valid_length [of False "take ssh_limit (to_valid replacement_rune False (so_data out))"]
  by (simp add: ssh_snapshot_def Let_def)

text \<open>C27: However a command writes, what is kept of a stream is its first 1048576 bytes and what is reported of it is
  not longer. It is reported as truncated exactly when the stream is longer than that, or has become longer by
  replacing its invalid bytes; otherwise all of the stream, with invalid bytes replaced, is reported.\<close>

theorem ssh_output_bounded:
  "so_data (fold ssh_write ds no_output) = take ssh_limit (concat ds)
   \<and> length (fst (ssh_snapshot (fold ssh_write ds no_output))) \<le> ssh_limit
   \<and> (snd (ssh_snapshot (fold ssh_write ds no_output))
      \<longleftrightarrow> ssh_limit < length (concat ds) \<or> ssh_limit < length (to_valid replacement_rune False (concat ds)))
   \<and> (snd (ssh_snapshot (fold ssh_write ds no_output))
      \<or> fst (ssh_snapshot (fold ssh_write ds no_output)) = to_valid replacement_rune False (concat ds))"
proof -
  have out: "fold ssh_write ds no_output = output_of (concat ds)"
    unfolding no_output_of by (simp add: fold_ssh_write)
  have flag: "snd (ssh_snapshot (output_of t)) \<longleftrightarrow> ssh_limit < length t \<or> ssh_limit < length (to_valid replacement_rune False t)" for t
    by (cases "ssh_limit < length t") (simp_all add: ssh_snapshot_def output_of_def Let_def)
  have whole: "snd (ssh_snapshot (output_of t)) \<or> fst (ssh_snapshot (output_of t)) = to_valid replacement_rune False t" for t
    by (cases "ssh_limit < length t") (simp_all add: ssh_snapshot_def output_of_def Let_def)
  have kept: "so_data (output_of t) = take ssh_limit t" for t by (simp add: output_of_def)
  show ?thesis unfolding out kept flag [of "concat ds"] using flag whole snapshot_length by blast
qed

subsection \<open>What a command does\<close>

definition starts_in :: "ssh_act list \<Rightarrow> string list" where
  "starts_in acts = List.map_filter (\<lambda>a. case a of SshStart c \<Rightarrow> Some c | _ \<Rightarrow> None) acts"

definition finals_in :: "ssh_act list \<Rightarrow> (string \<times> ssh_result) list" where
  "finals_in acts = List.map_filter (\<lambda>a. case a of SshFinal s r \<Rightarrow> Some (s, r) | _ \<Rightarrow> None) acts"

definition outcomes_in :: "ssh_act list \<Rightarrow> string list" where
  "outcomes_in acts = List.map_filter (\<lambda>a. case a of SshOutcome s \<Rightarrow> Some s | _ \<Rightarrow> None) acts"

text \<open>The answers of the control plane before the command is started.\<close>

definition answers_before :: "ssh_act list \<Rightarrow> bool list" where
  "answers_before acts = List.map_filter (\<lambda>a. case a of SshCheck ok \<Rightarrow> Some ok | _ \<Rightarrow> None)
     (takeWhile (\<lambda>a. case a of SshStart c \<Rightarrow> False | _ \<Rightarrow> True) acts)"

lemmas acts_read = starts_in_def finals_in_def outcomes_in_def answers_before_def finish_ssh_def List.map_filter_def

lemma ssh_wait_status:
  "ssh_wait canceled es = Some e \<Longrightarrow>
   (sn_status e = ''completed'' \<longrightarrow> sn_exit e = Some 0 \<and> \<not> sn_canceled e) \<and> sn_effect e \<noteq> ''not_started''"
  by (induction canceled es rule: ssh_wait.induct)
     (auto simp: unknown_end_def command_end_of_def split: if_splits option.splits)

lemma final_result_fields [simp]:
  "sr_stopped (final_result h w e r)" "sr_effect (final_result h w e r) = sn_effect e"
  "sr_exit (final_result h w e r) = sn_exit e"
  by (simp_all add: final_result_def split_def Let_def)

lemma initial_result_fields [simp]:
  "sr_stopped (initial_result h t c)" "sr_effect (initial_result h t c) = ''not_started''"
  by (simp_all add: initial_result_def)

text \<open>C40: a command that ends is reported exactly once and counted once, under the same status, and as stopped;
  it is reported as not started exactly when nothing was started; at most one command is started, the
  requested one, after the request was found valid, the control plane answered twice that it is authorised and the
  credential was redeemed; and only a
  command that was started and exited with 0 is reported as completed.\<close>

theorem ssh_command_reports:
  assumes "execute_ssh_command h now t w = Some acts"
  shows "\<exists>status r. finals_in acts = [(status, r)] \<and> outcomes_in acts = [status] \<and> sr_stopped r
    \<and> (sr_effect r = ''not_started'' \<longleftrightarrow> starts_in acts = [])
    \<and> (starts_in acts = []
        \<or> starts_in acts = [sc_text (snd (sx_decode h (map_get (task_payload t) ''sshCommand'')))]
          \<and> answers_before acts = [True, True] \<and> sw_first_check w \<and> sw_second_check w \<and> sw_auth w
          \<and> ssh_command_valid h now t)
    \<and> (status = ''completed'' \<longrightarrow> sr_exit r = Some 0 \<and> starts_in acts \<noteq> [])"
proof (cases "sw_start w \<and> sw_second_check w \<and> sw_first_check w \<and> sw_auth w \<and> sw_dial w \<and> sw_session w \<and> ssh_command_valid h now t")
  case True
  then obtain e where e: "ssh_wait False (sw_events w) = Some e"
    using assms by (auto simp: execute_ssh_command_def run_ssh_session_def Let_def split: option.splits)
  from True assms ssh_wait_status [OF e] show ?thesis
    by (auto simp: execute_ssh_command_def run_ssh_session_def Let_def e acts_read)
next
  case False
  then show ?thesis using assms
    by (auto simp: execute_ssh_command_def run_ssh_session_def Let_def acts_read split: if_splits)
qed

text \<open>A start whose acknowledgement is lost: the command may run, it is reported as stopped, and the report
  comes before anything is closed; no signal is sent at all.\<close>

theorem lost_start_reported_stopped:
  assumes "ssh_command_valid h now t" and "sw_first_check w" "sw_auth w" "sw_dial w" "sw_session w" "sw_second_check w"
    and "\<not> sw_start w" "\<not> sw_expired w"
  shows "\<exists>acts r. execute_ssh_command h now t w = Some acts \<and> finals_in acts = [(''failed'', r)]
    \<and> sr_stopped r \<and> sr_effect r = ''unknown'' \<and> SshKill \<notin> set acts
    \<and> SshCloseSession \<notin> set (takeWhile (\<lambda>a. a \<noteq> SshFinal ''failed'' r) acts)"
  using assms by (simp add: execute_ssh_command_def run_ssh_session_def Let_def acts_read)


subsection \<open>An instance\<close>

definition sample_ssh_world :: ssh_world where
  "sample_ssh_world = \<lparr>sw_first_check = True, sw_auth = True, sw_dial = True, sw_session = True, sw_second_check = True,
     sw_start = True, sw_expired = False, sw_events = [StatusTick True, CommandEnds None], sw_stdout = [''ok''], sw_stderr = []\<rparr>"

definition sample_ssh_session :: ssh_input where
  "sample_ssh_session = \<lparr>si_session = ''s1'', si_agent = ''a1'', si_cluster = ''c1'', si_endpoint = ''https://cp'',
     si_address = ''10.0.0.5'', si_port = 22, si_user = ''ops'', si_cols = 80, si_rows = 24, si_expires = 60,
     si_lease = ''l1'', si_token = ''0123456789abcdef'', si_lease_expires = 60, si_kind = ''ssh_password'',
     si_host_key = ''key''\<rparr>"

definition sample_ssh_host :: ssh_host where
  "sample_ssh_host = \<lparr>sx_ports = \<lparr>sp_address_ok = (\<lambda>a. True), sp_endpoint_ok = (\<lambda>u. True), sp_host_key = (\<lambda>k. Some ([], []))\<rparr>,
     sx_cfg = \<lparr>sh_agent = ''a1'', sh_token = ''t'', sh_base = ''https://cp''\<rparr>, sx_cluster = ''c1'', sx_sha = (\<lambda>s. ''00''),
     sx_decode = (\<lambda>v. (True, \<lparr>sc_session = sample_ssh_session, sc_timeout = 30, sc_text = ''uptime''\<rparr>))\<rparr>"

definition sample_ssh_task :: exec_task where
  "sample_ssh_task = \<lparr>task_id = ''s1'', task_application = [], task_app_env = [], task_kind = ''vm_ssh_command'',
     task_provider = ''vm_ssh.c1'', task_token = ''k'', task_status = [], task_timeout = 30, task_payload = []\<rparr>"

definition sample_ssh_acts :: "ssh_act list" where
  "sample_ssh_acts = the (execute_ssh_command sample_ssh_host 0 sample_ssh_task sample_ssh_world)"

lemma sample_ssh_run:
  "execute_ssh_command sample_ssh_host 0 sample_ssh_task sample_ssh_world = Some sample_ssh_acts"
proof -
  have "ssh_command_valid sample_ssh_host 0 sample_ssh_task" by code_simp
  then show ?thesis
    by (simp add: sample_ssh_acts_def execute_ssh_command_def run_ssh_session_def Let_def sample_ssh_world_def)
qed

lemma ssh_command_reports_witness:
  "\<exists>status r. finals_in sample_ssh_acts = [(status, r)] \<and> outcomes_in sample_ssh_acts = [status] \<and> sr_stopped r"
  using ssh_command_reports [OF sample_ssh_run] by blast

end
