(* ===== verification/Spec2Isabelle.thy ===== *)
theory Spec2Isabelle
  imports EnvConcurrency Executor ProviderRegistry Outpost GuestClient GuestData AgentRoutes ApiSessions PodLogs DockerResults DockerJobResults LeaseSpec RunnerLoops AgentResults DockerRuntimeResults SshCommand
begin

text \<open>
  A verification development for soha-agent, the agent that a Soha control plane runs next to a cluster or a Docker host.

  \<^bold>\<open>The program.\<close> The agent polls a control plane for work and carries it out (\<^verbatim>\<open>internal/agent/runner\<close>), keeps environments in
  which agents run (\<^verbatim>\<open>internal/agent/environment\<close>), serves an HTTP API over a cluster (\<^verbatim>\<open>internal/agent/api\<close> over
  \<^verbatim>\<open>internal/agent/kubernetes\<close>), and has a companion inside personal virtual machines
  (\<^verbatim>\<open>internal/agent/environment/personalguest\<close>). The theories follow this division; each opens with what it models.

  \<^bold>\<open>How the parts interact.\<close> The runner's loops share execution slots; what they claim runs beside heartbeats and is
  reported with retries, every report redacted. A task runs commands in a workspace below the runner's root. An operation on a
  Compose project drives Docker and Git on the host after the control plane has confirmed it. An agent run acquires a
  provider of the registry, calls tools through the control plane and either starts a command or holds a conversation with a
  Hermes server. The environment manager keeps a ledger of leases and calls backends, one of which drives Docker. The API guards
  every call of the cluster by tokens and allowed actions, and keeps SSH sessions and port forwards.

  \<^bold>\<open>Environments.\<close>
  \<^item> \<open>Leases\<close>, \<open>LeaseSpec\<close> (\<^verbatim>\<open>environment/manager.go\<close>): the ledger and its operations, the locale \<open>lease_ledger\<close> of what
    the runtime relies on with its interpretation, and the refinement of an abstract ledger over whole histories of calls.
  \<^item> \<open>GoPath\<close>, \<open>EnvRuntime\<close>, \<open>EnvConcurrency\<close> (\<^verbatim>\<open>environment/runtime.go\<close>): the check that a workspace resolves below its
    root over an abstract file system, acquisition, release and collection over ledger and backends, and the
    interleaving of concurrent calls as a step relation with a ghost set of what really runs.
  \<^item> \<open>DockerCli\<close>, \<open>DockerExec\<close>, \<open>DockerSafety\<close>, \<open>DockerResults\<close> (\<^verbatim>\<open>environment/docker_*.go\<close>, \<^verbatim>\<open>personal.go\<close>): every operation
    of the Docker executor over a log of commands with their answers. A small Hoare logic over the log and the locales
    \<open>docker_upkeep\<close>, \<open>docker_calls\<close> and \<open>docker_lifecycle\<close> prove each operation once for all policies of allowed commands; the
    policies are interpretations.
  \<^item> \<open>GuestClient\<close>, \<open>GuestData\<close> (\<^verbatim>\<open>environment/personalguest\<close>): enrolment, heartbeats, renewal and the durable state of a guest,
    and the initialisation of its data disk, over worlds in which the process can be killed at any effect.

  \<^bold>\<open>The runner.\<close>
  \<^item> \<open>GoValue\<close>, \<open>RunnerPayload\<close>, \<open>SecretLease\<close>: values of payloads, their readers, redaction, and secret leases.
  \<^item> \<open>RunnerState\<close>, \<open>RunnerLoops\<close> (\<^verbatim>\<open>New\<close>, \<^verbatim>\<open>Start\<close>, the loops and claims of \<^verbatim>\<open>runner.go\<close>, \<^verbatim>\<open>helm.go\<close>): slots, metrics,
    active tasks, reports with retries; the loops as a step relation with its invariant.
  \<^item> \<open>Executor\<close>: one task from the secret lease to its last report, with the events that arrive beside it.
  \<^item> \<open>ComposeWork\<close>, \<open>DockerJobs\<close>, \<open>ComposeSafety\<close>, \<open>DockerJobResults\<close> (\<^verbatim>\<open>docker_payload.go\<close>, \<^verbatim>\<open>docker_delivery.go\<close>,
    \<^verbatim>\<open>docker_git.go\<close>, \<^verbatim>\<open>executeDockerOperation\<close>): programs over a log of acts on the host, the locales \<open>host_policy\<close>,
    \<open>preflight_policy\<close>, \<open>project_policy\<close> and \<open>told_policy\<close>, and the operation as a whole. \<open>EventLog\<close> is what the two logics
    over logs share.
  \<^item> \<open>ProviderRegistry\<close> (\<^verbatim>\<open>provider_registry.go\<close>, \<^verbatim>\<open>provider_readiness.go\<close>): catalogs of agent providers, activation, roll
    back, and the runs that hold a provider.
  \<^item> \<open>GoRunes\<close>, \<open>AgentRuns\<close>, \<open>HermesChat\<close>, \<open>AgentJobs\<close>, \<open>AgentSafety\<close>, \<open>AgentResults\<close> (\<^verbatim>\<open>executeAgentRun\<close>, \<^verbatim>\<open>chat_tools.go\<close>,
    \<^verbatim>\<open>hermes_api.go\<close>, \<^verbatim>\<open>hermes_health.go\<close>): agent runs and conversations, with the locales \<open>report_policy\<close> and
    \<open>run_policy\<close> of what reports may show.
  \<^item> \<open>SshCommand\<close> (\<^verbatim>\<open>ssh_command.go\<close>): one SSH command from its checks to its report, over the events that arrive.
  \<^item> \<open>Outpost\<close> (\<^verbatim>\<open>outpost.go\<close>, \<^verbatim>\<open>api/routes_outpost.go\<close>): signed configurations, routing and access checks.

  \<^bold>\<open>The API.\<close>
  \<^item> \<open>Access\<close>, \<open>AgentRoutes\<close>: tokens, actions, origins; every route that changes the cluster or needs an action, with its guards,
    the checks of its handler and the call it makes.
  \<^item> \<open>DockerRuntime\<close>, \<open>DockerRuntimeResults\<close> (\<^verbatim>\<open>api/docker_runtime.go\<close>): logs, terminal and volume files of Compose projects over a
    world that answers, and the shell's reading of the scripts they run.
  \<^item> \<open>ApiSessions\<close>: SSH sessions, port forwards, terminal sizes. \<open>PodLogs\<close>: the merge of the logs of several pods.

  \<^bold>\<open>Conventions.\<close> A Go string is the list of its bytes; a Go map an association list; an operation under a mutex an atomic
  function of the state; an error a constructor of a sum or option; time an argument. What is outside \<^verbatim>\<open>src\<close>, the control plane,
  Docker, Git, the cluster, the file system, a Hermes server, cryptography and JSON, is a parameter that may answer
  anything, and where the answers depend on the past, a function of the log of what happened. Goroutines that
  share state interleave as steps of a relation or as lists of events at named points.

  \<^bold>\<open>What the properties show.\<close> Invariants of every history (ledger and runtime, registry, slots, sessions, the guest's state
  file); safety over logs (which Docker commands, host acts, cluster calls, formats and requests can happen, and after
  what); confinement of paths; secrecy of reports and published text; functional behaviour with all errors; refinement and
  equivalence with specifications; and where the code does not do what it means to, the theorem that says what
  it does.

  \<^bold>\<open>Bounds and fuel.\<close> Only two recursions have fuel, the climb of the workspace check to an existing directory and the retries of a
  report: the first is bounded by the number of components of the path, which \<open>validate_workspace_returns\<close> shows to be
  enough, the second by the configured attempts, as in the code. All other loops recurse over data or have a termination proof.
  Integers are \<open>int\<close> or \<open>nat\<close> with the wrap-around written out where the code can overflow (durations, terminal sizes),
  revisions of catalogs are 64-bit words.

  \<^bold>\<open>Not modelled.\<close> Reading routes and the client of the Kubernetes API (\<^verbatim>\<open>kubernetes/client.go\<close>, \<^verbatim>\<open>gateway.go\<close>, the list and view
  builders): translations of cluster objects into answers without a state of their own. Configuration files, logging,
  start-up and commands: glue. The byte pumps of exec, attach, SSH, port forwards and exports; TLS and certificates; the
  file-system effects of the guest's Linux files. Task kinds that only hand a task to Helm, to the cluster or to a build tool
  (\<^verbatim>\<open>helm.go\<close>, \<^verbatim>\<open>manifest.go\<close>, \<^verbatim>\<open>buildpacks*.go\<close>), the checkout of a workspace and the HTTP exchange of
  the registry's synchronisation.
\<close>

end
